(* ===== verification/Prelude.thy ===== *)
theory Prelude
  imports Main
begin

text \<open>
  The shared base of the development.  It fixes how the Go code is read in HOL:

  \<^item> a Go \<^verbatim>\<open>string\<close> or \<^verbatim>\<open>[]byte\<close> is a \<^typ>\<open>string\<close>, a list of 8-bit characters, so that
    \<^verbatim>\<open>len(s)\<close> is \<^const>\<open>length\<close> and \<^verbatim>\<open>s[i:j]\<close> is built from \<^const>\<open>take\<close> and \<^const>\<open>drop\<close>;
  \<^item> a pair \<^verbatim>\<open>(value, error)\<close> is a sum, \<^verbatim>\<open>Inl\<close> the error and \<^verbatim>\<open>Inr\<close> the value;
  \<^item> a method with effects is a \<^verbatim>\<open>proc\<close>: it takes the state and returns the outcome with the new
    state, so that whatever a failed call has already written is still there.

  The \<^verbatim>\<open>named_theorems\<close> collections below are filled by the component theories: \<^verbatim>\<open>ops\<close> holds the
  unfoldings of the operations, \<^verbatim>\<open>inv_defs\<close> those of the invariants, and \<^verbatim>\<open>proc_simps\<close> the
  equations that run a \<^verbatim>\<open>proc\<close>.
\<close>

named_theorems ops "definitions of the operations of a component"
named_theorems inv_defs "definitions of the invariants of a component"
named_theorems proc_simps "equations that run a stateful operation"

type_synonym ('e, 'a) result = "'e + 'a"
type_synonym ('s, 'e, 'a) proc = "'s \<Rightarrow> ('e, 'a) result \<times> 's"

section \<open>Stateful operations that may fail\<close>

definition ret :: "'a \<Rightarrow> ('s, 'e, 'a) proc" where
  "ret x = (\<lambda>s. (Inr x, s))"

definition throw :: "'e \<Rightarrow> ('s, 'e, 'a) proc" where
  "throw e = (\<lambda>s. (Inl e, s))"

definition bindE :: "('s, 'e, 'a) proc \<Rightarrow> ('a \<Rightarrow> ('s, 'e, 'b) proc) \<Rightarrow> ('s, 'e, 'b) proc" where
  "bindE m k = (\<lambda>s. case m s of (Inl e, s') \<Rightarrow> (Inl e, s') | (Inr x, s') \<Rightarrow> k x s')"

definition gets :: "('s \<Rightarrow> 'a) \<Rightarrow> ('s, 'e, 'a) proc" where
  "gets f = (\<lambda>s. (Inr (f s), s))"

definition modify :: "('s \<Rightarrow> 's) \<Rightarrow> ('s, 'e, unit) proc" where
  "modify f = (\<lambda>s. (Inr (), f s))"

text \<open>A call whose error the caller inspects: the outcome becomes a value.\<close>

definition attempt :: "('s, 'e, 'a) proc \<Rightarrow> ('s, 'e2, ('e, 'a) result) proc" where
  "attempt m = (\<lambda>s. case m s of (r, s') \<Rightarrow> (Inr r, s'))"

definition mapErr :: "('e \<Rightarrow> 'e2) \<Rightarrow> ('s, 'e, 'a) proc \<Rightarrow> ('s, 'e2, 'a) proc" where
  "mapErr f m = (\<lambda>s. case m s of (Inl e, s') \<Rightarrow> (Inl (f e), s') | (Inr x, s') \<Rightarrow> (Inr x, s'))"

text \<open>\<^verbatim>\<open>for _, x := range xs { if err := f(x); err != nil { return err } }\<close>.\<close>

fun forEach :: "('a \<Rightarrow> ('s, 'e, unit) proc) \<Rightarrow> 'a list \<Rightarrow> ('s, 'e, unit) proc" where
  "forEach f [] = ret ()"
| "forEach f (x # xs) = bindE (f x) (\<lambda>_. forEach f xs)"

lemma ret_run [proc_simps, simp]: "ret x s = (Inr x, s)"
  by (simp add: ret_def)

lemma throw_run [proc_simps, simp]: "throw e s = (Inl e, s)"
  by (simp add: throw_def)

lemma gets_run [proc_simps, simp]: "gets f s = (Inr (f s), s)"
  by (simp add: gets_def)

lemma modify_run [proc_simps, simp]: "modify f s = (Inr (), f s)"
  by (simp add: modify_def)

lemma bindE_ret [simp]: "bindE (ret x) k = k x"
  by (simp add: bindE_def fun_eq_iff)

lemma bindE_throw [simp]: "bindE (throw e) k = throw e"
  by (simp add: bindE_def fun_eq_iff)

lemma bindE_assoc: "bindE (bindE m k) h = bindE m (\<lambda>x. bindE (k x) h)"
  by (auto simp: bindE_def fun_eq_iff split: prod.splits sum.splits)

text \<open>The two ways in which a sequence runs, used to step through an operation.\<close>

lemma bindE_run [proc_simps]:
  "bindE m k s = (case m s of (Inl e, s') \<Rightarrow> (Inl e, s') | (Inr x, s') \<Rightarrow> k x s')"
  by (simp add: bindE_def)

lemma attempt_run [proc_simps]: "attempt m s = (Inr (fst (m s)), snd (m s))"
  by (simp add: attempt_def split: prod.splits)

lemma mapErr_run [proc_simps]:
  "mapErr f m s = (case m s of (Inl e, s') \<Rightarrow> (Inl (f e), s') | (Inr x, s') \<Rightarrow> (Inr x, s'))"
  by (simp add: mapErr_def)

lemma bindE_Inr:
  assumes "bindE m k s = (Inr y, s')"
  obtains x t where "m s = (Inr x, t)" and "k x t = (Inr y, s')"
  using assms by (auto simp: bindE_def split: prod.splits sum.splits)

text \<open>A predicate on states that an operation keeps, whatever its outcome.\<close>

definition keeps :: "('s \<Rightarrow> bool) \<Rightarrow> ('s, 'e, 'a) proc \<Rightarrow> bool" where
  "keeps P m \<longleftrightarrow> (\<forall>s. P s \<longrightarrow> P (snd (m s)))"

lemma keepsI [intro?]: "(\<And>s. P s \<Longrightarrow> P (snd (m s))) \<Longrightarrow> keeps P m"
  by (simp add: keeps_def)

lemma keepsD: "keeps P m \<Longrightarrow> P s \<Longrightarrow> P (snd (m s))"
  by (simp add: keeps_def)

lemma keeps_ret [simp, intro]: "keeps P (ret x)"
  by (simp add: keeps_def)

lemma keeps_throw [simp, intro]: "keeps P (throw e)"
  by (simp add: keeps_def)

lemma keeps_gets [simp, intro]: "keeps P (gets f)"
  by (simp add: keeps_def)

lemma keeps_bindE [intro]: "keeps P m \<Longrightarrow> (\<And>x. keeps P (k x)) \<Longrightarrow> keeps P (bindE m k)"
  by (fastforce simp: keeps_def bindE_def split: prod.splits sum.splits)

lemma keeps_attempt [intro]: "keeps P m \<Longrightarrow> keeps P (attempt m)"
  by (auto simp: keeps_def attempt_def split: prod.splits)

lemma keeps_mapErr [intro]: "keeps P m \<Longrightarrow> keeps P (mapErr f m)"
  by (fastforce simp: keeps_def mapErr_def split: prod.splits sum.splits)

lemma keeps_forEach [intro]: "(\<And>x. keeps P (f x)) \<Longrightarrow> keeps P (forEach f xs)"
  by (induction xs) auto

section \<open>Lists\<close>

lemma append_eq_cases:
  "xs @ ys = us @ vs \<longleftrightarrow>
     (\<exists>ws. us = xs @ ws \<and> ys = ws @ vs) \<or> (\<exists>ws. xs = us @ ws \<and> vs = ws @ ys)"
  by (auto simp: append_eq_append_conv2)

lemma take_append_drop3: "i + n \<le> length m \<Longrightarrow> take i m @ take n (drop i m) @ drop (i + n) m = m"
  by (metis add.commute append_take_drop_id drop_drop)

lemma find_Some_mem: "find P xs = Some x \<Longrightarrow> x \<in> set xs \<and> P x"
  by (auto simp: find_Some_iff)

lemma find_exists: "x \<in> set xs \<Longrightarrow> P x \<Longrightarrow> \<exists>y. find P xs = Some y \<and> y \<in> set xs \<and> P y"
  by (induction xs) auto

lemma distinct_map_filter_keep: "distinct (map f xs) \<Longrightarrow> distinct (map f (filter P xs))"
  by (simp add: distinct_map_filter)

section \<open>Bytes read as a number\<close>

lemma horner_bytes_less: "horner_sum of_char 256 (cs :: string) < (256 ^ length cs :: nat)"
proof (induction cs)
  case (Cons c cs)
  have "of_char c < (256 :: nat)"
    by (rule nat_of_char_less_256)
  moreover have "horner_sum of_char 256 cs + 1 \<le> (256 ^ length cs :: nat)"
    using Cons by simp
  moreover have "horner_sum of_char 256 (c # cs) = of_char c + 256 * (horner_sum of_char 256 cs :: nat)"
    and "(256 :: nat) ^ length (c # cs) = 256 * 256 ^ length cs"
    by simp_all
  ultimately show ?case
    by linarith
qed simp

end
