(* ===== verification/GoStrings.thy ===== *)
theory GoStrings
  imports Prelude
begin

text \<open>
  The functions of Go's \<^verbatim>\<open>strings\<close> package the sources call, on byte strings, with the laws the
  component proofs use.  Names follow the package; where it answers a negative index the model
  answers \<^const>\<open>None\<close>.
\<close>

definition HasPrefix :: "string \<Rightarrow> string \<Rightarrow> bool" where
  "HasPrefix s p \<longleftrightarrow> take (length p) s = p"

definition HasSuffix :: "string \<Rightarrow> string \<Rightarrow> bool" where
  "HasSuffix s p \<longleftrightarrow> length p \<le> length s \<and> drop (length s - length p) s = p"

fun Index :: "string \<Rightarrow> string \<Rightarrow> nat option" where
  "Index [] sep = (if sep = [] then Some 0 else None)"
| "Index (c # cs) sep = (if HasPrefix (c # cs) sep then Some 0 else map_option Suc (Index cs sep))"

definition Contains :: "string \<Rightarrow> string \<Rightarrow> bool" where
  "Contains s sep \<longleftrightarrow> Index s sep \<noteq> None"

text \<open>\<^verbatim>\<open>strings.Split(s, sep)\<close> for a separator of one byte: always at least one part.\<close>

fun split_on :: "char \<Rightarrow> string \<Rightarrow> string list" where
  "split_on c [] = [[]]"
| "split_on c (x # xs) =
     (if x = c then [] # split_on c xs
      else (case split_on c xs of [] \<Rightarrow> [[x]] | w # ws \<Rightarrow> (x # w) # ws))"

text \<open>\<^verbatim>\<open>strings.Cut(s, sep)\<close> for a one-byte separator: \<^const>\<open>None\<close> when it does not occur.\<close>

definition cut_at :: "char \<Rightarrow> string \<Rightarrow> (string \<times> string) option" where
  "cut_at c s = (if c \<in> set s then Some (takeWhile (\<lambda>x. x \<noteq> c) s, tl (dropWhile (\<lambda>x. x \<noteq> c) s)) else None)"

lemma cut_at_first: "c \<notin> set a \<Longrightarrow> cut_at c (a @ c # b) = Some (a, b)"
  by (induction a) (auto simp: cut_at_def)

fun Join :: "string list \<Rightarrow> string \<Rightarrow> string" where
  "Join [] sep = []"
| "Join [w] sep = w"
| "Join (w # v # ws) sep = w @ sep @ Join (v # ws) sep"

text \<open>\<^verbatim>\<open>strings.ReplaceAll(s, old, new)\<close> for a non-empty \<^verbatim>\<open>old\<close>, the only use in the sources.\<close>

function (sequential) ReplaceAll :: "string \<Rightarrow> string \<Rightarrow> string \<Rightarrow> string" where
  "ReplaceAll [] old new = []"
| "ReplaceAll (c # cs) old new =
     (if old \<noteq> [] \<and> HasPrefix (c # cs) old
      then new @ ReplaceAll (drop (length old) (c # cs)) old new
      else c # ReplaceAll cs old new)"
  by pat_completeness auto
termination
  by (relation "measure (\<lambda>(s, _, _). length s)") (auto simp: neq_Nil_conv)

text \<open>
  \<^verbatim>\<open>strings.TrimSpace\<close>: the white space of \<^verbatim>\<open>unicode.IsSpace\<close> at both ends.  \<^verbatim>\<open>space_codes\<close> lists the
  UTF-8 encodings of those runes; a string begins (ends) with such a rune exactly when it begins
  (ends) with one of these byte sequences, since each is a complete encoding.
\<close>

definition space_codes :: "nat list list" where
  "space_codes =
     [[9], [10], [11], [12], [13], [32], [194, 133], [194, 160], [225, 154, 128]]
     @ map (\<lambda>b. [226, 128, b]) [128, 129, 130, 131, 132, 133, 134, 135, 136, 137, 138, 168, 169, 175]
     @ [[226, 129, 159], [227, 128, 128]]"

definition space_runes :: "string list" where
  "space_runes = map (map char_of) space_codes"

definition leading_space :: "string list \<Rightarrow> string \<Rightarrow> string option" where
  "leading_space runes s = find (\<lambda>r. r \<noteq> [] \<and> HasPrefix s r) runes"

function trim_leading :: "string list \<Rightarrow> string \<Rightarrow> string" where
  "trim_leading runes s =
     (case leading_space runes s of None \<Rightarrow> s | Some r \<Rightarrow> trim_leading runes (drop (length r) s))"
  by pat_completeness auto
termination
proof (relation "measure (\<lambda>(_, s). length s)", goal_cases)
  case 1
  then show ?case by simp
next
  case (2 runes s r)
  then have "r \<noteq> []" and "HasPrefix s r"
    by (auto simp: leading_space_def find_Some_iff)
  then have "0 < length r" and "s \<noteq> []"
    by (auto simp: HasPrefix_def)
  then show ?case by simp
qed

declare trim_leading.simps [simp del]

definition TrimSpace :: "string \<Rightarrow> string" where
  "TrimSpace s = rev (trim_leading (map rev space_runes) (rev (trim_leading space_runes s)))"

text \<open>\<^verbatim>\<open>strings.Trim(s, cutset)\<close> for an ASCII cutset, and \<^verbatim>\<open>TrimRight\<close>/\<^verbatim>\<open>TrimLeft\<close>.\<close>

definition TrimLeft :: "string \<Rightarrow> string \<Rightarrow> string" where
  "TrimLeft s cutset = dropWhile (\<lambda>c. c \<in> set cutset) s"

definition TrimRight :: "string \<Rightarrow> string \<Rightarrow> string" where
  "TrimRight s cutset = rev (dropWhile (\<lambda>c. c \<in> set cutset) (rev s))"

definition Trim :: "string \<Rightarrow> string \<Rightarrow> string" where
  "Trim s cutset = TrimRight (TrimLeft s cutset) cutset"

definition TrimPrefix :: "string \<Rightarrow> string \<Rightarrow> string" where
  "TrimPrefix s p = (if HasPrefix s p then drop (length p) s else s)"

definition TrimSuffix :: "string \<Rightarrow> string \<Rightarrow> string" where
  "TrimSuffix s p = (if HasSuffix s p then take (length s - length p) s else s)"

text \<open>The size of the UTF-8 encoded rune a string begins with, 0 when its first bytes are no valid
  encoding; a \<^verbatim>\<open>range\<close> loop over a string then sees U+FFFD and moves one byte on.\<close>

definition cont_byte :: "nat \<Rightarrow> nat \<Rightarrow> nat \<Rightarrow> bool" where
  "cont_byte lo hi b \<longleftrightarrow> lo \<le> b \<and> b \<le> hi"

fun rune_size_nat :: "nat list \<Rightarrow> nat" where
  "rune_size_nat [] = 0"
| "rune_size_nat (a # s) =
     (if a < 128 then 1
      else case s of [] \<Rightarrow> 0 | b # s' \<Rightarrow>
        if 194 \<le> a \<and> a \<le> 223 then (if cont_byte 128 191 b then 2 else 0)
        else case s' of [] \<Rightarrow> 0 | c # s'' \<Rightarrow>
          if 224 \<le> a \<and> a \<le> 239 then
            (if cont_byte (if a = 224 then 160 else 128) (if a = 237 then 159 else 191) b
                \<and> cont_byte 128 191 c then 3 else 0)
          else case s'' of [] \<Rightarrow> 0 | d # _ \<Rightarrow>
            if 240 \<le> a \<and> a \<le> 244 then
              (if cont_byte (if a = 240 then 144 else 128) (if a = 244 then 143 else 191) b
                  \<and> cont_byte 128 191 c \<and> cont_byte 128 191 d then 4 else 0)
            else 0)"

definition rune_size :: "string \<Rightarrow> nat" where
  "rune_size s = rune_size_nat (map of_char (take 4 s))"

definition replacement_rune :: string where
  "replacement_rune = [CHR 0xEF, CHR 0xBF, CHR 0xBD]"

section \<open>Laws\<close>

lemma rune_size_ascii: "(of_char c :: nat) < 128 \<Longrightarrow> rune_size (c # s) = 1"
  by (simp add: rune_size_def)

lemma HasPrefix_iff: "HasPrefix s p \<longleftrightarrow> (\<exists>r. s = p @ r)"
  unfolding HasPrefix_def by (metis append_eq_conv_conj append_take_drop_id)

lemma HasSuffix_iff: "HasSuffix s p \<longleftrightarrow> (\<exists>r. s = r @ p)"
proof
  assume "HasSuffix s p"
  then show "\<exists>r. s = r @ p"
    unfolding HasSuffix_def by (metis append_take_drop_id)
qed (auto simp: HasSuffix_def)

lemma HasPrefix_length: "HasPrefix s p \<Longrightarrow> length p \<le> length s"
  by (auto simp: HasPrefix_iff)

lemma HasSuffix_length: "HasSuffix s p \<Longrightarrow> length p \<le> length s"
  by (simp add: HasSuffix_def)

lemma HasPrefix_Nil [simp]: "HasPrefix s []"
  by (simp add: HasPrefix_def)

lemma HasPrefix_Cons [simp]: "HasPrefix (c # s) (d # p) \<longleftrightarrow> c = d \<and> HasPrefix s p"
  by (auto simp: HasPrefix_def)

lemma HasPrefix_empty [simp]: "HasPrefix [] (d # p) \<longleftrightarrow> False"
  by (simp add: HasPrefix_def)

lemma Index_Some:
  "Index m s = Some i \<Longrightarrow> m = take i m @ s @ drop (i + length s) m \<and> i + length s \<le> length m"
proof (induction m s arbitrary: i rule: Index.induct)
  case (2 c cs sep)
  show ?case
  proof (cases "HasPrefix (c # cs) sep")
    case True
    then obtain r where r: "c # cs = sep @ r"
      by (auto simp: HasPrefix_iff)
    have "i = 0"
      using 2 True by simp
    then show ?thesis
      unfolding r by simp
  next
    case False
    then obtain j where "i = Suc j" and "Index cs sep = Some j"
      using 2 by auto
    then show ?thesis
      using 2 False by auto
  qed
qed (auto split: if_splits)

lemma Index_leftmost:
  "m = u @ s @ v \<Longrightarrow> \<exists>i. Index m s = Some i \<and> i \<le> length u"
proof (induction m s arbitrary: u rule: Index.induct)
  case (2 c cs sep)
  show ?case
  proof (cases "HasPrefix (c # cs) sep")
    case False
    then obtain u' where "u = c # u'" and "cs = u' @ sep @ v"
      using 2 by (cases u) (auto simp: HasPrefix_iff)
    moreover obtain j where "Index cs sep = Some j" "j \<le> length u'"
      using 2(1) [OF False] \<open>cs = u' @ sep @ v\<close> by blast
    ultimately show ?thesis
      using False by simp
  qed simp
qed simp

lemma Index_None: "Index m s = None \<longleftrightarrow> (\<nexists>u v. m = u @ s @ v)"
  by (metis Index_Some Index_leftmost not_None_eq)

lemma Contains_iff: "Contains m s \<longleftrightarrow> (\<exists>u v. m = u @ s @ v)"
  by (simp add: Contains_def Index_None)

lemma Contains_char [simp]: "Contains m [c] \<longleftrightarrow> c \<in> set m"
  by (auto simp: Contains_iff in_set_conv_decomp)

lemma split_on_not_Nil [simp]: "split_on c s \<noteq> []"
  by (cases s) (auto split: list.splits)

lemma split_on_free: "w \<in> set (split_on c s) \<Longrightarrow> c \<notin> set w"
  by (induction s arbitrary: w) (auto split: if_splits list.splits)

lemma split_on_id: "c \<notin> set s \<Longrightarrow> split_on c s = [s]"
  by (induction s) auto

lemma Join_Cons: "ws \<noteq> [] \<Longrightarrow> Join (w # ws) sep = w @ sep @ Join ws sep"
  by (cases ws) auto

lemma Join_cons_head: "Join ((x # w) # ws) sep = x # Join (w # ws) sep"
  by (cases ws) auto

lemma Join_split_on [simp]: "Join (split_on c s) [c] = s"
  by (induction s) (auto simp: Join_Cons Join_cons_head split: list.splits)

lemma split_on_append: "c \<notin> set w \<Longrightarrow> split_on c (w @ c # s) = w # split_on c s"
  by (induction w) auto

lemma split_on_Join:
  "ws \<noteq> [] \<Longrightarrow> (\<forall>w\<in>set ws. c \<notin> set w) \<Longrightarrow> split_on c (Join ws [c]) = ws"
proof (induction ws)
  case (Cons w ws)
  then show ?case
    by (cases ws) (auto simp: split_on_id split_on_append)
qed simp

lemma length_Join:
  "length (Join ws sep) = sum_list (map length ws) + (length ws - 1) * length sep"
  by (induction ws sep rule: Join.induct) auto

end
