(* ===== verification/BranchPattern.thy ===== *)
theory BranchPattern
  imports GoStrings
begin

text \<open>
  \<^verbatim>\<open>internal/branch/pattern.go\<close>: the wildcard patterns of branch surfing and of branch rules.
  \<^verbatim>\<open>MatchPattern\<close> is the segment matcher of the code.  \<^verbatim>\<open>glob\<close> is the reference: a character-wise
  matcher in which a star stands for any run of characters.  The main results are that the two
  agree on every pattern and name, and that \<^verbatim>\<open>CollapseWildcards\<close> is a canonical form: it never
  changes what a pattern matches, and two patterns that match the same names collapse to the same
  pattern.
\<close>

abbreviation star :: char where
  "star \<equiv> CHR 0x2A"

section \<open>The code\<close>

text \<open>The loop over the inner segments, each taken at its leftmost occurrence.\<close>

fun match_inner :: "string list \<Rightarrow> string \<Rightarrow> bool" where
  "match_inner [] rest = True"
| "match_inner (segment # segments) rest =
     (case Index rest segment of
        None \<Rightarrow> False
      | Some index \<Rightarrow> match_inner segments (drop (index + length segment) rest))"

definition MatchPattern :: "string \<Rightarrow> string \<Rightarrow> bool" where
  "MatchPattern pattern name =
     (if pattern = [] then False
      else if \<not> Contains pattern [star] then pattern = name
      else
        let segments = split_on star pattern;
            prefix = hd segments;
            suffix = last segments
        in if \<not> HasPrefix name prefix \<or> \<not> HasSuffix name suffix then False
           else if length prefix + length suffix > length name then False
           else match_inner (butlast (tl segments))
                  (drop (length prefix) (take (length name - length suffix) name)))"

lemma ReplaceAll_le: "length new \<le> length old \<Longrightarrow> length (ReplaceAll s old new) \<le> length s"
proof (induction s old new rule: ReplaceAll.induct)
  case (2 c cs old new)
  show ?case
  proof (cases "old \<noteq> [] \<and> HasPrefix (c # cs) old")
    case True
    then show ?thesis
      using 2(1) [OF True 2(3)] HasPrefix_length [of "c # cs" old] 2(3) by simp
  next
    case False
    then show ?thesis
      using 2(2) [OF False 2(3)] by auto
  qed
qed simp

lemma ReplaceAll_shrinks:
  "length new < length old \<Longrightarrow> Contains s old \<Longrightarrow> length (ReplaceAll s old new) < length s"
proof (induction s old new rule: ReplaceAll.induct)
  case (1 old new)
  then show ?case by (auto simp: Contains_iff)
next
  case (2 c cs old new)
  show ?case
  proof (cases "HasPrefix (c # cs) old")
    case True
    have ne: "old \<noteq> []"
      using 2 by auto
    have "length old \<le> length (c # cs)"
      using True by (rule HasPrefix_length)
    moreover have "length (ReplaceAll (drop (length old) (c # cs)) old new)
        \<le> length (drop (length old) (c # cs))"
      using 2(3) by (intro ReplaceAll_le) simp
    ultimately show ?thesis
      using True ne 2(3) by simp
  next
    case False
    then have "Contains cs old"
      using 2(4) unfolding Contains_def by auto
    then show ?thesis
      using False 2 by simp
  qed
qed

function CollapseWildcards :: "string \<Rightarrow> string" where
  "CollapseWildcards pattern =
     (if Contains pattern [star, star]
      then CollapseWildcards (ReplaceAll pattern [star, star] [star])
      else pattern)"
  by pat_completeness auto
termination
  by (relation "measure length") (auto simp: ReplaceAll_shrinks)

declare CollapseWildcards.simps [simp del]

section \<open>The reference matcher\<close>

function (sequential) glob :: "string \<Rightarrow> string \<Rightarrow> bool" where
  "glob [] name = (name = [])"
| "glob (c # p) [] = (c = star \<and> glob p [])"
| "glob (c # p) (x # name) =
     (if c = star then glob p (x # name) \<or> glob (c # p) name else c = x \<and> glob p name)"
  by pat_completeness auto
termination
  by (relation "measure (\<lambda>(p, n). length p + length n)") auto

lemma glob_star_append: "glob p v \<Longrightarrow> glob (star # p) (u @ v)"
proof (induction u)
  case Nil
  then show ?case by (cases v) auto
qed simp

lemma glob_star: "glob (star # p) name \<longleftrightarrow> (\<exists>u v. name = u @ v \<and> glob p v)"
proof
  show "glob (star # p) name \<Longrightarrow> \<exists>u v. name = u @ v \<and> glob p v"
  proof (induction name)
    case (Cons x name)
    then consider "glob p (x # name)" | "glob (star # p) name" by auto
    then show ?case
    proof cases
      case 1
      then show ?thesis by (metis append_Nil)
    next
      case 2
      then show ?thesis using Cons by (metis append_Cons)
    qed
  qed simp
qed (auto intro: glob_star_append)

lemma glob_literal:
  "star \<notin> set s \<Longrightarrow> glob (s @ p) name \<longleftrightarrow> (\<exists>v. name = s @ v \<and> glob p v)"
proof (induction s arbitrary: name)
  case (Cons c s)
  then show ?case by (cases name) auto
qed simp

lemma glob_same: "star \<notin> set s \<Longrightarrow> glob s name \<longleftrightarrow> name = s"
  using glob_literal [of s "[]" name] by simp

text \<open>What the inner segments mean: they occur in order, without overlap.\<close>

fun in_order :: "string list \<Rightarrow> string \<Rightarrow> bool" where
  "in_order [] m \<longleftrightarrow> True"
| "in_order (s # ss) m \<longleftrightarrow> (\<exists>u v. m = u @ s @ v \<and> in_order ss v)"

lemma in_order_prepend: "in_order ss v \<Longrightarrow> in_order ss (u @ v)"
  by (cases ss) (auto, metis append.assoc)

text \<open>Taking the leftmost occurrence loses nothing.\<close>

lemma match_inner_in_order: "match_inner ss m \<longleftrightarrow> in_order ss m"
proof (induction ss arbitrary: m)
  case (Cons s ss)
  show ?case
  proof
    assume "match_inner (s # ss) m"
    then obtain i where "Index m s = Some i" and "in_order ss (drop (i + length s) m)"
      by (auto simp: Cons split: option.splits)
    then show "in_order (s # ss) m"
      using Index_Some by (metis in_order.simps(2))
  next
    assume "in_order (s # ss) m"
    then obtain u v where m: "m = u @ s @ v" and v: "in_order ss v"
      by auto
    obtain i where i: "Index m s = Some i" "i \<le> length u"
      using Index_leftmost [OF m] by blast
    have "drop (i + length s) m = drop (i + length s) (u @ s) @ v"
      using i(2) m by simp
    then show "match_inner (s # ss) m"
      using i(1) in_order_prepend [OF v, of "drop (i + length s) (u @ s)"] by (simp add: Cons)
  qed
qed simp

lemma glob_inner:
  assumes "\<forall>s\<in>set ss. star \<notin> set s" and "star \<notin> set suffix"
  shows "glob (star # Join (ss @ [suffix]) [star]) name \<longleftrightarrow>
           (\<exists>m. name = m @ suffix \<and> in_order ss m)"
  using assms
proof (induction ss arbitrary: name)
  case Nil
  then show ?case by (auto simp: glob_star glob_same)
next
  case (Cons s ss)
  have "glob (star # Join ((s # ss) @ [suffix]) [star]) name \<longleftrightarrow>
          (\<exists>u v. name = u @ s @ v \<and> glob (star # Join (ss @ [suffix]) [star]) v)"
    using Cons.prems
    by (auto simp: glob_star [where name = name] Join_Cons glob_literal simp del: glob.simps)
  also have "\<dots> \<longleftrightarrow> (\<exists>u m. name = u @ s @ m @ suffix \<and> in_order ss m)"
    using Cons by (simp del: glob.simps) blast
  also have "\<dots> \<longleftrightarrow> (\<exists>m. name = m @ suffix \<and> in_order (s # ss) m)"
    by (simp, metis append.assoc)
  finally show ?case .
qed

lemma MatchPattern_wild:
  assumes "star \<in> set pattern"
  obtains prefix ss suffix where "split_on star pattern = prefix # ss @ [suffix]"
    and "pattern = prefix @ star # Join (ss @ [suffix]) [star]"
    and "star \<notin> set prefix" and "\<forall>s\<in>set ss. star \<notin> set s" and "star \<notin> set suffix"
proof -
  obtain prefix rest where p: "split_on star pattern = prefix # rest"
    by (metis split_on_not_Nil neq_Nil_conv)
  have "rest \<noteq> []"
    using p assms Join_split_on [of star pattern] split_on_free [of prefix star pattern] by auto
  then obtain ss suffix where r: "rest = ss @ [suffix]"
    by (metis rev_exhaust)
  moreover have "pattern = prefix @ star # Join (ss @ [suffix]) [star]"
    using Join_split_on [of star pattern] \<open>rest \<noteq> []\<close> by (simp add: p r Join_Cons)
  ultimately show ?thesis
    using p split_on_free [of _ star pattern] by (intro that) auto
qed

lemma split_anchors:
  assumes "length prefix + length suffix \<le> length name"
    and "HasPrefix name prefix" and "HasSuffix name suffix"
  shows "name = prefix @ drop (length prefix) (take (length name - length suffix) name) @ suffix"
proof -
  have "take (length prefix) (take (length name - length suffix) name) = prefix"
    using assms by (simp add: HasPrefix_def min_absorb1)
  then have "take (length name - length suffix) name =
      prefix @ drop (length prefix) (take (length name - length suffix) name)"
    by (metis append_take_drop_id)
  then show ?thesis
    using assms(3) by (metis HasSuffix_def append_take_drop_id append.assoc)
qed

lemma MatchPattern_glob: "MatchPattern pattern name \<longleftrightarrow> pattern \<noteq> [] \<and> glob pattern name"
proof (cases "star \<in> set pattern")
  case True
  obtain prefix ss suffix where sp: "split_on star pattern = prefix # ss @ [suffix]"
    and p: "pattern = prefix @ star # Join (ss @ [suffix]) [star]"
    and free: "star \<notin> set prefix" "\<forall>s\<in>set ss. star \<notin> set s" "star \<notin> set suffix"
    using MatchPattern_wild [OF True] by blast
  have "glob pattern name \<longleftrightarrow> (\<exists>m. name = prefix @ m @ suffix \<and> in_order ss m)"
    unfolding p using free by (auto simp: glob_literal glob_inner simp del: glob.simps)
  also have "\<dots> \<longleftrightarrow> MatchPattern pattern name"
  proof
    assume "\<exists>m. name = prefix @ m @ suffix \<and> in_order ss m"
    then show "MatchPattern pattern name"
      using True sp by (auto simp: MatchPattern_def match_inner_in_order HasPrefix_iff HasSuffix_iff)
  next
    assume mp: "MatchPattern pattern name"
    let ?m = "drop (length prefix) (take (length name - length suffix) name)"
    have "HasPrefix name prefix" "HasSuffix name suffix"
        "length prefix + length suffix \<le> length name" "in_order ss ?m"
      using mp True sp
      by (auto simp: MatchPattern_def match_inner_in_order Let_def split: if_splits)
    then show "\<exists>m. name = prefix @ m @ suffix \<and> in_order ss m"
      using split_anchors by blast
  qed
  finally show ?thesis
    using True by auto
next
  case False
  then show ?thesis
    by (auto simp: MatchPattern_def glob_same)
qed

section \<open>Collapsing wildcards\<close>

text \<open>The collapsed pattern in one pass; the flag says that a star has just been written.\<close>

fun squeeze :: "bool \<Rightarrow> string \<Rightarrow> string" where
  "squeeze b [] = []"
| "squeeze b (c # p) =
     (if c = star then (if b then squeeze True p else star # squeeze True p)
      else c # squeeze False p)"

lemma squeeze_ReplaceAll: "squeeze b (ReplaceAll p [star, star] [star]) = squeeze b p"
proof (induction p "[star, star]" "[star]" arbitrary: b rule: ReplaceAll.induct)
  case (2 c cs)
  show ?case
  proof (cases "HasPrefix (c # cs) [star, star]")
    case True
    then obtain r where "c # cs = star # star # r"
      by (auto simp: HasPrefix_iff)
    then show ?thesis
      using 2(1) True by simp
  next
    case False
    then show ?thesis
      using 2(2) by simp
  qed
qed simp

lemma squeeze_id:
  "\<not> Contains p [star, star] \<Longrightarrow> (b \<Longrightarrow> \<not> HasPrefix p [star]) \<Longrightarrow> squeeze b p = p"
proof (induction p arbitrary: b)
  case (Cons c p)
  then have "\<not> Contains p [star, star]" and "c = star \<Longrightarrow> \<not> HasPrefix p [star]"
    unfolding Contains_def by (auto split: if_splits)
  with Cons show ?case by auto
qed simp

lemma CollapseWildcards_squeeze: "CollapseWildcards p = squeeze False p"
proof (induction p rule: CollapseWildcards.induct)
  case (1 p)
  then show ?case
    by (cases "Contains p [star, star]")
      (simp_all add: CollapseWildcards.simps [of p] squeeze_ReplaceAll squeeze_id)
qed

lemma CollapseWildcards_normal: "\<not> Contains (CollapseWildcards p) [star, star]"
proof (induction p rule: CollapseWildcards.induct)
  case (1 p)
  then show ?case
    by (cases "Contains p [star, star]") (simp_all add: CollapseWildcards.simps [of p])
qed

lemma glob_squeeze:
  "glob (squeeze False p) name = glob p name"
  "glob (star # squeeze True p) name = glob (star # p) name"
proof (induction p arbitrary: name)
  case (Cons c p)
  have star2: "glob (star # star # p) m = glob (star # p) m" for m
    by (auto simp: glob_star simp del: glob.simps) (metis append.assoc)
  {
    case 1
    show ?case
    proof (cases "c = star")
      case True
      then show ?thesis
        using Cons(2) by (simp del: glob.simps)
    next
      case False
      then show ?thesis
        using Cons(1) by (cases name) auto
    qed
  next
    case 2
    show ?case
    proof (cases "c = star")
      case True
      then show ?thesis
        using Cons(2) star2 by (simp del: glob.simps)
    next
      case False
      have "glob (c # squeeze False p) m = glob (c # p) m" for m
        using Cons(1) False by (cases m) auto
      then show ?thesis
        using False by (simp add: glob_star del: glob.simps)
    qed
  }
qed auto

lemma squeeze_subset: "set (squeeze b p) \<subseteq> set p"
  by (induction p arbitrary: b) (auto split: if_splits)

lemma CollapseWildcards_empty_iff: "CollapseWildcards p = [] \<longleftrightarrow> p = []"
  by (cases p) (auto simp: CollapseWildcards_squeeze)

lemma MatchPattern_CollapseWildcards: "MatchPattern (CollapseWildcards p) name = MatchPattern p name"
  using CollapseWildcards_empty_iff [of p]
  by (simp add: MatchPattern_glob CollapseWildcards_squeeze glob_squeeze)

text \<open>The literals of a pattern are its shortest match, and the pattern with every star read as
  some fresh character is another.\<close>

definition literals :: "string \<Rightarrow> string" where
  "literals p = filter (\<lambda>c. c \<noteq> star) p"

definition instance_of :: "char \<Rightarrow> string \<Rightarrow> string" where
  "instance_of x p = map (\<lambda>c. if c = star then x else c) p"

lemma glob_literals: "glob p (literals p)"
proof (induction p)
  case (Cons c p)
  then show ?case
    using glob_star_append [of p "literals p" "[]"] by (auto simp: literals_def)
qed (simp add: literals_def)

lemma glob_instance: "glob p (instance_of x p)"
proof (induction p)
  case (Cons c p)
  then show ?case
    using glob_star_append [of p "instance_of x p" "[x]"] by (auto simp: instance_of_def)
qed (simp add: instance_of_def)

lemma glob_literals_le:
  "glob q w \<Longrightarrow> x \<notin> set (literals q) \<Longrightarrow>
     length (literals q) \<le> length (filter (\<lambda>c. c \<noteq> x) w)"
proof (induction q w rule: glob.induct)
  case (2 c p)
  then show ?case by (auto simp: literals_def split: if_splits)
next
  case (3 c p y w)
  then show ?case
    by (cases "c = star") (auto simp: literals_def split: if_splits)
qed (simp add: literals_def)

lemma filter_instance:
  "x \<notin> set (literals p) \<Longrightarrow> filter (\<lambda>c. c \<noteq> x) (instance_of x p) = literals p"
  by (induction p) (auto simp: literals_def instance_of_def)

lemma all_stars: "literals u = [] \<Longrightarrow> u = replicate (length u) star"
  by (induction u) (auto simp: literals_def split: if_splits)

lemma collapsed_stars: "literals u = [] \<Longrightarrow> \<not> Contains u [star, star] \<Longrightarrow> u = [] \<or> u = [star]"
proof (cases u)
  case (Cons c u')
  moreover assume "literals u = []" "\<not> Contains u [star, star]"
  ultimately show ?thesis
    using all_stars [of u] by (cases u') (auto simp: Contains_def)
qed simp

lemma Contains_append: "\<not> Contains (u @ v) s \<Longrightarrow> \<not> Contains u s \<and> \<not> Contains v s"
  unfolding Contains_iff by (metis append.assoc)

text \<open>A collapsed pattern whose fresh instance another pattern with as many literals matches is
  not longer than it, and is the same pattern when it is as long.\<close>

lemma collapsed_match_le:
  assumes "glob q (instance_of x p)" and "\<not> Contains p [star, star]"
    and "length (literals p) = length (literals q)"
    and "x \<notin> set (literals p)" and "x \<notin> set (literals q)"
  shows "length p \<le> length q \<and> (length p = length q \<longrightarrow> p = q)"
  using assms
proof (induction q arbitrary: p)
  case Nil
  then show ?case by (simp add: instance_of_def)
next
  case (Cons c q)
  show ?case
  proof (cases "c = star")
    case True
    then obtain u v where uv: "instance_of x p = u @ v" and gv: "glob q v"
      using Cons.prems(1) unfolding True glob_star by blast
    obtain pu pv where p: "p = pu @ pv" and v: "v = instance_of x pv"
      using uv unfolding instance_of_def map_eq_append_conv by blast
    have lits: "literals p = literals pu @ literals pv" "literals (c # q) = literals q"
      using True by (simp_all add: literals_def p)
    have fresh: "x \<notin> set (literals pv)" "x \<notin> set (literals q)"
      using Cons.prems lits by auto
    have "length (literals q) \<le> length (literals pv)"
      using glob_literals_le [OF gv fresh(2)] filter_instance [OF fresh(1)] v by simp
    moreover have "length (literals pu) + length (literals pv) = length (literals q)"
      using Cons.prems(3) lits by simp
    ultimately have eq: "length (literals pv) = length (literals q)" "length (literals pu) = 0"
      by linarith+
    then have "literals pu = []"
      by simp
    moreover have "\<not> Contains pu [star, star]" "\<not> Contains pv [star, star]"
      using Cons.prems(2) Contains_append unfolding p by blast+
    ultimately have "pu = [] \<or> pu = [star]"
        "length pv \<le> length q \<and> (length pv = length q \<longrightarrow> pv = q)"
      using collapsed_stars Cons.IH [of pv] gv v fresh eq by auto
    then show ?thesis
      using p True by auto
  next
    case False
    then obtain d p' where p: "p = d # p'" and "c = (if d = star then x else d)"
      using Cons.prems(1) by (cases p) (auto simp: instance_of_def)
    then have "c = d"
      using False Cons.prems(5) by (auto simp: literals_def split: if_splits)
    moreover have "\<not> Contains p' [star, star]"
      using Cons.prems(2) Contains_append [of "[d]" p'] unfolding p by simp
    ultimately show ?thesis
      using False Cons.prems Cons.IH [of p'] p by (auto simp: literals_def instance_of_def)
  qed
qed

lemma collapsed_unique:
  assumes "\<not> Contains p [star, star]" and "\<not> Contains q [star, star]"
    and x: "x \<noteq> star" "x \<notin> set p" "x \<notin> set q"
    and same: "\<And>name. star \<notin> set name \<Longrightarrow> glob p name = glob q name"
  shows "p = q"
proof -
  have fresh: "x \<notin> set (literals p)" "x \<notin> set (literals q)"
    using x by (auto simp: literals_def)
  have star_free: "star \<notin> set (literals r)" "star \<notin> set (instance_of x r)" for r
    using x(1) by (auto simp: literals_def instance_of_def)
  have lits: "filter (\<lambda>c. c \<noteq> x) (literals p) = literals p" "filter (\<lambda>c. c \<noteq> x) (literals q) = literals q"
    using fresh by (auto simp: filter_id_conv)
  have "length (literals p) = length (literals q)"
    using glob_literals_le [of q "literals p" x] glob_literals_le [of p "literals q" x]
      glob_literals same star_free fresh lits by (metis le_antisym)
  then show ?thesis
    using collapsed_match_le [of q x p] collapsed_match_le [of p x q] assms fresh
      glob_instance same star_free by (metis le_antisym)
qed

section \<open>Properties\<close>

text \<open>C27. \<^verbatim>\<open>MatchPattern\<close> is exact: for every pattern and every name it answers what the reference
  matcher answers, except that the empty pattern matches no name.  In particular taking each inner
  segment at its leftmost occurrence and forbidding the two anchors to overlap neither loses nor
  adds a match.\<close>

theorem MatchPattern_correct:
  "MatchPattern pattern name = (if pattern = [] then False else glob pattern name)"
  by (simp add: MatchPattern_glob)

text \<open>\<^verbatim>\<open>CollapseWildcards\<close> ends, leaves no two adjacent stars, and gives a canonical form: two
  patterns match the same branch names (which never hold a star) exactly when they collapse to the
  same pattern.  The one hypothesis is that some byte occurs in neither pattern.\<close>

lemma CollapseWildcards_canonical:
  assumes "x \<noteq> star" and "x \<notin> set p" and "x \<notin> set q"
  shows "\<not> Contains (CollapseWildcards p) [star, star] \<and>
    ((\<forall>name. star \<notin> set name \<longrightarrow> MatchPattern p name = MatchPattern q name) \<longleftrightarrow>
       CollapseWildcards p = CollapseWildcards q)"
proof (intro conjI, rule CollapseWildcards_normal, rule iffI)
  assume same: "\<forall>name. star \<notin> set name \<longrightarrow> MatchPattern p name = MatchPattern q name"
  have sub: "set (CollapseWildcards r) \<subseteq> set r" for r
    using squeeze_subset by (simp add: CollapseWildcards_squeeze)
  show "CollapseWildcards p = CollapseWildcards q"
  proof (cases "p = [] \<or> q = []")
    case True
    moreover have "star \<notin> set (literals r)" for r
      by (simp add: literals_def)
    ultimately show ?thesis
      using same glob_literals MatchPattern_glob by metis
  next
    case False
    then have "glob (CollapseWildcards p) name = glob (CollapseWildcards q) name"
      if "star \<notin> set name" for name
      using same that by (simp add: MatchPattern_glob CollapseWildcards_squeeze glob_squeeze)
    then show ?thesis
      using assms sub by (intro collapsed_unique [where x = x]) (auto simp: CollapseWildcards_normal)
  qed
next
  assume "CollapseWildcards p = CollapseWildcards q"
  then show "\<forall>name. star \<notin> set name \<longrightarrow> MatchPattern p name = MatchPattern q name"
    using MatchPattern_CollapseWildcards by metis
qed

end
