(* ===== verification/BsdiffCodec.thy ===== *)
theory BsdiffCodec
  imports Prelude "HOL-Library.Word" "HOL-Library.Monad_Syntax"
begin

text \<open>
  The helpers shared by the two halves of \<^verbatim>\<open>internal/bsdiff\<close>: bounds-checked access to byte slices
  (an access out of range, which panics in Go, is \<^const>\<open>None\<close>), byte arithmetic modulo 256,
  little-endian words, \<^verbatim>\<open>matchlen\<close>, and the sign-magnitude integers of the patch format with the
  proof that reading undoes writing.

  Go's \<^verbatim>\<open>int\<close> is read as \<^typ>\<open>int\<close>: \<^verbatim>\<open>Diff\<close> refuses inputs over \<^verbatim>\<open>maxSize = 2^30 - 1\<close> bytes, so
  every index the code computes stays far inside 64 bits.  The one place where the width shows, the
  negation in \<^verbatim>\<open>offtout\<close>, has its wrap-around written out.
\<close>

section \<open>Slices\<close>

definition elem_at :: "'a list \<Rightarrow> int \<Rightarrow> 'a option" where
  "elem_at s i = (if 0 \<le> i \<and> i < int (length s) then Some (s ! nat i) else None)"

definition put_at :: "'a list \<Rightarrow> int \<Rightarrow> 'a \<Rightarrow> 'a list option" where
  "put_at s i v = (if 0 \<le> i \<and> i < int (length s) then Some (s[nat i := v]) else None)"

definition slice :: "string \<Rightarrow> int \<Rightarrow> int \<Rightarrow> string option" where
  "slice s i j =
     (if 0 \<le> i \<and> i \<le> j \<and> j \<le> int (length s) then Some (take (nat (j - i)) (drop (nat i) s)) else None)"

definition byte_sub :: "char \<Rightarrow> char \<Rightarrow> char" where
  "byte_sub a b = char_of (of_char a - of_char b :: int)"

definition byte_add :: "char \<Rightarrow> char \<Rightarrow> char" where
  "byte_add a b = char_of (of_char a + of_char b :: int)"

lemma byte_add_sub [simp]: "byte_add (byte_sub a b) b = a"
proof -
  have "((of_char a - of_char b) mod 256 + of_char b) mod 256 = (of_char a :: int) mod 256"
    by (simp add: mod_simps)
  then have "char_of ((of_char a - of_char b) mod 256 + of_char b :: int) = char_of (of_char a :: int)"
    by (metis char_of_mod_256)
  then show ?thesis
    by (simp add: byte_add_def byte_sub_def)
qed

lemma elem_at_Some: "elem_at s i = Some c \<longleftrightarrow> 0 \<le> i \<and> i < int (length s) \<and> c = s ! nat i"
  by (auto simp: elem_at_def)

lemma elem_at_in: "0 \<le> i \<Longrightarrow> i < int (length s) \<Longrightarrow> elem_at s i = Some (s ! nat i)"
  by (simp add: elem_at_def)

lemma slice_in:
  "0 \<le> i \<Longrightarrow> i \<le> j \<Longrightarrow> j \<le> int (length s) \<Longrightarrow> slice s i j = Some (take (nat (j - i)) (drop (nat i) s))"
  by (simp add: slice_def)

section \<open>Sign-magnitude integers\<close>

text \<open>\<^verbatim>\<open>-x\<close> on an \<^verbatim>\<open>int64\<close>: the result is reduced to the signed 64-bit range.\<close>

definition neg64 :: "int \<Rightarrow> int" where
  "neg64 x = (- x + 2 ^ 63) mod 2 ^ 64 - 2 ^ 63"

fun out_bytes :: "nat \<Rightarrow> int \<Rightarrow> string" where
  "out_bytes 0 y = []"
| "out_bytes (Suc n) y = char_of y # out_bytes n (y div 256)"

text \<open>\<^verbatim>\<open>b | 0x80\<close>, \<^verbatim>\<open>b & 0x7F\<close> and the test \<^verbatim>\<open>b & 0x80 != 0\<close> on a byte; \<^verbatim>\<open>digit7\<close> is its top bit.\<close>

fun or_0x80 :: "char \<Rightarrow> char" where
  "or_0x80 (Char b0 b1 b2 b3 b4 b5 b6 b7) = Char b0 b1 b2 b3 b4 b5 b6 True"

fun and_0x7F :: "char \<Rightarrow> char" where
  "and_0x7F (Char b0 b1 b2 b3 b4 b5 b6 b7) = Char b0 b1 b2 b3 b4 b5 b6 False"

definition offtout :: "int \<Rightarrow> string" where
  "offtout x =
     (let y = (if x < 0 then neg64 x else x);
          buf = out_bytes 8 y
      in if x < 0 then buf[7 := or_0x80 (buf ! 7)] else buf)"

text \<open>The loop of \<^verbatim>\<open>offtin\<close> from index 6 down to 0; the magnitude stays below \<open>2\<^sup>6\<^sup>3\<close>.\<close>

fun in_bytes :: "string \<Rightarrow> nat \<Rightarrow> int \<Rightarrow> int" where
  "in_bytes buf 0 y = y"
| "in_bytes buf (Suc i) y = in_bytes buf i (y * 256 + of_char (buf ! i))"

definition offtin :: "string \<Rightarrow> int" where
  "offtin buf =
     (let y = in_bytes buf 7 (of_char (and_0x7F (buf ! 7)))
      in if digit7 (buf ! 7) then - y else y)"

lemma length_out_bytes [simp]: "length (out_bytes n y) = n"
  by (induction n arbitrary: y) auto

lemma length_offtout [simp]: "length (offtout x) = 8"
  by (simp add: offtout_def Let_def)

lemma nth_out_bytes: "i < n \<Longrightarrow> out_bytes n y ! i = char_of (y div 256 ^ i)"
proof (induction n arbitrary: y i)
  case (Suc n)
  then show ?case
    by (cases i) (auto simp: zdiv_zmult2_eq)
qed simp

lemma in_bytes_magnitude:
  assumes "0 \<le> m" and "\<And>j. j < i \<Longrightarrow> of_char (buf ! j) = m div 256 ^ j mod (256 :: int)"
  shows "in_bytes buf i (m div 256 ^ i) = m"
  using assms
proof (induction i)
  case (Suc i)
  have "m div 256 ^ Suc i = m div 256 ^ i div 256"
    by (simp add: zdiv_zmult2_eq [symmetric] mult.commute)
  then have "m div 256 ^ Suc i * 256 + of_char (buf ! i) = m div 256 ^ i"
    using Suc.prems(2) [of i] div_mult_mod_eq [of "m div 256 ^ i" 256] by simp
  then show ?case
    using Suc by simp
qed simp

lemma high_bit_char [simp]:
  "digit7 (or_0x80 c)"
  "\<not> digit7 c \<Longrightarrow> and_0x7F (or_0x80 c) = c"
  "\<not> digit7 c \<Longrightarrow> and_0x7F c = c"
  by (cases c; simp)+

lemma char_of_low:
  fixes q :: int
  assumes "0 \<le> q" and "q < 128"
  shows "\<not> digit7 (char_of q)" and "of_char (char_of q) = q"
proof -
  have "q div 2 ^ 7 = 0"
    using assms by simp
  then have "\<not> bit q 7"
    unfolding bit_iff_odd by simp
  then show "\<not> digit7 (char_of q)"
    by (simp add: char_of_def)
  show "of_char (char_of q) = q"
    using assms by simp
qed

lemma neg64_id: "- (2 ^ 63) < x \<Longrightarrow> x < 0 \<Longrightarrow> neg64 x = - x"
  by (simp add: neg64_def)

lemma offtin_magnitude:
  assumes "0 \<le> m" and "m < 2 ^ 63" and "\<And>j. j < 7 \<Longrightarrow> buf ! j = char_of (m div 256 ^ j)"
    and "and_0x7F (buf ! 7) = char_of (m div 256 ^ 7)"
  shows "offtin buf = (if digit7 (buf ! 7) then - m else m)"
proof -
  have "of_char (and_0x7F (buf ! 7)) = m div 256 ^ 7"
    using assms by (simp add: char_of_low)
  moreover have "in_bytes buf 7 (m div 256 ^ 7) = m"
    using assms by (intro in_bytes_magnitude) auto
  ultimately show ?thesis
    by (simp add: offtin_def)
qed

lemma offtin_offtout:
  assumes "- (2 ^ 63) < x" and "x < 2 ^ 63"
  shows "offtin (offtout x) = x"
proof -
  let ?m = "\<bar>x\<bar>"
  have m: "0 \<le> ?m" "?m < 2 ^ 63"
    using assms by auto
  have q: "0 \<le> ?m div 256 ^ 7" "?m div 256 ^ 7 < 128"
    using m by auto
  have y: "(if x < 0 then neg64 x else x) = ?m"
    using assms(1) by (simp add: neg64_id)
  have low: "offtout x ! j = char_of (?m div 256 ^ j)" if "j < 7" for j
    using that by (simp only: offtout_def y Let_def) (simp add: nth_out_bytes)
  have top: "offtout x ! 7 = (if x < 0 then or_0x80 else id) (char_of (?m div 256 ^ 7))"
    by (simp only: offtout_def y Let_def) (simp add: nth_out_bytes)
  have sign: "and_0x7F ((if x < 0 then or_0x80 else id) c) = c"
      "digit7 ((if x < 0 then or_0x80 else id) c) \<longleftrightarrow> x < 0" if "\<not> digit7 c" for c
    using that by simp_all
  have "and_0x7F (offtout x ! 7) = char_of (?m div 256 ^ 7)" and "digit7 (offtout x ! 7) \<longleftrightarrow> x < 0"
    unfolding top by (rule sign [OF char_of_low(1) [OF q]])+
  then show ?thesis
    using offtin_magnitude [OF m low] by auto
qed

section \<open>Common prefixes\<close>

text \<open>\<^verbatim>\<open>binary.LittleEndian.Uint64(b)\<close>, which panics on fewer than eight bytes.\<close>

definition le64 :: "string \<Rightarrow> 64 word option" where
  "le64 b = (if length b < 8 then None else Some (of_nat (horner_sum of_char 256 (take 8 b))))"

text \<open>\<^verbatim>\<open>matchlen\<close>: first eight bytes at a time, then byte by byte.\<close>

function match_words :: "string \<Rightarrow> string \<Rightarrow> nat \<Rightarrow> nat \<Rightarrow> nat" where
  "match_words a b n i =
     (if i + 8 \<le> n then
        if le64 (drop i a) \<noteq> le64 (drop i b) then i else match_words a b n (i + 8)
      else i)"
  by pat_completeness auto
termination
  by (relation "measure (\<lambda>(_, _, n, i). n - i)") auto

function match_bytes :: "string \<Rightarrow> string \<Rightarrow> nat \<Rightarrow> nat \<Rightarrow> nat" where
  "match_bytes a b n i =
     (if i < n then if a ! i \<noteq> b ! i then i else match_bytes a b n (i + 1) else n)"
  by pat_completeness auto
termination
  by (relation "measure (\<lambda>(_, _, n, i). n - i)") auto

declare match_words.simps [simp del] match_bytes.simps [simp del]

definition matchlen :: "string \<Rightarrow> string \<Rightarrow> int" where
  "matchlen a b =
     (let n = min (length a) (length b) in int (match_bytes a b n (match_words a b n 0)))"

text \<open>The specification: the length of the longest common prefix.\<close>

fun lcp :: "string \<Rightarrow> string \<Rightarrow> nat" where
  "lcp (x # xs) (y # ys) = (if x = y then Suc (lcp xs ys) else 0)"
| "lcp _ _ = 0"

lemma lcp_le: "lcp a b \<le> length a" "lcp a b \<le> length b"
  by (induction a b rule: lcp.induct) auto

lemma lcp_same: "i < lcp a b \<Longrightarrow> a ! i = b ! i"
proof (induction a b arbitrary: i rule: lcp.induct)
  case (1 x xs y ys)
  then show ?case
    by (cases i) (auto split: if_splits)
qed auto

lemma lcp_eqI:
  assumes "n \<le> length a" and "n \<le> length b" and "\<And>j. j < n \<Longrightarrow> a ! j = b ! j"
    and "n = length a \<or> n = length b \<or> a ! n \<noteq> b ! n"
  shows "lcp a b = n"
  using assms
proof (induction a b arbitrary: n rule: lcp.induct)
  case (1 x xs y ys)
  show ?case
  proof (cases n)
    case 0
    then show ?thesis using 1 by auto
  next
    case (Suc m)
    then have "x = y" using 1(4) [of 0] by simp
    moreover have "lcp xs ys = m"
      using 1(1) [OF \<open>x = y\<close>, of m] 1(2-5) Suc by fastforce
    ultimately show ?thesis by (simp add: Suc)
  qed
qed auto

lemma horner_bytes_inj:
  "length cs = length ds \<Longrightarrow>
     horner_sum of_char 256 cs = (horner_sum of_char 256 ds :: nat) \<Longrightarrow> cs = ds"
proof (induction cs ds rule: list_induct2)
  case (Cons c cs d ds)
  let ?h = "\<lambda>s :: string. horner_sum of_char 256 s :: nat"
  have eq: "of_char c + 256 * ?h cs = of_char d + 256 * ?h ds"
    using Cons.prems by simp
  then have "(of_char c + 256 * ?h cs) mod 256 = (of_char d + 256 * ?h ds) mod 256"
    by simp
  then have "of_char c = (of_char d :: nat)"
    using nat_of_char_less_256 [of c] nat_of_char_less_256 [of d] by simp
  with eq Cons show ?case
    by simp
qed simp

lemma le64_eq:
  assumes "8 \<le> length a" and "8 \<le> length b"
  shows "le64 a = le64 b \<longleftrightarrow> take 8 a = take 8 b"
proof -
  let ?h = "\<lambda>s :: string. horner_sum of_char 256 s :: nat"
  have "?h (take 8 a) < 2 ^ 64" "?h (take 8 b) < 2 ^ 64"
    using horner_bytes_less [of "take 8 a"] horner_bytes_less [of "take 8 b"] assms by simp_all
  then have "(of_nat (?h (take 8 a)) :: 64 word) = of_nat (?h (take 8 b)) \<longleftrightarrow>
      ?h (take 8 a) = ?h (take 8 b)"
    by (simp add: word_of_nat_eq_iff take_bit_nat_eq_self)
  also have "\<dots> \<longleftrightarrow> take 8 a = take 8 b"
    using assms horner_bytes_inj [of "take 8 a" "take 8 b"] by auto
  finally show ?thesis
    using assms by (simp add: le64_def)
qed

lemma match_words_prefix:
  assumes "take i a = take i b" and "n \<le> length a" and "n \<le> length b" and "i \<le> n"
  shows "i \<le> match_words a b n i \<and> match_words a b n i \<le> n
    \<and> take (match_words a b n i) a = take (match_words a b n i) b"
  using assms
proof (induction a b n i rule: match_words.induct)
  case (1 a b n i)
  show ?case
  proof (cases "i + 8 \<le> n \<and> le64 (drop i a) = le64 (drop i b)")
    case True
    then have "take (i + 8) a = take (i + 8) b"
      using 1(2-4) le64_eq [of "drop i a" "drop i b"] by (auto simp: take_add)
    then show ?thesis
      using 1 True by (simp add: match_words.simps [of a b n i])
  next
    case False
    then show ?thesis
      using 1 by (auto simp: match_words.simps [of a b n i])
  qed
qed

lemma match_bytes_lcp:
  assumes "take i a = take i b" and "i \<le> n" and "n = min (length a) (length b)"
  shows "match_bytes a b n i = lcp a b"
  using assms
proof (induction a b n i rule: match_bytes.induct)
  case (1 a b n i)
  have same: "a ! j = b ! j" if "j < i" for j
    using 1(2) that by (metis nth_take)
  show ?case
  proof (cases "i < n \<and> a ! i = b ! i")
    case True
    then have "take (i + 1) a = take (i + 1) b"
      using 1(2-4) by (simp add: take_Suc_conv_app_nth)
    then show ?thesis
      using 1(1) 1(4) True match_bytes.simps [of a b n i] by simp
  next
    case False
    then have "match_bytes a b n i = i" and "i = n \<or> a ! i \<noteq> b ! i"
      using 1(3) by (auto simp: match_bytes.simps [of a b n i])
    moreover have "lcp a b = i"
      using False same 1(3,4) by (intro lcp_eqI) (auto simp: min_def split: if_splits)
    ultimately show ?thesis by simp
  qed
qed

lemma matchlen_lcp: "matchlen a b = int (lcp a b)"
proof -
  let ?n = "min (length a) (length b)"
  have "match_words a b ?n 0 \<le> ?n"
      "take (match_words a b ?n 0) a = take (match_words a b ?n 0) b"
    using match_words_prefix [of 0 a b ?n] by auto
  then show ?thesis
    unfolding matchlen_def Let_def by (simp add: match_bytes_lcp)
qed

lemma matchlen_bounds: "0 \<le> matchlen a b" "matchlen a b \<le> int (length a)" "matchlen a b \<le> int (length b)"
  using lcp_le [of a b] by (simp_all add: matchlen_lcp)

end
