(* ===== verification/Bsdiff.thy ===== *)
theory Bsdiff
  imports BsdiffCodec
begin

text \<open>
  \<^verbatim>\<open>internal/bsdiff/bsdiff.go\<close> and \<^verbatim>\<open>bspatch.go\<close>: the patch writer and the patch reader.  An index
  out of range, which panics in Go, makes an operation \<^const>\<open>None\<close>; the main loop of \<^verbatim>\<open>diff\<close> is a
  \<^verbatim>\<open>partial_function\<close>, so that \<^const>\<open>None\<close> also stands for not returning.  The theorems show that neither
  happens.

  The match finder is a parameter of \<^verbatim>\<open>diff\<close> in the code as well; the locale \<^verbatim>\<open>match_search\<close> states
  what \<^verbatim>\<open>diff\<close> relies on (a position inside the old file and a length inside the new one), and the
  round trip is proved once inside it.  The bzip2 writer (\<^verbatim>\<open>compress\<close>, a third-party package) and the
  bytes a bzip2 reader delivers before it ends or fails (\<^verbatim>\<open>bunzip\<close>) are parameters.
\<close>

datatype bsdiff_error = ErrTooLarge | ErrCorruptPatch | ErrCompress

definition magic :: string where "magic = ''BSDIFF40''"

definition headerSize :: nat where "headerSize = 32"

definition maxSize :: int where "maxSize = 2 ^ 30 - 1"

section \<open>Writing a patch\<close>

record diff_state =
  scan :: int
  len :: int
  pos :: int
  lastscan :: int
  lastpos :: int
  lastoffset :: int
  db :: string
  eb :: string
  ctrl :: string

text \<open>The test \<^verbatim>\<open>i < oldsize && old[i] == new[j]\<close>.\<close>

definition agree :: "string \<Rightarrow> string \<Rightarrow> int \<Rightarrow> int \<Rightarrow> bool option" where
  "agree old new i j =
     (if i < int (length old) then do { a \<leftarrow> elem_at old i; b \<leftarrow> elem_at new j; Some (a = b) }
      else Some False)"

text \<open>Lines 65 to 69: extend the score of the current alignment up to \<^verbatim>\<open>stop\<close>.\<close>

function score_loop :: "string \<Rightarrow> string \<Rightarrow> int \<Rightarrow> int \<Rightarrow> int \<Rightarrow> int \<Rightarrow> (int \<times> int) option" where
  "score_loop old new off stop scsc oldscore =
     (if scsc < stop then do {
        hit \<leftarrow> agree old new (scsc + off) scsc;
        score_loop old new off stop (scsc + 1) (if hit then oldscore + 1 else oldscore)
      } else Some (scsc, oldscore))"
  by pat_completeness auto
termination
  by (relation "measure (\<lambda>(_, _, _, stop, scsc, _). nat (stop - scsc))") auto

type_synonym searcher = "string \<Rightarrow> int \<Rightarrow> (int \<times> int) option"

text \<open>Lines 62 to 78: advance until a match beats the current alignment; the result is
  \<^verbatim>\<open>(scan, pos, length, oldscore)\<close>.\<close>

function scan_loop :: "searcher \<Rightarrow> string \<Rightarrow> string \<Rightarrow> int \<Rightarrow> int \<Rightarrow> int \<Rightarrow> int \<Rightarrow> int \<Rightarrow> int
    \<Rightarrow> (int \<times> int \<times> int \<times> int) option" where
  "scan_loop search old new off scsc scn ps ln oldscore =
     (if scn < int (length new) then do {
        rest \<leftarrow> slice new scn (int (length new));
        (ps', ln') \<leftarrow> search rest (scn + off);
        (scsc', score) \<leftarrow> score_loop old new off (scn + ln') scsc oldscore;
        if (ln' = score \<and> ln' \<noteq> 0) \<or> ln' > score + 8 then Some (scn, ps', ln', score)
        else do {
          hit \<leftarrow> agree old new (scn + off) scn;
          scan_loop search old new off scsc' (scn + 1) ps' ln' (if hit then score - 1 else score)
        }
      } else Some (scn, ps, ln, oldscore))"
  by pat_completeness auto
termination
  by (relation "measure (\<lambda>(_, _, new, _, _, scn, _, _, _). nat (int (length new) - scn))") auto

text \<open>Lines 81 to 91: how far to extend the previous match forwards.\<close>

function forward_loop :: "string \<Rightarrow> string \<Rightarrow> int \<Rightarrow> int \<Rightarrow> int \<Rightarrow> int \<Rightarrow> int \<Rightarrow> int \<Rightarrow> int \<Rightarrow> int option" where
  "forward_loop old new lscan lpos scn i s sf lenf =
     (if lscan + i < scn \<and> lpos + i < int (length old) then do {
        a \<leftarrow> elem_at old (lpos + i);
        b \<leftarrow> elem_at new (lscan + i);
        let s' = (if a = b then s + 1 else s);
        if s' * 2 - (i + 1) > sf * 2 - lenf
        then forward_loop old new lscan lpos scn (i + 1) s' s' (i + 1)
        else forward_loop old new lscan lpos scn (i + 1) s' sf lenf
      } else Some lenf)"
  by pat_completeness auto
termination
  by (relation "measure (\<lambda>(_, _, lscan, _, scn, i, _, _, _). nat (scn - lscan - i))") auto

text \<open>Lines 95 to 104: how far to extend the new match backwards.\<close>

function backward_loop :: "string \<Rightarrow> string \<Rightarrow> int \<Rightarrow> int \<Rightarrow> int \<Rightarrow> int \<Rightarrow> int \<Rightarrow> int \<Rightarrow> int \<Rightarrow> int option" where
  "backward_loop old new lscan ps scn i s sb lenb =
     (if scn \<ge> lscan + i \<and> ps \<ge> i then do {
        a \<leftarrow> elem_at old (ps - i);
        b \<leftarrow> elem_at new (scn - i);
        let s' = (if a = b then s + 1 else s);
        if s' * 2 - i > sb * 2 - lenb
        then backward_loop old new lscan ps scn (i + 1) s' s' i
        else backward_loop old new lscan ps scn (i + 1) s' sb lenb
      } else Some lenb)"
  by pat_completeness auto
termination
  by (relation "measure (\<lambda>(_, _, lscan, _, scn, i, _, _, _). nat (scn - lscan - i + 1))") auto

text \<open>Lines 109 to 121: where to cut when the two extensions overlap.  \<^verbatim>\<open>nf\<close>, \<^verbatim>\<open>pf\<close> are the first
  positions of the overlap in the forward extension, \<^verbatim>\<open>nb\<close>, \<^verbatim>\<open>pb\<close> those of the backward one.\<close>

function overlap_loop :: "string \<Rightarrow> string \<Rightarrow> int \<Rightarrow> int \<Rightarrow> int \<Rightarrow> int \<Rightarrow> int \<Rightarrow> int \<Rightarrow> int \<Rightarrow> int \<Rightarrow> int \<Rightarrow> int option" where
  "overlap_loop old new nf pf nb pb overlap i s ss lens =
     (if i < overlap then do {
        a \<leftarrow> elem_at new (nf + i);
        b \<leftarrow> elem_at old (pf + i);
        c \<leftarrow> elem_at new (nb + i);
        d \<leftarrow> elem_at old (pb + i);
        let s' = (if a = b then s + 1 else s);
        let s'' = (if c = d then s' - 1 else s');
        if s'' > ss then overlap_loop old new nf pf nb pb overlap (i + 1) s'' s'' (i + 1)
        else overlap_loop old new nf pf nb pb overlap (i + 1) s'' ss lens
      } else Some lens)"
  by pat_completeness auto
termination
  by (relation "measure (\<lambda>(_, _, _, _, _, _, overlap, i, _, _, _). nat (overlap - i))") auto

text \<open>Lines 127 to 129: the bytewise differences.\<close>

function sub_loop :: "string \<Rightarrow> string \<Rightarrow> int \<Rightarrow> int \<Rightarrow> int \<Rightarrow> int \<Rightarrow> string option" where
  "sub_loop old new lscan lpos lenf i =
     (if i < lenf then do {
        a \<leftarrow> elem_at new (lscan + i);
        b \<leftarrow> elem_at old (lpos + i);
        rest \<leftarrow> sub_loop old new lscan lpos lenf (i + 1);
        Some (byte_sub a b # rest)
      } else Some [])"
  by pat_completeness auto
termination
  by (relation "measure (\<lambda>(_, _, _, _, lenf, i). nat (lenf - i))") auto

lemmas loops [simp del] = score_loop.simps scan_loop.simps forward_loop.simps backward_loop.simps
  overlap_loop.simps sub_loop.simps

text \<open>Lines 81 to 125: the two extensions, made disjoint.\<close>

definition extents :: "string \<Rightarrow> string \<Rightarrow> diff_state \<Rightarrow> (int \<times> int) option" where
  "extents old new st = do {
     lenf \<leftarrow> forward_loop old new (lastscan st) (lastpos st) (scan st) 0 0 0 0;
     lenb \<leftarrow> (if scan st < int (length new)
              then backward_loop old new (lastscan st) (pos st) (scan st) 1 0 0 0 else Some 0);
     if lastscan st + lenf > scan st - lenb then do {
       let overlap = (lastscan st + lenf) - (scan st - lenb);
       lens \<leftarrow> overlap_loop old new (lastscan st + lenf - overlap) (lastpos st + lenf - overlap)
                (scan st - lenb) (pos st - lenb) overlap 0 0 0 0;
       Some (lenf + (lens - overlap), lenb - lens)
     } else Some (lenf, lenb)
   }"

text \<open>Lines 127 to 141: append one control triple with its diff and extra bytes.\<close>

definition emit :: "string \<Rightarrow> string \<Rightarrow> diff_state \<Rightarrow> int \<Rightarrow> int \<Rightarrow> diff_state option" where
  "emit old new st lenf lenb = do {
     d \<leftarrow> sub_loop old new (lastscan st) (lastpos st) lenf 0;
     e \<leftarrow> slice new (lastscan st + lenf) (scan st - lenb);
     Some (st\<lparr>db := db st @ d, eb := eb st @ e,
       ctrl := ctrl st @ offtout lenf @ offtout ((scan st - lenb) - (lastscan st + lenf))
                 @ offtout ((pos st - lenb) - (lastpos st + lenf)),
       lastscan := scan st - lenb, lastpos := pos st - lenb, lastoffset := pos st - scan st\<rparr>)
   }"

text \<open>One turn of the main loop, lines 59 to 142.\<close>

definition diff_step :: "searcher \<Rightarrow> string \<Rightarrow> string \<Rightarrow> diff_state \<Rightarrow> diff_state option" where
  "diff_step search old new st = do {
     let start = scan st + len st;
     (scn, ps, ln, oldscore) \<leftarrow>
       scan_loop search old new (lastoffset st) start start (pos st) (len st) 0;
     let st' = st\<lparr>scan := scn, pos := ps, len := ln\<rparr>;
     if ln \<noteq> oldscore \<or> scn = int (length new) then do {
       (lenf, lenb) \<leftarrow> extents old new st';
       emit old new st' lenf lenb
     } else Some st'
   }"

partial_function (option) diff_loop :: "searcher \<Rightarrow> string \<Rightarrow> string \<Rightarrow> diff_state \<Rightarrow> diff_state option" where
  "diff_loop search old new st =
     (if scan st < int (length new)
      then do { st' \<leftarrow> diff_step search old new st; diff_loop search old new st' }
      else Some st)"

definition diff_init :: diff_state where
  "diff_init = \<lparr>scan = 0, len = 0, pos = 0, lastscan = 0, lastpos = 0, lastoffset = 0,
     db = [], eb = [], ctrl = []\<rparr>"

text \<open>Lines 145 to 168: compress the three streams and frame them.\<close>

type_synonym compressor = "string \<Rightarrow> string option"

definition frame :: "compressor \<Rightarrow> nat \<Rightarrow> diff_state \<Rightarrow> (bsdiff_error, string) result" where
  "frame compress newsize st =
     (case compress (ctrl st) of None \<Rightarrow> Inl ErrCompress | Some ctrlBz \<Rightarrow>
      case compress (db st) of None \<Rightarrow> Inl ErrCompress | Some diffBz \<Rightarrow>
      case compress (eb st) of None \<Rightarrow> Inl ErrCompress | Some extraBz \<Rightarrow>
        Inr (magic @ offtout (int (length ctrlBz)) @ offtout (int (length diffBz))
             @ offtout (int newsize) @ ctrlBz @ diffBz @ extraBz))"

definition diff :: "compressor \<Rightarrow> searcher \<Rightarrow> string \<Rightarrow> string \<Rightarrow> (bsdiff_error, string) result option" where
  "diff compress search old new = do {
     st \<leftarrow> diff_loop search old new diff_init;
     Some (frame compress (length new) st)
   }"

section \<open>Applying a patch\<close>

text \<open>\<^verbatim>\<open>io.ReadFull\<close> of \<^verbatim>\<open>n\<close> bytes from a stream that still holds \<^verbatim>\<open>s\<close>.\<close>

definition read_full :: "nat \<Rightarrow> string \<Rightarrow> (string \<times> string) option" where
  "read_full n s = (if n \<le> length s then Some (take n s, drop n s) else None)"

text \<open>Lines 46 to 52: \<^verbatim>\<open>n\<close> control integers.\<close>

fun read_ints :: "nat \<Rightarrow> string \<Rightarrow> (int list \<times> string) option" where
  "read_ints 0 s = Some ([], s)"
| "read_ints (Suc n) s = do {
     (buf, s') \<leftarrow> read_full 8 s;
     (xs, s'') \<leftarrow> read_ints n s';
     Some (offtin buf # xs, s'')
   }"

text \<open>Lines 62 to 66: add the old bytes to the diff bytes, past the end of the old file nothing.\<close>

fun add_old :: "string \<Rightarrow> int \<Rightarrow> string \<Rightarrow> string option" where
  "add_old old p [] = Some []"
| "add_old old p (b # bs) = do {
     b' \<leftarrow> (if p < int (length old) then map_option (byte_add b) (elem_at old p) else Some b);
     bs' \<leftarrow> add_old old (p + 1) bs;
     Some (b' # bs')
   }"

lemma read_ints_shorter: "read_ints n s = Some (xs, s') \<Longrightarrow> length s = 8 * n + length s'"
proof (induction n arbitrary: s xs s')
  case (Suc n)
  obtain ys where "read_ints n (drop 8 s) = Some (ys, s')" and "8 \<le> length s"
    using Suc.prems
    by (cases "8 \<le> length s") (simp_all add: read_full_def split: bind_splits prod.splits)
  then show ?case
    using Suc.IH [of "drop 8 s" ys s'] by simp
qed simp

function patch_loop :: "string \<Rightarrow> int \<Rightarrow> string \<Rightarrow> string \<Rightarrow> string \<Rightarrow> string \<Rightarrow> int
    \<Rightarrow> (bsdiff_error, string) result option" where
  "patch_loop old newSize ctl dif ext out oldpos =
     (if int (length out) < newSize then
        case read_ints 3 ctl of
          None \<Rightarrow> Some (Inl ErrCorruptPatch)
        | Some (c, ctl') \<Rightarrow>
          if c ! 0 < 0 \<or> c ! 0 > newSize - int (length out) then Some (Inl ErrCorruptPatch)
          else case read_full (nat (c ! 0)) dif of
            None \<Rightarrow> Some (Inl ErrCorruptPatch)
          | Some (d, dif') \<Rightarrow>
            (case add_old old oldpos d of
              None \<Rightarrow> None
            | Some d' \<Rightarrow>
              if c ! 1 < 0 \<or> c ! 1 > newSize - int (length (out @ d')) then Some (Inl ErrCorruptPatch)
              else case read_full (nat (c ! 1)) ext of
                None \<Rightarrow> Some (Inl ErrCorruptPatch)
              | Some (e, ext') \<Rightarrow>
                if c ! 2 < - (oldpos + c ! 0) \<or> c ! 2 > int (length old) - (oldpos + c ! 0)
                then Some (Inl ErrCorruptPatch)
                else patch_loop old newSize ctl' dif' ext' (out @ d' @ e) (oldpos + c ! 0 + c ! 2))
      else Some (Inr out))"
  by pat_completeness auto
termination
  by (relation "measure (\<lambda>(_, _, ctl, _). length ctl)") (auto dest: read_ints_shorter)

declare patch_loop.simps [simp del]

definition Patch :: "(string \<Rightarrow> string) \<Rightarrow> string \<Rightarrow> string \<Rightarrow> (bsdiff_error, string) result option" where
  "Patch bunzip old patch =
     (if length patch < headerSize \<or> take 8 patch \<noteq> magic then Some (Inl ErrCorruptPatch)
      else
        let ctrlLen = offtin (take 8 (drop 8 patch));
            diffLen = offtin (take 8 (drop 16 patch));
            newSize = offtin (take 8 (drop 24 patch));
            rest = int (length patch) - int headerSize
        in if ctrlLen < 0 \<or> diffLen < 0 \<or> newSize < 0 \<or> newSize > maxSize
              \<or> ctrlLen > rest \<or> diffLen > rest - ctrlLen
           then Some (Inl ErrCorruptPatch)
           else
             let body = drop headerSize patch
             in patch_loop old newSize
                  (bunzip (take (nat ctrlLen) body))
                  (bunzip (take (nat diffLen) (drop (nat ctrlLen) body)))
                  (bunzip (drop (nat ctrlLen + nat diffLen) body)) [] 0)"

section \<open>The reader replays the control triples\<close>

text \<open>What a list of control triples with its diff and extra bytes means: the output built and the
  old position reached, starting from given ones.\<close>

type_synonym triple = "int \<times> int \<times> int"

fun replay :: "string \<Rightarrow> triple list \<Rightarrow> string \<Rightarrow> string \<Rightarrow> string \<Rightarrow> int \<Rightarrow> (string \<times> int) option" where
  "replay old [] d e out p = (if d = [] \<and> e = [] then Some (out, p) else None)"
| "replay old ((x, y, z) # ts) d e out p =
     (if 0 \<le> x \<and> 0 \<le> y \<and> nat x \<le> length d \<and> nat y \<le> length e \<and> 0 \<le> p + x + z \<and> p + x + z \<le> int (length old)
      then do {
        d' \<leftarrow> add_old old p (take (nat x) d);
        replay old ts (drop (nat x) d) (drop (nat y) e) (out @ d' @ take (nat y) e) (p + x + z)
      } else None)"

definition encode_triple :: "triple \<Rightarrow> string" where
  "encode_triple t = (case t of (x, y, z) \<Rightarrow> offtout x @ offtout y @ offtout z)"

definition fits :: "triple \<Rightarrow> bool" where
  "fits t \<longleftrightarrow> (case t of (x, y, z) \<Rightarrow> \<bar>x\<bar> < 2 ^ 63 \<and> \<bar>y\<bar> < 2 ^ 63 \<and> \<bar>z\<bar> < 2 ^ 63)"

lemma length_add_old: "add_old old p bs = Some cs \<Longrightarrow> length cs = length bs"
  by (induction bs arbitrary: p cs) (auto simp: bind_eq_Some_conv)

lemma replay_extends: "replay old ts d e out p = Some (out', p') \<Longrightarrow> \<exists>w. out' = out @ w"
  by (induction old ts d e out p rule: replay.induct)
    (auto simp: bind_eq_Some_conv split: if_splits)

lemma replay_length: "replay old ts d e out p = Some (out', p') \<Longrightarrow> length out' = length out + length d + length e"
proof (induction old ts d e out p rule: replay.induct)
  case (2 old x y z ts d e out p)
  then obtain d' where d': "add_old old p (take (nat x) d) = Some d'" and bounds: "nat x \<le> length d" "nat y \<le> length e"
      "0 \<le> x \<and> 0 \<le> y \<and> nat x \<le> length d \<and> nat y \<le> length e \<and> 0 \<le> p + x + z \<and> p + x + z \<le> int (length old)"
    and rest: "replay old ts (drop (nat x) d) (drop (nat y) e) (out @ d' @ take (nat y) e) (p + x + z) = Some (out', p')"
    by (auto simp: bind_eq_Some_conv split: if_splits)
  show ?case
    using "2.IH" [OF bounds(3) d' rest] length_add_old [OF d'] bounds(1,2) by simp
qed (simp split: if_splits)

lemma replay_append:
  assumes "replay old ts d e out p = Some (out1, p1)"
    and "replay old us d' e' out1 p1 = Some (out2, p2)"
  shows "replay old (ts @ us) (d @ d') (e @ e') out p = Some (out2, p2)"
  using assms
proof (induction old ts d e out p rule: replay.induct)
  case (2 old x y z ts d e out p)
  then show ?case
    by (auto simp: bind_eq_Some_conv split: if_splits)
qed (auto split: if_splits)

lemma read_triple:
  assumes "fits (x, y, z)"
  shows "read_ints 3 (encode_triple (x, y, z) @ s) = Some ([x, y, z], s)"
  using assms
  by (simp add: numeral_3_eq_3 encode_triple_def fits_def read_full_def offtin_offtout abs_less_iff)

lemma patch_loop_replay:
  assumes "replay old ts d e out p = Some (new, p')" and "\<forall>t\<in>set ts. fits t"
  shows "patch_loop old (int (length new)) (concat (map encode_triple ts) @ rest) d e out p = Some (Inr new)"
  using assms
proof (induction ts arbitrary: d e out p)
  case Nil
  then show ?case
    by (simp add: patch_loop.simps split: if_splits)
next
  case (Cons t ts)
  obtain x y z where t: "t = (x, y, z)"
    by (cases t)
  obtain w where w: "new = out @ w"
    using replay_extends [OF Cons.prems(1)] by blast
  show ?case
  proof (cases "w = []")
    case True
    then show ?thesis
      using w by (simp add: patch_loop.simps)
  next
    case False
    obtain d' where d': "add_old old p (take (nat x) d) = Some d'"
      and b: "0 \<le> x" "0 \<le> y" "nat x \<le> length d" "nat y \<le> length e"
        "0 \<le> p + x + z" "p + x + z \<le> int (length old)"
      and next_: "replay old ts (drop (nat x) d) (drop (nat y) e) (out @ d' @ take (nat y) e) (p + x + z)
        = Some (new, p')"
      using Cons.prems(1) by (auto simp: t bind_eq_Some_conv split: if_splits)
    obtain v where v: "new = (out @ d' @ take (nat y) e) @ v"
      using replay_extends [OF next_] by blast
    have ld: "length d' = nat x"
      using length_add_old [OF d'] b by simp
    have "read_ints 3 (concat (map encode_triple (t # ts)) @ rest)
        = Some ([x, y, z], concat (map encode_triple ts) @ rest)"
      using Cons.prems(2) by (simp add: t read_triple del: read_ints.simps)
    moreover have "int (length w) = x + y + int (length v)"
      using arg_cong [OF v, where f = length] w ld b by simp
    moreover have "0 < int (length w)"
      using False by simp
    ultimately show ?thesis
      using False w b d' ld v Cons.IH [OF next_] Cons.prems(2)
      by (subst patch_loop.simps) (simp add: read_full_def)
  qed
qed

section \<open>The loops of the writer stay in range\<close>

lemma agree_ok:
  "0 \<le> i \<Longrightarrow> 0 \<le> j \<Longrightarrow> j < int (length new) \<Longrightarrow> \<exists>hit. agree old new i j = Some hit"
  by (auto simp: agree_def elem_at_def)

lemma score_loop_ok:
  assumes "0 \<le> scsc" and "0 \<le> scsc + off" and "stop \<le> int (length new)"
  shows "\<exists>score \<ge> oldscore. score_loop old new off stop scsc oldscore = Some (max scsc stop, score)"
  using assms
proof (induction old new off stop scsc oldscore rule: score_loop.induct)
  case (1 old new off stop scsc oldscore)
  show ?case
  proof (cases "scsc < stop")
    case True
    then obtain hit where hit: "agree old new (scsc + off) scsc = Some hit"
      using agree_ok [of "scsc + off" scsc new old] 1(2-4) by auto
    then obtain score where "(if hit then oldscore + 1 else oldscore) \<le> score"
      "score_loop old new off stop (scsc + 1) (if hit then oldscore + 1 else oldscore)
        = Some (max (scsc + 1) stop, score)"
      using 1(1) [OF True, of hit] 1(2-4) by auto
    then show ?thesis
      using True hit by (auto simp: score_loop.simps [of old new off stop scsc] split: if_splits)
  qed (simp add: score_loop.simps)
qed

lemma forward_loop_ok:
  assumes "0 \<le> i" "0 \<le> lscan" "0 \<le> lpos" "scn \<le> int (length new)"
    "0 \<le> lenf" "lenf \<le> i" "lscan + i \<le> scn" "lpos + i \<le> int (length old)"
  shows "\<exists>r. forward_loop old new lscan lpos scn i s sf lenf = Some r \<and> 0 \<le> r
    \<and> lscan + r \<le> scn \<and> lpos + r \<le> int (length old)"
  using assms
proof (induction old new lscan lpos scn i s sf lenf rule: forward_loop.induct)
  case (1 old new lscan lpos scn i s sf lenf)
  show ?case
  proof (cases "lscan + i < scn \<and> lpos + i < int (length old)")
    case True
    then have "elem_at old (lpos + i) = Some (old ! nat (lpos + i))"
      "elem_at new (lscan + i) = Some (new ! nat (lscan + i))"
      using 1(3-) by (simp_all add: elem_at_in)
    then show ?thesis
      using True 1 by (subst forward_loop.simps) (simp add: Let_def)
  next
    case False
    then show ?thesis
      using 1(3-) by (auto simp: forward_loop.simps)
  qed
qed

lemma backward_loop_ok:
  assumes "1 \<le> i" "0 \<le> lscan" "ps \<le> int (length old)" "scn \<le> int (length new)"
    "0 \<le> lenb" "lenb < i" "lscan + lenb \<le> scn" "lenb \<le> ps"
  shows "\<exists>r. backward_loop old new lscan ps scn i s sb lenb = Some r \<and> 0 \<le> r
    \<and> lscan + r \<le> scn \<and> r \<le> ps"
  using assms
proof (induction old new lscan ps scn i s sb lenb rule: backward_loop.induct)
  case (1 old new lscan ps scn i s sb lenb)
  show ?case
  proof (cases "scn \<ge> lscan + i \<and> ps \<ge> i")
    case True
    then have "elem_at old (ps - i) = Some (old ! nat (ps - i))"
      "elem_at new (scn - i) = Some (new ! nat (scn - i))"
      using 1(3-) by (simp_all add: elem_at_in)
    then show ?thesis
      using True 1 by (subst backward_loop.simps) (simp add: Let_def)
  next
    case False
    then show ?thesis
      using 1(3-) by (auto simp: backward_loop.simps)
  qed
qed

lemma overlap_loop_ok:
  assumes "0 \<le> i" "0 \<le> nf" "0 \<le> pf" "0 \<le> nb" "0 \<le> pb" "0 \<le> lens" "lens \<le> overlap"
    "nf + overlap \<le> int (length new)" "pf + overlap \<le> int (length old)"
    "nb + overlap \<le> int (length new)" "pb + overlap \<le> int (length old)"
  shows "\<exists>r. overlap_loop old new nf pf nb pb overlap i s ss lens = Some r \<and> 0 \<le> r \<and> r \<le> overlap"
  using assms
proof (induction old new nf pf nb pb overlap i s ss lens rule: overlap_loop.induct)
  case (1 old new nf pf nb pb overlap i s ss lens)
  show ?case
  proof (cases "i < overlap")
    case True
    then have "elem_at new (nf + i) = Some (new ! nat (nf + i))"
      "elem_at old (pf + i) = Some (old ! nat (pf + i))"
      "elem_at new (nb + i) = Some (new ! nat (nb + i))"
      "elem_at old (pb + i) = Some (old ! nat (pb + i))"
      using 1(3-) by (simp_all add: elem_at_in)
    then show ?thesis
      using True 1 by (subst overlap_loop.simps) (simp add: Let_def)
  next
    case False
    then show ?thesis
      using 1(3-) by (auto simp: overlap_loop.simps)
  qed
qed

text \<open>The bytewise differences are undone by the reader.\<close>

lemma sub_loop_ok:
  assumes "0 \<le> i" "0 \<le> lscan" "0 \<le> lpos" "lscan + lenf \<le> int (length new)"
    "lpos + lenf \<le> int (length old)" "i \<le> lenf"
  shows "\<exists>d. sub_loop old new lscan lpos lenf i = Some d \<and> int (length d) = lenf - i
    \<and> add_old old (lpos + i) d = Some (take (nat (lenf - i)) (drop (nat (lscan + i)) new))"
  using assms
proof (induction old new lscan lpos lenf i rule: sub_loop.induct)
  case (1 old new lscan lpos lenf i)
  show ?case
  proof (cases "i < lenf")
    case True
    let ?n = "nat (lscan + i)"
    have at: "elem_at new (lscan + i) = Some (new ! ?n)"
      "elem_at old (lpos + i) = Some (old ! nat (lpos + i))"
      using True 1(2-) by (simp_all add: elem_at_in)
    obtain d where d: "sub_loop old new lscan lpos lenf (i + 1) = Some d" "int (length d) = lenf - (i + 1)"
      "add_old old (lpos + (i + 1)) d = Some (take (nat (lenf - (i + 1))) (drop (nat (lscan + (i + 1))) new))"
      using 1(1) [OF True] at True 1(2-) by auto
    have "nat (lscan + (i + 1)) = Suc ?n" "nat (lenf - i) = Suc (nat (lenf - (i + 1)))" "?n < length new"
      using True 1(2-) by auto
    then have "take (nat (lenf - i)) (drop ?n new) =
        new ! ?n # take (nat (lenf - (i + 1))) (drop (nat (lscan + (i + 1))) new)"
      by (simp add: Cons_nth_drop_Suc [symmetric])
    then show ?thesis
      using True at d 1(2-) by (subst sub_loop.simps) (simp add: add.assoc)
  next
    case False
    then show ?thesis
      using 1(2-) by (simp add: sub_loop.simps)
  qed
qed

lemma extents_ok:
  assumes "0 \<le> lastscan st" "0 \<le> lastpos st" "lastpos st \<le> int (length old)"
    "lastscan st \<le> scan st" "scan st \<le> int (length new)" "0 \<le> pos st" "pos st \<le> int (length old)"
  shows "\<exists>lenf lenb. extents old new st = Some (lenf, lenb) \<and> 0 \<le> lenf \<and> 0 \<le> lenb
    \<and> lastscan st + lenf \<le> scan st - lenb \<and> lastpos st + lenf \<le> int (length old) \<and> lenb \<le> pos st
    \<and> (scan st = int (length new) \<longrightarrow> lenb = 0)"
proof -
  obtain f where f: "forward_loop old new (lastscan st) (lastpos st) (scan st) 0 0 0 0 = Some f"
    "0 \<le> f" "lastscan st + f \<le> scan st" "lastpos st + f \<le> int (length old)"
    using forward_loop_ok [of 0 "lastscan st" "lastpos st" "scan st" new 0 old 0 0] assms by auto
  obtain b where b: "(if scan st < int (length new)
        then backward_loop old new (lastscan st) (pos st) (scan st) 1 0 0 0 else Some 0) = Some b"
    "0 \<le> b" "lastscan st + b \<le> scan st" "b \<le> pos st" "scan st = int (length new) \<longrightarrow> b = 0"
  proof (cases "scan st < int (length new)")
    case True
    then show ?thesis
      using backward_loop_ok [of 1 "lastscan st" "pos st" old "scan st" new 0 0 0] assms that by auto
  next
    case False
    then show ?thesis
      using assms that [of 0] by simp
  qed
  show ?thesis
  proof (cases "lastscan st + f > scan st - b")
    case False
    then show ?thesis
      using f b by (simp add: extents_def)
  next
    case True
    let ?o = "(lastscan st + f) - (scan st - b)"
    obtain r where r: "overlap_loop old new (lastscan st + f - ?o) (lastpos st + f - ?o)
        (scan st - b) (pos st - b) ?o 0 0 0 0 = Some r" "0 \<le> r" "r \<le> ?o"
      using overlap_loop_ok [of 0 "lastscan st + f - ?o" "lastpos st + f - ?o" "scan st - b"
          "pos st - b" 0 ?o new old 0 0] assms f b True by auto
    have "extents old new st = Some (f + (r - ?o), b - r)"
      unfolding extents_def f(1) b(1) bind.bind_lunit Let_def using True r(1) by simp
    then show ?thesis
      using f b r True by auto
  qed
qed

text \<open>The invariant of the main loop: everything before \<^verbatim>\<open>lastscan\<close> has been written, and replaying it
  reaches \<^verbatim>\<open>lastpos\<close>.\<close>

definition written :: "string \<Rightarrow> string \<Rightarrow> diff_state \<Rightarrow> bool" where
  "written old new st \<longleftrightarrow>
     (\<exists>ts. ctrl st = concat (map encode_triple ts) \<and> (\<forall>t\<in>set ts. fits t)
        \<and> replay old ts (db st) (eb st) [] 0 = Some (take (nat (lastscan st)) new, lastpos st))"

definition diff_inv :: "string \<Rightarrow> string \<Rightarrow> diff_state \<Rightarrow> bool" where
  "diff_inv old new st \<longleftrightarrow>
     0 \<le> lastscan st \<and> lastscan st \<le> scan st \<and> 0 \<le> lastpos st \<and> lastpos st \<le> int (length old)
     \<and> 0 \<le> pos st \<and> pos st \<le> int (length old) \<and> 0 \<le> len st \<and> 0 \<le> scan st + lastoffset st
     \<and> scan st \<le> int (length new)
     \<and> (scan st < int (length new) \<longrightarrow> scan st + len st \<le> int (length new))
     \<and> written old new st"

lemma emit_ok:
  assumes w: "written old new st"
    and b: "0 \<le> lastscan st" "0 \<le> lastpos st" "0 \<le> lenf" "0 \<le> lenb"
      "lastscan st + lenf \<le> scan st - lenb" "lastpos st + lenf \<le> int (length old)"
      "lenb \<le> pos st" "pos st \<le> int (length old)" "scan st \<le> int (length new)"
    and size: "int (length old) \<le> maxSize" "int (length new) \<le> maxSize"
  shows "\<exists>st'. emit old new st lenf lenb = Some st' \<and> written old new st'
    \<and> scan st' = scan st \<and> len st' = len st \<and> pos st' = pos st
    \<and> lastscan st' = scan st - lenb \<and> lastpos st' = pos st - lenb \<and> lastoffset st' = pos st - scan st"
proof -
  let ?x = lenf and ?y = "(scan st - lenb) - (lastscan st + lenf)"
  let ?z = "(pos st - lenb) - (lastpos st + lenf)"
  let ?e = "take (nat ?y) (drop (nat (lastscan st + lenf)) new)"
  obtain d where d: "sub_loop old new (lastscan st) (lastpos st) lenf 0 = Some d" "int (length d) = lenf"
    "add_old old (lastpos st) d = Some (take (nat lenf) (drop (nat (lastscan st)) new))"
    using sub_loop_ok [of 0 "lastscan st" "lastpos st" lenf new old] b by auto
  have e: "slice new (lastscan st + lenf) (scan st - lenb) = Some ?e"
    using b by (simp add: slice_in)
  obtain ts where ts: "ctrl st = concat (map encode_triple ts)" "\<forall>t\<in>set ts. fits t"
    "replay old ts (db st) (eb st) [] 0 = Some (take (nat (lastscan st)) new, lastpos st)"
    using w unfolding written_def by blast
  have fits: "fits (?x, ?y, ?z)"
    using b size by (auto simp: fits_def maxSize_def)
  have cut: "nat (scan st - lenb) = nat (lastscan st) + (nat lenf + nat ?y)"
      "nat (lastscan st + lenf) = nat lenf + nat (lastscan st)"
    using b by (simp_all add: nat_diff_distrib nat_add_distrib flip: nat_add_distrib)
  then have "take (nat (scan st - lenb)) new =
      take (nat (lastscan st)) new @ take (nat lenf) (drop (nat (lastscan st)) new) @ ?e"
    by (simp add: take_add)
  moreover have "length ?e = nat ?y" "length d = nat lenf"
    using b d(2) by auto
  moreover from this(1) have "take (nat ?y) ?e = ?e" "drop (nat ?y) ?e = []" "nat ?y \<le> length ?e"
    by (simp_all only: take_all drop_all order_refl)
  ultimately have "replay old [(?x, ?y, ?z)] d ?e (take (nat (lastscan st)) new) (lastpos st)
      = Some (take (nat (scan st - lenb)) new, pos st - lenb)"
    unfolding replay.simps using b d by (simp only:) simp
  from replay_append [OF ts(3) this]
  have "written old new (st\<lparr>db := db st @ d, eb := eb st @ ?e,
       ctrl := ctrl st @ offtout ?x @ offtout ?y @ offtout ?z,
       lastscan := scan st - lenb, lastpos := pos st - lenb, lastoffset := pos st - scan st\<rparr>)"
    unfolding written_def using ts fits
    by (intro exI [of _ "ts @ [(?x, ?y, ?z)]"]) (simp add: encode_triple_def)
  then show ?thesis
    unfolding emit_def d(1) e by simp
qed

section \<open>Any match finder that stays in range gives a correct patch\<close>

locale match_search =
  fixes old :: string
    and search :: searcher
  assumes search_in_range: "new \<noteq> [] \<Longrightarrow>
    \<exists>ps ln. search new expect = Some (ps, ln) \<and> 0 \<le> ps \<and> ps \<le> int (length old)
      \<and> 0 \<le> ln \<and> ln \<le> int (length new)"
begin

lemma scan_loop_ok:
  assumes "0 \<le> scn" "scn \<le> int (length new)" "0 \<le> scsc" "0 \<le> scsc + off" "0 \<le> scn + off"
    "0 \<le> ps" "ps \<le> int (length old)" "0 \<le> ln"
  shows "\<exists>scn' ps' ln' score. scan_loop search old new off scsc scn ps ln oldscore = Some (scn', ps', ln', score)
    \<and> scn \<le> scn' \<and> scn' \<le> int (length new) \<and> 0 \<le> ps' \<and> ps' \<le> int (length old) \<and> 0 \<le> ln'
    \<and> (scn' < int (length new) \<longrightarrow> scn' + ln' \<le> int (length new))
    \<and> (scn' = scn \<and> scn < int (length new) \<and> 0 \<le> oldscore \<longrightarrow> 0 < ln')"
  using assms
proof (induction "nat (int (length new) - scn)" arbitrary: scsc scn ps ln oldscore rule: less_induct)
  case less
  show ?case
  proof (cases "scn < int (length new)")
    case False
    then show ?thesis
      using less.prems by (simp add: scan_loop.simps)
  next
    case True
    define rest where "rest = drop (nat scn) new"
    have rest: "slice new scn (int (length new)) = Some rest" "rest \<noteq> []"
        "int (length rest) = int (length new) - scn"
      using True less.prems by (auto simp: slice_in rest_def)
    obtain ps' ln' where s: "search rest (scn + off) = Some (ps', ln')" "0 \<le> ps'" "ps' \<le> int (length old)"
      "0 \<le> ln'" "scn + ln' \<le> int (length new)"
      using search_in_range [OF rest(2), of "scn + off"] rest(3) by auto
    obtain score where sc: "score_loop old new off (scn + ln') scsc oldscore = Some (max scsc (scn + ln'), score)"
      "oldscore \<le> score"
      using score_loop_ok [of scsc off "scn + ln'" new oldscore old] less.prems s by auto
    obtain hit where hit: "agree old new (scn + off) scn = Some hit"
      using agree_ok [of "scn + off" scn new old] less.prems True by auto
    let ?sc = "if hit then score - 1 else score"
    have run: "scan_loop search old new off scsc scn ps ln oldscore =
        (if (ln' = score \<and> ln' \<noteq> 0) \<or> ln' > score + 8 then Some (scn, ps', ln', score)
         else scan_loop search old new off (max scsc (scn + ln')) (scn + 1) ps' ln' ?sc)"
      by (subst scan_loop.simps) (simp add: True rest(1) s(1) sc(1) hit)
    show ?thesis
    proof (cases "(ln' = score \<and> ln' \<noteq> 0) \<or> ln' > score + 8")
      case True
      then show ?thesis
        unfolding run using s sc less.prems by auto
    next
      case False
      have "nat (int (length new) - (scn + 1)) < nat (int (length new) - scn)"
        using True by simp
      then show ?thesis
        unfolding run using less.hyps [of "scn + 1" "max scsc (scn + ln')" ps' ln' ?sc] False True s
          less.prems by (auto simp: max_def)
    qed
  qed
qed

lemma diff_step_ok:
  assumes inv: "diff_inv old new st" and lt: "scan st < int (length new)"
    and size: "int (length old) \<le> maxSize" "int (length new) \<le> maxSize"
  shows "\<exists>st'. diff_step search old new st = Some st' \<and> diff_inv old new st'
    \<and> (scan st' = int (length new) \<longrightarrow> lastscan st' = int (length new))
    \<and> (scan st' < int (length new) \<longrightarrow> scan st + len st < scan st' + len st')"
proof -
  note i = inv [unfolded diff_inv_def]
  obtain scn ps ln score where run:
      "scan_loop search old new (lastoffset st) (scan st + len st) (scan st + len st) (pos st) (len st) 0
        = Some (scn, ps, ln, score)"
    and r: "scan st + len st \<le> scn" "scn \<le> int (length new)" "0 \<le> ps" "ps \<le> int (length old)" "0 \<le> ln"
      "scn < int (length new) \<longrightarrow> scn + ln \<le> int (length new)"
      "scn = scan st + len st \<and> scn < int (length new) \<longrightarrow> 0 < ln"
    using scan_loop_ok [of "scan st + len st" new "scan st + len st" "lastoffset st" "pos st" "len st" 0]
      i lt by auto
  define st1 where "st1 = st\<lparr>scan := scn, pos := ps, len := ln\<rparr>"
  have sel: "scan st1 = scn" "pos st1 = ps" "len st1 = ln" "lastscan st1 = lastscan st"
      "lastpos st1 = lastpos st" "lastoffset st1 = lastoffset st" "written old new st1"
    using i by (simp_all add: st1_def written_def)
  have step: "diff_step search old new st =
      (if ln \<noteq> score \<or> scn = int (length new)
       then Option.bind (extents old new st1) (\<lambda>(lenf, lenb). emit old new st1 lenf lenb) else Some st1)"
    by (simp add: diff_step_def run st1_def Let_def)
  show ?thesis
  proof (cases "ln \<noteq> score \<or> scn = int (length new)")
    case True
    obtain f b where e: "extents old new st1 = Some (f, b)" "0 \<le> f" "0 \<le> b"
        "lastscan st + f \<le> scn - b" "lastpos st + f \<le> int (length old)" "b \<le> ps"
        "scn = int (length new) \<longrightarrow> b = 0"
      using extents_ok [of st1 old new] i r sel by auto
    obtain st' where st': "emit old new st1 f b = Some st'" "written old new st'"
        "scan st' = scn" "len st' = ln" "pos st' = ps" "lastscan st' = scn - b" "lastpos st' = ps - b"
        "lastoffset st' = ps - scn"
      using emit_ok [of old new st1 f b] i r e sel size by auto
    have "diff_inv old new st'"
      unfolding diff_inv_def st' using st'(2) e i r by auto
    then show ?thesis
      using True e st' r step by auto
  next
    case False
    have "diff_inv old new st1"
      unfolding diff_inv_def sel using sel(7) i r by auto
    then show ?thesis
      using False step r sel by auto
  qed
qed

lemma diff_step_ctrl:
  assumes "diff_step search old new st = Some st'"
  shows "length (ctrl st') \<le> length (ctrl st) + 24"
  using assms by (auto simp: diff_step_def emit_def Let_def bind_eq_Some_conv split: if_splits)

lemma diff_loop_ok:
  assumes "diff_inv old new st" and "int (length old) \<le> maxSize" and "int (length new) \<le> maxSize"
    and "scan st = int (length new) \<Longrightarrow> lastscan st = int (length new)"
  shows "\<exists>st'. diff_loop search old new st = Some st' \<and> written old new st'
    \<and> lastscan st' = int (length new) \<and> length (ctrl st') \<le> length (ctrl st) + 24 * (1 + nat (int (length new) - (scan st + len st)))"
  using assms
proof (induction "nat (int (length new) - (scan st + len st))" arbitrary: st rule: less_induct)
  case less
  show ?case
  proof (cases "scan st < int (length new)")
    case False
    then show ?thesis
      using less.prems by (auto simp: diff_loop.simps diff_inv_def)
  next
    case True
    obtain st' where st': "diff_step search old new st = Some st'" "diff_inv old new st'"
        "scan st' = int (length new) \<longrightarrow> lastscan st' = int (length new)"
        "scan st' < int (length new) \<longrightarrow> scan st + len st < scan st' + len st'"
      using diff_step_ok [OF less.prems(1) True less.prems(2,3)] by blast
    have grown: "length (ctrl st') \<le> length (ctrl st) + 24"
      using diff_step_ctrl [OF st'(1)] .
    show ?thesis
    proof (cases "scan st' < int (length new)")
      case False
      then have "diff_loop search old new st' = Some st'"
        by (simp add: diff_loop.simps)
      then show ?thesis
        using st' False True grown by (subst diff_loop.simps) (auto simp: diff_inv_def)
    next
      case lt: True
      then have "nat (int (length new) - (scan st' + len st')) < nat (int (length new) - (scan st + len st))"
        using st' by (auto simp: diff_inv_def)
      then show ?thesis
        using less.hyps [OF _ st'(2)] st' less.prems True grown by (subst diff_loop.simps) fastforce
    qed
  qed
qed

lemma diff_loop_written:
  assumes "int (length old) \<le> maxSize" and "int (length new) \<le> maxSize"
  shows "\<exists>st ts. diff_loop search old new diff_init = Some st \<and> ctrl st = concat (map encode_triple ts)
    \<and> (\<forall>t\<in>set ts. fits t) \<and> (\<exists>p. replay old ts (db st) (eb st) [] 0 = Some (new, p))
    \<and> length (ctrl st) \<le> 24 * (length new + 1)"
proof -
  have "written old new diff_init"
    unfolding written_def by (rule exI [of _ "[]"]) (simp add: diff_init_def)
  then have "diff_inv old new diff_init"
    by (simp add: diff_inv_def) (simp add: diff_init_def)
  then obtain st where "diff_loop search old new diff_init = Some st" "written old new st"
      "lastscan st = int (length new)" "length (ctrl st) \<le> 24 * (length new + 1)"
    using diff_loop_ok [of new diff_init] assms by (auto simp: diff_init_def)
  then show ?thesis
    unfolding written_def by fastforce
qed

lemma Patch_frame:
  assumes ts: "ctrl st = concat (map encode_triple ts)" "\<forall>t\<in>set ts. fits t"
      "replay old ts (db st) (eb st) [] 0 = Some (new, p)"
    and bz: "\<And>x c. x \<in> {ctrl st, db st, eb st} \<Longrightarrow> compress x = Some c \<Longrightarrow> bunzip c = x \<and> int (length c) < 2 ^ 63"
    and size: "int (length new) \<le> maxSize"
    and patch: "frame compress (length new) st = Inr patch"
  shows "Patch bunzip old patch = Some (Inr new)"
proof -
  obtain c d e where cde: "compress (ctrl st) = Some c" "compress (db st) = Some d" "compress (eb st) = Some e"
    and p: "patch = magic @ offtout (int (length c)) @ offtout (int (length d))
        @ offtout (int (length new)) @ c @ d @ e"
    using patch by (auto simp: frame_def split: option.splits)
  have undone: "bunzip c = ctrl st" "bunzip d = db st" "bunzip e = eb st" "int (length c) < 2 ^ 63" "int (length d) < 2 ^ 63"
    using bz [OF _ cde(1)] bz [OF _ cde(2)] bz [OF _ cde(3)] by simp_all
  have len: "offtin (offtout (int (length c))) = int (length c)" "offtin (offtout (int (length d))) = int (length d)"
      "offtin (offtout (int (length new))) = int (length new)"
    using undone(4,5) size by (simp_all add: offtin_offtout maxSize_def)
  have "length magic = 8"
    by (simp add: magic_def)
  then have "Patch bunzip old patch = patch_loop old (int (length new)) (bunzip c) (bunzip d) (bunzip e) [] 0"
    using size len by (simp add: Patch_def p headerSize_def)
  then show ?thesis
    using patch_loop_replay [OF ts(3,2), of "[]"] by (simp add: undone(1-3) ts(1))
qed

text \<open>The three streams are short: the control triples are at most one more than the bytes of the new file, and the other two
  streams share its bytes.\<close>

lemma diff_Patch:
  assumes "int (length old) \<le> maxSize" and "int (length new) \<le> maxSize"
    and bz: "\<And>x. length x \<le> 24 * (length new + 1) \<Longrightarrow> \<exists>c. compress x = Some c \<and> bunzip c = x \<and> int (length c) < 2 ^ 63"
  shows "\<exists>patch. diff compress search old new = Some (Inr patch) \<and> Patch bunzip old patch = Some (Inr new)"
proof -
  obtain st ts p where st: "diff_loop search old new diff_init = Some st"
    and w: "ctrl st = concat (map encode_triple ts)" "\<forall>t\<in>set ts. fits t"
      "replay old ts (db st) (eb st) [] 0 = Some (new, p)"
    and short: "length (ctrl st) \<le> 24 * (length new + 1)"
    using diff_loop_written [OF assms(1,2)] by blast
  have "length (db st) + length (eb st) = length new"
    using replay_length [OF w(3)] by simp
  then have streams: "\<exists>c. compress x = Some c \<and> bunzip c = x \<and> int (length c) < 2 ^ 63" if "x \<in> {ctrl st, db st, eb st}" for x
    using that short by (intro bz) auto
  obtain c d e where "compress (ctrl st) = Some c" "compress (db st) = Some d" "compress (eb st) = Some e"
    using streams [of "ctrl st"] streams [of "db st"] streams [of "eb st"] by auto
  then obtain patch where patch: "frame compress (length new) st = Inr patch"
    by (simp add: frame_def)
  have "bunzip c = x \<and> int (length c) < 2 ^ 63" if "x \<in> {ctrl st, db st, eb st}" "compress x = Some c" for x c
    using streams [OF that(1)] that(2) by auto
  then have "Patch bunzip old patch = Some (Inr new)"
    using Patch_frame [OF w _ assms(2) patch] by blast
  then show ?thesis
    using patch st by (simp add: diff_def)
qed

end

section \<open>The reader never panics\<close>

lemma add_old_ok: "0 \<le> p \<Longrightarrow> \<exists>cs. add_old old p bs = Some cs"
proof (induction bs arbitrary: p)
  case (Cons b bs)
  then obtain cs where "add_old old (p + 1) bs = Some cs"
    by force
  then show ?case
    using Cons.prems by (auto simp: elem_at_def)
qed simp

text \<open>Whatever its input, the reader answers either the corruption error or exactly as many bytes as
  the header announces.\<close>

lemma patch_loop_total:
  assumes "0 \<le> oldpos" and "int (length out) \<le> newSize"
  shows "\<exists>r. patch_loop old newSize ctl dif ext out oldpos = Some r
    \<and> (r = Inl ErrCorruptPatch \<or> (\<exists>new. r = Inr new \<and> int (length new) = newSize))"
  using assms
proof (induction old newSize ctl dif ext out oldpos rule: patch_loop.induct)
  case (1 old newSize ctl dif ext out oldpos)
  show ?case
  proof (cases "int (length out) < newSize")
    case False
    then show ?thesis
      using 1 by (simp add: patch_loop.simps)
  next
    case True
    show ?thesis
    proof (cases "read_ints 3 ctl")
      case None
      then show ?thesis
        using True by (simp add: patch_loop.simps)
    next
      case (Some cc)
      obtain c ctl' where c: "read_ints 3 ctl = Some (c, ctl')"
        using Some by (cases cc) simp
      show ?thesis
      proof (cases "c ! 0 < 0 \<or> c ! 0 > newSize - int (length out) \<or> length dif < nat (c ! 0)")
        case bad: True
        then show ?thesis
          using True c by (auto simp: patch_loop.simps [of old newSize ctl] read_full_def)
      next
        case False
        then have rd: "read_full (nat (c ! 0)) dif = Some (take (nat (c ! 0)) dif, drop (nat (c ! 0)) dif)"
          by (simp add: read_full_def)
        obtain d where d: "add_old old oldpos (take (nat (c ! 0)) dif) = Some d"
          using add_old_ok 1(2) by blast
        have ld: "int (length d) = c ! 0"
          using length_add_old [OF d] False by simp
        note run = patch_loop.simps [of old newSize ctl dif ext out oldpos]
        show ?thesis
        proof (cases "c ! 1 < 0 \<or> c ! 1 > newSize - int (length (out @ d)) \<or> length ext < nat (c ! 1)
            \<or> c ! 2 < - (oldpos + c ! 0) \<or> c ! 2 > int (length old) - (oldpos + c ! 0)")
          case bad: True
          then show ?thesis
            using True False c rd d by (auto simp: run read_full_def)
        next
          case good: False
          then have re: "read_full (nat (c ! 1)) ext = Some (take (nat (c ! 1)) ext, drop (nat (c ! 1)) ext)"
            by (simp add: read_full_def)
          have "patch_loop old newSize ctl dif ext out oldpos = patch_loop old newSize ctl'
              (drop (nat (c ! 0)) dif) (drop (nat (c ! 1)) ext) (out @ d @ take (nat (c ! 1)) ext)
              (oldpos + c ! 0 + c ! 2)"
            using True False good c rd re d by (simp add: run)
          moreover have "0 \<le> oldpos + c ! 0 + c ! 2"
              "int (length (out @ d @ take (nat (c ! 1)) ext)) \<le> newSize"
            using good ld by auto
          ultimately show ?thesis
            using 1(1) [OF True c refl _ rd refl d _ re refl] False good by auto
        qed
      qed
    qed
  qed
qed

section \<open>Properties\<close>

text \<open>C30. \<^verbatim>\<open>Patch\<close> is total and bounded on every byte string, corrupt ones included: it never indexes
  out of range and never loops for ever, and it answers either \<^verbatim>\<open>ErrCorruptPatch\<close> or exactly as many
  bytes as the header announces, at most \<^verbatim>\<open>maxSize\<close>, whatever the decompressed streams hold.\<close>

theorem Patch_total:
  "Patch bunzip old patch = Some (Inl ErrCorruptPatch) \<or>
   (\<exists>new. Patch bunzip old patch = Some (Inr new)
      \<and> int (length new) = offtin (take 8 (drop 24 patch)) \<and> int (length new) \<le> maxSize)"
proof (cases "length patch < headerSize \<or> take 8 patch \<noteq> magic")
  case True
  then show ?thesis
    by (simp add: Patch_def)
next
  case False
  let ?n = "offtin (take 8 (drop 24 patch))"
  have "Patch bunzip old patch = Some (Inl ErrCorruptPatch) \<or>
      (0 \<le> ?n \<and> ?n \<le> maxSize \<and> (\<exists>ctl dif ext. Patch bunzip old patch = patch_loop old ?n ctl dif ext [] 0))"
    using False unfolding Patch_def Let_def by (auto simp: not_le)
  then show ?thesis
    using patch_loop_total [of 0 "[]" ?n old] by fastforce
qed

text \<open>Reading undoes writing for the sign-magnitude integers of the format: every \<^verbatim>\<open>int64\<close> except
  the least one survives \<^verbatim>\<open>offtout\<close> followed by \<^verbatim>\<open>offtin\<close>, and the least one, whose negation wraps,
  is read back as zero.\<close>

lemma offtin_offtout_exact:
  assumes "- (2 ^ 63) \<le> x" and "x < 2 ^ 63"
  shows "offtin (offtout x) = (if x = - (2 ^ 63) then 0 else x)"
proof (cases "x = - (2 ^ 63)")
  case True
  have "offtin (offtout (- (2 ^ 63))) = 0"
    by code_simp
  then show ?thesis
    using True by simp
qed (use assms offtin_offtout in auto)

end
