(* ===== verification/BsdiffIndex.thy ===== *)
theory BsdiffIndex
  imports Bsdiff
begin

unbundle bit_operations_syntax

text \<open>
  \<^verbatim>\<open>internal/bsdiff/sparse.go\<close>: the match finder \<^verbatim>\<open>Diff\<close> uses, an index of every eighth 16-byte
  window of the old file built by a counting sort on a 64-bit hash.  Shown here: the index is built
  without leaving its arrays and groups exactly the indexed positions by hash, in increasing order;
  \<^verbatim>\<open>search\<close> never panics and returns a true match, at least as long as the one of the current
  alignment; hence \<^verbatim>\<open>Diff\<close> always returns and \<^verbatim>\<open>Patch\<close> rebuilds the new file from its patch.
\<close>

definition kgram :: nat where "kgram = 16"

definition step :: nat where "step = 8"

definition maxChain :: nat where "maxChain = 32"

record kgramIndex =
  idx_old :: string
  idx_start :: "int list"
  idx_pos :: "int list"
  idx_shift :: nat

definition hash :: "string \<Rightarrow> 64 word option" where
  "hash b = do {
     x \<leftarrow> le64 b;
     y \<leftarrow> le64 (drop (kgram - 8) b);
     Some (((x * 0x9E3779B97F4A7C15) XOR (y * 0xC2B2AE3D27D4EB4F)) * 0x9E3779B97F4A7C15)
   }"

text \<open>\<^verbatim>\<open>hash(b) >> shift\<close>, used as an array index.\<close>

definition bucket :: "nat \<Rightarrow> string \<Rightarrow> int option" where
  "bucket shift b = map_option (\<lambda>h. uint (drop_bit shift h)) (hash b)"

function bits_loop :: "nat \<Rightarrow> nat \<Rightarrow> nat" where
  "bits_loop n bits = (if 2 ^ bits < n then bits_loop n (bits + 1) else bits)"
  by pat_completeness auto
termination
proof (relation "measure (\<lambda>(n, bits). n - bits)", goal_cases)
  case (2 n bits)
  have "bits < n"
    using less_trans [OF less_exp [of bits]] 2 by simp
  then show ?case
    by simp
qed simp

declare bits_loop.simps [simp del]

fun count_loop :: "string \<Rightarrow> nat \<Rightarrow> nat list \<Rightarrow> int list \<Rightarrow> int list option" where
  "count_loop old shift [] start = Some start"
| "count_loop old shift (i # is) start = do {
     h \<leftarrow> bucket shift (drop (i * step) old);
     c \<leftarrow> elem_at start (h + 1);
     start' \<leftarrow> put_at start (h + 1) (c + 1);
     count_loop old shift is start'
   }"

fun sum_loop :: "nat list \<Rightarrow> int list \<Rightarrow> int list option" where
  "sum_loop [] start = Some start"
| "sum_loop (h # hs) start = do {
     a \<leftarrow> elem_at start (int h);
     b \<leftarrow> elem_at start (int h - 1);
     start' \<leftarrow> put_at start (int h) (a + b);
     sum_loop hs start'
   }"

fun place_loop :: "string \<Rightarrow> nat \<Rightarrow> nat list \<Rightarrow> int list \<Rightarrow> int list \<Rightarrow> (int list \<times> int list) option" where
  "place_loop old shift [] start ps = Some (start, ps)"
| "place_loop old shift (i # is) start ps = do {
     h \<leftarrow> bucket shift (drop (i * step) old);
     s \<leftarrow> elem_at start h;
     ps' \<leftarrow> put_at ps s (int (i * step));
     start' \<leftarrow> put_at start h (s + 1);
     place_loop old shift is start' ps'
   }"

definition gram_count :: "string \<Rightarrow> nat" where
  "gram_count old = (if length old \<ge> kgram then (length old - kgram) div step + 1 else 0)"

definition newKgramIndex :: "string \<Rightarrow> kgramIndex option" where
  "newKgramIndex old = do {
     let n = gram_count old;
     let bits = bits_loop n 8;
     let shift = 64 - bits;
     counted \<leftarrow> count_loop old shift [0..<n] (replicate (2 ^ bits + 1) 0);
     summed \<leftarrow> sum_loop [1..<length counted] counted;
     (placed, ps) \<leftarrow> place_loop old shift [0..<n] summed (replicate n 0);
     Some \<lparr>idx_old = old, idx_start = 0 # butlast placed, idx_pos = ps, idx_shift = shift\<rparr>
   }"

text \<open>Lines 169 to 176 of the file: split the bucket at the position wanted.\<close>

function bisect_loop :: "int list \<Rightarrow> int \<Rightarrow> int \<Rightarrow> int \<Rightarrow> (int \<times> int) option" where
  "bisect_loop ps want l r =
     (if l < r then do {
        let m = l + (r - l) div 2;
        p \<leftarrow> elem_at ps m;
        if p < want then bisect_loop ps want (m + 1) r else bisect_loop ps want l m
      } else Some (l, r))"
  by pat_completeness auto
termination
  by (relation "measure (\<lambda>(_, _, l, r). nat (r - l))") auto

text \<open>The choice at line 82: take the left candidate when it is at least as near.\<close>

definition take_left :: "int list \<Rightarrow> int \<Rightarrow> int \<Rightarrow> int \<Rightarrow> int \<Rightarrow> int \<Rightarrow> bool option" where
  "take_left ps want lo hi l r =
     (if r \<ge> hi then Some True
      else if l \<ge> lo then do { a \<leftarrow> elem_at ps l; b \<leftarrow> elem_at ps r; Some (want - a \<le> b - want) }
      else Some False)"

text \<open>Lines 87 to 93: keep the candidate when its match is longer, or as long and nearer.\<close>

definition try_candidate :: "string \<Rightarrow> string \<Rightarrow> int \<Rightarrow> int \<Rightarrow> int \<times> int \<Rightarrow> (int \<times> int) option" where
  "try_candidate old new expect q best = (case best of (ps, ln) \<Rightarrow>
     if q < 0 \<or> q + ln > int (length old) then Some (ps, ln)
     else do {
       differ \<leftarrow> (if ln > 0 then do { a \<leftarrow> elem_at old (q + ln - 1); b \<leftarrow> elem_at new (ln - 1); Some (a \<noteq> b) }
                 else Some False);
       if differ then Some (ps, ln)
       else do {
         tail \<leftarrow> slice old q (int (length old));
         let m = matchlen tail new;
         Some (if m > ln \<or> (m = ln \<and> \<bar>q - expect\<bar> < \<bar>ps - expect\<bar>) then (q, m) else (ps, ln))
       }
     })"

fun walk_loop :: "kgramIndex \<Rightarrow> string \<Rightarrow> int \<Rightarrow> int \<Rightarrow> int \<Rightarrow> int \<Rightarrow> nat \<Rightarrow> int \<Rightarrow> int \<Rightarrow> int \<times> int
    \<Rightarrow> (int \<times> int) option" where
  "walk_loop x new expect j lo hi 0 l r best = Some best"
| "walk_loop x new expect j lo hi (Suc budget) l r best =
     (if l \<ge> lo \<or> r < hi then do {
        left \<leftarrow> take_left (idx_pos x) (expect + j) lo hi l r;
        p \<leftarrow> elem_at (idx_pos x) (if left then l else r);
        best' \<leftarrow> try_candidate (idx_old x) new expect (p - j) best;
        if left then walk_loop x new expect j lo hi budget (l - 1) r best'
        else walk_loop x new expect j lo hi budget l (r + 1) best'
      } else Some best)"

function gram_loop :: "kgramIndex \<Rightarrow> string \<Rightarrow> int \<Rightarrow> nat \<Rightarrow> int \<times> int \<Rightarrow> (int \<times> int) option" where
  "gram_loop x new expect j best =
     (if j < step \<and> j + kgram \<le> length new then do {
        h \<leftarrow> bucket (idx_shift x) (drop j new);
        lo \<leftarrow> elem_at (idx_start x) h;
        hi \<leftarrow> elem_at (idx_start x) (h + 1);
        (l, r) \<leftarrow> bisect_loop (idx_pos x) (expect + int j) lo hi;
        best' \<leftarrow> walk_loop x new expect (int j) lo hi maxChain (l - 1) r best;
        gram_loop x new expect (j + 1) best'
      } else Some best)"
  by pat_completeness auto
termination
  by (relation "measure (\<lambda>(_, _, _, j, _). step - j)") auto

declare bisect_loop.simps [simp del] gram_loop.simps [simp del]

definition kgram_search :: "kgramIndex \<Rightarrow> searcher" where
  "kgram_search x new expect = do {
     best \<leftarrow> (if 0 \<le> expect \<and> expect < int (length (idx_old x))
              then do { tail \<leftarrow> slice (idx_old x) expect (int (length (idx_old x))); Some (expect, matchlen tail new) }
              else Some (0, 0));
     gram_loop x new expect 0 best
   }"

definition Diff :: "compressor \<Rightarrow> string \<Rightarrow> string \<Rightarrow> (bsdiff_error, string) result option" where
  "Diff compress old new =
     (if int (length old) > maxSize \<or> int (length new) > maxSize then Some (Inl ErrTooLarge)
      else do { x \<leftarrow> newKgramIndex old; diff compress (kgram_search x) old new })"

section \<open>The index is a counting sort\<close>

lemma elem_at_int: "i < length xs \<Longrightarrow> elem_at xs (int i) = Some (xs ! i)"
  by (simp add: elem_at_def)

lemma put_at_int: "i < length xs \<Longrightarrow> put_at xs (int i) v = Some (xs[i := v])"
  by (simp add: put_at_def)

lemma hash_ok: "16 \<le> length b \<Longrightarrow> \<exists>h. hash b = Some h"
  by (simp add: hash_def le64_def kgram_def)

text \<open>The hash of the \<^verbatim>\<open>i\<close>-th indexed window as an array index.\<close>

definition key :: "string \<Rightarrow> nat \<Rightarrow> nat \<Rightarrow> nat" where
  "key old shift i = nat (the (bucket shift (drop (i * step) old)))"

lemma bucket_range:
  assumes "bucket shift b = Some h"
  shows "0 \<le> h \<and> h < 2 ^ (64 - shift)"
proof -
  obtain w where h: "h = uint (drop_bit shift (w :: 64 word))"
    using assms by (auto simp: bucket_def)
  have "unat w < 2 ^ 64"
    using unsigned_less [of w] by simp
  also have "(2 :: nat) ^ 64 \<le> 2 ^ (64 - shift) * 2 ^ shift"
    unfolding power_add [symmetric] by (rule power_increasing) auto
  finally have "unat w div 2 ^ shift < 2 ^ (64 - shift)"
    by (rule less_mult_imp_div_less)
  then have "unat (drop_bit shift w) < 2 ^ (64 - shift)"
    by (simp only: unat_drop_bit_eq) (simp only: drop_bit_eq_div)
  then have "int (unat (drop_bit shift w)) < int (2 ^ (64 - shift))"
    by (simp only: of_nat_less_iff)
  then show ?thesis
    unfolding h uint_nat by (simp only: of_nat_power of_nat_numeral of_nat_0_le_iff simp_thms)
qed

lemma gram_inside: "i < gram_count old \<Longrightarrow> i * step + kgram \<le> length old"
proof -
  assume "i < gram_count old"
  then have "i \<le> (length old - kgram) div step" and "kgram \<le> length old"
    by (auto simp: gram_count_def split: if_splits)
  then show ?thesis
    by (simp add: step_def less_eq_div_iff_mult_less_eq)
qed

lemma key_bucket:
  assumes "i < gram_count old"
  shows "bucket shift (drop (i * step) old) = Some (int (key old shift i))"
    and "key old shift i < 2 ^ (64 - shift)"
proof -
  have "16 \<le> length (drop (i * step) old)"
    using gram_inside [OF assms] by (simp add: kgram_def)
  then obtain h where b: "bucket shift (drop (i * step) old) = Some h"
    using hash_ok [of "drop (i * step) old"] by (auto simp: bucket_def)
  then show "bucket shift (drop (i * step) old) = Some (int (key old shift i))"
    using bucket_range [OF b] by (simp add: key_def)
  show "key old shift i < 2 ^ (64 - shift)"
    using bucket_range [OF b] b by (simp add: key_def nat_less_iff)
qed

text \<open>How many of the first \<^verbatim>\<open>m\<close> windows have hash \<^verbatim>\<open>j\<close>, and how many a smaller one.\<close>

definition cnt :: "(nat \<Rightarrow> nat) \<Rightarrow> nat \<Rightarrow> nat \<Rightarrow> nat" where
  "cnt k m j = length (filter (\<lambda>i. k i = j) [0..<m])"

definition cumulative :: "(nat \<Rightarrow> nat) \<Rightarrow> nat \<Rightarrow> nat \<Rightarrow> nat" where
  "cumulative k m j = length (filter (\<lambda>i. k i < j) [0..<m])"

lemma cnt_Suc: "cnt k (Suc m) j = cnt k m j + (if k m = j then 1 else 0)"
  by (simp add: cnt_def)

lemma cumulative_Suc: "cumulative k m (Suc j) = cumulative k m j + cnt k m j"
  by (induction m) (auto simp: cumulative_def cnt_def less_Suc_eq)

lemma cumulative_0 [simp]: "cumulative k m 0 = 0"
  by (simp add: cumulative_def)

lemma cumulative_le: "cumulative k m j \<le> m"
  unfolding cumulative_def by (rule order_trans [OF length_filter_le]) simp

lemma cumulative_mono: "j \<le> j' \<Longrightarrow> cumulative k m j \<le> cumulative k m j'"
  by (induction rule: dec_induct) (auto simp: cumulative_Suc)

lemma cnt_mono: "m \<le> m' \<Longrightarrow> cnt k m j \<le> cnt k m' j"
  by (induction rule: dec_induct) (auto simp: cnt_Suc)

lemma count_loop_ok:
  assumes "\<And>i. i < n \<Longrightarrow> bucket shift (drop (i * step) old) = Some (int (k i)) \<and> Suc (k i) < B"
    and "m \<le> n" and "length start = B" and "start ! 0 = 0"
    and "\<And>j. Suc j < B \<Longrightarrow> start ! Suc j = int (cnt k m j)"
  shows "\<exists>start'. count_loop old shift [m..<n] start = Some start' \<and> length start' = B \<and> start' ! 0 = 0
    \<and> (\<forall>j. Suc j < B \<longrightarrow> start' ! Suc j = int (cnt k n j))"
  using assms(2-)
proof (induction "n - m" arbitrary: m start)
  case 0
  then show ?case by simp
next
  case (Suc d)
  then have "m < n" by simp
  note km = assms(1) [OF this]
  let ?start = "start[Suc (k m) := start ! Suc (k m) + 1]"
  have "count_loop old shift [m..<n] start = count_loop old shift [Suc m..<n] ?start"
    using \<open>m < n\<close> km Suc.prems elem_at_int [of "Suc (k m)" start]
      put_at_int [of "Suc (k m)" start] by (simp add: upt_conv_Cons add.commute)
  moreover have "?start ! Suc j = int (cnt k (Suc m) j)" if "Suc j < B" for j
    using that Suc.prems km by (auto simp: nth_list_update cnt_Suc)
  ultimately show ?case
    using Suc.hyps(1) [of "Suc m" ?start] Suc.hyps(2) Suc.prems \<open>m < n\<close> by simp
qed

lemma sum_loop_ok:
  assumes "0 < m" and "m \<le> B" and "length start = B"
    and "\<And>j. j < m \<Longrightarrow> start ! j = int (cumulative k n j)"
    and "\<And>j. m \<le> Suc j \<Longrightarrow> Suc j < B \<Longrightarrow> start ! Suc j = int (cnt k n j)"
  shows "\<exists>start'. sum_loop [m..<B] start = Some start' \<and> length start' = B
    \<and> (\<forall>j<B. start' ! j = int (cumulative k n j))"
  using assms
proof (induction "B - m" arbitrary: m start)
  case 0
  then show ?case by simp
next
  case (Suc d)
  then obtain j where m: "m = Suc j" and "m < B"
    by (cases m) auto
  let ?start = "start[m := start ! m + start ! j]"
  have "elem_at start (int m - 1) = Some (start ! j)"
    using elem_at_int [of j start] \<open>m < B\<close> Suc.prems m by simp
  then have "sum_loop [m..<B] start = sum_loop [Suc m..<B] ?start"
    using \<open>m < B\<close> Suc.prems elem_at_int [of m start] put_at_int [of m start]
    by (simp add: upt_conv_Cons)
  moreover have "start ! m + start ! j = int (cumulative k n m)"
    using Suc.prems m \<open>m < B\<close> by (simp add: cumulative_Suc)
  moreover from this have "?start ! j' = int (cumulative k n j')" if "j' < Suc m" for j'
    using that Suc.prems(3,4) \<open>m < B\<close> by (cases "j' = m") auto
  ultimately show ?case
    using Suc.hyps(1) [of "Suc m" ?start] Suc.hyps(2) Suc.prems \<open>m < B\<close> by simp
qed

text \<open>Where the counting sort puts the window \<^verbatim>\<open>i\<close>.\<close>

definition slot :: "(nat \<Rightarrow> nat) \<Rightarrow> nat \<Rightarrow> nat \<Rightarrow> nat" where
  "slot k n i = cumulative k n (k i) + cnt k i (k i)"

lemma slot_less: "i < n \<Longrightarrow> slot k n i < cumulative k n (Suc (k i))"
  using cnt_mono [of "Suc i" n k "k i"] by (simp add: slot_def cumulative_Suc cnt_Suc)

lemma slot_inj:
  assumes "i < i'" and "i' < n"
  shows "slot k n i \<noteq> slot k n i'"
proof (cases "k i = k i'")
  case True
  then show ?thesis
    using cnt_mono [of "Suc i" i' k "k i"] assms by (simp add: slot_def cnt_Suc)
next
  case False
  have "slot k n j < slot k n j'" if "k j < k j'" "j < n" for j j'
  proof -
    have "slot k n j < cumulative k n (Suc (k j))"
      using slot_less that(2) .
    also have "\<dots> \<le> cumulative k n (k j')"
      using that by (intro cumulative_mono) simp
    finally show ?thesis
      by (simp add: slot_def)
  qed
  then show ?thesis
    using False assms by (metis less_irrefl less_trans linorder_neqE_nat)
qed

lemma place_loop_ok:
  assumes k: "\<And>i. i < n \<Longrightarrow> bucket shift (drop (i * step) old) = Some (int (k i)) \<and> Suc (k i) < B"
    and "m \<le> n" and "length start = B" and "length ps = n"
    and "\<And>j. Suc j < B \<Longrightarrow> start ! j = int (cumulative k n j + cnt k m j)"
    and "\<And>i. i < m \<Longrightarrow> ps ! slot k n i = int (i * step)"
  shows "\<exists>start' ps'. place_loop old shift [m..<n] start ps = Some (start', ps') \<and> length start' = B
    \<and> length ps' = n \<and> (\<forall>j. Suc j < B \<longrightarrow> start' ! j = int (cumulative k n (Suc j)))
    \<and> (\<forall>i<n. ps' ! slot k n i = int (i * step))"
  using assms(2-)
proof (induction "n - m" arbitrary: m start ps)
  case 0
  then show ?case by (simp add: cumulative_Suc)
next
  case (Suc d)
  then have "m < n" by simp
  note km = k [OF this]
  let ?start = "start[k m := start ! k m + 1]" and ?ps = "ps[slot k n m := int (m * step)]"
  have s: "start ! k m = int (slot k n m)"
    using Suc.prems km by (simp add: slot_def)
  have lt: "slot k n m < n"
    using slot_less [OF \<open>m < n\<close>] cumulative_le less_le_trans by blast
  have "place_loop old shift [m..<n] start ps = place_loop old shift [Suc m..<n] ?start ?ps"
    using \<open>m < n\<close> km Suc.prems s lt elem_at_int [of "k m" start] put_at_int [of "k m" start]
      put_at_int [of "slot k n m" ps] by (simp add: upt_conv_Cons)
  moreover have "?start ! j = int (cumulative k n j + cnt k (Suc m) j)" if "Suc j < B" for j
    using that Suc.prems km by (auto simp: nth_list_update cnt_Suc)
  moreover have "?ps ! slot k n i = int (i * step)" if "i < Suc m" for i
    using that Suc.prems lt slot_inj [of i m n k] \<open>m < n\<close> by (cases "i = m") auto
  ultimately show ?case
    using Suc.hyps(1) [of "Suc m" ?start ?ps] Suc.hyps(2) Suc.prems \<open>m < n\<close> by simp
qed

lemma nth_filter_upt:
  assumes "P i" and "i < n"
  shows "filter P [0..<n] ! length (filter P [0..<i]) = i"
proof -
  have "[0..<n] = [0..<i] @ i # [Suc i..<n]"
    using assms(2) upt_add_eq_append [of 0 i "n - i"] by (simp add: upt_conv_Cons)
  then show ?thesis
    using assms(1) by (simp add: nth_append)
qed

text \<open>What the index promises: bucket \<^verbatim>\<open>j\<close> is the slice of \<^verbatim>\<open>pos\<close> between two entries of \<^verbatim>\<open>start\<close>, and
  lists the indexed windows with that hash in increasing order.\<close>

definition index_ok :: "string \<Rightarrow> kgramIndex \<Rightarrow> bool" where
  "index_ok old x \<longleftrightarrow>
     idx_old x = old \<and> length (idx_pos x) = gram_count old
     \<and> 2 ^ (64 - idx_shift x) < length (idx_start x)
     \<and> (\<forall>j. Suc j < length (idx_start x) \<longrightarrow>
          0 \<le> idx_start x ! j \<and> idx_start x ! j \<le> idx_start x ! Suc j
          \<and> idx_start x ! Suc j \<le> int (length (idx_pos x))
          \<and> take (nat (idx_start x ! Suc j - idx_start x ! j)) (drop (nat (idx_start x ! j)) (idx_pos x))
            = map (\<lambda>i. int (i * step)) (filter (\<lambda>i. key old (idx_shift x) i = j) [0..<gram_count old]))"

lemma bucket_slice:
  assumes ps: "length ps = n" "\<forall>i<n. ps ! slot k n i = int (i * step)"
  shows "take (cnt k n j) (drop (cumulative k n j) ps) = map (\<lambda>i. int (i * step)) (filter (\<lambda>i. k i = j) [0..<n])"
proof (rule nth_equalityI)
  have "cumulative k n j + cnt k n j \<le> n"
    using cumulative_le [of k n "Suc j"] by (simp add: cumulative_Suc)
  then show len: "length (take (cnt k n j) (drop (cumulative k n j) ps)) =
      length (map (\<lambda>i. int (i * step)) (filter (\<lambda>i. k i = j) [0..<n]))"
    using ps(1) by (simp add: cnt_def)
  fix t
  assume "t < length (take (cnt k n j) (drop (cumulative k n j) ps))"
  then have t: "t < length (filter (\<lambda>i. k i = j) [0..<n])"
    by (simp add: cnt_def)
  define i where "i = filter (\<lambda>i. k i = j) [0..<n] ! t"
  have i: "k i = j" "i < n"
    using nth_mem [OF t] unfolding i_def by auto
  have "filter (\<lambda>i. k i = j) [0..<n] ! cnt k i j = i"
    unfolding cnt_def using i by (intro nth_filter_upt) auto
  moreover have "cnt k i j < length (filter (\<lambda>i. k i = j) [0..<n])"
    using cnt_mono [of "Suc i" n k j] i by (simp add: cnt_Suc flip: cnt_def)
  moreover have "distinct (filter (\<lambda>i. k i = j) [0..<n])"
    by simp
  ultimately have "cnt k i j = t"
    using t i_def by (metis nth_eq_iff_index_eq)
  then have "ps ! (cumulative k n j + t) = int (i * step)"
    using ps(2) i by (auto simp: slot_def)
  then show "take (cnt k n j) (drop (cumulative k n j) ps) ! t =
      map (\<lambda>i. int (i * step)) (filter (\<lambda>i. k i = j) [0..<n]) ! t"
    using t ps(1) \<open>cumulative k n j + cnt k n j \<le> n\<close> by (simp add: i_def cnt_def)
qed

lemma newKgramIndex_ok: "\<exists>x. newKgramIndex old = Some x \<and> index_ok old x"
proof -
  define n where "n = gram_count old"
  define bits where "bits = bits_loop n 8"
  define shift where "shift = 64 - bits"
  define B :: nat where "B = 2 ^ bits + 1"
  let ?k = "key old shift"
  have pow: "(2 :: nat) ^ (64 - shift) \<le> 2 ^ bits"
    unfolding shift_def by (rule power_increasing) auto
  have k: "bucket shift (drop (i * step) old) = Some (int (?k i)) \<and> Suc (?k i) < B" if "i < n" for i
    using key_bucket [of i old shift] that less_le_trans [OF _ pow, of "?k i"] unfolding n_def B_def by simp
  obtain c where c: "count_loop old shift [0..<n] (replicate B 0) = Some c" "length c = B" "c ! 0 = 0"
      "\<forall>j. Suc j < B \<longrightarrow> c ! Suc j = int (cnt ?k n j)"
    using count_loop_ok [OF k, where m = 0 and start = "replicate B 0"] by (auto simp: B_def cnt_def)
  obtain s where s: "sum_loop [1..<B] c = Some s" "length s = B" "\<forall>j<B. s ! j = int (cumulative ?k n j)"
    using sum_loop_ok [of 1 B c ?k n] c by (auto simp: B_def)
  obtain st ps where p: "place_loop old shift [0..<n] s (replicate n 0) = Some (st, ps)" "length st = B"
      "length ps = n" "\<forall>j. Suc j < B \<longrightarrow> st ! j = int (cumulative ?k n (Suc j))"
      "\<forall>i<n. ps ! slot ?k n i = int (i * step)"
    using place_loop_ok [OF k, where m = 0 and start = s and ps = "replicate n 0"] s by (auto simp: cnt_def)
  define x where "x = \<lparr>idx_old = old, idx_start = 0 # butlast st, idx_pos = ps, idx_shift = shift\<rparr>"
  have "newKgramIndex old = Some x"
    unfolding newKgramIndex_def Let_def x_def n_def [symmetric] bits_def [symmetric]
      shift_def [symmetric] B_def [symmetric]
    using c s p by simp
  moreover have start: "idx_start x ! j = int (cumulative ?k n j)" if "j < B" for j
    using that p by (cases j) (auto simp: x_def nth_butlast)
  have sel: "idx_old x = old" "idx_pos x = ps" "idx_shift x = shift" "length (idx_start x) = B"
    using p(2) by (simp_all add: x_def B_def)
  have bound: "0 \<le> idx_start x ! j \<and> idx_start x ! j \<le> idx_start x ! Suc j \<and> idx_start x ! Suc j \<le> int n
      \<and> take (nat (idx_start x ! Suc j - idx_start x ! j)) (drop (nat (idx_start x ! j)) ps)
        = map (\<lambda>i. int (i * step)) (filter (\<lambda>i. ?k i = j) [0..<n])" if "Suc j < B" for j
  proof -
    have "nat (idx_start x ! Suc j - idx_start x ! j) = cnt ?k n j"
        "nat (idx_start x ! j) = cumulative ?k n j"
      using that start [of j] start [of "Suc j"] by (simp_all add: cumulative_Suc)
    then show ?thesis
      using that start [of j] start [of "Suc j"] cumulative_le [of ?k n "Suc j"]
        bucket_slice [OF p(3,5), of j] by (simp add: cumulative_mono)
  qed
  have "index_ok old x"
    unfolding index_ok_def sel using bound p(3) le_imp_less_Suc [OF pow] by (simp add: n_def B_def)
  ultimately show ?thesis
    by blast
qed

section \<open>The search\<close>

text \<open>A true match that is at least as long as a given one.\<close>

definition good_match :: "string \<Rightarrow> string \<Rightarrow> int \<times> int \<Rightarrow> bool" where
  "good_match old new best \<longleftrightarrow> (case best of (ps, ln) \<Rightarrow>
     0 \<le> ps \<and> 0 \<le> ln \<and> ln \<le> int (length new) \<and> ps + ln \<le> int (length old)
     \<and> take (nat ln) (drop (nat ps) old) = take (nat ln) new)"

lemma take_lcp: "take (lcp a b) a = take (lcp a b) b"
  by (rule nth_equalityI) (use lcp_le [of a b] in \<open>auto simp: lcp_same\<close>)

lemma matchlen_good:
  assumes "0 \<le> q" and "q \<le> int (length old)"
  shows "good_match old new (q, matchlen (drop (nat q) old) new)"
  using assms lcp_le [of "drop (nat q) old" new] take_lcp [of "drop (nat q) old" new]
  by (auto simp: good_match_def matchlen_lcp)

lemma try_candidate_ok:
  assumes "good_match old new best"
  shows "\<exists>best'. try_candidate old new expect q best = Some best' \<and> good_match old new best'
    \<and> snd best \<le> snd best'"
proof -
  obtain ps ln where best: "best = (ps, ln)"
    by (cases best)
  show ?thesis
  proof (cases "q < 0 \<or> q + ln > int (length old)")
    case True
    then show ?thesis
      using assms by (auto simp: try_candidate_def best)
  next
    case False
    have ln: "0 \<le> ln" "ln \<le> int (length new)"
      using assms by (auto simp: good_match_def best)
    have "slice old q (int (length old)) = Some (drop (nat q) old)"
      using False ln by (simp add: slice_in)
    then show ?thesis
      using False ln assms matchlen_good [of q old new]
      by (auto simp: try_candidate_def best elem_at_in Let_def)
  qed
qed

lemma bisect_loop_ok:
  assumes "0 \<le> l" and "l \<le> r" and "r \<le> int (length ps)"
  shows "\<exists>m. bisect_loop ps want l r = Some (m, m) \<and> l \<le> m \<and> m \<le> r"
  using assms
proof (induction ps want l r rule: bisect_loop.induct)
  case (1 ps want l r)
  show ?case
  proof (cases "l < r")
    case True
    let ?m = "l + (r - l) div 2"
    have m: "l \<le> ?m" "?m < r"
      using True by auto
    then have "elem_at ps ?m = Some (ps ! nat ?m)"
      using 1(3-) by (intro elem_at_in) auto
    then show ?thesis
      using 1 True m by (subst bisect_loop.simps) (fastforce simp: Let_def)
  next
    case False
    then show ?thesis
      using 1(4) by (simp add: bisect_loop.simps)
  qed
qed

lemma walk_loop_ok:
  assumes "idx_old x = old" and "0 \<le> lo" and "hi \<le> int (length (idx_pos x))"
    and "l < hi" and "lo \<le> r" and "good_match old new best"
  shows "\<exists>best'. walk_loop x new expect j lo hi budget l r best = Some best' \<and> good_match old new best'
    \<and> snd best \<le> snd best'"
  using assms
proof (induction budget arbitrary: l r best)
  case (Suc budget)
  show ?case
  proof (cases "l \<ge> lo \<or> r < hi")
    case True
    have "\<exists>left. take_left (idx_pos x) (expect + j) lo hi l r = Some left \<and> (if left then l \<ge> lo else r < hi)"
      using True Suc.prems by (auto simp: take_left_def elem_at_in)
    then obtain left where left: "take_left (idx_pos x) (expect + j) lo hi l r = Some left"
        "if left then l \<ge> lo else r < hi"
      by blast
    then obtain p where p: "elem_at (idx_pos x) (if left then l else r) = Some p"
      using Suc.prems by (cases left) (auto simp: elem_at_in)
    obtain best' where b: "try_candidate old new expect (p - j) best = Some best'"
        "good_match old new best'" "snd best \<le> snd best'"
      using try_candidate_ok [OF Suc.prems(6)] by blast
    show ?thesis
      using Suc.IH [of "if left then l - 1 else l" "if left then r else r + 1" best'] Suc.prems True left p b
      by (cases left) fastforce+
  qed (use Suc.prems in auto)
qed auto

lemma gram_loop_ok:
  assumes "index_ok old x" and "good_match old new best"
  shows "\<exists>best'. gram_loop x new expect j best = Some best' \<and> good_match old new best' \<and> snd best \<le> snd best'"
  using assms
proof (induction x new expect j best rule: gram_loop.induct)
  case (1 x new expect j best)
  note ok = 1(2) [unfolded index_ok_def]
  show ?case
  proof (cases "j < step \<and> j + kgram \<le> length new")
    case False
    then have "gram_loop x new expect j best = Some best"
      by (subst gram_loop.simps) (simp only: False if_False)
    then show ?thesis
      using 1(3) by auto
  next
    case True
    then have "16 \<le> length (drop j new)"
      by (auto simp: kgram_def)
    then obtain w where "hash (drop j new) = Some w"
      using hash_ok by blast
    then obtain h where h: "bucket (idx_shift x) (drop j new) = Some h"
      by (simp add: bucket_def)
    define b where "b = nat h"
    have b: "h = int b" "b < 2 ^ (64 - idx_shift x)"
      using bucket_range [OF h] by (auto simp: b_def nat_less_iff)
    then have sb: "Suc b < length (idx_start x)"
      using ok by linarith
    then have e: "elem_at (idx_start x) h = Some (idx_start x ! b)"
        "elem_at (idx_start x) (h + 1) = Some (idx_start x ! Suc b)"
      using elem_at_int [of b "idx_start x"] elem_at_int [of "Suc b" "idx_start x"] b(1)
      by (simp_all add: add.commute)
    let ?lo = "idx_start x ! b" and ?hi = "idx_start x ! Suc b"
    have r: "0 \<le> ?lo" "?lo \<le> ?hi" "?hi \<le> int (length (idx_pos x))" "idx_old x = old"
      using ok sb by blast+
    obtain m where m: "bisect_loop (idx_pos x) (expect + int j) ?lo ?hi = Some (m, m)" "?lo \<le> m" "m \<le> ?hi"
      using bisect_loop_ok [OF r(1-3)] by blast
    obtain best' where w: "walk_loop x new expect (int j) ?lo ?hi maxChain (m - 1) m best = Some best'"
        "good_match old new best'" "snd best \<le> snd best'"
      using walk_loop_ok [OF r(4,1,3), of "m - 1" m new best expect "int j" maxChain] m 1(3) by auto
    obtain best'' where "gram_loop x new expect (j + 1) best' = Some best''" "good_match old new best''"
        "snd best' \<le> snd best''"
      using 1(1) [OF True h e m(1) refl w(1) 1(2) w(2)] by blast
    moreover have "gram_loop x new expect j best = gram_loop x new expect (j + 1) best'"
      using True h e m(1) w(1) by (subst gram_loop.simps) simp
    ultimately show ?thesis
      using w(3) by auto
  qed
qed

text \<open>The search returns a true match, no shorter than the one the current alignment predicts.\<close>

lemma kgram_search_ok:
  assumes "index_ok old x"
  shows "\<exists>ps ln. kgram_search x new expect = Some (ps, ln) \<and> good_match old new (ps, ln)
    \<and> (0 \<le> expect \<and> expect < int (length old) \<longrightarrow> int (lcp (drop (nat expect) old) new) \<le> ln)"
proof -
  have old: "idx_old x = old"
    using assms by (simp add: index_ok_def)
  show ?thesis
  proof (cases "0 \<le> expect \<and> expect < int (length old)")
    case True
    then have "slice old expect (int (length old)) = Some (drop (nat expect) old)"
      by (simp add: slice_in)
    then show ?thesis
      using True old gram_loop_ok [OF assms matchlen_good [of expect old new], of expect 0]
      by (fastforce simp: kgram_search_def matchlen_lcp)
  next
    case False
    have "good_match old new (0, 0)"
      by (simp add: good_match_def)
    then show ?thesis
      using False old gram_loop_ok [OF assms, of new "(0, 0)" expect 0]
      by (fastforce simp: kgram_search_def)
  qed
qed

interpretation sparse: match_search old "kgram_search (the (newKgramIndex old))" for old
proof
  fix new :: string and expect :: int
  obtain x where x: "newKgramIndex old = Some x" "index_ok old x"
    using newKgramIndex_ok by blast
  then show "\<exists>ps ln. kgram_search (the (newKgramIndex old)) new expect = Some (ps, ln)
      \<and> 0 \<le> ps \<and> ps \<le> int (length old) \<and> 0 \<le> ln \<and> ln \<le> int (length new)"
    using kgram_search_ok [OF x(2), of new expect] by (auto simp: good_match_def)
qed

section \<open>Properties\<close>

text \<open>C5. The round trip: for inputs up to \<^verbatim>\<open>maxSize\<close>, \<^verbatim>\<open>Diff\<close> returns a patch, and applying it with \<^verbatim>\<open>Patch\<close> gives
  back exactly the new file.  The hypothesis on the two bzip2 parameters is their documented behaviour on streams of at
  most 24 bytes for every byte of the new file and one more, which is all that \<^verbatim>\<open>Diff\<close> hands them: the writer does
  not fail, its output is a slice whose length fits an \<^verbatim>\<open>int64\<close>, and a reader delivers what the writer was given.\<close>

theorem Diff_Patch_roundtrip:
  assumes "\<And>x. length x \<le> 24 * (length new + 1) \<Longrightarrow> \<exists>c. compress x = Some c \<and> bunzip c = x \<and> int (length c) < 2 ^ 63"
    and "int (length old) \<le> maxSize" and "int (length new) \<le> maxSize"
  shows "\<exists>patch. Diff compress old new = Some (Inr patch) \<and> Patch bunzip old patch = Some (Inr new)"
proof -
  obtain x where "newKgramIndex old = Some x"
    using newKgramIndex_ok by blast
  then show ?thesis
    using sparse.diff_Patch [OF assms(2,3,1)] assms(2,3) by (simp add: Diff_def)
qed

theorem Diff_Patch_roundtrip_witness:
  "\<exists>patch. Diff (\<lambda>x. if int (length x) < 2 ^ 63 then Some x else None) ''abcd'' ''abxd'' = Some (Inr patch)
    \<and> Patch id ''abcd'' patch = Some (Inr ''abxd'')"
  by (rule Diff_Patch_roundtrip) (auto simp: maxSize_def)

text \<open>C31. Termination: \<^verbatim>\<open>Diff\<close> returns for every pair of files, whatever the compressor does.  The main loop, whose
  body may leave the scan position where it was, and every loop of the index and the search end, and no index is ever out
  of range, which would be a panic; files over the limit are refused with an error.\<close>

theorem Diff_terminates: "\<exists>r. Diff compress old new = Some r"
proof -
  obtain x where x: "newKgramIndex old = Some x"
    using newKgramIndex_ok by blast
  show ?thesis
  proof (cases "int (length old) \<le> maxSize \<and> int (length new) \<le> maxSize")
    case True
    then obtain st where "diff_loop (kgram_search x) old new diff_init = Some st"
      using sparse.diff_loop_written [of old new] x by auto
    then show ?thesis
      using x by (simp add: Diff_def diff_def)
  qed (auto simp: Diff_def)
qed

text \<open>The match finder: the index of any old file is built, holds exactly the indexed windows
  grouped by hash in increasing order, and for any input \<^verbatim>\<open>search\<close> returns a true match inside both
  files that is at least as long as the one at the position the current alignment predicts.\<close>

lemma kgram_search_sound:
  "\<exists>x. newKgramIndex old = Some x \<and> index_ok old x \<and>
    (\<exists>ps ln. kgram_search x new expect = Some (ps, ln) \<and> 0 \<le> ps \<and> 0 \<le> ln
       \<and> ps + ln \<le> int (length old) \<and> ln \<le> int (length new)
       \<and> take (nat ln) (drop (nat ps) old) = take (nat ln) new
       \<and> (if 0 \<le> expect \<and> expect < int (length old)
          then int (lcp (drop (nat expect) old) new) \<le> ln else True))"
proof -
  obtain x where "newKgramIndex old = Some x" "index_ok old x"
    using newKgramIndex_ok by blast
  then show ?thesis
    using kgram_search_ok [of old x new expect] by (auto simp: good_match_def)
qed

text \<open>\<^verbatim>\<open>matchlen\<close>, which compares eight bytes at a time before it falls back to single bytes, is
  the length of the longest common prefix.\<close>

lemma matchlen_is_lcp: "matchlen a b = int (lcp a b)"
  by (rule matchlen_lcp)

end
