(* ===== verification/Rollout.thy ===== *)
theory Rollout
  imports Complex_Main Prelude
begin

text \<open>
  \<^verbatim>\<open>internal/rollout/bucketing.go\<close>: the position of a device in a rollout.  SHA-256 is a parameter.
  \<^verbatim>\<open>float64\<close> values are the rationals they denote and every conversion and division is rounded by
  \<^verbatim>\<open>fl64\<close>, to the nearest 53-bit significand, ties to even; the values that occur lie between
  \<open>2\<^sup>-\<^sup>7\<close> and \<open>2\<^sup>6\<^sup>4\<close> (or are zero), so neither overflow nor subnormal numbers arise.
\<close>

section \<open>Rounding to double precision\<close>

fun bitlen :: "nat \<Rightarrow> nat" where
  "bitlen n = (if n = 0 then 0 else Suc (bitlen (n div 2)))"

declare bitlen.simps [simp del]

text \<open>The exponent of a positive rational: the largest power of two below it.\<close>

definition binade :: "rat \<Rightarrow> int" where
  "binade x = (case quotient_of x of (a, b) \<Rightarrow>
     let e = int (bitlen (nat a)) - int (bitlen (nat b)) in if 2 powi e \<le> x then e else e - 1)"

definition round_even :: "rat \<Rightarrow> int" where
  "round_even y =
     (let f = \<lfloor>y\<rfloor>; d = y - of_int f
      in if d < 1 / 2 then f else if d > 1 / 2 then f + 1 else if even f then f else f + 1)"

definition fl64_pos :: "rat \<Rightarrow> rat" where
  "fl64_pos x = (let u = 2 powi (binade x - 52) in of_int (round_even (x / u)) * u)"

definition fl64 :: "rat \<Rightarrow> rat" where
  "fl64 x = (if x = 0 then 0 else if x > 0 then fl64_pos x else - fl64_pos (- x))"

lemma bitlen_bounds: "0 < n \<Longrightarrow> 2 ^ (bitlen n - 1) \<le> n \<and> n < 2 ^ bitlen n \<and> 0 < bitlen n"
proof (induction n rule: bitlen.induct)
  case (1 n)
  show ?case
  proof (cases "n div 2 = 0")
    case True
    then have "n = 1"
      using 1(2) by linarith
    then show ?thesis
      by (simp add: bitlen.simps)
  next
    case False
    obtain k where k: "bitlen (n div 2) = Suc k"
      using False by (simp add: bitlen.simps [of "n div 2"])
    have "2 ^ k \<le> n div 2" "n div 2 < 2 ^ Suc k"
      using 1(1) 1(2) False k by auto
    moreover have "bitlen n = Suc (Suc k)"
      using 1(2) k by (simp add: bitlen.simps [of n])
    ultimately show ?thesis
      by simp linarith
  qed
qed

lemma bitlen_powi:
  assumes "0 < n"
  shows "2 powi (int (bitlen n) - 1) \<le> (of_nat n :: rat)" and "(of_nat n :: rat) < 2 powi int (bitlen n)"
proof -
  have b: "2 ^ (bitlen n - 1) \<le> n" "n < 2 ^ bitlen n" "0 < bitlen n"
    using bitlen_bounds [OF assms] by auto
  have e: "int (bitlen n) - 1 = int (bitlen n - 1)"
    using b(3) by simp
  show "2 powi (int (bitlen n) - 1) \<le> (of_nat n :: rat)"
    unfolding e power_int_of_nat using b(1) by (metis of_nat_le_iff of_nat_numeral of_nat_power)
  show "(of_nat n :: rat) < 2 powi int (bitlen n)"
    unfolding power_int_of_nat using b(2) by (metis of_nat_less_iff of_nat_numeral of_nat_power)
qed

lemma binade_bounds:
  assumes "0 < x"
  shows "2 powi binade x \<le> x" and "x < 2 powi (binade x + 1)"
proof -
  obtain a b where q: "quotient_of x = (a, b)"
    by (cases "quotient_of x")
  have "0 < b" and x: "x = of_int a / of_int b"
    using q quotient_of_denom_pos quotient_of_div by auto
  then have "0 < a"
    using assms by (simp add: zero_less_divide_iff)
  define e where "e = int (bitlen (nat a)) - int (bitlen (nat b))"
  have a: "2 powi (int (bitlen (nat a)) - 1) \<le> (of_int a :: rat)" "(of_int a :: rat) < 2 powi int (bitlen (nat a))"
    using bitlen_powi [of "nat a"] \<open>0 < a\<close> by simp_all
  have b: "2 powi (int (bitlen (nat b)) - 1) \<le> (of_int b :: rat)" "(of_int b :: rat) < 2 powi int (bitlen (nat b))"
    using bitlen_powi [of "nat b"] \<open>0 < b\<close> by simp_all
  have up: "x < 2 powi (e + 1)"
  proof -
    have "x < 2 powi int (bitlen (nat a)) / of_int b"
      unfolding x using a(2) \<open>0 < b\<close> by (simp add: divide_strict_right_mono)
    also have "\<dots> \<le> 2 powi int (bitlen (nat a)) / 2 powi (int (bitlen (nat b)) - 1)"
      using b(1) \<open>0 < b\<close> by (intro divide_left_mono) auto
    also have "\<dots> = 2 powi (e + 1)"
      by (subst power_int_diff [symmetric]) (simp_all add: e_def algebra_simps)
    finally show ?thesis .
  qed
  have low: "2 powi (e - 1) \<le> x"
  proof -
    have "2 powi (e - 1) = (2 powi (int (bitlen (nat a)) - 1) / 2 powi int (bitlen (nat b)) :: rat)"
      by (subst power_int_diff [symmetric]) (simp_all add: e_def algebra_simps)
    also have "\<dots> \<le> 2 powi (int (bitlen (nat a)) - 1) / of_int b"
      using b(2) \<open>0 < b\<close> by (intro divide_left_mono) auto
    also have "\<dots> \<le> x"
      unfolding x using a(1) \<open>0 < b\<close> by (simp add: divide_right_mono)
    finally show ?thesis .
  qed
  have "binade x = (if 2 powi e \<le> x then e else e - 1)"
    by (simp add: binade_def q e_def)
  then show "2 powi binade x \<le> x" "x < 2 powi (binade x + 1)"
    using up low by auto
qed

lemma round_even_bounds: "\<lfloor>y\<rfloor> \<le> round_even y" "round_even y \<le> \<lceil>y\<rceil>"
  by (auto simp: round_even_def Let_def) linarith+

lemma round_even_of_int [simp]: "round_even (of_int z) = z"
  by (simp add: round_even_def)

lemma round_even_numeral [simp]: "round_even (numeral n) = numeral n"
  using round_even_of_int [of "numeral n"] by simp

lemma round_even_eval:
  "of_int f \<le> y \<Longrightarrow> y < of_int f + 1 \<Longrightarrow>
     round_even y = (if y - of_int f < 1 / 2 then f else if y - of_int f > 1 / 2 then f + 1
                     else if even f then f else f + 1)"
  by (simp add: round_even_def Let_def floor_unique)

lemma round_even_mono: "y \<le> z \<Longrightarrow> round_even y \<le> round_even z"
proof -
  assume le: "y \<le> z"
  then have f: "\<lfloor>y\<rfloor> \<le> \<lfloor>z\<rfloor>"
    by (rule floor_mono)
  show ?thesis
  proof (cases "\<lfloor>y\<rfloor> = \<lfloor>z\<rfloor>")
    case True
    then show ?thesis
      using le by (auto simp: round_even_def Let_def)
  next
    case False
    then have "\<lfloor>y\<rfloor> + 1 \<le> \<lfloor>z\<rfloor>"
      using f by simp
    then show ?thesis
      by (auto simp: round_even_def Let_def)
  qed
qed

lemma significand_bounds:
  assumes "0 < x"
  shows "2 ^ 52 \<le> round_even (x / 2 powi (binade x - 52))" and "round_even (x / 2 powi (binade x - 52)) \<le> 2 ^ 53"
proof -
  define u :: rat where "u = 2 powi (binade x - 52)"
  have "0 < u"
    by (simp add: u_def)
  have "2 powi binade x = of_int (2 ^ 52) * u" "2 powi (binade x + 1) = of_int (2 ^ 53) * u"
    by (simp_all add: u_def power_int_diff power_int_add)
  then have "of_int (2 ^ 52) \<le> x / u" "x / u \<le> of_int (2 ^ 53)"
    using binade_bounds [OF assms] \<open>0 < u\<close> by (simp_all add: field_simps)
  then show "2 ^ 52 \<le> round_even (x / 2 powi (binade x - 52))" "round_even (x / 2 powi (binade x - 52)) \<le> 2 ^ 53"
    unfolding u_def using round_even_mono round_even_of_int by metis+
qed

lemma fl64_pos_binade:
  assumes "0 < x"
  shows "2 powi binade x \<le> fl64_pos x" and "fl64_pos x \<le> 2 powi (binade x + 1)"
proof -
  define u :: rat where "u = 2 powi (binade x - 52)"
  have "0 < u"
    by (simp add: u_def)
  have p: "2 powi binade x = of_int (2 ^ 52) * u" "2 powi (binade x + 1) = of_int (2 ^ 53) * u"
    by (simp_all add: u_def power_int_diff power_int_add)
  have "fl64_pos x = of_int (round_even (x / u)) * u"
    by (simp add: fl64_pos_def u_def Let_def)
  then show "2 powi binade x \<le> fl64_pos x" "fl64_pos x \<le> 2 powi (binade x + 1)"
    unfolding p using \<open>0 < u\<close> significand_bounds [OF assms, folded u_def]
    by (metis mult_right_mono less_imp_le of_int_le_iff)+
qed

lemma fl64_pos_mono:
  assumes "0 < x" and "x \<le> y"
  shows "fl64_pos x \<le> fl64_pos y"
proof -
  have "binade x \<le> binade y"
  proof (rule ccontr)
    assume "\<not> binade x \<le> binade y"
    then have "2 powi (binade y + 1) \<le> (2 powi binade x :: rat)"
      by (intro power_int_increasing) auto
    then show False
      using binade_bounds [of x] binade_bounds [of y] assms by linarith
  qed
  then consider "binade x = binade y" | "binade x + 1 \<le> binade y"
    by linarith
  then show ?thesis
  proof cases
    case 1
    then show ?thesis
      using assms by (auto simp: fl64_pos_def Let_def intro!: mult_right_mono round_even_mono divide_right_mono)
  next
    case 2
    then have "2 powi (binade x + 1) \<le> (2 powi binade y :: rat)"
      by (intro power_int_increasing) auto
    then show ?thesis
      using fl64_pos_binade [of x] fl64_pos_binade [of y] assms by linarith
  qed
qed

lemma fl64_pos_pos: "0 < x \<Longrightarrow> 0 < fl64_pos x"
  using fl64_pos_binade(1) [of x] zero_less_power_int [of "2 :: rat" "binade x"] by linarith

lemma fl64_mono: "x \<le> y \<Longrightarrow> fl64 x \<le> fl64 y"
  using fl64_pos_mono [of x y] fl64_pos_mono [of "- y" "- x"] fl64_pos_pos [of y] fl64_pos_pos [of "- x"]
  by (auto simp: fl64_def)

section \<open>The code\<close>

text \<open>\<^verbatim>\<open>binary.BigEndian.Uint64(sum[:8])\<close>.\<close>

definition hash_value :: "(string \<Rightarrow> string) \<Rightarrow> string \<Rightarrow> string \<Rightarrow> nat" where
  "hash_value sha256 clientID salt =
     horner_sum of_char 256 (rev (take 8 (sha256 (clientID @ '':'' @ salt))))"

definition Bucket :: "(string \<Rightarrow> string) \<Rightarrow> string \<Rightarrow> string \<Rightarrow> rat" where
  "Bucket sha256 clientID salt =
     (if clientID = [] then 1
      else fl64 (fl64 (of_nat (hash_value sha256 clientID salt)) / fl64 (2 ^ 64 - 1)))"

definition InBucket :: "(string \<Rightarrow> string) \<Rightarrow> string \<Rightarrow> string \<Rightarrow> int \<Rightarrow> bool" where
  "InBucket sha256 clientID salt percentage \<longleftrightarrow>
     Bucket sha256 clientID salt < fl64 (fl64 (of_int percentage) / 100)"

definition UpdateSalt :: "string \<Rightarrow> string \<Rightarrow> string \<Rightarrow> string \<Rightarrow> string" where
  "UpdateSalt appId branchName runtimeVersion updateId =
     ''update:'' @ appId @ '':'' @ branchName @ '':'' @ runtimeVersion @ '':'' @ updateId"

section \<open>What a bucket is worth\<close>

lemma fl64_0 [simp]: "fl64 0 = 0"
  by (simp add: fl64_def)

lemma binade_unique: "2 powi e \<le> x \<Longrightarrow> x < 2 powi (e + 1) \<Longrightarrow> binade x = e"
proof -
  assume e: "2 powi e \<le> x" "x < 2 powi (e + 1)"
  have "0 < x"
    using e(1) zero_less_power_int [of "2 :: rat" e] by linarith
  note b = binade_bounds [OF this]
  show ?thesis
  proof (rule ccontr)
    assume "binade x \<noteq> e"
    then consider "binade x + 1 \<le> e" | "e + 1 \<le> binade x"
      by linarith
    then show False
    proof cases
      case 1
      then have "2 powi (binade x + 1) \<le> (2 powi e :: rat)"
        by (intro power_int_increasing) auto
      then show False using b e by linarith
    next
      case 2
      then have "2 powi (e + 1) \<le> (2 powi binade x :: rat)"
        by (intro power_int_increasing) auto
      then show False using b e by linarith
    qed
  qed
qed

lemma binade_scale: "0 < x \<Longrightarrow> binade (x * 2 powi k) = binade x + k"
  using binade_bounds [of x]
  by (intro binade_unique) (simp_all add: power_int_add mult_right_mono ac_simps)

lemma fl64_eval:
  assumes "2 powi e \<le> x" and "x < 2 powi (e + 1)"
  shows "fl64 x = of_int (round_even (x / 2 powi (e - 52))) * 2 powi (e - 52)"
proof -
  have "0 < x"
    using assms(1) zero_less_power_int [of "2 :: rat" e] by linarith
  then show ?thesis
    using assms by (simp add: fl64_def fl64_pos_def binade_unique Let_def)
qed

text \<open>A number with a 53-bit significand is its own rounding.\<close>

lemma fl64_exact:
  assumes "2 ^ 52 \<le> r" and "r \<le> 2 ^ 53"
  shows "fl64 (of_int r * 2 powi k) = of_int r * 2 powi k"
proof (cases "r = 2 ^ 53")
  case True
  then have "of_int r * 2 powi k = (2 powi (k + 53) :: rat)"
    by (simp add: power_int_add)
  moreover have "fl64 (2 powi (k + 53)) = 2 powi (k + 53)"
    by (subst fl64_eval [of "k + 53"]) (simp_all flip: power_int_diff add: power_int_add)
  ultimately show ?thesis by simp
next
  case False
  have "of_int (2 ^ 52) \<le> (of_int r :: rat)" "of_int r < (of_int (2 ^ 53) :: rat)"
    using assms False by (simp_all only: of_int_le_iff of_int_less_iff)
  then have "2 powi (k + 52) \<le> of_int r * (2 powi k :: rat)" "of_int r * 2 powi k < (2 powi (k + 52 + 1) :: rat)"
    by (simp_all add: power_int_add)
  from fl64_eval [OF this] show ?thesis
    by simp
qed

lemma fl64_scaled:
  assumes "0 < x"
  shows "fl64 (fl64 x * 2 powi k) = fl64 x * 2 powi k"
proof -
  let ?r = "round_even (x / 2 powi (binade x - 52))"
  have "fl64 x * 2 powi k = of_int ?r * 2 powi (binade x - 52 + k)"
    using assms by (simp add: fl64_def fl64_pos_def Let_def power_int_add)
  then show ?thesis
    using fl64_exact [OF significand_bounds [OF assms], of "binade x - 52 + k"] by simp
qed

lemma fl64_top:
  "fl64 (2 ^ 64 - 1) = 2 ^ 64" "fl64 (2 ^ 64 - 1024) = 2 ^ 64" "fl64 (2 ^ 64 - 1025) = 2 ^ 64 - 2048"
proof -
  show "fl64 (2 ^ 64 - 1) = 2 ^ 64" "fl64 (2 ^ 64 - 1024) = 2 ^ 64"
    by (subst fl64_eval [of 63]; simp; subst round_even_eval [of "2 ^ 53 - 1"]; simp)+
  show "fl64 (2 ^ 64 - 1025) = 2 ^ 64 - 2048"
    by (subst fl64_eval [of 63]; simp; subst round_even_eval [of "2 ^ 53 - 1"]; simp)
qed

lemma hash_value_less: "hash_value sha256 clientID salt < 2 ^ 64"
proof -
  from horner_bytes_less [of "rev (take 8 (sha256 (clientID @ '':'' @ salt)))"]
  have "hash_value sha256 clientID salt < 256 ^ min (length (sha256 (clientID @ '':'' @ salt))) 8"
    by (simp add: hash_value_def)
  also have "\<dots> \<le> 256 ^ 8"
    by (rule power_increasing) auto
  finally show ?thesis by simp
qed

lemma Bucket_eq:
  assumes "clientID \<noteq> []"
  shows "Bucket sha256 clientID salt = fl64 (of_nat (hash_value sha256 clientID salt)) / 2 ^ 64"
proof -
  define h :: rat where "h = of_nat (hash_value sha256 clientID salt)"
  have quot: "y / 2 ^ 64 = y * 2 powi (- 64)" for y :: rat
    by (simp only: power_int_minus divide_inverse power_int_numeral)
  have "fl64 (fl64 h / 2 ^ 64) = fl64 h / 2 ^ 64"
  proof (cases "h = 0")
    case False
    then have "0 < h"
      by (simp add: h_def)
    then show ?thesis
      unfolding quot by (rule fl64_scaled)
  qed simp
  moreover have "Bucket sha256 clientID salt = fl64 (fl64 h / 2 ^ 64)"
    using assms unfolding Bucket_def h_def fl64_top by simp
  ultimately show ?thesis
    by (simp add: h_def)
qed

lemma fl64_hash_le: "fl64 (of_nat (hash_value sha256 clientID salt)) \<le> 2 ^ 64"
proof -
  have "hash_value sha256 clientID salt \<le> 2 ^ 64 - 1"
    using hash_value_less [of sha256 clientID salt] by simp
  then have "of_nat (hash_value sha256 clientID salt) \<le> (of_nat (2 ^ 64 - 1) :: rat)"
    by (simp only: of_nat_le_iff)
  then have "fl64 (of_nat (hash_value sha256 clientID salt)) \<le> fl64 (2 ^ 64 - 1)"
    by (intro fl64_mono) simp
  then show ?thesis
    unfolding fl64_top .
qed

lemma Bucket_bounds: "0 \<le> Bucket sha256 clientID salt" "Bucket sha256 clientID salt \<le> 1"
proof -
  have "0 \<le> fl64 (of_nat (hash_value sha256 clientID salt))"
    using fl64_mono [of 0 "of_nat (hash_value sha256 clientID salt)"] by simp
  then show "0 \<le> Bucket sha256 clientID salt" "Bucket sha256 clientID salt \<le> 1"
    using Bucket_eq [of clientID sha256 salt] fl64_hash_le [of sha256 clientID salt]
    by (cases "clientID = []"; simp add: Bucket_def)+
qed

lemma percentage_mono: "p \<le> q \<Longrightarrow> fl64 (fl64 (of_int p) / 100) \<le> fl64 (fl64 (of_int q) / 100)"
  by (intro fl64_mono divide_right_mono) auto

lemma InBucket_mono: "InBucket sha256 clientID salt p \<Longrightarrow> p \<le> q \<Longrightarrow> InBucket sha256 clientID salt q"
  unfolding InBucket_def using percentage_mono less_le_trans by blast

lemma InBucket_empty_client: "p \<le> 100 \<Longrightarrow> \<not> InBucket sha256 [] salt p"
proof -
  have "fl64 1 = 1"
    by (subst fl64_eval [of 0]) simp_all
  moreover have "fl64 100 = 100"
    by (subst fl64_eval [of 6]) simp_all
  moreover assume "p \<le> 100"
  ultimately show ?thesis
    using percentage_mono [of p 100] by (simp add: InBucket_def Bucket_def not_less)
qed

lemma InBucket_nonpositive: "p \<le> 0 \<Longrightarrow> \<not> InBucket sha256 clientID salt p"
  using percentage_mono [of p 0] Bucket_bounds(1) [of sha256 clientID salt] by (simp add: InBucket_def)

section \<open>Properties\<close>

text \<open>Raising a rollout never drops a device: a device inside a rollout at some percentage is
  inside at every larger one, although both sides of the comparison are rounded; a device without an
  \<^verbatim>\<open>EAS-Client-ID\<close> is inside no rollout up to 100 percent, and no device is inside at 0.\<close>

lemma InBucket_monotone:
  assumes "p \<le> q"
  shows "(if InBucket sha256 clientID salt p then InBucket sha256 clientID salt q else True)
    \<and> (if p \<le> 100 then \<not> InBucket sha256 [] salt p else True)
    \<and> \<not> InBucket sha256 clientID salt 0"
  using assms InBucket_mono InBucket_empty_client InBucket_nonpositive by auto

text \<open>C35. The range of \<^verbatim>\<open>Bucket\<close> is the closed unit interval.  The end point 1, which its comment
  excludes, is reached by a device with a client id exactly when the 64-bit hash prefix is one of the
  1024 largest, because the conversion to \<^verbatim>\<open>float64\<close> rounds them up to \<open>2\<^sup>6\<^sup>4\<close>.\<close>

theorem Bucket_range:
  "0 \<le> Bucket sha256 clientID salt \<and> Bucket sha256 clientID salt \<le> 1 \<and>
   (Bucket sha256 clientID salt = 1 \<longleftrightarrow>
      clientID = [] \<or> 2 ^ 64 - 1024 \<le> hash_value sha256 clientID salt)"
proof -
  let ?h = "hash_value sha256 clientID salt" and ?f = "fl64 (of_nat (hash_value sha256 clientID salt))"
  have top: "?f \<le> 2 ^ 64"
    by (rule fl64_hash_le)
  have "?f = 2 ^ 64 \<longleftrightarrow> 2 ^ 64 - 1024 \<le> ?h"
  proof
    assume "2 ^ 64 - 1024 \<le> ?h"
    then have "of_nat (2 ^ 64 - 1024) \<le> (of_nat ?h :: rat)"
      by (simp only: of_nat_le_iff)
    then have "fl64 (2 ^ 64 - 1024) \<le> ?f"
      by (intro fl64_mono) simp
    then show "?f = 2 ^ 64"
      using top unfolding fl64_top by simp
  next
    assume f: "?f = 2 ^ 64"
    show "2 ^ 64 - 1024 \<le> ?h"
    proof (rule ccontr)
      assume "\<not> 2 ^ 64 - 1024 \<le> ?h"
      then have "?h \<le> 2 ^ 64 - 1025"
        by simp
      then have "(of_nat ?h :: rat) \<le> of_nat (2 ^ 64 - 1025)"
        by (simp only: of_nat_le_iff)
      then have "?f \<le> fl64 (2 ^ 64 - 1025)"
        by (intro fl64_mono) simp
      then show False
        using f unfolding fl64_top by simp
    qed
  qed
  then show ?thesis
    using Bucket_bounds Bucket_eq [of clientID sha256 salt] by (auto simp: Bucket_def)
qed

end
