(* ===== verification/GoStrconv.thy ===== *)
theory GoStrconv
  imports GoStrings
begin

text \<open>
  Go's \<^verbatim>\<open>strconv\<close> on 64-bit integers in base ten: \<^verbatim>\<open>FormatInt\<close>/\<^verbatim>\<open>Itoa\<close> and \<^verbatim>\<open>ParseInt\<close>/\<^verbatim>\<open>Atoi\<close>.
  \<^verbatim>\<open>ParseInt\<close> accepts one optional sign followed by at least one digit and refuses a value outside
  the range of an \<^verbatim>\<open>int64\<close>; \<^verbatim>\<open>int\<close> is 64 bits wide as well, so \<^verbatim>\<open>Atoi\<close> is the same function.
\<close>

text \<open>The value an arithmetic result wraps to in an \<^verbatim>\<open>int64\<close>.\<close>

definition wrap64 :: "int \<Rightarrow> int" where
  "wrap64 z = (z + 2 ^ 63) mod 2 ^ 64 - 2 ^ 63"

definition int64_range :: "int \<Rightarrow> bool" where
  "int64_range z \<longleftrightarrow> - (2 ^ 63) \<le> z \<and> z < 2 ^ 63"

definition digit_char :: "nat \<Rightarrow> char" where
  "digit_char d = char_of (48 + d)"

definition is_digit :: "char \<Rightarrow> bool" where
  "is_digit c \<longleftrightarrow> 48 \<le> (of_char c :: nat) \<and> of_char c \<le> (57 :: nat)"

definition digit_value :: "char \<Rightarrow> nat" where
  "digit_value c = of_char c - 48"

fun format_nat :: "nat \<Rightarrow> string" where
  "format_nat n = (if n < 10 then [digit_char n] else format_nat (n div 10) @ [digit_char (n mod 10)])"

declare format_nat.simps [simp del]

definition FormatInt :: "int \<Rightarrow> string" where
  "FormatInt z = (if z < 0 then ''-'' @ format_nat (nat (- z)) else format_nat (nat z))"

definition parse_nat :: "string \<Rightarrow> nat option" where
  "parse_nat s =
     (if s \<noteq> [] \<and> list_all is_digit s then Some (foldl (\<lambda>n c. 10 * n + digit_value c) 0 s) else None)"

definition ParseInt :: "string \<Rightarrow> int option" where
  "ParseInt s =
     (let (neg, rest) = (case s of [] \<Rightarrow> (False, [])
        | c # cs \<Rightarrow> if c = CHR ''-'' then (True, cs) else if c = CHR ''+'' then (False, cs) else (False, s))
      in case parse_nat rest of
           None \<Rightarrow> None
         | Some n \<Rightarrow> let z = (if neg then - int n else int n) in if int64_range z then Some z else None)"

section \<open>Laws\<close>

lemma wrap64_id: "int64_range z \<Longrightarrow> wrap64 z = z"
  by (simp add: wrap64_def int64_range_def)

lemma wrap64_range: "int64_range (wrap64 z)"
  by (simp add: wrap64_def int64_range_def)

lemma of_char_digit: "d < 10 \<Longrightarrow> of_char (digit_char d) = (48 + d :: nat)"
  by (simp add: digit_char_def)

lemma digit_char_ok: "d < 10 \<Longrightarrow> is_digit (digit_char d) \<and> digit_value (digit_char d) = d"
  by (simp add: is_digit_def digit_value_def of_char_digit)

lemma format_nat_digits: "format_nat n \<noteq> [] \<and> list_all is_digit (format_nat n)"
proof (induction n rule: format_nat.induct)
  case (1 n)
  then show ?case
    by (subst (1 2) format_nat.simps) (auto simp: digit_char_ok)
qed

lemma parse_format_nat [simp]: "parse_nat (format_nat n) = Some n"
proof -
  have "foldl (\<lambda>n c. 10 * n + digit_value c) 0 (format_nat n) = n"
  proof (induction n rule: format_nat.induct)
    case (1 n)
    then show ?case
      by (subst format_nat.simps) (auto simp: digit_char_ok)
  qed
  then show ?thesis
    using format_nat_digits [of n] by (simp add: parse_nat_def)
qed

lemma format_nat_hd: "hd (format_nat n) \<noteq> CHR ''-'' \<and> hd (format_nat n) \<noteq> CHR ''+''"
proof -
  have "is_digit (hd (format_nat n))"
    using format_nat_digits [of n] by (cases "format_nat n") auto
  then show ?thesis
    by (auto simp: is_digit_def)
qed

lemma ParseInt_FormatInt: "int64_range z \<Longrightarrow> ParseInt (FormatInt z) = Some z"
  using format_nat_hd [of "nat z"] format_nat_digits [of "nat z"]
  by (cases "format_nat (nat z)") (auto simp: ParseInt_def FormatInt_def Let_def dest: sym)

lemma FormatInt_not_Nil [simp]: "FormatInt z \<noteq> []"
  using format_nat_digits by (simp add: FormatInt_def)

lemma ParseInt_range: "ParseInt s = Some z \<Longrightarrow> int64_range z"
  by (auto simp: ParseInt_def Let_def split: prod.splits option.splits if_splits)

lemma ParseInt_Nil [simp]: "ParseInt [] = None"
  by (simp add: ParseInt_def parse_nat_def)

end
