(* ===== verification/Cache.thy ===== *)
theory Cache
  imports GoStrconv
begin

text \<open>
  \<^verbatim>\<open>internal/cache\<close>: the key builder and the in-process cache.  The Go maps are HOL maps, times are
  integers (nanoseconds since some origin) and every operation takes the clock reading it runs at; the
  mutex makes each operation atomic.  \<^verbatim>\<open>key_prefix\<close> is the \<^verbatim>\<open>CACHE_KEY_PREFIX\<close> of the environment.

  The locale \<^verbatim>\<open>cache_store\<close> is the contract its clients use: a view of the live entries at any time
  from the last operation on, and what each operation does to that view.  The local cache is shown to
  satisfy it, sweeping included; the rate limiter is proved once against the contract.
\<close>

section \<open>Keys\<close>

definition escape_segment :: "string \<Rightarrow> string" where
  "escape_segment segment = ReplaceAll (ReplaceAll segment ''%'' ''%25'') '':'' ''%3A''"

definition Key :: "string list \<Rightarrow> string" where
  "Key segments = Join (map escape_segment segments) '':''"

definition defaultPrefix :: string where "defaultPrefix = ''expoopenota''"

definition withPrefix :: "string \<Rightarrow> string \<Rightarrow> string" where
  "withPrefix env key = (if env = [] then defaultPrefix else env) @ '':'' @ key"

section \<open>The local cache\<close>

record CacheItem =
  Value :: string
  Expiration :: "int option"

record LocalCache =
  items :: "string \<rightharpoonup> CacheItem"
  setItems :: "string \<rightharpoonup> string set"
  setExpirations :: "string \<rightharpoonup> int"
  lastSweep :: int
  key_prefix :: string
  version :: string

definition second :: int where "second = 10 ^ 9"

definition sweepInterval :: int where "sweepInterval = 60 * second"

definition NewLocalCache :: "string \<Rightarrow> string \<Rightarrow> int \<Rightarrow> LocalCache" where
  "NewLocalCache prefix ver now =
     \<lparr>items = Map.empty, setItems = Map.empty, setExpirations = Map.empty, lastSweep = now,
      key_prefix = prefix, version = ver\<rparr>"

text \<open>\<^verbatim>\<open>now.After(*expiration)\<close> for an entry that has one.\<close>

definition expired :: "int \<Rightarrow> CacheItem \<Rightarrow> bool" where
  "expired now item = (case Expiration item of None \<Rightarrow> False | Some e \<Rightarrow> now > e)"

definition sweepLocked :: "int \<Rightarrow> LocalCache \<Rightarrow> LocalCache" where
  "sweepLocked now c =
     c\<lparr>lastSweep := now,
       items := (\<lambda>key. case items c key of None \<Rightarrow> None | Some item \<Rightarrow> if expired now item then None else Some item),
       setExpirations := (\<lambda>key. case setExpirations c key of None \<Rightarrow> None | Some e \<Rightarrow> if now > e then None else Some e),
       setItems := (\<lambda>key. case setExpirations c key of
           Some e \<Rightarrow> if now > e then None else setItems c key | None \<Rightarrow> setItems c key)\<rparr>"

definition maybeSweepLocked :: "int \<Rightarrow> LocalCache \<Rightarrow> LocalCache" where
  "maybeSweepLocked now c = (if now - lastSweep c \<ge> sweepInterval then sweepLocked now c else c)"

definition CacheGet :: "int \<Rightarrow> string \<Rightarrow> LocalCache \<Rightarrow> string \<times> LocalCache" where
  "CacheGet now key c =
     (case items c (withPrefix (key_prefix c) key) of
        None \<Rightarrow> ([], c)
      | Some item \<Rightarrow>
        if expired now item then ([], c\<lparr>items := (items c)(withPrefix (key_prefix c) key := None)\<rparr>)
        else (Value item, c))"

definition CacheSet :: "int \<Rightarrow> string \<Rightarrow> string \<Rightarrow> int option \<Rightarrow> LocalCache \<Rightarrow> LocalCache" where
  "CacheSet now key value ttl c =
     maybeSweepLocked now
       (c\<lparr>items := (items c)(withPrefix (key_prefix c) key \<mapsto>
          \<lparr>Value = value, Expiration = map_option (\<lambda>t. now + t * second) ttl\<rparr>)\<rparr>)"

definition CacheDelete :: "string \<Rightarrow> LocalCache \<Rightarrow> LocalCache" where
  "CacheDelete key c = c\<lparr>items := (items c)(withPrefix (key_prefix c) key := None)\<rparr>"

definition CacheClear :: "LocalCache \<Rightarrow> LocalCache" where
  "CacheClear c = (if version c \<noteq> ''development'' then c else c\<lparr>items := Map.empty\<rparr>)"

text \<open>\<^verbatim>\<open>held.Expiration == nil || now.Before(*held.Expiration)\<close>.\<close>

definition held :: "int \<Rightarrow> CacheItem \<Rightarrow> bool" where
  "held now item = (case Expiration item of None \<Rightarrow> True | Some e \<Rightarrow> now < e)"

definition TryLock :: "int \<Rightarrow> string \<Rightarrow> int \<Rightarrow> LocalCache \<Rightarrow> bool \<times> LocalCache" where
  "TryLock now key ttl c =
     (let prefixed = withPrefix (key_prefix c) key;
          claim = maybeSweepLocked now
            (c\<lparr>items := (items c)(prefixed \<mapsto> \<lparr>Value = ''locked'', Expiration = Some (now + ttl * second)\<rparr>)\<rparr>)
      in case items c prefixed of
           None \<Rightarrow> (True, claim)
         | Some item \<Rightarrow> if held now item then (False, c) else (True, claim))"

definition Incr :: "int \<Rightarrow> string \<Rightarrow> int \<Rightarrow> LocalCache \<Rightarrow> int option \<times> LocalCache" where
  "Incr now key ttl c =
     (let prefixed = withPrefix (key_prefix c) key;
          fresh = (Some 1, maybeSweepLocked now
            (c\<lparr>items := (items c)(prefixed \<mapsto> \<lparr>Value = ''1'', Expiration = Some (now + ttl * second)\<rparr>)\<rparr>))
      in case items c prefixed of
           None \<Rightarrow> fresh
         | Some item \<Rightarrow>
           if held now item then
             (case ParseInt (Value item) of
                None \<Rightarrow> (None, c)
              | Some current \<Rightarrow>
                let expiration = (case Expiration item of None \<Rightarrow> Some (now + ttl * second) | Some e \<Rightarrow> Some e);
                    nxt = wrap64 (current + 1)
                in (Some nxt,
                    c\<lparr>items := (items c)(prefixed \<mapsto> \<lparr>Value = FormatInt nxt, Expiration = expiration\<rparr>)\<rparr>))
           else fresh)"

definition Sadd :: "int \<Rightarrow> string \<Rightarrow> string list \<Rightarrow> int option \<Rightarrow> LocalCache \<Rightarrow> LocalCache" where
  "Sadd now key ms ttl c =
     (let k = withPrefix (key_prefix c) key;
          create = (\<lambda>c. c\<lparr>setItems := (setItems c)(k \<mapsto> {}),
             setExpirations := (case ttl of None \<Rightarrow> setExpirations c
                                | Some t \<Rightarrow> (setExpirations c)(k \<mapsto> now + t * second))\<rparr>);
          c1 = (if setItems c k = None then create c else c);
          c2 = (case setExpirations c1 k of
                  Some e \<Rightarrow> if now > e
                    then create (c1\<lparr>setItems := (setItems c1)(k := None), setExpirations := (setExpirations c1)(k := None)\<rparr>)
                    else c1
                | None \<Rightarrow> c1)
      in maybeSweepLocked now (c2\<lparr>setItems := (setItems c2)(k \<mapsto> the (setItems c2 k) \<union> set ms)\<rparr>))"

definition Scard :: "int \<Rightarrow> string \<Rightarrow> LocalCache \<Rightarrow> nat" where
  "Scard now key c =
     (let k = withPrefix (key_prefix c) key
      in case setExpirations c k of
           Some e \<Rightarrow> if now > e then 0 else (case setItems c k of None \<Rightarrow> 0 | Some s \<Rightarrow> card s)
         | None \<Rightarrow> (case setItems c k of None \<Rightarrow> 0 | Some s \<Rightarrow> card s))"

text \<open>\<^verbatim>\<open>GetJSON\<close> and \<^verbatim>\<open>SetJSON\<close>; over any cache; the codec of the stored type is a parameter.\<close>

definition GetJSON :: "(string \<Rightarrow> 'a option) \<Rightarrow> (string \<Rightarrow> 's \<Rightarrow> string \<times> 's) \<Rightarrow> string \<Rightarrow> 's \<Rightarrow> 'a option \<times> 's" where
  "GetJSON decode get key s =
     (case get key s of (raw, s') \<Rightarrow> (if raw = [] then None else decode raw, s'))"

definition SetJSON :: "('a \<Rightarrow> string option) \<Rightarrow> (string \<Rightarrow> string \<Rightarrow> int option \<Rightarrow> 's \<Rightarrow> 's)
    \<Rightarrow> string \<Rightarrow> 'a \<Rightarrow> int option \<Rightarrow> 's \<Rightarrow> 's" where
  "SetJSON encode put key value ttl s =
     (case encode value of None \<Rightarrow> s | Some payload \<Rightarrow> put key payload ttl s)"

lemmas cache_ops [ops] = CacheGet_def CacheSet_def CacheDelete_def TryLock_def Incr_def

section \<open>Keys do not collide\<close>

lemma ReplaceAll_char: "ReplaceAll s [c] new = concat (map (\<lambda>x. if x = c then new else [x]) s)"
  by (induction s) auto

definition escape_char :: "char \<Rightarrow> string" where
  "escape_char x = (if x = CHR ''%'' then ''%25'' else if x = CHR '':'' then ''%3A'' else [x])"

lemma escape_segment_chars: "escape_segment s = concat (map escape_char s)"
  by (induction s) (auto simp: escape_segment_def ReplaceAll_char escape_char_def)

lemma escape_segment_no_colon: "CHR '':'' \<notin> set (escape_segment s)"
  by (auto simp: escape_segment_chars escape_char_def split: if_splits)

lemma escape_segment_inj: "escape_segment s = escape_segment t \<Longrightarrow> s = t"
  unfolding escape_segment_chars
proof (induction s arbitrary: t)
  case Nil
  then show ?case by (cases t) (auto simp: escape_char_def split: if_splits)
next
  case (Cons x s)
  then show ?case
    by (cases t) (auto simp: escape_char_def split: if_splits)
qed

lemma Key_inj:
  assumes "Key xs = Key ys" and "xs \<noteq> []" and "ys \<noteq> []"
  shows "xs = ys"
proof -
  have "split_on CHR '':'' (Key zs) = map escape_segment zs" if "zs \<noteq> []" for zs
    unfolding Key_def using that escape_segment_no_colon by (intro split_on_Join) auto
  then have "map escape_segment xs = map escape_segment ys"
    using assms by metis
  then show ?thesis
    using escape_segment_inj by (meson inj_onI inj_map_eq_map)
qed

lemma withPrefix_inj [simp]: "withPrefix e k = withPrefix e k' \<longleftrightarrow> k = k'"
  by (simp add: withPrefix_def)

section \<open>The contract\<close>

type_synonym entry = "string \<times> int option"

text \<open>What is left at time \<^verbatim>\<open>t\<close> of an entry written with a deadline: it lives up to and including it.\<close>

definition live :: "int \<Rightarrow> entry \<Rightarrow> entry option" where
  "live t e = (case snd e of None \<Rightarrow> Some e | Some d \<Rightarrow> if t > d then None else Some e)"

text \<open>A counter goes on counting strictly before its deadline.\<close>

definition counting :: "int \<Rightarrow> entry \<Rightarrow> bool" where
  "counting now e = (case snd e of None \<Rightarrow> True | Some d \<Rightarrow> now < d)"

definition deadline :: "int \<Rightarrow> int \<Rightarrow> int" where
  "deadline now ttl = now + ttl * second"

locale cache_store =
  fixes view :: "'s \<Rightarrow> int \<Rightarrow> string \<Rightarrow> entry option"
    and get :: "int \<Rightarrow> string \<Rightarrow> 's \<Rightarrow> string \<times> 's"
    and put :: "int \<Rightarrow> string \<Rightarrow> string \<Rightarrow> int option \<Rightarrow> 's \<Rightarrow> 's"
    and del :: "string \<Rightarrow> 's \<Rightarrow> 's"
    and incr :: "int \<Rightarrow> string \<Rightarrow> int \<Rightarrow> 's \<Rightarrow> int option \<times> 's"
  assumes get_value: "fst (get now k s) = (case view s now k of None \<Rightarrow> [] | Some (v, _) \<Rightarrow> v)"
    and get_view: "now \<le> t \<Longrightarrow> view (snd (get now k s)) t k' = view s t k'"
    and put_view: "now \<le> t \<Longrightarrow> view (put now k v w s) t k' =
      (if k' = k then live t (v, map_option (deadline now) w) else view s t k')"
    and del_view: "view (del k s) t k' = (if k' = k then None else view s t k')"
    and incr_fresh: "now \<le> t \<Longrightarrow> (\<And>e. view s now k = Some e \<Longrightarrow> \<not> counting now e) \<Longrightarrow>
      fst (incr now k ttl s) = Some 1 \<and> view (snd (incr now k ttl s)) t k' =
        (if k' = k then live t (''1'', Some (deadline now ttl)) else view s t k')"
    and incr_next: "now \<le> t \<Longrightarrow> view s now k = Some (v, d) \<Longrightarrow> counting now (v, d) \<Longrightarrow> ParseInt v = Some n \<Longrightarrow>
      fst (incr now k ttl s) = Some (wrap64 (n + 1)) \<and> view (snd (incr now k ttl s)) t k' =
        (if k' = k then live t (FormatInt (wrap64 (n + 1)), Some (case d of None \<Rightarrow> deadline now ttl | Some x \<Rightarrow> x))
         else view s t k')"
    and incr_other: "now \<le> t \<Longrightarrow> k' \<noteq> k \<Longrightarrow> view (snd (incr now k ttl s)) t k' = view s t k'"
    and view_later: "t \<le> t' \<Longrightarrow> view s t' k = (case view s t k of None \<Rightarrow> None | Some e \<Rightarrow> live t' e)"
begin

text \<open>A value put and read back before its deadline, with reads and writes of other keys in between.\<close>

lemma get_put_same:
  "now \<le> t \<Longrightarrow> fst (get t k (put now k v ttl s)) =
     (case live t (v, map_option (deadline now) ttl) of None \<Rightarrow> [] | Some _ \<Rightarrow> v)"
  by (simp add: get_value put_view live_def split: option.splits)

lemma get_put_other: "now \<le> t \<Longrightarrow> k' \<noteq> k \<Longrightarrow> fst (get t k' (put now k v ttl s)) = fst (get t k' s)"
  by (simp add: get_value put_view)

lemma get_del: "fst (get t k' (del k s)) = (if k' = k then [] else fst (get t k' s))"
  by (simp add: get_value del_view)

end

definition local_view :: "LocalCache \<Rightarrow> int \<Rightarrow> string \<Rightarrow> entry option" where
  "local_view c t k =
     (case items c (withPrefix (key_prefix c) k) of
        None \<Rightarrow> None | Some it \<Rightarrow> live t (Value it, Expiration it))"

lemma key_prefix_sweep [simp]: "key_prefix (maybeSweepLocked now c) = key_prefix c"
  by (simp add: maybeSweepLocked_def sweepLocked_def)

text \<open>Sweeping drops only what has expired, so no later reader can tell.\<close>

lemma local_view_sweep: "now \<le> t \<Longrightarrow> local_view (maybeSweepLocked now c) t k = local_view c t k"
  by (auto simp: local_view_def maybeSweepLocked_def sweepLocked_def expired_def live_def split: option.splits)

lemma held_counting: "held now it \<longleftrightarrow> counting now (Value it, Expiration it)"
  by (simp add: held_def counting_def)

lemma live_held: "held now it \<Longrightarrow> live now (Value it, Expiration it) = Some (Value it, Expiration it)"
  by (auto simp: held_def live_def split: option.splits)

interpretation lcache: cache_store local_view CacheGet CacheSet CacheDelete Incr
proof (unfold_locales, goal_cases)
  case (1 now k s)
  then show ?case
    by (auto simp: CacheGet_def local_view_def expired_def live_def split: option.splits)
next
  case (2 now t k s k')
  then show ?case
    by (auto simp: CacheGet_def local_view_def expired_def live_def split: option.splits)
next
  case (3 now t k v ttl s k')
  then show ?case
    by (simp add: CacheSet_def local_view_sweep) (simp add: local_view_def deadline_def [abs_def])
next
  case (4 k s t k')
  then show ?case
    by (simp add: CacheDelete_def local_view_def)
next
  case (5 now t s k ttl k')
  have "\<not> held now it" if "items s (withPrefix (key_prefix s) k) = Some it" for it
    using 5(2) [of "(Value it, Expiration it)"] that live_held [of now it]
    by (auto simp: local_view_def held_counting)
  then have "Incr now k ttl s = (Some 1, maybeSweepLocked now
      (s\<lparr>items := (items s)(withPrefix (key_prefix s) k \<mapsto> \<lparr>Value = ''1'', Expiration = Some (now + ttl * second)\<rparr>)\<rparr>))"
    by (auto simp: Incr_def Let_def split: option.splits)
  then show ?case
    using 5(1) by (simp add: local_view_sweep) (simp add: local_view_def deadline_def)
next
  case (6 now t s k v d n ttl k')
  then obtain it where "items s (withPrefix (key_prefix s) k) = Some it" "v = Value it" "d = Expiration it"
    by (auto simp: local_view_def live_def split: option.splits if_splits)
  then show ?case
    using 6 by (auto simp: Incr_def Let_def held_counting local_view_def deadline_def split: option.splits)
next
  case (7 now t k' k ttl s)
  then show ?case
    by (auto simp: Incr_def Let_def local_view_sweep split: option.splits) (simp_all add: local_view_def)
next
  case (8 t t' s k)
  then show ?case
    by (auto simp: local_view_def live_def split: option.splits)
qed

section \<open>Interleaved clients\<close>

text \<open>The operations other callers may issue, each at its own time.\<close>

datatype cache_op =
    OpGet string
  | OpSet string string "int option"
  | OpDelete string
  | OpTryLock string int
  | OpIncr string int
  | OpSadd string "string list" "int option"
  | OpClear

fun run_op :: "int \<Rightarrow> cache_op \<Rightarrow> LocalCache \<Rightarrow> LocalCache" where
  "run_op now (OpGet k) c = snd (CacheGet now k c)"
| "run_op now (OpSet k v ttl) c = CacheSet now k v ttl c"
| "run_op now (OpDelete k) c = CacheDelete k c"
| "run_op now (OpTryLock k ttl) c = snd (TryLock now k ttl c)"
| "run_op now (OpIncr k ttl) c = snd (Incr now k ttl c)"
| "run_op now (OpSadd k ms ttl) c = Sadd now k ms ttl c"
| "run_op now OpClear c = CacheClear c"

text \<open>Operations that leave the claim on \<^verbatim>\<open>key\<close> to the lock: none overwrites or deletes it.\<close>

fun spares :: "string \<Rightarrow> cache_op \<Rightarrow> bool" where
  "spares key (OpSet k v ttl) = (k \<noteq> key)"
| "spares key (OpDelete k) = (k \<noteq> key)"
| "spares key OpClear = False"
| "spares key _ = True"

fun run_ops :: "(int \<times> cache_op) list \<Rightarrow> LocalCache \<Rightarrow> LocalCache" where
  "run_ops [] c = c"
| "run_ops ((now, op) # ops) c = run_ops ops (run_op now op c)"

lemma key_prefix_Sadd [simp]: "key_prefix (Sadd now k ms ttl c) = key_prefix c"
  by (auto simp: Sadd_def Let_def split: option.splits)

lemma local_view_Sadd: "now \<le> t \<Longrightarrow> local_view (Sadd now k ms ttl c) t k' = local_view c t k'"
  unfolding Sadd_def Let_def
  by (subst local_view_sweep) (auto simp: local_view_def split: option.splits)

lemma TryLock_view:
  assumes "now \<le> t"
  shows "local_view (snd (TryLock now k ttl c)) t k' =
    (if k' = k \<and> fst (TryLock now k ttl c) then live t (''locked'', Some (deadline now ttl)) else local_view c t k')"
  using assms
  by (auto simp: TryLock_def Let_def local_view_sweep split: option.splits)
    (simp_all add: local_view_def deadline_def)

lemma TryLock_refused:
  "local_view c now k = Some e \<Longrightarrow> counting now e \<Longrightarrow> \<not> fst (TryLock now k ttl c)"
  by (auto simp: TryLock_def Let_def local_view_def live_def held_counting split: option.splits if_splits)

lemma TryLock_granted:
  "(\<And>e. local_view c now k = Some e \<Longrightarrow> \<not> counting now e) \<Longrightarrow> fst (TryLock now k ttl c)"
  using live_held by (fastforce simp: TryLock_def Let_def local_view_def held_counting split: option.splits)

definition locked_until :: "string \<Rightarrow> int \<Rightarrow> int \<Rightarrow> LocalCache \<Rightarrow> bool" where
  "locked_until key d now c \<longleftrightarrow> (\<forall>t\<ge>now. local_view c t key = live t (''locked'', Some d))"

lemma locked_until_step:
  assumes "locked_until key d now c" and "now \<le> t" and "t < d" and "spares key op"
  shows "locked_until key d t (run_op t op c)"
proof -
  have v: "local_view c u key = live u (''locked'', Some d)" if "t \<le> u" for u
    using assms(1,2) that by (simp add: locked_until_def)
  have now_view: "local_view c t key = Some (''locked'', Some d)" and cnt: "counting t (''locked'', Some d)"
    using v [of t] assms(3) by (simp_all add: live_def counting_def)
  have np: "ParseInt ''locked'' = None"
    by code_simp
  show ?thesis
  proof (cases op)
    case (OpTryLock k ttl)
    then show ?thesis
      using v TryLock_view [of t] TryLock_refused [OF now_view cnt] by (auto simp: locked_until_def)
  next
    case (OpIncr k ttl)
    show ?thesis
    proof (cases "k = key")
      case True
      then have "Incr t k ttl c = (None, c)"
        using now_view cnt np
        by (auto simp: Incr_def Let_def local_view_def live_def held_counting split: option.splits if_splits)
      then show ?thesis
        using v OpIncr by (simp add: locked_until_def)
    next
      case False
      then show ?thesis
        using v OpIncr lcache.incr_other by (auto simp: locked_until_def)
    qed
  qed (use v assms(4) in \<open>auto simp: locked_until_def lcache.get_view lcache.put_view lcache.del_view local_view_Sadd\<close>)
qed

lemma locked_until_run:
  "locked_until key d now c \<Longrightarrow> sorted (now # map fst ops) \<Longrightarrow> \<forall>(t, op)\<in>set ops. t < d \<and> spares key op \<Longrightarrow>
     locked_until key d (last (now # map fst ops)) (run_ops ops c)"
proof (induction ops arbitrary: now c)
  case (Cons e ops)
  obtain t op where e: "e = (t, op)"
    by (cases e)
  have "locked_until key d t (run_op t op c)"
    using Cons.prems by (intro locked_until_step [of key d now]) (auto simp: e)
  then show ?case
    using Cons.IH [of t "run_op t op c"] Cons.prems by (auto simp: e)
qed simp

section \<open>Properties\<close>

text \<open>Cache keys are unambiguous: two key builders that differ in any segment, or in the number of
  segments, never produce the same key, whatever separators and percent signs the segments hold; and
  the deployment prefix keeps different keys different.\<close>

lemma Key_injective:
  "(Key (x # xs) = Key (y # ys) \<longleftrightarrow> x # xs = y # ys) \<and> (withPrefix env k = withPrefix env k' \<longleftrightarrow> k = k')"
  using Key_inj by auto

text \<open>The local cache is a map with deadlines: a value that was set is read back until its deadline
  has passed and not after it; reading or writing one key never changes what another key answers,
  even when the write sweeps; deleting removes exactly that key.\<close>

lemma LocalCache_correct:
  assumes "now \<le> t"
  shows "fst (CacheGet t k (CacheSet now k v (Some ttl) c)) = (if t > now + ttl * second then [] else v)
    \<and> fst (CacheGet t k (CacheSet now k v None c)) = v
    \<and> fst (CacheGet t k' (snd (CacheGet now k c))) = fst (CacheGet t k' c)
    \<and> (if k' = k then True else fst (CacheGet t k' (CacheSet now k v ttl' c)) = fst (CacheGet t k' c))
    \<and> fst (CacheGet t k' (CacheDelete k c)) = (if k' = k then [] else fst (CacheGet t k' c))"
  using assms by (simp add: lcache.get_put_same lcache.get_put_other lcache.get_del)
    (simp add: live_def deadline_def lcache.get_value lcache.get_view)

text \<open>C28. A claim that nobody takes away is exclusive for its whole lifetime.  Once \<^verbatim>\<open>TryLock\<close> has succeeded, and as long as
  no caller sets the key, deletes it or clears the cache before the deadline, no other attempt on
  the same key succeeds before the deadline, whatever gets, counts, attempts on this key and operations on other keys run in
  between at whatever times; and when the deadline is reached the next attempt succeeds.  A holder that is done early deletes its key, and the job
  runners replace its value: those give the claim up, and the property says nothing about them.\<close>

theorem TryLock_exclusive:
  assumes "fst (TryLock now key ttl c)" and "sorted (now # map fst ops)"
    and "\<forall>(t, op)\<in>set ops. t < deadline now ttl \<and> spares key op"
    and "last (now # map fst ops) \<le> t"
  shows "fst (TryLock t key ttl' (run_ops ops (snd (TryLock now key ttl c)))) \<longleftrightarrow> deadline now ttl \<le> t"
proof -
  have "locked_until key (deadline now ttl) now (snd (TryLock now key ttl c))"
    using assms(1) by (simp add: locked_until_def TryLock_view)
  then have v: "local_view (run_ops ops (snd (TryLock now key ttl c))) t key = live t (''locked'', Some (deadline now ttl))"
    using locked_until_run assms(2-4) unfolding locked_until_def by blast
  show ?thesis
  proof (cases "deadline now ttl \<le> t")
    case True
    then show ?thesis
      using v by (auto intro!: TryLock_granted simp: live_def counting_def split: if_splits)
  next
    case False
    then show ?thesis
      using v TryLock_refused [of _ t key "(''locked'', Some (deadline now ttl))"]
      by (simp add: live_def counting_def)
  qed
qed

theorem TryLock_exclusive_witness:
  "fst (TryLock 2 ''k'' 9 (run_ops [(1, OpGet ''k'')] (snd (TryLock 0 ''k'' 9 (NewLocalCache [] [] 0)))))
     \<longleftrightarrow> deadline 0 9 \<le> 2"
  by (rule TryLock_exclusive) (simp_all add: TryLock_def NewLocalCache_def deadline_def second_def)

end
