(* ===== verification/RateLimit.thy ===== *)
theory RateLimit
  imports Cache
begin

text \<open>
  \<^verbatim>\<open>internal/ratelimit\<close>: the throttle of the endpoints that accept a credential.  The limiter talks
  to the cache through its interface, so its operations take the cache operations as arguments, and
  its lemmas are proved once in the context of \<^verbatim>\<open>cache_store\<close>.  HMAC-SHA256 and \<^verbatim>\<open>strings.ToLower\<close> are
  parameters; an address is \<^const>\<open>None\<close> when it is not valid and its text otherwise.  Metrics are not
  modelled.
\<close>

record Decision =
  Allowed :: bool
  RetryAfter :: int

record Limiter =
  secret :: string
  window :: int
  perAccount :: int
  perIP :: int

definition scopeLoginAccount :: string where "scopeLoginAccount = ''login_account''"
definition scopeLoginIP :: string where "scopeLoginIP = ''login_ip''"
definition scopeRefreshIP :: string where "scopeRefreshIP = ''refresh_ip''"
definition scopePasswordChange :: string where "scopePasswordChange = ''password_change''"
definition scopeSSOCallbackIP :: string where "scopeSSOCallbackIP = ''sso_callback_ip''"
definition scopeOAuthRegister :: string where "scopeOAuthRegister = ''oauth_register_ip''"
definition scopeOAuthTokenIP :: string where "scopeOAuthTokenIP = ''oauth_token_ip''"

definition defaultWindow :: int where "defaultWindow = 15 * 60 * second"
definition defaultPerAccount :: int where "defaultPerAccount = 10"
definition defaultPerIP :: int where "defaultPerIP = 50"

definition NewLimiter :: "string \<Rightarrow> Limiter" where
  "NewLimiter jwtSecret =
     \<lparr>secret = jwtSecret, window = defaultWindow, perAccount = defaultPerAccount, perIP = defaultPerIP\<rparr>"

definition allow :: Decision where "allow = \<lparr>Allowed = True, RetryAfter = 0\<rparr>"

text \<open>The nil limiter is \<^const>\<open>None\<close>.\<close>

definition accountLimit :: "Limiter option \<Rightarrow> int" where
  "accountLimit l = (case l of None \<Rightarrow> 0 | Some l \<Rightarrow> perAccount l)"

definition ipLimit :: "Limiter option \<Rightarrow> int" where
  "ipLimit l = (case l of None \<Rightarrow> 0 | Some l \<Rightarrow> perIP l)"

definition hex_digit :: "nat \<Rightarrow> char" where
  "hex_digit n = (if n < 10 then char_of (48 + n) else char_of (87 + n))"

definition hex_encode :: "string \<Rightarrow> string" where
  "hex_encode s = concat (map (\<lambda>c. [hex_digit (of_char c div 16), hex_digit (of_char c mod 16)]) s)"

type_synonym hmac = "string \<Rightarrow> string \<Rightarrow> string"

definition limiter_key :: "hmac \<Rightarrow> Limiter \<Rightarrow> string \<Rightarrow> string \<Rightarrow> string" where
  "limiter_key hmac l scope subject =
     ''ratelimit:'' @ scope @ '':'' @ hex_encode (take 16 (hmac (secret l) (scope @ [CHR 0x00] @ subject)))"

type_synonym 's getter = "int \<Rightarrow> string \<Rightarrow> 's \<Rightarrow> string \<times> 's"
type_synonym 's incrementer = "int \<Rightarrow> string \<Rightarrow> int \<Rightarrow> 's \<Rightarrow> int option \<times> 's"
type_synonym 's deleter = "string \<Rightarrow> 's \<Rightarrow> 's"

definition check :: "'s getter \<Rightarrow> hmac \<Rightarrow> Limiter option \<Rightarrow> int \<Rightarrow> string \<Rightarrow> string \<Rightarrow> int \<Rightarrow> 's \<Rightarrow> Decision \<times> 's" where
  "check get hmac lim now scope subject limit s =
     (case lim of None \<Rightarrow> (allow, s) | Some l \<Rightarrow>
        if limit \<le> 0 \<or> subject = [] then (allow, s)
        else case get now (limiter_key hmac l scope subject) s of (raw, s') \<Rightarrow>
          (case ParseInt raw of
             None \<Rightarrow> (allow, s')
           | Some count \<Rightarrow> if count < limit then (allow, s') else (\<lparr>Allowed = False, RetryAfter = window l\<rparr>, s')))"

definition record_failure :: "'s incrementer \<Rightarrow> hmac \<Rightarrow> Limiter option \<Rightarrow> int \<Rightarrow> string \<Rightarrow> string \<Rightarrow> int \<Rightarrow> 's \<Rightarrow> 's" where
  "record_failure incr hmac lim now scope subject limit s =
     (case lim of None \<Rightarrow> s | Some l \<Rightarrow>
        if limit \<le> 0 \<or> subject = [] then s
        else snd (incr now (limiter_key hmac l scope subject) (window l div second) s))"

definition reset :: "'s deleter \<Rightarrow> hmac \<Rightarrow> Limiter option \<Rightarrow> string \<Rightarrow> string \<Rightarrow> 's \<Rightarrow> 's" where
  "reset del hmac lim scope subject s =
     (case lim of None \<Rightarrow> s | Some l \<Rightarrow> if subject = [] then s else del (limiter_key hmac l scope subject) s)"

definition checkIP :: "'s getter \<Rightarrow> hmac \<Rightarrow> Limiter option \<Rightarrow> int \<Rightarrow> string \<Rightarrow> string option \<Rightarrow> int \<Rightarrow> 's \<Rightarrow> Decision \<times> 's" where
  "checkIP get hmac lim now scope ip limit s =
     (case ip of None \<Rightarrow> (allow, s) | Some a \<Rightarrow> check get hmac lim now scope a limit s)"

definition recordIP :: "'s incrementer \<Rightarrow> hmac \<Rightarrow> Limiter option \<Rightarrow> int \<Rightarrow> string \<Rightarrow> string option \<Rightarrow> int \<Rightarrow> 's \<Rightarrow> 's" where
  "recordIP incr hmac lim now scope ip limit s =
     (case ip of None \<Rightarrow> s | Some a \<Rightarrow> record_failure incr hmac lim now scope a limit s)"

definition normalizeEmail :: "(string \<Rightarrow> string) \<Rightarrow> string \<Rightarrow> string" where
  "normalizeEmail toLower email = toLower (TrimSpace email)"

definition CheckLogin :: "'s getter \<Rightarrow> hmac \<Rightarrow> (string \<Rightarrow> string) \<Rightarrow> Limiter option \<Rightarrow> int \<Rightarrow> string \<Rightarrow> string option \<Rightarrow> 's
    \<Rightarrow> Decision \<times> 's" where
  "CheckLogin get hmac toLower lim now email ip s =
     (case check get hmac lim now scopeLoginAccount (normalizeEmail toLower email) (accountLimit lim) s of (d, s') \<Rightarrow>
        if \<not> Allowed d then (d, s') else checkIP get hmac lim now scopeLoginIP ip (ipLimit lim) s')"

definition RecordLoginFailure :: "'s incrementer \<Rightarrow> hmac \<Rightarrow> (string \<Rightarrow> string) \<Rightarrow> Limiter option \<Rightarrow> int \<Rightarrow> string \<Rightarrow> string option
    \<Rightarrow> 's \<Rightarrow> 's" where
  "RecordLoginFailure incr hmac toLower lim now email ip s =
     recordIP incr hmac lim now scopeLoginIP ip (ipLimit lim)
       (record_failure incr hmac lim now scopeLoginAccount (normalizeEmail toLower email) (accountLimit lim) s)"

definition RecordLoginSuccess :: "'s deleter \<Rightarrow> hmac \<Rightarrow> (string \<Rightarrow> string) \<Rightarrow> Limiter option \<Rightarrow> string \<Rightarrow> 's \<Rightarrow> 's" where
  "RecordLoginSuccess del hmac toLower lim email s =
     reset del hmac lim scopeLoginAccount (normalizeEmail toLower email) s"

definition CheckRefresh :: "'s getter \<Rightarrow> hmac \<Rightarrow> Limiter option \<Rightarrow> int \<Rightarrow> string option \<Rightarrow> 's \<Rightarrow> Decision \<times> 's" where
  "CheckRefresh get hmac lim now ip s = checkIP get hmac lim now scopeRefreshIP ip (ipLimit lim) s"

definition RecordRefreshFailure :: "'s incrementer \<Rightarrow> hmac \<Rightarrow> Limiter option \<Rightarrow> int \<Rightarrow> string option \<Rightarrow> 's \<Rightarrow> 's" where
  "RecordRefreshFailure incr hmac lim now ip s = recordIP incr hmac lim now scopeRefreshIP ip (ipLimit lim) s"

definition CheckPasswordChange :: "'s getter \<Rightarrow> hmac \<Rightarrow> Limiter option \<Rightarrow> int \<Rightarrow> string \<Rightarrow> 's \<Rightarrow> Decision \<times> 's" where
  "CheckPasswordChange get hmac lim now userId s = check get hmac lim now scopePasswordChange userId (accountLimit lim) s"

definition RecordPasswordChangeFailure :: "'s incrementer \<Rightarrow> hmac \<Rightarrow> Limiter option \<Rightarrow> int \<Rightarrow> string \<Rightarrow> 's \<Rightarrow> 's" where
  "RecordPasswordChangeFailure incr hmac lim now userId s =
     record_failure incr hmac lim now scopePasswordChange userId (accountLimit lim) s"

definition RecordPasswordChangeSuccess :: "'s deleter \<Rightarrow> hmac \<Rightarrow> Limiter option \<Rightarrow> string \<Rightarrow> 's \<Rightarrow> 's" where
  "RecordPasswordChangeSuccess del hmac lim userId s = reset del hmac lim scopePasswordChange userId s"

definition CheckSSOCallback :: "'s getter \<Rightarrow> hmac \<Rightarrow> Limiter option \<Rightarrow> int \<Rightarrow> string option \<Rightarrow> 's \<Rightarrow> Decision \<times> 's" where
  "CheckSSOCallback get hmac lim now ip s = checkIP get hmac lim now scopeSSOCallbackIP ip (ipLimit lim) s"

definition RecordSSOCallbackFailure :: "'s incrementer \<Rightarrow> hmac \<Rightarrow> Limiter option \<Rightarrow> int \<Rightarrow> string option \<Rightarrow> 's \<Rightarrow> 's" where
  "RecordSSOCallbackFailure incr hmac lim now ip s = recordIP incr hmac lim now scopeSSOCallbackIP ip (ipLimit lim) s"

definition CheckOAuthToken :: "'s getter \<Rightarrow> hmac \<Rightarrow> Limiter option \<Rightarrow> int \<Rightarrow> string option \<Rightarrow> 's \<Rightarrow> Decision \<times> 's" where
  "CheckOAuthToken get hmac lim now ip s = checkIP get hmac lim now scopeOAuthTokenIP ip (ipLimit lim) s"

definition RecordOAuthTokenFailure :: "'s incrementer \<Rightarrow> hmac \<Rightarrow> Limiter option \<Rightarrow> int \<Rightarrow> string option \<Rightarrow> 's \<Rightarrow> 's" where
  "RecordOAuthTokenFailure incr hmac lim now ip s = recordIP incr hmac lim now scopeOAuthTokenIP ip (ipLimit lim) s"

definition CheckOAuthRegister :: "'s getter \<Rightarrow> hmac \<Rightarrow> Limiter option \<Rightarrow> int \<Rightarrow> string option \<Rightarrow> 's \<Rightarrow> Decision \<times> 's" where
  "CheckOAuthRegister get hmac lim now ip s = checkIP get hmac lim now scopeOAuthRegister ip (ipLimit lim) s"

definition RecordOAuthRegister :: "'s incrementer \<Rightarrow> hmac \<Rightarrow> Limiter option \<Rightarrow> int \<Rightarrow> string option \<Rightarrow> 's \<Rightarrow> 's" where
  "RecordOAuthRegister incr hmac lim now ip s = recordIP incr hmac lim now scopeOAuthRegister ip (ipLimit lim) s"

text \<open>The failures of one subject, at the times of a list.\<close>

definition record_failures :: "'s incrementer \<Rightarrow> hmac \<Rightarrow> Limiter \<Rightarrow> int list \<Rightarrow> string \<Rightarrow> string \<Rightarrow> int \<Rightarrow> 's \<Rightarrow> 's" where
  "record_failures incr hmac l ts scope subject limit s =
     foldl (\<lambda>s t. record_failure incr hmac (Some l) t scope subject limit s) s ts"

section \<open>Counting against any cache\<close>

lemma check_Allowed:
  "0 < limit \<Longrightarrow> subject \<noteq> [] \<Longrightarrow>
     Allowed (fst (check get hmac (Some l) t scope subject limit s)) \<longleftrightarrow>
       (case ParseInt (fst (get t (limiter_key hmac l scope subject) s)) of None \<Rightarrow> True | Some c \<Rightarrow> c < limit)"
  by (auto simp: check_def allow_def split: prod.splits option.splits)

context cache_store
begin

text \<open>While the window runs the counter holds the number of failures, and its deadline is the one of
  the first.\<close>

lemma failures_view:
  assumes "0 < limit" and "subject \<noteq> []" and k: "k = limiter_key hmac l scope subject"
    and "\<forall>t\<ge>t0. view s t k = live t (FormatInt (int n), Some d)" and "0 < n"
    and "sorted (t0 # ts)" and "\<forall>t\<in>set ts. t < d" and "int (n + length ts) < 2 ^ 63" and "last (t0 # ts) \<le> t"
  shows "view (record_failures incr hmac l ts scope subject limit s) t k =
    live t (FormatInt (int (n + length ts)), Some d)"
  using assms(4-)
proof (induction ts arbitrary: s n t0)
  case Nil
  then show ?case
    by (simp add: record_failures_def)
next
  case (Cons u ts)
  let ?s = "record_failure incr hmac (Some l) u scope subject limit s"
  have u: "t0 \<le> u" "u < d"
    using Cons.prems by auto
  have e: "view s u k = Some (FormatInt (int n), Some d)" and c: "counting u (FormatInt (int n), Some d)"
    using Cons.prems(1) u by (auto simp: live_def counting_def)
  have r: "int64_range (int n)" "int64_range (int n + 1)"
    using Cons.prems(5) by (auto simp: int64_range_def)
  have "view ?s t' k = live t' (FormatInt (int (Suc n)), Some d)" if "u \<le> t'" for t'
    using incr_next [OF that e c ParseInt_FormatInt [OF r(1)], of "window l div second" k] assms(1,2) wrap64_id [OF r(2)]
    by (simp add: record_failure_def k add.commute)
  then show ?case
    using Cons.IH [of u ?s "Suc n"] Cons.prems by (auto simp: record_failures_def)
qed

text \<open>The answer of a check after a run of failures, the first of which opened the window.\<close>

lemma check_after_failures:
  assumes "0 < limit" and "subject \<noteq> []" and k: "k = limiter_key hmac l scope subject"
    and fresh: "view s t0 k = None" and "sorted (t0 # ts)"
    and d: "d = deadline t0 (window l div second)" "0 < window l div second"
    and "\<forall>t\<in>set ts. t < d" and "int (Suc (length ts)) < 2 ^ 63" and last: "last (t0 # ts) \<le> t"
  shows "Allowed (fst (check get hmac (Some l) t scope subject limit
      (record_failures incr hmac l (t0 # ts) scope subject limit s))) \<longleftrightarrow>
    (int (Suc (length ts)) < limit \<or> d < t)"
proof -
  let ?s = "record_failure incr hmac (Some l) t0 scope subject limit s"
  have "view ?s t' k = live t' (FormatInt (int 1), Some d)" if "t0 \<le> t'" for t'
    using incr_fresh [OF that, of s k "window l div second" k] fresh assms(1,2) d
    by (simp add: record_failure_def k FormatInt_def) (code_simp)?
  then have v: "view (record_failures incr hmac l ts scope subject limit ?s) t k =
      live t (FormatInt (int (1 + length ts)), Some d)"
    using failures_view [OF assms(1,2) k, of t0 ?s 1 d ts t] assms(5,8-) by simp
  have "record_failures incr hmac l (t0 # ts) scope subject limit s = record_failures incr hmac l ts scope subject limit ?s"
    by (simp add: record_failures_def)
  then show ?thesis
    using v assms(1,2,9) ParseInt_FormatInt [of "int (1 + length ts)"]
    by (simp add: check_Allowed get_value k [symmetric]) (simp add: live_def int64_range_def)
qed

text \<open>Different scopes never share a counter.\<close>

lemma record_other_scope:
  assumes "limiter_key hmac l scope subject \<noteq> limiter_key hmac l scope' subject'" and "t \<le> t'"
  shows "fst (check get hmac (Some l) t' scope' subject' limit' (record_failure incr hmac (Some l) t scope subject limit s))
    = fst (check get hmac (Some l) t' scope' subject' limit' s)"
proof -
  have "fst (get t' (limiter_key hmac l scope' subject') (record_failure incr hmac (Some l) t scope subject limit s))
      = fst (get t' (limiter_key hmac l scope' subject') s)"
    using assms by (simp add: record_failure_def get_value incr_other [OF assms(2)])
  then show ?thesis
    by (auto simp: check_def allow_def split: prod.splits option.splits)
qed

lemma reset_allows:
  assumes "0 < limit"
  shows "Allowed (fst (check get hmac (Some l) t scope subject limit (reset del hmac (Some l) scope subject s)))"
proof (cases "subject = []")
  case False
  then show ?thesis
    using assms by (simp add: check_Allowed reset_def get_value del_view)
qed (simp add: check_def allow_def)

end

lemma limiter_key_scopes:
  assumes "CHR '':'' \<notin> set scope" and "CHR '':'' \<notin> set scope'" and "scope \<noteq> scope'"
  shows "limiter_key hmac l scope subject \<noteq> limiter_key hmac l scope' subject'"
proof
  assume "limiter_key hmac l scope subject = limiter_key hmac l scope' subject'"
  then have "\<exists>x y. scope @ CHR '':'' # x = scope' @ CHR '':'' # y"
    by (auto simp: limiter_key_def)
  then show False
    using assms by (metis split_on_append list.inject)
qed

section \<open>Properties\<close>

text \<open>C32. The throttle is a fixed window.  With the real limits, for a subject whose counter is not
  running: when failures are recorded at times \<^verbatim>\<open>t0 # ts\<close>, all within the window that the first one
  opens, a later check allows the credential exactly when fewer than \<^verbatim>\<open>limit\<close> failures were recorded or
  the window of the first one is over.  In particular later failures never extend a block.\<close>

theorem throttle_fixed_window:
  assumes "local_view c t0 (limiter_key hmac (NewLimiter sec) scope subject) = None"
    and "subject \<noteq> []" and "0 < limit" and "sorted (t0 # ts)"
    and "\<forall>t\<in>set ts. t < t0 + defaultWindow" and "last (t0 # ts) \<le> t" and "int (Suc (length ts)) < 2 ^ 63"
  shows "Allowed (fst (check CacheGet hmac (Some (NewLimiter sec)) t scope subject limit
      (record_failures Incr hmac (NewLimiter sec) (t0 # ts) scope subject limit c))) \<longleftrightarrow>
    (int (length (t0 # ts)) < limit \<or> t0 + defaultWindow < t)"
proof -
  have d: "deadline t0 (window (NewLimiter sec) div second) = t0 + defaultWindow"
      "0 < window (NewLimiter sec) div second"
    by (simp_all add: deadline_def NewLimiter_def defaultWindow_def second_def)
  show ?thesis
    using lcache.check_after_failures [OF assms(3,2) refl assms(1,4) d(1) [symmetric] d(2), of t] assms(5-)
    by simp
qed

theorem throttle_fixed_window_witness:
  "Allowed (fst (check CacheGet (\<lambda>_ m. m) (Some (NewLimiter ''s'')) 7 scopeLoginIP ''10.0.0.1'' 2
      (record_failures Incr (\<lambda>_ m. m) (NewLimiter ''s'') (1 # [5]) scopeLoginIP ''10.0.0.1'' 2 (NewLocalCache [] [] 0)))) \<longleftrightarrow>
    (int (length (1 # [5 :: int])) < 2 \<or> 1 + defaultWindow < 7)"
  by (rule throttle_fixed_window)
    (simp_all add: local_view_def NewLocalCache_def defaultWindow_def second_def)

text \<open>Scopes are separate and a success clears its account: recording a failure in one scope never
  changes the answer for any subject of another, and after a successful sign-in the account itself is
  allowed again, at any later time.\<close>

lemma throttle_scopes_separate:
  assumes "scope \<noteq> scope'" and "CHR '':'' \<notin> set scope" and "CHR '':'' \<notin> set scope'" and "t \<le> t'"
  shows "fst (check CacheGet hmac (Some l) t' scope' subject' limit'
        (record_failure Incr hmac (Some l) t scope subject limit c))
      = fst (check CacheGet hmac (Some l) t' scope' subject' limit' c)
    \<and> Allowed (fst (check CacheGet hmac (Some (NewLimiter sec)) t scopeLoginAccount (normalizeEmail toLower email)
        (accountLimit (Some (NewLimiter sec))) (RecordLoginSuccess CacheDelete hmac toLower (Some (NewLimiter sec)) email c)))"
  using lcache.record_other_scope [OF limiter_key_scopes [OF assms(2,3,1)] assms(4)] lcache.reset_allows
  by (simp add: RecordLoginSuccess_def accountLimit_def NewLimiter_def defaultPerAccount_def)

end
