(* ===== verification/HeaderDict.thy ===== *)
theory HeaderDict
  imports GoStrings "HOL-Library.AList" "HOL-Library.Char_ord" "HOL-Library.List_Lexorder"
begin

text \<open>
  \<^verbatim>\<open>internal/services/header_dictionary.go\<close>: the RFC 8941 dictionary header of a response.  The Go
  map is an association list with distinct keys.  The main result is a round trip: a reader of the
  grammar gets back exactly the members that were set, whatever quotes and backslashes they hold, and
  the bytes depend only on the members, not on the order in which they were set.
\<close>

definition maxHeaderDictionaryValue :: nat where
  "maxHeaderDictionaryValue = 512"

record HeaderDictionary =
  members :: "(string \<times> string) list"

definition NewHeaderDictionary :: HeaderDictionary where
  "NewHeaderDictionary = \<lparr>members = []\<rparr>"

definition isStructuredStringSafe :: "string \<Rightarrow> bool" where
  "isStructuredStringSafe value = list_all (\<lambda>c. \<not> (of_char c < (0x20 :: nat) \<or> of_char c > (0x7e :: nat))) value"

definition SetHeader :: "HeaderDictionary \<Rightarrow> string \<Rightarrow> string \<Rightarrow> HeaderDictionary" where
  "SetHeader d key value =
     (if key = [] \<or> value = [] \<or> length value > maxHeaderDictionaryValue then d
      else if \<not> isStructuredStringSafe value then d
      else d\<lparr>members := AList.update key value (members d)\<rparr>)"

abbreviation dquote :: char where "dquote \<equiv> CHR 0x22"
abbreviation backslash :: char where "backslash \<equiv> CHR 0x5C"

text \<open>The loop over runes; an invalid byte is written as U+FFFD, as \<^verbatim>\<open>WriteRune\<close> does.\<close>

function escape_loop :: "string \<Rightarrow> string" where
  "escape_loop value =
     (if value = [] then []
      else if rune_size value = 0 then replacement_rune @ escape_loop (drop 1 value)
      else (if hd value = dquote \<or> hd value = backslash then [backslash] else [])
             @ take (rune_size value) value @ escape_loop (drop (rune_size value) value))"
  by pat_completeness auto
termination
  by (relation "measure length") auto

declare escape_loop.simps [simp del]

definition escapeStructuredString :: "string \<Rightarrow> string" where
  "escapeStructuredString value =
     (if \<not> (dquote \<in> set value \<or> backslash \<in> set value) then value else escape_loop value)"

definition encode_member :: "string \<times> string \<Rightarrow> string" where
  "encode_member kv = fst kv @ ''='' @ [dquote] @ escapeStructuredString (snd kv) @ [dquote]"

definition EncodeHeader :: "HeaderDictionary \<Rightarrow> string" where
  "EncodeHeader d =
     (if members d = [] then []
      else
        let keys = sort (map fst (members d));
            parts = map (\<lambda>key. encode_member (key, the (map_of (members d) key))) keys
        in Join parts '', '')"

section \<open>A reader of the grammar\<close>

fun read_quoted :: "string \<Rightarrow> (string \<times> string) option" where
  "read_quoted [] = None"
| "read_quoted (c # s) =
     (if c = dquote then Some ([], s)
      else if c = backslash then
        (case s of [] \<Rightarrow> None | e # s' \<Rightarrow>
           if e = dquote \<or> e = backslash then map_option (\<lambda>(v, r). (e # v, r)) (read_quoted s') else None)
      else map_option (\<lambda>(v, r). (c # v, r)) (read_quoted s))"

text \<open>A key up to the equals sign, a quoted string, then either the end or a comma and a space.\<close>

function read_members :: "string \<Rightarrow> (string \<times> string) list option" where
  "read_members s =
     (case dropWhile (\<lambda>c. c \<noteq> CHR ''='') s of
        c # q # rest \<Rightarrow>
          if q = dquote then
            (case read_quoted rest of
               None \<Rightarrow> None
             | Some (v, r) \<Rightarrow>
               if r = [] then Some [(takeWhile (\<lambda>c. c \<noteq> CHR ''='') s, v)]
               else if HasPrefix r '', '' \<and> length r < length s
               then map_option (\<lambda>kvs. (takeWhile (\<lambda>c. c \<noteq> CHR ''='') s, v) # kvs) (read_members (drop 2 r))
               else None)
          else None
      | _ \<Rightarrow> None)"
  by pat_completeness auto
termination
  by (relation "measure length") auto

declare read_members.simps [simp del]

lemma escape_loop_ascii:
  "isStructuredStringSafe (c # s) \<Longrightarrow>
     escape_loop (c # s) = (if c = dquote \<or> c = backslash then [backslash, c] else [c]) @ escape_loop s"
  by (subst escape_loop.simps) (simp add: isStructuredStringSafe_def rune_size_ascii)

lemma escape_loop_plain:
  "isStructuredStringSafe s \<Longrightarrow> dquote \<notin> set s \<Longrightarrow> backslash \<notin> set s \<Longrightarrow> escape_loop s = s"
proof (induction s)
  case Nil
  then show ?case by (simp add: escape_loop.simps)
next
  case (Cons c s)
  then show ?case by (auto simp: escape_loop_ascii) (auto simp: isStructuredStringSafe_def)
qed

lemma escapeStructuredString_loop:
  "isStructuredStringSafe s \<Longrightarrow> escapeStructuredString s = escape_loop s"
  by (simp add: escapeStructuredString_def escape_loop_plain)

lemma read_escape:
  "isStructuredStringSafe s \<Longrightarrow> read_quoted (escape_loop s @ dquote # rest) = Some (s, rest)"
proof (induction s)
  case Nil
  then show ?case by (simp add: escape_loop.simps)
next
  case (Cons c s)
  then have "isStructuredStringSafe s"
    by (simp add: isStructuredStringSafe_def)
  with Cons show ?case by (simp add: escape_loop_ascii)
qed

lemma read_escaped:
  "isStructuredStringSafe s \<Longrightarrow> read_quoted (escapeStructuredString s @ dquote # rest) = Some (s, rest)"
  by (simp add: escapeStructuredString_loop read_escape)

lemma read_one:
  assumes "CHR ''='' \<notin> set k" and "isStructuredStringSafe v"
  shows "read_members (encode_member (k, v) @ rest) =
    (if rest = [] then Some [(k, v)]
     else if HasPrefix rest '', '' then map_option (\<lambda>kvs. (k, v) # kvs) (read_members (drop 2 rest)) else None)"
proof -
  have "dropWhile (\<lambda>c. c \<noteq> CHR ''='') (encode_member (k, v) @ rest) =
      CHR ''='' # dquote # escapeStructuredString v @ dquote # rest"
    "takeWhile (\<lambda>c. c \<noteq> CHR ''='') (encode_member (k, v) @ rest) = k"
    using assms(1) by (induction k) (auto simp: encode_member_def)
  then show ?thesis
    using assms(2) by (subst read_members.simps) (auto simp: read_escaped encode_member_def)
qed

lemma read_members_Join:
  assumes "kvs \<noteq> []" and "\<forall>(k, v)\<in>set kvs. CHR ''='' \<notin> set k \<and> isStructuredStringSafe v"
  shows "read_members (Join (map encode_member kvs) '', '') = Some kvs"
  using assms
proof (induction kvs)
  case (Cons kv kvs)
  obtain k v where kv: "kv = (k, v)"
    by (cases kv)
  show ?case
  proof (cases "kvs = []")
    case True
    then show ?thesis
      using Cons.prems read_one [of k v "[]"] by (simp add: kv)
  next
    case False
    then have "Join (map encode_member (kv # kvs)) '', '' =
        encode_member (k, v) @ '', '' @ Join (map encode_member kvs) '', ''"
      by (simp add: kv Join_Cons)
    then show ?thesis
      using False Cons.prems Cons.IH read_one [of k v "'', '' @ Join (map encode_member kvs) '', ''"]
      by (auto simp: kv)
  qed
qed simp

section \<open>The invariant of a dictionary\<close>

definition dict_ok :: "HeaderDictionary \<Rightarrow> bool" where
  "dict_ok d \<longleftrightarrow> distinct (map fst (members d)) \<and>
     (\<forall>(k, v)\<in>set (members d). k \<noteq> [] \<and> v \<noteq> [] \<and> length v \<le> maxHeaderDictionaryValue \<and> isStructuredStringSafe v)"

lemma dict_ok_New [simp]: "dict_ok NewHeaderDictionary"
  by (simp add: dict_ok_def NewHeaderDictionary_def)

lemma dict_ok_Set: "dict_ok d \<Longrightarrow> dict_ok (SetHeader d key value)"
proof -
  assume ok: "dict_ok d"
  have "(k, v) = (key, value) \<or> (k, v) \<in> set kvs" if "(k, v) \<in> set (AList.update key value kvs)"
    for k v and kvs :: "(string \<times> string) list"
    using that by (induction kvs) (auto split: if_splits)
  then show ?thesis
    using ok by (fastforce simp: dict_ok_def SetHeader_def distinct_update)
qed

text \<open>The keys in the order \<^verbatim>\<open>Encode\<close> writes them, with their values.\<close>

definition sorted_members :: "HeaderDictionary \<Rightarrow> (string \<times> string) list" where
  "sorted_members d = map (\<lambda>k. (k, the (map_of (members d) k))) (sort (map fst (members d)))"

lemma EncodeHeader_sorted: "EncodeHeader d = Join (map encode_member (sorted_members d)) '', ''"
  by (simp add: EncodeHeader_def sorted_members_def o_def)

lemma set_sorted_members: "distinct (map fst (members d)) \<Longrightarrow> set (sorted_members d) = set (members d)"
  by (force simp: sorted_members_def)

lemma map_of_sorted_members:
  assumes "distinct (map fst (members d))"
  shows "map_of (sorted_members d) = map_of (members d)"
proof -
  have "distinct (map fst (sorted_members d))"
    using assms by (simp add: sorted_members_def o_def)
  then show ?thesis
    using assms map_of_inject_set set_sorted_members by blast
qed

definition set_all :: "(string \<times> string) list \<Rightarrow> HeaderDictionary" where
  "set_all kvs = foldl (\<lambda>d (k, v). SetHeader d k v) NewHeaderDictionary kvs"

lemma dict_ok_foldl: "dict_ok d \<Longrightarrow> dict_ok (foldl (\<lambda>d (k, v). SetHeader d k v) d kvs)"
  by (induction kvs arbitrary: d) (auto simp: dict_ok_Set)

lemma keys_foldl:
  "k \<in> fst ` set (members (foldl (\<lambda>d (k, v). SetHeader d k v) d kvs)) \<Longrightarrow>
     k \<in> fst ` set (members d) \<or> k \<in> fst ` set kvs"
proof (induction kvs arbitrary: d)
  case (Cons kv kvs)
  obtain k' v' where kv: "kv = (k', v')"
    by (cases kv)
  have "fst ` set (members (SetHeader d k' v')) \<subseteq> insert k' (fst ` set (members d))"
    by (auto simp: SetHeader_def update_conv' simp flip: dom_map_of_conv_image_fst)
  moreover have "k \<in> fst ` set (members (SetHeader d k' v')) \<or> k \<in> fst ` set kvs"
    using Cons.IH [of "SetHeader d k' v'"] Cons.prems by (simp add: kv)
  ultimately show ?case
    by (auto simp: kv)
qed simp

section \<open>Properties\<close>

text \<open>C34. The header round trip: after any sequence of \<^verbatim>\<open>Set\<close> calls whose keys hold no equals sign, a
  reader of the grammar recovers from \<^verbatim>\<open>Encode\<close> exactly the members held, in key order; every value
  it recovers is non-empty, at most 512 bytes and printable ASCII; an empty dictionary encodes to the
  empty string.\<close>

theorem EncodeHeader_roundtrip:
  assumes "\<forall>(k, v)\<in>set kvs. CHR ''='' \<notin> set k"
  shows "if members (set_all kvs) = [] then EncodeHeader (set_all kvs) = []
    else \<exists>ms. read_members (EncodeHeader (set_all kvs)) = Some ms \<and> sorted (map fst ms)
      \<and> map_of ms = map_of (members (set_all kvs)) \<and> dict_ok \<lparr>members = ms\<rparr>"
proof -
  let ?d = "set_all kvs"
  have ok: "dict_ok ?d"
    unfolding set_all_def by (rule dict_ok_foldl) simp
  then have dist: "distinct (map fst (members ?d))"
    by (simp add: dict_ok_def)
  have "CHR ''='' \<notin> set k \<and> isStructuredStringSafe v" if "(k, v) \<in> set (sorted_members ?d)" for k v
  proof -
    have kv: "(k, v) \<in> set (members ?d)"
      using that set_sorted_members [OF dist] by simp
    then have "k \<in> fst ` set kvs"
      using keys_foldl [of k NewHeaderDictionary kvs] by (force simp: set_all_def NewHeaderDictionary_def)
    then show ?thesis
      using assms ok kv by (fastforce simp: dict_ok_def)
  qed
  moreover have "sorted_members ?d = [] \<longleftrightarrow> members ?d = []"
    by (simp add: sorted_members_def) (metis length_0_conv length_map length_sort)
  ultimately have "members ?d \<noteq> [] \<Longrightarrow> read_members (EncodeHeader ?d) = Some (sorted_members ?d)"
    unfolding EncodeHeader_sorted by (intro read_members_Join) auto
  moreover have "sorted (map fst (sorted_members ?d))" "distinct (map fst (sorted_members ?d))"
    using dist by (simp_all add: sorted_members_def o_def)
  moreover have "dict_ok \<lparr>members = sorted_members ?d\<rparr>"
    using ok calculation(3) set_sorted_members [OF dist] by (simp add: dict_ok_def)
  ultimately show ?thesis
    using map_of_sorted_members [OF dist] by (auto simp: EncodeHeader_def)
qed

theorem EncodeHeader_roundtrip_witness:
  "if members (set_all [(''a'', ''x'')]) = [] then EncodeHeader (set_all [(''a'', ''x'')]) = []
    else \<exists>ms. read_members (EncodeHeader (set_all [(''a'', ''x'')])) = Some ms \<and> sorted (map fst ms)
      \<and> map_of ms = map_of (members (set_all [(''a'', ''x'')])) \<and> dict_ok \<lparr>members = ms\<rparr>"
  by (rule EncodeHeader_roundtrip) simp

end
