(* ===== verification/Base64.thy ===== *)
theory Base64
  imports GoStrings
begin

text \<open>
  \<^verbatim>\<open>encoding/base64\<close>'s \<^verbatim>\<open>RawURLEncoding\<close> (no padding), used for the opaque surf tokens and the feed
  cursor.  A byte is eight bits and a character of the alphabet stands for six, so the encoder and
  decoder are regroupings of bits.  As in Go the decoder skips carriage returns and line feeds, refuses
  any other character outside the alphabet and a dangling single character, and ignores the unused
  bits of the last character.
\<close>

datatype sextet = Sextet bool bool bool bool bool bool

definition alphabet :: string where
  "alphabet = ''ABCDEFGHIJKLMNOPQRSTUVWXYZabcdefghijklmnopqrstuvwxyz0123456789-_''"

definition bools :: "bool list" where
  "bools = [False, True]"

definition all_sextets :: "sextet list" where
  "all_sextets = [Sextet a b c d e f. a \<leftarrow> bools, b \<leftarrow> bools, c \<leftarrow> bools, d \<leftarrow> bools, e \<leftarrow> bools, f \<leftarrow> bools]"

definition sextet_char :: "sextet \<Rightarrow> char" where
  "sextet_char s = the (map_of (zip all_sextets alphabet) s)"

definition char_sextet :: "char \<Rightarrow> sextet option" where
  "char_sextet c = map_of (zip alphabet all_sextets) c"

fun to_sextets :: "string \<Rightarrow> sextet list" where
  "to_sextets [] = []"
| "to_sextets [Char a0 a1 a2 a3 a4 a5 a6 a7] =
     [Sextet a7 a6 a5 a4 a3 a2, Sextet a1 a0 False False False False]"
| "to_sextets [Char a0 a1 a2 a3 a4 a5 a6 a7, Char b0 b1 b2 b3 b4 b5 b6 b7] =
     [Sextet a7 a6 a5 a4 a3 a2, Sextet a1 a0 b7 b6 b5 b4, Sextet b3 b2 b1 b0 False False]"
| "to_sextets (Char a0 a1 a2 a3 a4 a5 a6 a7 # Char b0 b1 b2 b3 b4 b5 b6 b7
       # Char c0 c1 c2 c3 c4 c5 c6 c7 # s) =
     Sextet a7 a6 a5 a4 a3 a2 # Sextet a1 a0 b7 b6 b5 b4 # Sextet b3 b2 b1 b0 c7 c6
       # Sextet c5 c4 c3 c2 c1 c0 # to_sextets s"

fun from_sextets :: "sextet list \<Rightarrow> string option" where
  "from_sextets [] = Some []"
| "from_sextets [_] = None"
| "from_sextets [Sextet a7 a6 a5 a4 a3 a2, Sextet a1 a0 _ _ _ _] = Some [Char a0 a1 a2 a3 a4 a5 a6 a7]"
| "from_sextets [Sextet a7 a6 a5 a4 a3 a2, Sextet a1 a0 b7 b6 b5 b4, Sextet b3 b2 b1 b0 _ _] =
     Some [Char a0 a1 a2 a3 a4 a5 a6 a7, Char b0 b1 b2 b3 b4 b5 b6 b7]"
| "from_sextets (Sextet a7 a6 a5 a4 a3 a2 # Sextet a1 a0 b7 b6 b5 b4 # Sextet b3 b2 b1 b0 c7 c6
       # Sextet c5 c4 c3 c2 c1 c0 # s) =
     map_option (\<lambda>t. Char a0 a1 a2 a3 a4 a5 a6 a7 # Char b0 b1 b2 b3 b4 b5 b6 b7
       # Char c0 c1 c2 c3 c4 c5 c6 c7 # t) (from_sextets s)"

definition base64_encode :: "string \<Rightarrow> string" where
  "base64_encode s = map sextet_char (to_sextets s)"

definition base64_decode :: "string \<Rightarrow> string option" where
  "base64_decode s =
     (let kept = filter (\<lambda>c. c \<noteq> CHR 0x0D \<and> c \<noteq> CHR 0x0A) s;
          digits = map char_sextet kept
      in if None \<in> set digits then None else from_sextets (map the digits))"

section \<open>Laws\<close>

lemma from_to_sextets [simp]: "from_sextets (to_sextets s) = Some s"
  by (induction s rule: to_sextets.induct) auto

lemma in_bools: "b \<in> set bools"
  by (cases b) (simp_all add: bools_def)

lemma char_sextet_char [simp]: "char_sextet (sextet_char s) = Some s"
proof -
  have "list_all (\<lambda>s. char_sextet (sextet_char s) = Some s) all_sextets"
    by code_simp
  moreover have "s \<in> set all_sextets"
    by (cases s) (simp add: all_sextets_def image_iff in_bools)
  ultimately show ?thesis
    by (simp add: list_all_iff)
qed

lemma alphabet_range:
  "list_all (\<lambda>c. c \<noteq> CHR 0x0D \<and> c \<noteq> CHR 0x0A \<and> c \<noteq> CHR 0x2C \<and> 33 \<le> (of_char c :: nat) \<and> of_char c \<le> (126 :: nat)) alphabet"
  by code_simp

lemma sextet_char_alphabet: "sextet_char s \<in> set alphabet"
  using char_sextet_char [of s] unfolding char_sextet_def
  by (meson map_of_SomeD set_zip_leftD)

lemma base64_encode_alphabet: "c \<in> set (base64_encode s) \<Longrightarrow> c \<in> set alphabet"
  using sextet_char_alphabet by (auto simp: base64_encode_def)

lemma base64_roundtrip: "base64_decode (base64_encode s) = Some s"
proof -
  have "filter (\<lambda>c. c \<noteq> CHR 0x0D \<and> c \<noteq> CHR 0x0A) (base64_encode s) = base64_encode s"
    using alphabet_range base64_encode_alphabet by (fastforce simp: filter_id_conv list_all_iff)
  then show ?thesis
    by (auto simp: base64_decode_def base64_encode_def o_def)
qed

lemma base64_encode_inj: "base64_encode s = base64_encode t \<longleftrightarrow> s = t"
  by (metis base64_roundtrip option.inject)

lemma base64_encode_Nil_iff [simp]: "base64_encode s = [] \<longleftrightarrow> s = []"
  by (cases s rule: to_sextets.cases) (auto simp: base64_encode_def)

lemma length_to_sextets: "3 * length (to_sextets s) \<le> 4 * length s + 2"
  by (induction s rule: to_sextets.induct) auto

lemma length_base64_encode: "3 * length (base64_encode s) \<le> 4 * length s + 2"
  using length_to_sextets [of s] by (simp add: base64_encode_def)

end
