(* ===== verification/SurfBlock.thy ===== *)
theory SurfBlock
  imports HeaderDict Base64
begin

text \<open>
  \<^verbatim>\<open>internal/services/branch_surf_block.go\<close> and \<^verbatim>\<open>internal/update/failed_ids.go\<close>: the verdicts a
  device carries so that an update that crashed on it is not served again.  \<^verbatim>\<open>uuid.Parse\<close> (a
  third-party package) is a parameter that returns the canonical text of the identifier.
\<close>

definition SurfBlockedHeader :: string where "SurfBlockedHeader = ''xprem-surf-blocked''"

definition surfBlockToken :: "string \<Rightarrow> string \<Rightarrow> string" where
  "surfBlockToken branchName updateId = base64_encode (branchName @ [CHR 0x00] @ updateId)"

type_synonym surfBlockSet = "string set"

definition blocks_contains :: "surfBlockSet \<Rightarrow> string \<Rightarrow> string \<Rightarrow> bool" where
  "blocks_contains b branchName updateId \<longleftrightarrow> surfBlockToken branchName updateId \<in> b"

definition maxSurfBlockTokens :: nat where "maxSurfBlockTokens = 5"

definition maxSurfBlockTokensRaw :: nat where "maxSurfBlockTokensRaw = 2048"

definition is_base64url_char :: "char \<Rightarrow> bool" where
  "is_base64url_char c \<longleftrightarrow>
     (let n = (of_char c :: nat)
      in (n \<ge> 65 \<and> n \<le> 90) \<or> (n \<ge> 97 \<and> n \<le> 122) \<or> (n \<ge> 48 \<and> n \<le> 57) \<or> n = 45 \<or> n = 95)"

definition isBase64URL :: "string \<Rightarrow> bool" where
  "isBase64URL s = list_all is_base64url_char s"

fun surf_tokens_loop :: "string list \<Rightarrow> string list \<Rightarrow> string list" where
  "surf_tokens_loop [] tokens = tokens"
| "surf_tokens_loop (part # parts) tokens =
     (let token = TrimSpace part
      in if token = [] then surf_tokens_loop parts tokens
         else if \<not> isBase64URL token then surf_tokens_loop parts tokens
         else if length (tokens @ [token]) = maxSurfBlockTokens then tokens @ [token]
         else surf_tokens_loop parts (tokens @ [token]))"

definition parseSurfBlockTokens :: "string \<Rightarrow> string list" where
  "parseSurfBlockTokens raw =
     (let raw = (if length raw > maxSurfBlockTokensRaw then take maxSurfBlockTokensRaw raw else raw)
      in surf_tokens_loop (split_on CHR '','' raw) [])"

text \<open>The loop of \<^verbatim>\<open>SetSurfBlocked\<close>; the Go set \<^verbatim>\<open>seen\<close> holds the tokens taken so far.\<close>

fun carry_loop :: "string list \<Rightarrow> string list \<Rightarrow> nat \<Rightarrow> string list" where
  "carry_loop [] tokens sz = tokens"
| "carry_loop (t # ts) tokens sz =
     (if length tokens = maxSurfBlockTokens then tokens
      else if t \<in> set tokens then carry_loop ts tokens sz
      else if sz + 1 + length t > maxHeaderDictionaryValue then carry_loop ts tokens sz
      else carry_loop ts (tokens @ [t]) (sz + 1 + length t))"

definition SetSurfBlocked :: "HeaderDictionary \<Rightarrow> string \<Rightarrow> string \<Rightarrow> HeaderDictionary" where
  "SetSurfBlocked dictionary carriedTokens token =
     (if length token > maxHeaderDictionaryValue then dictionary
      else SetHeader dictionary SurfBlockedHeader
        (Join (carry_loop (parseSurfBlockTokens carriedTokens) [token] (length token)) '',''))"

definition maxFailedUpdateIDs :: nat where "maxFailedUpdateIDs = 5"

definition maxFailedUpdateIDsRaw :: nat where "maxFailedUpdateIDsRaw = 512"

type_synonym uuid_parser = "string \<Rightarrow> string option"

fun failed_ids_loop :: "uuid_parser \<Rightarrow> string list \<Rightarrow> string list \<Rightarrow> string list" where
  "failed_ids_loop uuid_parse [] ids = ids"
| "failed_ids_loop uuid_parse (part # parts) ids =
     (case uuid_parse (Trim (TrimSpace part) [CHR 0x22]) of
        None \<Rightarrow> failed_ids_loop uuid_parse parts ids
      | Some i \<Rightarrow>
        if i \<in> set ids then failed_ids_loop uuid_parse parts ids
        else if length (ids @ [i]) = maxFailedUpdateIDs then ids @ [i]
        else failed_ids_loop uuid_parse parts (ids @ [i]))"

definition ParseFailedUpdateIDs :: "uuid_parser \<Rightarrow> string \<Rightarrow> string list" where
  "ParseFailedUpdateIDs uuid_parse raw =
     (if raw = [] then []
      else
        let raw = (if length raw > maxFailedUpdateIDsRaw then take maxFailedUpdateIDsRaw raw else raw)
        in failed_ids_loop uuid_parse (split_on CHR '','' raw) [])"

text \<open>\<^verbatim>\<open>collectSurfBlocks\<close>: the lookup by manifest UUID is the repository's, which may change its state; a
  failing or empty lookup is \<^const>\<open>None\<close> and is skipped.  It answers the branch and the update id of the row.\<close>

fun failed_blocks :: "(string \<Rightarrow> 's \<Rightarrow> (string \<times> string) option \<times> 's) \<Rightarrow> string list \<Rightarrow> surfBlockSet \<Rightarrow> 's
    \<Rightarrow> surfBlockSet \<times> 's" where
  "failed_blocks lookup [] blocks s = (blocks, s)"
| "failed_blocks lookup (failedID # rest) blocks s = (case lookup failedID s of
     (None, s') \<Rightarrow> failed_blocks lookup rest blocks s'
   | (Some (b, u), s') \<Rightarrow> failed_blocks lookup rest (insert (surfBlockToken b u) blocks) s')"

definition collectSurfBlocks :: "uuid_parser \<Rightarrow> (string \<Rightarrow> 's \<Rightarrow> (string \<times> string) option \<times> 's) \<Rightarrow> string \<Rightarrow> string
    \<Rightarrow> 's \<Rightarrow> surfBlockSet \<times> 's" where
  "collectSurfBlocks uuid_parse lookup surfBlockTokens failedUpdateIDsRaw s =
     failed_blocks lookup (ParseFailedUpdateIDs uuid_parse failedUpdateIDsRaw) (set (parseSurfBlockTokens surfBlockTokens)) s"

lemma failed_blocks_mono: "t \<in> blocks \<Longrightarrow> t \<in> fst (failed_blocks lookup ids blocks s)"
  by (induction ids arbitrary: blocks s) (auto split: prod.split option.split)

lemma echoed_token_blocked:
  "t \<in> set (parseSurfBlockTokens tokens) \<Longrightarrow> t \<in> fst (collectSurfBlocks uuid_parse lookup tokens raw s)"
  unfolding collectSurfBlocks_def by (rule failed_blocks_mono)

section \<open>Tokens\<close>

lemma alphabet_base64url: "list_all is_base64url_char alphabet"
  by code_simp

lemma surfBlockToken_base64: "isBase64URL (surfBlockToken b u)" "surfBlockToken b u \<noteq> []"
  using alphabet_base64url base64_encode_alphabet
  by (auto simp: isBase64URL_def surfBlockToken_def list_all_iff)

lemma surfBlockToken_inj:
  assumes "CHR 0x00 \<notin> set b" and "CHR 0x00 \<notin> set b'"
  shows "surfBlockToken b u = surfBlockToken b' u' \<longleftrightarrow> b = b' \<and> u = u'"
proof -
  have "split_on (CHR 0x00) (b @ CHR 0x00 # u) = split_on (CHR 0x00) (b' @ CHR 0x00 # u') \<Longrightarrow> b = b'"
    using assms by (simp add: split_on_append)
  then show ?thesis
    by (auto simp: surfBlockToken_def base64_encode_inj)
qed

section \<open>What a device carries\<close>

lemma no_leading_space: "s = [] \<or> hd s \<notin> hd ` set runes \<Longrightarrow> trim_leading runes s = s"
proof -
  assume a: "s = [] \<or> hd s \<notin> hd ` set runes"
  have "leading_space runes s = None"
  proof (cases s)
    case (Cons c cs)
    then show ?thesis
      using a by (auto simp: leading_space_def find_None_iff HasPrefix_iff neq_Nil_conv image_iff)
  qed (auto simp: leading_space_def find_None_iff HasPrefix_iff)
  then show ?thesis
    by (simp add: trim_leading.simps)
qed

lemma space_edges:
  "list_all (\<lambda>r. \<not> is_base64url_char (hd r) \<and> \<not> is_base64url_char (hd (rev r))) space_runes"
  by code_simp

lemma TrimSpace_base64: "isBase64URL s \<Longrightarrow> TrimSpace s = s"
proof -
  assume b: "isBase64URL s"
  have "s = [] \<or> hd s \<notin> hd ` set space_runes"
    using b space_edges by (cases s) (auto simp: isBase64URL_def list_all_iff)
  then have "trim_leading space_runes s = s"
    by (rule no_leading_space)
  moreover have "rev s = [] \<or> hd (rev s) \<notin> hd ` set (map rev space_runes)"
    using b space_edges by (cases s rule: rev_cases) (auto simp: isBase64URL_def list_all_iff)
  then have "trim_leading (map rev space_runes) (rev s) = rev s"
    by (rule no_leading_space)
  ultimately show ?thesis
    by (simp add: TrimSpace_def)
qed

lemma surf_tokens_loop_id:
  "\<forall>t\<in>set parts. isBase64URL t \<and> t \<noteq> [] \<Longrightarrow> length tokens + length parts \<le> maxSurfBlockTokens \<Longrightarrow>
     surf_tokens_loop parts tokens = tokens @ parts"
proof (induction parts arbitrary: tokens)
  case (Cons part parts)
  then have "TrimSpace part = part" "isBase64URL part" "part \<noteq> []"
    by (auto simp: TrimSpace_base64)
  then have run: "surf_tokens_loop (part # parts) tokens =
      (if Suc (length tokens) = maxSurfBlockTokens then tokens @ [part] else surf_tokens_loop parts (tokens @ [part]))"
    by simp
  show ?case
  proof (cases "Suc (length tokens) = maxSurfBlockTokens")
    case True
    moreover have "length tokens + Suc (length parts) \<le> maxSurfBlockTokens"
      using Cons.prems(2) by simp
    ultimately have "length parts = 0"
      by linarith
    then show ?thesis
      using True unfolding run by simp
  next
    case False
    then show ?thesis
      using Cons.IH [of "tokens @ [part]"] Cons.prems unfolding run by simp
  qed
qed simp

lemma surf_tokens_loop_bound:
  "length tokens < maxSurfBlockTokens \<Longrightarrow> length (surf_tokens_loop parts tokens) \<le> maxSurfBlockTokens"
  by (induction parts tokens rule: surf_tokens_loop.induct) (auto simp: Let_def)

lemma surf_tokens_loop_base64:
  "t \<in> set (surf_tokens_loop parts tokens) \<Longrightarrow> t \<in> set tokens \<or> (isBase64URL t \<and> t \<noteq> [])"
proof (induction parts tokens rule: surf_tokens_loop.induct)
  case (2 part parts tokens)
  then show ?case
    by (cases "TrimSpace part = []"; cases "isBase64URL (TrimSpace part)";
        cases "length (tokens @ [TrimSpace part]) = maxSurfBlockTokens") auto
qed simp

lemma parse_base64: "t \<in> set (parseSurfBlockTokens raw) \<Longrightarrow> isBase64URL t \<and> t \<noteq> []"
  unfolding parseSurfBlockTokens_def Let_def by (drule surf_tokens_loop_base64) simp

text \<open>The list the loop builds: it starts with what was there, adds only carried tokens, in their
  order, without duplicates, and stays within both bounds.\<close>

lemma carry_loop_spec:
  assumes "length tokens \<le> maxSurfBlockTokens" and "distinct tokens" and "tokens \<noteq> []"
    and "sz = length (Join tokens '','')" and "sz \<le> maxHeaderDictionaryValue"
  shows "\<exists>kept. carry_loop ts tokens sz = tokens @ kept \<and> set kept \<subseteq> set ts
    \<and> distinct (tokens @ kept) \<and> length (tokens @ kept) \<le> maxSurfBlockTokens
    \<and> length (Join (tokens @ kept) '','') \<le> maxHeaderDictionaryValue"
  using assms
proof (induction ts tokens sz rule: carry_loop.induct)
  case (1 tokens sz)
  then show ?case by simp
next
  case (2 t ts tokens sz)
  have len: "length (Join (tokens @ [t]) '','') = sz + 1 + length t"
    using 2(6,7) by (simp add: length_Join)
  consider "length tokens = maxSurfBlockTokens" | "length tokens \<noteq> maxSurfBlockTokens" "t \<in> set tokens \<or> sz + 1 + length t > maxHeaderDictionaryValue"
    | "length tokens \<noteq> maxSurfBlockTokens" "t \<notin> set tokens" "sz + 1 + length t \<le> maxHeaderDictionaryValue"
    by linarith
  then show ?case
  proof cases
    case 1
    then show ?thesis
      using "2.prems" by simp
  next
    case 2
    then have "carry_loop (t # ts) tokens sz = carry_loop ts tokens sz"
      by auto
    moreover have "\<exists>kept. carry_loop ts tokens sz = tokens @ kept \<and> set kept \<subseteq> set ts
        \<and> distinct (tokens @ kept) \<and> length (tokens @ kept) \<le> maxSurfBlockTokens
        \<and> length (Join (tokens @ kept) '','') \<le> maxHeaderDictionaryValue"
      using "2.IH"(1,2) "2.prems" 2 by (cases "t \<in> set tokens") auto
    ultimately show ?thesis
      by auto
  next
    case 3
    then have run: "carry_loop (t # ts) tokens sz = carry_loop ts (tokens @ [t]) (sz + 1 + length t)"
      by simp
    obtain kept where "carry_loop ts (tokens @ [t]) (sz + 1 + length t) = (tokens @ [t]) @ kept"
        "set kept \<subseteq> set ts" "distinct ((tokens @ [t]) @ kept)"
        "length ((tokens @ [t]) @ kept) \<le> maxSurfBlockTokens"
        "length (Join ((tokens @ [t]) @ kept) '','') \<le> maxHeaderDictionaryValue"
      using "2.IH"(3) "2.prems" 3 len by auto
    then show ?thesis
      unfolding run by (intro exI [of _ "t # kept"]) auto
  qed
qed

text \<open>The value a response carries, when it carries one.\<close>

definition blocked_value :: "string \<Rightarrow> string \<Rightarrow> string" where
  "blocked_value carried token = Join (carry_loop (parseSurfBlockTokens carried) [token] (length token)) '',''"

lemma base64_no_comma: "isBase64URL t \<Longrightarrow> CHR '','' \<notin> set t"
  by (auto simp: isBase64URL_def list_all_iff is_base64url_char_def Let_def)

lemma base64_safe: "isBase64URL t \<Longrightarrow> isStructuredStringSafe t"
  by (auto simp: isBase64URL_def isStructuredStringSafe_def list_all_iff is_base64url_char_def Let_def)

lemma set_Join: "set (Join ws sep) \<subseteq> (\<Union>w\<in>set ws. set w) \<union> set sep"
  by (induction ws sep rule: Join.induct) auto

text \<open>Everything the next poll needs: the value fits, and reading it back gives the tokens it was
  built from.\<close>

lemma blocked_value_spec:
  assumes "isBase64URL token" and "token \<noteq> []" and "length token \<le> maxHeaderDictionaryValue"
  obtains kept where "parseSurfBlockTokens (blocked_value carried token) = token # kept"
    and "set kept \<subseteq> set (parseSurfBlockTokens carried)" and "distinct (token # kept)"
    and "length (token # kept) \<le> maxSurfBlockTokens"
    and "length (blocked_value carried token) \<le> maxHeaderDictionaryValue"
    and "blocked_value carried token \<noteq> []" and "isStructuredStringSafe (blocked_value carried token)"
proof -
  obtain kept where k: "carry_loop (parseSurfBlockTokens carried) [token] (length token) = [token] @ kept"
      "set kept \<subseteq> set (parseSurfBlockTokens carried)" "distinct ([token] @ kept)"
      "length ([token] @ kept) \<le> maxSurfBlockTokens"
      "length (Join ([token] @ kept) '','') \<le> maxHeaderDictionaryValue"
    using carry_loop_spec [of "[token]" "length token" "parseSurfBlockTokens carried"] assms
    by (auto simp: maxSurfBlockTokens_def)
  let ?v = "blocked_value carried token"
  have v: "?v = Join (token # kept) '',''"
    using k(1) by (simp add: blocked_value_def)
  have all: "isBase64URL t \<and> t \<noteq> []" if "t \<in> set (token # kept)" for t
    using that assms k(2) parse_base64 by auto
  have "split_on CHR '','' ?v = token # kept"
    unfolding v using all base64_no_comma by (intro split_on_Join) auto
  moreover have "length ?v \<le> maxSurfBlockTokensRaw"
    using k(5) v by (simp add: maxSurfBlockTokensRaw_def maxHeaderDictionaryValue_def)
  ultimately have "parseSurfBlockTokens ?v = token # kept"
    using surf_tokens_loop_id [of "token # kept" "[]"] all k(4) by (simp add: parseSurfBlockTokens_def)
  moreover have "?v \<noteq> []"
    using assms(2) v by (cases kept) auto
  moreover have "isStructuredStringSafe ?v"
  proof -
    have "\<not> (of_char c < (0x20 :: nat) \<or> of_char c > (0x7e :: nat))" if c: "c \<in> set ?v" for c
    proof (cases "c = CHR '',''")
      case False
      then obtain w where "w \<in> set (token # kept)" "c \<in> set w"
        using c set_Join [of "token # kept" "'',''"] unfolding v by auto
      then show ?thesis
        using all base64_safe unfolding isStructuredStringSafe_def list_all_iff by blast
    qed simp
    then show ?thesis
      by (simp add: isStructuredStringSafe_def list_all_iff)
  qed
  ultimately show ?thesis
    using that k v by simp
qed

lemma failed_ids_loop_spec:
  assumes "length ids < maxFailedUpdateIDs" and "distinct ids"
  shows "length (failed_ids_loop uuid_parse parts ids) \<le> maxFailedUpdateIDs
    \<and> distinct (failed_ids_loop uuid_parse parts ids)
    \<and> (\<forall>i\<in>set (failed_ids_loop uuid_parse parts ids). i \<in> set ids \<or> (\<exists>s. uuid_parse s = Some i))"
  using assms
proof (induction uuid_parse parts ids rule: failed_ids_loop.induct)
  case (2 uuid_parse part parts ids)
  show ?case
  proof (cases "uuid_parse (Trim (TrimSpace part) [CHR 0x22])")
    case None
    then show ?thesis
      using "2.IH"(1) [OF None] "2.prems" by simp
  next
    case (Some i)
    consider "i \<in> set ids" | "i \<notin> set ids" "Suc (length ids) = maxFailedUpdateIDs"
      | "i \<notin> set ids" "Suc (length ids) \<noteq> maxFailedUpdateIDs" by blast
    then show ?thesis
    proof cases
      case 1
      then show ?thesis
        using "2.IH"(2) [OF Some 1] "2.prems" Some by simp
    next
      case 2
      then show ?thesis
        using "2.prems" Some by auto
    next
      case 3
      have run: "failed_ids_loop uuid_parse (part # parts) ids = failed_ids_loop uuid_parse parts (ids @ [i])"
        using Some 3 by simp
      have "Suc (length ids) < maxFailedUpdateIDs"
        using 3 "2.prems"(1) by linarith
      then show ?thesis
        unfolding run using "2.IH"(3) [OF Some 3(1)] 3 "2.prems"(2) Some by auto
    qed
  qed
qed simp

section \<open>Properties\<close>

text \<open>C33. A refusal survives the round trip through the device.  When the server refuses an update and
  answers with its token, the header value fits its bound, is printable and non-empty, and when the
  device echoes it back the parsed list starts with that token, holds no duplicate, at most five
  tokens, and besides it only tokens the device already carried.  So the refused update is in the
  set of blocks of the next poll.\<close>

theorem SetSurfBlocked_roundtrip:
  assumes "length (surfBlockToken b u) \<le> maxHeaderDictionaryValue"
  shows "\<exists>value kept. map_of (members (SetSurfBlocked NewHeaderDictionary carried (surfBlockToken b u))) SurfBlockedHeader
      = Some value
    \<and> length value \<le> maxHeaderDictionaryValue
    \<and> parseSurfBlockTokens value = surfBlockToken b u # kept
    \<and> set kept \<subseteq> set (parseSurfBlockTokens carried) \<and> distinct (surfBlockToken b u # kept)
    \<and> length (surfBlockToken b u # kept) \<le> maxSurfBlockTokens
    \<and> blocks_contains (fst (collectSurfBlocks uuid_parse lookup value raw s)) b u"
proof -
  let ?v = "blocked_value carried (surfBlockToken b u)"
  obtain kept where k: "parseSurfBlockTokens ?v = surfBlockToken b u # kept"
      "set kept \<subseteq> set (parseSurfBlockTokens carried)" "distinct (surfBlockToken b u # kept)"
      "length (surfBlockToken b u # kept) \<le> maxSurfBlockTokens"
      "length ?v \<le> maxHeaderDictionaryValue" "?v \<noteq> []" "isStructuredStringSafe ?v"
    using blocked_value_spec [OF surfBlockToken_base64 assms] by blast
  have "map_of (members (SetSurfBlocked NewHeaderDictionary carried (surfBlockToken b u))) SurfBlockedHeader = Some ?v"
    using assms k(5-7)
    by (simp add: SetSurfBlocked_def SetHeader_def SurfBlockedHeader_def NewHeaderDictionary_def flip: blocked_value_def)
  then show ?thesis
    using k by (intro exI [of _ ?v] exI [of _ kept]) (simp add: blocks_contains_def echoed_token_blocked)
qed

theorem SetSurfBlocked_roundtrip_witness:
  "\<exists>value kept. map_of (members (SetSurfBlocked NewHeaderDictionary ''AAAA'' (surfBlockToken ''pr-1'' ''17'')))
      SurfBlockedHeader = Some value
    \<and> length value \<le> maxHeaderDictionaryValue
    \<and> parseSurfBlockTokens value = surfBlockToken ''pr-1'' ''17'' # kept
    \<and> set kept \<subseteq> set (parseSurfBlockTokens ''AAAA'') \<and> distinct (surfBlockToken ''pr-1'' ''17'' # kept)
    \<and> length (surfBlockToken ''pr-1'' ''17'' # kept) \<le> maxSurfBlockTokens
    \<and> blocks_contains (fst (collectSurfBlocks Some (\<lambda>_ s. (None, s)) value [] ())) ''pr-1'' ''17''"
proof (rule SetSurfBlocked_roundtrip)
  have "3 * length (surfBlockToken ''pr-1'' ''17'') \<le> 4 * length (''pr-1'' @ [CHR 0x00] @ ''17'') + 2"
    unfolding surfBlockToken_def by (rule length_base64_encode)
  then show "length (surfBlockToken ''pr-1'' ''17'') \<le> maxHeaderDictionaryValue"
    by (simp add: maxHeaderDictionaryValue_def)
qed

text \<open>Tokens name updates exactly: two tokens are equal only for the same branch and update (branch
  names hold no NUL byte), every token is non-empty base64url and so is never split at a comma, and a
  branch name and update id of up to 150 bytes together always give a token within the member bound.\<close>

lemma surfBlockToken_exact:
  assumes "CHR 0x00 \<notin> set b" and "CHR 0x00 \<notin> set b'"
  shows "(surfBlockToken b u = surfBlockToken b' u' \<longleftrightarrow> b = b' \<and> u = u')
    \<and> isBase64URL (surfBlockToken b u) \<and> surfBlockToken b u \<noteq> []
    \<and> (if length b + length u \<le> 150 then length (surfBlockToken b u) \<le> maxHeaderDictionaryValue else True)"
  using surfBlockToken_inj [OF assms] surfBlockToken_base64 length_base64_encode [of "b @ [CHR 0x00] @ u"]
  by (simp add: surfBlockToken_def maxHeaderDictionaryValue_def)

text \<open>Whatever the client sends, \<^verbatim>\<open>ParseFailedUpdateIDs\<close> yields at most five identifiers, all
  distinct and all in the parser's canonical form, and \<^verbatim>\<open>parseSurfBlockTokens\<close> at most five tokens,
  each non-empty and base64url.\<close>

lemma client_lists_bounded:
  "length (ParseFailedUpdateIDs uuid_parse raw) \<le> 5 \<and> distinct (ParseFailedUpdateIDs uuid_parse raw)
    \<and> list_all (\<lambda>i. \<exists>s. uuid_parse s = Some i) (ParseFailedUpdateIDs uuid_parse raw)
    \<and> length (parseSurfBlockTokens raw') \<le> 5
    \<and> list_all (\<lambda>t. isBase64URL t \<and> t \<noteq> []) (parseSurfBlockTokens raw')"
  using failed_ids_loop_spec [of "[]" uuid_parse] surf_tokens_loop_bound [of "[]"] parse_base64
  by (auto simp: ParseFailedUpdateIDs_def Let_def maxFailedUpdateIDs_def maxSurfBlockTokens_def list_all_iff
      parseSurfBlockTokens_def)

end
