(* ===== verification/Domain.thy ===== *)
theory Domain
  imports Prelude
begin

text \<open>
  The values the control plane passes between its layers: the structures of
  \<^verbatim>\<open>internal/types/types.go\<close> and the errors of \<^verbatim>\<open>internal/repository/errors.go\<close> and
  \<^verbatim>\<open>internal/services\<close>.  A nil pointer is \<^const>\<open>None\<close>.  Instants are integers, nanoseconds since
  the epoch in \<^verbatim>\<open>Update.CreatedAt\<close> and database time elsewhere; where the Go code renders an instant
  as RFC 3339 text for a JSON answer the model keeps the instant.
\<close>

section \<open>Platforms and update types\<close>

definition PlatformIOS :: string where "PlatformIOS = ''ios''"
definition PlatformAndroid :: string where "PlatformAndroid = ''android''"

definition ParsePlatform :: "string \<Rightarrow> string option" where
  "ParsePlatform raw = (if raw = PlatformIOS \<or> raw = PlatformAndroid then Some raw else None)"

definition NormalUpdate :: int where "NormalUpdate = 0"
definition Rollback :: int where "Rollback = 1"

section \<open>Structures\<close>

record ShapedAsset =
  SaHash :: string
  SaKey :: string
  SaFileExtension :: string
  SaContentType :: string

record ConfigFile =
  CfPath :: string
  CfHash :: string

record UpdateAssetMapping =
  LaunchAsset :: ShapedAsset
  Assets :: "ShapedAsset list"
  ConfigFiles :: "ConfigFile list"

record Update =
  AppId :: string
  Branch :: string
  RuntimeVersion :: string
  UpdateId :: string
  CreatedAt :: int
  UpdateUUID :: string

record UpdateWithRollout =
  Latest :: Update
  RolloutPercentage :: "int option"
  Control :: "Update option"

record UpdateStoredMetadata =
  MdPlatform :: string
  MdCommitHash :: string
  MdUpdateUUID :: string
  MdMessage :: string

record PublishGroupMember =
  PgmUpdateId :: string
  PgmPlatform :: string
  PgmCommitHash :: string

record UpdateRef =
  RefID :: int
  RefRuntimeVersion :: string

record ChannelRolloutInfo =
  RolloutID :: string
  RolloutBranch :: string
  RolloutShare :: int

record ChannelResolution =
  MappingId :: string
  BranchName :: string
  Rollout :: "ChannelRolloutInfo option"

record ChannelRollout =
  CrID :: string
  CrChannelName :: string
  CrDefaultBranchName :: string
  CrRolloutBranchName :: string
  CrPercentage :: int
  CrCreatedAt :: int
  CrUpdatedAt :: int

record RolloutUpdate =
  RuUpdateId :: string
  RuPlatform :: string
  RuPercentage :: int
  RuControlUpdateId :: "string option"
  RuCreatedAt :: int

record BranchSurfing =
  Enabled :: bool
  Pattern :: string

record SurfableBranch =
  SbName :: string
  SbLastUpdateAt :: int

record SurfableBranchList =
  SbBranches :: "SurfableBranch list"
  SbTotal :: nat

record BranchUpdateState =
  BsRuntimeVersion :: string
  BsCommitHash :: string
  BsCreatedAt :: int
  BsRolloutPercentage :: "int option"

record ChannelMapping =
  ReleaseChannelName :: string
  ReleaseChannelId :: string
  CmBranchName :: "string option"
  CmBranchId :: "string option"
  CmCreatedAt :: "int option"
  CmBranchCurrentUpdate :: "BranchUpdateState option"
  CmRolloutBranchCurrentUpdate :: "BranchUpdateState option"
  CmRollout :: "ChannelRollout option"
  CmBranchSurfing :: "BranchSurfing option"

record BranchMapping =
  BmBranchName :: string
  BmBranchId :: "string option"
  BmReleaseChannel :: "string option"
  BmCreatedAt :: "int option"
  BmProtected :: bool
  BmCurrentUpdate :: "BranchUpdateState option"

section \<open>Errors\<close>

text \<open>A Go error text is a format string with its arguments; the formatting itself is not modelled.\<close>

datatype message = Msg string "string list"

datatype db_error =
    UniqueViolation
  | ForeignKeyViolation
  | CheckViolation
  | NotNullViolation
  | NoRows

datatype err =
    DbError db_error
  | ErrorText message
  | Wrapped message err
  | Wrapped2 message err err
  | ValidationError string message
  | ErrResourceAlreadyExists string "string list"
  | ErrResourceNotFound string "string list"
  | ErrBranchHasActiveChannels string "string list"
  | ErrBranchInActiveRollout string "string list"
  | ErrBranchProtected string
  | ErrChannelHasActiveRollout string
  | ErrPublishBlockedByActiveRollout
  | ErrRolloutSupersededByNewerUpdate
  | ErrRolloutsRequireControlPlane
  | RolloutRequestError nat message
  | RepublishError nat message
  | ExpoProtocolError nat message
  | ExpoAssetError nat message
  | ErrInvalidUpdate
  | ErrInvalidExpoConfig
  | ErrExpoConfigUnreadable
  | ErrSourcemapVerificationUnavailable
  | ErrNoChangesDetected
  | ErrActiveRolloutBlocksPublish
  | ErrRolloutSuperseded
  | ErrPublishGroupNotFound
  | ErrLaunchAssetRequired
  | ErrUpdateMetadataMissing
  | ErrBlobHashMismatch
  | ErrInvalidStorageMode
  | ErrTokenAppMismatch
  | ErrUploadFailed
  | ErrUploadHashMismatch
  | NilDereference

text \<open>What \<^verbatim>\<open>errors.Is\<close> and \<^verbatim>\<open>errors.As\<close> look at: the chain of wrapped errors.\<close>

fun chain :: "err \<Rightarrow> err list" where
  "chain (Wrapped m e) = Wrapped m e # chain e"
| "chain (Wrapped2 m e f) = Wrapped2 m e f # chain e @ chain f"
| "chain e = [e]"

definition errors_Is :: "err \<Rightarrow> err \<Rightarrow> bool" where
  "errors_Is e target \<longleftrightarrow> target \<in> set (chain e)"

definition IsNoRows :: "err \<Rightarrow> bool" where
  "IsNoRows e \<longleftrightarrow> errors_Is e (DbError NoRows)"

definition IsUniqueViolation :: "err \<Rightarrow> bool" where
  "IsUniqueViolation e \<longleftrightarrow> errors_Is e (DbError UniqueViolation)"

definition IsForeignKeyViolation :: "err \<Rightarrow> bool" where
  "IsForeignKeyViolation e \<longleftrightarrow> errors_Is e (DbError ForeignKeyViolation)"

lemmas error_tests = IsNoRows_def IsUniqueViolation_def IsForeignKeyViolation_def errors_Is_def

end
