(* ===== verification/BranchRules.thy ===== *)
theory BranchRules
  imports Domain BranchPattern Rollout
begin

text \<open>
  The ordered branch-resolution chain of \<^verbatim>\<open>internal/services/branch_rules.go\<close>: which branches a device
  may be served from, in priority order.  A \<^verbatim>\<open>BranchRule\<close> is its \<^verbatim>\<open>Evaluate\<close> method, a function from
  the request to candidates, a match flag and an error.  SHA-256 is the parameter of the rollout rule.
\<close>

section \<open>Rules\<close>

record BranchResolutionRequest =
  ReqAppID :: string
  ReqChannelName :: string
  ReqClientID :: string
  ReqPlatform :: string
  ReqRuntimeVersion :: string
  ReqMapping :: ChannelResolution
  RequestedBranch :: string
  Surfing :: BranchSurfing

type_synonym BranchRule = "BranchResolutionRequest \<Rightarrow> (err, string list \<times> bool) result"

definition HonoursSurf :: "BranchResolutionRequest \<Rightarrow> bool" where
  "HonoursSurf req \<longleftrightarrow> RequestedBranch req \<noteq> [] \<and> Enabled (Surfing req)
     \<and> RequestedBranch req \<noteq> BranchName (ReqMapping req)
     \<and> MatchPattern (Pattern (Surfing req)) (RequestedBranch req)"

definition branchSurfRule :: BranchRule where
  "branchSurfRule req =
     (if \<not> HonoursSurf req then Inr ([], False)
      else Inr ([RequestedBranch req, BranchName (ReqMapping req)], True))"

definition channelRolloutPercentRule :: "(string \<Rightarrow> string) \<Rightarrow> BranchRule" where
  "channelRolloutPercentRule sha256 req =
     (case Rollout (ReqMapping req) of
        None \<Rightarrow> Inr ([], False)
      | Some r \<Rightarrow>
          if InBucket sha256 (ReqClientID req) (RolloutID r) (RolloutShare r)
          then Inr ([RolloutBranch r, BranchName (ReqMapping req)], True)
          else Inr ([BranchName (ReqMapping req)], True))"

definition defaultBranchRule :: BranchRule where
  "defaultBranchRule req = Inr ([BranchName (ReqMapping req)], True)"

definition DefaultBranchRules :: "(string \<Rightarrow> string) \<Rightarrow> BranchRule list" where
  "DefaultBranchRules sha256 = [branchSurfRule, channelRolloutPercentRule sha256, defaultBranchRule]"

fun ResolveBranchCandidates :: "BranchRule list \<Rightarrow> BranchResolutionRequest \<Rightarrow> (err, string list) result" where
  "ResolveBranchCandidates [] req = Inr [BranchName (ReqMapping req)]"
| "ResolveBranchCandidates (rule # rules) req =
     (case rule req of
        Inl e \<Rightarrow> Inl e
      | Inr (candidates, matched) \<Rightarrow>
          if matched then Inr candidates else ResolveBranchCandidates rules req)"

lemmas [ops] = branchSurfRule_def channelRolloutPercentRule_def defaultBranchRule_def DefaultBranchRules_def

section \<open>Laws\<close>

text \<open>Rules put ahead of the chain take precedence, and the chain after them is untouched when they
  all decline.\<close>

lemma ResolveBranchCandidates_append:
  "ResolveBranchCandidates (front @ rules) req =
     (case find (\<lambda>r. r req \<noteq> Inr (fst (projr (r req)), False)) front of
        None \<Rightarrow> ResolveBranchCandidates rules req
      | Some r \<Rightarrow> (case r req of Inl e \<Rightarrow> Inl e | Inr (candidates, _) \<Rightarrow> Inr candidates))"
proof (induction front)
  case (Cons r front)
  show ?case
  proof (cases "r req")
    case (Inr x)
    then show ?thesis
      using Cons by (cases x) simp
  qed simp
qed simp

text \<open>The decision of the default chain, in one equation.\<close>

lemma default_candidates:
  "ResolveBranchCandidates (DefaultBranchRules sha256) req = Inr
     (if HonoursSurf req then [RequestedBranch req, BranchName (ReqMapping req)]
      else case Rollout (ReqMapping req) of
          None \<Rightarrow> [BranchName (ReqMapping req)]
        | Some r \<Rightarrow>
            if InBucket sha256 (ReqClientID req) (RolloutID r) (RolloutShare r)
            then [RolloutBranch r, BranchName (ReqMapping req)] else [BranchName (ReqMapping req)])"
  by (simp add: ops split: option.splits)

text \<open>Which branches a channel may serve at all: its mapped branch, its rollout branch, and with
  surfing on the branches of the pattern.\<close>

definition channel_serves :: "ChannelResolution \<Rightarrow> BranchSurfing \<Rightarrow> string \<Rightarrow> bool" where
  "channel_serves m s b \<longleftrightarrow> b = BranchName m \<or> (\<exists>r. Rollout m = Some r \<and> b = RolloutBranch r)
     \<or> (Enabled s \<and> MatchPattern (Pattern s) b)"

lemma candidates_served:
  assumes "ResolveBranchCandidates (DefaultBranchRules sha256) req = Inr bs" and "b \<in> set bs"
  shows "channel_serves (ReqMapping req) (Surfing req) b"
  using assms unfolding default_candidates
  by (auto simp: channel_serves_def HonoursSurf_def split: if_splits option.splits)

section \<open>Properties\<close>

text \<open>C26. The default rule chain always answers, with the mapped branch last in the list so that no
  device is stranded, with at most one branch ahead of it, and only with branches the channel serves:
  the surfed branch when the channel allows it, else the rollout branch for a device of the rollout
  cohort.  A device that asks for the mapped branch, or for a branch the pattern does not cover, is
  answered exactly as if it had asked for nothing.\<close>

theorem branch_candidates_correct:
  "\<exists>front. ResolveBranchCandidates (DefaultBranchRules sha256) req = Inr (front @ [BranchName (ReqMapping req)])
     \<and> length front \<le> 1
     \<and> list_all (channel_serves (ReqMapping req) (Surfing req)) front
     \<and> (if HonoursSurf req then front = [RequestedBranch req]
        else ResolveBranchCandidates (DefaultBranchRules sha256) (req\<lparr>RequestedBranch := []\<rparr>)
          = Inr (front @ [BranchName (ReqMapping req)]))"
  by (auto simp: default_candidates channel_serves_def HonoursSurf_def split: option.splits)

text \<open>Raising the share of a channel rollout only moves devices onto the rollout branch: for a
  device that is not surfing, the candidates at a larger percentage are those at the smaller one, or
  those with the rollout branch put in front.\<close>

lemma channel_rollout_only_adds:
  assumes "Rollout (ReqMapping req) = Some r" and "RolloutShare r \<le> p"
  shows "\<exists>before after.
      ResolveBranchCandidates (DefaultBranchRules sha256) req = Inr before
    \<and> ResolveBranchCandidates (DefaultBranchRules sha256)
        (req\<lparr>ReqMapping := ReqMapping req\<lparr>Rollout := Some (r\<lparr>RolloutShare := p\<rparr>)\<rparr>\<rparr>) = Inr after
    \<and> (after = before \<or> after = RolloutBranch r # before)"
  using assms InBucket_mono [OF _ assms(2)]
  by (auto simp: default_candidates HonoursSurf_def)

end
