(* ===== verification/Database.thy ===== *)
theory Database
  imports Domain "HOL-Library.Product_Lexorder" "HOL-Library.List_Lexorder" "HOL-Library.Char_ord"
begin

text \<open>
  The control-plane database: the tables of the migrations that the delivery path uses, their
  constraints, and the statements of \<^verbatim>\<open>internal/database/postgres/pgdb/queries.sql.go\<close> on them.

  A table is the list of its rows.  A statement reads and writes the whole database atomically; a
  write is kept only when the resulting tables satisfy every constraint of the schema, otherwise the
  statement fails with the violation and changes nothing.  A malformed identifier reaches a statement
  as SQL \<^verbatim>\<open>NULL\<close>, the value \<^const>\<open>None\<close>, which equals no column.  \<^verbatim>\<open>CURRENT_TIMESTAMP\<close> is the
  field \<^verbatim>\<open>db_now\<close>.  Column length limits and connection failures are not modelled.
\<close>

section \<open>Tables\<close>

record branch_row =
  b_id :: int
  b_app :: string
  b_name :: string
  b_created :: int
  b_protected :: bool

record channel_row =
  c_id :: int
  c_app :: string
  c_branch :: "int option"
  c_name :: string
  c_created :: int
  c_surf_enabled :: bool
  c_surf_pattern :: string

record runtime_row =
  v_id :: int
  v_app :: string
  v_version :: string
  v_created :: int
  v_updated :: int

record update_row =
  u_id :: int
  u_uuid :: "string option"
  u_branch :: int
  u_runtime :: int
  u_type :: int
  u_commit :: string
  u_message :: "string option"
  u_platform :: string
  u_created :: int
  u_checked :: "int option"
  u_rollout :: "int option"
  u_control :: "int option"
  u_group :: "string option"
  u_mapping :: "UpdateAssetMapping option"
  u_sourcemap :: "string option"

record rollout_row =
  r_id :: string
  r_channel :: int
  r_branch :: int
  r_percentage :: int
  r_created :: int
  r_updated :: int

record db =
  apps :: "string list"
  branches :: "branch_row list"
  channels :: "channel_row list"
  runtimes :: "runtime_row list"
  updates :: "update_row list"
  rollouts :: "rollout_row list"
  next_id :: int
  db_now :: int

section \<open>The schema\<close>

text \<open>An active rollout is a checked row that carries a percentage.\<close>

definition active :: "update_row \<Rightarrow> bool" where
  "active u \<longleftrightarrow> u_rollout u \<noteq> None \<and> u_checked u \<noteq> None"

definition target_key :: "update_row \<Rightarrow> int \<times> int \<times> string" where
  "target_key u = (u_branch u, u_runtime u, u_platform u)"

definition percentage_ok :: "int \<Rightarrow> bool" where
  "percentage_ok p \<longleftrightarrow> 1 \<le> p \<and> p \<le> 99"

definition checks_ok :: "db \<Rightarrow> bool" where
  "checks_ok d \<longleftrightarrow> list_all (\<lambda>r. percentage_ok (r_percentage r)) (rollouts d)
     \<and> list_all (\<lambda>u. pred_option percentage_ok (u_rollout u)) (updates d)"

definition uniques_ok :: "db \<Rightarrow> bool" where
  "uniques_ok d \<longleftrightarrow> distinct (map b_id (branches d)) \<and> distinct (map (\<lambda>b. (b_app b, b_name b)) (branches d))
     \<and> distinct (map c_id (channels d)) \<and> distinct (map (\<lambda>c. (c_app c, c_name c)) (channels d))
     \<and> distinct (map v_id (runtimes d)) \<and> distinct (map (\<lambda>v. (v_app v, v_version v)) (runtimes d))
     \<and> distinct (map (\<lambda>u. (u_branch u, u_id u)) (updates d))
     \<and> distinct (List.map_filter u_uuid (updates d))
     \<and> distinct (map target_key (filter active (updates d)))
     \<and> distinct (map r_id (rollouts d)) \<and> distinct (map r_channel (rollouts d))"

definition refs_ok :: "db \<Rightarrow> bool" where
  "refs_ok d \<longleftrightarrow> list_all (\<lambda>b. b_app b \<in> set (apps d)) (branches d)
     \<and> list_all (\<lambda>c. c_app c \<in> set (apps d) \<and> pred_option (\<lambda>i. i \<in> b_id ` set (branches d)) (c_branch c)) (channels d)
     \<and> list_all (\<lambda>v. v_app v \<in> set (apps d)) (runtimes d)
     \<and> list_all (\<lambda>u. u_branch u \<in> b_id ` set (branches d) \<and> u_runtime u \<in> v_id ` set (runtimes d)
          \<and> pred_option (\<lambda>i. (u_branch u, i) \<in> (\<lambda>u. (u_branch u, u_id u)) ` set (updates d)) (u_control u)) (updates d)
     \<and> list_all (\<lambda>r. r_channel r \<in> c_id ` set (channels d) \<and> r_branch r \<in> b_id ` set (branches d)) (rollouts d)"

definition schema_ok :: "db \<Rightarrow> bool" where
  "schema_ok d \<longleftrightarrow> checks_ok d \<and> uniques_ok d \<and> refs_ok d"

definition schema_error :: "db \<Rightarrow> db_error" where
  "schema_error d =
     (if \<not> checks_ok d then CheckViolation
      else if \<not> uniques_ok d then UniqueViolation
      else ForeignKeyViolation)"

type_synonym 'a stmt = "(db, db_error, 'a) proc"

definition run_write :: "(db \<Rightarrow> db \<times> 'a) \<Rightarrow> 'a stmt" where
  "run_write f d = (case f d of (d', x) \<Rightarrow>
     if schema_ok d' then (Inr x, d') else (Inl (schema_error d'), d))"

definition read_one :: "(db \<Rightarrow> 'a option) \<Rightarrow> 'a stmt" where
  "read_one f d = (case f d of None \<Rightarrow> (Inl NoRows, d) | Some x \<Rightarrow> (Inr x, d))"

text \<open>\<^verbatim>\<open>Engine.WithTx\<close>: the writes of a failed transaction are rolled back.\<close>

definition WithTx :: "(db, 'e, 'a) proc \<Rightarrow> (db, 'e, 'a) proc" where
  "WithTx m d = (case m d of (Inl e, _) \<Rightarrow> (Inl e, d) | (Inr x, d') \<Rightarrow> (Inr x, d'))"

section \<open>Lookups and joins\<close>

definition branch_named :: "db \<Rightarrow> string option \<Rightarrow> string \<Rightarrow> branch_row option" where
  "branch_named d app name = find (\<lambda>b. Some (b_app b) = app \<and> b_name b = name) (branches d)"

definition runtime_named :: "db \<Rightarrow> string option \<Rightarrow> string \<Rightarrow> runtime_row option" where
  "runtime_named d app version = find (\<lambda>v. Some (v_app v) = app \<and> v_version v = version) (runtimes d)"

definition channel_named :: "db \<Rightarrow> string option \<Rightarrow> string \<Rightarrow> channel_row option" where
  "channel_named d app name = find (\<lambda>c. Some (c_app c) = app \<and> c_name c = name) (channels d)"

definition branch_by_id :: "db \<Rightarrow> int \<Rightarrow> branch_row option" where
  "branch_by_id d i = find (\<lambda>b. b_id b = i) (branches d)"

definition runtime_by_id :: "db \<Rightarrow> int \<Rightarrow> runtime_row option" where
  "runtime_by_id d i = find (\<lambda>v. v_id v = i) (runtimes d)"

definition rollout_of :: "db \<Rightarrow> int \<Rightarrow> rollout_row option" where
  "rollout_of d channel = find (\<lambda>r. r_channel r = channel) (rollouts d)"

text \<open>The joins of an update row with its branch and with its runtime version.\<close>

definition on_branch :: "db \<Rightarrow> string option \<Rightarrow> string \<Rightarrow> update_row \<Rightarrow> bool" where
  "on_branch d app name u \<longleftrightarrow>
     list_ex (\<lambda>b. b_id b = u_branch u \<and> Some (b_app b) = app \<and> b_name b = name) (branches d)"

definition on_runtime :: "db \<Rightarrow> string \<Rightarrow> update_row \<Rightarrow> bool" where
  "on_runtime d version u \<longleftrightarrow> list_ex (\<lambda>v. v_id v = u_runtime u \<and> v_version v = version) (runtimes d)"

text \<open>\<^verbatim>\<open>ORDER BY id DESC LIMIT 1\<close>.\<close>

fun newest :: "update_row list \<Rightarrow> update_row option" where
  "newest [] = None"
| "newest (u # us) = (case newest us of None \<Rightarrow> Some u | Some v \<Rightarrow> Some (if u_id u < u_id v then v else u))"

definition serving :: "db \<Rightarrow> string option \<Rightarrow> string \<Rightarrow> string \<Rightarrow> string \<Rightarrow> update_row \<Rightarrow> bool" where
  "serving d app name version platform u \<longleftrightarrow> on_branch d app name u \<and> on_runtime d version u
     \<and> u_platform u = platform \<and> u_checked u \<noteq> None"

definition set_updates :: "(update_row \<Rightarrow> bool) \<Rightarrow> (update_row \<Rightarrow> update_row) \<Rightarrow> db \<Rightarrow> db \<times> int" where
  "set_updates P f d = (d\<lparr>updates := map (\<lambda>u. if P u then f u else u) (updates d)\<rparr>,
     int (length (filter P (updates d))))"

section \<open>Branches, channels and runtime versions\<close>

definition insertBranch :: "string option \<Rightarrow> string \<Rightarrow> int stmt" where
  "insertBranch app name = (case app of None \<Rightarrow> throw NotNullViolation
     | Some a \<Rightarrow> run_write (\<lambda>d. (d\<lparr>branches := branches d @
         [\<lparr>b_id = next_id d, b_app = a, b_name = name, b_created = db_now d, b_protected = False\<rparr>],
         next_id := next_id d + 1\<rparr>, next_id d)))"

definition getBranchByName :: "string \<Rightarrow> string option \<Rightarrow> int stmt" where
  "getBranchByName name app = read_one (\<lambda>d. map_option b_id (branch_named d app name))"

definition deleteBranchByName :: "string \<Rightarrow> string option \<Rightarrow> int stmt" where
  "deleteBranchByName name app = run_write (\<lambda>d.
     let gone = (\<lambda>b. b_name b = name \<and> Some (b_app b) = app \<and> \<not> b_protected b);
         ids = b_id ` set (filter gone (branches d))
     in (d\<lparr>branches := filter (\<lambda>b. \<not> gone b) (branches d),
           updates := filter (\<lambda>u. u_branch u \<notin> ids) (updates d)\<rparr>,
         int (length (filter gone (branches d)))))"

text \<open>Deleting an app removes everything it owns: the foreign keys of branches, channels and runtime versions to the
  app cascade, and so do those of updates to their branch and of rollouts to their channel.\<close>

definition deleteAppByID :: "string option \<Rightarrow> int stmt" where
  "deleteAppByID app = run_write (\<lambda>d.
     let branch_ids = b_id ` set (filter (\<lambda>b. Some (b_app b) = app) (branches d));
         channel_ids = c_id ` set (filter (\<lambda>c. Some (c_app c) = app) (channels d))
     in (d\<lparr>apps := filter (\<lambda>a. Some a \<noteq> app) (apps d),
           branches := filter (\<lambda>b. Some (b_app b) \<noteq> app) (branches d),
           channels := filter (\<lambda>c. Some (c_app c) \<noteq> app) (channels d),
           runtimes := filter (\<lambda>v. Some (v_app v) \<noteq> app) (runtimes d),
           updates := filter (\<lambda>u. u_branch u \<notin> branch_ids) (updates d),
           rollouts := filter (\<lambda>r. r_channel r \<notin> channel_ids) (rollouts d)\<rparr>,
         int (length (filter (\<lambda>a. Some a = app) (apps d)))))"

definition isBranchProtected :: "string option \<Rightarrow> string \<Rightarrow> bool stmt" where
  "isBranchProtected app name = read_one (\<lambda>d. map_option b_protected (branch_named d app name))"

definition setBranchProtected :: "bool \<Rightarrow> string option \<Rightarrow> string \<Rightarrow> int stmt" where
  "setBranchProtected p app name = run_write (\<lambda>d.
     let hit = (\<lambda>b. Some (b_app b) = app \<and> b_name b = name)
     in (d\<lparr>branches := map (\<lambda>b. if hit b then b\<lparr>b_protected := p\<rparr> else b) (branches d)\<rparr>,
         int (length (filter hit (branches d)))))"

definition insertChannel :: "string option \<Rightarrow> int option \<Rightarrow> string \<Rightarrow> int stmt" where
  "insertChannel app branch name = (case app of None \<Rightarrow> throw NotNullViolation
     | Some a \<Rightarrow> run_write (\<lambda>d. (d\<lparr>channels := channels d @
         [\<lparr>c_id = next_id d, c_app = a, c_branch = branch, c_name = name, c_created = db_now d,
           c_surf_enabled = False, c_surf_pattern = []\<rparr>],
         next_id := next_id d + 1\<rparr>, next_id d)))"

definition deleteChannelByName :: "string \<Rightarrow> string option \<Rightarrow> int stmt" where
  "deleteChannelByName name app = run_write (\<lambda>d.
     let gone = (\<lambda>c. c_name c = name \<and> Some (c_app c) = app);
         ids = c_id ` set (filter gone (channels d))
     in (d\<lparr>channels := filter (\<lambda>c. \<not> gone c) (channels d),
           rollouts := filter (\<lambda>r. r_channel r \<notin> ids) (rollouts d)\<rparr>,
         int (length (filter gone (channels d)))))"

definition getChannelNamesByBranchName :: "string \<Rightarrow> string option \<Rightarrow> string list stmt" where
  "getChannelNamesByBranchName name app = gets (\<lambda>d.
     map c_name (sort_key c_created (filter (\<lambda>c. list_ex (\<lambda>b. c_branch c = Some (b_id b) \<and> b_app b = c_app c
       \<and> b_name b = name \<and> Some (b_app b) = app) (branches d)) (channels d))))"

definition getChannelBranchSurfing :: "string option \<Rightarrow> string \<Rightarrow> (bool \<times> string) stmt" where
  "getChannelBranchSurfing app name = read_one (\<lambda>d.
     map_option (\<lambda>c. (c_surf_enabled c, c_surf_pattern c)) (channel_named d app name))"

definition updateChannelBranchSurfing :: "string option \<Rightarrow> string \<Rightarrow> bool \<Rightarrow> string \<Rightarrow> int stmt" where
  "updateChannelBranchSurfing app name enabled pattern = run_write (\<lambda>d.
     let hit = (\<lambda>c. Some (c_app c) = app \<and> c_name c = name)
     in (d\<lparr>channels := map (\<lambda>c. if hit c then c\<lparr>c_surf_enabled := enabled, c_surf_pattern := pattern\<rparr> else c) (channels d)\<rparr>,
         int (length (filter hit (channels d)))))"

definition updateChannelBranchMapping :: "int \<Rightarrow> string option \<Rightarrow> int \<Rightarrow> int stmt" where
  "updateChannelBranchMapping branch app channel = run_write (\<lambda>d.
     let hit = (\<lambda>c. Some (c_app c) = app \<and> c_id c = channel
           \<and> list_ex (\<lambda>b. b_id b = branch \<and> Some (b_app b) = app) (branches d)
           \<and> rollout_of d (c_id c) = None)
     in (d\<lparr>channels := map (\<lambda>c. if hit c then c\<lparr>c_branch := Some branch\<rparr> else c) (channels d)\<rparr>,
         int (length (filter hit (channels d)))))"

definition insertRuntimeVersion :: "string option \<Rightarrow> string \<Rightarrow> int stmt" where
  "insertRuntimeVersion app version = (case app of None \<Rightarrow> throw NotNullViolation
     | Some a \<Rightarrow> run_write (\<lambda>d. (d\<lparr>runtimes := runtimes d @
         [\<lparr>v_id = next_id d, v_app = a, v_version = version, v_created = db_now d, v_updated = db_now d\<rparr>],
         next_id := next_id d + 1\<rparr>, next_id d)))"

definition getUpdatesMetadataByBranchName :: "string \<Rightarrow> string option \<Rightarrow> (int \<times> string) list stmt" where
  "getUpdatesMetadataByBranchName name app = gets (\<lambda>d.
     [(u_id u, v_version v). u \<leftarrow> updates d, on_branch d app name u, v \<leftarrow> runtimes d, v_id v = u_runtime u])"

definition getSurfableBranches :: "string option \<Rightarrow> string \<Rightarrow> string \<Rightarrow> (string \<times> int) list stmt" where
  "getSurfableBranches app version platform = gets (\<lambda>d.
     let rows = (\<lambda>b. filter (\<lambda>u. u_branch u = b_id b \<and> u_checked u \<noteq> None \<and> u_platform u = platform
           \<and> list_ex (\<lambda>v. v_id v = u_runtime u \<and> Some (v_app v) = app \<and> v_version v = version) (runtimes d)) (updates d));
         groups = filter (\<lambda>b. Some (b_app b) = app \<and> rows b \<noteq> []) (branches d)
     in sort_key (\<lambda>(name, t). (- t, name)) (map (\<lambda>b. (b_name b, Max (u_created ` set (rows b)))) groups))"

text \<open>\<^verbatim>\<open>SELECT DISTINCT ON\<close> with its \<^verbatim>\<open>ORDER BY ... DESC\<close>: the row of a group with the greatest key.\<close>

fun best_by :: "('a \<Rightarrow> 'k :: linorder) \<Rightarrow> 'a list \<Rightarrow> 'a option" where
  "best_by key [] = None"
| "best_by key (x # xs) = (case best_by key xs of None \<Rightarrow> Some x | Some y \<Rightarrow> Some (if key x < key y then y else x))"

text \<open>The common table expressions \<^verbatim>\<open>latest_runtime\<close> and \<^verbatim>\<open>current_updates\<close> of one branch: the newest
  runtime version with a checked update, and on it the rollout, or else the newest checked update.\<close>

definition latest_runtime :: "db \<Rightarrow> int \<Rightarrow> runtime_row option" where
  "latest_runtime d branch = best_by (\<lambda>v. (v_created v, v_id v))
     (filter (\<lambda>v. list_ex (\<lambda>u. u_branch u = branch \<and> u_runtime u = v_id v \<and> u_checked u \<noteq> None) (updates d)) (runtimes d))"

definition current_update :: "db \<Rightarrow> int \<Rightarrow> (string \<times> update_row) option" where
  "current_update d branch = (case latest_runtime d branch of None \<Rightarrow> None | Some v \<Rightarrow>
     map_option (Pair (v_version v)) (best_by (\<lambda>u. (u_rollout u \<noteq> None, u_created u, u_id u))
       (filter (\<lambda>u. u_branch u = branch \<and> u_runtime u = v_id v \<and> u_checked u \<noteq> None) (updates d))))"

record channel_list_row =
  l_channel :: channel_row
  l_branch_name :: "string option"
  l_rollout :: "(rollout_row \<times> string) option"
  l_branch_current :: "(string \<times> update_row) option"
  l_rollout_current :: "(string \<times> update_row) option"

definition getChannelsByAppID :: "string option \<Rightarrow> channel_list_row list stmt" where
  "getChannelsByAppID app = gets (\<lambda>d. map (\<lambda>c.
     \<lparr>l_channel = c,
      l_branch_name = Option.bind (c_branch c) (\<lambda>i. map_option b_name
        (find (\<lambda>b. b_id b = i \<and> b_app b = c_app c) (branches d))),
      l_rollout = Option.bind (rollout_of d (c_id c)) (\<lambda>r.
        map_option (\<lambda>rb. (r, b_name rb)) (branch_by_id d (r_branch r))),
      l_branch_current = Option.bind (c_branch c) (current_update d),
      l_rollout_current = Option.bind (rollout_of d (c_id c)) (\<lambda>r. current_update d (r_branch r))\<rparr>)
     (sort_key c_created (filter (\<lambda>c. Some (c_app c) = app) (channels d))))"

record branch_list_row =
  k_branch :: branch_row
  k_channel_name :: "string option"
  k_current :: "(string \<times> update_row) option"

definition getBranchesByAppID :: "string option \<Rightarrow> branch_list_row list stmt" where
  "getBranchesByAppID app = gets (\<lambda>d. map (\<lambda>b.
     \<lparr>k_branch = b,
      k_channel_name = map_option c_name (best_by (\<lambda>c. - c_created c)
        (filter (\<lambda>c. c_branch c = Some (b_id b) \<and> c_app c = b_app b) (channels d))),
      k_current = current_update d (b_id b)\<rparr>)
     (sort_key b_id (filter (\<lambda>b. Some (b_app b) = app) (branches d))))"

section \<open>Channel rollouts\<close>

record mapping_row =
  m_channel :: int
  m_branch :: string
  m_rollout :: "(string \<times> string \<times> int) option"

definition getChannelBranchMapping :: "string option \<Rightarrow> string \<Rightarrow> mapping_row stmt" where
  "getChannelBranchMapping app name = read_one (\<lambda>d.
     case channel_named d app name of None \<Rightarrow> None | Some c \<Rightarrow>
     (case c_branch c of None \<Rightarrow> None | Some i \<Rightarrow>
     (case branch_by_id d i of None \<Rightarrow> None | Some b \<Rightarrow>
       if b_app b \<noteq> c_app c then None
       else Some \<lparr>m_channel = c_id c, m_branch = b_name b,
         m_rollout = (case rollout_of d (c_id c) of None \<Rightarrow> None | Some r \<Rightarrow>
           map_option (\<lambda>rb. (r_id r, b_name rb, r_percentage r)) (branch_by_id d (r_branch r)))\<rparr>)))"

record channel_rollout_row =
  q_id :: string
  q_channel :: int
  q_channel_name :: string
  q_default_branch :: string
  q_rollout_branch :: string
  q_percentage :: int
  q_created :: int
  q_updated :: int

definition getChannelRollout :: "string option \<Rightarrow> string \<Rightarrow> channel_rollout_row stmt" where
  "getChannelRollout app name = read_one (\<lambda>d.
     case channel_named d app name of None \<Rightarrow> None | Some c \<Rightarrow>
     (case rollout_of d (c_id c) of None \<Rightarrow> None | Some r \<Rightarrow>
     (case Option.bind (c_branch c) (branch_by_id d) of None \<Rightarrow> None | Some db \<Rightarrow>
     (case branch_by_id d (r_branch r) of None \<Rightarrow> None | Some rb \<Rightarrow>
       Some \<lparr>q_id = r_id r, q_channel = r_channel r, q_channel_name = c_name c, q_default_branch = b_name db,
         q_rollout_branch = b_name rb, q_percentage = r_percentage r, q_created = r_created r, q_updated = r_updated r\<rparr>))))"

definition getChannelRolloutsByBranch :: "string option \<Rightarrow> string \<Rightarrow> string list stmt" where
  "getChannelRolloutsByBranch app name = gets (\<lambda>d.
     case branch_named d app name of None \<Rightarrow> [] | Some b \<Rightarrow>
       [c_name c. r \<leftarrow> rollouts d, r_branch r = b_id b, c \<leftarrow> channels d, c_id c = r_channel r])"

definition insertChannelRollout :: "string \<Rightarrow> int \<Rightarrow> string option \<Rightarrow> string \<Rightarrow> string \<Rightarrow> int stmt" where
  "insertChannelRollout i percentage app name branch = run_write (\<lambda>d.
     let rows = [\<lparr>r_id = i, r_channel = c_id c, r_branch = b_id rb, r_percentage = percentage,
                  r_created = db_now d, r_updated = db_now d\<rparr>.
           c \<leftarrow> channels d, Some (c_app c) = app \<and> c_name c = name \<and> c_branch c \<noteq> None,
           rb \<leftarrow> branches d, b_app rb = c_app c \<and> b_name rb = branch \<and> Some (b_id rb) \<noteq> c_branch c]
     in (d\<lparr>rollouts := rollouts d @ rows\<rparr>, int (length rows)))"

definition updateChannelRolloutPercentage :: "int \<Rightarrow> string option \<Rightarrow> string \<Rightarrow> int stmt" where
  "updateChannelRolloutPercentage percentage app name = run_write (\<lambda>d.
     let hit = (\<lambda>r. Some (r_channel r) = map_option c_id (channel_named d app name))
     in (d\<lparr>rollouts := map (\<lambda>r. if hit r then r\<lparr>r_percentage := percentage, r_updated := db_now d\<rparr> else r) (rollouts d)\<rparr>,
         int (length (filter hit (rollouts d)))))"

definition deleteChannelRollout :: "string option \<Rightarrow> string \<Rightarrow> int stmt" where
  "deleteChannelRollout app name = run_write (\<lambda>d.
     let hit = (\<lambda>r. Some (r_channel r) = map_option c_id (channel_named d app name))
     in (d\<lparr>rollouts := filter (\<lambda>r. \<not> hit r) (rollouts d)\<rparr>, int (length (filter hit (rollouts d)))))"

definition repointChannelToRolloutBranch :: "string option \<Rightarrow> string \<Rightarrow> int stmt" where
  "repointChannelToRolloutBranch app name = run_write (\<lambda>d.
     let hit = (\<lambda>c. Some (c_app c) = app \<and> c_name c = name \<and> rollout_of d (c_id c) \<noteq> None)
     in (d\<lparr>channels := map (\<lambda>c. if hit c then c\<lparr>c_branch := map_option r_branch (rollout_of d (c_id c))\<rparr> else c) (channels d)\<rparr>,
         int (length (filter hit (channels d)))))"

text \<open>The promotion transaction of \<^verbatim>\<open>rollout_postgres.go\<close>: repoint the channel, then drop the rollout.\<close>

definition promoteChannelRollout :: "string option \<Rightarrow> string \<Rightarrow> int stmt" where
  "promoteChannelRollout app name = WithTx (bindE (repointChannelToRolloutBranch app name) (\<lambda>rows.
     if rows = 0 then ret 0 else bindE (deleteChannelRollout app name) (\<lambda>_. ret rows)))"

section \<open>Updates\<close>

definition new_update :: "int \<Rightarrow> branch_row \<Rightarrow> runtime_row \<Rightarrow> int \<Rightarrow> string \<Rightarrow> string \<Rightarrow> string option
    \<Rightarrow> string option \<Rightarrow> int \<Rightarrow> update_row" where
  "new_update i b v ty platform commit msg grp now =
     \<lparr>u_id = i, u_uuid = None, u_branch = b_id b, u_runtime = v_id v, u_type = ty, u_commit = commit,
      u_message = msg, u_platform = platform, u_created = now, u_checked = None, u_rollout = None,
      u_control = None, u_group = grp, u_mapping = None, u_sourcemap = None\<rparr>"

definition add_update :: "update_row \<Rightarrow> db \<Rightarrow> db" where
  "add_update u d = d\<lparr>updates := updates d @ [u]\<rparr>"

definition insertUpdate :: "int \<Rightarrow> string \<Rightarrow> string option \<Rightarrow> string \<Rightarrow> int \<Rightarrow> string \<Rightarrow> string \<Rightarrow> string option
    \<Rightarrow> string option \<Rightarrow> update_row stmt" where
  "insertUpdate i name app version ty platform commit msg grp = (\<lambda>d.
     case (branch_named d app name, runtime_named d app version) of
       (Some b, Some v) \<Rightarrow>
         (let u = new_update i b v ty platform commit msg grp (db_now d)
          in run_write (\<lambda>d. (add_update u d, u)) d)
     | _ \<Rightarrow> (Inl NotNullViolation, d))"

definition insertUpdateWithRollout :: "int \<Rightarrow> string \<Rightarrow> string option \<Rightarrow> string \<Rightarrow> int \<Rightarrow> string \<Rightarrow> string
    \<Rightarrow> string option \<Rightarrow> int \<Rightarrow> string option \<Rightarrow> update_row stmt" where
  "insertUpdateWithRollout i name app version ty platform commit msg percentage grp = (\<lambda>d.
     case (branch_named d app name, runtime_named d app version) of
       (Some b, Some v) \<Rightarrow>
         (let control = newest (filter (\<lambda>u. u_branch u = b_id b \<and> u_runtime u = v_id v
                \<and> u_platform u = platform \<and> u_checked u \<noteq> None) (updates d));
              u = (new_update i b v ty platform commit msg grp (db_now d))
                \<lparr>u_rollout := Some percentage, u_control := map_option u_id control\<rparr>
          in run_write (\<lambda>d. (add_update u d, u)) d)
     | _ \<Rightarrow> (Inl NotNullViolation, d))"

definition stamp_allowed :: "db \<Rightarrow> update_row \<Rightarrow> bool" where
  "stamp_allowed d u \<longleftrightarrow>
     (u_rollout u = None \<and> \<not> list_ex (\<lambda>a. target_key a = target_key u \<and> active a) (updates d)) \<or>
     (u_rollout u \<noteq> None \<and> \<not> list_ex (\<lambda>n. target_key n = target_key u \<and> u_id n \<noteq> u_id u
        \<and> (\<exists>t \<in> set_option (u_checked n). u_created u < t)) (updates d))"

definition markUpdateAsChecked :: "int \<Rightarrow> string option \<Rightarrow> string \<Rightarrow> int stmt" where
  "markUpdateAsChecked i app name = run_write (\<lambda>d.
     let hit = (\<lambda>u. u_id u = i \<and> on_branch d app name u \<and> stamp_allowed d u);
         touched = u_runtime ` set (filter hit (updates d))
     in (d\<lparr>updates := map (\<lambda>u. if hit u then u\<lparr>u_checked := Some (db_now d)\<rparr> else u) (updates d),
           runtimes := map (\<lambda>v. if v_id v \<in> touched then v\<lparr>v_updated := db_now d\<rparr> else v) (runtimes d)\<rparr>,
         int (length (filter (\<lambda>v. v_id v \<in> touched) (runtimes d)))))"

definition in_target :: "db \<Rightarrow> string option \<Rightarrow> string \<Rightarrow> string \<Rightarrow> update_row \<Rightarrow> bool" where
  "in_target d app name version u \<longleftrightarrow> Some (u_branch u) = map_option b_id (branch_named d app name)
     \<and> Some (u_runtime u) = map_option v_id (runtime_named d app version)"

definition setUpdateRolloutPercentage :: "string option \<Rightarrow> string \<Rightarrow> string \<Rightarrow> int \<Rightarrow> int stmt" where
  "setUpdateRolloutPercentage app name version percentage = run_write (\<lambda>d.
     set_updates (\<lambda>u. in_target d app name version u \<and> u_checked u \<noteq> None
         \<and> (\<exists>p \<in> set_option (u_rollout u). p < percentage))
       (\<lambda>u. u\<lparr>u_rollout := Some percentage\<rparr>) d)"

definition clearUpdateRollout :: "string option \<Rightarrow> string \<Rightarrow> string \<Rightarrow> int stmt" where
  "clearUpdateRollout app name version = run_write (\<lambda>d.
     set_updates (\<lambda>u. in_target d app name version u \<and> u_rollout u \<noteq> None \<and> u_checked u \<noteq> None)
       (\<lambda>u. u\<lparr>u_rollout := None\<rparr>) d)"

definition importUpdate :: "int \<Rightarrow> string option \<Rightarrow> string \<Rightarrow> string \<Rightarrow> int \<Rightarrow> string \<Rightarrow> string \<Rightarrow> string option
    \<Rightarrow> int \<Rightarrow> string option \<Rightarrow> int \<Rightarrow> string option \<Rightarrow> UpdateAssetMapping option \<Rightarrow> int stmt" where
  "importUpdate i app name version ty platform commit msg checked uuid created grp mapping = (\<lambda>d.
     case (branch_named d app name, runtime_named d app version) of
       (Some b, Some v) \<Rightarrow>
         if list_ex (\<lambda>u. u_branch u = b_id b \<and> u_id u = i) (updates d) then (Inr 0, d)
         else run_write (\<lambda>d. (add_update ((new_update i b v ty platform commit msg grp created)
           \<lparr>u_checked := Some checked, u_uuid := uuid, u_mapping := mapping\<rparr>) d, 1)) d
     | _ \<Rightarrow> (Inl NotNullViolation, d))"

definition storeUpdateUUID :: "int \<Rightarrow> string \<Rightarrow> string option \<Rightarrow> string \<Rightarrow> int stmt" where
  "storeUpdateUUID i uuid app name = run_write (\<lambda>d.
     set_updates (\<lambda>u. u_id u = i \<and> Some (u_branch u) = map_option b_id (branch_named d app name))
       (\<lambda>u. u\<lparr>u_uuid := Some uuid\<rparr>) d)"

definition setUpdateAssetMapping :: "int \<Rightarrow> UpdateAssetMapping option \<Rightarrow> string option \<Rightarrow> string \<Rightarrow> int stmt" where
  "setUpdateAssetMapping i mapping app name = run_write (\<lambda>d.
     set_updates (\<lambda>u. u_id u = i \<and> Some (u_branch u) = map_option b_id (branch_named d app name))
       (\<lambda>u. u\<lparr>u_mapping := mapping\<rparr>) d)"

definition setUpdateSourcemapHash :: "int \<Rightarrow> string option \<Rightarrow> string option \<Rightarrow> string \<Rightarrow> int stmt" where
  "setUpdateSourcemapHash i hash app name = run_write (\<lambda>d.
     set_updates (\<lambda>u. u_id u = i \<and> Some (u_branch u) = map_option b_id (branch_named d app name))
       (\<lambda>u. u\<lparr>u_sourcemap := hash\<rparr>) d)"

section \<open>Reads of updates\<close>

definition update_on_branch :: "db \<Rightarrow> string option \<Rightarrow> string \<Rightarrow> int \<Rightarrow> update_row option" where
  "update_on_branch d app name i = find (\<lambda>u. u_id u = i \<and> on_branch d app name u) (updates d)"

definition getLatestUpdate :: "string option \<Rightarrow> string \<Rightarrow> string \<Rightarrow> string \<Rightarrow> update_row stmt" where
  "getLatestUpdate app name version platform = read_one (\<lambda>d.
     newest (filter (serving d app name version platform) (updates d)))"

definition getLatestUpdateWithRollout :: "string option \<Rightarrow> string \<Rightarrow> string \<Rightarrow> string
    \<Rightarrow> (update_row \<times> update_row option) stmt" where
  "getLatestUpdateWithRollout app name version platform = read_one (\<lambda>d.
     map_option (\<lambda>u. (u, find (\<lambda>c. u_branch c = u_branch u \<and> Some (u_id c) = u_control u) (updates d)))
       (newest (filter (serving d app name version platform) (updates d))))"

definition getActiveRolloutUpdates :: "string option \<Rightarrow> string \<Rightarrow> string \<Rightarrow> update_row list stmt" where
  "getActiveRolloutUpdates app name version = gets (\<lambda>d.
     sort_key u_platform (filter (\<lambda>u. on_branch d app name u \<and> on_runtime d version u \<and> active u) (updates d)))"

definition hasActiveRolloutUpdate :: "string option \<Rightarrow> string \<Rightarrow> string \<Rightarrow> bool stmt" where
  "hasActiveRolloutUpdate app name version = gets (\<lambda>d.
     list_ex (\<lambda>u. on_branch d app name u \<and> on_runtime d version u \<and> active u) (updates d))"

definition getUpdateByBranchNameAndRuntime :: "string option \<Rightarrow> int \<Rightarrow> string \<Rightarrow> string \<Rightarrow> update_row stmt" where
  "getUpdateByBranchNameAndRuntime app i name version = read_one (\<lambda>d.
     find (\<lambda>u. on_branch d app name u \<and> u_id u = i \<and> on_runtime d version u) (updates d))"

definition getUpdateByUUID :: "string option \<Rightarrow> string option \<Rightarrow> (update_row \<times> string \<times> string) stmt" where
  "getUpdateByUUID app uuid = read_one (\<lambda>d.
     Option.bind (find (\<lambda>u. u_uuid u = uuid \<and> uuid \<noteq> None \<and> u_checked u \<noteq> None
         \<and> list_ex (\<lambda>b. b_id b = u_branch u \<and> Some (b_app b) = app) (branches d)
         \<and> list_ex (\<lambda>v. v_id v = u_runtime u) (runtimes d)) (updates d))
       (\<lambda>u. Option.bind (branch_by_id d (u_branch u)) (\<lambda>b.
         map_option (\<lambda>v. (u, b_name b, v_version v)) (runtime_by_id d (u_runtime u)))))"

definition getUpdateType :: "string option \<Rightarrow> string \<Rightarrow> int \<Rightarrow> int stmt" where
  "getUpdateType app name i = read_one (\<lambda>d. map_option u_type (update_on_branch d app name i))"

definition getUpdateCheckedAt :: "string option \<Rightarrow> string \<Rightarrow> int \<Rightarrow> int option stmt" where
  "getUpdateCheckedAt app name i = read_one (\<lambda>d. map_option u_checked (update_on_branch d app name i))"

definition getUpdateMetadata :: "int \<Rightarrow> string option \<Rightarrow> string \<Rightarrow> update_row stmt" where
  "getUpdateMetadata i app name = read_one (\<lambda>d. update_on_branch d app name i)"

definition getUpdateAssetMapping :: "int \<Rightarrow> string option \<Rightarrow> string \<Rightarrow> UpdateAssetMapping option stmt" where
  "getUpdateAssetMapping i app name = read_one (\<lambda>d. map_option u_mapping (update_on_branch d app name i))"

definition getUpdateSourcemapHash :: "int \<Rightarrow> string option \<Rightarrow> string \<Rightarrow> string option stmt" where
  "getUpdateSourcemapHash i app name = read_one (\<lambda>d. map_option u_sourcemap (update_on_branch d app name i))"

definition updateExistsOnBranch :: "string option \<Rightarrow> string \<Rightarrow> int \<Rightarrow> bool stmt" where
  "updateExistsOnBranch app name i = gets (\<lambda>d.
     list_ex (\<lambda>u. on_branch d app name u \<and> u_id u = i) (updates d))"

definition getUpdatesByPublishGroup :: "string option \<Rightarrow> string \<Rightarrow> string \<Rightarrow> string option \<Rightarrow> update_row list stmt" where
  "getUpdatesByPublishGroup app name version grp = gets (\<lambda>d.
     sort_key u_id (filter (\<lambda>u. on_branch d app name u \<and> on_runtime d version u
       \<and> u_group u = grp \<and> grp \<noteq> None \<and> u_checked u \<noteq> None) (updates d)))"

section \<open>Laws of the statements\<close>

lemma run_write_run:
  "run_write f d = (if schema_ok (fst (f d)) then (Inr (snd (f d)), fst (f d)) else (Inl (schema_error (fst (f d))), d))"
  by (simp add: run_write_def case_prod_beta)

lemma run_write_keeps:
  assumes "P d" and "schema_ok (fst (f d)) \<Longrightarrow> P (fst (f d))"
  shows "P (snd (run_write f d))"
  using assms by (simp add: run_write_run)

lemma run_write_ok: "schema_ok (fst (f d)) \<Longrightarrow> run_write f d = (Inr (snd (f d)), fst (f d))"
  by (simp add: run_write_run)

lemma run_write_Inr: "run_write f d = (Inr x, d') \<Longrightarrow> f d = (d', x) \<and> schema_ok d'"
  by (auto simp: run_write_run prod_eq_iff split: if_splits)

lemma run_write_Inl: "run_write f d = (Inl e, d') \<Longrightarrow> d' = d \<and> schema_error (fst (f d)) = e"
  by (auto simp: run_write_run prod_eq_iff split: if_splits)

lemma read_one_state [simp]: "snd (read_one f d) = d"
  by (simp add: read_one_def split: option.splits)

lemma set_updates_simps [simp]:
  "branches (fst (set_updates P f d)) = branches d" "channels (fst (set_updates P f d)) = channels d"
  "runtimes (fst (set_updates P f d)) = runtimes d" "rollouts (fst (set_updates P f d)) = rollouts d"
  "apps (fst (set_updates P f d)) = apps d" "db_now (fst (set_updates P f d)) = db_now d"
  "updates (fst (set_updates P f d)) = map (\<lambda>u. if P u then f u else u) (updates d)"
  "snd (set_updates P f d) = int (length (filter P (updates d)))"
  by (simp_all add: set_updates_def)

lemma distinct_map_eq: "distinct (map f xs) \<Longrightarrow> x \<in> set xs \<Longrightarrow> y \<in> set xs \<Longrightarrow> f x = f y \<Longrightarrow> x = y"
  by (auto simp: distinct_map dest: inj_onD)

text \<open>What the schema says, in the form the proofs use.\<close>

lemma schema_branch_id: "schema_ok d \<Longrightarrow> b \<in> set (branches d) \<Longrightarrow> b' \<in> set (branches d) \<Longrightarrow> b_id b = b_id b' \<Longrightarrow> b = b'"
  unfolding schema_ok_def uniques_ok_def by (elim conjE) (rule distinct_map_eq)

lemma schema_branch_name: "schema_ok d \<Longrightarrow> b \<in> set (branches d) \<Longrightarrow> b' \<in> set (branches d) \<Longrightarrow>
    b_app b = b_app b' \<Longrightarrow> b_name b = b_name b' \<Longrightarrow> b = b'"
  unfolding schema_ok_def uniques_ok_def using distinct_map_eq [of "\<lambda>b. (b_app b, b_name b)" "branches d" b b'] by simp

lemma schema_channel_id: "schema_ok d \<Longrightarrow> c \<in> set (channels d) \<Longrightarrow> c' \<in> set (channels d) \<Longrightarrow> c_id c = c_id c' \<Longrightarrow> c = c'"
  unfolding schema_ok_def uniques_ok_def by (elim conjE) (rule distinct_map_eq)

lemma schema_channel_name: "schema_ok d \<Longrightarrow> c \<in> set (channels d) \<Longrightarrow> c' \<in> set (channels d) \<Longrightarrow>
    c_app c = c_app c' \<Longrightarrow> c_name c = c_name c' \<Longrightarrow> c = c'"
  unfolding schema_ok_def uniques_ok_def using distinct_map_eq [of "\<lambda>c. (c_app c, c_name c)" "channels d" c c'] by simp

lemma schema_runtime_id: "schema_ok d \<Longrightarrow> v \<in> set (runtimes d) \<Longrightarrow> v' \<in> set (runtimes d) \<Longrightarrow> v_id v = v_id v' \<Longrightarrow> v = v'"
  unfolding schema_ok_def uniques_ok_def by (elim conjE) (rule distinct_map_eq)

lemma schema_runtime_version: "schema_ok d \<Longrightarrow> v \<in> set (runtimes d) \<Longrightarrow> v' \<in> set (runtimes d) \<Longrightarrow>
    v_app v = v_app v' \<Longrightarrow> v_version v = v_version v' \<Longrightarrow> v = v'"
  unfolding schema_ok_def uniques_ok_def using distinct_map_eq [of "\<lambda>v. (v_app v, v_version v)" "runtimes d" v v'] by simp

lemma schema_update_id: "schema_ok d \<Longrightarrow> u \<in> set (updates d) \<Longrightarrow> u' \<in> set (updates d) \<Longrightarrow>
    u_branch u = u_branch u' \<Longrightarrow> u_id u = u_id u' \<Longrightarrow> u = u'"
  unfolding schema_ok_def uniques_ok_def using distinct_map_eq [of "\<lambda>u. (u_branch u, u_id u)" "updates d" u u'] by simp

lemma schema_active: "schema_ok d \<Longrightarrow> u \<in> set (updates d) \<Longrightarrow> u' \<in> set (updates d) \<Longrightarrow>
    active u \<Longrightarrow> active u' \<Longrightarrow> target_key u = target_key u' \<Longrightarrow> u = u'"
  unfolding schema_ok_def uniques_ok_def using distinct_map_eq [of target_key "filter active (updates d)" u u'] by simp

lemma schema_rollout_channel: "schema_ok d \<Longrightarrow> r \<in> set (rollouts d) \<Longrightarrow> r' \<in> set (rollouts d) \<Longrightarrow>
    r_channel r = r_channel r' \<Longrightarrow> r = r'"
  unfolding schema_ok_def uniques_ok_def by (elim conjE) (rule distinct_map_eq)

lemma schema_channel_branch: "schema_ok d \<Longrightarrow> c \<in> set (channels d) \<Longrightarrow> c_branch c = Some i \<Longrightarrow> i \<in> b_id ` set (branches d)"
  unfolding schema_ok_def refs_ok_def list_all_iff by (auto dest!: bspec)

lemma schema_update_refs: "schema_ok d \<Longrightarrow> u \<in> set (updates d) \<Longrightarrow>
    u_branch u \<in> b_id ` set (branches d) \<and> u_runtime u \<in> v_id ` set (runtimes d)"
  unfolding schema_ok_def refs_ok_def list_all_iff by blast

lemma schema_rollout_refs: "schema_ok d \<Longrightarrow> r \<in> set (rollouts d) \<Longrightarrow>
    r_channel r \<in> c_id ` set (channels d) \<and> r_branch r \<in> b_id ` set (branches d)"
  unfolding schema_ok_def refs_ok_def list_all_iff by blast

lemma branch_named_Some: "branch_named d app name = Some b \<Longrightarrow> b \<in> set (branches d) \<and> Some (b_app b) = app \<and> b_name b = name"
  unfolding branch_named_def by (auto dest!: find_Some_mem)

lemma runtime_named_Some: "runtime_named d app version = Some v \<Longrightarrow> v \<in> set (runtimes d) \<and> Some (v_app v) = app \<and> v_version v = version"
  unfolding runtime_named_def by (auto dest!: find_Some_mem)

lemma channel_named_Some: "channel_named d app name = Some c \<Longrightarrow> c \<in> set (channels d) \<and> Some (c_app c) = app \<and> c_name c = name"
  unfolding channel_named_def by (auto dest!: find_Some_mem)

lemma find_unique:
  assumes "x \<in> set xs" and "P x" and unique: "\<And>y. y \<in> set xs \<Longrightarrow> P y \<Longrightarrow> y = x"
  shows "find P xs = Some x"
proof (cases "find P xs")
  case None
  then show ?thesis
    using assms(1,2) unfolding find_None_iff by blast
next
  case (Some y)
  have "y = x"
    using find_Some_mem [OF Some] by (intro unique) simp_all
  then show ?thesis
    using Some by simp
qed

lemma branch_named_eq: "schema_ok d \<Longrightarrow> b \<in> set (branches d) \<Longrightarrow> branch_named d (Some (b_app b)) (b_name b) = Some b"
  unfolding branch_named_def by (rule find_unique) (auto intro: schema_branch_name)

lemma channel_named_eq: "schema_ok d \<Longrightarrow> c \<in> set (channels d) \<Longrightarrow> channel_named d (Some (c_app c)) (c_name c) = Some c"
  unfolding channel_named_def by (rule find_unique) (auto intro: schema_channel_name)

lemma runtime_named_eq: "schema_ok d \<Longrightarrow> v \<in> set (runtimes d) \<Longrightarrow> runtime_named d (Some (v_app v)) (v_version v) = Some v"
  unfolding runtime_named_def by (rule find_unique) (auto intro: schema_runtime_version)

lemma branch_by_id_eq: "schema_ok d \<Longrightarrow> b \<in> set (branches d) \<Longrightarrow> branch_by_id d (b_id b) = Some b"
  unfolding branch_by_id_def by (rule find_unique) (auto intro: schema_branch_id)

lemma rollout_of_eq: "schema_ok d \<Longrightarrow> r \<in> set (rollouts d) \<Longrightarrow> rollout_of d (r_channel r) = Some r"
  unfolding rollout_of_def by (rule find_unique) (auto intro: schema_rollout_channel)

lemma rollout_of_Some: "rollout_of d i = Some r \<Longrightarrow> r \<in> set (rollouts d) \<and> r_channel r = i"
  unfolding rollout_of_def by (auto dest!: find_Some_mem)

lemma branch_by_id_Some: "branch_by_id d i = Some b \<Longrightarrow> b \<in> set (branches d) \<and> b_id b = i"
  unfolding branch_by_id_def by (auto dest!: find_Some_mem)

lemma on_branch_eq: "schema_ok d \<Longrightarrow> b \<in> set (branches d) \<Longrightarrow>
    on_branch d (Some (b_app b)) (b_name b) u \<longleftrightarrow> u_branch u = b_id b"
  unfolding on_branch_def list_ex_iff by (metis option.inject schema_branch_name)

lemma on_branch_named: "schema_ok d \<Longrightarrow> on_branch d app name u \<longleftrightarrow>
    Some (u_branch u) = map_option b_id (branch_named d app name)"
proof (cases "branch_named d app name")
  case None
  then have "b \<notin> set (branches d) \<or> Some (b_app b) \<noteq> app \<or> b_name b \<noteq> name" for b
    by (auto simp: branch_named_def find_None_iff)
  then show ?thesis
    unfolding on_branch_def list_ex_iff None by fastforce
next
  case (Some b)
  assume "schema_ok d"
  then show ?thesis
    using Some on_branch_eq [of d b u] branch_named_Some [OF Some] by auto
qed

end
