(* ===== verification/Lifecycle.thy ===== *)
theory Lifecycle
  imports Database
begin

text \<open>
  The life of the control-plane database: the step relation whose steps are the statements the
  repositories issue, in any order and by any number of concurrent callers, and the invariants of the
  reachable states that no single constraint of the schema states.

  Statements are atomic and every one runs at a later database time than the statement before it; the
  one overlap the code accepts, two stamps running within the same statement, is outside the model as
  it is outside the guarantee (see the comment of \<^verbatim>\<open>MarkUpdateAsChecked\<close> in \<^verbatim>\<open>queries.sql.go\<close>).
  The import of an app's history from another server (\<^verbatim>\<open>ImportUpdate\<close>, issued by \<^verbatim>\<open>internal/expoimport/history.go\<close>)
  writes rows that are already checked and has no rollout guard.  It is a step only while its target has
  no rollout: on a target with a rollout it may publish past the rollout, and what the states reached that way satisfy is not
  stated here.
\<close>

section \<open>Steps\<close>

text \<open>The target of an imported row has no rollout, pending or active.\<close>

definition rollout_free :: "db \<Rightarrow> string option \<Rightarrow> string \<Rightarrow> string \<Rightarrow> string \<Rightarrow> bool" where
  "rollout_free d app name version platform \<longleftrightarrow>
     list_all (\<lambda>u. in_target d app name version u \<and> u_platform u = platform \<longrightarrow> u_rollout u = None) (updates d)"

inductive db_write :: "db \<Rightarrow> db \<Rightarrow> bool" where
  register_app: "db_write d (d\<lparr>apps := a # apps d\<rparr>)"
| delete_app: "db_write d (snd (deleteAppByID app d))"
| insert_branch: "db_write d (snd (insertBranch app name d))"
| delete_branch: "db_write d (snd (deleteBranchByName name app d))"
| protect_branch: "db_write d (snd (setBranchProtected p app name d))"
| insert_channel: "pred_option (\<lambda>i. \<forall>b \<in> set (branches d). b_id b = i \<longrightarrow> Some (b_app b) = app) branch
    \<Longrightarrow> db_write d (snd (insertChannel app branch name d))"
| delete_channel: "db_write d (snd (deleteChannelByName name app d))"
| set_surfing: "db_write d (snd (updateChannelBranchSurfing app name enabled pattern d))"
| map_channel: "db_write d (snd (updateChannelBranchMapping branch app channel d))"
| insert_runtime: "db_write d (snd (insertRuntimeVersion app version d))"
| start_rollout: "db_write d (snd (insertChannelRollout rid percentage app name branch d))"
| progress_rollout: "db_write d (snd (updateChannelRolloutPercentage percentage app name d))"
| revert_rollout: "db_write d (snd (deleteChannelRollout app name d))"
| promote_rollout: "db_write d (snd (promoteChannelRollout app name d))"
| insert_update: "db_write d (snd (insertUpdate i name app version ty platform commit msg grp d))"
| insert_update_rollout:
    "db_write d (snd (insertUpdateWithRollout i name app version ty platform commit msg percentage grp d))"
| import_update: "rollout_free d app name version platform \<Longrightarrow> created \<le> db_now d
    \<Longrightarrow> db_write d (snd (importUpdate i app name version ty platform commit msg created uuid created grp mapping d))"
| stamp: "db_write d (snd (markUpdateAsChecked i app name d))"
| set_percentage: "db_write d (snd (setUpdateRolloutPercentage app name version percentage d))"
| clear_rollout: "db_write d (snd (clearUpdateRollout app name version d))"
| store_uuid: "db_write d (snd (storeUpdateUUID i uuid app name d))"
| store_mapping: "db_write d (snd (setUpdateAssetMapping i mapping app name d))"
| store_sourcemap: "db_write d (snd (setUpdateSourcemapHash i hash app name d))"

definition empty_db :: db where
  "empty_db = \<lparr>apps = [], branches = [], channels = [], runtimes = [], updates = [], rollouts = [],
     next_id = 1, db_now = 0\<rparr>"

inductive reachable :: "db \<Rightarrow> bool" where
  start: "reachable empty_db"
| step: "reachable d \<Longrightarrow> db_write d d' \<Longrightarrow> db_now d' < t \<Longrightarrow> reachable (d'\<lparr>db_now := t\<rparr>)"

section \<open>Invariants\<close>

text \<open>Tenancy: a channel points to a branch of its own app, a channel rollout serves a branch of the
  channel's app other than the mapped one, and an update's branch and runtime version belong to one
  app.\<close>

definition mapping_inv :: "db \<Rightarrow> bool" where
  "mapping_inv d \<longleftrightarrow>
     (\<forall>c \<in> set (channels d). \<forall>b \<in> set (branches d). c_branch c = Some (b_id b) \<longrightarrow> b_app b = c_app c)
   \<and> (\<forall>r \<in> set (rollouts d). \<forall>c \<in> set (channels d). c_id c = r_channel r \<longrightarrow>
        c_branch c \<noteq> None \<and> c_branch c \<noteq> Some (r_branch r)
      \<and> (\<forall>b \<in> set (branches d). b_id b = r_branch r \<longrightarrow> b_app b = c_app c))"

definition owner_inv :: "db \<Rightarrow> bool" where
  "owner_inv d \<longleftrightarrow> (\<forall>u \<in> set (updates d). \<forall>b \<in> set (branches d). \<forall>v \<in> set (runtimes d).
     b_id b = u_branch u \<longrightarrow> v_id v = u_runtime u \<longrightarrow> b_app b = v_app v)"

text \<open>The update history of one target, seen from a rollout: the other checked rows, and whether one of
  them was checked after the rollout's control was chosen.\<close>

definition others :: "update_row list \<Rightarrow> update_row \<Rightarrow> update_row list" where
  "others us u = filter (\<lambda>n. target_key n = target_key u \<and> u_id n \<noteq> u_id u \<and> u_checked n \<noteq> None) us"

definition overtaken :: "update_row list \<Rightarrow> update_row \<Rightarrow> bool" where
  "overtaken us u \<longleftrightarrow> (\<exists>n \<in> set us. target_key n = target_key u \<and> u_id n \<noteq> u_id u
     \<and> (\<exists>t. u_checked n = Some t \<and> u_created u < t))"

definition control_exact :: "update_row list \<Rightarrow> update_row \<Rightarrow> bool" where
  "control_exact us u \<longleftrightarrow> u_control u = map_option u_id (newest (others us u))"

definition controls :: "update_row list \<Rightarrow> bool" where
  "controls us \<longleftrightarrow> (\<forall>u \<in> set us. u_rollout u \<noteq> None \<longrightarrow>
     (overtaken us u \<or> control_exact us u) \<and> (u_checked u \<noteq> None \<longrightarrow> \<not> overtaken us u))"

text \<open>The clock: rows are created and checked in the past, and a row checked beside a rollout was created before the
  rollout or checked after the rollout was created.\<close>

definition sequenced :: "update_row list \<Rightarrow> bool" where
  "sequenced us \<longleftrightarrow> (\<forall>u \<in> set us. \<forall>n \<in> set us. u_rollout u \<noteq> None \<longrightarrow> target_key n = target_key u \<longrightarrow> u_id n \<noteq> u_id u \<longrightarrow>
     (\<forall>t. u_checked n = Some t \<longrightarrow> u_created n < u_created u \<or> u_created u < t))"

definition stamps :: "int \<Rightarrow> update_row list \<Rightarrow> bool" where
  "stamps now us \<longleftrightarrow> (\<forall>u \<in> set us. u_created u < now \<and> (\<forall>t. u_checked u = Some t \<longrightarrow> t < now)) \<and> sequenced us"

definition inv_at :: "int \<Rightarrow> db \<Rightarrow> bool" where
  "inv_at now d \<longleftrightarrow> schema_ok d \<and> mapping_inv d \<and> owner_inv d \<and> controls (updates d) \<and> stamps now (updates d)"

definition db_inv :: "db \<Rightarrow> bool" where
  "db_inv d \<longleftrightarrow> inv_at (db_now d) d"

section \<open>Histories\<close>

lemma newest_mem: "newest us = Some u \<Longrightarrow> u \<in> set us"
  by (induction us arbitrary: u) (auto split: option.splits if_splits)

lemma newest_None [simp]: "newest us = None \<longleftrightarrow> us = []"
  by (cases us) (auto split: option.splits)

lemma newest_max: "newest us = Some u \<Longrightarrow> v \<in> set us \<Longrightarrow> u_id v \<le> u_id u"
  by (induction us arbitrary: u) (fastforce split: option.splits if_splits)+

lemma newest_eqI:
  assumes "u \<in> set us" and "\<And>v. v \<in> set us \<Longrightarrow> v \<noteq> u \<Longrightarrow> u_id v < u_id u"
  shows "newest us = Some u"
proof -
  obtain w where w: "newest us = Some w"
    using assms(1) by (cases "newest us") auto
  then have "w = u"
    using assms(2) [OF newest_mem [OF w]] newest_max [OF w assms(1)] by fastforce
  then show ?thesis
    using w by simp
qed

lemma newest_map: "(\<And>u. u \<in> set us \<Longrightarrow> u_id (f u) = u_id u) \<Longrightarrow> newest (map f us) = map_option f (newest us)"
proof (induction us)
  case (Cons u us)
  have "newest us = Some v \<Longrightarrow> u_id (f v) = u_id v" for v
    using Cons.prems newest_mem by auto
  then show ?case
    using Cons by (auto split: option.splits)
qed simp

text \<open>A rewrite of the rows that keeps what the history is made of.\<close>

definition history_map :: "(update_row \<Rightarrow> update_row) \<Rightarrow> bool" where
  "history_map f \<longleftrightarrow> (\<forall>u. u_id (f u) = u_id u \<and> target_key (f u) = target_key u \<and> u_checked (f u) = u_checked u
     \<and> u_created (f u) = u_created u \<and> u_control (f u) = u_control u
     \<and> (u_rollout (f u) \<noteq> None \<longrightarrow> u_rollout u \<noteq> None))"

lemma others_map: "history_map f \<Longrightarrow> others (map f us) (f u) = map f (others us u)"
  by (simp add: others_def filter_map o_def history_map_def)

lemma overtaken_map: "history_map f \<Longrightarrow> overtaken (map f us) (f u) \<longleftrightarrow> overtaken us u"
  by (auto simp: overtaken_def history_map_def)

lemma controls_map:
  assumes "history_map f" and "controls us"
  shows "controls (map f us)"
proof -
  have "control_exact (map f us) (f u) \<longleftrightarrow> control_exact us u" for u
    unfolding control_exact_def others_map [OF assms(1)] using assms(1)
    by (subst newest_map) (auto simp: history_map_def option.map_comp o_def)
  then show ?thesis
    using assms by (auto simp: controls_def overtaken_map history_map_def)
qed

lemma stamps_map: "history_map f \<Longrightarrow> stamps now us \<Longrightarrow> stamps now (map f us)"
  by (simp add: stamps_def sequenced_def history_map_def)

lemma stamps_filter: "stamps now us \<Longrightarrow> stamps now (filter P us)"
  by (auto simp: stamps_def sequenced_def)

text \<open>Dropping a whole branch.\<close>

lemma others_filter:
  "P (u_branch u) \<Longrightarrow> others (filter (\<lambda>u. P (u_branch u)) us) u = others us u"
  by (induction us) (auto simp: others_def target_key_def)

lemma overtaken_filter:
  "P (u_branch u) \<Longrightarrow> overtaken (filter (\<lambda>u. P (u_branch u)) us) u \<longleftrightarrow> overtaken us u"
  by (auto simp: overtaken_def target_key_def)

lemma controls_filter: "controls us \<Longrightarrow> controls (filter (\<lambda>u. P (u_branch u)) us)"
  by (simp add: controls_def control_exact_def others_filter overtaken_filter)

text \<open>A new row that is not checked yet.\<close>

lemma others_append: "u_checked w = None \<Longrightarrow> others (us @ [w]) u = others us u"
  by (simp add: others_def)

lemma overtaken_append: "u_checked w = None \<Longrightarrow> overtaken (us @ [w]) u \<longleftrightarrow> overtaken us u"
  by (auto simp: overtaken_def)

lemma controls_append:
  assumes "controls us" and "u_checked w = None" and "u_rollout w \<noteq> None \<Longrightarrow> control_exact us w"
  shows "controls (us @ [w])"
  using assms by (auto simp: controls_def control_exact_def others_append overtaken_append)

lemma stamps_append:
  assumes "stamps now us" and "u_checked w = None" and "u_created w = now" and "now < t"
  shows "stamps t (us @ [w])"
  using assms by (fastforce simp: stamps_def sequenced_def)

text \<open>A new row that is checked already, on a target without rollouts.\<close>

lemma controls_import:
  assumes "controls us" and free: "\<forall>u \<in> set us. target_key u = target_key w \<longrightarrow> u_rollout u = None" "u_rollout w = None"
  shows "controls (us @ [w])"
  unfolding controls_def
proof (intro ballI impI)
  fix u assume "u \<in> set (us @ [w])" and roll: "u_rollout u \<noteq> None"
  then have u: "u \<in> set us" "target_key w \<noteq> target_key u"
    using free by auto
  then have "others (us @ [w]) u = others us u" "overtaken (us @ [w]) u = overtaken us u"
    by (auto simp: others_def overtaken_def)
  then show "(overtaken (us @ [w]) u \<or> control_exact (us @ [w]) u) \<and> (u_checked u \<noteq> None \<longrightarrow> \<not> overtaken (us @ [w]) u)"
    using assms(1) u(1) roll by (simp add: controls_def control_exact_def)
qed

lemma stamps_import:
  assumes "stamps now us" and "u_created w \<le> now" and "u_checked w = Some (u_created w)" and "now < t"
    and "\<forall>u \<in> set us. target_key u = target_key w \<longrightarrow> u_rollout u = None" "u_rollout w = None"
  shows "stamps t (us @ [w])"
  using assms by (fastforce simp: stamps_def sequenced_def)

text \<open>The stamp.  Only one row changes, and the guards of the statement and the unique index keep every
  other rollout of the target either pending and overtaken, or absent.\<close>

lemma others_stamp:
  assumes "target_key u = target_key w \<Longrightarrow> u_id u = u_id w"
  shows "others (map (\<lambda>n. if n = w then w\<lparr>u_checked := t\<rparr> else n) us) u = others us u"
  using assms by (induction us) (auto simp: others_def target_key_def)

lemma overtaken_stamp:
  assumes "target_key u = target_key w \<Longrightarrow> u_id u = u_id w"
  shows "overtaken (map (\<lambda>n. if n = w then w\<lparr>u_checked := t\<rparr> else n) us) u \<longleftrightarrow> overtaken us u"
proof -
  let ?f = "\<lambda>n. if n = w then w\<lparr>u_checked := t\<rparr> else n"
  have "(target_key (?f n) = target_key u \<and> u_id (?f n) \<noteq> u_id u \<and> (\<exists>s. u_checked (?f n) = Some s \<and> u_created u < s))
      \<longleftrightarrow> (target_key n = target_key u \<and> u_id n \<noteq> u_id u \<and> (\<exists>s. u_checked n = Some s \<and> u_created u < s))" for n
    using assms by (auto simp: target_key_def)
  then show ?thesis
    by (simp only: overtaken_def set_map bex_simps)
qed

lemma controls_stamp:
  assumes "controls us" and created: "\<forall>u \<in> set us. u_created u < now"
    and keys: "\<And>u. u \<in> set us \<Longrightarrow> u_branch u = u_branch w \<Longrightarrow> u_id u = u_id w \<Longrightarrow> u = w"
    and w: "w \<in> set us"
    and plain: "u_rollout w = None \<Longrightarrow> \<forall>a \<in> set us. target_key a = target_key w \<longrightarrow> \<not> active a"
    and rolling: "u_rollout w \<noteq> None \<Longrightarrow> \<not> overtaken us w \<and> (\<forall>a \<in> set us. target_key a = target_key w \<longrightarrow> active a \<longrightarrow> a = w)"
  shows "controls (map (\<lambda>u. if u = w then w\<lparr>u_checked := Some now\<rparr> else u) us)" (is "controls (map ?f us)")
  unfolding controls_def
proof (intro ballI impI)
  fix u' assume "u' \<in> set (map ?f us)" and roll: "u_rollout u' \<noteq> None"
  then obtain u where u: "u \<in> set us" "u' = ?f u"
    by auto
  show "(overtaken (map ?f us) u' \<or> control_exact (map ?f us) u') \<and> (u_checked u' \<noteq> None \<longrightarrow> \<not> overtaken (map ?f us) u')"
  proof (cases "u = w \<or> target_key u \<noteq> target_key w")
    case True
    have k: "target_key u' = target_key u" "u_id u' = u_id u" "u_created u' = u_created u" "u_control u' = u_control u"
      "u_rollout u' = u_rollout u"
      using u(2) by (auto simp: target_key_def)
    have "others (map ?f us) u' = others us u" "overtaken (map ?f us) u' = overtaken us u"
      using others_stamp [of u' w "Some now" us] overtaken_stamp [of u' w "Some now" us] True k
      by (auto simp: others_def overtaken_def)
    then show ?thesis
      using True assms(1) u roll rolling k w by (auto simp: controls_def control_exact_def)
  next
    case False
    then have "u_id u \<noteq> u_id w"
      using keys u(1) by (auto simp: target_key_def)
    moreover have "\<not> active u"
      using False plain rolling u(1) by auto
    moreover have "?f w \<in> set (map ?f us)" "u_created u < now"
      using w created u(1) by auto
    ultimately have "overtaken (map ?f us) u"
      using False unfolding overtaken_def by (intro bexI [of _ "?f w"]) (auto simp: target_key_def)
    then show ?thesis
      using u(2) False roll \<open>\<not> active u\<close> by (auto simp: active_def)
  qed
qed

lemma stamps_stamp:
  assumes "stamps now us" and "now < t"
  shows "stamps t (map (\<lambda>u. if u = w then w\<lparr>u_checked := Some now\<rparr> else u) us)" (is "stamps t (map ?f us)")
proof -
  have same: "u_rollout (?f u) = u_rollout u" "target_key (?f u) = target_key u" "u_id (?f u) = u_id u" "u_created (?f u) = u_created u" for u
    by (auto simp: target_key_def)
  have "sequenced (map ?f us)"
    unfolding sequenced_def set_map ball_simps same
  proof (intro ballI impI allI)
    fix u n s assume "u \<in> set us" "n \<in> set us" "u_rollout u \<noteq> None" "target_key n = target_key u" "u_id n \<noteq> u_id u"
      and "u_checked (?f n) = Some s"
    then show "u_created n < u_created u \<or> u_created u < s"
      using assms(1) by (cases "n = w") (auto simp: stamps_def sequenced_def)
  qed
  then show ?thesis
    using assms by (fastforce simp: stamps_def)
qed

section \<open>Every statement keeps the invariants\<close>

lemma inv_at_mono: "inv_at now d \<Longrightarrow> now \<le> t \<Longrightarrow> inv_at t d"
  by (fastforce simp: inv_at_def stamps_def)

lemma write_inv:
  assumes "inv_at now d" and "now \<le> t" and "schema_ok (fst (f d)) \<Longrightarrow> inv_at t (fst (f d))"
  shows "inv_at t (snd (run_write f d))"
  by (rule run_write_keeps) (use assms inv_at_mono in blast)+

lemma history_map_if: "history_map f \<Longrightarrow> history_map (\<lambda>u. if P u then f u else u)"
  by (simp add: history_map_def)

lemma owner_inv_map: "history_map g \<Longrightarrow> owner_inv d \<Longrightarrow> owner_inv (d\<lparr>updates := map g (updates d)\<rparr>)"
  by (auto simp: owner_inv_def history_map_def target_key_def)

lemma set_updates_inv:
  assumes "history_map f" and "inv_at now d" and "schema_ok (fst (set_updates P f d))"
  shows "inv_at now (fst (set_updates P f d))"
proof -
  have h: "history_map (\<lambda>u. if P u then f u else u)"
    by (rule history_map_if) (rule assms)
  then have "owner_inv (fst (set_updates P f d))"
    using owner_inv_map [OF h, of d] assms(2) by (simp add: inv_at_def set_updates_def)
  then show ?thesis
    using assms(2,3) controls_map [OF h] stamps_map [OF h] by (simp add: inv_at_def mapping_inv_def)
qed

lemma update_columns_inv:
  assumes "history_map f" and "inv_at now d" and "now \<le> t"
  shows "inv_at t (snd (run_write (\<lambda>d. set_updates (P d) f d) d))"
  using assms by (intro write_inv set_updates_inv) (auto intro: inv_at_mono)

lemma column_history [simp]:
  "history_map (u_uuid_update x)" "history_map (u_mapping_update y)" "history_map (u_sourcemap_update z)"
  "history_map (\<lambda>u. u\<lparr>u_rollout := None\<rparr>)"
  by (simp_all add: history_map_def target_key_def)

lemma percentage_inv:
  assumes "inv_at now d" and "now \<le> t"
  shows "inv_at t (snd (setUpdateRolloutPercentage app name version percentage d))"
proof -
  let ?P = "\<lambda>d u. in_target d app name version u \<and> u_checked u \<noteq> None \<and> (\<exists>p \<in> set_option (u_rollout u). p < percentage)"
  let ?f = "\<lambda>u. u\<lparr>u_rollout := map_option (\<lambda>_. percentage) (u_rollout u)\<rparr>"
  have "set_updates (?P d) (\<lambda>u. u\<lparr>u_rollout := Some percentage\<rparr>) d = set_updates (?P d) ?f d" for d
    unfolding set_updates_def by (auto intro!: db.fold_congs map_cong)
  then have eq: "setUpdateRolloutPercentage app name version percentage = run_write (\<lambda>d. set_updates (?P d) ?f d)"
    by (simp only: setUpdateRolloutPercentage_def)
  show ?thesis
    unfolding eq by (rule update_columns_inv [OF _ assms]) (simp add: history_map_def target_key_def)
qed

text \<open>Statements on the other tables: the update history is the same.\<close>

lemma inv_at_frame:
  assumes "inv_at now d" and "updates d' = updates d" and "schema_ok d'" and "mapping_inv d'" and "owner_inv d'"
  shows "inv_at now d'"
  using assms by (simp add: inv_at_def)

lemma append_same_id:
  assumes "distinct (map f (xs @ [x]))" and "f x \<in> f ` set xs"
  shows False
  using assms by simp

lemma insertBranch_inv:
  assumes "inv_at now d" and "now \<le> t"
  shows "inv_at t (snd (insertBranch app name d))"
proof (cases app)
  case (Some a)
  let ?b = "\<lparr>b_id = next_id d, b_app = a, b_name = name, b_created = db_now d, b_protected = False\<rparr>"
  let ?d = "d\<lparr>branches := branches d @ [?b], next_id := next_id d + 1\<rparr>"
  have "inv_at t ?d" if ok: "schema_ok ?d"
  proof -
    have new: "next_id d \<notin> b_id ` set (branches d)"
      using ok unfolding schema_ok_def uniques_ok_def by simp
    have old: "schema_ok d" "mapping_inv d" "owner_inv d"
      using assms(1) by (simp_all add: inv_at_def)
    then have "mapping_inv ?d" "owner_inv ?d"
      using new schema_channel_branch [OF old(1)] schema_update_refs [OF old(1)] schema_rollout_refs [OF old(1)]
      by (fastforce simp: mapping_inv_def, fastforce simp: owner_inv_def)
    then show ?thesis
      using inv_at_frame [OF inv_at_mono [OF assms], of ?d] ok by simp
  qed
  then show ?thesis
    unfolding insertBranch_def Some option.case using assms by (intro write_inv) auto
qed (use assms in \<open>simp add: insertBranch_def inv_at_mono\<close>)

lemma insertRuntimeVersion_inv:
  assumes "inv_at now d" and "now \<le> t"
  shows "inv_at t (snd (insertRuntimeVersion app version d))"
proof (cases app)
  case (Some a)
  let ?v = "\<lparr>v_id = next_id d, v_app = a, v_version = version, v_created = db_now d, v_updated = db_now d\<rparr>"
  let ?d = "d\<lparr>runtimes := runtimes d @ [?v], next_id := next_id d + 1\<rparr>"
  have "inv_at t ?d" if ok: "schema_ok ?d"
  proof -
    have new: "next_id d \<notin> v_id ` set (runtimes d)"
      using ok unfolding schema_ok_def uniques_ok_def by simp
    have old: "schema_ok d" "mapping_inv d" "owner_inv d"
      using assms(1) by (simp_all add: inv_at_def)
    then have "mapping_inv ?d" "owner_inv ?d"
      using new schema_update_refs [OF old(1)] by (simp add: mapping_inv_def, fastforce simp: owner_inv_def)
    then show ?thesis
      using inv_at_frame [OF inv_at_mono [OF assms], of ?d] ok by simp
  qed
  then show ?thesis
    unfolding insertRuntimeVersion_def Some option.case using assms by (intro write_inv) auto
qed (use assms in \<open>simp add: insertRuntimeVersion_def inv_at_mono\<close>)

lemma mapping_inv_branches:
  assumes "mapping_inv d" and "\<And>b. b_id (g b) = b_id b \<and> b_app (g b) = b_app b"
  shows "mapping_inv (d\<lparr>branches := map g (branches d)\<rparr>)"
  using assms by (auto simp: mapping_inv_def)

lemma owner_inv_branches:
  assumes "owner_inv d" and "\<And>b. b_id (g b) = b_id b \<and> b_app (g b) = b_app b"
  shows "owner_inv (d\<lparr>branches := map g (branches d)\<rparr>)"
  using assms by (auto simp: owner_inv_def)

lemma mapping_inv_channels:
  assumes "mapping_inv d" and "\<And>c. c_id (g c) = c_id c \<and> c_app (g c) = c_app c \<and> c_branch (g c) = c_branch c"
  shows "mapping_inv (d\<lparr>channels := map g (channels d)\<rparr>)"
  using assms by (auto simp: mapping_inv_def)

lemma owner_inv_cong: "owner_inv d \<Longrightarrow> branches d' = branches d \<Longrightarrow> runtimes d' = runtimes d \<Longrightarrow>
    updates d' = updates d \<Longrightarrow> owner_inv d'"
  by (simp add: owner_inv_def)

lemma setBranchProtected_inv:
  assumes "inv_at now d" and "now \<le> t"
  shows "inv_at t (snd (setBranchProtected p app name d))"
  unfolding setBranchProtected_def Let_def
proof (rule write_inv [OF assms], unfold fst_conv)
  let ?g = "\<lambda>b. if Some (b_app b) = app \<and> b_name b = name then b\<lparr>b_protected := p\<rparr> else b"
  assume "schema_ok (d\<lparr>branches := map ?g (branches d)\<rparr>)"
  moreover have "mapping_inv (d\<lparr>branches := map ?g (branches d)\<rparr>)" "owner_inv (d\<lparr>branches := map ?g (branches d)\<rparr>)"
    using assms(1) by (simp_all add: inv_at_def mapping_inv_branches owner_inv_branches)
  ultimately show "inv_at t (d\<lparr>branches := map ?g (branches d)\<rparr>)"
    using inv_at_frame [OF inv_at_mono [OF assms]] by simp
qed

lemma deleteBranchByName_inv:
  assumes "inv_at now d" and "now \<le> t"
  shows "inv_at t (snd (deleteBranchByName name app d))"
  unfolding deleteBranchByName_def Let_def
  using assms inv_at_mono [OF assms]
  by (intro write_inv)
    (auto simp: inv_at_def mapping_inv_def owner_inv_def stamps_filter controls_filter [of _ "\<lambda>i. i \<notin> _"])

lemma deleteAppByID_inv:
  assumes "inv_at now d" and "now \<le> t"
  shows "inv_at t (snd (deleteAppByID app d))"
  unfolding deleteAppByID_def Let_def
  using assms inv_at_mono [OF assms]
  by (intro write_inv)
    (auto simp: inv_at_def mapping_inv_def owner_inv_def stamps_filter controls_filter [of _ "\<lambda>i. i \<notin> _"])

lemma updateChannelBranchSurfing_inv:
  assumes "inv_at now d" and "now \<le> t"
  shows "inv_at t (snd (updateChannelBranchSurfing app name enabled pattern d))"
  unfolding updateChannelBranchSurfing_def Let_def
proof (rule write_inv [OF assms], unfold fst_conv)
  let ?d = "d\<lparr>channels := map (\<lambda>c. if Some (c_app c) = app \<and> c_name c = name
      then c\<lparr>c_surf_enabled := enabled, c_surf_pattern := pattern\<rparr> else c) (channels d)\<rparr>"
  assume "schema_ok ?d"
  moreover have "mapping_inv ?d"
    using assms(1) by (intro mapping_inv_channels) (simp_all add: inv_at_def)
  ultimately show "inv_at t ?d"
    using inv_at_frame [OF inv_at_mono [OF assms], of ?d] assms(1) by (simp add: inv_at_def owner_inv_def)
qed

lemma deleteChannelByName_inv:
  assumes "inv_at now d" and "now \<le> t"
  shows "inv_at t (snd (deleteChannelByName name app d))"
  unfolding deleteChannelByName_def Let_def
  using assms inv_at_mono [OF assms]
  by (intro write_inv) (auto simp: inv_at_def mapping_inv_def owner_inv_def)

lemma insertChannel_inv:
  assumes "inv_at now d" and "now \<le> t"
    and app: "pred_option (\<lambda>i. \<forall>b \<in> set (branches d). b_id b = i \<longrightarrow> Some (b_app b) = app) branch"
  shows "inv_at t (snd (insertChannel app branch name d))"
proof (cases app)
  case (Some a)
  let ?c = "\<lparr>c_id = next_id d, c_app = a, c_branch = branch, c_name = name, c_created = db_now d,
           c_surf_enabled = False, c_surf_pattern = []\<rparr>"
  let ?d = "d\<lparr>channels := channels d @ [?c], next_id := next_id d + 1\<rparr>"
  have "inv_at t ?d" if ok: "schema_ok ?d"
  proof -
    have new: "next_id d \<notin> c_id ` set (channels d)"
      using ok unfolding schema_ok_def uniques_ok_def by simp
    have old: "schema_ok d" "mapping_inv d" "owner_inv d"
      using assms(1) by (simp_all add: inv_at_def)
    then have "mapping_inv ?d" "owner_inv ?d"
      using new schema_rollout_refs [OF old(1)] app Some
      by (fastforce simp: mapping_inv_def, simp add: owner_inv_def)
    then show ?thesis
      using inv_at_frame [OF inv_at_mono [OF assms(1,2)], of ?d] ok by simp
  qed
  then show ?thesis
    unfolding insertChannel_def Some option.case using assms by (intro write_inv) auto
qed (use assms in \<open>simp add: insertChannel_def inv_at_mono\<close>)

lemma rollout_of_None: "rollout_of d i = None \<longleftrightarrow> (\<forall>r \<in> set (rollouts d). r_channel r \<noteq> i)"
  by (auto simp: rollout_of_def find_None_iff)

lemma updateChannelBranchMapping_inv:
  assumes "inv_at now d" and "now \<le> t"
  shows "inv_at t (snd (updateChannelBranchMapping branch app channel d))"
  unfolding updateChannelBranchMapping_def Let_def
proof (rule write_inv [OF assms], unfold fst_conv)
  let ?hit = "\<lambda>c. Some (c_app c) = app \<and> c_id c = channel
      \<and> list_ex (\<lambda>b. b_id b = branch \<and> Some (b_app b) = app) (branches d) \<and> rollout_of d (c_id c) = None"
  let ?d = "d\<lparr>channels := map (\<lambda>c. if ?hit c then c\<lparr>c_branch := Some branch\<rparr> else c) (channels d)\<rparr>"
  assume ok: "schema_ok ?d"
  have old: "schema_ok d" "mapping_inv d" "owner_inv d"
    using assms(1) by (simp_all add: inv_at_def)
  have hit: "?hit c \<Longrightarrow> b \<in> set (branches d) \<Longrightarrow> b_id b = branch \<Longrightarrow> b_app b = c_app c"
      "?hit c \<Longrightarrow> r \<in> set (rollouts d) \<Longrightarrow> r_channel r \<noteq> c_id c" for c b r
    using schema_branch_id [OF old(1)] unfolding list_ex_iff rollout_of_None by (metis option.inject, blast)
  have "mapping_inv ?d"
    unfolding mapping_inv_def
  proof (intro conjI ballI impI)
    fix c b assume "c \<in> set (channels ?d)" "b \<in> set (branches ?d)" "c_branch c = Some (b_id b)"
    then show "b_app b = c_app c"
      using old(2) hit(1) by (auto simp: mapping_inv_def split: if_splits)
  next
    fix r c assume r: "r \<in> set (rollouts ?d)" "c \<in> set (channels ?d)" "c_id c = r_channel r"
    then have "c \<in> set (channels d)"
      using hit(2) by fastforce
    with r show "c_branch c \<noteq> None" "c_branch c \<noteq> Some (r_branch r)"
        and "\<And>b. b \<in> set (branches ?d) \<Longrightarrow> b_id b = r_branch r \<Longrightarrow> b_app b = c_app c"
      using old(2) by (auto simp: mapping_inv_def)
  qed
  then show "inv_at t ?d"
    using inv_at_frame [OF inv_at_mono [OF assms], of ?d] ok old(3) by (simp add: owner_inv_def)
qed

lemma insertChannelRollout_inv:
  assumes "inv_at now d" and "now \<le> t"
  shows "inv_at t (snd (insertChannelRollout rid percentage app name branch d))"
  unfolding insertChannelRollout_def Let_def
proof (rule write_inv [OF assms], unfold fst_conv, goal_cases)
  case 1
  have old: "schema_ok d" "mapping_inv d" "owner_inv d"
    using assms(1) by (simp_all add: inv_at_def)
  show ?case
  proof (rule inv_at_frame [OF inv_at_mono [OF assms] _ 1])
    show "mapping_inv (d\<lparr>rollouts := rollouts d @
        [\<lparr>r_id = rid, r_channel = c_id c, r_branch = b_id rb, r_percentage = percentage, r_created = db_now d, r_updated = db_now d\<rparr>.
          c \<leftarrow> channels d, Some (c_app c) = app \<and> c_name c = name \<and> c_branch c \<noteq> None,
          rb \<leftarrow> branches d, b_app rb = c_app c \<and> b_name rb = branch \<and> Some (b_id rb) \<noteq> c_branch c]\<rparr>)"
      using old(2) schema_channel_id [OF old(1)] schema_branch_id [OF old(1)]
      unfolding mapping_inv_def by (auto split: if_splits) (metis option.inject)+
  qed (use old in \<open>simp_all add: owner_inv_def\<close>)
qed

lemma updateChannelRolloutPercentage_inv:
  assumes "inv_at now d" and "now \<le> t"
  shows "inv_at t (snd (updateChannelRolloutPercentage percentage app name d))"
  unfolding updateChannelRolloutPercentage_def Let_def
proof (rule write_inv [OF assms], unfold fst_conv, goal_cases)
  case 1
  have "mapping_inv d \<Longrightarrow> (\<And>r. r_channel (g r) = r_channel r \<and> r_branch (g r) = r_branch r) \<Longrightarrow>
      mapping_inv (d\<lparr>rollouts := map g (rollouts d)\<rparr>)" for g
    by (auto simp: mapping_inv_def)
  then show ?case
    using assms(1) inv_at_frame [OF inv_at_mono [OF assms] _ 1] by (simp add: inv_at_def owner_inv_def)
qed

lemma deleteChannelRollout_inv:
  assumes "inv_at now d" and "now \<le> t"
  shows "inv_at t (snd (deleteChannelRollout app name d))"
  unfolding deleteChannelRollout_def Let_def
  using assms inv_at_mono [OF assms]
  by (intro write_inv) (auto simp: inv_at_def mapping_inv_def owner_inv_def)

lemma find_map: "find P (map g xs) = map_option g (find (\<lambda>x. P (g x)) xs)"
  by (induction xs) auto

text \<open>The promotion as a whole: it changes nothing, or it repoints exactly the channel that has a
  rollout to the rollout's branch and drops that rollout.\<close>

definition promoted :: "db \<Rightarrow> channel_row \<Rightarrow> rollout_row \<Rightarrow> db" where
  "promoted d c r = d\<lparr>channels := map (\<lambda>c'. if c' = c then c\<lparr>c_branch := Some (r_branch r)\<rparr> else c') (channels d),
     rollouts := filter (\<lambda>r'. r_channel r' \<noteq> c_id c) (rollouts d)\<rparr>"

lemma repoint_run:
  assumes "schema_ok d" and "channel_named d app name = Some c" and "rollout_of d (c_id c) = Some r"
  shows "repointChannelToRolloutBranch app name d =
    (let d' = d\<lparr>channels := map (\<lambda>c'. if c' = c then c\<lparr>c_branch := Some (r_branch r)\<rparr> else c') (channels d)\<rparr>
     in if schema_ok d' then (Inr 1, d') else (Inl (schema_error d'), d))"
proof -
  have c: "c \<in> set (channels d)" "Some (c_app c) = app" "c_name c = name"
    using channel_named_Some [OF assms(2)] by auto
  have hit: "Some (c_app c') = app \<and> c_name c' = name \<and> rollout_of d (c_id c') \<noteq> None \<longleftrightarrow> c' = c"
    if "c' \<in> set (channels d)" for c'
    using that c assms(3) schema_channel_name [OF assms(1)] by (metis option.distinct(1) option.inject)
  have "filter (\<lambda>c'. Some (c_app c') = app \<and> c_name c' = name \<and> rollout_of d (c_id c') \<noteq> None) (channels d)
      = filter (\<lambda>c'. c' = c) (channels d)"
    using hit by (intro filter_cong) auto
  moreover have "distinct (channels d)"
    using assms(1) by (auto simp: schema_ok_def uniques_ok_def distinct_map)
  then have "length (filter (\<lambda>c'. c' = c) (channels d)) = 1"
    using c(1) by (simp add: distinct_length_filter Int_commute)
  moreover have "map (\<lambda>c'. if Some (c_app c') = app \<and> c_name c' = name \<and> rollout_of d (c_id c') \<noteq> None
        then c'\<lparr>c_branch := map_option r_branch (rollout_of d (c_id c'))\<rparr> else c') (channels d)
      = map (\<lambda>c'. if c' = c then c\<lparr>c_branch := Some (r_branch r)\<rparr> else c') (channels d)"
    using hit assms(3) by (intro map_cong) auto
  ultimately show ?thesis
    by (simp only: repointChannelToRolloutBranch_def run_write_run Let_def fst_conv snd_conv) simp
qed

lemma repoint_none:
  assumes "schema_ok d" and "Option.bind (channel_named d app name) (\<lambda>c. rollout_of d (c_id c)) = None"
  shows "repointChannelToRolloutBranch app name d = (Inr 0, d)"
proof -
  have no: "\<not> (Some (c_app c) = app \<and> c_name c = name \<and> rollout_of d (c_id c) \<noteq> None)" if "c \<in> set (channels d)" for c
    using that assms channel_named_eq [OF assms(1) that] by auto
  then have "filter (\<lambda>c. Some (c_app c) = app \<and> c_name c = name \<and> rollout_of d (c_id c) \<noteq> None) (channels d) = []"
      "map (\<lambda>c. if Some (c_app c) = app \<and> c_name c = name \<and> rollout_of d (c_id c) \<noteq> None
        then c\<lparr>c_branch := map_option r_branch (rollout_of d (c_id c))\<rparr> else c) (channels d) = channels d"
    by (simp_all only: filter_empty_conv) (auto intro!: map_idI dest: no)
  then show ?thesis
    using assms(1) by (simp add: repointChannelToRolloutBranch_def run_write_run)
qed

lemma delete_after_repoint:
  assumes "channel_named d app name = Some c" and "schema_ok d"
  shows "deleteChannelRollout app name
      (d\<lparr>channels := map (\<lambda>c'. if c' = c then c\<lparr>c_branch := b\<rparr> else c') (channels d)\<rparr>)
    = (let d' = d\<lparr>channels := map (\<lambda>c'. if c' = c then c\<lparr>c_branch := b\<rparr> else c') (channels d),
           rollouts := filter (\<lambda>r'. r_channel r' \<noteq> c_id c) (rollouts d)\<rparr>
       in if schema_ok d' then (Inr (int (length (filter (\<lambda>r'. r_channel r' = c_id c) (rollouts d)))), d')
          else (Inl (schema_error d'), d\<lparr>channels := map (\<lambda>c'. if c' = c then c\<lparr>c_branch := b\<rparr> else c') (channels d)\<rparr>))"
proof -
  have k: "map_option c_id (channel_named (d\<lparr>channels := map (\<lambda>c'. if c' = c then c\<lparr>c_branch := b\<rparr> else c') (channels d)\<rparr>) app name)
      = Some (c_id c)"
  proof -
    let ?g = "\<lambda>c'. if c' = c then c\<lparr>c_branch := b\<rparr> else c'"
    have "(\<lambda>x. Some (c_app (?g x)) = app \<and> c_name (?g x) = name) = (\<lambda>x. Some (c_app x) = app \<and> c_name x = name)"
      by auto
    then show ?thesis
      using assms(1) unfolding channel_named_def by (simp add: find_map)
  qed
  show ?thesis
    by (simp only: deleteChannelRollout_def run_write_run Let_def fst_conv snd_conv k option.inject) simp
qed

lemma promote_run:
  assumes "schema_ok d" and "channel_named d app name = Some c" and "rollout_of d (c_id c) = Some r"
  shows "promoteChannelRollout app name d = (Inr 1, promoted d c r) \<and> schema_ok (promoted d c r)
    \<or> (\<exists>e. promoteChannelRollout app name d = (Inl e, d))"
  using assms
  by (auto simp: promoteChannelRollout_def WithTx_def bindE_run repoint_run delete_after_repoint promoted_def Let_def)

lemma promote_none:
  assumes "schema_ok d" and "Option.bind (channel_named d app name) (\<lambda>c. rollout_of d (c_id c)) = None"
  shows "promoteChannelRollout app name d = (Inr 0, d)"
  using assms by (simp add: promoteChannelRollout_def WithTx_def bindE_run repoint_none)

lemma promoted_mapping:
  assumes "schema_ok d" and "mapping_inv d" and "c \<in> set (channels d)" and "rollout_of d (c_id c) = Some r"
  shows "mapping_inv (promoted d c r)"
proof -
  have r: "r \<in> set (rollouts d)" "r_channel r = c_id c"
    using rollout_of_Some [OF assms(4)] by auto
  have "b_app b = c_app c" if "b \<in> set (branches d)" "b_id b = r_branch r" for b
    using that assms(2,3) r unfolding mapping_inv_def by metis
  moreover have "c' \<in> set (channels d) \<Longrightarrow> c_id c' = c_id c \<Longrightarrow> c' = c" for c'
    using schema_channel_id [OF assms(1)] assms(3) by blast
  ultimately show ?thesis
    using assms(2,3) by (auto simp: mapping_inv_def promoted_def)
qed

lemma promoteChannelRollout_inv:
  assumes "inv_at now d" and "now \<le> t"
  shows "inv_at t (snd (promoteChannelRollout app name d))"
proof (cases "Option.bind (channel_named d app name) (\<lambda>c. rollout_of d (c_id c))")
  case None
  then show ?thesis
    using assms promote_none [of d app name] inv_at_mono by (simp add: inv_at_def)
next
  case (Some r)
  then obtain c where c: "channel_named d app name = Some c" "rollout_of d (c_id c) = Some r"
    by (auto simp: bind_eq_Some_conv)
  have old: "schema_ok d" "mapping_inv d" "owner_inv d"
    using assms(1) by (simp_all add: inv_at_def)
  have "inv_at t (promoted d c r)" if "schema_ok (promoted d c r)"
    using inv_at_frame [OF inv_at_mono [OF assms], of "promoted d c r"] that promoted_mapping [OF old(1,2) _ c(2)]
      channel_named_Some [OF c(1)] old(3) by (simp add: promoted_def owner_inv_def)
  then show ?thesis
    using promote_run [OF old(1) c] inv_at_mono [OF assms] by auto
qed

text \<open>New updates.\<close>

lemma add_update_owner:
  assumes "schema_ok d" and "owner_inv d"
    and b: "b \<in> set (branches d)" "b_id b = u_branch w" and v: "v \<in> set (runtimes d)" "v_id v = u_runtime w"
    and "b_app b = v_app v"
  shows "owner_inv (add_update w d)"
  unfolding owner_inv_def
proof (intro ballI impI)
  fix u b' v' assume u: "u \<in> set (updates (add_update w d))" "b' \<in> set (branches (add_update w d))"
    "v' \<in> set (runtimes (add_update w d))" "b_id b' = u_branch u" "v_id v' = u_runtime u"
  show "b_app b' = v_app v'"
  proof (cases "u = w")
    case True
    then have "b' = b" "v' = v"
      using u b v schema_branch_id [OF assms(1)] schema_runtime_id [OF assms(1)] by (simp_all add: add_update_def)
    then show ?thesis
      using assms(7) by simp
  qed (use u assms(2) in \<open>simp add: owner_inv_def add_update_def\<close>)
qed

lemma add_update_inv:
  assumes "inv_at (db_now d) d" and "db_now d < t" and ok: "schema_ok (add_update w d)"
    and "u_checked w = None" and "u_created w = db_now d" and control: "u_rollout w \<noteq> None \<Longrightarrow> control_exact (updates d) w"
    and b: "b \<in> set (branches d)" "b_id b = u_branch w" and v: "v \<in> set (runtimes d)" "v_id v = u_runtime w"
    and "b_app b = v_app v"
  shows "inv_at t (add_update w d)"
proof -
  have old: "schema_ok d" "mapping_inv d" "owner_inv d" "controls (updates d)" "stamps (db_now d) (updates d)"
    using assms(1) by (simp_all add: inv_at_def)
  show ?thesis
    using ok old(2) add_update_owner [OF old(1,3) b v assms(11)] controls_append [OF old(4) assms(4) control]
      stamps_append [OF old(5) assms(4,5,2)]
    by (simp add: inv_at_def mapping_inv_def add_update_def)
qed

lemma insertUpdate_inv:
  assumes "inv_at (db_now d) d" and "db_now d < t"
  shows "inv_at t (snd (insertUpdate i name app version ty platform commit msg grp d))"
proof (cases "branch_named d app name = None \<or> runtime_named d app version = None")
  case True
  then show ?thesis
    using inv_at_mono [OF assms(1), of t] assms(2) by (auto simp: insertUpdate_def split: option.splits)
next
  case False
  then obtain b v where bv: "branch_named d app name = Some b" "runtime_named d app version = Some v"
    by auto
  show ?thesis
    unfolding insertUpdate_def bv option.case prod.case Let_def
    using assms branch_named_Some [OF bv(1)] runtime_named_Some [OF bv(2)]
    by (intro write_inv [OF assms(1)]) (auto intro!: add_update_inv [where b = b and v = v] simp: new_update_def)
qed

lemma insertUpdateWithRollout_inv:
  assumes "inv_at (db_now d) d" and "db_now d < t"
  shows "inv_at t (snd (insertUpdateWithRollout i name app version ty platform commit msg percentage grp d))"
proof (cases "branch_named d app name = None \<or> runtime_named d app version = None")
  case True
  then show ?thesis
    using inv_at_mono [OF assms(1), of t] assms(2) by (auto simp: insertUpdateWithRollout_def split: option.splits)
next
  case False
  then obtain b v where bv: "branch_named d app name = Some b" "runtime_named d app version = Some v"
    by auto
  let ?rows = "filter (\<lambda>u. u_branch u = b_id b \<and> u_runtime u = v_id v \<and> u_platform u = platform \<and> u_checked u \<noteq> None) (updates d)"
  let ?w = "(new_update i b v ty platform commit msg grp (db_now d))\<lparr>u_rollout := Some percentage,
      u_control := map_option u_id (newest ?rows)\<rparr>"
  have "inv_at t (add_update ?w d)" if ok: "schema_ok (add_update ?w d)"
  proof (rule add_update_inv [OF assms ok])
    have "(b_id b, i) \<notin> (\<lambda>u. (u_branch u, u_id u)) ` set (updates d)"
      using ok by (simp add: schema_ok_def uniques_ok_def add_update_def new_update_def)
    then have "u \<in> set (updates d) \<Longrightarrow> u_branch u = b_id b \<Longrightarrow> u_id u \<noteq> i" for u
      by force
    then have "others (updates d) ?w = ?rows"
      unfolding others_def by (intro filter_cong) (auto simp: new_update_def target_key_def)
    then show "control_exact (updates d) ?w"
      by (simp add: control_exact_def)
  qed (use branch_named_Some [OF bv(1)] runtime_named_Some [OF bv(2)] in \<open>auto simp: new_update_def\<close>)
  then show ?thesis
    unfolding insertUpdateWithRollout_def bv option.case prod.case Let_def
    using assms by (intro write_inv [OF assms(1)]) auto
qed

text \<open>The import.\<close>

lemma importUpdate_inv:
  assumes "inv_at (db_now d) d" and "db_now d < t" and free: "rollout_free d app name version platform" and "created \<le> db_now d"
  shows "inv_at t (snd (importUpdate i app name version ty platform commit msg created uuid created grp mapping d))"
proof (cases "branch_named d app name = None \<or> runtime_named d app version = None")
  case True
  then show ?thesis
    using inv_at_mono [OF assms(1), of t] assms(2) by (auto simp: importUpdate_def split: option.splits)
next
  case False
  then obtain b v where bv: "branch_named d app name = Some b" "runtime_named d app version = Some v"
    by auto
  have old: "schema_ok d" "mapping_inv d" "owner_inv d" "controls (updates d)" "stamps (db_now d) (updates d)"
    using assms(1) by (simp_all add: inv_at_def)
  let ?w = "(new_update i b v ty platform commit msg grp created)\<lparr>u_checked := Some created, u_uuid := uuid, u_mapping := mapping\<rparr>"
  have row: "u_branch ?w = b_id b" "u_runtime ?w = v_id v" "u_rollout ?w = None" "u_created ?w = created" "u_checked ?w = Some created"
    by (simp_all add: new_update_def)
  have none: "\<forall>u \<in> set (updates d). target_key u = target_key ?w \<longrightarrow> u_rollout u = None"
    using free by (auto simp: rollout_free_def in_target_def bv list_all_iff target_key_def new_update_def)
  have "stamps t (updates d @ [?w])"
    by (rule stamps_import [OF old(5) _ _ assms(2) none]) (simp_all add: row assms(4))
  moreover have "owner_inv (add_update ?w d)"
    using branch_named_Some [OF bv(1)] runtime_named_Some [OF bv(2)] row by (intro add_update_owner [OF old(1,3), of b _ v]) auto
  ultimately have "inv_at t (add_update ?w d)" if "schema_ok (add_update ?w d)"
    using that old(2) controls_import [OF old(4) none row(3)] by (simp add: inv_at_def mapping_inv_def add_update_def)
  then have "inv_at t (snd (run_write (\<lambda>d. (add_update ?w d, 1 :: int)) d))"
    using assms(2) by (intro write_inv [OF assms(1)]) auto
  then show ?thesis
    using inv_at_mono [OF assms(1), of t] assms(2) by (simp add: importUpdate_def bv)
qed

text \<open>The stamp.\<close>

lemma stamp_run:
  assumes "schema_ok d" and "w \<in> set (updates d)" and "u_id w = i" and "on_branch d app name w" and "stamp_allowed d w"
  shows "\<exists>d'. updates d' = map (\<lambda>u. if u = w then w\<lparr>u_checked := Some (db_now d)\<rparr> else u) (updates d)
    \<and> runtimes d' = map (\<lambda>v. if v_id v = u_runtime w then v\<lparr>v_updated := db_now d\<rparr> else v) (runtimes d)
    \<and> branches d' = branches d \<and> channels d' = channels d \<and> rollouts d' = rollouts d \<and> apps d' = apps d
    \<and> db_now d' = db_now d
    \<and> markUpdateAsChecked i app name d = (if schema_ok d' then (Inr 1, d') else (Inl (schema_error d'), d))"
proof -
  let ?hit = "\<lambda>u. u_id u = i \<and> on_branch d app name u \<and> stamp_allowed d u"
  have hit: "?hit u \<longleftrightarrow> u = w" if "u \<in> set (updates d)" for u
    using that assms schema_update_id [OF assms(1)] unfolding on_branch_named [OF assms(1)] by (metis option.inject)
  have f: "filter ?hit (updates d) = filter (\<lambda>u. u = w) (updates d)"
    using hit by (intro filter_cong) auto
  have m: "map (\<lambda>u. if ?hit u then u\<lparr>u_checked := Some (db_now d)\<rparr> else u) (updates d)
      = map (\<lambda>u. if u = w then w\<lparr>u_checked := Some (db_now d)\<rparr> else u) (updates d)"
    using hit by (intro map_cong) auto
  have touched: "u_runtime ` set (filter (\<lambda>u. u = w) (updates d)) = {u_runtime w}"
    using assms(2) by auto
  obtain v where v: "v \<in> set (runtimes d)" "v_id v = u_runtime w"
    using schema_update_refs [OF assms(1,2)] by auto
  then have "filter (\<lambda>v'. v_id v' = u_runtime w) (runtimes d) = filter (\<lambda>v'. v' = v) (runtimes d)"
    using schema_runtime_id [OF assms(1)] by (intro filter_cong) auto
  moreover have "distinct (runtimes d)"
    using assms(1) by (auto simp: schema_ok_def uniques_ok_def distinct_map)
  ultimately have one: "length (filter (\<lambda>v'. v_id v' = u_runtime w) (runtimes d)) = 1"
    using v(1) by (simp add: distinct_length_filter Int_commute)
  show ?thesis
    by (rule exI [of _ "d\<lparr>updates := map (\<lambda>u. if u = w then w\<lparr>u_checked := Some (db_now d)\<rparr> else u) (updates d),
        runtimes := map (\<lambda>v. if v_id v = u_runtime w then v\<lparr>v_updated := db_now d\<rparr> else v) (runtimes d)\<rparr>"])
      (simp only: markUpdateAsChecked_def run_write_run Let_def fst_conv snd_conv m f touched singleton_iff one of_nat_1; simp)
qed

lemma stamp_none:
  assumes "schema_ok d" and "\<not> (\<exists>w \<in> set (updates d). u_id w = i \<and> on_branch d app name w \<and> stamp_allowed d w)"
  shows "markUpdateAsChecked i app name d = (Inr 0, d)"
proof -
  let ?hit = "\<lambda>u. u_id u = i \<and> on_branch d app name u \<and> stamp_allowed d u"
  have f: "filter ?hit (updates d) = []"
    using assms(2) by (simp only: filter_empty_conv) blast
  have m: "map (\<lambda>u. if ?hit u then u\<lparr>u_checked := Some (db_now d)\<rparr> else u) (updates d) = updates d"
    using assms(2) by (intro map_idI) auto
  show ?thesis
    using assms(1) by (simp only: markUpdateAsChecked_def run_write_run Let_def fst_conv snd_conv f m) simp
qed

lemma markUpdateAsChecked_inv:
  assumes "inv_at (db_now d) d" and "db_now d < t"
  shows "inv_at t (snd (markUpdateAsChecked i app name d))"
proof (cases "\<exists>w \<in> set (updates d). u_id w = i \<and> on_branch d app name w \<and> stamp_allowed d w")
  case False
  then show ?thesis
    using stamp_none [of d i app name] assms inv_at_mono [of "db_now d" d t] by (simp add: inv_at_def)
next
  case True
  then obtain w where w: "w \<in> set (updates d)" "u_id w = i" "on_branch d app name w" "stamp_allowed d w"
    by blast
  have old: "schema_ok d" "mapping_inv d" "owner_inv d" "controls (updates d)" "stamps (db_now d) (updates d)"
    using assms(1) by (simp_all add: inv_at_def)
  obtain d' where d': "updates d' = map (\<lambda>u. if u = w then w\<lparr>u_checked := Some (db_now d)\<rparr> else u) (updates d)"
      "runtimes d' = map (\<lambda>v. if v_id v = u_runtime w then v\<lparr>v_updated := db_now d\<rparr> else v) (runtimes d)"
      "branches d' = branches d" "channels d' = channels d" "rollouts d' = rollouts d"
      "markUpdateAsChecked i app name d = (if schema_ok d' then (Inr 1, d') else (Inl (schema_error d'), d))"
    using stamp_run [OF old(1) w] by blast
  have "inv_at t d'" if ok: "schema_ok d'"
  proof -
    let ?f = "\<lambda>u. if u = w then w\<lparr>u_checked := Some (db_now d)\<rparr> else u"
    have unique: "a = w" if "a \<in> set (updates d)" "target_key a = target_key w" "active a" "u_rollout w \<noteq> None" for a
    proof (rule ccontr)
      assume "a \<noteq> w"
      then have "a = ?f w"
        using that w(1) ok by (intro schema_active [OF ok]) (auto simp: d'(1) active_def target_key_def)
      then show False
        using \<open>a \<noteq> w\<close> that(1) w(1) schema_update_id [OF old(1), of a w] by simp
    qed
    have "controls (updates d')"
      unfolding d'(1)
    proof (rule controls_stamp [OF old(4)])
      show "\<forall>u\<in>set (updates d). u_created u < db_now d"
        using old(5) by (simp add: stamps_def)
      show "\<And>u. u \<in> set (updates d) \<Longrightarrow> u_branch u = u_branch w \<Longrightarrow> u_id u = u_id w \<Longrightarrow> u = w"
        using schema_update_id [OF old(1)] w(1) by blast
      show "u_rollout w = None \<Longrightarrow> \<forall>a\<in>set (updates d). target_key a = target_key w \<longrightarrow> \<not> active a"
        using w(4) by (auto simp: stamp_allowed_def list_ex_iff)
      show "u_rollout w \<noteq> None \<Longrightarrow> \<not> overtaken (updates d) w \<and>
          (\<forall>a\<in>set (updates d). target_key a = target_key w \<longrightarrow> active a \<longrightarrow> a = w)"
        using w(4) unique by (auto simp: stamp_allowed_def list_ex_iff overtaken_def)
    qed (rule w(1))
    moreover have "stamps t (updates d')"
      unfolding d'(1) by (rule stamps_stamp [OF old(5) assms(2)])
    moreover have "owner_inv d'"
      using old(3) w(1) unfolding owner_inv_def d'(1,2,3) by (auto split: if_splits)
    moreover have "mapping_inv d'"
      using old(2) by (simp add: mapping_inv_def d'(3-5))
    ultimately show ?thesis
      using ok by (simp add: inv_at_def)
  qed
  then show ?thesis
    using d'(6) inv_at_mono [OF assms(1), of t] assms(2) by simp
qed

lemma register_app_inv: "inv_at now d \<Longrightarrow> now \<le> t \<Longrightarrow> inv_at t (d\<lparr>apps := a # apps d\<rparr>)"
  using inv_at_mono [of now d t]
  by (auto simp: inv_at_def mapping_inv_def owner_inv_def schema_ok_def checks_ok_def uniques_ok_def refs_ok_def list_all_iff)

lemmas statement_inv = register_app_inv deleteAppByID_inv insertBranch_inv deleteBranchByName_inv setBranchProtected_inv
  insertChannel_inv deleteChannelByName_inv updateChannelBranchSurfing_inv updateChannelBranchMapping_inv
  insertRuntimeVersion_inv insertChannelRollout_inv updateChannelRolloutPercentage_inv deleteChannelRollout_inv
  promoteChannelRollout_inv insertUpdate_inv insertUpdateWithRollout_inv importUpdate_inv markUpdateAsChecked_inv percentage_inv
  update_columns_inv

lemma db_write_inv:
  assumes "db_write d d'" and "db_inv d" and "db_now d < t"
  shows "inv_at t d'"
  using assms(1)
proof cases
qed (use assms(2,3) in \<open>auto simp: db_inv_def clearUpdateRollout_def storeUpdateUUID_def setUpdateAssetMapping_def
    setUpdateSourcemapHash_def intro!: statement_inv\<close>)

section \<open>Reachable states\<close>

lemma inv_at_clock [simp]: "inv_at now (d\<lparr>db_now := t\<rparr>) \<longleftrightarrow> inv_at now d"
  by (simp add: inv_at_def mapping_inv_def owner_inv_def schema_ok_def checks_ok_def uniques_ok_def refs_ok_def)

lemma run_write_now: "(\<And>d. db_now (fst (f d)) = db_now d) \<Longrightarrow> db_now (snd (run_write f d)) = db_now d"
  by (simp add: run_write_run)

lemma db_write_now: "db_write d d' \<Longrightarrow> db_now d' = db_now d"
proof (induction rule: db_write.induct)
  case (promote_rollout d app name)
  show ?case
    by (auto simp: promoteChannelRollout_def WithTx_def bindE_run repointChannelToRolloutBranch_def
        deleteChannelRollout_def run_write_run Let_def)
qed (auto intro!: run_write_now simp: deleteAppByID_def importUpdate_def insertBranch_def deleteBranchByName_def setBranchProtected_def insertChannel_def
    deleteChannelByName_def updateChannelBranchSurfing_def updateChannelBranchMapping_def insertRuntimeVersion_def
    insertChannelRollout_def updateChannelRolloutPercentage_def deleteChannelRollout_def insertUpdate_def
    insertUpdateWithRollout_def markUpdateAsChecked_def setUpdateRolloutPercentage_def clearUpdateRollout_def
    storeUpdateUUID_def setUpdateAssetMapping_def setUpdateSourcemapHash_def add_update_def Let_def
    split: option.splits)

lemma empty_db_inv: "db_inv empty_db"
  by (simp add: db_inv_def inv_at_def empty_db_def schema_ok_def checks_ok_def uniques_ok_def refs_ok_def
      mapping_inv_def owner_inv_def controls_def stamps_def sequenced_def map_filter_simps)

lemma reachable_inv: "reachable d \<Longrightarrow> db_inv d"
proof (induction rule: reachable.induct)
  case (step d d' t)
  then have "db_now d < t"
    using db_write_now by simp
  then show ?case
    using db_write_inv [OF step(2) step(4)] by (simp add: db_inv_def)
qed (rule empty_db_inv)

text \<open>The head of a target in terms of its history.\<close>

definition ids_ordered :: "db \<Rightarrow> bool" where
  "ids_ordered d \<longleftrightarrow> (\<forall>u \<in> set (updates d). \<forall>n \<in> set (updates d).
     target_key n = target_key u \<longrightarrow> u_created n < u_created u \<longrightarrow> u_id n < u_id u)"

lemma serving_target:
  assumes "db_inv d" and "b \<in> set (branches d)" and "v \<in> set (runtimes d)" and "b_app b = v_app v" and "n \<in> set (updates d)"
  shows "serving d (Some (b_app b)) (b_name b) (v_version v) platform n
    \<longleftrightarrow> target_key n = (b_id b, v_id v, platform) \<and> u_checked n \<noteq> None"
proof -
  have ok: "schema_ok d" "owner_inv d"
    using assms(1) by (simp_all add: db_inv_def inv_at_def)
  have "u_branch n = b_id b \<Longrightarrow> v' \<in> set (runtimes d) \<Longrightarrow> v_id v' = u_runtime n \<Longrightarrow> v_version v' = v_version v \<Longrightarrow> v' = v" for v'
    using assms ok(2) schema_runtime_version [OF ok(1), of v' v] unfolding owner_inv_def by (metis (no_types))
  then show ?thesis
    using assms(3) unfolding serving_def on_branch_eq [OF ok(1) assms(2)] on_runtime_def list_ex_iff target_key_def
    by (auto simp: eq_commute)
qed

lemma active_rollout_latest:
  assumes "db_inv d" and "u \<in> set (updates d)" and "active u" and "ids_ordered d"
    and "n \<in> set (updates d)" and "target_key n = target_key u" and "u_checked n \<noteq> None" and "n \<noteq> u"
  shows "u_id n < u_id u"
proof -
  have inv: "schema_ok d" "controls (updates d)" "stamps (db_now d) (updates d)"
    using assms(1) by (simp_all add: db_inv_def inv_at_def)
  have "u_id n \<noteq> u_id u"
    using schema_update_id [OF inv(1) assms(5,2)] assms(6,8) by (auto simp: target_key_def)
  moreover have "\<not> overtaken (updates d) u"
    using inv(2) assms(2,3) by (auto simp: controls_def active_def)
  ultimately have "u_created n < u_created u"
    using inv(3) assms(2,3,5-7) unfolding stamps_def sequenced_def overtaken_def active_def by blast
  then show ?thesis
    using assms(2,4-6) by (simp add: ids_ordered_def)
qed

lemma update_owner:
  assumes "db_inv d" and "u \<in> set (updates d)"
  obtains b v where "b \<in> set (branches d)" "b_id b = u_branch u" "v \<in> set (runtimes d)" "v_id v = u_runtime u" "b_app b = v_app v"
  using schema_update_refs [of d u] assms unfolding db_inv_def inv_at_def owner_inv_def by auto

section \<open>Properties\<close>

text \<open>C4. One rollout per target, and its control is exact.  In every state that the statements of \<^const>\<open>db_write\<close> reach, in
  whatever order they ran (publishing, management, deletion of apps, and the import of a history onto targets that have no
  rollout), a branch, runtime version and platform have at most one active update rollout, its percentage is between 1 and
  99, and the update its out-of-rollout devices are given is the one with the largest id among the checked updates of the target
  other than the rollout itself, none exactly when there is no other.  An import onto a target with a rollout is not
  covered: it has no rollout guard.\<close>

theorem active_rollout_control:
  assumes "reachable d" and "u \<in> set (updates d)" and "active u"
  shows "(\<forall>u' \<in> set (updates d). active u' \<longrightarrow> target_key u' = target_key u \<longrightarrow> u' = u)
    \<and> pred_option percentage_ok (u_rollout u)
    \<and> u_control u = map_option u_id (newest (others (updates d) u))"
proof -
  have inv: "schema_ok d" "controls (updates d)"
    using reachable_inv [OF assms(1)] by (simp_all add: db_inv_def inv_at_def)
  have "control_exact (updates d) u"
    using inv(2) assms(2,3) by (auto simp: controls_def active_def)
  moreover have "pred_option percentage_ok (u_rollout u)"
    using inv(1) assms(2) by (auto simp: schema_ok_def checks_ok_def list_all_iff)
  ultimately show ?thesis
    using schema_active [OF inv(1)] assms(2,3) by (auto simp: control_exact_def)
qed

text \<open>An active rollout is what its target serves.  As long as ids are minted in the order in which the
  rows of a target are created, the row the manifest query returns for the target of an active rollout is
  that rollout, together with its control.\<close>

lemma active_rollout_is_head:
  assumes "reachable d" and "ids_ordered d" and "u \<in> set (updates d)" and "active u"
  shows "\<exists>b \<in> set (branches d). \<exists>v \<in> set (runtimes d). b_id b = u_branch u \<and> v_id v = u_runtime u
    \<and> getLatestUpdateWithRollout (Some (b_app b)) (b_name b) (v_version v) (u_platform u) d
      = (Inr (u, newest (others (updates d) u)), d)"
proof -
  have inv: "db_inv d" "schema_ok d"
    using reachable_inv [OF assms(1)] by (simp_all add: db_inv_def inv_at_def)
  obtain b v where bv: "b \<in> set (branches d)" "b_id b = u_branch u" "v \<in> set (runtimes d)" "v_id v = u_runtime u" "b_app b = v_app v"
    using update_owner [OF inv(1) assms(3)] .
  let ?rows = "filter (serving d (Some (b_app b)) (b_name b) (v_version v) (u_platform u)) (updates d)"
  have rows: "n \<in> set ?rows \<longleftrightarrow> n \<in> set (updates d) \<and> target_key n = target_key u \<and> u_checked n \<noteq> None" for n
    using serving_target [OF inv(1) bv(1,3,5)] bv by (auto simp: target_key_def)
  have head: "newest ?rows = Some u"
  proof (rule newest_eqI)
    show "u \<in> set ?rows"
      unfolding rows using assms(3,4) by (simp add: active_def)
    show "u_id n < u_id u" if "n \<in> set ?rows" "n \<noteq> u" for n
      using active_rollout_latest [OF inv(1) assms(3,4,2)] that unfolding rows by blast
  qed
  have control: "u_control u = map_option u_id (newest (others (updates d) u))"
    using reachable_inv [OF assms(1)] assms(3,4) by (auto simp: db_inv_def inv_at_def controls_def active_def control_exact_def)
  have "find (\<lambda>c. u_branch c = u_branch u \<and> Some (u_id c) = u_control u) (updates d) = newest (others (updates d) u)"
  proof (cases "newest (others (updates d) u)")
    case None
    then show ?thesis
      using control by (simp add: find_None_iff)
  next
    case (Some c)
    then have "c \<in> set (updates d)" "u_branch c = u_branch u"
      using newest_mem [OF Some] by (auto simp: others_def target_key_def)
    then show ?thesis
      unfolding control Some using schema_update_id [OF inv(2)] by (intro find_unique) auto
  qed
  then have "getLatestUpdateWithRollout (Some (b_app b)) (b_name b) (v_version v) (u_platform u) d
      = (Inr (u, newest (others (updates d) u)), d)"
    using head by (simp add: getLatestUpdateWithRollout_def read_one_def)
  then show ?thesis
    using bv by blast
qed

text \<open>A history to run the theorems on: an update with id \<open>i\<close> is published on a branch, then a rollout with
  id \<open>j\<close> of a second one.\<close>

definition demo_db :: "update_row list \<Rightarrow> int \<Rightarrow> int \<Rightarrow> db" where
  "demo_db us touched now = \<lparr>apps = [''app''],
     branches = [\<lparr>b_id = 1, b_app = ''app'', b_name = ''main'', b_created = 1, b_protected = False\<rparr>], channels = [],
     runtimes = [\<lparr>v_id = 2, v_app = ''app'', v_version = ''1.0'', v_created = 2, v_updated = touched\<rparr>],
     updates = us, rollouts = [], next_id = 3, db_now = now\<rparr>"

definition demo_update :: "int \<Rightarrow> int \<Rightarrow> int option \<Rightarrow> update_row" where
  "demo_update i created checked = \<lparr>u_id = i, u_uuid = None, u_branch = 1, u_runtime = 2, u_type = NormalUpdate,
     u_commit = ''abc'', u_message = None, u_platform = ''ios'', u_created = created, u_checked = checked, u_rollout = None,
     u_control = None, u_group = None, u_mapping = None, u_sourcemap = None\<rparr>"

definition demo_rollout :: "int \<Rightarrow> int \<Rightarrow> int option \<Rightarrow> update_row" where
  "demo_rollout i j checked = (demo_update j 5 checked)\<lparr>u_rollout := Some 10, u_control := Some i\<rparr>"

lemmas statement_eval = schema_ok_def checks_ok_def uniques_ok_def refs_ok_def map_filter_simps target_key_def active_def
  percentage_ok_def insertBranch_def insertRuntimeVersion_def insertUpdate_def insertUpdateWithRollout_def
  markUpdateAsChecked_def insertChannel_def updateChannelBranchMapping_def insertChannelRollout_def rollout_of_def
  branch_named_def runtime_named_def on_branch_def stamp_allowed_def new_update_def add_update_def run_write_run Let_def

lemmas demo_defs = demo_db_def demo_update_def demo_rollout_def

lemma demo_start: "reachable (demo_db [] 2 3)"
proof -
  have "reachable (empty_db\<lparr>apps := [''app''], db_now := 1\<rparr>)"
    using reachable.step [OF start register_app, of "''app''" 1] by (simp add: empty_db_def)
  from reachable.step [OF this insert_branch, of "Some ''app''" "''main''" 2]
  have "reachable ((demo_db [] 2 2)\<lparr>runtimes := [], next_id := 2\<rparr>)"
    by (simp add: statement_eval empty_db_def demo_db_def)
  from reachable.step [OF this insert_runtime, of "Some ''app''" "''1.0''" 3]
  show ?thesis
    by (simp add: statement_eval demo_db_def)
qed

lemma demo_published: "reachable (demo_db [demo_update i 3 (Some 4)] 4 5)"
proof -
  have "reachable (demo_db [demo_update i 3 None] 2 4)"
    using reachable.step [OF demo_start insert_update, of i "''main''" "Some ''app''" "''1.0''" NormalUpdate "''ios''" "''abc''" None None 4]
    by (simp add: statement_eval demo_defs del: set_filter)
  from reachable.step [OF this stamp, of i "Some ''app''" "''main''" 5]
  show ?thesis
    by (simp add: statement_eval demo_defs del: set_filter)
qed

lemma demo_reachable:
  assumes "i \<noteq> j"
  shows "reachable (demo_db [demo_update i 3 (Some 4), demo_rollout i j (Some 6)] 6 7)"
proof -
  have "reachable (demo_db [demo_update i 3 (Some 4), demo_rollout i j None] 4 6)"
    using assms reachable.step [OF demo_published [of i] insert_update_rollout,
        of j "''main''" "Some ''app''" "''1.0''" NormalUpdate "''ios''" "''abc''" None 10 None 6]
    by (simp add: statement_eval demo_defs del: set_filter)
  from reachable.step [OF this stamp, of j "Some ''app''" "''main''" 7]
  show ?thesis
    using assms by (simp add: statement_eval demo_defs del: set_filter)
qed

theorem active_rollout_control_witness:
  "pred_option percentage_ok (u_rollout (demo_rollout 11 21 (Some 6)))
    \<and> u_control (demo_rollout 11 21 (Some 6))
      = map_option u_id (newest (others (updates (demo_db [demo_update 11 3 (Some 4), demo_rollout 11 21 (Some 6)] 6 7)) (demo_rollout 11 21 (Some 6))))"
  using active_rollout_control [OF demo_reachable, of 11 21 "demo_rollout 11 21 (Some 6)"]
  by (simp add: demo_defs active_def)

text \<open>C37. The order of ids is not only a convenience.  \<^verbatim>\<open>RequestUploadURLs\<close> mints the id of a rollout before
  it has talked to the object store and inserts the row afterwards, so an update with a larger id can go live on the target
  before the row of the rollout exists.  In every reachable state in which that happened to a rollout that is now active,
  the other update was checked no later than the rollout was created, the manifest query of the target returns another
  update that is not in rollout, so no device is in the rollout, and the publish guard of the branch and runtime version still
  answers that a rollout is active.\<close>

theorem stale_id_hides_rollout:
  assumes "reachable d" and "u \<in> set (updates d)" and "active u"
    and "h \<in> set (updates d)" and "target_key h = target_key u" and "u_checked h \<noteq> None" and "u_id u < u_id h"
    and "b \<in> set (branches d)" and "b_id b = u_branch u" and "v \<in> set (runtimes d)" and "v_id v = u_runtime u"
  shows "(\<exists>t. u_checked h = Some t \<and> t \<le> u_created u)
    \<and> (\<exists>x c. getLatestUpdateWithRollout (Some (b_app b)) (b_name b) (v_version v) (u_platform u) d = (Inr (x, c), d)
          \<and> u_id h \<le> u_id x \<and> u_rollout x = None)
    \<and> hasActiveRolloutUpdate (Some (b_app b)) (b_name b) (v_version v) d = (Inr True, d)"
proof (intro conjI)
  have inv: "db_inv d" "schema_ok d" "owner_inv d" "controls (updates d)"
    using reachable_inv [OF assms(1)] by (simp_all add: db_inv_def inv_at_def)
  have "\<not> overtaken (updates d) u"
    using inv(4) assms(2,3) by (auto simp: controls_def active_def)
  then show "\<exists>t. u_checked h = Some t \<and> t \<le> u_created u"
    using assms(4-7) by (force simp: overtaken_def)
  have app: "b_app b = v_app v"
    using inv(3) assms(2,8-11) by (simp add: owner_inv_def)
  let ?rows = "filter (serving d (Some (b_app b)) (b_name b) (v_version v) (u_platform u)) (updates d)"
  have rows: "n \<in> set ?rows \<longleftrightarrow> n \<in> set (updates d) \<and> target_key n = target_key u \<and> u_checked n \<noteq> None" for n
    using serving_target [OF inv(1) assms(8,10) app] assms(9,11) by (auto simp: target_key_def)
  then have h: "h \<in> set ?rows"
    using assms(4-6) by blast
  then have "?rows \<noteq> []"
    by (metis list.set(1) empty_iff)
  then obtain x where x: "newest ?rows = Some x"
    using newest_None [of ?rows] by blast
  have le: "u_id h \<le> u_id x"
    by (rule newest_max [OF x h])
  have "u_rollout x = None"
  proof (rule ccontr)
    assume "u_rollout x \<noteq> None"
    then have "x = u"
      using newest_mem [OF x] assms(2,3) unfolding rows by (intro schema_active [OF inv(2)]) (auto simp: active_def)
    then show False
      using le assms(7) by simp
  qed
  then show "\<exists>x c. getLatestUpdateWithRollout (Some (b_app b)) (b_name b) (v_version v) (u_platform u) d = (Inr (x, c), d)
      \<and> u_id h \<le> u_id x \<and> u_rollout x = None"
    using x le by (simp add: getLatestUpdateWithRollout_def read_one_def)
  have "on_branch d (Some (b_app b)) (b_name b) u \<and> on_runtime d (v_version v) u \<and> active u"
    using on_branch_eq [OF inv(2) assms(8)] assms(3,9-11) by (auto simp: on_runtime_def list_ex_iff)
  then show "hasActiveRolloutUpdate (Some (b_app b)) (b_name b) (v_version v) d = (Inr True, d)"
    using assms(2) by (auto simp: hasActiveRolloutUpdate_def list_ex_iff)
qed

text \<open>On the history above with the ids the other way round: the update has id 21 and the rollout that follows it id 11.\<close>

theorem stale_id_hides_rollout_witness:
  "(\<exists>x c. getLatestUpdateWithRollout (Some ''app'') ''main'' ''1.0'' ''ios''
        (demo_db [demo_update 21 3 (Some 4), demo_rollout 21 11 (Some 6)] 6 7)
      = (Inr (x, c), demo_db [demo_update 21 3 (Some 4), demo_rollout 21 11 (Some 6)] 6 7) \<and> 21 \<le> u_id x \<and> u_rollout x = None)
    \<and> hasActiveRolloutUpdate (Some ''app'') ''main'' ''1.0'' (demo_db [demo_update 21 3 (Some 4), demo_rollout 21 11 (Some 6)] 6 7)
      = (Inr True, demo_db [demo_update 21 3 (Some 4), demo_rollout 21 11 (Some 6)] 6 7)"
proof -
  let ?u = "demo_rollout 21 11 (Some 6)" and ?h = "demo_update 21 3 (Some 4)"
  let ?b = "\<lparr>b_id = 1, b_app = ''app'', b_name = ''main'', b_created = 1, b_protected = False\<rparr>"
  let ?v = "\<lparr>v_id = 2, v_app = ''app'', v_version = ''1.0'', v_created = 2, v_updated = 6\<rparr>"
  have names: "b_app ?b = ''app''" "b_name ?b = ''main''" "v_version ?v = ''1.0''" "u_platform ?u = ''ios''" "u_id ?h = 21"
    by (simp_all add: demo_defs)
  have "reachable (demo_db [?h, ?u] 6 7)"
    by (rule demo_reachable) simp
  from stale_id_hides_rollout [OF this, of ?u ?h ?b ?v, unfolded names] show ?thesis
    by (auto simp: demo_defs active_def target_key_def)
qed

text \<open>A channel never leaks another tenant's branch.  In every reachable state, what the manifest path
  reads as a channel's mapping names a branch of the channel's own app, and a rollout on it serves another
  branch of the same app to a share between 1 and 99 percent.\<close>

lemma channel_mapping_tenant:
  assumes "reachable d" and "getChannelBranchMapping (Some a) name d = (Inr m, d')"
  shows "(\<exists>b \<in> set (branches d). b_app b = a \<and> b_name b = m_branch m)
    \<and> pred_option (\<lambda>(i, branch, p). branch \<noteq> m_branch m \<and> percentage_ok p
        \<and> (\<exists>b \<in> set (branches d). b_app b = a \<and> b_name b = branch)) (m_rollout m)"
proof -
  have inv: "schema_ok d" "mapping_inv d"
    using reachable_inv [OF assms(1)] by (simp_all add: db_inv_def inv_at_def)
  obtain c b where cb: "channel_named d (Some a) name = Some c" "c_branch c = Some (b_id b)"
      "b \<in> set (branches d)" "b_app b = c_app c" "m_branch m = b_name b"
    and roll: "m_rollout m = (case rollout_of d (c_id c) of None \<Rightarrow> None | Some r \<Rightarrow>
           map_option (\<lambda>rb. (r_id r, b_name rb, r_percentage r)) (branch_by_id d (r_branch r)))"
    using assms(2) by (auto simp: getChannelBranchMapping_def read_one_def dest!: branch_by_id_Some
        split: option.splits if_splits)
  have c: "c \<in> set (channels d)" "c_app c = a"
    using channel_named_Some [OF cb(1)] by auto
  have target: "rb \<in> set (branches d) \<and> b_app rb = a \<and> b_name rb \<noteq> b_name b \<and> percentage_ok (r_percentage r)"
    if r: "rollout_of d (c_id c) = Some r" and rb: "branch_by_id d (r_branch r) = Some rb" for r rb
  proof -
    have "r \<in> set (rollouts d)" "r_channel r = c_id c" "rb \<in> set (branches d)" "b_id rb = r_branch r"
      using rollout_of_Some [OF r] branch_by_id_Some [OF rb] by auto
    then have rb': "b_app rb = a" "b_id rb \<noteq> b_id b" "rb \<in> set (branches d)"
      using inv(2) c cb(2) by (auto simp: mapping_inv_def)
    then have "b_name rb \<noteq> b_name b"
      using schema_branch_name [OF inv(1) rb'(3) cb(3)] cb(4) c(2) by auto
    then show ?thesis
      using rb' inv(1) \<open>r \<in> set (rollouts d)\<close> by (auto simp: schema_ok_def checks_ok_def list_all_iff)
  qed
  have "pred_option (\<lambda>(i, branch, p). branch \<noteq> b_name b \<and> percentage_ok p
        \<and> (\<exists>b \<in> set (branches d). b_app b = a \<and> b_name b = branch)) (m_rollout m)"
  proof (cases "rollout_of d (c_id c)")
    case (Some r)
    then show ?thesis
      using target [OF Some] unfolding roll Some by (cases "branch_by_id d (r_branch r)") auto
  qed (simp add: roll)
  then show ?thesis
    using cb c(2) by auto
qed

definition demo_mapped :: db where
  "demo_mapped = (demo_db [] 2 7)\<lparr>branches := branches (demo_db [] 2 7) @
       [\<lparr>b_id = 3, b_app = ''app'', b_name = ''next'', b_created = 3, b_protected = False\<rparr>],
     channels := [\<lparr>c_id = 4, c_app = ''app'', c_branch = Some 1, c_name = ''production'', c_created = 4,
       c_surf_enabled = False, c_surf_pattern = []\<rparr>],
     rollouts := [\<lparr>r_id = ''salt'', r_channel = 4, r_branch = 3, r_percentage = 25, r_created = 6, r_updated = 6\<rparr>],
     next_id := 5\<rparr>"

lemma demo_mapped_reachable: "reachable demo_mapped"
proof -
  from reachable.step [OF demo_start insert_branch, of "Some ''app''" "''next''" 4]
  have "reachable (demo_mapped\<lparr>channels := [], rollouts := [], next_id := 4, db_now := 4\<rparr>)"
    by (simp add: statement_eval demo_db_def demo_mapped_def)
  from reachable.step [OF this insert_channel, of "Some ''app''" None "''production''" 5]
  have "reachable (demo_mapped\<lparr>channels := map (c_branch_update Map.empty) (channels demo_mapped), rollouts := [], db_now := 5\<rparr>)"
    by (simp add: statement_eval demo_db_def demo_mapped_def)
  from reachable.step [OF this map_channel, of 1 "Some ''app''" 4 6]
  have "reachable (demo_mapped\<lparr>rollouts := [], db_now := 6\<rparr>)"
    by (simp add: statement_eval demo_db_def demo_mapped_def)
  from reachable.step [OF this start_rollout, of "''salt''" 25 "Some ''app''" "''production''" "''next''" 7]
  show ?thesis
    by (simp add: statement_eval demo_db_def demo_mapped_def)
qed

end
