(* ===== verification/Validation.thy ===== *)
theory Validation
  imports Domain GoStrconv
begin

text \<open>
  The input rules of \<^verbatim>\<open>internal/validation/validation.go\<close> and the object-key rules of
  \<^verbatim>\<open>internal/bucket/keys.go\<close>.  A validator answers \<^const>\<open>None\<close> when it accepts.  \<^verbatim>\<open>GitURL\<close>, which rests
  on \<^verbatim>\<open>net/url\<close>, is not modelled.
\<close>

section \<open>Runes\<close>

text \<open>A \<^verbatim>\<open>range\<close> loop over a string: its runes, U+FFFD for every byte that starts no valid encoding.\<close>

fun decode_rune :: "nat list \<Rightarrow> nat" where
  "decode_rune [a, b] = (a - 192) * 64 + (b - 128)"
| "decode_rune [a, b, c] = (a - 224) * 4096 + (b - 128) * 64 + (c - 128)"
| "decode_rune [a, b, c, d] = (a - 240) * 262144 + (b - 128) * 4096 + (c - 128) * 64 + (d - 128)"
| "decode_rune bytes = (case bytes of [] \<Rightarrow> 0 | a # _ \<Rightarrow> a)"

function runes :: "string \<Rightarrow> nat list" where
  "runes s = (if s = [] then [] else let n = rune_size s in
     if n = 0 then 0xFFFD # runes (tl s) else decode_rune (map of_char (take n s)) # runes (drop n s))"
  by pat_completeness auto
termination by (relation "measure length") auto

declare runes.simps [simp del]

definition IsControl :: "nat \<Rightarrow> bool" where
  "IsControl r \<longleftrightarrow> r < 32 \<or> 127 \<le> r \<and> r < 160"

section \<open>Names\<close>

definition maxNameLen :: nat where "maxNameLen = 128"
definition maxDisplayNameLen :: nat where "maxDisplayNameLen = 255"
definition maxPatternLen :: nat where "maxPatternLen = 255"

fun rune_check :: "string \<Rightarrow> bool \<Rightarrow> nat list \<Rightarrow> err option" where
  "rune_check field tab [] = None"
| "rune_check field tab (r # rs) =
     (if r = 0 then Some (ValidationError field (Msg ''must not contain null bytes'' []))
      else if IsControl r \<and> \<not> (tab \<and> r = 9) then Some (ValidationError field (Msg ''must not contain control characters'' []))
      else rune_check field tab rs)"

definition namePattern :: "string \<Rightarrow> string \<Rightarrow> nat \<Rightarrow> err option" where
  "namePattern field value maxLen =
     (if value = [] then Some (ValidationError field (Msg ''must not be empty'' []))
      else if length value > maxLen then Some (ValidationError field (Msg ''exceeds max length %d'' [format_nat maxLen]))
      else if CHR ''/'' \<in> set value \<or> CHR 0x5C \<in> set value
        then Some (ValidationError field (Msg ''must not contain path separators'' []))
      else if value = ''.'' \<or> value = ''..'' then Some (ValidationError field (Msg ''%q is reserved'' [value]))
      else rune_check field False (runes value))"

definition Name :: "string \<Rightarrow> string \<Rightarrow> err option" where
  "Name field value =
     (if Contains value ''*'' then Some (ValidationError field (Msg ''must not contain %q, which is reserved as the wildcard of API key access rules'' [''*'']))
      else namePattern field value maxNameLen)"

definition NamePattern :: "string \<Rightarrow> string \<Rightarrow> err option" where
  "NamePattern field value = namePattern field value maxPatternLen"

definition DisplayName :: "string \<Rightarrow> string \<Rightarrow> err option" where
  "DisplayName field value =
     (if TrimSpace value = [] then Some (ValidationError field (Msg ''must not be empty'' []))
      else if length value > maxDisplayNameLen then Some (ValidationError field (Msg ''exceeds max length %d'' [format_nat maxDisplayNameLen]))
      else rune_check field True (runes value))"

definition RolloutPercentageParam :: "string \<Rightarrow> string \<Rightarrow> (err, int) result" where
  "RolloutPercentageParam field value =
     (case ParseInt value of
        None \<Rightarrow> Inl (ValidationError field (Msg ''must be an integer between 1 and 99'' []))
      | Some n \<Rightarrow> if n < 1 \<or> n > 100 then Inl (ValidationError field (Msg ''must be an integer between 1 and 99'' [])) else Inr n)"

definition NumericID :: "string \<Rightarrow> string \<Rightarrow> err option" where
  "NumericID field value =
     (if value = [] then Some (ValidationError field (Msg ''must not be empty'' []))
      else case ParseInt value of
             None \<Rightarrow> Some (ValidationError field (Msg ''must be a numeric id'' []))
           | Some n \<Rightarrow> if n \<le> 0 then Some (ValidationError field (Msg ''must be a positive id'' [])) else None)"

text \<open>A validator as the first step of an operation.\<close>

definition guard :: "err option \<Rightarrow> ('s, err, unit) proc" where
  "guard v = (case v of None \<Rightarrow> ret () | Some e \<Rightarrow> throw e)"

lemma guard_None [simp]: "guard None = ret ()"
  by (simp add: guard_def)

lemma guard_Some [simp]: "guard (Some e) = throw e"
  by (simp add: guard_def)

section \<open>Object keys\<close>

definition maxSegmentLen :: nat where "maxSegmentLen = 128"
definition casDir :: string where "casDir = ''cas''"
definition bsDiffDir :: string where "bsDiffDir = ''bsdiff''"
definition sourcemapsDir :: string where "sourcemapsDir = ''sourcemaps''"

definition segment_error :: "string \<Rightarrow> string \<Rightarrow> string list \<Rightarrow> err" where
  "segment_error name text args = ErrorText (Msg (''invalid %s: '' @ text) (name # args))"

fun segment_rune_check :: "string \<Rightarrow> nat list \<Rightarrow> err option" where
  "segment_rune_check name [] = None"
| "segment_rune_check name (r # rs) =
     (if r = 0 then Some (segment_error name ''must not contain null bytes'' [])
      else if IsControl r then Some (segment_error name ''must not contain control characters'' [])
      else segment_rune_check name rs)"

definition validateSegment :: "string \<Rightarrow> string \<Rightarrow> err option" where
  "validateSegment name value =
     (if value = [] then Some (segment_error name ''must not be empty'' [])
      else if length value > maxSegmentLen then Some (segment_error name ''exceeds max length %d'' [format_nat maxSegmentLen])
      else if CHR ''/'' \<in> set value \<or> CHR 0x5C \<in> set value
        then Some (segment_error name ''must not contain path separators'' [])
      else if value = ''.'' \<or> value = ''..'' then Some (segment_error name ''reserved name'' [])
      else segment_rune_check name (runes value))"

definition ReservedBranchName :: "string \<Rightarrow> bool" where
  "ReservedBranchName branch \<longleftrightarrow> branch = casDir \<or> branch = bsDiffDir"

definition validateBranch :: "string \<Rightarrow> err option" where
  "validateBranch branch =
     (case validateSegment ''branch'' branch of
        Some e \<Rightarrow> Some e
      | None \<Rightarrow> if ReservedBranchName branch then Some (ErrorText (Msg ''invalid branch: %q is reserved'' [branch])) else None)"

definition validateUpdateRef :: "string \<Rightarrow> string \<Rightarrow> string \<Rightarrow> string \<Rightarrow> err option" where
  "validateUpdateRef appId branch runtimeVersion updateId =
     (case validateSegment ''appId'' appId of Some e \<Rightarrow> Some e | None \<Rightarrow>
      case validateBranch branch of Some e \<Rightarrow> Some e | None \<Rightarrow>
      case validateSegment ''runtimeVersion'' runtimeVersion of Some e \<Rightarrow> Some e | None \<Rightarrow>
      validateSegment ''updateId'' updateId)"

definition updatePrefix :: "string \<Rightarrow> string \<Rightarrow> string \<Rightarrow> string \<Rightarrow> string" where
  "updatePrefix appId branch runtimeVersion updateId =
     appId @ ''/'' @ branch @ ''/'' @ runtimeVersion @ ''/'' @ updateId @ ''/''"

definition BlobObjectKey :: "string \<Rightarrow> string \<Rightarrow> string" where
  "BlobObjectKey appId hash = appId @ ''/'' @ casDir @ ''/'' @ hash"

definition SourcemapObjectKey :: "string \<Rightarrow> string \<Rightarrow> string" where
  "SourcemapObjectKey appId hash = sourcemapsDir @ ''/'' @ appId @ ''/'' @ hash @ ''.map''"

definition BSDiffBranchPrefix :: "string \<Rightarrow> string \<Rightarrow> string" where
  "BSDiffBranchPrefix appId branch = appId @ ''/'' @ bsDiffDir @ ''/'' @ branch @ ''/''"

definition BSDiffObjectKey :: "string \<Rightarrow> string \<Rightarrow> string \<Rightarrow> string \<Rightarrow> string" where
  "BSDiffObjectKey appId branch targetUpdateUUID sourceUpdateUUID =
     BSDiffBranchPrefix appId branch @ targetUpdateUUID @ ''/'' @ sourceUpdateUUID"

section \<open>Laws\<close>

lemma rune_checks_agree: "rune_check field False rs = None \<longleftrightarrow> segment_rune_check name rs = None"
  by (induction rs) auto

lemma segment_no_slash: "validateSegment name v = None \<Longrightarrow> CHR ''/'' \<notin> set v \<and> v \<noteq> []"
  by (auto simp: validateSegment_def split: if_splits)

lemma Contains_star: "Contains v ''*'' \<longleftrightarrow> CHR ''*'' \<in> set v"
  unfolding Contains_iff by (metis append_Cons append_Nil in_set_conv_decomp)

lemma slash_split: "CHR ''/'' \<notin> set a \<Longrightarrow> CHR ''/'' \<notin> set b \<Longrightarrow>
    a @ CHR ''/'' # x = b @ CHR ''/'' # y \<longleftrightarrow> a = b \<and> x = y"
  by (auto simp: append_eq_append_conv2 Cons_eq_append_conv append_eq_Cons_conv)

lemma slash_free_map: "CHR ''/'' \<notin> set hash \<Longrightarrow> x @ CHR ''/'' # y \<noteq> hash @ ''.map''"
  proof
  assume "CHR ''/'' \<notin> set hash" and eq: "x @ CHR ''/'' # y = hash @ ''.map''"
  have "CHR ''/'' \<in> set (x @ CHR ''/'' # y)"
    by simp
  then show False
    unfolding eq using \<open>CHR ''/'' \<notin> set hash\<close> by simp
qed

lemma validateUpdateRef_segments:
  assumes "validateUpdateRef a b r u = None"
  shows "validateSegment ''appId'' a = None" "validateSegment ''branch'' b = None" "\<not> ReservedBranchName b"
    "validateSegment ''runtimeVersion'' r = None" "validateSegment ''updateId'' u = None"
  using assms by (auto simp: validateUpdateRef_def validateBranch_def split: option.splits if_splits)

section \<open>Properties\<close>

text \<open>The dashboard's name rule and the storage layer's segment rule agree: a name the dashboard accepts
  is exactly a storage segment without the wildcard, so that it can never be refused later when an update
  is written; and a branch pattern of at most the name length and without a wildcard is exactly a name.\<close>

lemma Name_mirrors_segment:
  "(Name field v = None \<longleftrightarrow> validateSegment segment v = None \<and> CHR ''*'' \<notin> set v)
    \<and> (if CHR ''*'' \<notin> set v \<and> length v \<le> maxNameLen then Name field v = None \<longleftrightarrow> NamePattern field v = None else True)"
  by (auto simp: Name_def NamePattern_def namePattern_def validateSegment_def Contains_star maxSegmentLen_def
      maxNameLen_def maxPatternLen_def rune_checks_agree [of field _ segment])

text \<open>C36. Stored objects never collide.  For valid references an object of an update lies in the folder of that
  update only, never among the blobs or the patches of any app; the blob, patch and source-map keys of
  different contents are different, whatever the file names.  A blob key is a source-map key only for an app
  called \<^verbatim>\<open>sourcemaps\<close> and a blob whose name ends in \<^verbatim>\<open>.map\<close>.\<close>

theorem object_keys_disjoint:
  assumes "validateUpdateRef a b r u = None" and "validateUpdateRef a' b' r' u' = None"
    and "validateSegment ''appId'' app = None" and "CHR ''/'' \<notin> set hash" and "CHR ''/'' \<notin> set hash'"
    and "CHR ''/'' \<notin> set target" and "CHR ''/'' \<notin> set target'"
  shows "(updatePrefix a b r u @ path = updatePrefix a' b' r' u' @ path'
        \<longleftrightarrow> a = a' \<and> b = b' \<and> r = r' \<and> u = u' \<and> path = path')
    \<and> updatePrefix a b r u @ path \<noteq> BlobObjectKey app hash
    \<and> updatePrefix a b r u @ path \<noteq> BSDiffObjectKey app b' target source
    \<and> BlobObjectKey app hash \<noteq> BSDiffObjectKey a b target source
    \<and> (BlobObjectKey a hash = BlobObjectKey a' hash' \<longleftrightarrow> a = a' \<and> hash = hash')
    \<and> (BSDiffObjectKey a b target source = BSDiffObjectKey a' b' target' source'
        \<longleftrightarrow> a = a' \<and> b = b' \<and> target = target' \<and> source = source')
    \<and> (SourcemapObjectKey a hash = SourcemapObjectKey a' hash' \<longleftrightarrow> a = a' \<and> hash = hash')
    \<and> updatePrefix a b r u @ path \<noteq> SourcemapObjectKey app hash
    \<and> BSDiffObjectKey a b target source \<noteq> SourcemapObjectKey app hash
    \<and> (BlobObjectKey app hash = SourcemapObjectKey a hash' \<longleftrightarrow> app = sourcemapsDir \<and> a = casDir \<and> hash = hash' @ ''.map'')"
proof -
  have s: "CHR ''/'' \<notin> set a" "CHR ''/'' \<notin> set b" "CHR ''/'' \<notin> set r" "CHR ''/'' \<notin> set u"
      "CHR ''/'' \<notin> set a'" "CHR ''/'' \<notin> set b'" "CHR ''/'' \<notin> set r'" "CHR ''/'' \<notin> set u'"
      "CHR ''/'' \<notin> set app"
    using validateUpdateRef_segments [OF assms(1)] validateUpdateRef_segments [OF assms(2)] assms(3) segment_no_slash
    by blast+
  have d: "CHR ''/'' \<notin> set casDir" "CHR ''/'' \<notin> set bsDiffDir" "CHR ''/'' \<notin> set sourcemapsDir" "casDir \<noteq> bsDiffDir" "b \<noteq> casDir" "b \<noteq> bsDiffDir"
    using validateUpdateRef_segments(3) [OF assms(1)] by (auto simp: casDir_def bsDiffDir_def sourcemapsDir_def ReservedBranchName_def)
  show ?thesis
    using s d assms(4-) unfolding updatePrefix_def BlobObjectKey_def BSDiffObjectKey_def BSDiffBranchPrefix_def SourcemapObjectKey_def
    by (auto simp: slash_split slash_free_map)
qed

theorem object_keys_disjoint_witness:
  "(updatePrefix ''app'' ''main'' ''1'' ''17'' @ ''a'' = updatePrefix ''app'' ''pr'' ''1'' ''17'' @ ''b''
        \<longleftrightarrow> ''app'' = ''app'' \<and> ''main'' = ''pr'' \<and> ''1'' = ''1'' \<and> ''17'' = ''17'' \<and> ''a'' = ''b'')
    \<and> updatePrefix ''app'' ''main'' ''1'' ''17'' @ ''a'' \<noteq> BlobObjectKey ''app'' ''h''
    \<and> updatePrefix ''app'' ''main'' ''1'' ''17'' @ ''a'' \<noteq> BSDiffObjectKey ''app'' ''pr'' ''t'' ''s''
    \<and> BlobObjectKey ''app'' ''h'' \<noteq> BSDiffObjectKey ''app'' ''main'' ''t'' ''s''
    \<and> (BlobObjectKey ''app'' ''h'' = BlobObjectKey ''app'' ''i'' \<longleftrightarrow> ''app'' = ''app'' \<and> ''h'' = ''i'')
    \<and> (BSDiffObjectKey ''app'' ''main'' ''t'' ''s'' = BSDiffObjectKey ''app'' ''pr'' ''t'' ''q''
        \<longleftrightarrow> ''app'' = ''app'' \<and> ''main'' = ''pr'' \<and> ''t'' = ''t'' \<and> ''s'' = ''q'')
    \<and> (SourcemapObjectKey ''app'' ''h'' = SourcemapObjectKey ''app'' ''i'' \<longleftrightarrow> ''app'' = ''app'' \<and> ''h'' = ''i'')
    \<and> updatePrefix ''app'' ''main'' ''1'' ''17'' @ ''a'' \<noteq> SourcemapObjectKey ''app'' ''h''
    \<and> BSDiffObjectKey ''app'' ''main'' ''t'' ''s'' \<noteq> SourcemapObjectKey ''app'' ''h''
    \<and> (BlobObjectKey ''app'' ''h'' = SourcemapObjectKey ''app'' ''i''
        \<longleftrightarrow> ''app'' = sourcemapsDir \<and> ''app'' = casDir \<and> ''h'' = ''i'' @ ''.map'')"
proof (rule object_keys_disjoint)
  show "validateUpdateRef ''app'' ''main'' ''1'' ''17'' = None" "validateUpdateRef ''app'' ''pr'' ''1'' ''17'' = None"
    "validateSegment ''appId'' ''app'' = None"
    by code_simp+
qed simp_all

end
