(* ===== verification/Repositories.thy ===== *)
theory Repositories
  imports Database GoStrconv
begin

text \<open>
  The Postgres repositories of \<^verbatim>\<open>internal/repository\<close> (\<^verbatim>\<open>branch_postgres.go\<close>, \<^verbatim>\<open>channel_postgres.go\<close>,
  \<^verbatim>\<open>rollout_postgres.go\<close>, \<^verbatim>\<open>update_postgres.go\<close>): each method maps its arguments to a statement, its rows
  to the structures of the services, and database errors to the errors of the package.  A method keeps its
  Go name behind the prefix \<^verbatim>\<open>pg_\<close>.  The UUID parsers of the third-party packages are parameters:
  \<^verbatim>\<open>uuid_parse\<close> is \<^verbatim>\<open>uuid.Parse\<close>, \<^verbatim>\<open>uuid_scan\<close> is \<^verbatim>\<open>pgtype.UUID.Scan\<close>, both with the canonical spelling as
  their result.
\<close>

section \<open>Conversions\<close>

type_synonym uuid_parser = "string \<Rightarrow> string option"

text \<open>A malformed id becomes SQL \<^verbatim>\<open>NULL\<close>.\<close>

definition ToPgUUID :: "uuid_parser \<Rightarrow> string \<Rightarrow> string option" where
  "ToPgUUID uuid_parse i = uuid_parse i"

definition ToPgUUIDPtr :: "uuid_parser \<Rightarrow> string option \<Rightarrow> string option" where
  "ToPgUUIDPtr uuid_parse i = (case i of None \<Rightarrow> None | Some s \<Rightarrow> ToPgUUID uuid_parse s)"

text \<open>\<^verbatim>\<open>int32(x)\<close>.\<close>

definition int32 :: "int \<Rightarrow> int" where
  "int32 x = (x + 2 ^ 31) mod 2 ^ 32 - 2 ^ 31"

lemma int32_id: "- (2 ^ 31) \<le> x \<Longrightarrow> x < 2 ^ 31 \<Longrightarrow> int32 x = x"
  by (simp add: int32_def)

type_synonym 'a repo = "(db, err, 'a) proc"

definition query :: "'a stmt \<Rightarrow> 'a repo" where
  "query s = mapErr DbError s"

definition wrapped :: "string \<Rightarrow> 'a stmt \<Rightarrow> 'a repo" where
  "wrapped text s = mapErr (\<lambda>e. Wrapped (Msg text []) (DbError e)) s"

text \<open>A read for which no row is not an error but nil.\<close>

definition optional :: "string \<Rightarrow> 'a stmt \<Rightarrow> 'a option repo" where
  "optional text s = bindE (attempt s) (\<lambda>r. case r of
     Inr x \<Rightarrow> ret (Some x)
   | Inl e \<Rightarrow> if e = NoRows then ret None else throw (Wrapped (Msg text []) (DbError e)))"

definition parse_id :: "string \<Rightarrow> (db, err, int) proc" where
  "parse_id i = (case ParseInt i of None \<Rightarrow> throw (ErrorText (Msg ''failed to parse update ID: %w'' [i])) | Some n \<Rightarrow> ret n)"

text \<open>\<^verbatim>\<open>id, _ := strconv.ParseInt(s, 10, 64)\<close>: 0 on a syntax error, the nearest bound on overflow.\<close>

definition ParseInt_value :: "string \<Rightarrow> int" where
  "ParseInt_value s = (case ParseInt s of Some n \<Rightarrow> n | None \<Rightarrow>
     let (neg, rest) = (case s of [] \<Rightarrow> (False, []) | c # cs \<Rightarrow>
       if c = CHR ''-'' then (True, cs) else if c = CHR ''+'' then (False, cs) else (False, s))
     in case parse_nat rest of None \<Rightarrow> 0 | Some _ \<Rightarrow> if neg then - (2 ^ 63) else 2 ^ 63 - 1)"

definition opt_text :: "string \<Rightarrow> string option" where
  "opt_text s = (if s = [] then None else Some s)"

definition as_update :: "string \<Rightarrow> string \<Rightarrow> string \<Rightarrow> update_row \<Rightarrow> Update" where
  "as_update appId branch runtimeVersion u =
     \<lparr>AppId = appId, Branch = branch, RuntimeVersion = runtimeVersion, UpdateId = FormatInt (u_id u),
      CreatedAt = u_created u, UpdateUUID = []\<rparr>"

section \<open>Branches\<close>

definition pg_InsertBranch :: "uuid_parser \<Rightarrow> string \<Rightarrow> string \<Rightarrow> int repo" where
  "pg_InsertBranch uuid appId branchName = mapErr (\<lambda>e.
     if e = UniqueViolation then ErrResourceAlreadyExists ''branch'' [branchName] else DbError e)
     (insertBranch (ToPgUUID uuid appId) branchName)"

definition pg_GetUpdateRefsByBranchName :: "uuid_parser \<Rightarrow> string \<Rightarrow> string \<Rightarrow> UpdateRef list repo" where
  "pg_GetUpdateRefsByBranchName uuid appId branchName =
     bindE (query (getUpdatesMetadataByBranchName branchName (ToPgUUID uuid appId))) (\<lambda>rows.
       ret (map (\<lambda>(i, version). \<lparr>RefID = i, RefRuntimeVersion = version\<rparr>) rows))"

definition pg_DeleteBranchByName :: "uuid_parser \<Rightarrow> string \<Rightarrow> string \<Rightarrow> unit repo" where
  "pg_DeleteBranchByName uuid appId branchName =
     bindE (query (deleteBranchByName branchName (ToPgUUID uuid appId))) (\<lambda>rows.
       if rows = 0 then
         bindE (attempt (isBranchProtected (ToPgUUID uuid appId) branchName)) (\<lambda>r. case r of
           Inl e \<Rightarrow> if e = NoRows then throw (ErrResourceNotFound ''branch'' [branchName, appId])
             else throw (Wrapped (Msg ''failed to check branch protection after a refused delete: %w'' []) (DbError e))
         | Inr protected \<Rightarrow> if protected then throw (ErrBranchProtected branchName)
             else throw (ErrResourceNotFound ''branch'' [branchName, appId]))
       else ret ())"

definition pg_GetSurfableBranches :: "uuid_parser \<Rightarrow> string \<Rightarrow> string \<Rightarrow> string \<Rightarrow> SurfableBranch list repo" where
  "pg_GetSurfableBranches uuid appId runtimeVersion platform =
     bindE (wrapped ''failed to retrieve surfable branches from database: %w''
       (getSurfableBranches (ToPgUUID uuid appId) runtimeVersion platform)) (\<lambda>rows.
       ret (map (\<lambda>(name, t). \<lparr>SbName = name, SbLastUpdateAt = t\<rparr>) rows))"

definition pg_CreateRuntimeVersion :: "uuid_parser \<Rightarrow> string \<Rightarrow> string \<Rightarrow> int repo" where
  "pg_CreateRuntimeVersion uuid appId version =
     bindE (mapErr (\<lambda>e. if e = UniqueViolation then ErrResourceAlreadyExists ''runtime version'' [version, appId]
         else Wrapped (Msg ''failed to create runtime version in database: %w'' []) (DbError e))
       (insertRuntimeVersion (ToPgUUID uuid appId) version)) (\<lambda>_. ret 0)"

text \<open>\<^verbatim>\<open>UpsertBranchAndRuntimeVersion\<close> ignores the error of a row that is already there.\<close>

fun already_exists :: "err \<Rightarrow> bool" where
  "already_exists (ErrResourceAlreadyExists _ _) = True"
| "already_exists _ = False"

definition ensure :: "string \<Rightarrow> 'a repo \<Rightarrow> unit repo" where
  "ensure text m = bindE (attempt m) (\<lambda>r. case r of
     Inr _ \<Rightarrow> ret ()
   | Inl e \<Rightarrow> if already_exists e then ret () else throw (Wrapped (Msg text []) e))"

definition pg_UpsertBranchAndRuntimeVersion :: "uuid_parser \<Rightarrow> string \<Rightarrow> string \<Rightarrow> string \<Rightarrow> unit repo" where
  "pg_UpsertBranchAndRuntimeVersion uuid appId branchName runtimeVersion =
     bindE (ensure ''failed to upsert branch: %w'' (pg_InsertBranch uuid appId branchName)) (\<lambda>_.
       ensure ''failed to upsert runtime version: %w'' (pg_CreateRuntimeVersion uuid appId runtimeVersion))"

definition pg_UpdateChannelBranchMapping :: "uuid_parser \<Rightarrow> string \<Rightarrow> string \<Rightarrow> string \<Rightarrow> unit repo" where
  "pg_UpdateChannelBranchMapping uuid appId channelId branchId =
     (case ParseInt channelId of None \<Rightarrow> throw (ErrorText (Msg ''invalid channel ID: %w'' [channelId])) | Some c \<Rightarrow>
      case ParseInt branchId of None \<Rightarrow> throw (ErrorText (Msg ''invalid branch ID: %w'' [branchId])) | Some b \<Rightarrow>
        bindE (mapErr (\<lambda>e. if e = ForeignKeyViolation then ErrResourceNotFound ''branch'' [branchId, appId]
            else Wrapped (Msg ''failed to update channel-branch mapping in database: %w'' []) (DbError e))
          (updateChannelBranchMapping b (ToPgUUID uuid appId) c)) (\<lambda>rows.
          if rows = 0 then throw (ErrResourceNotFound ''channel'' [channelId, appId]) else ret ()))"

definition pg_GetBranchByName :: "uuid_parser \<Rightarrow> string \<Rightarrow> string \<Rightarrow> int repo" where
  "pg_GetBranchByName uuid appId branchName = query (getBranchByName branchName (ToPgUUID uuid appId))"

section \<open>Channels\<close>

definition pg_InsertChannel :: "uuid_parser \<Rightarrow> string \<Rightarrow> int option \<Rightarrow> string \<Rightarrow> int repo" where
  "pg_InsertChannel uuid appId branchId channelName = mapErr (\<lambda>e.
     if e = UniqueViolation then ErrResourceAlreadyExists ''channel'' [channelName, appId]
     else Wrapped (Msg ''failed to create channel in database: %w'' []) (DbError e))
     (insertChannel (ToPgUUID uuid appId) branchId channelName)"

definition pg_DeleteChannel :: "uuid_parser \<Rightarrow> string \<Rightarrow> string \<Rightarrow> unit repo" where
  "pg_DeleteChannel uuid channelName appId =
     bindE (wrapped ''failed to delete channel from database: %w'' (deleteChannelByName channelName (ToPgUUID uuid appId))) (\<lambda>rows.
       if rows = 0 then throw (ErrResourceNotFound ''channel'' [channelName, appId]) else ret ())"

definition pg_GetChannelNameByBranchName :: "uuid_parser \<Rightarrow> string \<Rightarrow> string \<Rightarrow> string list repo" where
  "pg_GetChannelNameByBranchName uuid appId branchName =
     query (getChannelNamesByBranchName branchName (ToPgUUID uuid appId))"

definition pg_GetBranchSurfing :: "uuid_parser \<Rightarrow> string \<Rightarrow> string \<Rightarrow> BranchSurfing option repo" where
  "pg_GetBranchSurfing uuid appId channelName =
     bindE (optional ''failed to retrieve channel branch surfing from database: %w''
       (getChannelBranchSurfing (ToPgUUID uuid appId) channelName)) (\<lambda>row.
       ret (map_option (\<lambda>(enabled, pattern). \<lparr>Enabled = enabled, Pattern = pattern\<rparr>) row))"

definition pg_SetBranchSurfing :: "uuid_parser \<Rightarrow> string \<Rightarrow> string \<Rightarrow> BranchSurfing \<Rightarrow> unit repo" where
  "pg_SetBranchSurfing uuid appId channelName surfing =
     bindE (wrapped ''failed to update channel branch surfing in database: %w''
       (updateChannelBranchSurfing (ToPgUUID uuid appId) channelName (Enabled surfing) (Pattern surfing))) (\<lambda>rows.
       if rows = 0 then throw (ErrResourceNotFound ''channel'' [channelName, appId]) else ret ())"

definition pg_GetChannelBranchMapping :: "uuid_parser \<Rightarrow> string \<Rightarrow> string \<Rightarrow> ChannelResolution option repo" where
  "pg_GetChannelBranchMapping uuid appId channelName =
     bindE (optional ''failed to retrieve channel mapping from database: %w''
       (getChannelBranchMapping (ToPgUUID uuid appId) channelName)) (\<lambda>row.
       ret (map_option (\<lambda>m. \<lparr>MappingId = FormatInt (m_channel m), BranchName = m_branch m,
         Rollout = map_option (\<lambda>(i, b, p). \<lparr>RolloutID = i, RolloutBranch = b, RolloutShare = p\<rparr>) (m_rollout m)\<rparr>) row))"

definition branchUpdateState :: "(string \<times> update_row) option \<Rightarrow> BranchUpdateState option" where
  "branchUpdateState row = map_option (\<lambda>(version, u).
     \<lparr>BsRuntimeVersion = version, BsCommitHash = u_commit u, BsCreatedAt = u_created u,
      BsRolloutPercentage = u_rollout u\<rparr>) row"

definition pg_GetChannels :: "uuid_parser \<Rightarrow> string \<Rightarrow> ChannelMapping list repo" where
  "pg_GetChannels uuid appId =
     bindE (wrapped ''failed to retrieve channels from database: %w'' (getChannelsByAppID (ToPgUUID uuid appId))) (\<lambda>rows.
       ret (map (\<lambda>l.
         \<lparr>ReleaseChannelName = c_name (l_channel l), ReleaseChannelId = FormatInt (c_id (l_channel l)),
          CmBranchName = l_branch_name l, CmBranchId = map_option FormatInt (c_branch (l_channel l)),
          CmCreatedAt = Some (c_created (l_channel l)),
          CmBranchCurrentUpdate = branchUpdateState (l_branch_current l),
          CmRolloutBranchCurrentUpdate = branchUpdateState (l_rollout_current l),
          CmRollout = (case (l_rollout l, l_branch_name l) of
              (Some (r, rolloutBranch), Some branch) \<Rightarrow>
                Some \<lparr>CrID = r_id r, CrChannelName = c_name (l_channel l), CrDefaultBranchName = branch,
                  CrRolloutBranchName = rolloutBranch, CrPercentage = r_percentage r,
                  CrCreatedAt = r_created r, CrUpdatedAt = r_updated r\<rparr>
            | _ \<Rightarrow> None),
          CmBranchSurfing = Some \<lparr>Enabled = c_surf_enabled (l_channel l), Pattern = c_surf_pattern (l_channel l)\<rparr>\<rparr>) rows))"

definition pg_GetBranches :: "uuid_parser \<Rightarrow> string \<Rightarrow> BranchMapping list repo" where
  "pg_GetBranches uuid appId =
     bindE (wrapped ''failed to retrieve branches from database: %w'' (getBranchesByAppID (ToPgUUID uuid appId))) (\<lambda>rows.
       ret (map (\<lambda>k.
         \<lparr>BmBranchName = b_name (k_branch k), BmBranchId = Some (FormatInt (b_id (k_branch k))),
          BmReleaseChannel = k_channel_name k, BmCreatedAt = Some (b_created (k_branch k)),
          BmProtected = b_protected (k_branch k), BmCurrentUpdate = branchUpdateState (k_current k)\<rparr>) rows))"

section \<open>Rollouts\<close>

definition pg_CreateChannelRollout :: "uuid_parser \<Rightarrow> uuid_parser \<Rightarrow> string \<Rightarrow> string \<Rightarrow> string \<Rightarrow> string \<Rightarrow> int \<Rightarrow> int repo" where
  "pg_CreateChannelRollout uuid uuid_scan rid appId channelName rolloutBranchName percentage =
     (case uuid_scan rid of
        None \<Rightarrow> throw (ErrorText (Msg ''failed to parse rollout id: %w'' [rid]))
      | Some i \<Rightarrow> mapErr (\<lambda>e. if e = UniqueViolation then ErrResourceAlreadyExists ''channel rollout'' [channelName, appId]
            else Wrapped (Msg ''failed to create channel rollout in database: %w'' []) (DbError e))
          (insertChannelRollout i (int32 percentage) (ToPgUUID uuid appId) channelName rolloutBranchName))"

definition pg_GetChannelRollout :: "uuid_parser \<Rightarrow> string \<Rightarrow> string \<Rightarrow> ChannelRollout option repo" where
  "pg_GetChannelRollout uuid appId channelName =
     bindE (optional ''failed to retrieve channel rollout from database: %w''
       (getChannelRollout (ToPgUUID uuid appId) channelName)) (\<lambda>row.
       ret (map_option (\<lambda>q. \<lparr>CrID = q_id q, CrChannelName = q_channel_name q, CrDefaultBranchName = q_default_branch q,
         CrRolloutBranchName = q_rollout_branch q, CrPercentage = q_percentage q, CrCreatedAt = q_created q,
         CrUpdatedAt = q_updated q\<rparr>) row))"

definition pg_UpdateChannelRolloutPercentage :: "uuid_parser \<Rightarrow> string \<Rightarrow> string \<Rightarrow> int \<Rightarrow> int repo" where
  "pg_UpdateChannelRolloutPercentage uuid appId channelName percentage =
     query (updateChannelRolloutPercentage (int32 percentage) (ToPgUUID uuid appId) channelName)"

definition pg_DeleteChannelRollout :: "uuid_parser \<Rightarrow> string \<Rightarrow> string \<Rightarrow> int repo" where
  "pg_DeleteChannelRollout uuid appId channelName = query (deleteChannelRollout (ToPgUUID uuid appId) channelName)"

definition pg_PromoteChannelRollout :: "uuid_parser \<Rightarrow> string \<Rightarrow> string \<Rightarrow> int repo" where
  "pg_PromoteChannelRollout uuid appId channelName =
     wrapped ''failed to promote channel rollout: %w'' (promoteChannelRollout (ToPgUUID uuid appId) channelName)"

definition pg_GetChannelRolloutsByBranch :: "uuid_parser \<Rightarrow> string \<Rightarrow> string \<Rightarrow> string list repo" where
  "pg_GetChannelRolloutsByBranch uuid appId branchName =
     query (getChannelRolloutsByBranch (ToPgUUID uuid appId) branchName)"

definition pg_GetActiveRolloutUpdates :: "uuid_parser \<Rightarrow> string \<Rightarrow> string \<Rightarrow> string \<Rightarrow> RolloutUpdate list repo" where
  "pg_GetActiveRolloutUpdates uuid appId branchName runtimeVersion =
     bindE (wrapped ''failed to retrieve active rollout updates from database: %w''
       (getActiveRolloutUpdates (ToPgUUID uuid appId) branchName runtimeVersion)) (\<lambda>rows.
       ret (map (\<lambda>u. \<lparr>RuUpdateId = FormatInt (u_id u), RuPlatform = u_platform u,
         RuPercentage = (case u_rollout u of None \<Rightarrow> 0 | Some p \<Rightarrow> p),
         RuControlUpdateId = map_option FormatInt (u_control u), RuCreatedAt = u_created u\<rparr>) rows))"

definition pg_SetUpdateRolloutPercentage :: "uuid_parser \<Rightarrow> string \<Rightarrow> string \<Rightarrow> string \<Rightarrow> int \<Rightarrow> int repo" where
  "pg_SetUpdateRolloutPercentage uuid appId branchName runtimeVersion percentage =
     query (setUpdateRolloutPercentage (ToPgUUID uuid appId) branchName runtimeVersion (int32 percentage))"

definition pg_ClearUpdateRollout :: "uuid_parser \<Rightarrow> string \<Rightarrow> string \<Rightarrow> string \<Rightarrow> int repo" where
  "pg_ClearUpdateRollout uuid appId branchName runtimeVersion =
     query (clearUpdateRollout (ToPgUUID uuid appId) branchName runtimeVersion)"

section \<open>Updates\<close>

definition pg_GetLatestUpdate :: "uuid_parser \<Rightarrow> string \<Rightarrow> string \<Rightarrow> string \<Rightarrow> string \<Rightarrow> Update option repo" where
  "pg_GetLatestUpdate uuid appId branchName runtimeVersion platform =
     bindE (optional ''failed to retrieve latest update from database: %w''
       (getLatestUpdate (ToPgUUID uuid appId) branchName runtimeVersion platform)) (\<lambda>row.
       ret (map_option (as_update appId branchName runtimeVersion) row))"

definition with_uuid :: "update_row \<Rightarrow> Update \<Rightarrow> Update" where
  "with_uuid u x = (case u_uuid u of None \<Rightarrow> x | Some i \<Rightarrow> x\<lparr>UpdateUUID := i\<rparr>)"

definition pg_GetLatestUpdateWithRollout :: "uuid_parser \<Rightarrow> string \<Rightarrow> string \<Rightarrow> string \<Rightarrow> string \<Rightarrow> UpdateWithRollout option repo" where
  "pg_GetLatestUpdateWithRollout uuid appId branchName runtimeVersion platform =
     bindE (optional ''failed to retrieve latest update with rollout from database: %w''
       (getLatestUpdateWithRollout (ToPgUUID uuid appId) branchName runtimeVersion platform)) (\<lambda>row.
       ret (map_option (\<lambda>(u, c). \<lparr>Latest = with_uuid u (as_update appId branchName runtimeVersion u),
         RolloutPercentage = u_rollout u,
         Control = map_option (\<lambda>c. with_uuid c (as_update appId branchName runtimeVersion c)) c\<rparr>) row))"

definition pg_GetUpdateType :: "uuid_parser \<Rightarrow> Update \<Rightarrow> int repo" where
  "pg_GetUpdateType uuid u = bindE (parse_id (UpdateId u)) (\<lambda>i.
     wrapped ''failed to retrieve update type from database: %w'' (getUpdateType (ToPgUUID uuid (AppId u)) (Branch u) i))"

definition pg_IsUpdateValid :: "uuid_parser \<Rightarrow> Update \<Rightarrow> bool repo" where
  "pg_IsUpdateValid uuid u = bindE (parse_id (UpdateId u)) (\<lambda>i.
     bindE (optional ''failed to retrieve update checked state from database: %w''
       (getUpdateCheckedAt (ToPgUUID uuid (AppId u)) (Branch u) i)) (\<lambda>row.
       ret (case row of None \<Rightarrow> False | Some checked \<Rightarrow> checked \<noteq> None)))"

definition pg_MarkUpdateAsChecked :: "uuid_parser \<Rightarrow> Update \<Rightarrow> unit repo" where
  "pg_MarkUpdateAsChecked uuid u = bindE (parse_id (UpdateId u)) (\<lambda>i.
     bindE (wrapped ''failed to mark update as checked in database: %w'' (markUpdateAsChecked i (ToPgUUID uuid (AppId u)) (Branch u))) (\<lambda>rows.
       if rows = 0 then
         bindE (attempt (getUpdateByBranchNameAndRuntime (ToPgUUID uuid (AppId u)) i (Branch u) (RuntimeVersion u))) (\<lambda>r. case r of
           Inl e \<Rightarrow> if e = NoRows then ret () else throw (Wrapped (Msg ''failed to disambiguate refused update check: %w'' []) (DbError e))
         | Inr row \<Rightarrow> if u_rollout row \<noteq> None then throw ErrRolloutSupersededByNewerUpdate
             else throw ErrPublishBlockedByActiveRollout)
       else ret ()))"

definition pg_CreateUpdate :: "uuid_parser \<Rightarrow> string \<Rightarrow> int \<Rightarrow> string \<Rightarrow> string \<Rightarrow> string \<Rightarrow> string \<Rightarrow> string \<Rightarrow> string option
    \<Rightarrow> Update option repo" where
  "pg_CreateUpdate uuid appId updateId branchName runtimeVersion platform commitHash msg publishGroup =
     bindE (wrapped ''failed to insert update into database: %w''
       (insertUpdate updateId branchName (ToPgUUID uuid appId) runtimeVersion NormalUpdate platform commitHash
         (opt_text msg) (ToPgUUIDPtr uuid publishGroup))) (\<lambda>u.
       ret (Some (as_update appId branchName runtimeVersion u)))"

definition pg_CreateUpdateWithRollout :: "uuid_parser \<Rightarrow> string \<Rightarrow> int \<Rightarrow> string \<Rightarrow> string \<Rightarrow> string \<Rightarrow> string \<Rightarrow> string \<Rightarrow> int
    \<Rightarrow> string option \<Rightarrow> Update option repo" where
  "pg_CreateUpdateWithRollout uuid appId updateId branchName runtimeVersion platform commitHash msg percentage publishGroup =
     bindE (wrapped ''failed to insert update with rollout into database: %w''
       (insertUpdateWithRollout updateId branchName (ToPgUUID uuid appId) runtimeVersion NormalUpdate platform commitHash
         (opt_text msg) (int32 percentage) (ToPgUUIDPtr uuid publishGroup))) (\<lambda>u.
       ret (Some (as_update appId branchName runtimeVersion u)))"

definition pg_CreateRollback :: "uuid_parser \<Rightarrow> string \<Rightarrow> int \<Rightarrow> string \<Rightarrow> string \<Rightarrow> string \<Rightarrow> string \<Rightarrow> string \<Rightarrow> Update option repo" where
  "pg_CreateRollback uuid appId updateId branchName runtimeVersion platform commitHash msg =
     bindE (wrapped ''failed to insert rollback update into database: %w''
       (insertUpdate updateId branchName (ToPgUUID uuid appId) runtimeVersion Rollback platform commitHash (opt_text msg) None)) (\<lambda>u.
       ret (Some (as_update (case ToPgUUID uuid appId of None \<Rightarrow> [] | Some a \<Rightarrow> a) branchName runtimeVersion u)))"

definition pg_UpdateExists :: "uuid_parser \<Rightarrow> string \<Rightarrow> string \<Rightarrow> int \<Rightarrow> bool repo" where
  "pg_UpdateExists uuid appId branchName updateId =
     wrapped ''failed to check for an existing update: %w'' (updateExistsOnBranch (ToPgUUID uuid appId) branchName updateId)"

definition pg_GetUpdate :: "uuid_parser \<Rightarrow> string \<Rightarrow> string \<Rightarrow> string \<Rightarrow> string \<Rightarrow> Update option repo" where
  "pg_GetUpdate uuid appId branchName runtimeVersion updateId = bindE (parse_id updateId) (\<lambda>i.
     bindE (optional ''failed to retrieve update by ID from database: %w''
       (getUpdateByBranchNameAndRuntime (ToPgUUID uuid appId) i branchName runtimeVersion)) (\<lambda>row.
       ret (map_option (as_update appId branchName runtimeVersion) row)))"

definition pg_GetCheckedUpdate :: "uuid_parser \<Rightarrow> string \<Rightarrow> string \<Rightarrow> string \<Rightarrow> string \<Rightarrow> Update option repo" where
  "pg_GetCheckedUpdate uuid appId branchName runtimeVersion updateId = bindE (parse_id updateId) (\<lambda>i.
     bindE (optional ''failed to retrieve update by ID from database: %w''
       (getUpdateByBranchNameAndRuntime (ToPgUUID uuid appId) i branchName runtimeVersion)) (\<lambda>row.
       ret (case row of None \<Rightarrow> None
         | Some u \<Rightarrow> if u_checked u = None then None else Some (as_update appId branchName runtimeVersion u))))"

definition pg_GetUpdatesByPublishGroup :: "uuid_parser \<Rightarrow> string \<Rightarrow> string \<Rightarrow> string \<Rightarrow> string \<Rightarrow> PublishGroupMember list repo" where
  "pg_GetUpdatesByPublishGroup uuid appId branchName runtimeVersion publishGroup =
     bindE (wrapped ''failed to retrieve updates by publish group from database: %w''
       (getUpdatesByPublishGroup (ToPgUUID uuid appId) branchName runtimeVersion (ToPgUUID uuid publishGroup))) (\<lambda>rows.
       ret (map (\<lambda>u. \<lparr>PgmUpdateId = FormatInt (u_id u), PgmPlatform = u_platform u, PgmCommitHash = u_commit u\<rparr>) rows))"

definition pg_GetUpdateByUUID :: "uuid_parser \<Rightarrow> uuid_parser \<Rightarrow> string \<Rightarrow> string \<Rightarrow> Update option repo" where
  "pg_GetUpdateByUUID uuid uuid_scan appId updateUUID =
     (case uuid_scan updateUUID of
        None \<Rightarrow> throw (ErrorText (Msg ''failed to parse update UUID: %w'' [updateUUID]))
      | Some i \<Rightarrow> bindE (optional ''failed to retrieve update by UUID from database: %w''
          (getUpdateByUUID (ToPgUUID uuid appId) (Some i))) (\<lambda>row.
          ret (map_option (\<lambda>(u, b, v). as_update appId b v u) row)))"

definition pg_HasActiveRolloutUpdate :: "uuid_parser \<Rightarrow> string \<Rightarrow> string \<Rightarrow> string \<Rightarrow> bool repo" where
  "pg_HasActiveRolloutUpdate uuid appId branchName runtimeVersion =
     query (hasActiveRolloutUpdate (ToPgUUID uuid appId) branchName runtimeVersion)"

definition pg_RetrieveUpdateStoredMetadata :: "uuid_parser \<Rightarrow> Update \<Rightarrow> UpdateStoredMetadata option repo" where
  "pg_RetrieveUpdateStoredMetadata uuid u =
     bindE (wrapped ''failed to retrieve update metadata from database: %w''
       (getUpdateMetadata (ParseInt_value (UpdateId u)) (ToPgUUID uuid (AppId u)) (Branch u))) (\<lambda>row.
       ret (Some \<lparr>MdPlatform = u_platform row, MdCommitHash = u_commit row,
         MdUpdateUUID = (case u_uuid row of None \<Rightarrow> [] | Some i \<Rightarrow> i),
         MdMessage = (case u_message row of None \<Rightarrow> [] | Some m \<Rightarrow> m)\<rparr>))"

definition pg_GetUpdateAssetMapping :: "uuid_parser \<Rightarrow> Update \<Rightarrow> UpdateAssetMapping option repo" where
  "pg_GetUpdateAssetMapping uuid u = bindE (parse_id (UpdateId u)) (\<lambda>i.
     bindE (optional ''failed to retrieve update asset mapping from database: %w''
       (getUpdateAssetMapping i (ToPgUUID uuid (AppId u)) (Branch u))) (\<lambda>row. ret (Option.bind row (\<lambda>m. m))))"

definition pg_GetUpdateSourcemapHash :: "uuid_parser \<Rightarrow> Update \<Rightarrow> string option repo" where
  "pg_GetUpdateSourcemapHash uuid u = bindE (parse_id (UpdateId u)) (\<lambda>i.
     bindE (optional ''failed to retrieve update sourcemap hash from database: %w''
       (getUpdateSourcemapHash i (ToPgUUID uuid (AppId u)) (Branch u))) (\<lambda>row. ret (Option.bind row (\<lambda>m. m))))"

definition no_rows_error :: "string \<Rightarrow> string \<Rightarrow> int \<Rightarrow> unit repo" where
  "no_rows_error text updateId rows = (if rows = 0 then throw (ErrorText (Msg text [updateId])) else ret ())"

definition pg_StoreUpdateSourcemapHash :: "uuid_parser \<Rightarrow> Update \<Rightarrow> string \<Rightarrow> unit repo" where
  "pg_StoreUpdateSourcemapHash uuid u hash = bindE (parse_id (UpdateId u)) (\<lambda>i.
     bindE (wrapped ''failed to store update sourcemap hash in database: %w''
       (setUpdateSourcemapHash i (Some hash) (ToPgUUID uuid (AppId u)) (Branch u)))
       (no_rows_error ''no rows were updated when storing the sourcemap hash for update ID %s'' (UpdateId u)))"

definition pg_StoreUpdateAssetMapping :: "uuid_parser \<Rightarrow> Update \<Rightarrow> UpdateAssetMapping \<Rightarrow> unit repo" where
  "pg_StoreUpdateAssetMapping uuid u mapping = bindE (parse_id (UpdateId u)) (\<lambda>i.
     bindE (wrapped ''failed to store update asset mapping in database: %w''
       (setUpdateAssetMapping i (Some mapping) (ToPgUUID uuid (AppId u)) (Branch u)))
       (no_rows_error ''no rows were updated when storing the asset mapping for update ID %s'' (UpdateId u)))"

definition pg_StoreUpdateUUIDInMetadata :: "uuid_parser \<Rightarrow> uuid_parser \<Rightarrow> Update \<Rightarrow> string \<Rightarrow> unit repo" where
  "pg_StoreUpdateUUIDInMetadata uuid uuid_scan u updateUUID =
     (case uuid_scan updateUUID of
        None \<Rightarrow> throw (ErrorText (Msg ''failed to parse update UUID: %w'' [updateUUID]))
      | Some i \<Rightarrow> bindE (wrapped ''failed to store update UUID in database: %w''
          (storeUpdateUUID (ParseInt_value (UpdateId u)) i (ToPgUUID uuid (AppId u)) (Branch u)))
          (no_rows_error ''no rows were updated when trying to store update UUID in database for update ID %s'' (UpdateId u)))"

section \<open>Running a method\<close>

lemma query_run [proc_simps]: "query s d = (case s d of (Inl e, d') \<Rightarrow> (Inl (DbError e), d') | (Inr x, d') \<Rightarrow> (Inr x, d'))"
  by (simp add: query_def mapErr_run)

lemma wrapped_run [proc_simps]:
  "wrapped text s d = (case s d of (Inl e, d') \<Rightarrow> (Inl (Wrapped (Msg text []) (DbError e)), d') | (Inr x, d') \<Rightarrow> (Inr x, d'))"
  by (simp add: wrapped_def mapErr_run)

lemma optional_run [proc_simps]:
  "optional text s d = (case s d of (Inr x, d') \<Rightarrow> (Inr (Some x), d')
     | (Inl e, d') \<Rightarrow> if e = NoRows then (Inr None, d') else (Inl (Wrapped (Msg text []) (DbError e)), d'))"
  by (auto simp: optional_def bindE_run attempt_run split: prod.splits sum.splits)

lemma read_one_optional: "optional text (read_one f) d = (Inr (f d), d)"
  by (auto simp: optional_run read_one_def split: option.splits)

lemma parse_id_FormatInt: "int64_range i \<Longrightarrow> parse_id (FormatInt i) = ret i"
  by (simp add: parse_id_def ParseInt_FormatInt)

end
