(* ===== verification/Interfaces.thy ===== *)
theory Interfaces
  imports Domain Cache
begin

text \<open>
  The interfaces between the services and what they are given: the repositories and stores of
  \<^verbatim>\<open>internal/services\<close>, the process-wide cache and configuration, and the audit seam.  A Go interface is
  a record of its methods, a method a \<^verbatim>\<open>proc\<close> over an arbitrary state \<^typ>\<open>'s\<close>, so that a service can be run
  over the Postgres repositories, over any other implementation, or over a test double.  A Go interface
  value that may be nil is an option.
\<close>

type_synonym ('s, 'a) op = "('s, err, 'a) proc"

section \<open>Process-wide services\<close>

record 's CacheAPI =
  cacheGet :: "string \<Rightarrow> 's \<Rightarrow> string \<times> 's"
  cacheSet :: "string \<Rightarrow> string \<Rightarrow> int option \<Rightarrow> 's \<Rightarrow> 's"
  cacheDelete :: "string \<Rightarrow> 's \<Rightarrow> 's"

text \<open>The \<^verbatim>\<open>encoding/json\<close> codec of one type.\<close>

record 'a codec =
  Marshal :: "'a \<Rightarrow> string option"
  Unmarshal :: "string \<Rightarrow> 'a option"

record KeysConfig =
  KeysMode :: string
  PublicPath :: string
  PrivatePath :: string
  PublicSecretId :: string
  PrivateSecretId :: string
  PublicB64 :: string
  PrivateB64 :: string
  SealedPublicKey :: string
  SealedPrivateKey :: string

record AppConfig =
  AcId :: string
  AcName :: string
  AcGitURL :: string
  AccessToken :: string
  Keys :: KeysConfig
  AcCreatedAt :: int

text \<open>The composed manifest as the cache holds it.\<close>

record manifestResponseEntry =
  ManifestJSON :: string
  EntryUpdateUUID :: string

text \<open>The content delivery network, when one is configured: it signs redirection URLs.\<close>

record CDN =
  ComputeRedirectionURLForBlob :: "string \<Rightarrow> string \<Rightarrow> (err, string) result"
  ComputeRedirectionURLForPatch :: "string \<Rightarrow> string \<Rightarrow> string \<Rightarrow> string \<Rightarrow> (err, string) result"
  ComputeRedirectionURLForAsset :: "string \<Rightarrow> string \<Rightarrow> string \<Rightarrow> string \<Rightarrow> string \<Rightarrow> (err, string) result"

text \<open>What the services read from the process: the cache, the configuration, and the packages whose code is
  not part of the repository (the JSON codecs of the cached types, \<^verbatim>\<open>uuid.Parse\<close> with the canonical spelling
  as its result, SHA-256, and the MIME table).\<close>

record 's Runtime =
  GetCache :: "'s CacheAPI"
  IsDBMode :: bool
  Version :: string
  IsBundleDiffingEnabled :: bool
  IsBundleDiffingCDNRedirect :: bool
  GetCDN :: "CDN option"
  uuidParse :: "string \<Rightarrow> string option"
  sha256 :: "string \<Rightarrow> string"
  TypeByExtension :: "string \<Rightarrow> string"
  jsonAppConfig :: "AppConfig codec"
  jsonChannelResolution :: "ChannelResolution codec"
  jsonUpdateWithRollout :: "UpdateWithRollout codec"
  jsonCachedUpdate :: "Update option codec"
  jsonSurfableBranches :: "SurfableBranch list codec"
  jsonManifestEntry :: "manifestResponseEntry codec"

text \<open>Running a cache operation as a step that cannot fail.\<close>

definition cached_get :: "'s Runtime \<Rightarrow> string \<Rightarrow> ('s, string) op" where
  "cached_get rt key = (\<lambda>s. case cacheGet (GetCache rt) key s of (v, s') \<Rightarrow> (Inr v, s'))"

definition cached_put :: "'s Runtime \<Rightarrow> string \<Rightarrow> string \<Rightarrow> int option \<Rightarrow> ('s, unit) op" where
  "cached_put rt key v ttl = modify (cacheSet (GetCache rt) key v ttl)"

definition cache_forget :: "'s Runtime \<Rightarrow> string \<Rightarrow> ('s, unit) op" where
  "cache_forget rt key = modify (cacheDelete (GetCache rt) key)"

definition cached_json :: "'s Runtime \<Rightarrow> 'a codec \<Rightarrow> string \<Rightarrow> ('s, 'a option) op" where
  "cached_json rt c key = (\<lambda>s. case GetJSON (Unmarshal c) (cacheGet (GetCache rt)) key s of (v, s') \<Rightarrow> (Inr v, s'))"

definition put_json :: "'s Runtime \<Rightarrow> 'a codec \<Rightarrow> string \<Rightarrow> 'a \<Rightarrow> int option \<Rightarrow> ('s, unit) op" where
  "put_json rt c key v ttl = modify (SetJSON (Marshal c) (cacheSet (GetCache rt)) key v ttl)"

section \<open>Repositories and stores\<close>

record 's AppRepository =
  GetAppByID :: "string \<Rightarrow> ('s, AppConfig) op"

record 's BranchRepository =
  InsertBranch :: "string \<Rightarrow> string \<Rightarrow> ('s, int) op"
  UpsertBranchAndRuntimeVersion :: "string \<Rightarrow> string \<Rightarrow> string \<Rightarrow> ('s, unit) op"
  GetUpdateRefsByBranchName :: "string \<Rightarrow> string \<Rightarrow> ('s, UpdateRef list) op"
  DeleteBranchByName :: "string \<Rightarrow> string \<Rightarrow> ('s, unit) op"
  GetBranches :: "string \<Rightarrow> ('s, BranchMapping list) op"
  GetSurfableBranches :: "string \<Rightarrow> string \<Rightarrow> string \<Rightarrow> ('s, SurfableBranch list) op"
  UpdateChannelBranchMapping :: "string \<Rightarrow> string \<Rightarrow> string \<Rightarrow> ('s, unit) op"
  CreateRuntimeVersion :: "string \<Rightarrow> string \<Rightarrow> ('s, int) op"
  GetBranchByName :: "string \<Rightarrow> string \<Rightarrow> ('s, int) op"

record 's ChannelRepository =
  InsertChannel :: "string \<Rightarrow> int option \<Rightarrow> string \<Rightarrow> ('s, int) op"
  DeleteChannel :: "string \<Rightarrow> string \<Rightarrow> ('s, unit) op"
  GetChannelNameByBranchName :: "string \<Rightarrow> string \<Rightarrow> ('s, string list) op"
  GetChannels :: "string \<Rightarrow> ('s, ChannelMapping list) op"
  GetChannelBranchMapping :: "string \<Rightarrow> string \<Rightarrow> ('s, ChannelResolution option) op"
  GetBranchSurfing :: "string \<Rightarrow> string \<Rightarrow> ('s, BranchSurfing option) op"
  SetBranchSurfing :: "string \<Rightarrow> string \<Rightarrow> BranchSurfing \<Rightarrow> ('s, unit) op"

record 's RolloutRepository =
  CreateChannelRollout :: "string \<Rightarrow> string \<Rightarrow> string \<Rightarrow> string \<Rightarrow> int \<Rightarrow> ('s, int) op"
  GetChannelRollout :: "string \<Rightarrow> string \<Rightarrow> ('s, ChannelRollout option) op"
  UpdateChannelRolloutPercentage :: "string \<Rightarrow> string \<Rightarrow> int \<Rightarrow> ('s, int) op"
  DeleteChannelRollout :: "string \<Rightarrow> string \<Rightarrow> ('s, int) op"
  PromoteChannelRollout :: "string \<Rightarrow> string \<Rightarrow> ('s, int) op"
  GetChannelRolloutsByBranch :: "string \<Rightarrow> string \<Rightarrow> ('s, string list) op"
  GetActiveRolloutUpdates :: "string \<Rightarrow> string \<Rightarrow> string \<Rightarrow> ('s, RolloutUpdate list) op"
  SetUpdateRolloutPercentage :: "string \<Rightarrow> string \<Rightarrow> string \<Rightarrow> int \<Rightarrow> ('s, int) op"
  ClearUpdateRollout :: "string \<Rightarrow> string \<Rightarrow> string \<Rightarrow> ('s, int) op"

record 's UpdateRepository =
  MarkUpdateAsChecked :: "Update \<Rightarrow> ('s, unit) op"
  GetUpdate :: "string \<Rightarrow> string \<Rightarrow> string \<Rightarrow> string \<Rightarrow> ('s, Update option) op"
  GetCheckedUpdate :: "string \<Rightarrow> string \<Rightarrow> string \<Rightarrow> string \<Rightarrow> ('s, Update option) op"
  GetLatestUpdate :: "string \<Rightarrow> string \<Rightarrow> string \<Rightarrow> string \<Rightarrow> ('s, Update option) op"
  GetLatestUpdateWithRollout :: "string \<Rightarrow> string \<Rightarrow> string \<Rightarrow> string \<Rightarrow> ('s, UpdateWithRollout option) op"
  GetUpdateByUUID :: "string \<Rightarrow> string \<Rightarrow> ('s, Update option) op"
  HasActiveRolloutUpdate :: "string \<Rightarrow> string \<Rightarrow> string \<Rightarrow> ('s, bool) op"
  GetUpdateType :: "Update \<Rightarrow> ('s, int) op"
  IsUpdateValid :: "Update \<Rightarrow> ('s, bool) op"
  CreateUpdate :: "string \<Rightarrow> int \<Rightarrow> string \<Rightarrow> string \<Rightarrow> string \<Rightarrow> string \<Rightarrow> string \<Rightarrow> string option \<Rightarrow> ('s, Update option) op"
  CreateUpdateWithRollout :: "string \<Rightarrow> int \<Rightarrow> string \<Rightarrow> string \<Rightarrow> string \<Rightarrow> string \<Rightarrow> string \<Rightarrow> int \<Rightarrow> string option
    \<Rightarrow> ('s, Update option) op"
  CreateRollback :: "string \<Rightarrow> int \<Rightarrow> string \<Rightarrow> string \<Rightarrow> string \<Rightarrow> string \<Rightarrow> string \<Rightarrow> ('s, Update option) op"
  UpdateExists :: "string \<Rightarrow> string \<Rightarrow> int \<Rightarrow> ('s, bool) op"
  GetUpdatesByPublishGroup :: "string \<Rightarrow> string \<Rightarrow> string \<Rightarrow> string \<Rightarrow> ('s, PublishGroupMember list) op"
  RetrieveUpdateStoredMetadata :: "Update \<Rightarrow> ('s, UpdateStoredMetadata option) op"
  StoreUpdateUUIDInMetadata :: "Update \<Rightarrow> string \<Rightarrow> ('s, unit) op"
  GetUpdateAssetMapping :: "Update \<Rightarrow> ('s, UpdateAssetMapping option) op"
  StoreUpdateAssetMapping :: "Update \<Rightarrow> UpdateAssetMapping \<Rightarrow> ('s, unit) op"
  GetUpdateSourcemapHash :: "Update \<Rightarrow> ('s, string option) op"
  StoreUpdateSourcemapHash :: "Update \<Rightarrow> string \<Rightarrow> ('s, unit) op"

text \<open>The object stores; a file is its bytes.  \<^verbatim>\<open>objectstore.UploadRequest\<close> is a presigned request.\<close>

record UploadRequest =
  UrURL :: string
  UrHeaders :: "(string \<times> string) list"

record 's BlobStore =
  BlobExists :: "string \<Rightarrow> string \<Rightarrow> ('s, bool) op"
  BlobGet :: "string \<Rightarrow> string \<Rightarrow> ('s, string option) op"

record 's PatchStore =
  PatchExists :: "string \<Rightarrow> string \<Rightarrow> string \<Rightarrow> string \<Rightarrow> ('s, bool) op"
  PatchGet :: "string \<Rightarrow> string \<Rightarrow> string \<Rightarrow> string \<Rightarrow> ('s, string option) op"
  PatchPut :: "string \<Rightarrow> string \<Rightarrow> string \<Rightarrow> string \<Rightarrow> string \<Rightarrow> ('s, unit) op"
  PatchDeleteBranch :: "string \<Rightarrow> string \<Rightarrow> ('s, unit) op"

record 's UpdateStore =
  UpdateStoreDelete :: "string \<Rightarrow> string \<Rightarrow> string \<Rightarrow> string \<Rightarrow> ('s, unit) op"
  CreateFrom :: "Update \<Rightarrow> string \<Rightarrow> ('s, Update) op"

record 's SourcemapStore =
  SourcemapExists :: "string \<Rightarrow> string \<Rightarrow> ('s, bool) op"
  SourcemapPut :: "string \<Rightarrow> string \<Rightarrow> string \<Rightarrow> ('s, unit) op"
  SourcemapPresignPut :: "string \<Rightarrow> string \<Rightarrow> string \<Rightarrow> ('s, UploadRequest) op"

section \<open>Goroutines\<close>

text \<open>A \<^verbatim>\<open>go\<close> statement starts work whose outcome its caller never sees.  Starting it is an effect of the caller;
  when it runs is up to the scheduler, so the work is a value that the state queues.\<close>

datatype job =
    PreWarmManifestJob string string string string
  | PreWarmControlJob string string string string
  | ComputeBSDiffJob Update string string
  | DeleteBranchFilesJob string string "UpdateRef list"

section \<open>Audit events\<close>

text \<open>The request context carries at most a signed-in dashboard principal or a CLI credential.\<close>

record DashboardPrincipal =
  PrUserId :: string
  PrEmail :: string
  PrIsAdmin :: bool
  PrSessionVersion :: int

record CliCredential =
  CaAppID :: string
  CaKeyName :: string
  CaKeyID :: int

record Ctx =
  PrincipalFromContext :: "DashboardPrincipal option"
  CliAuthFromContext :: "CliCredential option"

datatype meta = MetaText string | MetaInt int | MetaBool bool | MetaList "meta list" | MetaMap "(string \<times> meta) list"

record Event =
  Action :: string
  ActorType :: string
  ActorID :: string
  ActorDisplay :: string
  TargetType :: string
  TargetID :: string
  TargetDisplay :: string
  EventAppID :: string
  Outcome :: string
  Metadata :: "(string \<times> meta) list"

definition new_event :: "string \<Rightarrow> string \<Rightarrow> string \<Rightarrow> string \<Rightarrow> (string \<times> meta) list \<Rightarrow> Event" where
  "new_event action kind target app metadata =
     \<lparr>Action = action, ActorType = [], ActorID = [], ActorDisplay = [], TargetType = kind, TargetID = target,
      TargetDisplay = target, EventAppID = app, Outcome = [], Metadata = metadata\<rparr>"

definition auditActorFromContext :: "Ctx \<Rightarrow> string \<times> string \<times> string" where
  "auditActorFromContext ctx = (case PrincipalFromContext ctx of
     Some p \<Rightarrow> (''user'', PrUserId p, if PrEmail p = [] then PrUserId p else PrEmail p)
   | None \<Rightarrow> (case CliAuthFromContext ctx of
       Some c \<Rightarrow> (''api_key'', if CaKeyID c \<noteq> 0 then FormatInt (CaKeyID c) else [],
         if CaKeyName c = [] then ''api key (app '' @ CaAppID c @ '')'' else CaKeyName c)
     | None \<Rightarrow> ([], [], [])))"

type_synonym 's RecordFunc = "Event \<Rightarrow> 's \<Rightarrow> 's"

definition recordManagementEvent :: "Ctx \<Rightarrow> 's RecordFunc option \<Rightarrow> Event \<Rightarrow> ('s, unit) op" where
  "recordManagementEvent ctx record event = (case record of
     None \<Rightarrow> ret ()
   | Some f \<Rightarrow> (case auditActorFromContext ctx of (kind, actor, display) \<Rightarrow>
       modify (f (event\<lparr>ActorType := kind, ActorID := actor, ActorDisplay := display, Outcome := ''success''\<rparr>))))"

section \<open>Running the steps\<close>

lemma cached_get_run [proc_simps]: "cached_get rt key s = (Inr (fst (cacheGet (GetCache rt) key s)), snd (cacheGet (GetCache rt) key s))"
  by (simp add: cached_get_def split: prod.split)

lemma cached_put_run [proc_simps]: "cached_put rt key v ttl s = (Inr (), cacheSet (GetCache rt) key v ttl s)"
  by (simp add: cached_put_def)

lemma cache_forget_run [proc_simps]: "cache_forget rt key s = (Inr (), cacheDelete (GetCache rt) key s)"
  by (simp add: cache_forget_def)

lemma cached_json_run [proc_simps]:
  "cached_json rt c key s = (Inr (if fst (cacheGet (GetCache rt) key s) = [] then None
       else Unmarshal c (fst (cacheGet (GetCache rt) key s))), snd (cacheGet (GetCache rt) key s))"
  by (simp add: cached_json_def GetJSON_def split: prod.split)

lemma put_json_run [proc_simps]:
  "put_json rt c key v ttl s = (Inr (), case Marshal c v of None \<Rightarrow> s | Some payload \<Rightarrow> cacheSet (GetCache rt) key payload ttl s)"
  by (simp add: put_json_def SetJSON_def)

lemma recordManagementEvent_ok: "\<exists>s'. recordManagementEvent ctx record event s = (Inr (), s')"
  by (simp add: recordManagementEvent_def split: option.split prod.split)

end
