(* ===== verification/Delivery.thy ===== *)
theory Delivery
  imports Interfaces BranchRules SurfBlock Validation "HOL-Library.AList"
begin

text \<open>
  The update-delivery path of \<^verbatim>\<open>internal/services\<close>: the read-through caches of \<^verbatim>\<open>protocol_cache.go\<close>, the
  per-device choice of \<^verbatim>\<open>update_service.go\<close>, and the manifest and asset resolution of
  \<^verbatim>\<open>expo_protocol_service.go\<close>, over any repositories and any cache.  Logging is left out; the tracking calls of
  the metrics package are the field \<^verbatim>\<open>track\<close>.
\<close>

section \<open>Cache keys and times to live\<close>

definition ImmutableCacheTTLSeconds :: int where "ImmutableCacheTTLSeconds = 7 * 24 * 3600"
definition appConfigCacheTTLSeconds :: int where "appConfigCacheTTLSeconds = 10"
definition channelMappingCacheTTLSeconds :: int where "channelMappingCacheTTLSeconds = 5"
definition updateTypeCacheTTLSeconds :: int where "updateTypeCacheTTLSeconds = ImmutableCacheTTLSeconds"
definition updateByUUIDCacheTTLSeconds :: int where "updateByUUIDCacheTTLSeconds = ImmutableCacheTTLSeconds"
definition unknownUpdateByUUIDCacheTTLSeconds :: int where "unknownUpdateByUUIDCacheTTLSeconds = 60"
definition patchExistsCacheTTLSeconds :: int where "patchExistsCacheTTLSeconds = ImmutableCacheTTLSeconds"
definition missingPatchCacheTTLSeconds :: int where "missingPatchCacheTTLSeconds = 60"
definition channelBranchSurfingCacheTTLSeconds :: int where "channelBranchSurfingCacheTTLSeconds = 30"
definition surfableBranchesCacheTTLSeconds :: int where "surfableBranchesCacheTTLSeconds = 15"
definition lastUpdateEnvelopeCacheTTLSeconds :: int where "lastUpdateEnvelopeCacheTTLSeconds = 60"

definition appConfigCacheKey :: "'s Runtime \<Rightarrow> string \<Rightarrow> string" where
  "appConfigCacheKey rt appId = Key [''app-config'', Version rt, appId]"

definition updateTypeCacheKey :: "'s Runtime \<Rightarrow> Update \<Rightarrow> string" where
  "updateTypeCacheKey rt u = Key [''update-type'', Version rt, AppId u, Branch u, RuntimeVersion u, UpdateId u]"

definition updateByUUIDCacheKey :: "'s Runtime \<Rightarrow> string \<Rightarrow> string \<Rightarrow> string" where
  "updateByUUIDCacheKey rt appId updateUUID = Key [''update-by-uuid'', Version rt, appId, updateUUID]"

definition patchExistsCacheKey :: "'s Runtime \<Rightarrow> string \<Rightarrow> string \<Rightarrow> string \<Rightarrow> string \<Rightarrow> string" where
  "patchExistsCacheKey rt appId branch target source = Key [''patch-exists'', Version rt, appId, branch, target, source]"

definition channelMappingCacheKey :: "'s Runtime \<Rightarrow> string \<Rightarrow> string \<Rightarrow> string" where
  "channelMappingCacheKey rt appId channelName = Key [''channel-mapping'', Version rt, appId, channelName]"

definition channelBranchSurfingCacheKey :: "'s Runtime \<Rightarrow> string \<Rightarrow> string \<Rightarrow> string" where
  "channelBranchSurfingCacheKey rt appId channelName = Key [''channel-branch-surfing'', Version rt, appId, channelName]"

definition surfableBranchesCacheKey :: "'s Runtime \<Rightarrow> string \<Rightarrow> string \<Rightarrow> string \<Rightarrow> string" where
  "surfableBranchesCacheKey rt appId runtimeVersion platform = Key [''surfable-branches'', Version rt, appId, runtimeVersion, platform]"

definition ComputeLastUpdateCacheKey :: "'s Runtime \<Rightarrow> string \<Rightarrow> string \<Rightarrow> string \<Rightarrow> string \<Rightarrow> string" where
  "ComputeLastUpdateCacheKey rt appId branch runtimeVersion platform =
     Key [''lastUpdate'', Version rt, appId, branch, runtimeVersion, platform]"

section \<open>Read-through caches\<close>

definition cachedSurfableBranches :: "'s Runtime \<Rightarrow> 's BranchRepository \<Rightarrow> string \<Rightarrow> string \<Rightarrow> string
    \<Rightarrow> ('s, SurfableBranch list) op" where
  "cachedSurfableBranches rt branchRepo appId runtimeVersion platform =
     (let cacheKey = surfableBranchesCacheKey rt appId runtimeVersion platform
      in bindE (cached_json rt (jsonSurfableBranches rt) cacheKey) (\<lambda>hit. case hit of
           Some branches \<Rightarrow> ret branches
         | None \<Rightarrow> bindE (GetSurfableBranches branchRepo appId runtimeVersion platform) (\<lambda>branches.
             bindE (put_json rt (jsonSurfableBranches rt) cacheKey branches (Some surfableBranchesCacheTTLSeconds)) (\<lambda>_.
             ret branches))))"

definition carriesPlaintextSecret :: "AppConfig \<Rightarrow> bool" where
  "carriesPlaintextSecret appConfig \<longleftrightarrow> AccessToken appConfig \<noteq> [] \<or> PrivateB64 (Keys appConfig) \<noteq> []"

definition cachedAppConfig :: "'s Runtime \<Rightarrow> 's AppRepository \<Rightarrow> string \<Rightarrow> ('s, AppConfig) op" where
  "cachedAppConfig rt appRepo appId =
     (if \<not> IsDBMode rt then GetAppByID appRepo appId
      else bindE (cached_json rt (jsonAppConfig rt) (appConfigCacheKey rt appId)) (\<lambda>hit. case hit of
           Some appConfig \<Rightarrow> ret appConfig
         | None \<Rightarrow> bindE (GetAppByID appRepo appId) (\<lambda>appConfig.
             if carriesPlaintextSecret appConfig then ret appConfig
             else bindE (put_json rt (jsonAppConfig rt) (appConfigCacheKey rt appId) appConfig (Some appConfigCacheTTLSeconds)) (\<lambda>_.
               ret appConfig))))"

definition cachedUpdateType :: "'s Runtime \<Rightarrow> 's UpdateRepository \<Rightarrow> Update \<Rightarrow> ('s, int) op" where
  "cachedUpdateType rt updateRepo u =
     bindE (cached_get rt (updateTypeCacheKey rt u)) (\<lambda>cached.
       case (if cached = [] then None else ParseInt cached) of
         Some parsed \<Rightarrow> ret parsed
       | None \<Rightarrow> bindE (GetUpdateType updateRepo u) (\<lambda>updateType.
           bindE (cached_put rt (updateTypeCacheKey rt u) (FormatInt updateType) (Some updateTypeCacheTTLSeconds)) (\<lambda>_.
           ret updateType)))"

definition cachedUpdateByUUID :: "'s Runtime \<Rightarrow> 's UpdateRepository \<Rightarrow> string \<Rightarrow> string \<Rightarrow> ('s, Update option) op" where
  "cachedUpdateByUUID rt updateRepo appId updateUUID =
     (let cacheKey = updateByUUIDCacheKey rt appId updateUUID
      in bindE (cached_json rt (jsonCachedUpdate rt) cacheKey) (\<lambda>hit. case hit of
           Some entry \<Rightarrow> ret entry
         | None \<Rightarrow> bindE (GetUpdateByUUID updateRepo appId updateUUID) (\<lambda>u.
             bindE (put_json rt (jsonCachedUpdate rt) cacheKey u
               (Some (if u = None then unknownUpdateByUUIDCacheTTLSeconds else updateByUUIDCacheTTLSeconds))) (\<lambda>_.
             ret u))))"

definition cachedPatchExists :: "'s Runtime \<Rightarrow> 's PatchStore \<Rightarrow> string \<Rightarrow> string \<Rightarrow> string \<Rightarrow> string \<Rightarrow> ('s, bool) op" where
  "cachedPatchExists rt patchStore appId branch target source =
     (let cacheKey = patchExistsCacheKey rt appId branch target source
      in bindE (cached_get rt cacheKey) (\<lambda>cached.
           if cached \<noteq> [] then ret (cached = ''1'')
           else bindE (PatchExists patchStore appId branch target source) (\<lambda>exists.
             bindE (cached_put rt cacheKey (if exists then ''1'' else ''0'')
               (Some (if exists then patchExistsCacheTTLSeconds else missingPatchCacheTTLSeconds))) (\<lambda>_.
             ret exists))))"

definition cachedChannelMapping :: "'s Runtime \<Rightarrow> 's ChannelRepository \<Rightarrow> string \<Rightarrow> string \<Rightarrow> ('s, ChannelResolution option) op" where
  "cachedChannelMapping rt channelRepo appId channelName =
     (if \<not> IsDBMode rt then GetChannelBranchMapping channelRepo appId channelName
      else let cacheKey = channelMappingCacheKey rt appId channelName
        in bindE (cached_json rt (jsonChannelResolution rt) cacheKey) (\<lambda>hit. case hit of
             Some mapping \<Rightarrow> ret (Some mapping)
           | None \<Rightarrow> bindE (GetChannelBranchMapping channelRepo appId channelName) (\<lambda>mapping. case mapping of
               None \<Rightarrow> ret None
             | Some m \<Rightarrow> bindE (put_json rt (jsonChannelResolution rt) cacheKey m (Some channelMappingCacheTTLSeconds)) (\<lambda>_.
                 ret (Some m)))))"

definition boolCacheValue :: "bool \<Rightarrow> string" where
  "boolCacheValue v = (if v then ''1'' else ''0'')"

definition cachedBranchSurfing :: "'s Runtime \<Rightarrow> 's ChannelRepository \<Rightarrow> string \<Rightarrow> string \<Rightarrow> ('s, bool \<times> string) op" where
  "cachedBranchSurfing rt channelRepo appId channelName =
     (if \<not> IsDBMode rt \<or> channelName = [] then ret (False, [])
      else let cacheKey = channelBranchSurfingCacheKey rt appId channelName
        in bindE (cached_get rt cacheKey) (\<lambda>cached.
             case (if cached = [] then None else cut_at CHR '':'' cached) of
               Some (enabled, pattern) \<Rightarrow> ret (enabled = ''1'', pattern)
             | None \<Rightarrow> bindE (attempt (GetBranchSurfing channelRepo appId channelName)) (\<lambda>surfing. case surfing of
                 Inl _ \<Rightarrow> ret (False, [])
               | Inr None \<Rightarrow> bindE (cached_put rt cacheKey (boolCacheValue False @ '':'') (Some channelBranchSurfingCacheTTLSeconds)) (\<lambda>_.
                   ret (False, []))
               | Inr (Some sf) \<Rightarrow> bindE (cached_put rt cacheKey (boolCacheValue (Enabled sf) @ '':'' @ Pattern sf)
                     (Some channelBranchSurfingCacheTTLSeconds)) (\<lambda>_.
                   ret (Enabled sf, Pattern sf)))))"

definition ForgetBranchSurfing :: "'s Runtime \<Rightarrow> string \<Rightarrow> string \<Rightarrow> ('s, unit) op" where
  "ForgetBranchSurfing rt appId channelName = cache_forget rt (channelBranchSurfingCacheKey rt appId channelName)"

definition ForgetSurfableBranches :: "'s Runtime \<Rightarrow> string \<Rightarrow> string \<Rightarrow> string \<Rightarrow> ('s, unit) op" where
  "ForgetSurfableBranches rt appId runtimeVersion platform =
     cache_forget rt (surfableBranchesCacheKey rt appId runtimeVersion platform)"

section \<open>The update a device is given\<close>

definition getLatestUpdateEnvelope :: "'s Runtime \<Rightarrow> 's UpdateRepository \<Rightarrow> string \<Rightarrow> string \<Rightarrow> string \<Rightarrow> string
    \<Rightarrow> ('s, UpdateWithRollout option) op" where
  "getLatestUpdateEnvelope rt updateRepo appId branchName runtimeVersion platform =
     (let cacheKey = ComputeLastUpdateCacheKey rt appId branchName runtimeVersion platform
      in bindE (cached_json rt (jsonUpdateWithRollout rt) cacheKey) (\<lambda>hit. case hit of
           Some envelope \<Rightarrow> ret (Some envelope)
         | None \<Rightarrow> bindE (mapErr (Wrapped (Msg ''failed to retrieve latest update from store: %w'' []))
               (GetLatestUpdateWithRollout updateRepo appId branchName runtimeVersion platform)) (\<lambda>latest. case latest of
             None \<Rightarrow> ret None
           | Some envelope \<Rightarrow> bindE (put_json rt (jsonUpdateWithRollout rt) cacheKey envelope (Some lastUpdateEnvelopeCacheTTLSeconds)) (\<lambda>_.
               ret (Some envelope)))))"

definition GetLatestUpdateCached :: "'s Runtime \<Rightarrow> 's UpdateRepository \<Rightarrow> string \<Rightarrow> string \<Rightarrow> string \<Rightarrow> string
    \<Rightarrow> ('s, Update option) op" where
  "GetLatestUpdateCached rt updateRepo appId branchName runtimeVersion platform =
     bindE (getLatestUpdateEnvelope rt updateRepo appId branchName runtimeVersion platform) (\<lambda>envelope.
       ret (map_option Latest envelope))"

record ClientUpdateResolution =
  CurUpdate :: "Update option"
  BranchHasUpdate :: bool

definition GetLatestUpdateForClient :: "'s Runtime \<Rightarrow> 's UpdateRepository \<Rightarrow> string \<Rightarrow> string \<Rightarrow> string \<Rightarrow> string \<Rightarrow> string
    \<Rightarrow> ('s, ClientUpdateResolution) op" where
  "GetLatestUpdateForClient rt updateRepo appId branchName runtimeVersion platform clientID =
     bindE (getLatestUpdateEnvelope rt updateRepo appId branchName runtimeVersion platform) (\<lambda>latest. case latest of
       None \<Rightarrow> ret \<lparr>CurUpdate = None, BranchHasUpdate = False\<rparr>
     | Some envelope \<Rightarrow> (case RolloutPercentage envelope of
         None \<Rightarrow> ret \<lparr>CurUpdate = Some (Latest envelope), BranchHasUpdate = True\<rparr>
       | Some percentage \<Rightarrow>
           if InBucket (sha256 rt) clientID (UpdateSalt appId branchName runtimeVersion (UpdateId (Latest envelope))) percentage
           then ret \<lparr>CurUpdate = Some (Latest envelope), BranchHasUpdate = True\<rparr>
           else ret \<lparr>CurUpdate = Control envelope, BranchHasUpdate = True\<rparr>))"

section \<open>Manifest resolution\<close>

record ManifestRequestParams =
  MrAppID :: string
  MrChannelName :: string
  MrPlatform :: string
  MrRuntimeVersion :: string
  ProtocolVersion :: int
  MrClientID :: string
  CurrentUpdateID :: string
  EmbeddedUpdateID :: string
  ExpectSignature :: string
  ExpoFatalError :: string
  RecentFailedUpdateIDs :: string
  XpremBranch :: string
  SurfBlockTokens :: string

record BlockedSurf =
  BlockedBranchName :: string
  Token :: string

record UpdateDecision =
  DecUpdate :: "Update option"
  DecBranchName :: string
  DecUpdateType :: int
  DecBlockedSurf :: "BlockedSurf option"

datatype metric =
    TrackUpdateErrorUsers string string string string string string
  | TrackActiveUser string string string string string string

record 's ExpoProtocolService =
  appRepo :: "'s AppRepository"
  channelRepo :: "'s ChannelRepository"
  updateRepo :: "'s UpdateRepository"
  branchRules :: "BranchRule list"
  blobStore :: "'s BlobStore"
  patchStore :: "'s PatchStore"
  track :: "metric \<Rightarrow> 's \<Rightarrow> 's"

definition tracked :: "'s ExpoProtocolService \<Rightarrow> metric \<Rightarrow> ('s, unit) op" where
  "tracked sv m = modify (track sv m)"

text \<open>The repository lookup of \<^verbatim>\<open>collectSurfBlocks\<close>: a failing lookup and an unknown id are skipped alike.\<close>

definition failed_lookup :: "'s ExpoProtocolService \<Rightarrow> string \<Rightarrow> string \<Rightarrow> 's \<Rightarrow> (string \<times> string) option \<times> 's" where
  "failed_lookup sv appId failedID s = (case GetUpdateByUUID (updateRepo sv) appId failedID s of
     (Inr (Some u), s') \<Rightarrow> (Some (Branch u, UpdateId u), s')
   | (_, s') \<Rightarrow> (None, s'))"

text \<open>The loop over the candidates.\<close>

fun serve_candidates :: "'s Runtime \<Rightarrow> 's ExpoProtocolService \<Rightarrow> BranchResolutionRequest \<Rightarrow> surfBlockSet \<Rightarrow> BlockedSurf option
    \<Rightarrow> string list \<Rightarrow> ('s, string \<times> Update option \<times> BlockedSurf option) op" where
  "serve_candidates rt sv req blocks blocked [] = ret (BranchName (ReqMapping req), None, blocked)"
| "serve_candidates rt sv req blocks blocked (candidate # rest) =
     bindE (mapErr (\<lambda>_. ExpoProtocolError 500 (Msg ''Error getting latest update'' []))
       (GetLatestUpdateForClient rt (updateRepo sv) (ReqAppID req) candidate (ReqRuntimeVersion req) (ReqPlatform req) (ReqClientID req)))
     (\<lambda>resolution.
       if \<not> BranchHasUpdate resolution then serve_candidates rt sv req blocks blocked rest
       else case CurUpdate resolution of
         Some u \<Rightarrow>
           if HonoursSurf req \<and> candidate = RequestedBranch req \<and> blocks_contains blocks candidate (UpdateId u)
           then serve_candidates rt sv req blocks
             (Some \<lparr>BlockedBranchName = candidate, Token = surfBlockToken candidate (UpdateId u)\<rparr>) rest
           else ret (candidate, Some u, blocked)
       | None \<Rightarrow> ret (candidate, None, blocked))"

text \<open>The surfing setting is only read for a device that asks for a branch, the blocks only for one whose
  request is honoured and that reports something.\<close>

definition with_surfing :: "'s Runtime \<Rightarrow> 's ExpoProtocolService \<Rightarrow> BranchResolutionRequest \<Rightarrow> ('s, BranchResolutionRequest) op" where
  "with_surfing rt sv req =
     (if RequestedBranch req = [] then ret req
      else bindE (cachedBranchSurfing rt (channelRepo sv) (ReqAppID req) (ReqChannelName req)) (\<lambda>(enabled, pattern).
        ret (req\<lparr>Surfing := \<lparr>Enabled = enabled, Pattern = pattern\<rparr>\<rparr>)))"

definition surf_blocks :: "'s Runtime \<Rightarrow> 's ExpoProtocolService \<Rightarrow> BranchResolutionRequest \<Rightarrow> string \<Rightarrow> string \<Rightarrow> ('s, surfBlockSet) op" where
  "surf_blocks rt sv req surfBlockTokens failedUpdateIDsRaw =
     (if HonoursSurf req \<and> (surfBlockTokens \<noteq> [] \<or> failedUpdateIDsRaw \<noteq> [])
      then (\<lambda>s. case collectSurfBlocks (uuidParse rt) (failed_lookup sv (ReqAppID req)) surfBlockTokens failedUpdateIDsRaw s of
             (blocks, s') \<Rightarrow> (Inr blocks, s'))
      else ret {})"

definition resolveUpdateAcrossBranches :: "'s Runtime \<Rightarrow> 's ExpoProtocolService \<Rightarrow> BranchResolutionRequest \<Rightarrow> string \<Rightarrow> string
    \<Rightarrow> ('s, string \<times> Update option \<times> BlockedSurf option) op" where
  "resolveUpdateAcrossBranches rt sv req0 surfBlockTokens failedUpdateIDsRaw =
     bindE (with_surfing rt sv req0) (\<lambda>req.
     case ResolveBranchCandidates (branchRules sv) req of
       Inl _ \<Rightarrow> throw (ExpoProtocolError 500 (Msg ''Error resolving branch'' []))
     | Inr candidates \<Rightarrow>
         bindE (surf_blocks rt sv req surfBlockTokens failedUpdateIDsRaw) (\<lambda>blocks.
         serve_candidates rt sv req blocks None candidates))"

definition resolution_request :: "string \<Rightarrow> string \<Rightarrow> string \<Rightarrow> string \<Rightarrow> string \<Rightarrow> ChannelResolution \<Rightarrow> string
    \<Rightarrow> BranchResolutionRequest" where
  "resolution_request appID channelName clientID platform runtimeVersion mapping requested =
     \<lparr>ReqAppID = appID, ReqChannelName = channelName, ReqClientID = clientID, ReqPlatform = platform,
      ReqRuntimeVersion = runtimeVersion, ReqMapping = mapping, RequestedBranch = requested,
      Surfing = \<lparr>Enabled = False, Pattern = []\<rparr>\<rparr>"

text \<open>The tracking calls of one manifest request.\<close>

definition track_poll :: "'s ExpoProtocolService \<Rightarrow> ManifestRequestParams \<Rightarrow> string \<Rightarrow> ('s, unit) op" where
  "track_poll sv params servedBranch =
     bindE (if ExpoFatalError params = [] then ret ()
            else if CurrentUpdateID params \<noteq> [] then tracked sv (TrackUpdateErrorUsers (MrAppID params) (MrClientID params)
              (MrPlatform params) (MrRuntimeVersion params) servedBranch (CurrentUpdateID params))
            else if RecentFailedUpdateIDs params \<noteq> [] then tracked sv (TrackUpdateErrorUsers (MrAppID params) (MrClientID params)
              (MrPlatform params) (MrRuntimeVersion params) servedBranch (RecentFailedUpdateIDs params))
            else ret ()) (\<lambda>_.
     tracked sv (TrackActiveUser (MrAppID params) (MrClientID params) (MrPlatform params) (MrRuntimeVersion params)
       servedBranch (CurrentUpdateID params)))"

definition finish_decision :: "'s Runtime \<Rightarrow> 's ExpoProtocolService \<Rightarrow> ManifestRequestParams \<Rightarrow> string \<Rightarrow> Update option
    \<Rightarrow> BlockedSurf option \<Rightarrow> ('s, UpdateDecision) op" where
  "finish_decision rt sv params servedBranch lastUpdate blockedSurf =
     bindE (track_poll sv params servedBranch) (\<lambda>_.
     case lastUpdate of
       None \<Rightarrow> ret \<lparr>DecUpdate = None, DecBranchName = servedBranch, DecUpdateType = 0, DecBlockedSurf = blockedSurf\<rparr>
     | Some u \<Rightarrow> bindE (mapErr (\<lambda>_. ExpoProtocolError 500 (Msg ''Error determining update type'' []))
           (cachedUpdateType rt (updateRepo sv) u)) (\<lambda>updateType.
         ret \<lparr>DecUpdate = Some u, DecBranchName = servedBranch, DecUpdateType = updateType, DecBlockedSurf = blockedSurf\<rparr>))"

definition ResolveUpdateForDevice :: "'s Runtime \<Rightarrow> 's ExpoProtocolService \<Rightarrow> ManifestRequestParams \<Rightarrow> ('s, UpdateDecision) op" where
  "ResolveUpdateForDevice rt sv params =
     bindE (mapErr (\<lambda>_. ExpoProtocolError 404 (Msg ''Unknown app id'' [])) (cachedAppConfig rt (appRepo sv) (MrAppID params))) (\<lambda>_.
     bindE (mapErr (\<lambda>e. ExpoProtocolError 500 (Msg ''Error fetching channel mapping: %v'' []))
       (cachedChannelMapping rt (channelRepo sv) (MrAppID params) (MrChannelName params))) (\<lambda>mapping.
     case mapping of
       None \<Rightarrow> throw (ExpoProtocolError 404 (Msg ''No branch mapping found'' []))
     | Some branchMap \<Rightarrow>
         bindE (resolveUpdateAcrossBranches rt sv
           (resolution_request (MrAppID params) (MrChannelName params) (MrClientID params) (MrPlatform params)
             (MrRuntimeVersion params) branchMap (XpremBranch params))
           (SurfBlockTokens params) (RecentFailedUpdateIDs params)) (\<lambda>(servedBranch, lastUpdate, blockedSurf).
         finish_decision rt sv params servedBranch lastUpdate blockedSurf)))"

section \<open>Asset resolution\<close>

record AssetResolutionParams =
  ArAppID :: string
  ArChannelName :: string
  AssetName :: string
  ArRuntimeVersion :: string
  ArPlatform :: string
  ArClientID :: string
  ArBranch :: string
  ArUpdateID :: string
  RequestedUpdateID :: string
  Hash :: string
  Extension :: string
  ExpoCurrentUpdateId :: string
  AIM :: string
  PreventCDNRedirection :: bool

definition isAssetBranchAllowed :: "'s Runtime \<Rightarrow> 's ExpoProtocolService \<Rightarrow> string \<Rightarrow> string \<Rightarrow> string \<Rightarrow> ChannelResolution
    \<Rightarrow> ('s, bool) op" where
  "isAssetBranchAllowed rt sv appId channelName branchName branchMap =
     (if branchName = BranchName branchMap then ret True
      else if (case Rollout branchMap of None \<Rightarrow> False | Some r \<Rightarrow> branchName = RolloutBranch r) then ret True
      else bindE (cachedBranchSurfing rt (channelRepo sv) appId channelName) (\<lambda>(enabled, pattern).
        ret (enabled \<and> MatchPattern pattern branchName)))"

definition resolveAssetUpdate :: "'s Runtime \<Rightarrow> 's ExpoProtocolService \<Rightarrow> AssetResolutionParams \<Rightarrow> ChannelResolution
    \<Rightarrow> ('s, string \<times> Update option) op" where
  "resolveAssetUpdate rt sv params branchMap =
     (let allowed = (\<lambda>branch. isAssetBranchAllowed rt sv (ArAppID params) (ArChannelName params) branch branchMap);
          tier3 = bindE (resolveUpdateAcrossBranches rt sv
            (resolution_request (ArAppID params) (ArChannelName params) (ArClientID params) (ArPlatform params)
              (ArRuntimeVersion params) branchMap (ArBranch params)) [] []) (\<lambda>(branchName, lastUpdate, _). ret (branchName, lastUpdate));
          tier2 = (if RequestedUpdateID params = [] then tier3
            else bindE (attempt (GetUpdateByUUID (updateRepo sv) (ArAppID params) (RequestedUpdateID params))) (\<lambda>r. case r of
              Inr (Some requested) \<Rightarrow> bindE (allowed (Branch requested)) (\<lambda>ok.
                if ok then ret (Branch requested, Some requested) else tier3)
            | _ \<Rightarrow> tier3));
          tier1 = (if ArUpdateID params = [] \<or> ArBranch params = [] then tier2
            else bindE (allowed (ArBranch params)) (\<lambda>ok.
              if \<not> ok then tier2
              else bindE (attempt (GetCheckedUpdate (updateRepo sv) (ArAppID params) (ArBranch params) (ArRuntimeVersion params) (ArUpdateID params)))
                (\<lambda>r. case r of Inr (Some pinned) \<Rightarrow> ret (ArBranch params, Some pinned) | _ \<Rightarrow> tier2)))
      in if IsDBMode rt then tier1 else tier3)"

text \<open>\<^verbatim>\<open>strings.EqualFold\<close> against an ASCII word: ASCII letters fold, and so do the long s and the Kelvin sign.\<close>

definition fold_rune :: "nat \<Rightarrow> nat" where
  "fold_rune r = (if 65 \<le> r \<and> r \<le> 90 then r + 32 else if r = 0x17F then 115 else if r = 0x212A then 107 else r)"

definition acceptsBSDiff :: "string \<Rightarrow> bool" where
  "acceptsBSDiff aim \<longleftrightarrow> list_ex (\<lambda>item.
     let token = (case cut_at CHR '';'' item of Some (before, _) \<Rightarrow> before | None \<Rightarrow> item)
     in map fold_rune (runes (TrimSpace token)) = map of_char ''bsdiff'') (split_on CHR '','' aim)"

record ExpoAssetResult =
  RedirectToURL :: string
  Body :: string
  ContentType :: string
  Headers :: "(string \<times> string) list"
  StatusCode :: nat
  Uncompressed :: bool

definition AssetContentType :: "'s Runtime \<Rightarrow> string \<Rightarrow> bool \<Rightarrow> string" where
  "AssetContentType rt ext isLaunchAsset =
     (if isLaunchAsset then ''application/javascript''
      else let resolved = TypeByExtension rt (''.'' @ TrimPrefix ext ''.'')
        in if resolved \<noteq> [] then resolved else ''application/octet-stream'')"

definition ExpoProtocolHeaders :: "(string \<times> string) list" where
  "ExpoProtocolHeaders = [(''expo-protocol-version'', ''1''), (''expo-sfv-version'', ''0''),
     (''Cache-Control'', ''public, max-age=31536000'')]"

definition redirect_result :: "string \<Rightarrow> ExpoAssetResult" where
  "redirect_result url = \<lparr>RedirectToURL = url, Body = [], ContentType = [], Headers = [], StatusCode = 0, Uncompressed = False\<rparr>"

definition resolveBlobAsset :: "'s Runtime \<Rightarrow> 's ExpoProtocolService \<Rightarrow> AssetResolutionParams \<Rightarrow> ('s, ExpoAssetResult) op" where
  "resolveBlobAsset rt sv params =
     (let internal = ExpoAssetError 500 (Msg ''Internal Server Error'' [])
      in case (if PreventCDNRedirection params then None else GetCDN rt) of
           Some cdn \<Rightarrow> (case ComputeRedirectionURLForBlob cdn (ArAppID params) (Hash params) of
               Inl _ \<Rightarrow> throw internal
             | Inr url \<Rightarrow> ret (redirect_result url))
         | None \<Rightarrow> bindE (mapErr (\<lambda>_. internal) (BlobGet (blobStore sv) (ArAppID params) (Hash params))) (\<lambda>blob. case blob of
               None \<Rightarrow> throw (ExpoAssetError 404 (Msg ''Asset not found'' []))
             | Some body \<Rightarrow> ret \<lparr>RedirectToURL = [], Body = body,
                 ContentType = AssetContentType rt (Extension params) (Extension params = ''bundle''),
                 Headers = ExpoProtocolHeaders, StatusCode = 200, Uncompressed = False\<rparr>))"

definition bsdiff_headers :: "string \<Rightarrow> (string \<times> string) list" where
  "bsdiff_headers source = AList.update ''Cache-Control'' ''private, no-store'' ExpoProtocolHeaders
     @ [(''im'', ''bsdiff''), (''expo-base-update-id'', source), (''Vary'', ''A-IM, Expo-Current-Update-ID'')]"

text \<open>The patch itself, served directly; any failure falls back to the full bundle.\<close>

definition patch_body :: "'s ExpoProtocolService \<Rightarrow> AssetResolutionParams \<Rightarrow> string \<Rightarrow> string \<Rightarrow> string \<Rightarrow> ('s, ExpoAssetResult option) op" where
  "patch_body sv params branch target source =
     bindE (attempt (PatchGet (patchStore sv) (ArAppID params) branch target source)) (\<lambda>r. case r of
       Inr (Some body) \<Rightarrow> ret (Some \<lparr>RedirectToURL = [], Body = body, ContentType = ''application/octet-stream'',
         Headers = bsdiff_headers source, StatusCode = 200, Uncompressed = True\<rparr>)
     | _ \<Rightarrow> ret None)"

definition resolveBSDiffAsset :: "'s Runtime \<Rightarrow> 's ExpoProtocolService \<Rightarrow> AssetResolutionParams \<Rightarrow> ('s, ExpoAssetResult option) op" where
  "resolveBSDiffAsset rt sv params =
     (if \<not> IsBundleDiffingEnabled rt \<or> \<not> acceptsBSDiff (AIM params) then ret None
      else case uuidParse rt (ExpoCurrentUpdateId params) of None \<Rightarrow> ret None | Some source \<Rightarrow>
     (case uuidParse rt (RequestedUpdateID params) of None \<Rightarrow> ret None | Some target \<Rightarrow>
      if target = source then ret None
      else bindE (attempt (cachedUpdateByUUID rt (updateRepo sv) (ArAppID params) source)) (\<lambda>r1. case r1 of
        Inl _ \<Rightarrow> ret None
      | Inr current \<Rightarrow> bindE (attempt (cachedUpdateByUUID rt (updateRepo sv) (ArAppID params) target)) (\<lambda>r2. case r2 of
        Inl _ \<Rightarrow> ret None
      | Inr requested \<Rightarrow> (case (current, requested) of
        (Some c, Some q) \<Rightarrow>
          if Branch c \<noteq> Branch q \<or> RuntimeVersion c \<noteq> RuntimeVersion q then ret None
          else bindE (attempt (cachedChannelMapping rt (channelRepo sv) (ArAppID params) (ArChannelName params))) (\<lambda>r3. case r3 of
            Inr (Some branchMap) \<Rightarrow>
              bindE (isAssetBranchAllowed rt sv (ArAppID params) (ArChannelName params) (Branch q) branchMap) (\<lambda>ok.
              if \<not> ok then ret None
              else bindE (attempt (cachedPatchExists rt (patchStore sv) (ArAppID params) (Branch q) target source)) (\<lambda>r4.
              if r4 \<noteq> Inr True then ret None
              else case (if IsBundleDiffingCDNRedirect rt \<and> \<not> PreventCDNRedirection params then GetCDN rt else None) of
                Some cdn \<Rightarrow> (case ComputeRedirectionURLForPatch cdn (ArAppID params) (Branch q) target source of
                    Inr url \<Rightarrow> ret (Some (redirect_result url))
                  | Inl _ \<Rightarrow> patch_body sv params (Branch q) target source)
              | None \<Rightarrow> patch_body sv params (Branch q) target source))
          | _ \<Rightarrow> ret None)
      | _ \<Rightarrow> ret None)))))"

end
