(* ===== verification/Transparency.thy ===== *)
theory Transparency
  imports Delivery
begin

text \<open>
  The caches of the delivery path are transparent.  The locale \<^verbatim>\<open>cache_api\<close> is the contract a cache gives to the
  read-through functions: what is live under each key, and that a cache operation touches nothing else.  A
  cached value \<^verbatim>\<open>agrees\<close> with an answer when it would decode to that answer; under a cache that agrees with the
  repository every read-through function returns what the repository would, and leaves the cache agreeing.
\<close>

definition agrees :: "('s \<Rightarrow> string \<Rightarrow> string option) \<Rightarrow> (string \<Rightarrow> 'a option) \<Rightarrow> string \<Rightarrow> 'a option \<Rightarrow> 's \<Rightarrow> bool" where
  "agrees view decode key answer s \<longleftrightarrow> (case view s key of None \<Rightarrow> True
     | Some v \<Rightarrow> v = [] \<or> decode v = None \<or> decode v = answer)"

text \<open>An operation that answers \<^verbatim>\<open>a\<close> and changes nothing, in every state whose rest is \<^verbatim>\<open>r\<close>.\<close>

definition reads :: "('s \<Rightarrow> 'r) \<Rightarrow> 'r \<Rightarrow> ('s, 'a) op \<Rightarrow> 'a \<Rightarrow> bool" where
  "reads rest r m a \<longleftrightarrow> (\<forall>s. rest s = r \<longrightarrow> m s = (Inr a, s))"

text \<open>A codec that gives a value back.\<close>

definition carries :: "'a codec \<Rightarrow> 'a \<Rightarrow> bool" where
  "carries c x \<longleftrightarrow> (case Marshal c x of None \<Rightarrow> True | Some p \<Rightarrow> Unmarshal c p = Some x)"

definition surfing_decode :: "string \<Rightarrow> (bool \<times> string) option" where
  "surfing_decode v = map_option (\<lambda>(enabled, pattern). (enabled = ''1'', pattern)) (cut_at CHR '':'' v)"

lemma surfing_decode_encode: "surfing_decode (boolCacheValue b @ '':'' @ p) = Some (b, p)"
  by (cases b) (simp_all add: surfing_decode_def boolCacheValue_def cut_at_first
      cut_at_first [where a = "''1''", simplified] cut_at_first [where a = "''0''", simplified])

text \<open>What one read-through may do to the state: only its own key changes, and it keeps agreeing.\<close>

definition refreshed :: "('s \<Rightarrow> string \<Rightarrow> string option) \<Rightarrow> ('s \<Rightarrow> 'r) \<Rightarrow> (string \<Rightarrow> 'a option) \<Rightarrow> string \<Rightarrow> 'a option
    \<Rightarrow> 's \<Rightarrow> 's \<Rightarrow> bool" where
  "refreshed view rest decode key answer s s' \<longleftrightarrow> rest s' = rest s \<and> (\<forall>k. k \<noteq> key \<longrightarrow> view s' k = view s k)
     \<and> agrees view decode key answer s'"

lemma refreshed_other:
  "refreshed view rest decode key answer s s' \<Longrightarrow> k \<noteq> key \<Longrightarrow> agrees view decode' k answer' s \<Longrightarrow> agrees view decode' k answer' s'"
  by (simp add: refreshed_def agrees_def)

locale cache_api =
  fixes rt :: "'s Runtime" and view :: "'s \<Rightarrow> string \<Rightarrow> string option" and rest :: "'s \<Rightarrow> 'r"
  assumes get_value: "fst (cacheGet (GetCache rt) k s) = (case view s k of None \<Rightarrow> [] | Some v \<Rightarrow> v)"
    and get_view: "view (snd (cacheGet (GetCache rt) k s)) k' = view s k'"
    and get_rest: "rest (snd (cacheGet (GetCache rt) k s)) = rest s"
    and put_view: "0 \<le> ttl \<Longrightarrow> view (cacheSet (GetCache rt) k v (Some ttl) s) k' = (if k' = k then Some v else view s k')"
    and put_rest: "rest (cacheSet (GetCache rt) k v w s) = rest s"
    and del_view: "view (cacheDelete (GetCache rt) k s) k' = (if k' = k then None else view s k')"
    and del_rest: "rest (cacheDelete (GetCache rt) k s) = rest s"
begin

lemma after_get: "agrees view decode key answer s \<Longrightarrow> refreshed view rest decode key answer s (snd (cacheGet (GetCache rt) key s))"
  by (simp add: refreshed_def agrees_def get_view get_rest)

lemma after_put:
  "0 \<le> ttl \<Longrightarrow> decode p = answer \<Longrightarrow>
     refreshed view rest decode key answer s (cacheSet (GetCache rt) key p (Some ttl) (snd (cacheGet (GetCache rt) key s)))"
  by (simp add: refreshed_def agrees_def get_view get_rest put_view put_rest)

lemma hit_json: "fst (cacheGet (GetCache rt) key s) \<noteq> [] \<Longrightarrow> Unmarshal c (fst (cacheGet (GetCache rt) key s)) = Some x \<Longrightarrow>
    agrees view (Unmarshal c) key answer s \<Longrightarrow> answer = Some x"
  by (auto simp: agrees_def get_value split: option.splits)

lemma read_rest: "reads rest (rest s) m a \<Longrightarrow> m (snd (cacheGet (GetCache rt) key s)) = (Inr a, snd (cacheGet (GetCache rt) key s))"
  by (simp add: reads_def get_rest)

text \<open>The read-through of a value that always exists.\<close>

lemma json_read_through:
  assumes "agrees view (Unmarshal c) key (Some a) s" and "reads rest (rest s) m a" and "carries c a" and "0 \<le> ttl a"
  shows "\<exists>s'. bindE (cached_json rt c key) (\<lambda>hit. case hit of Some x \<Rightarrow> ret x
      | None \<Rightarrow> bindE m (\<lambda>x. bindE (put_json rt c key x (Some (ttl x))) (\<lambda>_. ret x))) s = (Inr a, s')
    \<and> refreshed view rest (Unmarshal c) key (Some a) s s'"
  using assms(1,3,4) read_rest [OF assms(2)] hit_json [OF _ _ assms(1)] after_get [OF assms(1)] after_put [OF assms(4)]
  by (auto simp: bindE_run cached_json_run put_json_run carries_def split: option.splits)

text \<open>The read-through of a value that may not exist, which is then not cached.\<close>

lemma json_read_through_option:
  assumes "agrees view (Unmarshal c) key a s" and "reads rest (rest s) m a"
    and "\<And>x. a = Some x \<Longrightarrow> carries c x" and "0 \<le> ttl"
  shows "\<exists>s'. bindE (cached_json rt c key) (\<lambda>hit. case hit of Some x \<Rightarrow> ret (Some x)
      | None \<Rightarrow> bindE m (\<lambda>y. case y of None \<Rightarrow> ret None
          | Some x \<Rightarrow> bindE (put_json rt c key x (Some ttl)) (\<lambda>_. ret (Some x)))) s = (Inr a, s')
    \<and> refreshed view rest (Unmarshal c) key a s s'"
  using read_rest [OF assms(2)] assms(3,4) hit_json [OF _ _ assms(1)] after_get [OF assms(1)] after_put [OF assms(4)]
  by (cases a) (auto simp: bindE_run cached_json_run put_json_run carries_def split: option.splits)

lemma cachedChannelMapping_transparent:
  assumes "IsDBMode rt" and "agrees view (Unmarshal (jsonChannelResolution rt)) (channelMappingCacheKey rt app ch) a s"
    and "reads rest (rest s) (GetChannelBranchMapping repo app ch) a" and "\<And>m. a = Some m \<Longrightarrow> carries (jsonChannelResolution rt) m"
  shows "\<exists>s'. cachedChannelMapping rt repo app ch s = (Inr a, s')
    \<and> refreshed view rest (Unmarshal (jsonChannelResolution rt)) (channelMappingCacheKey rt app ch) a s s'"
  using json_read_through_option [OF assms(2-4), of channelMappingCacheTTLSeconds] assms(1)
  by (simp add: cachedChannelMapping_def Let_def channelMappingCacheTTLSeconds_def)

lemma getLatestUpdateEnvelope_transparent:
  assumes "agrees view (Unmarshal (jsonUpdateWithRollout rt)) (ComputeLastUpdateCacheKey rt app b v p) a s"
    and "reads rest (rest s) (GetLatestUpdateWithRollout repo app b v p) a" and "\<And>x. a = Some x \<Longrightarrow> carries (jsonUpdateWithRollout rt) x"
  shows "\<exists>s'. getLatestUpdateEnvelope rt repo app b v p s = (Inr a, s')
    \<and> refreshed view rest (Unmarshal (jsonUpdateWithRollout rt)) (ComputeLastUpdateCacheKey rt app b v p) a s s'"
proof -
  have "reads rest (rest s) (mapErr (Wrapped (Msg ''failed to retrieve latest update from store: %w'' []))
      (GetLatestUpdateWithRollout repo app b v p)) a"
    using assms(2) by (simp add: reads_def mapErr_run)
  from json_read_through_option [OF assms(1) this assms(3), of lastUpdateEnvelopeCacheTTLSeconds] show ?thesis
    by (simp add: getLatestUpdateEnvelope_def Let_def lastUpdateEnvelopeCacheTTLSeconds_def)
qed

lemma cachedUpdateByUUID_transparent:
  assumes "agrees view (Unmarshal (jsonCachedUpdate rt)) (updateByUUIDCacheKey rt app i) (Some a) s"
    and "reads rest (rest s) (GetUpdateByUUID repo app i) a" and "carries (jsonCachedUpdate rt) a"
  shows "\<exists>s'. cachedUpdateByUUID rt repo app i s = (Inr a, s')
    \<and> refreshed view rest (Unmarshal (jsonCachedUpdate rt)) (updateByUUIDCacheKey rt app i) (Some a) s s'"
  using json_read_through [OF assms, of "\<lambda>u. if u = None then unknownUpdateByUUIDCacheTTLSeconds else updateByUUIDCacheTTLSeconds"]
  by (simp add: cachedUpdateByUUID_def Let_def unknownUpdateByUUIDCacheTTLSeconds_def updateByUUIDCacheTTLSeconds_def ImmutableCacheTTLSeconds_def)

lemma cachedSurfableBranches_transparent:
  assumes "agrees view (Unmarshal (jsonSurfableBranches rt)) (surfableBranchesCacheKey rt app v p) (Some a) s"
    and "reads rest (rest s) (GetSurfableBranches repo app v p) a" and "carries (jsonSurfableBranches rt) a"
  shows "\<exists>s'. cachedSurfableBranches rt repo app v p s = (Inr a, s')
    \<and> refreshed view rest (Unmarshal (jsonSurfableBranches rt)) (surfableBranchesCacheKey rt app v p) (Some a) s s'"
  using json_read_through [OF assms, of "\<lambda>_. surfableBranchesCacheTTLSeconds"]
  by (simp add: cachedSurfableBranches_def Let_def surfableBranchesCacheTTLSeconds_def)

lemma cachedUpdateType_transparent:
  assumes "agrees view ParseInt (updateTypeCacheKey rt u) (Some a) s"
    and "reads rest (rest s) (GetUpdateType repo u) a" and "int64_range a"
  shows "\<exists>s'. cachedUpdateType rt repo u s = (Inr a, s')
    \<and> refreshed view rest ParseInt (updateTypeCacheKey rt u) (Some a) s s'"
proof -
  have "x = a" if "fst (cacheGet (GetCache rt) (updateTypeCacheKey rt u) s) \<noteq> []"
      "ParseInt (fst (cacheGet (GetCache rt) (updateTypeCacheKey rt u) s)) = Some x" for x
    using assms(1) that by (auto simp: agrees_def get_value split: option.splits)
  then show ?thesis
    using after_get [OF assms(1)] after_put [of updateTypeCacheTTLSeconds ParseInt "FormatInt a"] read_rest [OF assms(2)] assms(3)
    by (auto simp: cachedUpdateType_def bindE_run cached_get_run cached_put_run updateTypeCacheTTLSeconds_def
        ImmutableCacheTTLSeconds_def ParseInt_FormatInt split: option.splits)
qed

text \<open>The surfing setting: no answer counts as off, and a channel without a name is never asked about.\<close>

lemma cachedBranchSurfing_transparent:
  assumes "agrees view surfing_decode (channelBranchSurfingCacheKey rt app ch)
      (Some (case a of None \<Rightarrow> (False, []) | Some sf \<Rightarrow> (Enabled sf, Pattern sf))) s"
    and "reads rest (rest s) (GetBranchSurfing repo app ch) a"
  shows "\<exists>s'. cachedBranchSurfing rt repo app ch s
        = (Inr (if \<not> IsDBMode rt \<or> ch = [] then (False, []) else case a of None \<Rightarrow> (False, []) | Some sf \<Rightarrow> (Enabled sf, Pattern sf)), s')
    \<and> refreshed view rest surfing_decode (channelBranchSurfingCacheKey rt app ch)
        (Some (case a of None \<Rightarrow> (False, []) | Some sf \<Rightarrow> (Enabled sf, Pattern sf))) s s'"
proof (cases "\<not> IsDBMode rt \<or> ch = []")
  case True
  then show ?thesis
    using assms(1) by (simp add: cachedBranchSurfing_def refreshed_def)
next
  case False
  let ?key = "channelBranchSurfingCacheKey rt app ch"
  let ?ans = "case a of None \<Rightarrow> (False, []) | Some sf \<Rightarrow> (Enabled sf, Pattern sf)"
  have hit: "(e = ''1'', p) = ?ans" if "fst (cacheGet (GetCache rt) ?key s) \<noteq> []"
      "cut_at CHR '':'' (fst (cacheGet (GetCache rt) ?key s)) = Some (e, p)" for e p
    using assms(1) that by (auto simp: agrees_def get_value surfing_decode_def split: option.splits)
  have put: "refreshed view rest surfing_decode ?key (Some (b, p)) s (cacheSet (GetCache rt) ?key (boolCacheValue b @ '':'' @ p)
      (Some channelBranchSurfingCacheTTLSeconds) (snd (cacheGet (GetCache rt) ?key s)))" for b p
    by (rule after_put) (simp_all add: channelBranchSurfingCacheTTLSeconds_def surfing_decode_encode [simplified])
  show ?thesis
    using False hit put [of False "[]"] put after_get [OF assms(1)] read_rest [OF assms(2)]
    by (cases a) (auto simp: cachedBranchSurfing_def bindE_run cached_get_run cached_put_run attempt_run Let_def split: option.splits)
qed

end

end
