(* ===== verification/Resolution.thy ===== *)
theory Resolution
  imports Transparency
begin

text \<open>
  What a device is served, as a function.  The specification below computes the answer of the manifest and
  asset resolution from the envelopes of the branches, the surfing setting and the lookups by UUID.  The locale
  \<^verbatim>\<open>delivery_reads\<close> is what the resolution needs of the caches and repositories behind it while nobody publishes:
  every read answers, with a fixed value.  Under it the stateful code computes the specification.
\<close>

section \<open>The specification\<close>

definition device_update :: "(string \<Rightarrow> string) \<Rightarrow> string \<Rightarrow> string \<Rightarrow> string \<Rightarrow> string \<Rightarrow> UpdateWithRollout \<Rightarrow> Update option" where
  "device_update sha app branch runtime client e = (case RolloutPercentage e of
     None \<Rightarrow> Some (Latest e)
   | Some p \<Rightarrow> if InBucket sha client (UpdateSalt app branch runtime (UpdateId (Latest e))) p then Some (Latest e) else Control e)"

definition refuses :: "BranchResolutionRequest \<Rightarrow> surfBlockSet \<Rightarrow> string \<Rightarrow> Update \<Rightarrow> bool" where
  "refuses req blocks branch u \<longleftrightarrow> HonoursSurf req \<and> branch = RequestedBranch req \<and> blocks_contains blocks branch (UpdateId u)"

fun serve_spec :: "(string \<Rightarrow> string) \<Rightarrow> (string \<Rightarrow> UpdateWithRollout option) \<Rightarrow> BranchResolutionRequest \<Rightarrow> surfBlockSet
    \<Rightarrow> BlockedSurf option \<Rightarrow> string list \<Rightarrow> string \<times> Update option \<times> BlockedSurf option" where
  "serve_spec sha envelope req blocks blocked [] = (BranchName (ReqMapping req), None, blocked)"
| "serve_spec sha envelope req blocks blocked (b # bs) = (case envelope b of
     None \<Rightarrow> serve_spec sha envelope req blocks blocked bs
   | Some e \<Rightarrow> (case device_update sha (ReqAppID req) b (ReqRuntimeVersion req) (ReqClientID req) e of
       None \<Rightarrow> (b, None, blocked)
     | Some u \<Rightarrow> if refuses req blocks b u
         then serve_spec sha envelope req blocks (Some \<lparr>BlockedBranchName = b, Token = surfBlockToken b (UpdateId u)\<rparr>) bs
         else (b, Some u, blocked)))"

definition blocks_spec :: "(string \<Rightarrow> string option) \<Rightarrow> (string \<Rightarrow> Update option) \<Rightarrow> string \<Rightarrow> string \<Rightarrow> surfBlockSet" where
  "blocks_spec uuid lookup tokens failed = set (parseSurfBlockTokens tokens) \<union>
     set (List.map_filter (\<lambda>i. map_option (\<lambda>u. surfBlockToken (Branch u) (UpdateId u)) (lookup i)) (ParseFailedUpdateIDs uuid failed))"

definition surfing_spec :: "bool \<times> string \<Rightarrow> BranchResolutionRequest \<Rightarrow> BranchResolutionRequest" where
  "surfing_spec surfing req = (if RequestedBranch req = [] then req
     else req\<lparr>Surfing := \<lparr>Enabled = fst surfing, Pattern = snd surfing\<rparr>\<rparr>)"

definition blocks_for :: "(string \<Rightarrow> string option) \<Rightarrow> (string \<Rightarrow> Update option) \<Rightarrow> BranchResolutionRequest \<Rightarrow> string \<Rightarrow> string \<Rightarrow> surfBlockSet" where
  "blocks_for uuid lookup req tokens failed =
     (if HonoursSurf req \<and> (tokens \<noteq> [] \<or> failed \<noteq> []) then blocks_spec uuid lookup tokens failed else {})"

definition resolve_spec :: "(string \<Rightarrow> string) \<Rightarrow> (string \<Rightarrow> string option) \<Rightarrow> (string \<Rightarrow> UpdateWithRollout option)
    \<Rightarrow> (string \<Rightarrow> Update option) \<Rightarrow> bool \<times> string \<Rightarrow> BranchResolutionRequest \<Rightarrow> string \<Rightarrow> string
    \<Rightarrow> string \<times> Update option \<times> BlockedSurf option" where
  "resolve_spec sha uuid envelope lookup surfing req0 tokens failed =
     (let req = surfing_spec surfing req0
      in case ResolveBranchCandidates (DefaultBranchRules sha) req of
           Inl _ \<Rightarrow> (BranchName (ReqMapping req), None, None)
         | Inr candidates \<Rightarrow> serve_spec sha envelope req (blocks_for uuid lookup req tokens failed) None candidates)"

lemma surfing_spec_fields [simp]:
  "ReqAppID (surfing_spec sf req) = ReqAppID req" "ReqRuntimeVersion (surfing_spec sf req) = ReqRuntimeVersion req"
  "ReqPlatform (surfing_spec sf req) = ReqPlatform req" "ReqClientID (surfing_spec sf req) = ReqClientID req"
  "ReqMapping (surfing_spec sf req) = ReqMapping req" "RequestedBranch (surfing_spec sf req) = RequestedBranch req"
  by (simp_all add: surfing_spec_def)

text \<open>The three tiers of the asset resolution.\<close>

definition asset_fallback :: "(string \<Rightarrow> string) \<Rightarrow> (string \<Rightarrow> string option) \<Rightarrow> (string \<Rightarrow> UpdateWithRollout option)
    \<Rightarrow> (string \<Rightarrow> Update option) \<Rightarrow> bool \<times> string \<Rightarrow> AssetResolutionParams \<Rightarrow> ChannelResolution \<Rightarrow> string \<times> Update option" where
  "asset_fallback sha uuid envelope lookup surfing params m =
     (case resolve_spec sha uuid envelope lookup surfing
        (resolution_request (ArAppID params) (ArChannelName params) (ArClientID params) (ArPlatform params)
          (ArRuntimeVersion params) m (ArBranch params)) [] [] of (b, u, _) \<Rightarrow> (b, u))"

definition asset_spec :: "(string \<Rightarrow> string) \<Rightarrow> (string \<Rightarrow> string option) \<Rightarrow> bool \<Rightarrow> (string \<Rightarrow> UpdateWithRollout option)
    \<Rightarrow> (string \<Rightarrow> Update option) \<Rightarrow> (string \<Rightarrow> string \<Rightarrow> (err, Update option) result) \<Rightarrow> bool \<times> string
    \<Rightarrow> AssetResolutionParams \<Rightarrow> ChannelResolution \<Rightarrow> string \<times> Update option" where
  "asset_spec sha uuid dbMode envelope lookup checked surfing params m =
     (let allowed = channel_serves m \<lparr>Enabled = fst surfing, Pattern = snd surfing\<rparr>;
          pinned = (if dbMode \<and> ArUpdateID params \<noteq> [] \<and> ArBranch params \<noteq> [] \<and> allowed (ArBranch params)
            then case checked (ArBranch params) (ArUpdateID params) of Inr u \<Rightarrow> u | Inl _ \<Rightarrow> None else None);
          requested = (if dbMode \<and> RequestedUpdateID params \<noteq> []
            then case lookup (RequestedUpdateID params) of Some u \<Rightarrow> if allowed (Branch u) then Some u else None | None \<Rightarrow> None else None)
      in case pinned of Some u \<Rightarrow> (ArBranch params, Some u)
       | None \<Rightarrow> (case requested of Some u \<Rightarrow> (Branch u, Some u)
         | None \<Rightarrow> asset_fallback sha uuid envelope lookup surfing params m))"

lemma asset_spec_db:
  "asset_spec sha uuid True envelope lookup checked surfing params m =
     (if ArUpdateID params \<noteq> [] \<and> ArBranch params \<noteq> [] \<and> channel_serves m \<lparr>Enabled = fst surfing, Pattern = snd surfing\<rparr> (ArBranch params)
      then case checked (ArBranch params) (ArUpdateID params) of Inr (Some u) \<Rightarrow> (ArBranch params, Some u)
        | _ \<Rightarrow> (if RequestedUpdateID params = [] then asset_fallback sha uuid envelope lookup surfing params m
          else case lookup (RequestedUpdateID params) of None \<Rightarrow> asset_fallback sha uuid envelope lookup surfing params m
           | Some u \<Rightarrow> if channel_serves m \<lparr>Enabled = fst surfing, Pattern = snd surfing\<rparr> (Branch u) then (Branch u, Some u)
               else asset_fallback sha uuid envelope lookup surfing params m)
      else (if RequestedUpdateID params = [] then asset_fallback sha uuid envelope lookup surfing params m
          else case lookup (RequestedUpdateID params) of None \<Rightarrow> asset_fallback sha uuid envelope lookup surfing params m
           | Some u \<Rightarrow> if channel_serves m \<lparr>Enabled = fst surfing, Pattern = snd surfing\<rparr> (Branch u) then (Branch u, Some u)
               else asset_fallback sha uuid envelope lookup surfing params m))"
  by (simp add: asset_spec_def split: option.split sum.split)

section \<open>What the specification gives\<close>

lemma serve_spec_served:
  assumes "serve_spec sha envelope req blocks blocked bs = (b, u, k)"
  shows "(b \<in> set bs \<or> b = BranchName (ReqMapping req))
    \<and> (\<forall>x. u = Some x \<longrightarrow> (\<exists>e. envelope b = Some e \<and> b \<in> set bs
          \<and> device_update sha (ReqAppID req) b (ReqRuntimeVersion req) (ReqClientID req) e = Some x \<and> \<not> refuses req blocks b x))"
  using assms
proof (induction bs arbitrary: blocked)
  case (Cons c cs)
  then show ?case
    by (cases "envelope c"; cases "device_update sha (ReqAppID req) c (ReqRuntimeVersion req) (ReqClientID req) (the (envelope c))")
      (fastforce split: if_splits)+
qed simp

lemma resolve_spec_served:
  assumes "resolve_spec sha uuid envelope lookup surfing req tokens failed = (b, u, k)"
  shows "channel_serves (ReqMapping req) (Surfing (surfing_spec surfing req)) b"
    and "u = Some x \<Longrightarrow> \<exists>e. envelope b = Some e \<and> device_update sha (ReqAppID req) b (ReqRuntimeVersion req) (ReqClientID req) e = Some x"
    and "u = Some x \<Longrightarrow> \<not> refuses (surfing_spec surfing req) (blocks_for uuid lookup (surfing_spec surfing req) tokens failed) b x"
proof -
  obtain bs where bs: "ResolveBranchCandidates (DefaultBranchRules sha) (surfing_spec surfing req) = Inr bs"
    using default_candidates by blast
  from assms have sv: "serve_spec sha envelope (surfing_spec surfing req)
      (blocks_for uuid lookup (surfing_spec surfing req) tokens failed) None bs = (b, u, k)"
    by (simp add: resolve_spec_def Let_def bs)
  from serve_spec_served [OF this] candidates_served [OF bs]
  show "channel_serves (ReqMapping req) (Surfing (surfing_spec surfing req)) b"
    by (auto simp: channel_serves_def)
  assume "u = Some x"
  with serve_spec_served [OF sv]
  show "\<exists>e. envelope b = Some e \<and> device_update sha (ReqAppID req) b (ReqRuntimeVersion req) (ReqClientID req) e = Some x"
    and "\<not> refuses (surfing_spec surfing req) (blocks_for uuid lookup (surfing_spec surfing req) tokens failed) b x"
    by auto
qed

text \<open>Nothing is served only when a candidate leaves the device out of a rollout without a control, or when no
  candidate that the device does not refuse has an update.\<close>

lemma serve_spec_none:
  assumes "serve_spec sha envelope req blocks blocked bs = (b, None, k)"
  shows "(\<exists>e. b \<in> set bs \<and> envelope b = Some e
      \<and> device_update sha (ReqAppID req) b (ReqRuntimeVersion req) (ReqClientID req) e = None)
    \<or> (\<forall>c \<in> set bs. envelope c = None \<or> (\<exists>x. refuses req blocks c x))"
  using assms
proof (induction bs arbitrary: blocked)
  case (Cons c cs)
  then show ?case
    by (cases "envelope c"; cases "device_update sha (ReqAppID req) c (ReqRuntimeVersion req) (ReqClientID req) (the (envelope c))")
      (fastforce split: if_splits)+
qed simp

lemma resolve_spec_none:
  assumes "resolve_spec sha uuid envelope lookup surfing req tokens failed = (b, None, k)"
  shows "envelope (BranchName (ReqMapping req)) = None
    \<or> (\<exists>e. envelope b = Some e \<and> device_update sha (ReqAppID req) b (ReqRuntimeVersion req) (ReqClientID req) e = None)"
proof -
  obtain bs where bs: "ResolveBranchCandidates (DefaultBranchRules sha) (surfing_spec surfing req) = Inr bs"
      and last: "BranchName (ReqMapping req) \<in> set bs"
    using default_candidates [of sha "surfing_spec surfing req"] by (auto split: if_splits option.splits)
  have "serve_spec sha envelope (surfing_spec surfing req)
      (blocks_for uuid lookup (surfing_spec surfing req) tokens failed) None bs = (b, None, k)"
    using assms by (simp add: resolve_spec_def Let_def bs)
  moreover have "\<not> refuses (surfing_spec surfing req) blocks (BranchName (ReqMapping req)) x" for blocks x
    by (auto simp: refuses_def HonoursSurf_def)
  ultimately show ?thesis
    using serve_spec_none last by fastforce
qed

section \<open>The code computes it\<close>

lemma failed_blocks_spec:
  assumes "\<And>i s. P s \<Longrightarrow> \<exists>s'. lookup i s = (f i, s') \<and> P s'" and "P s"
  shows "\<exists>s'. failed_blocks lookup ids blocks s
      = (blocks \<union> set (List.map_filter (\<lambda>i. map_option (\<lambda>(b, u). surfBlockToken b u) (f i)) ids), s') \<and> P s'"
  using assms(2)
proof (induction ids arbitrary: blocks s)
  case Nil
  then show ?case
    by (simp add: List.map_filter_def)
next
  case (Cons i ids)
  obtain s1 where s1: "lookup i s = (f i, s1)" "P s1"
    using assms(1) [OF Cons.prems] by blast
  show ?case
  proof (cases "f i")
    case None
    then show ?thesis
      using s1 Cons.IH [OF s1(2), of blocks] by (simp add: List.map_filter_simps)
  next
    case (Some bu)
    then show ?thesis
      using s1 Cons.IH [OF s1(2), of "insert (surfBlockToken (fst bu) (snd bu)) blocks"]
      by (cases bu) (simp add: List.map_filter_simps)
  qed
qed

text \<open>A failing lookup counts as finding nothing.\<close>

definition found :: "(err, 'a option) result \<Rightarrow> 'a option" where
  "found r = (case r of Inr x \<Rightarrow> x | Inl _ \<Rightarrow> None)"

locale delivery_reads =
  fixes rt :: "'s Runtime" and sv :: "'s ExpoProtocolService" and P :: "'s \<Rightarrow> bool"
    and app :: string and channel :: string and runtime :: string and platform :: string
    and envelope :: "string \<Rightarrow> UpdateWithRollout option" and surfing :: "bool \<times> string" and lookup :: "string \<Rightarrow> Update option"
  assumes envelope_read: "P s \<Longrightarrow> \<exists>s'. getLatestUpdateEnvelope rt (updateRepo sv) app b runtime platform s = (Inr (envelope b), s') \<and> P s'"
    and surfing_read: "P s \<Longrightarrow> \<exists>s'. cachedBranchSurfing rt (channelRepo sv) app channel s = (Inr surfing, s') \<and> P s'"
    and lookup_read: "P s \<Longrightarrow> \<exists>r s'. GetUpdateByUUID (updateRepo sv) app i s = (r, s') \<and> P s' \<and> lookup i = found r"
    and default_rules: "branchRules sv = DefaultBranchRules (sha256 rt)"
begin

lemma client_read:
  assumes "P s"
  shows "\<exists>s'. GetLatestUpdateForClient rt (updateRepo sv) app b runtime platform client s
      = (Inr \<lparr>CurUpdate = Option.bind (envelope b) (device_update (sha256 rt) app b runtime client),
              BranchHasUpdate = (envelope b \<noteq> None)\<rparr>, s') \<and> P s'"
  using envelope_read [OF assms, of b]
  by (auto simp: GetLatestUpdateForClient_def bindE_run device_update_def split: option.splits)

lemma serve_read:
  assumes "P s" and "ReqAppID req = app" and "ReqRuntimeVersion req = runtime" and "ReqPlatform req = platform"
  shows "\<exists>s'. serve_candidates rt sv req blocks blocked bs s
      = (Inr (serve_spec (sha256 rt) envelope req blocks blocked bs), s') \<and> P s'"
  using assms(1)
proof (induction bs arbitrary: s blocked)
  case (Cons b bs)
  obtain s1 where s1: "GetLatestUpdateForClient rt (updateRepo sv) app b runtime platform (ReqClientID req) s
      = (Inr \<lparr>CurUpdate = Option.bind (envelope b) (device_update (sha256 rt) app b runtime (ReqClientID req)),
              BranchHasUpdate = (envelope b \<noteq> None)\<rparr>, s1)" "P s1"
    using client_read [OF Cons.prems] by blast
  note IH = Cons.IH [OF s1(2)]
  show ?case
    using s1 IH assms(2-4) by (auto simp: bindE_run mapErr_run refuses_def split: option.splits)
qed simp

lemma collect_read:
  assumes "P s"
  shows "\<exists>s'. collectSurfBlocks (uuidParse rt) (failed_lookup sv app) tokens failed s
      = (blocks_spec (uuidParse rt) lookup tokens failed, s') \<and> P s'"
proof -
  have "\<exists>s'. failed_lookup sv app i s = (map_option (\<lambda>u. (Branch u, UpdateId u)) (lookup i), s') \<and> P s'" if "P s" for i s
  proof -
    obtain r s' where "GetUpdateByUUID (updateRepo sv) app i s = (r, s')" "P s'" "lookup i = found r"
      using lookup_read [OF \<open>P s\<close>] by blast
    then show ?thesis
      by (cases r) (auto simp: failed_lookup_def found_def split: option.splits)
  qed
  from failed_blocks_spec [of P _ "\<lambda>i. map_option (\<lambda>u. (Branch u, UpdateId u)) (lookup i)", OF this assms] show ?thesis
    by (simp add: collectSurfBlocks_def blocks_spec_def option.map_comp comp_def)
qed

lemma with_surfing_read:
  assumes "P s" and "ReqAppID req = app" and "ReqChannelName req = channel"
  shows "\<exists>s'. with_surfing rt sv req s = (Inr (surfing_spec surfing req), s') \<and> P s'"
  using surfing_read [OF assms(1)] assms by (cases surfing) (auto simp: with_surfing_def surfing_spec_def bindE_run)

lemma surf_blocks_read:
  assumes "P s" and "ReqAppID req = app"
  shows "\<exists>s'. surf_blocks rt sv req tokens failed s = (Inr (blocks_for (uuidParse rt) lookup req tokens failed), s') \<and> P s'"
  using collect_read [OF assms(1), of tokens failed] assms by (auto simp: surf_blocks_def blocks_for_def)

lemma resolve_read:
  assumes "P s" and "ReqAppID req = app" and "ReqChannelName req = channel" and "ReqRuntimeVersion req = runtime"
    and "ReqPlatform req = platform"
  shows "\<exists>s'. resolveUpdateAcrossBranches rt sv req tokens failed s
      = (Inr (resolve_spec (sha256 rt) (uuidParse rt) envelope lookup surfing req tokens failed), s') \<and> P s'"
proof -
  let ?req = "surfing_spec surfing req"
  let ?blocks = "blocks_for (uuidParse rt) lookup ?req tokens failed"
  obtain cs where cs: "ResolveBranchCandidates (DefaultBranchRules (sha256 rt)) ?req = Inr cs"
    using default_candidates by blast
  obtain s1 where s1: "with_surfing rt sv req s = (Inr ?req, s1)" "P s1"
    using with_surfing_read [OF assms(1-3)] by blast
  obtain s2 where s2: "surf_blocks rt sv ?req tokens failed s1 = (Inr ?blocks, s2)" "P s2"
    using surf_blocks_read [OF s1(2), of ?req] assms(2) by auto
  obtain s3 where "serve_candidates rt sv ?req ?blocks None cs s2 = (Inr (serve_spec (sha256 rt) envelope ?req ?blocks None cs), s3)" "P s3"
    using serve_read [OF s2(2), of ?req ?blocks None cs] assms by auto
  then show ?thesis
    by (simp add: resolveUpdateAcrossBranches_def bindE_run s1(1) default_rules cs s2(1) resolve_spec_def Let_def)
qed

lemma asset_allowed_read:
  assumes "P s"
  shows "\<exists>s'. isAssetBranchAllowed rt sv app channel b m s
      = (Inr (channel_serves m \<lparr>Enabled = fst surfing, Pattern = snd surfing\<rparr> b), s') \<and> P s'"
  using surfing_read [OF assms] assms
  by (cases surfing) (auto simp: isAssetBranchAllowed_def channel_serves_def bindE_run split: option.splits)

end

text \<open>The asset resolution also looks a checked update up by its id.\<close>

locale asset_reads = delivery_reads +
  fixes checked :: "string \<Rightarrow> string \<Rightarrow> (err, Update option) result"
  assumes checked_read: "P s \<Longrightarrow> \<exists>s'. GetCheckedUpdate (updateRepo sv) app b runtime i s = (checked b i, s') \<and> P s'"
begin

lemma asset_tier3_read:
  assumes "P s" and "ArAppID params = app" and "ArChannelName params = channel" and "ArRuntimeVersion params = runtime"
    and "ArPlatform params = platform"
  shows "\<exists>s'. bindE (resolveUpdateAcrossBranches rt sv
            (resolution_request (ArAppID params) (ArChannelName params) (ArClientID params) (ArPlatform params)
              (ArRuntimeVersion params) m (ArBranch params)) [] []) (\<lambda>(branchName, lastUpdate, _). ret (branchName, lastUpdate)) s
      = (Inr (asset_fallback (sha256 rt) (uuidParse rt) envelope lookup surfing params m), s') \<and> P s'"
  using resolve_read [OF assms(1), of "resolution_request (ArAppID params) (ArChannelName params) (ArClientID params)
      (ArPlatform params) (ArRuntimeVersion params) m (ArBranch params)" "[]" "[]"] assms(2-)
  by (auto simp: asset_fallback_def resolution_request_def bindE_run split: prod.splits)

lemma asset_tier2_read:
  assumes "P s" and "ArAppID params = app" and "ArChannelName params = channel"
    and tier3: "\<And>s. P s \<Longrightarrow> \<exists>s'. tier3 s = (Inr a, s') \<and> P s'"
  shows "\<exists>s'. (if RequestedUpdateID params = [] then tier3
            else bindE (attempt (GetUpdateByUUID (updateRepo sv) (ArAppID params) (RequestedUpdateID params))) (\<lambda>r. case r of
              Inr (Some requested) \<Rightarrow> bindE (isAssetBranchAllowed rt sv (ArAppID params) (ArChannelName params) (Branch requested) m) (\<lambda>ok.
                if ok then ret (Branch requested, Some requested) else tier3)
            | _ \<Rightarrow> tier3)) s
      = (Inr (if RequestedUpdateID params = [] then a else case lookup (RequestedUpdateID params) of None \<Rightarrow> a
           | Some u \<Rightarrow> if channel_serves m \<lparr>Enabled = fst surfing, Pattern = snd surfing\<rparr> (Branch u) then (Branch u, Some u) else a), s') \<and> P s'"
proof (cases "RequestedUpdateID params = []")
  case False
  obtain r s1 where s1: "GetUpdateByUUID (updateRepo sv) app (RequestedUpdateID params) s = (r, s1)" "P s1"
      "lookup (RequestedUpdateID params) = found r"
    using lookup_read [OF assms(1)] by blast
  show ?thesis
  proof (cases "lookup (RequestedUpdateID params)")
    case None
    then show ?thesis
      using False s1 tier3 [OF s1(2)] assms(2)
      by (cases r) (auto simp: bindE_run attempt_run found_def split: option.splits)
  next
    case (Some u)
    obtain s2 where s2: "isAssetBranchAllowed rt sv app channel (Branch u) m s1
        = (Inr (channel_serves m \<lparr>Enabled = fst surfing, Pattern = snd surfing\<rparr> (Branch u)), s2)" "P s2"
      using asset_allowed_read [OF s1(2)] by blast
    show ?thesis
      using False Some s1 s2 tier3 [OF s2(2)] assms(2,3)
      by (cases r) (auto simp: bindE_run attempt_run found_def split: option.splits)
  qed
qed (use tier3 [OF assms(1)] in simp)

lemma asset_tier1_read:
  assumes "P s" and "ArAppID params = app" and "ArChannelName params = channel" and "ArRuntimeVersion params = runtime"
    and tier2: "\<And>s. P s \<Longrightarrow> \<exists>s'. tier2 s = (Inr a, s') \<and> P s'"
  shows "\<exists>s'. (if ArUpdateID params = [] \<or> ArBranch params = [] then tier2
            else bindE (isAssetBranchAllowed rt sv (ArAppID params) (ArChannelName params) (ArBranch params) m) (\<lambda>ok.
              if \<not> ok then tier2
              else bindE (attempt (GetCheckedUpdate (updateRepo sv) (ArAppID params) (ArBranch params) (ArRuntimeVersion params) (ArUpdateID params)))
                (\<lambda>r. case r of Inr (Some pinned) \<Rightarrow> ret (ArBranch params, Some pinned) | _ \<Rightarrow> tier2))) s
      = (Inr (if ArUpdateID params \<noteq> [] \<and> ArBranch params \<noteq> [] \<and> channel_serves m \<lparr>Enabled = fst surfing, Pattern = snd surfing\<rparr> (ArBranch params)
           then case checked (ArBranch params) (ArUpdateID params) of Inr (Some u) \<Rightarrow> (ArBranch params, Some u) | _ \<Rightarrow> a else a), s') \<and> P s'"
proof (cases "ArUpdateID params = [] \<or> ArBranch params = []")
  case False
  let ?ok = "channel_serves m \<lparr>Enabled = fst surfing, Pattern = snd surfing\<rparr> (ArBranch params)"
  obtain s1 where s1: "isAssetBranchAllowed rt sv app channel (ArBranch params) m s = (Inr ?ok, s1)" "P s1"
    using asset_allowed_read [OF assms(1)] by blast
  obtain s2 where s2: "GetCheckedUpdate (updateRepo sv) app (ArBranch params) runtime (ArUpdateID params) s1
      = (checked (ArBranch params) (ArUpdateID params), s2)" "P s2"
    using checked_read [OF s1(2)] by blast
  show ?thesis
    using False s1 s2 tier2 [OF s1(2)] tier2 [OF s2(2)] assms(2-4)
    by (auto simp: bindE_run attempt_run split: sum.splits option.splits)
qed (use tier2 [OF assms(1)] in auto)

lemma asset_read:
  assumes "P s" and "ArAppID params = app" and "ArChannelName params = channel" and "ArRuntimeVersion params = runtime"
    and "ArPlatform params = platform"
  shows "\<exists>s'. resolveAssetUpdate rt sv params m s
      = (Inr (asset_spec (sha256 rt) (uuidParse rt) (IsDBMode rt) envelope lookup checked surfing params m), s') \<and> P s'"
proof -
  note t3 = asset_tier3_read [OF _ assms(2-5), where m = m]
  note t2 = asset_tier2_read [OF _ assms(2,3) t3, where m = m]
  note t1 = asset_tier1_read [OF assms(1-4) t2, where m = m]
  show ?thesis
  proof (cases "IsDBMode rt")
    case True
    with t1 show ?thesis
      by (simp only: resolveAssetUpdate_def Let_def if_True asset_spec_db)
  next
    case False
    with t3 [OF assms(1)] show ?thesis
      unfolding resolveAssetUpdate_def Let_def asset_spec_def by simp
  qed
qed

end

end
