(* ===== verification/World.thy ===== *)
theory World
  imports Resolution Repositories Lifecycle
begin

text \<open>
  One server process: the Postgres database, the in-process cache with its clock, the audit log and the
  metrics.  The repositories of the services are the Postgres ones, and the interfaces are interpreted on this
  state: its cache satisfies the contract of \<^verbatim>\<open>cache_api\<close>, and while its cache agrees with its database it
  satisfies \<^verbatim>\<open>asset_reads\<close>, so the cached delivery path serves exactly what the database says.
\<close>

section \<open>The state of a process\<close>

text \<open>The settings of an app, as the table \<^verbatim>\<open>apps\<close> holds them.\<close>

record app_row =
  a_id :: string
  a_name :: string
  a_git_url :: "string option"
  a_keys_mode :: "string option"
  a_sealed_public :: "string option"
  a_sealed_private :: "string option"
  a_path_public :: "string option"
  a_path_private :: "string option"
  a_secret_public :: "string option"
  a_secret_private :: "string option"
  a_created :: int

record world =
  wdb :: db
  wapps :: "app_row list"
  wcache :: LocalCache
  wnow :: int
  waudit :: "Event list"
  wmetrics :: "metric list"
  wjobs :: "job list"

definition on_db :: "'a repo \<Rightarrow> (world, 'a) op" where
  "on_db m = (\<lambda>w. case m (wdb w) of (r, d) \<Rightarrow> (r, w\<lparr>wdb := d\<rparr>))"

definition world_cache :: "world CacheAPI" where
  "world_cache = \<lparr>cacheGet = (\<lambda>k w. case CacheGet (wnow w) k (wcache w) of (v, c) \<Rightarrow> (v, w\<lparr>wcache := c\<rparr>)),
     cacheSet = (\<lambda>k v ttl w. w\<lparr>wcache := CacheSet (wnow w) k v ttl (wcache w)\<rparr>),
     cacheDelete = (\<lambda>k w. w\<lparr>wcache := CacheDelete k (wcache w)\<rparr>)\<rparr>"

definition world_runtime :: "world Runtime \<Rightarrow> world Runtime" where
  "world_runtime rt = rt\<lparr>GetCache := world_cache\<rparr>"

section \<open>The Postgres repositories as interfaces\<close>

definition safeStr :: "string option \<Rightarrow> string" where
  "safeStr s = (case s of None \<Rightarrow> [] | Some x \<Rightarrow> x)"

definition pg_GetAppByID :: "uuid_parser \<Rightarrow> string \<Rightarrow> (world, AppConfig) op" where
  "pg_GetAppByID uuid i = (\<lambda>w. case find (\<lambda>a. Some (a_id a) = ToPgUUID uuid i) (wapps w) of
     None \<Rightarrow> (Inl (Wrapped (Msg ''failed to retrieve app from database: %w'' []) (DbError NoRows)), w)
   | Some a \<Rightarrow> (Inr \<lparr>AcId = a_id a, AcName = a_name a, AcGitURL = safeStr (a_git_url a), AccessToken = [],
       Keys = \<lparr>KeysMode = safeStr (a_keys_mode a), PublicPath = safeStr (a_path_public a), PrivatePath = safeStr (a_path_private a),
         PublicSecretId = safeStr (a_secret_public a), PrivateSecretId = safeStr (a_secret_private a),
         PublicB64 = [], PrivateB64 = [], SealedPublicKey = safeStr (a_sealed_public a), SealedPrivateKey = safeStr (a_sealed_private a)\<rparr>,
       AcCreatedAt = a_created a\<rparr>, w))"

definition pg_app_repository :: "uuid_parser \<Rightarrow> world AppRepository" where
  "pg_app_repository uuid = \<lparr>GetAppByID = pg_GetAppByID uuid\<rparr>"

definition pg_branch_repository :: "uuid_parser \<Rightarrow> world BranchRepository" where
  "pg_branch_repository uuid =
     \<lparr>InsertBranch = (\<lambda>a b. on_db (pg_InsertBranch uuid a b)),
      UpsertBranchAndRuntimeVersion = (\<lambda>a b v. on_db (pg_UpsertBranchAndRuntimeVersion uuid a b v)),
      GetUpdateRefsByBranchName = (\<lambda>a b. on_db (pg_GetUpdateRefsByBranchName uuid a b)),
      DeleteBranchByName = (\<lambda>a b. on_db (pg_DeleteBranchByName uuid a b)),
      GetBranches = (\<lambda>a. on_db (pg_GetBranches uuid a)),
      GetSurfableBranches = (\<lambda>a v p. on_db (pg_GetSurfableBranches uuid a v p)),
      UpdateChannelBranchMapping = (\<lambda>a c b. on_db (pg_UpdateChannelBranchMapping uuid a c b)),
      CreateRuntimeVersion = (\<lambda>a v. on_db (pg_CreateRuntimeVersion uuid a v)),
      GetBranchByName = (\<lambda>a b. on_db (pg_GetBranchByName uuid a b))\<rparr>"

definition pg_channel_repository :: "uuid_parser \<Rightarrow> world ChannelRepository" where
  "pg_channel_repository uuid =
     \<lparr>InsertChannel = (\<lambda>a b c. on_db (pg_InsertChannel uuid a b c)),
      DeleteChannel = (\<lambda>c a. on_db (pg_DeleteChannel uuid c a)),
      GetChannelNameByBranchName = (\<lambda>a b. on_db (pg_GetChannelNameByBranchName uuid a b)),
      GetChannels = (\<lambda>a. on_db (pg_GetChannels uuid a)),
      GetChannelBranchMapping = (\<lambda>a c. on_db (pg_GetChannelBranchMapping uuid a c)),
      GetBranchSurfing = (\<lambda>a c. on_db (pg_GetBranchSurfing uuid a c)),
      SetBranchSurfing = (\<lambda>a c s. on_db (pg_SetBranchSurfing uuid a c s))\<rparr>"

definition pg_rollout_repository :: "uuid_parser \<Rightarrow> uuid_parser \<Rightarrow> world RolloutRepository" where
  "pg_rollout_repository uuid scan =
     \<lparr>CreateChannelRollout = (\<lambda>i a c b p. on_db (pg_CreateChannelRollout uuid scan i a c b p)),
      GetChannelRollout = (\<lambda>a c. on_db (pg_GetChannelRollout uuid a c)),
      UpdateChannelRolloutPercentage = (\<lambda>a c p. on_db (pg_UpdateChannelRolloutPercentage uuid a c p)),
      DeleteChannelRollout = (\<lambda>a c. on_db (pg_DeleteChannelRollout uuid a c)),
      PromoteChannelRollout = (\<lambda>a c. on_db (pg_PromoteChannelRollout uuid a c)),
      GetChannelRolloutsByBranch = (\<lambda>a b. on_db (pg_GetChannelRolloutsByBranch uuid a b)),
      GetActiveRolloutUpdates = (\<lambda>a b v. on_db (pg_GetActiveRolloutUpdates uuid a b v)),
      SetUpdateRolloutPercentage = (\<lambda>a b v p. on_db (pg_SetUpdateRolloutPercentage uuid a b v p)),
      ClearUpdateRollout = (\<lambda>a b v. on_db (pg_ClearUpdateRollout uuid a b v))\<rparr>"

definition pg_update_repository :: "uuid_parser \<Rightarrow> uuid_parser \<Rightarrow> world UpdateRepository" where
  "pg_update_repository uuid scan =
     \<lparr>MarkUpdateAsChecked = (\<lambda>u. on_db (pg_MarkUpdateAsChecked uuid u)),
      GetUpdate = (\<lambda>a b v i. on_db (pg_GetUpdate uuid a b v i)),
      GetCheckedUpdate = (\<lambda>a b v i. on_db (pg_GetCheckedUpdate uuid a b v i)),
      GetLatestUpdate = (\<lambda>a b v p. on_db (pg_GetLatestUpdate uuid a b v p)),
      GetLatestUpdateWithRollout = (\<lambda>a b v p. on_db (pg_GetLatestUpdateWithRollout uuid a b v p)),
      GetUpdateByUUID = (\<lambda>a i. on_db (pg_GetUpdateByUUID uuid scan a i)),
      HasActiveRolloutUpdate = (\<lambda>a b v. on_db (pg_HasActiveRolloutUpdate uuid a b v)),
      GetUpdateType = (\<lambda>u. on_db (pg_GetUpdateType uuid u)),
      IsUpdateValid = (\<lambda>u. on_db (pg_IsUpdateValid uuid u)),
      CreateUpdate = (\<lambda>a i b v p c m g. on_db (pg_CreateUpdate uuid a i b v p c m g)),
      CreateUpdateWithRollout = (\<lambda>a i b v p c m r g. on_db (pg_CreateUpdateWithRollout uuid a i b v p c m r g)),
      CreateRollback = (\<lambda>a i b v p c m. on_db (pg_CreateRollback uuid a i b v p c m)),
      UpdateExists = (\<lambda>a b i. on_db (pg_UpdateExists uuid a b i)),
      GetUpdatesByPublishGroup = (\<lambda>a b v g. on_db (pg_GetUpdatesByPublishGroup uuid a b v g)),
      RetrieveUpdateStoredMetadata = (\<lambda>u. on_db (pg_RetrieveUpdateStoredMetadata uuid u)),
      StoreUpdateUUIDInMetadata = (\<lambda>u i. on_db (pg_StoreUpdateUUIDInMetadata uuid scan u i)),
      GetUpdateAssetMapping = (\<lambda>u. on_db (pg_GetUpdateAssetMapping uuid u)),
      StoreUpdateAssetMapping = (\<lambda>u m. on_db (pg_StoreUpdateAssetMapping uuid u m)),
      GetUpdateSourcemapHash = (\<lambda>u. on_db (pg_GetUpdateSourcemapHash uuid u)),
      StoreUpdateSourcemapHash = (\<lambda>u h. on_db (pg_StoreUpdateSourcemapHash uuid u h))\<rparr>"

definition pg_service :: "uuid_parser \<Rightarrow> uuid_parser \<Rightarrow> world Runtime \<Rightarrow> world BlobStore \<Rightarrow> world PatchStore \<Rightarrow> world ExpoProtocolService" where
  "pg_service uuid scan rt blobs patches =
     \<lparr>appRepo = pg_app_repository uuid, channelRepo = pg_channel_repository uuid, updateRepo = pg_update_repository uuid scan,
      branchRules = DefaultBranchRules (sha256 rt), blobStore = blobs, patchStore = patches,
      track = (\<lambda>m w. w\<lparr>wmetrics := wmetrics w @ [m]\<rparr>)\<rparr>"

lemmas world_services = pg_app_repository_def pg_branch_repository_def pg_channel_repository_def pg_rollout_repository_def
  pg_update_repository_def pg_service_def

lemma on_db_run [proc_simps]: "on_db m w = (fst (m (wdb w)), w\<lparr>wdb := snd (m (wdb w))\<rparr>)"
  by (simp add: on_db_def split: prod.split)

lemma on_db_read: "snd (m (wdb w)) = wdb w \<Longrightarrow> on_db m w = (fst (m (wdb w)), w)"
  by (simp add: on_db_run)

lemma runtime_fields [simp]:
  "GetCache (world_runtime rt) = world_cache" "IsDBMode (world_runtime rt) = IsDBMode rt" "Version (world_runtime rt) = Version rt"
  "sha256 (world_runtime rt) = sha256 rt" "uuidParse (world_runtime rt) = uuidParse rt"
  "jsonChannelResolution (world_runtime rt) = jsonChannelResolution rt" "jsonUpdateWithRollout (world_runtime rt) = jsonUpdateWithRollout rt"
  "jsonAppConfig (world_runtime rt) = jsonAppConfig rt" "jsonCachedUpdate (world_runtime rt) = jsonCachedUpdate rt"
  "jsonSurfableBranches (world_runtime rt) = jsonSurfableBranches rt"
  by (simp_all add: world_runtime_def)

section \<open>The cache of the process\<close>

definition world_view :: "world \<Rightarrow> string \<Rightarrow> string option" where
  "world_view w k = map_option fst (local_view (wcache w) (wnow w) k)"

definition world_rest :: "world \<Rightarrow> db \<times> app_row list \<times> int \<times> Event list \<times> metric list \<times> job list" where
  "world_rest w = (wdb w, wapps w, wnow w, waudit w, wmetrics w, wjobs w)"

lemma live_now: "0 \<le> ttl \<Longrightarrow> live now (v, Some (deadline now ttl)) = Some (v, Some (deadline now ttl))"
  by (simp add: live_def deadline_def second_def)

interpretation proc_cache: cache_api "world_runtime rt" world_view world_rest for rt
proof (unfold_locales, goal_cases)
  case (1 k s)
  then show ?case
    using lcache.get_value [of "wnow s" k "wcache s"]
    by (auto simp: world_cache_def world_view_def split: prod.splits option.splits)
next
  case (2 k s k')
  then show ?case
    using lcache.get_view [of "wnow s" "wnow s" k "wcache s" k']
    by (auto simp: world_cache_def world_view_def split: prod.splits)
next
  case (3 k s)
  then show ?case
    by (simp add: world_cache_def world_rest_def split: prod.splits)
next
  case (4 ttl k v s k')
  then show ?case
    by (simp add: world_cache_def world_view_def lcache.put_view live_now)
next
  case (5 k v w s)
  then show ?case
    by (simp add: world_cache_def world_rest_def)
next
  case (6 k s k')
  then show ?case
    by (simp add: world_cache_def world_view_def lcache.del_view)
next
  case (7 k s)
  then show ?case
    by (simp add: world_cache_def world_rest_def)
qed

section \<open>What the database answers\<close>

definition mapping_answer :: "uuid_parser \<Rightarrow> db \<Rightarrow> string \<Rightarrow> string \<Rightarrow> ChannelResolution option" where
  "mapping_answer uuid d app ch = found (fst (pg_GetChannelBranchMapping uuid app ch d))"

definition envelope_answer :: "uuid_parser \<Rightarrow> db \<Rightarrow> string \<Rightarrow> string \<Rightarrow> string \<Rightarrow> string \<Rightarrow> UpdateWithRollout option" where
  "envelope_answer uuid d app b v p = found (fst (pg_GetLatestUpdateWithRollout uuid app b v p d))"

definition surfing_answer :: "uuid_parser \<Rightarrow> db \<Rightarrow> string \<Rightarrow> string \<Rightarrow> bool \<times> string" where
  "surfing_answer uuid d app ch = (case found (fst (pg_GetBranchSurfing uuid app ch d)) of
     None \<Rightarrow> (False, []) | Some sf \<Rightarrow> (Enabled sf, Pattern sf))"

definition type_answer :: "uuid_parser \<Rightarrow> db \<Rightarrow> Update \<Rightarrow> int option" where
  "type_answer uuid d u = (case fst (pg_GetUpdateType uuid u d) of Inl _ \<Rightarrow> None | Inr t \<Rightarrow> Some t)"

definition app_answer :: "uuid_parser \<Rightarrow> world \<Rightarrow> string \<Rightarrow> AppConfig option" where
  "app_answer uuid w app = (case fst (pg_GetAppByID uuid app w) of Inl _ \<Rightarrow> None | Inr c \<Rightarrow> Some c)"

lemma pg_mapping_reads: "pg_GetChannelBranchMapping uuid app ch d = (Inr (mapping_answer uuid d app ch), d)"
  by (simp add: mapping_answer_def pg_GetChannelBranchMapping_def getChannelBranchMapping_def bindE_run read_one_optional found_def)

lemma pg_envelope_reads: "pg_GetLatestUpdateWithRollout uuid app b v p d = (Inr (envelope_answer uuid d app b v p), d)"
  by (simp add: envelope_answer_def pg_GetLatestUpdateWithRollout_def getLatestUpdateWithRollout_def bindE_run read_one_optional found_def)

lemma pg_surfing_reads: "\<exists>a. pg_GetBranchSurfing uuid app ch d = (Inr a, d)
    \<and> surfing_answer uuid d app ch = (case a of None \<Rightarrow> (False, []) | Some sf \<Rightarrow> (Enabled sf, Pattern sf))"
  by (simp add: surfing_answer_def pg_GetBranchSurfing_def getChannelBranchSurfing_def bindE_run read_one_optional found_def)

lemma pg_type_reads: "snd (pg_GetUpdateType uuid u d) = d"
  by (simp add: pg_GetUpdateType_def parse_id_def getUpdateType_def bindE_run wrapped_run read_one_def split: option.splits)

lemma pg_app_reads: "snd (pg_GetAppByID uuid app w) = w"
  by (simp add: pg_GetAppByID_def split: option.splits)

lemma pg_uuid_reads: "snd (pg_GetUpdateByUUID uuid scan app i d) = d"
  by (simp add: pg_GetUpdateByUUID_def getUpdateByUUID_def bindE_run read_one_optional split: option.splits)

lemma pg_checked_reads: "snd (pg_GetCheckedUpdate uuid app b v i d) = d"
  by (simp add: pg_GetCheckedUpdate_def parse_id_def getUpdateByBranchNameAndRuntime_def bindE_run read_one_optional split: option.splits)

section \<open>A cache that agrees with the database\<close>

datatype cached_read =
    ReadApp string
  | ReadMapping string string
  | ReadSurfing string string
  | ReadEnvelope string string string string
  | ReadType string string string string

fun read_key :: "'s Runtime \<Rightarrow> cached_read \<Rightarrow> string" where
  "read_key rt (ReadApp a) = Key [''app-config'', Version rt, a]"
| "read_key rt (ReadMapping a c) = Key [''channel-mapping'', Version rt, a, c]"
| "read_key rt (ReadSurfing a c) = Key [''channel-branch-surfing'', Version rt, a, c]"
| "read_key rt (ReadEnvelope a b v p) = Key [''lastUpdate'', Version rt, a, b, v, p]"
| "read_key rt (ReadType a b v i) = Key [''update-type'', Version rt, a, b, v, i]"

definition blank_update :: "string \<Rightarrow> string \<Rightarrow> string \<Rightarrow> string \<Rightarrow> Update" where
  "blank_update a b v i = \<lparr>AppId = a, Branch = b, RuntimeVersion = v, UpdateId = i, CreatedAt = 0, UpdateUUID = []\<rparr>"

fun agreeing :: "uuid_parser \<Rightarrow> 's Runtime \<Rightarrow> world \<Rightarrow> cached_read \<Rightarrow> bool" where
  "agreeing uuid rt w (ReadApp a) = agrees world_view (Unmarshal (jsonAppConfig rt)) (read_key rt (ReadApp a)) (app_answer uuid w a) w"
| "agreeing uuid rt w (ReadMapping a c) = agrees world_view (Unmarshal (jsonChannelResolution rt)) (read_key rt (ReadMapping a c))
     (mapping_answer uuid (wdb w) a c) w"
| "agreeing uuid rt w (ReadSurfing a c) = agrees world_view surfing_decode (read_key rt (ReadSurfing a c))
     (Some (surfing_answer uuid (wdb w) a c)) w"
| "agreeing uuid rt w (ReadEnvelope a b v p) = agrees world_view (Unmarshal (jsonUpdateWithRollout rt)) (read_key rt (ReadEnvelope a b v p))
     (envelope_answer uuid (wdb w) a b v p) w"
| "agreeing uuid rt w (ReadType a b v i) = agrees world_view ParseInt (read_key rt (ReadType a b v i))
     (type_answer uuid (wdb w) (blank_update a b v i)) w"

definition coherent :: "uuid_parser \<Rightarrow> world Runtime \<Rightarrow> world \<Rightarrow> bool" where
  "coherent uuid rt w \<longleftrightarrow> (\<forall>r. agreeing uuid rt w r)"

lemma read_key_inj: "read_key rt r = read_key rt r' \<longleftrightarrow> r = r'"
  by (cases r; cases r') (auto dest: Key_inj)

lemma agreeing_other:
  assumes "world_rest w' = world_rest w" and "\<And>k. k \<noteq> read_key rt r0 \<Longrightarrow> world_view w' k = world_view w k" and "r \<noteq> r0"
    and "agreeing uuid rt w r"
  shows "agreeing uuid rt w' r"
proof -
  have "world_view w' (read_key rt r) = world_view w (read_key rt r)"
    using assms(2) [of "read_key rt r"] assms(3) by (simp only: read_key_inj) simp
  moreover have "wdb w' = wdb w" "app_answer uuid w' a = app_answer uuid w a" for a
    using assms(1) by (simp_all add: world_rest_def app_answer_def pg_GetAppByID_def split: option.splits)
  ultimately show ?thesis
    using assms(4) by (cases r) (simp_all add: agrees_def)
qed

lemma coherent_refreshed:
  assumes "coherent uuid rt w" and "world_rest w' = world_rest w" and "\<And>k. k \<noteq> read_key rt r0 \<Longrightarrow> world_view w' k = world_view w k"
    and "agreeing uuid rt w' r0"
  shows "coherent uuid rt w'"
  using agreeing_other [OF assms(2,3)] assms(1,4) unfolding coherent_def by metis

text \<open>What the delivery path relies on: the control plane, codecs that give back what they were given, a coherent
  cache, and update types that fit the integer they are cached as.\<close>

definition faithful_codecs :: "world Runtime \<Rightarrow> bool" where
  "faithful_codecs rt \<longleftrightarrow> (\<forall>m. carries (jsonChannelResolution rt) m) \<and> (\<forall>e. carries (jsonUpdateWithRollout rt) e)
     \<and> (\<forall>c. carries (jsonAppConfig rt) c)"

definition serving_world :: "uuid_parser \<Rightarrow> world Runtime \<Rightarrow> db \<Rightarrow> app_row list \<Rightarrow> world \<Rightarrow> bool" where
  "serving_world uuid rt d as w \<longleftrightarrow> IsDBMode rt \<and> faithful_codecs rt \<and> (\<forall>u \<in> set (updates d). int64_range (u_type u))
     \<and> coherent uuid rt w \<and> wdb w = d \<and> wapps w = as"

lemma serving_refreshed:
  assumes "serving_world uuid rt d as w" and "refreshed world_view world_rest decode (read_key rt r) answer w w'"
    and "agrees world_view decode (read_key rt r) answer w' \<Longrightarrow> agreeing uuid rt w' r"
  shows "serving_world uuid rt d as w'"
proof -
  have "world_rest w' = world_rest w" "\<And>k. k \<noteq> read_key rt r \<Longrightarrow> world_view w' k = world_view w k" "agreeing uuid rt w' r"
    using assms(2,3) by (simp_all add: refreshed_def)
  then show ?thesis
    using assms(1) coherent_refreshed [of uuid rt w w' r] by (simp add: serving_world_def world_rest_def)
qed

lemma serving_agreeing: "serving_world uuid rt d as w \<Longrightarrow> agreeing uuid rt w r"
  by (simp add: serving_world_def coherent_def)

lemma serving_rest: "serving_world uuid rt d as w \<Longrightarrow> world_rest w' = world_rest w \<Longrightarrow> wdb w' = d \<and> wapps w' = as"
  by (simp add: serving_world_def world_rest_def)

lemma serving_mapping:
  assumes "serving_world uuid rt d as w"
  shows "\<exists>w'. cachedChannelMapping (world_runtime rt) (pg_channel_repository uuid) app ch w = (Inr (mapping_answer uuid d app ch), w')
    \<and> serving_world uuid rt d as w'"
proof -
  have key: "channelMappingCacheKey (world_runtime rt) app ch = read_key rt (ReadMapping app ch)"
    by (simp add: channelMappingCacheKey_def)
  have r: "reads world_rest (world_rest w) (GetChannelBranchMapping (pg_channel_repository uuid) app ch) (mapping_answer uuid d app ch)"
    using serving_rest [OF assms] by (auto simp: reads_def pg_channel_repository_def on_db_run pg_mapping_reads)
  have "IsDBMode rt" "carries (jsonChannelResolution rt) m" "wdb w = d" for m
    using assms by (simp_all add: serving_world_def faithful_codecs_def)
  then obtain w' where w': "cachedChannelMapping (world_runtime rt) (pg_channel_repository uuid) app ch w = (Inr (mapping_answer uuid d app ch), w')"
      "refreshed world_view world_rest (Unmarshal (jsonChannelResolution rt)) (read_key rt (ReadMapping app ch)) (mapping_answer uuid d app ch) w w'"
    using proc_cache.cachedChannelMapping_transparent [where rt = rt, OF _ _ r] serving_agreeing [OF assms, of "ReadMapping app ch"] by (auto simp: key)
  moreover have "serving_world uuid rt d as w'"
    using serving_refreshed [OF assms w'(2)] serving_rest [OF assms, of w'] w'(2) by (simp add: refreshed_def)
  ultimately show ?thesis
    by blast
qed

lemma serving_envelope:
  assumes "serving_world uuid rt d as w"
  shows "\<exists>w'. getLatestUpdateEnvelope (world_runtime rt) (pg_update_repository uuid scan) app b v p w = (Inr (envelope_answer uuid d app b v p), w')
    \<and> serving_world uuid rt d as w'"
proof -
  have key: "ComputeLastUpdateCacheKey (world_runtime rt) app b v p = read_key rt (ReadEnvelope app b v p)"
    by (simp add: ComputeLastUpdateCacheKey_def)
  have r: "reads world_rest (world_rest w) (GetLatestUpdateWithRollout (pg_update_repository uuid scan) app b v p) (envelope_answer uuid d app b v p)"
    using serving_rest [OF assms] by (auto simp: reads_def pg_update_repository_def on_db_run pg_envelope_reads)
  have "carries (jsonUpdateWithRollout rt) m" "wdb w = d" for m
    using assms by (simp_all add: serving_world_def faithful_codecs_def)
  then obtain w' where w': "getLatestUpdateEnvelope (world_runtime rt) (pg_update_repository uuid scan) app b v p w = (Inr (envelope_answer uuid d app b v p), w')"
      "refreshed world_view world_rest (Unmarshal (jsonUpdateWithRollout rt)) (read_key rt (ReadEnvelope app b v p)) (envelope_answer uuid d app b v p) w w'"
    using proc_cache.getLatestUpdateEnvelope_transparent [where rt = rt, OF _ r] serving_agreeing [OF assms, of "ReadEnvelope app b v p"] by (auto simp: key)
  moreover have "serving_world uuid rt d as w'"
    using serving_refreshed [OF assms w'(2)] serving_rest [OF assms, of w'] w'(2) by (simp add: refreshed_def)
  ultimately show ?thesis
    by blast
qed

definition effective_surfing :: "uuid_parser \<Rightarrow> db \<Rightarrow> string \<Rightarrow> string \<Rightarrow> bool \<times> string" where
  "effective_surfing uuid d app ch = (if ch = [] then (False, []) else surfing_answer uuid d app ch)"

lemma serving_surfing:
  assumes "serving_world uuid rt d as w"
  shows "\<exists>w'. cachedBranchSurfing (world_runtime rt) (pg_channel_repository uuid) app ch w = (Inr (effective_surfing uuid d app ch), w')
    \<and> serving_world uuid rt d as w'"
proof -
  have key: "channelBranchSurfingCacheKey (world_runtime rt) app ch = read_key rt (ReadSurfing app ch)"
    by (simp add: channelBranchSurfingCacheKey_def)
  obtain a where a: "pg_GetBranchSurfing uuid app ch d = (Inr a, d)"
      "surfing_answer uuid d app ch = (case a of None \<Rightarrow> (False, []) | Some sf \<Rightarrow> (Enabled sf, Pattern sf))"
    using pg_surfing_reads by blast
  have r: "reads world_rest (world_rest w) (GetBranchSurfing (pg_channel_repository uuid) app ch) a"
    using serving_rest [OF assms] a(1) by (auto simp: reads_def pg_channel_repository_def on_db_run)
  have d: "IsDBMode rt" "wdb w = d"
    using assms by (simp_all add: serving_world_def)
  obtain w' where w': "cachedBranchSurfing (world_runtime rt) (pg_channel_repository uuid) app ch w = (Inr (effective_surfing uuid d app ch), w')"
      "refreshed world_view world_rest surfing_decode (read_key rt (ReadSurfing app ch)) (Some (surfing_answer uuid d app ch)) w w'"
    using proc_cache.cachedBranchSurfing_transparent [where rt = rt, OF _ r] serving_agreeing [OF assms, of "ReadSurfing app ch"] d a(2)
    by (auto simp: key effective_surfing_def)
  moreover have "serving_world uuid rt d as w'"
    using serving_refreshed [OF assms w'(2)] serving_rest [OF assms, of w'] w'(2) by (simp add: refreshed_def)
  ultimately show ?thesis
    by blast
qed

lemma serving_app:
  assumes "serving_world uuid rt d as w"
  shows "\<exists>w'. serving_world uuid rt d as w' \<and> (\<exists>e. cachedAppConfig (world_runtime rt) (pg_app_repository uuid) app w
      = (case app_answer uuid w app of None \<Rightarrow> Inl e | Some c \<Rightarrow> Inr c, w'))"
proof -
  let ?key = "read_key rt (ReadApp app)"
  let ?get = "cacheGet world_cache ?key w"
  have key: "appConfigCacheKey (world_runtime rt) app = ?key"
    by (simp add: appConfigCacheKey_def)
  have ag: "agrees world_view (Unmarshal (jsonAppConfig rt)) ?key (app_answer uuid w app) w"
    using serving_agreeing [OF assms, of "ReadApp app"] by simp
  have answer: "app_answer uuid w' app = app_answer uuid w app" if "world_rest w' = world_rest w" for w'
    using that by (simp add: app_answer_def pg_GetAppByID_def world_rest_def split: option.splits)
  have keep: "serving_world uuid rt d as w'"
    if "refreshed world_view world_rest (Unmarshal (jsonAppConfig rt)) ?key (app_answer uuid w app) w w'" for w'
    using serving_refreshed [OF assms that] answer [of w'] that by (simp add: refreshed_def)
  have got: "refreshed world_view world_rest (Unmarshal (jsonAppConfig rt)) ?key (app_answer uuid w app) w (snd ?get)"
    using proc_cache.after_get [where rt = rt, OF ag] by simp
  have hit: "app_answer uuid w app = Some c" if "fst ?get \<noteq> []" "Unmarshal (jsonAppConfig rt) (fst ?get) = Some c" for c
    using proc_cache.hit_json [where rt = rt and c = "jsonAppConfig rt", OF _ _ ag] that by simp
  have mode: "IsDBMode rt" "\<And>c. carries (jsonAppConfig rt) c"
    using assms by (simp_all add: serving_world_def faithful_codecs_def)
  have put: "refreshed world_view world_rest (Unmarshal (jsonAppConfig rt)) ?key (app_answer uuid w app) w
      (cacheSet world_cache ?key payload (Some appConfigCacheTTLSeconds) (snd ?get))"
    if "app_answer uuid w app = Some c" "Marshal (jsonAppConfig rt) c = Some payload" for c payload
    using proc_cache.after_put [where rt = rt and ttl = appConfigCacheTTLSeconds and decode = "Unmarshal (jsonAppConfig rt)" and p = payload] that mode(2) [of c]
    by (simp add: appConfigCacheTTLSeconds_def carries_def)
  have miss: "pg_GetAppByID uuid app (snd ?get) = (case app_answer uuid w app of None \<Rightarrow> Inl (Wrapped (Msg ''failed to retrieve app from database: %w'' []) (DbError NoRows))
      | Some c \<Rightarrow> Inr c, snd ?get)"
    using answer [of "snd ?get"] got by (auto simp: refreshed_def app_answer_def pg_GetAppByID_def split: option.splits)
  show ?thesis
    using hit keep [OF got] keep put miss mode
    by (auto simp: cachedAppConfig_def pg_app_repository_def bindE_run cached_json_run put_json_run key simp del: read_key.simps split: option.splits)
qed

lemma serving_type:
  assumes "serving_world uuid rt d as w"
  shows "\<exists>w'. serving_world uuid rt d as w' \<and> (\<exists>e. cachedUpdateType (world_runtime rt) (pg_update_repository uuid scan) u w
      = (case type_answer uuid d u of None \<Rightarrow> Inl e | Some t \<Rightarrow> Inr t, w'))"
proof -
  let ?r = "ReadType (AppId u) (Branch u) (RuntimeVersion u) (UpdateId u)"
  let ?get = "cacheGet world_cache (read_key rt ?r) w"
  have key: "updateTypeCacheKey (world_runtime rt) u = read_key rt ?r"
    by (simp add: updateTypeCacheKey_def)
  have blank: "type_answer uuid d (blank_update (AppId u) (Branch u) (RuntimeVersion u) (UpdateId u)) = type_answer uuid d u"
    by (simp add: type_answer_def blank_update_def pg_GetUpdateType_def)
  have db: "wdb w = d"
    using assms by (simp add: serving_world_def)
  have ag: "agrees world_view ParseInt (read_key rt ?r) (type_answer uuid d u) w"
    using serving_agreeing [OF assms, of ?r] by (simp add: blank db)
  have keep: "serving_world uuid rt d as w'"
    if "refreshed world_view world_rest ParseInt (read_key rt ?r) (type_answer uuid d u) w w'" for w'
    using serving_refreshed [OF assms that] serving_rest [OF assms, of w'] that by (simp add: refreshed_def blank)
  have got: "refreshed world_view world_rest ParseInt (read_key rt ?r) (type_answer uuid d u) w (snd ?get)"
    using proc_cache.after_get [where rt = rt, OF ag] by simp
  have hit: "type_answer uuid d u = Some t" if "fst ?get \<noteq> []" "ParseInt (fst ?get) = Some t" for t
    using ag that proc_cache.get_value [where rt = rt and k = "read_key rt ?r" and s = w]
    by (auto simp: agrees_def simp del: read_key.simps split: option.splits)
  have range: "int64_range t" if "type_answer uuid d u = Some t" for t
    using that assms unfolding type_answer_def pg_GetUpdateType_def
    by (auto simp: bindE_run parse_id_def wrapped_run getUpdateType_def read_one_def update_on_branch_def serving_world_def
        dest!: find_Some_mem split: option.splits)
  have put: "refreshed world_view world_rest ParseInt (read_key rt ?r) (type_answer uuid d u) w
      (cacheSet world_cache (read_key rt ?r) (FormatInt t) (Some updateTypeCacheTTLSeconds) (snd ?get))" if "type_answer uuid d u = Some t" for t
    using proc_cache.after_put [where rt = rt and ttl = updateTypeCacheTTLSeconds and decode = ParseInt and p = "FormatInt t"]
      that range [OF that] by (simp add: updateTypeCacheTTLSeconds_def ImmutableCacheTTLSeconds_def ParseInt_FormatInt)
  have db': "wdb (snd ?get) = d"
    using got serving_rest [OF assms] by (simp add: refreshed_def)
  obtain r0 where r0: "pg_GetUpdateType uuid u d = (r0, d)"
    using pg_type_reads by (metis prod.collapse)
  have stored: "on_db (pg_GetUpdateType uuid u) (snd ?get) = (r0, snd ?get)"
    using on_db_read [of "pg_GetUpdateType uuid u" "snd ?get"] r0 db' by (simp del: read_key.simps)
  show ?thesis
  proof (cases "fst ?get \<noteq> [] \<and> ParseInt (fst ?get) \<noteq> None")
    case True
    then show ?thesis
      using hit keep [OF got] by (auto simp: cachedUpdateType_def bindE_run cached_get_run key simp del: read_key.simps)
  next
    case False
    then show ?thesis
      using keep [OF got] keep [OF put] r0 stored
      by (cases r0) (auto simp: cachedUpdateType_def bindE_run cached_get_run cached_put_run key pg_update_repository_def
          type_answer_def simp del: read_key.simps split: option.splits)
  qed
qed

text \<open>A process whose cache agrees with its database satisfies the interface of the resolution.\<close>

definition uuid_answer :: "uuid_parser \<Rightarrow> uuid_parser \<Rightarrow> db \<Rightarrow> string \<Rightarrow> string \<Rightarrow> Update option" where
  "uuid_answer uuid scan d app i = found (fst (pg_GetUpdateByUUID uuid scan app i d))"

interpretation process: asset_reads "world_runtime rt" "pg_service uuid scan rt blobs patches" "serving_world uuid rt d as"
    app channel runtime platform "\<lambda>b. envelope_answer uuid d app b runtime platform" "effective_surfing uuid d app channel"
    "uuid_answer uuid scan d app" "\<lambda>b i. fst (pg_GetCheckedUpdate uuid app b runtime i d)"
  for rt uuid scan blobs patches d as app channel runtime platform
proof (unfold_locales, goal_cases)
  case (1 s b)
  then show ?case
    using serving_envelope by (simp add: pg_service_def)
next
  case (2 s)
  then show ?case
    using serving_surfing by (simp add: pg_service_def)
next
  case (3 s i)
  then have "wdb s = d"
    by (simp add: serving_world_def)
  with 3 show ?case
    by (simp add: pg_service_def pg_update_repository_def on_db_read pg_uuid_reads uuid_answer_def)
next
  case 4
  then show ?case
    by (simp add: pg_service_def)
next
  case (5 s b i)
  then have "wdb s = d"
    by (simp add: serving_world_def)
  with 5 show ?case
    by (simp add: pg_service_def pg_update_repository_def on_db_read pg_checked_reads)
qed

end
