(* ===== verification/ServedUpdates.thy ===== *)
theory ServedUpdates
  imports World
begin

text \<open>
  What a device receives from a server process, end to end: the manifest and asset resolution of the protocol
  service, run over the cached Postgres repositories, against the contents of the database.
\<close>

section \<open>The decision as a function of the database\<close>

definition device_request :: "ManifestRequestParams \<Rightarrow> ChannelResolution \<Rightarrow> BranchResolutionRequest" where
  "device_request params m = resolution_request (MrAppID params) (MrChannelName params) (MrClientID params)
     (MrPlatform params) (MrRuntimeVersion params) m (XpremBranch params)"

definition device_served :: "uuid_parser \<Rightarrow> uuid_parser \<Rightarrow> world Runtime \<Rightarrow> db \<Rightarrow> ManifestRequestParams \<Rightarrow> ChannelResolution
    \<Rightarrow> string \<times> Update option \<times> BlockedSurf option" where
  "device_served uuid scan rt d params m = resolve_spec (sha256 rt) (uuidParse rt)
     (\<lambda>b. envelope_answer uuid d (MrAppID params) b (MrRuntimeVersion params) (MrPlatform params))
     (uuid_answer uuid scan d (MrAppID params)) (effective_surfing uuid d (MrAppID params) (MrChannelName params))
     (device_request params m) (SurfBlockTokens params) (RecentFailedUpdateIDs params)"

definition device_decision :: "uuid_parser \<Rightarrow> uuid_parser \<Rightarrow> world Runtime \<Rightarrow> world \<Rightarrow> ManifestRequestParams
    \<Rightarrow> (err, UpdateDecision) result" where
  "device_decision uuid scan rt w params = (case app_answer uuid w (MrAppID params) of
     None \<Rightarrow> Inl (ExpoProtocolError 404 (Msg ''Unknown app id'' []))
   | Some _ \<Rightarrow> (case mapping_answer uuid (wdb w) (MrAppID params) (MrChannelName params) of
       None \<Rightarrow> Inl (ExpoProtocolError 404 (Msg ''No branch mapping found'' []))
     | Some m \<Rightarrow> (case device_served uuid scan rt (wdb w) params m of
         (b, None, k) \<Rightarrow> Inr \<lparr>DecUpdate = None, DecBranchName = b, DecUpdateType = 0, DecBlockedSurf = k\<rparr>
       | (b, Some u, k) \<Rightarrow> (case type_answer uuid (wdb w) u of
           None \<Rightarrow> Inl (ExpoProtocolError 500 (Msg ''Error determining update type'' []))
         | Some t \<Rightarrow> Inr \<lparr>DecUpdate = Some u, DecBranchName = b, DecUpdateType = t, DecBlockedSurf = k\<rparr>))))"

lemma coherent_metrics: "coherent uuid rt (w\<lparr>wmetrics := ms\<rparr>) = coherent uuid rt w"
proof -
  have "agreeing uuid rt (w\<lparr>wmetrics := ms\<rparr>) r = agreeing uuid rt w r" for r
    by (cases r) (simp_all add: agrees_def world_view_def app_answer_def pg_GetAppByID_def split: option.splits)
  then show ?thesis
    by (simp add: coherent_def)
qed

lemma serving_tracked:
  assumes "serving_world uuid rt d as w"
  shows "\<exists>w'. track_poll (pg_service uuid scan rt blobs patches) params b w = (Inr (), w') \<and> serving_world uuid rt d as w'"
  using assms by (simp add: track_poll_def tracked_def pg_service_def bindE_run serving_world_def coherent_metrics)

lemma serving_keeps_answers:
  assumes "serving_world uuid rt d as w" and "serving_world uuid rt d as w'"
  shows "app_answer uuid w' a = app_answer uuid w a"
  using assms by (simp add: serving_world_def app_answer_def pg_GetAppByID_def split: option.splits)

text \<open>The part of the handler after the branch has been resolved.\<close>

lemma decision_tail:
  assumes "serving_world uuid rt d as w"
  shows "\<exists>w'. finish_decision (world_runtime rt) (pg_service uuid scan rt blobs patches) params b u k w
      = (case u of None \<Rightarrow> Inr \<lparr>DecUpdate = None, DecBranchName = b, DecUpdateType = 0, DecBlockedSurf = k\<rparr>
         | Some u \<Rightarrow> (case type_answer uuid d u of
             None \<Rightarrow> Inl (ExpoProtocolError 500 (Msg ''Error determining update type'' []))
           | Some t \<Rightarrow> Inr \<lparr>DecUpdate = Some u, DecBranchName = b, DecUpdateType = t, DecBlockedSurf = k\<rparr>), w')
    \<and> serving_world uuid rt d as w'"
proof -
  obtain w2 where w2: "track_poll (pg_service uuid scan rt blobs patches) params b w = (Inr (), w2)" "serving_world uuid rt d as w2"
    using serving_tracked [OF assms] by blast
  have repo: "updateRepo (pg_service uuid scan rt blobs patches) = pg_update_repository uuid scan"
    by (simp add: pg_service_def)
  show ?thesis
  proof (cases u)
    case None
    then show ?thesis
      using w2 by (simp add: finish_decision_def bindE_run)
  next
    case (Some x)
    obtain w3 e where w3: "serving_world uuid rt d as w3" "cachedUpdateType (world_runtime rt) (pg_update_repository uuid scan) x w2
        = (case type_answer uuid d x of None \<Rightarrow> Inl e | Some t \<Rightarrow> Inr t, w3)"
      using serving_type [OF w2(2)] by blast
    then show ?thesis
      using Some w2 by (simp add: finish_decision_def repo bindE_run mapErr_run split: option.split)
  qed
qed

section \<open>The rows behind an answer\<close>

definition row_update :: "string \<Rightarrow> string \<Rightarrow> string \<Rightarrow> update_row \<Rightarrow> Update" where
  "row_update app b v u = with_uuid u (as_update app b v u)"

lemma row_update_fields [simp]:
  "UpdateId (row_update app b v u) = FormatInt (u_id u)" "Branch (row_update app b v u) = b" "AppId (row_update app b v u) = app"
  "RuntimeVersion (row_update app b v u) = v"
  by (simp_all add: row_update_def with_uuid_def as_update_def split: option.split)

lemma envelope_rows:
  assumes "envelope_answer uuid d app b v p = Some e"
  obtains u where "newest (filter (serving d (uuid app) b v p) (updates d)) = Some u" and "Latest e = row_update app b v u"
    and "RolloutPercentage e = u_rollout u"
    and "Control e = map_option (row_update app b v) (find (\<lambda>c. u_branch c = u_branch u \<and> Some (u_id c) = u_control u) (updates d))"
  using assms
  by (auto simp: envelope_answer_def pg_GetLatestUpdateWithRollout_def getLatestUpdateWithRollout_def bindE_run read_one_optional
      found_def ToPgUUID_def row_update_def [abs_def])

text \<open>The control of an active rollout is a checked row of the same target without a rollout of its own.\<close>

lemma control_row:
  assumes "reachable d" and "u \<in> set (updates d)" and "active u"
    and "find (\<lambda>c. u_branch c = u_branch u \<and> Some (u_id c) = u_control u) (updates d) = Some c"
  shows "c \<in> set (updates d)" and "target_key c = target_key u" and "u_checked c \<noteq> None" and "u_rollout c = None"
proof -
  have inv: "schema_ok d" "controls (updates d)"
    using reachable_inv [OF assms(1)] by (simp_all add: db_inv_def inv_at_def)
  have c: "c \<in> set (updates d)" "u_branch c = u_branch u" "Some (u_id c) = u_control u"
    using find_Some_mem [OF assms(4)] by auto
  have "u_control u = map_option u_id (newest (others (updates d) u))"
    using inv(2) assms(2,3) by (auto simp: controls_def active_def control_exact_def)
  then obtain n where n: "newest (others (updates d) u) = Some n" "u_id n = u_id c"
    using c(3) by (cases "newest (others (updates d) u)") auto
  have n': "n \<in> set (updates d)" "target_key n = target_key u" "u_id n \<noteq> u_id u" "u_checked n \<noteq> None"
    using newest_mem [OF n(1)] by (auto simp: others_def)
  have "n = c"
    using schema_update_id [OF inv(1)] n' n(2) c by (auto simp: target_key_def)
  then show "c \<in> set (updates d)" "target_key c = target_key u" "u_checked c \<noteq> None"
    using n' by auto
  show "u_rollout c = None"
  proof (rule ccontr)
    assume "u_rollout c \<noteq> None"
    then have "active n"
      using n'(4) \<open>n = c\<close> by (simp add: active_def)
    then show False
      using schema_active [OF inv(1) n'(1) assms(2) _ assms(3) n'(2)] n'(3) by simp
  qed
qed

lemma device_row:
  assumes "reachable d" and "envelope_answer uuid d app b v p = Some e" and "device_update sha app b v client e = Some x"
  obtains row where "row \<in> set (updates d)" and "serving d (uuid app) b v p row" and "x = row_update app b v row"
    and "pred_option (InBucket sha client (UpdateSalt app b v (FormatInt (u_id row)))) (u_rollout row)"
proof -
  obtain u where u: "newest (filter (serving d (uuid app) b v p) (updates d)) = Some u" "Latest e = row_update app b v u"
      "RolloutPercentage e = u_rollout u"
      "Control e = map_option (row_update app b v) (find (\<lambda>c. u_branch c = u_branch u \<and> Some (u_id c) = u_control u) (updates d))"
    using envelope_rows [OF assms(2)] .
  have mem: "u \<in> set (updates d)" "serving d (uuid app) b v p u"
    using newest_mem [OF u(1)] by auto
  show ?thesis
  proof (cases "x = Latest e \<and> pred_option (InBucket sha client (UpdateSalt app b v (FormatInt (u_id u)))) (u_rollout u)")
    case True
    then show ?thesis
      using that mem u(2) by auto
  next
    case False
    then have rolled: "u_rollout u \<noteq> None" "Control e = Some x"
      using assms(3) u(2,3) by (auto simp: device_update_def split: option.splits if_splits)
    then have act: "active u"
      using mem(2) by (simp add: active_def serving_def)
    obtain c where c: "find (\<lambda>c. u_branch c = u_branch u \<and> Some (u_id c) = u_control u) (updates d) = Some c" "x = row_update app b v c"
      using rolled(2) u(4) by auto
    note cr = control_row [OF assms(1) mem(1) act c(1)]
    have "serving d (uuid app) b v p c"
      using mem(2) cr(2,3) by (simp add: serving_def target_key_def on_branch_def on_runtime_def)
    then show ?thesis
      using that cr c(2) by auto
  qed
qed

lemma served_rows:
  assumes "reachable d" and "device_served uuid scan rt d params m = (b, Some x, k)"
  obtains row where "row \<in> set (updates d)" and "serving d (uuid (MrAppID params)) b (MrRuntimeVersion params) (MrPlatform params) row"
    and "x = row_update (MrAppID params) b (MrRuntimeVersion params) row"
    and "pred_option (InBucket (sha256 rt) (MrClientID params)
          (UpdateSalt (MrAppID params) b (MrRuntimeVersion params) (FormatInt (u_id row)))) (u_rollout row)"
proof -
  obtain e where e: "envelope_answer uuid d (MrAppID params) b (MrRuntimeVersion params) (MrPlatform params) = Some e"
      "device_update (sha256 rt) (MrAppID params) b (MrRuntimeVersion params) (MrClientID params) e = Some x"
    using resolve_spec_served(2) [OF assms(2) [unfolded device_served_def] refl]
    by (auto simp: device_request_def resolution_request_def)
  show ?thesis
    using device_row [OF assms(1) e] that .
qed

lemma served_branch:
  assumes "device_served uuid scan rt d params m = (b, u, k)"
  shows "channel_serves m \<lparr>Enabled = fst (effective_surfing uuid d (MrAppID params) (MrChannelName params)),
    Pattern = snd (effective_surfing uuid d (MrAppID params) (MrChannelName params))\<rparr> b"
  using resolve_spec_served(1) [OF assms [unfolded device_served_def]]
  by (auto simp: channel_serves_def device_request_def resolution_request_def surfing_spec_def split: if_splits)

text \<open>A serving row has the type the repository reports for it, and a device of a target with a serving row goes
  without an update only as the odd one out of a rollout that has no control.\<close>

lemma type_of_row:
  assumes "reachable d" and "row \<in> set (updates d)" and "serving d (uuid app) b v p row" and "int64_range (u_id row)"
  shows "type_answer uuid d (row_update app b v row) = Some (u_type row)"
proof -
  have ok: "schema_ok d"
    using reachable_inv [OF assms(1)] by (simp add: db_inv_def inv_at_def)
  have on: "on_branch d (uuid app) b row"
    using assms(3) by (simp add: serving_def)
  obtain x where x: "update_on_branch d (uuid app) b (u_id row) = Some x"
    using assms(2) on unfolding update_on_branch_def by (metis (mono_tags, lifting) find_None_iff option.exhaust)
  then have x': "x \<in> set (updates d)" "u_id x = u_id row" "on_branch d (uuid app) b x"
    using find_Some_mem [OF x [unfolded update_on_branch_def]] by auto
  have "u_branch x = u_branch row"
    using on x'(3) on_branch_named [OF ok] by (metis option.inject)
  then have "x = row"
    using schema_update_id [OF ok x'(1) assms(2)] x'(2) by simp
  then show ?thesis
    using x assms(4)
    by (simp add: type_answer_def pg_GetUpdateType_def parse_id_def ParseInt_FormatInt bindE_run wrapped_run getUpdateType_def
        read_one_def ToPgUUID_def)
qed

lemma envelope_none:
  "envelope_answer uuid d app b v p = None \<longleftrightarrow> newest (filter (serving d (uuid app) b v p) (updates d)) = None"
  by (simp add: envelope_answer_def pg_GetLatestUpdateWithRollout_def getLatestUpdateWithRollout_def bindE_run read_one_optional
      found_def ToPgUUID_def split: option.split)

lemma control_found:
  assumes "reachable d" and "u \<in> set (updates d)" and "u_control u \<noteq> None"
  shows "find (\<lambda>c. u_branch c = u_branch u \<and> Some (u_id c) = u_control u) (updates d) \<noteq> None"
proof -
  have "refs_ok d"
    using reachable_inv [OF assms(1)] by (simp add: db_inv_def inv_at_def schema_ok_def)
  then have "pred_option (\<lambda>i. (u_branch u, i) \<in> (\<lambda>u. (u_branch u, u_id u)) ` set (updates d)) (u_control u)"
    using assms(2) by (simp add: refs_ok_def list_all_iff)
  then obtain c where "c \<in> set (updates d)" "u_branch c = u_branch u" "Some (u_id c) = u_control u"
    using assms(3) by auto
  then show ?thesis
    by (metis (mono_tags, lifting) find_None_iff)
qed

lemma device_without_update:
  assumes "reachable d" and "device_served uuid scan rt d params m = (b, None, k)"
  shows "filter (serving d (uuid (MrAppID params)) (BranchName m) (MrRuntimeVersion params) (MrPlatform params)) (updates d) = []
    \<or> (\<exists>u \<in> set (updates d). serving d (uuid (MrAppID params)) b (MrRuntimeVersion params) (MrPlatform params) u
        \<and> active u \<and> u_control u = None)"
proof -
  let ?sv = "\<lambda>b. serving d (uuid (MrAppID params)) b (MrRuntimeVersion params) (MrPlatform params)"
  let ?env = "\<lambda>b. envelope_answer uuid d (MrAppID params) b (MrRuntimeVersion params) (MrPlatform params)"
  consider "?env (BranchName m) = None"
    | e where "?env b = Some e" "device_update (sha256 rt) (MrAppID params) b (MrRuntimeVersion params) (MrClientID params) e = None"
    using resolve_spec_none [OF assms(2) [unfolded device_served_def]] by (auto simp: device_request_def resolution_request_def)
  then show ?thesis
  proof cases
    case 1
    then show ?thesis
      by (simp add: envelope_none)
  next
    case 2
    obtain u where u: "newest (filter (?sv b) (updates d)) = Some u" "RolloutPercentage e = u_rollout u"
        "Control e = map_option (row_update (MrAppID params) b (MrRuntimeVersion params))
           (find (\<lambda>c. u_branch c = u_branch u \<and> Some (u_id c) = u_control u) (updates d))"
      using envelope_rows [OF 2(1)] .
    have mem: "u \<in> set (updates d)" "?sv b u"
      using newest_mem [OF u(1)] by auto
    have "u_rollout u \<noteq> None" "Control e = None"
      using 2(2) u(2) by (auto simp: device_update_def split: option.splits if_splits)
    then have "active u" "u_control u = None"
      using u(3) mem(2) control_found [OF assms(1) mem(1)] by (simp_all add: active_def serving_def, fastforce)
    then show ?thesis
      using mem by blast
  qed
qed

lemma pinned_row:
  assumes "fst (pg_GetCheckedUpdate uuid app b v i d) = Inr (Some x)"
  obtains row where "row \<in> set (updates d)" and "on_branch d (uuid app) b row" and "u_checked row \<noteq> None" and "x = as_update app b v row"
  using assms
  by (auto simp: pg_GetCheckedUpdate_def parse_id_def getUpdateByBranchNameAndRuntime_def bindE_run read_one_optional ToPgUUID_def
      dest: find_Some_mem split: option.splits if_splits)

lemma requested_row:
  assumes "schema_ok d" and "uuid_answer uuid scan d app i = Some x"
  obtains row where "row \<in> set (updates d)" and "on_branch d (uuid app) (Branch x) row" and "u_checked row \<noteq> None"
    and "UpdateId x = FormatInt (u_id row)" and "AppId x = app"
proof -
  obtain row b v where r: "row \<in> set (updates d)" "u_checked row \<noteq> None"
      "list_ex (\<lambda>b. b_id b = u_branch row \<and> Some (b_app b) = uuid app) (branches d)"
      "branch_by_id d (u_branch row) = Some b" "x = as_update app (b_name b) v row"
    using assms(2)
    by (auto simp: uuid_answer_def pg_GetUpdateByUUID_def getUpdateByUUID_def bindE_run read_one_optional ToPgUUID_def found_def
        bind_eq_Some_conv dest!: find_Some_mem split: option.splits)
  have "Some (b_app b) = uuid app"
    using r(3) branch_by_id_Some [OF r(4)] schema_branch_id [OF assms(1), of _ b] unfolding list_ex_iff by auto
  then have "on_branch d (uuid app) (b_name b) row"
    using branch_by_id_Some [OF r(4)] by (auto simp: on_branch_def list_ex_iff)
  then show ?thesis
    using that r by (simp add: as_update_def)
qed

definition asset_answer :: "uuid_parser \<Rightarrow> uuid_parser \<Rightarrow> world Runtime \<Rightarrow> db \<Rightarrow> AssetResolutionParams \<Rightarrow> ChannelResolution
    \<Rightarrow> string \<times> Update option" where
  "asset_answer uuid scan rt d params m = asset_spec (sha256 rt) (uuidParse rt) True
     (\<lambda>b. envelope_answer uuid d (ArAppID params) b (ArRuntimeVersion params) (ArPlatform params))
     (uuid_answer uuid scan d (ArAppID params)) (\<lambda>b i. fst (pg_GetCheckedUpdate uuid (ArAppID params) b (ArRuntimeVersion params) i d))
     (effective_surfing uuid d (ArAppID params) (ArChannelName params)) params m"

definition surfing_of :: "uuid_parser \<Rightarrow> db \<Rightarrow> string \<Rightarrow> string \<Rightarrow> BranchSurfing" where
  "surfing_of uuid d app ch = \<lparr>Enabled = fst (effective_surfing uuid d app ch), Pattern = snd (effective_surfing uuid d app ch)\<rparr>"

lemma asset_tiers:
  assumes "asset_spec sha parse True envelope lookup checked surfing params m = (b, x)"
  obtains i y where "b = ArBranch params" "x = Some y" "channel_serves m \<lparr>Enabled = fst surfing, Pattern = snd surfing\<rparr> b"
        "checked b i = Inr (Some y)"
    | i y where "b = Branch y" "x = Some y" "channel_serves m \<lparr>Enabled = fst surfing, Pattern = snd surfing\<rparr> b" "lookup i = Some y"
    | "asset_fallback sha parse envelope lookup surfing params m = (b, x)"
proof -
  let ?pinned = "if ArUpdateID params \<noteq> [] \<and> ArBranch params \<noteq> [] \<and> channel_serves m \<lparr>Enabled = fst surfing, Pattern = snd surfing\<rparr> (ArBranch params)
      then case checked (ArBranch params) (ArUpdateID params) of Inr u \<Rightarrow> u | Inl _ \<Rightarrow> None else None"
  let ?requested = "if RequestedUpdateID params \<noteq> [] then case lookup (RequestedUpdateID params) of
      Some u \<Rightarrow> if channel_serves m \<lparr>Enabled = fst surfing, Pattern = snd surfing\<rparr> (Branch u) then Some u else None | None \<Rightarrow> None else None"
  show ?thesis
  proof (cases ?pinned)
    case (Some u)
    then have "(b, x) = (ArBranch params, Some u)"
      using assms by (simp add: asset_spec_def split: if_splits)
    with Some show ?thesis
      by (intro that(1)) (auto split: if_splits sum.splits)
  next
    case pinned: None
    show ?thesis
    proof (cases ?requested)
      case (Some u)
      then have "(b, x) = (Branch u, Some u)"
        using assms pinned by (simp add: asset_spec_def)
      with Some show ?thesis
        by (intro that(2)) (auto split: if_splits option.splits)
    next
      case None
      with assms pinned show ?thesis
        by (intro that(3)) (simp add: asset_spec_def)
    qed
  qed
qed

lemma asset_fallback_rows:
  assumes "reachable d" and "asset_fallback (sha256 rt) (uuidParse rt)
      (\<lambda>b. envelope_answer uuid d (ArAppID params) b (ArRuntimeVersion params) (ArPlatform params))
      (uuid_answer uuid scan d (ArAppID params)) (effective_surfing uuid d (ArAppID params) (ArChannelName params)) params m = (b, x)"
  shows "channel_serves m (surfing_of uuid d (ArAppID params) (ArChannelName params)) b"
    and "x = Some u \<Longrightarrow> \<exists>row \<in> set (updates d). on_branch d (uuid (ArAppID params)) b row \<and> u_checked row \<noteq> None
          \<and> u = row_update (ArAppID params) b (ArRuntimeVersion params) row"
proof -
  let ?req = "resolution_request (ArAppID params) (ArChannelName params) (ArClientID params) (ArPlatform params)
          (ArRuntimeVersion params) m (ArBranch params)"
  obtain k where r: "resolve_spec (sha256 rt) (uuidParse rt) (\<lambda>b. envelope_answer uuid d (ArAppID params) b (ArRuntimeVersion params) (ArPlatform params))
      (uuid_answer uuid scan d (ArAppID params)) (effective_surfing uuid d (ArAppID params) (ArChannelName params)) ?req [] [] = (b, x, k)"
    using assms(2) by (auto simp: asset_fallback_def split: prod.splits)
  show "channel_serves m (surfing_of uuid d (ArAppID params) (ArChannelName params)) b"
    using resolve_spec_served(1) [OF r]
    by (auto simp: channel_serves_def resolution_request_def surfing_spec_def surfing_of_def split: if_splits)
  assume "x = Some u"
  from resolve_spec_served(2) [OF r this] obtain e where
    "envelope_answer uuid d (ArAppID params) b (ArRuntimeVersion params) (ArPlatform params) = Some e"
    "device_update (sha256 rt) (ArAppID params) b (ArRuntimeVersion params) (ArClientID params) e = Some u"
    by (auto simp: resolution_request_def)
  from device_row [OF assms(1) this]
  show "\<exists>row \<in> set (updates d). on_branch d (uuid (ArAppID params)) b row \<and> u_checked row \<noteq> None
          \<and> u = row_update (ArAppID params) b (ArRuntimeVersion params) row"
    by (metis serving_def)
qed

lemma asset_rows:
  assumes "reachable d" and "asset_answer uuid scan rt d params m = (b, x)"
  shows "channel_serves m (surfing_of uuid d (ArAppID params) (ArChannelName params)) b"
    and "x = Some u \<Longrightarrow> \<exists>row \<in> set (updates d). on_branch d (uuid (ArAppID params)) b row \<and> u_checked row \<noteq> None
          \<and> UpdateId u = FormatInt (u_id row) \<and> Branch u = b \<and> AppId u = ArAppID params"
proof -
  have ok: "schema_ok d"
    using reachable_inv [OF assms(1)] by (simp add: db_inv_def inv_at_def)
  consider (pinned) i y where "b = ArBranch params" "x = Some y" "channel_serves m (surfing_of uuid d (ArAppID params) (ArChannelName params)) b"
        "fst (pg_GetCheckedUpdate uuid (ArAppID params) b (ArRuntimeVersion params) i d) = Inr (Some y)"
    | (requested) i y where "b = Branch y" "x = Some y" "channel_serves m (surfing_of uuid d (ArAppID params) (ArChannelName params)) b"
        "uuid_answer uuid scan d (ArAppID params) i = Some y"
    | (fallback) "asset_fallback (sha256 rt) (uuidParse rt)
      (\<lambda>b. envelope_answer uuid d (ArAppID params) b (ArRuntimeVersion params) (ArPlatform params))
      (uuid_answer uuid scan d (ArAppID params)) (effective_surfing uuid d (ArAppID params) (ArChannelName params)) params m = (b, x)"
    using asset_tiers [OF assms(2) [unfolded asset_answer_def], folded surfing_of_def] that by metis
  note tiers = this
  show "channel_serves m (surfing_of uuid d (ArAppID params) (ArChannelName params)) b"
    using tiers asset_fallback_rows(1) [OF assms(1)] by cases auto
  assume u: "x = Some u"
  show "\<exists>row \<in> set (updates d). on_branch d (uuid (ArAppID params)) b row \<and> u_checked row \<noteq> None
          \<and> UpdateId u = FormatInt (u_id row) \<and> Branch u = b \<and> AppId u = ArAppID params"
    using tiers
  proof cases
    case pinned
    obtain row where "row \<in> set (updates d)" "on_branch d (uuid (ArAppID params)) b row" "u_checked row \<noteq> None"
        "y = as_update (ArAppID params) b (ArRuntimeVersion params) row"
      using pinned_row [OF pinned(4)] by blast
    then show ?thesis
      using u pinned(2) by (auto simp: as_update_def)
  next
    case requested
    obtain row where "row \<in> set (updates d)" "on_branch d (uuid (ArAppID params)) (Branch y) row" "u_checked row \<noteq> None"
        "UpdateId y = FormatInt (u_id row)" "AppId y = ArAppID params"
      using requested_row [OF ok requested(4)] .
    then show ?thesis
      using u requested(1,2) by auto
  next
    case fallback
    then show ?thesis
      using u asset_fallback_rows(2) [OF assms(1) fallback u] by auto
  qed
qed

section \<open>The manifest request\<close>

lemma manifest_read:
  assumes "serving_world uuid rt d as w"
  shows "\<exists>w'. ResolveUpdateForDevice (world_runtime rt) (pg_service uuid scan rt blobs patches) params w
      = (device_decision uuid scan rt w params, w') \<and> serving_world uuid rt d as w'"
proof -
  let ?sv = "pg_service uuid scan rt blobs patches"
  let ?app = "MrAppID params" and ?ch = "MrChannelName params"
  have fields: "appRepo ?sv = pg_app_repository uuid" "channelRepo ?sv = pg_channel_repository uuid"
      "updateRepo ?sv = pg_update_repository uuid scan"
    by (simp_all add: pg_service_def)
  have d: "wdb w = d"
    using assms by (simp add: serving_world_def)
  obtain w1 e where w1: "serving_world uuid rt d as w1" "cachedAppConfig (world_runtime rt) (pg_app_repository uuid) ?app w
      = (case app_answer uuid w ?app of None \<Rightarrow> Inl e | Some c \<Rightarrow> Inr c, w1)"
    using serving_app [OF assms] by blast
  obtain w2 where w2: "cachedChannelMapping (world_runtime rt) (pg_channel_repository uuid) ?app ?ch w1
      = (Inr (mapping_answer uuid d ?app ?ch), w2)" "serving_world uuid rt d as w2"
    using serving_mapping [OF w1(1)] by blast
  show ?thesis
  proof (cases "app_answer uuid w ?app")
    case None
    then show ?thesis
      using w1 by (auto simp: ResolveUpdateForDevice_def fields bindE_run mapErr_run device_decision_def)
  next
    case (Some c)
    note app = this
    show ?thesis
    proof (cases "mapping_answer uuid d ?app ?ch")
      case None
      then show ?thesis
        using w1 w2 app by (auto simp: ResolveUpdateForDevice_def fields bindE_run mapErr_run device_decision_def d)
    next
      case (Some m)
      obtain b u k where s: "device_served uuid scan rt d params m = (b, u, k)"
        by (cases "device_served uuid scan rt d params m") auto
      obtain w3 where w3: "resolveUpdateAcrossBranches (world_runtime rt) ?sv (device_request params m) (SurfBlockTokens params)
          (RecentFailedUpdateIDs params) w2 = (Inr (b, u, k), w3)" "serving_world uuid rt d as w3"
        using process.resolve_read [OF w2(2), where req = "device_request params m" and app = "?app" and channel = "?ch"
            and runtime = "MrRuntimeVersion params" and platform = "MrPlatform params" and scan = scan and blobs = blobs and patches = patches
            and tokens = "SurfBlockTokens params" and failed = "RecentFailedUpdateIDs params"] s
        by (auto simp: device_request_def resolution_request_def device_served_def)
      show ?thesis
        using w1(2) w2(1) w3(1) app Some s decision_tail [OF w3(2), where params = params and b = b and u = u and k = k]
        by (cases u) (simp_all add: ResolveUpdateForDevice_def fields bindE_run mapErr_run device_decision_def d flip: device_request_def)
    qed
  qed
qed

section \<open>Properties\<close>

text \<open>C1. Caching is transparent.  While nobody writes, a process whose cache agrees with its database answers a
  manifest request with exactly the decision the database determines, for every request and on every branch of
  the handler (unknown app, unmapped channel, no update, a refused surf, an update with its type), and its cache
  still agrees afterwards, whatever was cached, expired or missing before.\<close>

theorem manifest_matches_database:
  assumes "serving_world uuid rt d as w"
  shows "\<exists>w'. ResolveUpdateForDevice (world_runtime rt) (pg_service uuid scan rt blobs patches) params w
      = (device_decision uuid scan rt w params, w') \<and> serving_world uuid rt d as w'"
  using assms by (rule manifest_read)

text \<open>C2. Every update a device is told to run is one its channel may serve.  On a reachable database, in a process whose
  cache holds no stale entry (\<^const>\<open>serving_world\<close>: entries may be missing or expired, but those that live agree with the
  database), an update in the decision is a checked update of the app, of the served branch, and of the runtime
  version and platform the device asked for; the branch is the channel's own, its rollout branch or one of its
  surfing pattern; and an update under a rollout is only given to the devices of the rollout's bucket.  While an entry
  is stale, which the code accepts up to its time to live, a device may be served what the database said before.\<close>

theorem served_update_sound:
  assumes "reachable d" and "serving_world uuid rt d as w"
    and "ResolveUpdateForDevice (world_runtime rt) (pg_service uuid scan rt blobs patches) params w = (Inr dec, w')"
    and "DecUpdate dec = Some u"
  shows "\<exists>m row. mapping_answer uuid d (MrAppID params) (MrChannelName params) = Some m
    \<and> channel_serves m (surfing_of uuid d (MrAppID params) (MrChannelName params)) (DecBranchName dec)
    \<and> row \<in> set (updates d)
    \<and> serving d (uuid (MrAppID params)) (DecBranchName dec) (MrRuntimeVersion params) (MrPlatform params) row
    \<and> u = row_update (MrAppID params) (DecBranchName dec) (MrRuntimeVersion params) row
    \<and> pred_option (InBucket (sha256 rt) (MrClientID params)
        (UpdateSalt (MrAppID params) (DecBranchName dec) (MrRuntimeVersion params) (FormatInt (u_id row)))) (u_rollout row)"
proof -
  have d: "wdb w = d" "device_decision uuid scan rt w params = Inr dec"
    using assms(2,3) manifest_read [OF assms(2), of scan blobs patches params] by (auto simp: serving_world_def)
  obtain m b k where m: "mapping_answer uuid d (MrAppID params) (MrChannelName params) = Some m"
      "device_served uuid scan rt d params m = (b, Some u, k)" "DecBranchName dec = b"
    using d assms(4) by (auto simp: device_decision_def split: option.splits prod.splits)
  show ?thesis
    using served_rows [OF assms(1) m(2)] served_branch [OF m(2)] m(1,3) unfolding surfing_of_def by metis
qed

text \<open>C6. No device is stranded.  On a reachable database, in a process whose cache agrees with it, a device of a known app, on
  a channel mapped to a branch with a checked update for its runtime version and platform, receives an update, whatever it asks to surf,
  whatever it refuses and whichever buckets it falls in, as long as every active rollout has a control to fall back on and
  update ids fit an \<^verbatim>\<open>int64\<close>, the type of their column.\<close>

theorem device_gets_update:
  assumes "reachable d" and "serving_world uuid rt d as w"
    and "app_answer uuid w (MrAppID params) \<noteq> None"
    and "mapping_answer uuid d (MrAppID params) (MrChannelName params) = Some m"
    and "\<exists>row \<in> set (updates d). serving d (uuid (MrAppID params)) (BranchName m) (MrRuntimeVersion params) (MrPlatform params) row"
    and "\<forall>u \<in> set (updates d). int64_range (u_id u) \<and> (active u \<longrightarrow> u_control u \<noteq> None)"
  shows "\<exists>dec w' u. ResolveUpdateForDevice (world_runtime rt) (pg_service uuid scan rt blobs patches) params w = (Inr dec, w')
    \<and> DecUpdate dec = Some u"
proof -
  obtain b x k where s: "device_served uuid scan rt d params m = (b, x, k)"
    by (cases "device_served uuid scan rt d params m") auto
  obtain u where u: "x = Some u"
    using device_without_update [OF assms(1), of uuid scan rt params m b k] s assms(5,6)
    by (cases x) (auto simp: filter_empty_conv)
  obtain row where row: "row \<in> set (updates d)" "serving d (uuid (MrAppID params)) b (MrRuntimeVersion params) (MrPlatform params) row"
      "u = row_update (MrAppID params) b (MrRuntimeVersion params) row"
    using served_rows [OF assms(1) s [unfolded u]] by blast
  have "type_answer uuid d u = Some (u_type row)"
    using type_of_row [where uuid = uuid and app = "MrAppID params", OF assms(1) row(1,2)] assms(6) row(1,3) by simp
  then show ?thesis
    using manifest_read [OF assms(2), of scan blobs patches params] assms(2-4) s u
    by (auto simp: device_decision_def serving_world_def)
qed

text \<open>C7. Assets requested by file name never leak between branches.  On a reachable database, in a process whose cache agrees
  with it, \<^verbatim>\<open>resolveAssetUpdate\<close>, which chooses the update whose folder such a request reads, always answers, and
  whatever branch and update the request names, the update it chooses is a checked update of the app on a branch that the
  request's channel may serve, and that branch is the one reported.  Requests by content hash do not come here: they read the app's
  blobs (\<^verbatim>\<open>resolveBlobAsset\<close>), which no branch or update owns.\<close>

theorem asset_update_confined:
  assumes "reachable d" and "serving_world uuid rt d as w"
  shows "\<exists>b x w'. resolveAssetUpdate (world_runtime rt) (pg_service uuid scan rt blobs patches) params m w = (Inr (b, x), w')
    \<and> channel_serves m (surfing_of uuid d (ArAppID params) (ArChannelName params)) b
    \<and> pred_option (\<lambda>u. Branch u = b \<and> AppId u = ArAppID params \<and> (\<exists>row \<in> set (updates d). on_branch d (uuid (ArAppID params)) b row
          \<and> u_checked row \<noteq> None \<and> UpdateId u = FormatInt (u_id row))) x"
proof -
  obtain w' where w': "resolveAssetUpdate (world_runtime rt) (pg_service uuid scan rt blobs patches) params m w
      = (Inr (asset_answer uuid scan rt d params m), w')"
    using process.asset_read [OF assms(2) refl refl refl refl, where scan = scan and blobs = blobs and patches = patches and m = m and params = params]
      assms(2) by (auto simp: asset_answer_def serving_world_def)
  obtain b x where a: "asset_answer uuid scan rt d params m = (b, x)"
    by (cases "asset_answer uuid scan rt d params m")
  show ?thesis
    using w' a asset_rows(1) [OF assms(1) a] asset_rows(2) [OF assms(1) a] by (cases x) auto
qed

section \<open>A concrete server\<close>

text \<open>A process on the history of \<^verbatim>\<open>demo_reachable\<close> with a channel on its branch, a fresh cache, and codecs that encode
  the values this server handles.  The device without a client id is outside the rollout, so it is given the
  control.\<close>

definition once :: "'a \<Rightarrow> 'a codec" where
  "once x = \<lparr>Marshal = (\<lambda>y. if y = x then Some ''v'' else None), Unmarshal = (\<lambda>s. if s = ''v'' then Some x else None)\<rparr>"

lemma once_carries: "carries (once x) y"
  by (simp add: once_def carries_def)

definition demo_live :: db where
  "demo_live = (demo_db [demo_update 11 3 (Some 4), demo_rollout 11 21 (Some 6)] 6 8)\<lparr>
     channels := [\<lparr>c_id = 3, c_app = ''app'', c_branch = Some 1, c_name = ''production'', c_created = 7,
       c_surf_enabled = False, c_surf_pattern = []\<rparr>], next_id := 4\<rparr>"

definition demo_mapping :: ChannelResolution where
  "demo_mapping = \<lparr>MappingId = FormatInt 3, BranchName = ''main'', Rollout = None\<rparr>"

definition demo_envelope :: UpdateWithRollout where
  "demo_envelope = \<lparr>Latest = row_update ''app'' ''main'' ''1.0'' (demo_rollout 11 21 (Some 6)), RolloutPercentage = Some 10,
     Control = Some (row_update ''app'' ''main'' ''1.0'' (demo_update 11 3 (Some 4)))\<rparr>"

definition demo_app :: app_row where
  "demo_app = \<lparr>a_id = ''app'', a_name = ''Demo'', a_git_url = None, a_keys_mode = None, a_sealed_public = None, a_sealed_private = None,
     a_path_public = None, a_path_private = None, a_secret_public = None, a_secret_private = None, a_created = 1\<rparr>"

definition demo_config :: AppConfig where
  "demo_config = \<lparr>AcId = ''app'', AcName = ''Demo'', AcGitURL = [], AccessToken = [], Keys = \<lparr>KeysMode = [], PublicPath = [],
     PrivatePath = [], PublicSecretId = [], PrivateSecretId = [], PublicB64 = [], PrivateB64 = [], SealedPublicKey = [],
     SealedPrivateKey = []\<rparr>, AcCreatedAt = 1\<rparr>"

definition demo_runtime :: "world Runtime" where
  "demo_runtime = \<lparr>GetCache = world_cache, IsDBMode = True, Version = ''1'', IsBundleDiffingEnabled = False,
     IsBundleDiffingCDNRedirect = False, GetCDN = None, uuidParse = Some, sha256 = (\<lambda>s. s), TypeByExtension = (\<lambda>_. []),
     jsonAppConfig = once demo_config, jsonChannelResolution = once demo_mapping, jsonUpdateWithRollout = once demo_envelope,
     jsonCachedUpdate = once None, jsonSurfableBranches = once [],
     jsonManifestEntry = once \<lparr>ManifestJSON = [], EntryUpdateUUID = []\<rparr>\<rparr>"

definition demo_world :: world where
  "demo_world = \<lparr>wdb = demo_live, wapps = [demo_app], wcache = NewLocalCache [] ''1'' 0, wnow = 0, waudit = [], wmetrics = [], wjobs = []\<rparr>"

definition demo_params :: ManifestRequestParams where
  "demo_params = \<lparr>MrAppID = ''app'', MrChannelName = ''production'', MrPlatform = ''ios'', MrRuntimeVersion = ''1.0'',
     ProtocolVersion = 1, MrClientID = [], CurrentUpdateID = [], EmbeddedUpdateID = [], ExpectSignature = [], ExpoFatalError = [],
     RecentFailedUpdateIDs = [], XpremBranch = [], SurfBlockTokens = []\<rparr>"

definition demo_asset :: AssetResolutionParams where
  "demo_asset = \<lparr>ArAppID = ''app'', ArChannelName = ''production'', AssetName = ''bundle.js'', ArRuntimeVersion = ''1.0'',
     ArPlatform = ''ios'', ArClientID = [], ArBranch = ''main'', ArUpdateID = ''11'', RequestedUpdateID = [], Hash = [], Extension = [],
     ExpoCurrentUpdateId = [], AIM = [], PreventCDNRedirection = False\<rparr>"

text \<open>Empty object stores.\<close>

definition no_blobs :: "world BlobStore" where
  "no_blobs = \<lparr>BlobExists = (\<lambda>_ _. ret False), BlobGet = (\<lambda>_ _. ret None)\<rparr>"

definition no_patches :: "world PatchStore" where
  "no_patches = \<lparr>PatchExists = (\<lambda>_ _ _ _. ret False), PatchGet = (\<lambda>_ _ _ _. ret None), PatchPut = (\<lambda>_ _ _ _ _. ret ()),
     PatchDeleteBranch = (\<lambda>_ _. ret ())\<rparr>"

lemma demo_live_reachable: "reachable demo_live"
  using reachable.step [OF demo_reachable [of 11 21] insert_channel, of "Some ''app''" "Some 1" "''production''" 8]
  by (simp add: statement_eval demo_defs demo_live_def del: set_filter)

lemma demo_serving: "serving_world Some demo_runtime demo_live [demo_app] demo_world"
proof -
  have "world_view demo_world k = None" for k
    by (simp add: world_view_def demo_world_def local_view_def NewLocalCache_def)
  then have "agreeing Some demo_runtime demo_world r" for r
    by (cases r) (simp_all add: agrees_def)
  then show ?thesis
    by (simp add: serving_world_def coherent_def faithful_codecs_def demo_runtime_def once_carries demo_world_def demo_live_def demo_defs
        NormalUpdate_def int64_range_def)
qed

lemma demo_mapping_answer: "mapping_answer Some demo_live ''app'' ''production'' = Some demo_mapping"
  by (simp add: mapping_answer_def pg_GetChannelBranchMapping_def getChannelBranchMapping_def bindE_run read_one_optional found_def
      ToPgUUID_def channel_named_def branch_by_id_def rollout_of_def demo_live_def demo_defs demo_mapping_def)

lemma demo_envelope_answer: "envelope_answer Some demo_live ''app'' ''main'' ''1.0'' ''ios'' = Some demo_envelope"
  by (simp add: envelope_answer_def pg_GetLatestUpdateWithRollout_def getLatestUpdateWithRollout_def bindE_run read_one_optional found_def
      ToPgUUID_def serving_def on_branch_def on_runtime_def demo_live_def demo_defs demo_envelope_def row_update_def)

lemma demo_decision:
  "\<exists>w'. ResolveUpdateForDevice (world_runtime demo_runtime) (pg_service Some Some demo_runtime blobs patches) demo_params demo_world
    = (Inr \<lparr>DecUpdate = Some (row_update ''app'' ''main'' ''1.0'' (demo_update 11 3 (Some 4))), DecBranchName = ''main'',
        DecUpdateType = NormalUpdate, DecBlockedSurf = None\<rparr>, w')"
proof -
  have "device_served Some Some demo_runtime demo_live demo_params demo_mapping
      = (''main'', Some (row_update ''app'' ''main'' ''1.0'' (demo_update 11 3 (Some 4))), None)"
    by (simp add: device_served_def resolve_spec_def device_request_def resolution_request_def surfing_spec_def demo_params_def
        default_candidates HonoursSurf_def demo_mapping_def demo_envelope_answer demo_envelope_def device_update_def InBucket_empty_client
        refuses_def demo_mapping_answer blocks_for_def)
  moreover have "type_answer Some demo_live (row_update ''app'' ''main'' ''1.0'' (demo_update 11 3 (Some 4))) = Some NormalUpdate"
    using type_of_row [OF demo_live_reachable, of "demo_update 11 3 (Some 4)" Some "''app''" "''main''" "''1.0''" "''ios''"]
    by (simp add: demo_live_def demo_defs serving_def on_branch_def on_runtime_def int64_range_def)
  moreover have "app_answer Some demo_world ''app'' \<noteq> None"
    by (simp add: app_answer_def pg_GetAppByID_def ToPgUUID_def demo_world_def demo_app_def)
  ultimately show ?thesis
    using manifest_read [OF demo_serving, of Some blobs patches demo_params] demo_mapping_answer
    by (auto simp: device_decision_def demo_params_def demo_world_def)
qed

theorem manifest_matches_database_witness:
  "\<exists>w'. ResolveUpdateForDevice (world_runtime demo_runtime) (pg_service Some Some demo_runtime no_blobs no_patches)
      demo_params demo_world = (device_decision Some Some demo_runtime demo_world demo_params, w')
    \<and> serving_world Some demo_runtime demo_live [demo_app] w'"
  by (rule manifest_matches_database [OF demo_serving])

theorem served_update_sound_witness:
  "\<exists>dec w' u m row. ResolveUpdateForDevice (world_runtime demo_runtime) (pg_service Some Some demo_runtime no_blobs no_patches)
      demo_params demo_world = (Inr dec, w') \<and> DecUpdate dec = Some u
    \<and> mapping_answer Some demo_live ''app'' ''production'' = Some m
    \<and> channel_serves m (surfing_of Some demo_live ''app'' ''production'') (DecBranchName dec)
    \<and> row \<in> set (updates demo_live) \<and> serving demo_live (Some ''app'') (DecBranchName dec) ''1.0'' ''ios'' row
    \<and> u = row_update ''app'' (DecBranchName dec) ''1.0'' row"
proof -
  obtain dec w' u where r: "ResolveUpdateForDevice (world_runtime demo_runtime) (pg_service Some Some demo_runtime no_blobs no_patches)
      demo_params demo_world = (Inr dec, w')" "DecUpdate dec = Some u"
    using demo_decision by fastforce
  have "MrAppID demo_params = ''app''" "MrChannelName demo_params = ''production''" "MrRuntimeVersion demo_params = ''1.0''"
      "MrPlatform demo_params = ''ios''"
    by (simp_all add: demo_params_def)
  then show ?thesis
    using served_update_sound [OF demo_live_reachable demo_serving r] r by auto
qed

theorem device_gets_update_witness:
  "\<exists>dec w' u. ResolveUpdateForDevice (world_runtime demo_runtime) (pg_service Some Some demo_runtime no_blobs no_patches)
      demo_params demo_world = (Inr dec, w') \<and> DecUpdate dec = Some u"
proof (rule device_gets_update [OF demo_live_reachable demo_serving, where m = demo_mapping])
  show "mapping_answer Some demo_live (MrAppID demo_params) (MrChannelName demo_params) = Some demo_mapping"
    using demo_mapping_answer by (simp add: demo_params_def)
qed (simp_all add: app_answer_def pg_GetAppByID_def ToPgUUID_def demo_world_def demo_app_def demo_params_def
      demo_mapping_def demo_live_def demo_defs serving_def on_branch_def on_runtime_def int64_range_def active_def)

theorem asset_update_confined_witness:
  "\<exists>b x w'. resolveAssetUpdate (world_runtime demo_runtime) (pg_service Some Some demo_runtime no_blobs no_patches)
      demo_asset demo_mapping demo_world = (Inr (b, x), w')
    \<and> channel_serves demo_mapping (surfing_of Some demo_live (ArAppID demo_asset) (ArChannelName demo_asset)) b
    \<and> pred_option (\<lambda>u. Branch u = b \<and> AppId u = ArAppID demo_asset \<and> (\<exists>row \<in> set (updates demo_live). on_branch demo_live (Some (ArAppID demo_asset)) b row
          \<and> u_checked row \<noteq> None \<and> UpdateId u = FormatInt (u_id row))) x"
  by (rule asset_update_confined [OF demo_live_reachable demo_serving])

end
