(* ===== verification/Management.thy ===== *)
theory Management
  imports Delivery
begin

text \<open>
  Channels and branches as the dashboard and the CLI manage them: \<^verbatim>\<open>channel_service.go\<close>, \<^verbatim>\<open>branch_service.go\<close> and the
  cache keys of \<^verbatim>\<open>internal/dashboard\<close>.  Every operation validates its names, writes through a repository, records an
  audit event and drops the cache entries its write made stale, in the order of the code.
\<close>

section \<open>Shared steps\<close>

definition require :: "err option \<Rightarrow> ('s, unit) op" where
  "require e = (case e of None \<Rightarrow> ret () | Some x \<Rightarrow> throw x)"

lemma require_run [proc_simps]: "require e s = (case e of None \<Rightarrow> (Inr (), s) | Some x \<Rightarrow> (Inl x, s))"
  by (simp add: require_def split: option.split)

definition ComputeGetRuntimeVersionsCacheKey :: "'s Runtime \<Rightarrow> string \<Rightarrow> string \<Rightarrow> string" where
  "ComputeGetRuntimeVersionsCacheKey rt appId branch =
     ''dashboard:'' @ Version rt @ '':'' @ appId @ '':request:getRuntimeVersions:'' @ branch"

definition ComputeGetBranchesCacheKey :: "'s Runtime \<Rightarrow> string \<Rightarrow> string" where
  "ComputeGetBranchesCacheKey rt appId = ''dashboard:'' @ Version rt @ '':'' @ appId @ '':request:getBranches''"

definition ComputeGetChannelsCacheKey :: "'s Runtime \<Rightarrow> string \<Rightarrow> string" where
  "ComputeGetChannelsCacheKey rt appId = ''dashboard:'' @ Version rt @ '':'' @ appId @ '':request:getChannels''"

definition forget_all :: "'s Runtime \<Rightarrow> string list \<Rightarrow> ('s, unit) op" where
  "forget_all rt keys = forEach (cache_forget rt) keys"

section \<open>Channels\<close>

record 's ChannelService =
  csBranchRepo :: "'s BranchRepository"
  csChannelRepo :: "'s ChannelRepository"
  csOnAuditEvent :: "'s RecordFunc option"

definition invalidateChannelCaches :: "'s Runtime \<Rightarrow> string \<Rightarrow> ('s, unit) op" where
  "invalidateChannelCaches rt appId = forget_all rt [ComputeGetChannelsCacheKey rt appId, ComputeGetBranchesCacheKey rt appId]"

definition CreateChannel :: "'s Runtime \<Rightarrow> 's ChannelService \<Rightarrow> Ctx \<Rightarrow> string \<Rightarrow> string option \<Rightarrow> string \<Rightarrow> ('s, int) op" where
  "CreateChannel rt cs ctx appId branchName channelName =
     bindE (require (Name ''channelName'' channelName)) (\<lambda>_.
     bindE (case branchName of
         None \<Rightarrow> ret None
       | Some b \<Rightarrow> bindE (require (Name ''branchName'' b)) (\<lambda>_.
           bindE (mapErr (\<lambda>e. Wrapped (Msg ''failed to map channel: target branch '%s' does not exist: %w'' [b]) e)
             (GetBranchByName (csBranchRepo cs) appId b)) (\<lambda>i. ret (Some i)))) (\<lambda>branchId.
     bindE (InsertChannel (csChannelRepo cs) appId branchId channelName) (\<lambda>channelId.
     bindE (recordManagementEvent ctx (csOnAuditEvent cs) (new_event ''channel.created'' ''channel'' channelName appId
         ((''channel_id'', MetaText (FormatInt channelId)) # (case branchName of None \<Rightarrow> [] | Some b \<Rightarrow> [(''branch'', MetaText b)])))) (\<lambda>_.
     bindE (invalidateChannelCaches rt appId) (\<lambda>_.
     bindE (ForgetBranchSurfing rt appId channelName) (\<lambda>_.
     ret channelId))))))"

definition DeleteChannelOp :: "'s Runtime \<Rightarrow> 's ChannelService \<Rightarrow> Ctx \<Rightarrow> string \<Rightarrow> string \<Rightarrow> ('s, unit) op" where
  "DeleteChannelOp rt cs ctx channelName appId =
     bindE (require (Name ''channelName'' channelName)) (\<lambda>_.
     bindE (DeleteChannel (csChannelRepo cs) channelName appId) (\<lambda>_.
     bindE (recordManagementEvent ctx (csOnAuditEvent cs) (new_event ''channel.deleted'' ''channel'' channelName appId [])) (\<lambda>_.
     bindE (invalidateChannelCaches rt appId) (\<lambda>_.
     ForgetBranchSurfing rt appId channelName))))"

definition GetBranchSurfingOp :: "'s ChannelService \<Rightarrow> string \<Rightarrow> string \<Rightarrow> ('s, BranchSurfing option) op" where
  "GetBranchSurfingOp cs appId channelName =
     bindE (require (Name ''channelName'' channelName)) (\<lambda>_. GetBranchSurfing (csChannelRepo cs) appId channelName)"

definition SetBranchSurfingOp :: "'s Runtime \<Rightarrow> 's ChannelService \<Rightarrow> Ctx \<Rightarrow> string \<Rightarrow> string \<Rightarrow> BranchSurfing \<Rightarrow> ('s, unit) op" where
  "SetBranchSurfingOp rt cs ctx appId channelName surfing0 =
     bindE (require (Name ''channelName'' channelName)) (\<lambda>_.
     bindE (require (NamePattern ''branchSurfingPattern'' (Pattern surfing0))) (\<lambda>_.
     let surfing = surfing0\<lparr>Pattern := CollapseWildcards (Pattern surfing0)\<rparr>
     in bindE (SetBranchSurfing (csChannelRepo cs) appId channelName surfing) (\<lambda>_.
        bindE (recordManagementEvent ctx (csOnAuditEvent cs) (new_event ''channel_branch_surfing.updated'' ''channel'' channelName appId
          [(''enabled'', MetaBool (Enabled surfing)), (''pattern'', MetaText (Pattern surfing))])) (\<lambda>_.
        bindE (invalidateChannelCaches rt appId) (\<lambda>_.
        ForgetBranchSurfing rt appId channelName)))))"

definition maxSurfableBranches :: nat where "maxSurfableBranches = 10"
definition maxAllSurfableBranches :: nat where "maxAllSurfableBranches = 500"

text \<open>The loop over the branches, with the page and the count as its accumulators.\<close>

fun page_loop :: "string \<Rightarrow> string \<Rightarrow> nat \<Rightarrow> SurfableBranch list \<Rightarrow> SurfableBranch list \<Rightarrow> nat \<Rightarrow> SurfableBranch list \<times> nat" where
  "page_loop mappedBranch pattern limit [] matched counted = (matched, counted)"
| "page_loop mappedBranch pattern limit (candidate # rest) matched counted =
     (if SbName candidate = mappedBranch \<or> \<not> MatchPattern pattern (SbName candidate)
      then page_loop mappedBranch pattern limit rest matched counted
      else page_loop mappedBranch pattern limit rest
        (if length matched < limit then matched @ [candidate] else matched) (counted + 1))"

definition ListSurfableBranches :: "'s Runtime \<Rightarrow> 's ChannelService \<Rightarrow> string \<Rightarrow> string \<Rightarrow> string \<Rightarrow> string \<Rightarrow> bool
    \<Rightarrow> ('s, SurfableBranchList) op" where
  "ListSurfableBranches rt cs appId channelName runtimeVersion platform all =
     bindE (require (Name ''channelName'' channelName)) (\<lambda>_.
     bindE (cachedBranchSurfing rt (csChannelRepo cs) appId channelName) (\<lambda>(enabled, pattern).
     if \<not> enabled then throw (ExpoProtocolError 404 (Msg ''Branch surfing is not enabled for this channel'' []))
     else bindE (cachedSurfableBranches rt (csBranchRepo cs) appId runtimeVersion platform) (\<lambda>branches.
       bindE (cachedChannelMapping rt (csChannelRepo cs) appId channelName) (\<lambda>mapping.
       let mappedBranch = (case mapping of None \<Rightarrow> [] | Some m \<Rightarrow> BranchName m);
           limit = (if all then maxAllSurfableBranches else maxSurfableBranches)
       in case page_loop mappedBranch pattern limit branches [] 0 of (matched, counted) \<Rightarrow>
            ret \<lparr>SbBranches = matched, SbTotal = counted\<rparr>))))"

section \<open>Branches\<close>

record 's BranchService =
  brBranchRepo :: "'s BranchRepository"
  brChannelRepo :: "'s ChannelRepository"
  brUpdateRepo :: "'s UpdateRepository"
  brRolloutRepo :: "'s RolloutRepository option"
  brSpawn :: "job \<Rightarrow> 's \<Rightarrow> 's"
  brOnAuditEvent :: "'s RecordFunc option"

definition ValidateBranchName :: "string \<Rightarrow> err option" where
  "ValidateBranchName branchName = (case Name ''branchName'' branchName of
     Some e \<Rightarrow> Some e
   | None \<Rightarrow> if ReservedBranchName branchName then Some (ValidationError ''branchName'' (Msg ''%q is reserved'' [branchName])) else None)"

definition CreateBranch :: "'s Runtime \<Rightarrow> 's BranchService \<Rightarrow> Ctx \<Rightarrow> string \<Rightarrow> string \<Rightarrow> ('s, int) op" where
  "CreateBranch rt bs ctx appId branchName =
     bindE (require (ValidateBranchName branchName)) (\<lambda>_.
     bindE (InsertBranch (brBranchRepo bs) appId branchName) (\<lambda>branchId.
     bindE (recordManagementEvent ctx (brOnAuditEvent bs) (new_event ''branch.created'' ''branch'' branchName appId
         [(''branch_id'', MetaText (FormatInt branchId))])) (\<lambda>_.
     bindE (cache_forget rt (ComputeGetBranchesCacheKey rt appId)) (\<lambda>_.
     ret branchId))))"

text \<open>The guards of a delete: channels mapped to the branch, then channels rolling out to it.\<close>

definition branch_in_use :: "'s BranchService \<Rightarrow> string \<Rightarrow> string \<Rightarrow> ('s, unit) op" where
  "branch_in_use bs branchName appId =
     bindE (mapErr (\<lambda>e. Wrapped (Msg ''failed to validate branch dependencies: %w'' []) e)
       (GetChannelNameByBranchName (brChannelRepo bs) appId branchName)) (\<lambda>channels.
     if channels \<noteq> [] then throw (ErrBranchHasActiveChannels branchName channels)
     else case brRolloutRepo bs of
       None \<Rightarrow> ret ()
     | Some rr \<Rightarrow> bindE (mapErr (\<lambda>e. Wrapped (Msg ''failed to validate branch rollout dependencies: %w'' []) e)
         (GetChannelRolloutsByBranch rr appId branchName)) (\<lambda>rolloutChannels.
         if rolloutChannels \<noteq> [] then throw (ErrBranchInActiveRollout branchName rolloutChannels) else ret ()))"

text \<open>The envelopes and branch lists of every runtime version the branch had, each once, on both platforms.\<close>

definition purge_envelopes :: "'s Runtime \<Rightarrow> string \<Rightarrow> string \<Rightarrow> UpdateRef list \<Rightarrow> ('s, unit) op" where
  "purge_envelopes rt appId branchName rows =
     forEach (\<lambda>v. forEach (\<lambda>platform.
         bindE (cache_forget rt (ComputeLastUpdateCacheKey rt appId branchName v platform)) (\<lambda>_.
         ForgetSurfableBranches rt appId v platform)) [PlatformIOS, PlatformAndroid])
       (rev (remdups (rev (map RefRuntimeVersion rows))))"

definition DeleteBranch :: "'s Runtime \<Rightarrow> 's BranchService \<Rightarrow> Ctx \<Rightarrow> string \<Rightarrow> string \<Rightarrow> ('s, unit) op" where
  "DeleteBranch rt bs ctx branchName appId =
     bindE (require (Name ''branchName'' branchName)) (\<lambda>_.
     bindE (branch_in_use bs branchName appId) (\<lambda>_.
     bindE (mapErr (\<lambda>e. Wrapped (Msg ''failed to retrieve updates linked to the branch from database: %w'' []) e)
       (GetUpdateRefsByBranchName (brBranchRepo bs) appId branchName)) (\<lambda>rows.
     bindE (DeleteBranchByName (brBranchRepo bs) appId branchName) (\<lambda>_.
     bindE (recordManagementEvent ctx (brOnAuditEvent bs) (new_event ''branch.deleted'' ''branch'' branchName appId [])) (\<lambda>_.
     bindE (forget_all rt [ComputeGetBranchesCacheKey rt appId, ComputeGetRuntimeVersionsCacheKey rt appId branchName]) (\<lambda>_.
     bindE (purge_envelopes rt appId branchName rows) (\<lambda>_.
     modify (brSpawn bs (DeleteBranchFilesJob appId branchName rows)))))))))"

text \<open>The goroutine of \<^verbatim>\<open>DeleteBranch\<close>: a failing delete is reported and the others go on.\<close>

definition delete_branch_files :: "'s UpdateStore \<Rightarrow> 's PatchStore \<Rightarrow> string \<Rightarrow> string \<Rightarrow> UpdateRef list \<Rightarrow> ('s, unit) op" where
  "delete_branch_files us ps appId branchName rows =
     bindE (forEach (\<lambda>row. bindE (attempt (UpdateStoreDelete us appId branchName (RefRuntimeVersion row) (FormatInt (RefID row)))) (\<lambda>_. ret ())) rows) (\<lambda>_.
     if rows = [] then ret ()
     else bindE (attempt (PatchDeleteBranch ps appId branchName)) (\<lambda>_. ret ()))"

definition channel_not_found :: "err \<Rightarrow> bool" where
  "channel_not_found e \<longleftrightarrow> list_ex (\<lambda>x. case x of ErrResourceNotFound resource _ \<Rightarrow> resource = ''channel'' | _ \<Rightarrow> False)
     (take 1 (filter (\<lambda>x. case x of ErrResourceNotFound _ _ \<Rightarrow> True | _ \<Rightarrow> False) (chain e)))"

definition UpdateChannelBranchMappingOp :: "'s BranchService \<Rightarrow> Ctx \<Rightarrow> string \<Rightarrow> string \<Rightarrow> string \<Rightarrow> string \<Rightarrow> ('s, unit) op" where
  "UpdateChannelBranchMappingOp bs ctx appId channelId channelName branchId =
     bindE (require (Name ''releaseChannelId'' channelId)) (\<lambda>_.
     bindE (require (Name ''branchId'' branchId)) (\<lambda>_.
     bindE (attempt (UpdateChannelBranchMapping (brBranchRepo bs) appId channelId branchId)) (\<lambda>r. case r of
       Inl e \<Rightarrow>
         (case brRolloutRepo bs of
            Some rr \<Rightarrow>
              if channel_not_found e \<and> channelName \<noteq> []
              then bindE (attempt (GetChannelRollout rr appId channelName)) (\<lambda>q. case q of
                  Inr (Some _) \<Rightarrow> throw (ErrChannelHasActiveRollout channelName)
                | _ \<Rightarrow> throw e)
              else throw e
          | None \<Rightarrow> throw e)
     | Inr _ \<Rightarrow> recordManagementEvent ctx (brOnAuditEvent bs) (new_event ''channel_branch.mapped'' ''channel'' channelName appId
         [(''channel_id'', MetaText channelId), (''branch_id'', MetaText branchId)]))))"

definition UpsertBranchAndRuntimeVersionOp :: "'s BranchService \<Rightarrow> string \<Rightarrow> string \<Rightarrow> string \<Rightarrow> ('s, unit) op" where
  "UpsertBranchAndRuntimeVersionOp bs appId branchName runtimeVersion =
     bindE (require (ValidateBranchName branchName)) (\<lambda>_.
     UpsertBranchAndRuntimeVersion (brBranchRepo bs) appId branchName runtimeVersion)"

end
