(* ===== verification/Manifest.thy ===== *)
theory Manifest
  imports Delivery Base64 "HOL-Library.Multiset" "HOL-Library.Signed_Division"
begin

text \<open>
  Package \<^verbatim>\<open>internal/update\<close> and the manifest half of \<^verbatim>\<open>update_service.go\<close> and \<^verbatim>\<open>prewarm.go\<close>: reading the files of
  an update from the bucket, checking that everything it announces was uploaded, comparing two publishes,
  and composing and caching the manifest.  The record \<^verbatim>\<open>Packages\<close> holds what the code calls outside the
  repository: JSON decoding and encoding, digests, time formatting and URL building.
\<close>

section \<open>Types\<close>

record Asset =
  AsPath :: string
  AsExt :: string

record PlatformMetadata =
  Bundle :: string
  PmAssets :: "Asset list"

record FileMetadata =
  Android :: PlatformMetadata
  IOS :: PlatformMetadata

definition metadata_for :: "FileMetadata \<Rightarrow> string \<Rightarrow> PlatformMetadata option" where
  "metadata_for f platform =
     (if platform = PlatformIOS then Some (IOS f) else if platform = PlatformAndroid then Some (Android f) else None)"

record MetadataObject =
  MoVersion :: int
  Bundler :: string
  MoFileMetadata :: FileMetadata

record UpdateMetadata =
  MetadataJSON :: MetadataObject
  UmCreatedAt :: string
  UmID :: string
  Fingerprint :: string

record ManifestAsset =
  MaHash :: string
  MaKey :: string
  MaFileExtension :: string
  MaContentType :: string
  MaUrl :: string

record ExtraManifestData =
  ExpoClient :: string
  ExtraBranch :: string
  BranchSurfingRefused :: string

record UpdateManifest =
  MnId :: string
  MnCreatedAt :: string
  MnRunTimeVersion :: string
  MnMetadata :: string
  MnAssets :: "ManifestAsset list"
  MnLaunchAsset :: ManifestAsset
  MnExtra :: ExtraManifestData

text \<open>A file of the bucket: what reading it to the end gives, and when it was written.\<close>

type_synonym reader = "(err, string) result"

record BucketFile =
  Reader :: reader
  FileCreatedAt :: int

record 's Bucket =
  GetFile :: "Update \<Rightarrow> string \<Rightarrow> ('s, BucketFile option) op"
  HasBlob :: "string \<Rightarrow> string \<Rightarrow> ('s, bool) op"
  UpdatePresignPut :: "string \<Rightarrow> string \<Rightarrow> string \<Rightarrow> string \<Rightarrow> string \<Rightarrow> ('s, UploadRequest) op"
  BlobPresignPut :: "string \<Rightarrow> string \<Rightarrow> string \<Rightarrow> ('s, UploadRequest) op"

text \<open>The errors of a JSON decoder, and one step of it: the value it read and what is left.\<close>

datatype json_error = EOF | UnexpectedEOF | SyntaxError message | ReadError err

record Packages =
  sha512 :: "string \<Rightarrow> string"
  md5 :: "string \<Rightarrow> string"
  Decode :: "reader \<Rightarrow> (json_error, string \<times> reader) result"
  decodeMetadata :: "reader \<Rightarrow> (err, MetadataObject) result"
  marshalMetadata :: "MetadataObject \<Rightarrow> (err, string) result"
  marshalManifest :: "UpdateManifest \<Rightarrow> (err, string) result"
  unmarshalManifest :: "string \<Rightarrow> (err, UpdateManifest) result"
  marshalBranch :: "string \<Rightarrow> string option"
  jsonUpdateMetadata :: "UpdateMetadata codec"
  jsonManifestAsset :: "ManifestAsset codec"
  formatTime :: "int \<Rightarrow> string"
  urlWithQuery :: "string \<Rightarrow> (string \<times> string) list \<Rightarrow> (err, string) result"
  BaseURL :: string

definition of_result :: "(err, 'a) result \<Rightarrow> ('s, 'a) op" where
  "of_result r = (case r of Inl e \<Rightarrow> throw e | Inr x \<Rightarrow> ret x)"

lemma of_result_run [proc_simps]: "of_result r s = (r, s)"
  by (cases r) (simp_all add: of_result_def)

section \<open>Hashes\<close>

text \<open>\<^verbatim>\<open>base64.StdEncoding\<close>: the other alphabet, with padding.\<close>

definition std_char :: "char \<Rightarrow> char" where
  "std_char c = (if c = CHR ''-'' then CHR ''+'' else if c = CHR ''_'' then CHR 0x2F else c)"

definition StdEncode :: "string \<Rightarrow> string" where
  "StdEncode s = map std_char (base64_encode s) @ replicate ((3 - length s mod 3) mod 3) CHR ''=''"

definition hex_pair :: "char \<Rightarrow> string" where
  "hex_pair c = (let digit = (\<lambda>n. if n < 10 then char_of (48 + n) else char_of (87 + n))
     in [digit (of_char c div 16 :: nat), digit (of_char c mod 16)])"

definition CreateHash :: "'s Runtime \<Rightarrow> Packages \<Rightarrow> string \<Rightarrow> string \<Rightarrow> string \<Rightarrow> (err, string) result" where
  "CreateHash rt pk payload hashingAlgorithm encoding =
     (case (if hashingAlgorithm = ''sha256'' then Some (sha256 rt payload)
            else if hashingAlgorithm = ''sha512'' then Some (sha512 pk payload)
            else if hashingAlgorithm = ''md5'' then Some (md5 pk payload) else None) of
        None \<Rightarrow> Inl (ErrorText (Msg ''unsupported hashing algorithm: %s'' [hashingAlgorithm]))
      | Some digest \<Rightarrow>
          if encoding = ''hex'' then Inr (concat (map hex_pair digest))
          else if encoding = ''base64'' then Inr (StdEncode digest)
          else Inl (ErrorText (Msg ''unsupported encoding: %s'' [encoding])))"

definition ConvertSHA256HashToUUID :: "string \<Rightarrow> string" where
  "ConvertSHA256HashToUUID value =
     (if length value < 32 then []
      else take 8 value @ ''-'' @ take 4 (drop 8 value) @ ''-'' @ take 4 (drop 12 value) @ ''-''
        @ take 4 (drop 16 value) @ ''-'' @ take 12 (drop 20 value))"

definition GetBase64URLEncoding :: "string \<Rightarrow> string" where
  "GetBase64URLEncoding encodedString = TrimRight (map (\<lambda>c. if c = CHR 0x2F then CHR ''_'' else c)
     (map (\<lambda>c. if c = CHR ''+'' then CHR ''-'' else c) encodedString)) ''=''"

section \<open>Files of an update\<close>

definition ComputeMetadataCacheKey :: "'s Runtime \<Rightarrow> string \<Rightarrow> string \<Rightarrow> string \<Rightarrow> string \<Rightarrow> string" where
  "ComputeMetadataCacheKey rt appId branch runtimeVersion updateId =
     Key [''metadata'', Version rt, appId, branch, runtimeVersion, updateId]"

definition ComputeManifestResponseCacheKey :: "'s Runtime \<Rightarrow> string \<Rightarrow> string \<Rightarrow> string \<Rightarrow> string \<Rightarrow> string \<Rightarrow> string" where
  "ComputeManifestResponseCacheKey rt appId branch runtimeVersion updateId platform =
     Key [''manifest-response'', Version rt, appId, branch, runtimeVersion, updateId, platform]"

definition ComputeManifestAssetCacheKey :: "'s Runtime \<Rightarrow> string \<Rightarrow> Update \<Rightarrow> string \<Rightarrow> string" where
  "ComputeManifestAssetCacheKey rt appId u assetPath =
     Key [''asset'', Version rt, appId, Branch u, RuntimeVersion u, UpdateId u, assetPath]"

definition classifyExpoConfigError :: "json_error \<Rightarrow> err" where
  "classifyExpoConfigError e = (case e of
     EOF \<Rightarrow> Wrapped (Msg ''%w: %w'' [''EOF'']) ErrInvalidExpoConfig
   | UnexpectedEOF \<Rightarrow> Wrapped (Msg ''%w: %w'' [''unexpected EOF'']) ErrInvalidExpoConfig
   | SyntaxError _ \<Rightarrow> Wrapped (Msg ''%w: %w'' [''syntax error'']) ErrInvalidExpoConfig
   | ReadError e \<Rightarrow> Wrapped2 (Msg ''%w: %w'' []) ErrExpoConfigUnreadable e)"

definition GetExpoConfig :: "Packages \<Rightarrow> 's Bucket \<Rightarrow> Update \<Rightarrow> ('s, string) op" where
  "GetExpoConfig pk bk u =
     bindE (mapErr (\<lambda>e. Wrapped2 (Msg ''%w: %w'' []) ErrExpoConfigUnreadable e) (GetFile bk u ''expoConfig.json'')) (\<lambda>file.
     case file of
       None \<Rightarrow> ret ''{}''
     | Some f \<Rightarrow> (case Decode pk (Reader f) of
         Inl e \<Rightarrow> throw (classifyExpoConfigError e)
       | Inr (expoConfig, rest) \<Rightarrow> (case Decode pk rest of
           Inl EOF \<Rightarrow> ret expoConfig
         | Inl e \<Rightarrow> throw (classifyExpoConfigError e)
         | Inr _ \<Rightarrow> throw (Wrapped (Msg ''%w: trailing content after the JSON document'' []) ErrInvalidExpoConfig))))"

text \<open>The body of \<^verbatim>\<open>GetMetadata\<close> on a cache miss, once the file has been read.\<close>

definition shape_metadata :: "'s Runtime \<Rightarrow> Packages \<Rightarrow> Update \<Rightarrow> BucketFile \<Rightarrow> (err, UpdateMetadata) result" where
  "shape_metadata rt pk u f = (case decodeMetadata pk (Reader f) of Inl e \<Rightarrow> Inl e | Inr obj \<Rightarrow>
     (case marshalMetadata pk obj of Inl e \<Rightarrow> Inl e | Inr stringified \<Rightarrow>
     (case CreateHash rt pk (stringified @ ''::'' @ UpdateId u @ ''::'' @ Branch u @ ''::'' @ RuntimeVersion u) ''sha256'' ''hex'' of
        Inl e \<Rightarrow> Inl e
      | Inr i \<Rightarrow> (case CreateHash rt pk (stringified @ ''::'' @ Branch u @ ''::'' @ RuntimeVersion u) ''sha256'' ''hex'' of
          Inl e \<Rightarrow> Inl e
        | Inr fp \<Rightarrow> Inr \<lparr>MetadataJSON = obj, UmCreatedAt = formatTime pk (FileCreatedAt f), UmID = i, Fingerprint = fp\<rparr>))))"

definition GetMetadata :: "'s Runtime \<Rightarrow> Packages \<Rightarrow> 's Bucket \<Rightarrow> Update \<Rightarrow> ('s, UpdateMetadata) op" where
  "GetMetadata rt pk bk u =
     (let key = ComputeMetadataCacheKey rt (AppId u) (Branch u) (RuntimeVersion u) (UpdateId u)
      in bindE (cached_json rt (jsonUpdateMetadata pk) key) (\<lambda>hit. case hit of
           Some m \<Rightarrow> ret m
         | None \<Rightarrow> bindE (GetFile bk u ''metadata.json'') (\<lambda>file. case file of
             None \<Rightarrow> throw (Wrapped (Msg ''%w for update %s/%s/%s/%s'' [AppId u, Branch u, RuntimeVersion u, UpdateId u]) ErrUpdateMetadataMissing)
           | Some f \<Rightarrow> bindE (of_result (shape_metadata rt pk u f)) (\<lambda>m.
               bindE (put_json rt (jsonUpdateMetadata pk) key m (Some ImmutableCacheTTLSeconds)) (\<lambda>_. ret m)))))"

section \<open>Verifying an upload\<close>

definition verify_file :: "'s Bucket \<Rightarrow> Update \<Rightarrow> string \<Rightarrow> ('s, unit) op" where
  "verify_file bk u file =
     bindE (mapErr (\<lambda>e. Wrapped (Msg ''checking file %s: %w'' [file]) e) (GetFile bk u file)) (\<lambda>f. case f of
       None \<Rightarrow> throw (ErrorText (Msg ''missing file: %s in update'' [file]))
     | Some _ \<Rightarrow> ret ())"

definition folder_files :: "FileMetadata \<Rightarrow> string list" where
  "folder_files m = concat (map (\<lambda>p. if Bundle p = [] then [] else Bundle p # map AsPath (PmAssets p)) [IOS m, Android m])"

definition verifyFolderUploaded :: "'s Bucket \<Rightarrow> Update \<Rightarrow> UpdateMetadata \<Rightarrow> ('s, unit) op" where
  "verifyFolderUploaded bk u metadata = forEach (verify_file bk u) (folder_files (MoFileMetadata (MetadataJSON metadata)))"

definition verify_blob :: "'s Bucket \<Rightarrow> string \<Rightarrow> ShapedAsset \<Rightarrow> ('s, unit) op" where
  "verify_blob bk appId asset =
     bindE (mapErr (\<lambda>e. Wrapped (Msg ''checking blob %s: %w'' [SaHash asset]) e) (HasBlob bk appId (SaHash asset))) (\<lambda>present.
       if present then ret () else throw (ErrorText (Msg ''missing blob %s in update'' [SaHash asset])))"

definition verifyBlobsUploaded :: "'s Bucket \<Rightarrow> string \<Rightarrow> UpdateAssetMapping \<Rightarrow> ('s, unit) op" where
  "verifyBlobsUploaded bk appId mapping = forEach (verify_blob bk appId) (LaunchAsset mapping # Assets mapping)"

definition VerifyUploadedUpdate :: "'s Runtime \<Rightarrow> Packages \<Rightarrow> 's Bucket \<Rightarrow> Update \<Rightarrow> UpdateAssetMapping option \<Rightarrow> ('s, unit) op" where
  "VerifyUploadedUpdate rt pk bk u mapping =
     bindE (GetMetadata rt pk bk u) (\<lambda>metadata.
     if Bundle (IOS (MoFileMetadata (MetadataJSON metadata))) = [] \<and> Bundle (Android (MoFileMetadata (MetadataJSON metadata))) = []
     then throw (ErrorText (Msg ''missing bundle path in metadata'' []))
     else bindE (GetExpoConfig pk bk u) (\<lambda>_.
       case mapping of None \<Rightarrow> verifyFolderUploaded bk u metadata | Some m \<Rightarrow> verifyBlobsUploaded bk (AppId u) m))"

section \<open>Comparing two publishes\<close>

text \<open>The counting map of hashes, and the loop that consumes it.\<close>

definition count_hashes :: "ShapedAsset list \<Rightarrow> string \<Rightarrow> nat" where
  "count_hashes assets = fold (\<lambda>a m. m(SaHash a := m (SaHash a) + 1)) assets (\<lambda>_. 0)"

fun consume_hashes :: "(string \<Rightarrow> nat) \<Rightarrow> ShapedAsset list \<Rightarrow> bool" where
  "consume_hashes counts [] = True"
| "consume_hashes counts (a # as) =
     (if counts (SaHash a) = 0 then False else consume_hashes (counts(SaHash a := counts (SaHash a) - 1)) as)"

definition sameConfigFiles :: "ConfigFile list \<Rightarrow> ConfigFile list \<Rightarrow> bool" where
  "sameConfigFiles stored incoming =
     (if length stored \<noteq> length incoming then False
      else let storedByPath = fold (\<lambda>f m. m(CfPath f \<mapsto> CfHash f)) stored Map.empty
        in list_all (\<lambda>f. storedByPath (CfPath f) = Some (CfHash f)) incoming)"

definition AreUpdatesIdentical :: "UpdateAssetMapping option \<Rightarrow> UpdateAssetMapping option \<Rightarrow> bool" where
  "AreUpdatesIdentical stored incoming = (case (stored, incoming) of
     (Some st, Some inc) \<Rightarrow>
       if SaHash (LaunchAsset st) = [] \<or> SaHash (LaunchAsset st) \<noteq> SaHash (LaunchAsset inc) then False
       else if length (Assets st) \<noteq> length (Assets inc) then False
       else if \<not> consume_hashes (count_hashes (Assets st)) (Assets inc) then False
       else sameConfigFiles (ConfigFiles st) (ConfigFiles inc)
   | _ \<Rightarrow> False)"

section \<open>Composing a manifest\<close>

definition GetAssetEndpoint :: "Packages \<Rightarrow> string" where
  "GetAssetEndpoint pk = BaseURL pk @ ''/assets''"

text \<open>\<^verbatim>\<open>url.Values\<close> encodes its keys in sorted order.\<close>

definition BuildFinalManifestAssetUrlURL :: "Packages \<Rightarrow> string \<Rightarrow> string \<Rightarrow> string \<Rightarrow> string \<Rightarrow> string \<Rightarrow> string \<Rightarrow> (err, string) result" where
  "BuildFinalManifestAssetUrlURL pk baseURL assetFilePath runtimeVersion platform branch updateId =
     urlWithQuery pk baseURL [(''asset'', assetFilePath), (''branch'', branch), (''platform'', platform),
       (''runtimeVersion'', runtimeVersion), (''updateId'', updateId)]"

definition BuildBlobAssetURL :: "Packages \<Rightarrow> string \<Rightarrow> string \<Rightarrow> string \<Rightarrow> string \<Rightarrow> (err, string) result" where
  "BuildBlobAssetURL pk baseURL hash fileExtension platform =
     urlWithQuery pk baseURL [(''ext'', TrimPrefix fileExtension ''.''), (''h'', hash), (''platform'', platform)]"

definition shape_file :: "'s Runtime \<Rightarrow> Packages \<Rightarrow> Update \<Rightarrow> Asset \<Rightarrow> bool \<Rightarrow> string \<Rightarrow> BucketFile \<Rightarrow> (err, ManifestAsset) result" where
  "shape_file rt pk u asset isLaunchAsset platform f = (case Reader f of Inl e \<Rightarrow> Inl e | Inr byteAsset \<Rightarrow>
     (case CreateHash rt pk byteAsset ''sha256'' ''base64'' of Inl e \<Rightarrow> Inl e | Inr assetHash \<Rightarrow>
     (case CreateHash rt pk byteAsset ''md5'' ''hex'' of Inl e \<Rightarrow> Inl e | Inr key \<Rightarrow>
     (case BuildFinalManifestAssetUrlURL pk (GetAssetEndpoint pk) (AsPath asset) (RuntimeVersion u) platform (Branch u) (UpdateId u) of
        Inl e \<Rightarrow> Inl e
      | Inr finalUrl \<Rightarrow> Inr \<lparr>MaHash = GetBase64URLEncoding assetHash, MaKey = key,
          MaFileExtension = ''.'' @ (if isLaunchAsset then ''bundle'' else AsExt asset),
          MaContentType = AssetContentType rt (AsExt asset) isLaunchAsset, MaUrl = finalUrl\<rparr>))))"

definition shapeManifestAsset :: "'s Runtime \<Rightarrow> Packages \<Rightarrow> 's Bucket \<Rightarrow> Update \<Rightarrow> Asset \<Rightarrow> bool \<Rightarrow> string \<Rightarrow> ('s, ManifestAsset) op" where
  "shapeManifestAsset rt pk bk u asset isLaunchAsset platform =
     (let key = ComputeManifestAssetCacheKey rt (AppId u) u (AsPath asset)
      in bindE (cached_json rt (jsonManifestAsset pk) key) (\<lambda>hit. case hit of
           Some a \<Rightarrow> ret a
         | None \<Rightarrow> bindE (GetFile bk u (AsPath asset)) (\<lambda>file. case file of
             None \<Rightarrow> throw (ErrorText (Msg ''asset file not found: %s'' [AsPath asset]))
           | Some f \<Rightarrow> bindE (of_result (shape_file rt pk u asset isLaunchAsset platform f)) (\<lambda>a.
               bindE (put_json rt (jsonManifestAsset pk) key a (Some ImmutableCacheTTLSeconds)) (\<lambda>_. ret a)))))"

definition computeManifestMetadata :: "Packages \<Rightarrow> Update \<Rightarrow> string" where
  "computeManifestMetadata pk u = (case marshalBranch pk (Branch u) of None \<Rightarrow> ''{}'' | Some json \<Rightarrow> json)"

definition toManifestAsset :: "Packages \<Rightarrow> string \<Rightarrow> ShapedAsset \<Rightarrow> (err, ManifestAsset) result" where
  "toManifestAsset pk platform shaped =
     (case BuildBlobAssetURL pk (GetAssetEndpoint pk) (SaHash shaped) (SaFileExtension shaped) platform of
        Inl e \<Rightarrow> Inl e
      | Inr url \<Rightarrow> Inr \<lparr>MaHash = SaHash shaped, MaKey = SaKey shaped, MaFileExtension = SaFileExtension shaped,
          MaContentType = SaContentType shaped, MaUrl = url\<rparr>)"

fun collect :: "('a \<Rightarrow> ('s, 'b) op) \<Rightarrow> 'a list \<Rightarrow> ('s, 'b list) op" where
  "collect f [] = ret []"
| "collect f (x # xs) = bindE (f x) (\<lambda>y. bindE (collect f xs) (\<lambda>ys. ret (y # ys)))"

definition manifestAssetsFromMapping :: "Packages \<Rightarrow> UpdateAssetMapping \<Rightarrow> string \<Rightarrow> ('s, ManifestAsset list \<times> ManifestAsset) op" where
  "manifestAssetsFromMapping pk mapping platform =
     bindE (of_result (toManifestAsset pk platform (LaunchAsset mapping))) (\<lambda>launchAsset.
     bindE (collect (\<lambda>a. of_result (toManifestAsset pk platform a)) (Assets mapping)) (\<lambda>assets.
     ret (assets, launchAsset)))"

text \<open>The workers that shape the assets of a folder all run, whether or not another one fails; each of them
  touches its own cache entry only.  The model runs them in the order of the list and reports the first failure.\<close>

fun all_outcomes :: "('a \<Rightarrow> ('s, 'b) op) \<Rightarrow> 'a list \<Rightarrow> ('s, (err, 'b) result list) op" where
  "all_outcomes f [] = ret []"
| "all_outcomes f (x # xs) = bindE (attempt (f x)) (\<lambda>r. bindE (all_outcomes f xs) (\<lambda>rs. ret (r # rs)))"

fun first_failure :: "(err, 'b) result list \<Rightarrow> (err, 'b list) result" where
  "first_failure [] = Inr []"
| "first_failure (Inl e # rs) = Inl e"
| "first_failure (Inr x # rs) = (case first_failure rs of Inl e \<Rightarrow> Inl e | Inr xs \<Rightarrow> Inr (x # xs))"

definition manifestAssetsFromFolder :: "'s Runtime \<Rightarrow> Packages \<Rightarrow> 's Bucket \<Rightarrow> UpdateMetadata \<Rightarrow> Update \<Rightarrow> string
    \<Rightarrow> ('s, ManifestAsset list \<times> ManifestAsset) op" where
  "manifestAssetsFromFolder rt pk bk metadata u platform =
     (case metadata_for (MoFileMetadata (MetadataJSON metadata)) platform of
        None \<Rightarrow> throw (ErrorText (Msg ''platform %s not supported by update %s/%s/%s/%s'' [platform, AppId u, Branch u, RuntimeVersion u, UpdateId u]))
      | Some pm \<Rightarrow>
          if Bundle pm = [] then throw (ErrorText (Msg ''platform %s not supported by update %s/%s/%s/%s'' [platform, AppId u, Branch u, RuntimeVersion u, UpdateId u]))
          else bindE (all_outcomes (\<lambda>a. shapeManifestAsset rt pk bk u a False platform) (PmAssets pm)) (\<lambda>rs.
               bindE (of_result (first_failure rs)) (\<lambda>assets.
               bindE (shapeManifestAsset rt pk bk u \<lparr>AsPath = Bundle pm, AsExt = []\<rparr> True platform) (\<lambda>launchAsset.
               ret (assets, launchAsset)))))"

definition manifestAssets :: "'s Runtime \<Rightarrow> Packages \<Rightarrow> 's Bucket \<Rightarrow> UpdateMetadata \<Rightarrow> Update \<Rightarrow> UpdateAssetMapping option \<Rightarrow> string
    \<Rightarrow> ('s, ManifestAsset list \<times> ManifestAsset) op" where
  "manifestAssets rt pk bk metadata u mapping platform = (case mapping of
     Some m \<Rightarrow> manifestAssetsFromMapping pk m platform
   | None \<Rightarrow> manifestAssetsFromFolder rt pk bk metadata u platform)"

text \<open>The stored metadata is a pointer that the code dereferences after everything else.\<close>

definition ComposeUpdateManifest :: "'s Runtime \<Rightarrow> Packages \<Rightarrow> 's Bucket \<Rightarrow> UpdateMetadata \<Rightarrow> Update \<Rightarrow> UpdateStoredMetadata option
    \<Rightarrow> UpdateAssetMapping option \<Rightarrow> string \<Rightarrow> ('s, UpdateManifest) op" where
  "ComposeUpdateManifest rt pk bk metadata u storedMetadata mapping platform =
     bindE (GetExpoConfig pk bk u) (\<lambda>expoConfig.
     bindE (manifestAssets rt pk bk metadata u mapping platform) (\<lambda>(assets, launchAsset).
     case storedMetadata of
       None \<Rightarrow> throw NilDereference
     | Some sm \<Rightarrow> ret \<lparr>MnId = MdUpdateUUID sm, MnCreatedAt = UmCreatedAt metadata, MnRunTimeVersion = RuntimeVersion u,
         MnMetadata = computeManifestMetadata pk u, MnAssets = assets, MnLaunchAsset = launchAsset,
         MnExtra = \<lparr>ExpoClient = expoConfig, ExtraBranch = Branch u, BranchSurfingRefused = []\<rparr>\<rparr>))"

section \<open>The manifest cache\<close>

definition cachedManifestResponse :: "'s Runtime \<Rightarrow> Packages \<Rightarrow> 's Bucket \<Rightarrow> 's UpdateRepository \<Rightarrow> Update \<Rightarrow> string
    \<Rightarrow> ('s, manifestResponseEntry) op" where
  "cachedManifestResponse rt pk bk repo u platform =
     (let key = ComputeManifestResponseCacheKey rt (AppId u) (Branch u) (RuntimeVersion u) (UpdateId u) platform
      in bindE (cached_json rt (jsonManifestEntry rt) key) (\<lambda>hit. case hit of Some entry \<Rightarrow> ret entry | None \<Rightarrow>
         bindE (cached_json rt (jsonManifestEntry rt) key) (\<lambda>hit2. case hit2 of Some entry \<Rightarrow> ret entry | None \<Rightarrow>
         bindE (GetMetadata rt pk bk u) (\<lambda>metadata.
         bindE (RetrieveUpdateStoredMetadata repo u) (\<lambda>storedMetadata.
         bindE (GetUpdateAssetMapping repo u) (\<lambda>mapping.
         bindE (ComposeUpdateManifest rt pk bk metadata u storedMetadata mapping platform) (\<lambda>manifest.
         bindE (of_result (marshalManifest pk manifest)) (\<lambda>manifestJSON.
         let entry = \<lparr>ManifestJSON = manifestJSON, EntryUpdateUUID = MnId manifest\<rparr>
         in bindE (put_json rt (jsonManifestEntry rt) key entry (Some ImmutableCacheTTLSeconds)) (\<lambda>_. ret entry)))))))))"

definition PreWarmManifestCache :: "'s Runtime \<Rightarrow> Packages \<Rightarrow> 's Bucket \<Rightarrow> 's UpdateRepository \<Rightarrow> string \<Rightarrow> string \<Rightarrow> string \<Rightarrow> string
    \<Rightarrow> ('s, unit) op" where
  "PreWarmManifestCache rt pk bk repo appId branch runtimeVersion platform =
     bindE (attempt (GetLatestUpdateCached rt repo appId branch runtimeVersion platform)) (\<lambda>r. case r of
       Inr (Some latestUpdate) \<Rightarrow> bindE (attempt (cachedManifestResponse rt pk bk repo latestUpdate platform)) (\<lambda>_. ret ())
     | _ \<Rightarrow> ret ())"

definition PreWarmControlManifest :: "'s Runtime \<Rightarrow> Packages \<Rightarrow> 's Bucket \<Rightarrow> 's UpdateRepository \<Rightarrow> string \<Rightarrow> string \<Rightarrow> string \<Rightarrow> string
    \<Rightarrow> ('s, unit) op" where
  "PreWarmControlManifest rt pk bk repo appId branch runtimeVersion platform =
     bindE (attempt (getLatestUpdateEnvelope rt repo appId branch runtimeVersion platform)) (\<lambda>r. case r of
       Inr (Some e) \<Rightarrow> (case (RolloutPercentage e, Control e) of
           (Some _, Some c) \<Rightarrow> bindE (attempt (cachedManifestResponse rt pk bk repo c platform)) (\<lambda>_. ret ())
         | _ \<Rightarrow> ret ())
     | _ \<Rightarrow> ret ())"

section \<open>Directives and ids\<close>

datatype directive = RollbackDirective string | NoUpdateAvailableDirective

definition CreateRollbackDirective :: "string \<Rightarrow> directive" where
  "CreateRollbackDirective commitTime = RollbackDirective commitTime"

definition CreateNoUpdateAvailableDirective :: directive where
  "CreateNoUpdateAvailableDirective = NoUpdateAvailableDirective"

text \<open>The id of an update: the publishing time in milliseconds with a digit for the platform.  \<^verbatim>\<open>now\<close> is
  \<^verbatim>\<open>time.Now().UnixNano()\<close>; the product is computed in 64 bits.\<close>

definition GenerateUpdateTimestamp :: "int \<Rightarrow> string \<Rightarrow> int" where
  "GenerateUpdateTimestamp now platform =
     wrap64 ((now sdiv 1000000) * 10 + (if platform = PlatformIOS then 1 else if platform = PlatformAndroid then 2 else 9))"

definition ConvertUpdateTimestampToString :: "int \<Rightarrow> string" where
  "ConvertUpdateTimestampToString updateId = FormatInt updateId"

section \<open>Laws\<close>

lemma count_hashes_mset: "count_hashes assets h = count (mset (map SaHash assets)) h"
proof -
  have "fold (\<lambda>a m. m(SaHash a := m (SaHash a) + 1)) assets m h = m h + count (mset (map SaHash assets)) h" for m :: "string \<Rightarrow> nat"
    by (induction assets arbitrary: m) auto
  then show ?thesis
    by (simp add: count_hashes_def)
qed

lemma consume_hashes_subset: "consume_hashes counts as \<longleftrightarrow> (\<forall>h. count (mset (map SaHash as)) h \<le> counts h)"
proof (induction as arbitrary: counts)
  case (Cons a as)
  have "(\<forall>h. count (mset (map SaHash as)) h \<le> (counts(SaHash a := counts (SaHash a) - 1)) h) \<longleftrightarrow>
      (\<forall>h. count (mset (map SaHash (a # as))) h \<le> counts h)" if "counts (SaHash a) \<noteq> 0"
    using that by (auto split: if_splits)
  moreover have "\<not> (\<forall>h. count (mset (map SaHash (a # as))) h \<le> counts h)" if "counts (SaHash a) = 0"
    using that by (intro notI) (drule spec [where x = "SaHash a"], simp)
  ultimately show ?case
    using Cons by auto
qed simp

lemma consume_count:
  assumes "length st = length inc"
  shows "consume_hashes (count_hashes st) inc \<longleftrightarrow> mset (map SaHash st) = mset (map SaHash inc)"
proof -
  have "consume_hashes (count_hashes st) inc \<longleftrightarrow> mset (map SaHash inc) \<subseteq># mset (map SaHash st)"
    by (simp add: consume_hashes_subset count_hashes_mset subseteq_mset_def del: mset_map)
  also have "\<dots> \<longleftrightarrow> mset (map SaHash st) = mset (map SaHash inc)"
    using assms by (metis mset_subset_eqD mset_map mset_subset_size size_mset length_map nat_less_le subset_mset.le_less subset_mset.order_refl)
  finally show ?thesis .
qed

lemma config_map: "fold (\<lambda>f m. m(CfPath f \<mapsto> CfHash f)) stored m p = Some h \<Longrightarrow>
    m p = Some h \<or> (\<exists>f \<in> set stored. CfPath f = p \<and> CfHash f = h)"
  by (induction stored arbitrary: m) (fastforce split: if_splits)+

lemma config_map_distinct: "distinct (map CfPath stored) \<Longrightarrow> f \<in> set stored \<Longrightarrow>
    fold (\<lambda>f m. m(CfPath f \<mapsto> CfHash f)) stored m (CfPath f) = Some (CfHash f)"
proof (induction stored arbitrary: m)
  case (Cons g stored)
  have other: "fold (\<lambda>f m. m(CfPath f \<mapsto> CfHash f)) stored m p = m p" if "p \<notin> CfPath ` set stored" for p m
    using that by (induction stored arbitrary: m) auto
  show ?case
    using Cons other [of "CfPath f" "m(CfPath g \<mapsto> CfHash g)"] by (auto simp del: fun_upd_apply) simp
qed simp

lemma sameConfigFiles_distinct:
  assumes "distinct (map CfPath inc)"
  shows "sameConfigFiles st inc \<longleftrightarrow> mset st = mset inc"
proof
  assume "sameConfigFiles st inc"
  then have len: "length st = length inc"
    and sub: "\<forall>f \<in> set inc. fold (\<lambda>f m. m(CfPath f \<mapsto> CfHash f)) st Map.empty (CfPath f) = Some (CfHash f)"
    by (auto simp: sameConfigFiles_def list_all_iff Let_def split: if_splits)
  have "set inc \<subseteq> set st"
  proof
    fix f assume "f \<in> set inc"
    with sub config_map [of st Map.empty "CfPath f" "CfHash f"] obtain g where "g \<in> set st" "CfPath g = CfPath f" "CfHash g = CfHash f"
      by auto
    moreover from this have "g = f"
      by simp
    ultimately show "f \<in> set st"
      by simp
  qed
  moreover have "count (mset inc) a = (if a \<in> set inc then 1 else 0)" for a
    using assms by (metis distinct_count_atmost_1 distinct_map)
  ultimately have "mset inc \<subseteq># mset st"
    by (auto simp: subseteq_mset_def Suc_le_eq)
  then show "mset st = mset inc"
    using len by (metis mset_subset_size nat_less_le size_mset subset_mset.le_less)
next
  assume eq: "mset st = mset inc"
  then have "distinct (map CfPath st)"
    using assms by (metis mset_eq_imp_distinct_iff mset_map)
  then show "sameConfigFiles st inc"
    using eq config_map_distinct [of st _ Map.empty] mset_eq_setD [OF eq] mset_eq_length [OF eq]
    by (auto simp: sameConfigFiles_def list_all_iff Let_def)
qed

text \<open>With a bucket whose reads leave the state alone: the config depends on its file only, and a verification that
  succeeded has seen every blob in the state it leaves.\<close>

lemma expo_config_stable:
  assumes "\<And>t. snd (GetFile bk u ''expoConfig.json'' t) = t" and "GetExpoConfig pk bk u s = (Inr c, s2)"
  shows "s2 = s" and "fst (GetFile bk u ''expoConfig.json'' t) = fst (GetFile bk u ''expoConfig.json'' s) \<Longrightarrow> GetExpoConfig pk bk u t = (Inr c, t)"
proof -
  have run: "GetFile bk u ''expoConfig.json'' t = (fst (GetFile bk u ''expoConfig.json'' t), t)" for t
    using assms(1) by (simp add: prod_eq_iff)
  show "s2 = s"
    using assms(2) run [of s]
    by (cases "fst (GetFile bk u ''expoConfig.json'' s)")
      (auto simp: GetExpoConfig_def bindE_run mapErr_run split: option.splits sum.splits json_error.splits prod.splits)
  show "GetExpoConfig pk bk u t = (Inr c, t)" if same: "fst (GetFile bk u ''expoConfig.json'' t) = fst (GetFile bk u ''expoConfig.json'' s)"
    using assms(2) run [of s] run [of t] same
    by (cases "fst (GetFile bk u ''expoConfig.json'' s)")
      (auto simp: GetExpoConfig_def bindE_run mapErr_run split: option.splits sum.splits json_error.splits prod.splits)
qed

lemma verified_blobs:
  assumes "\<And>h t. snd (HasBlob bk appId h t) = t" and "forEach (verify_blob bk appId) as s = (Inr (), s')"
  shows "s' = s \<and> list_all (\<lambda>a. fst (HasBlob bk appId (SaHash a) s) = Inr True) as"
  using assms(2)
proof (induction as)
  case (Cons a as)
  have run: "HasBlob bk appId (SaHash a) s = (fst (HasBlob bk appId (SaHash a) s), s)"
    using assms(1) by (simp add: prod_eq_iff)
  then have "verify_blob bk appId a s = (Inr (), s) \<and> fst (HasBlob bk appId (SaHash a) s) = Inr True"
    using Cons.prems by (cases "fst (HasBlob bk appId (SaHash a) s)") (auto simp: verify_blob_def bindE_run mapErr_run split: if_splits)
  then show ?case
    using Cons by (simp add: bindE_run)
qed simp

lemma compose_from_mapping:
  assumes "\<And>q. \<exists>url. urlWithQuery pk (GetAssetEndpoint pk) q = Inr url"
  shows "\<exists>as l. (\<forall>s :: 's. manifestAssetsFromMapping pk m platform s = (Inr (as, l), s)) \<and> map MaHash as = map SaHash (Assets m)
    \<and> MaHash l = SaHash (LaunchAsset m)"
proof -
  have one: "\<exists>a. toManifestAsset pk platform x = Inr a \<and> MaHash a = SaHash x" for x
    using assms [of "[(''ext'', TrimPrefix (SaFileExtension x) ''.''), (''h'', SaHash x), (''platform'', platform)]"]
    by (auto simp: toManifestAsset_def BuildBlobAssetURL_def)
  have all: "\<exists>as. (\<forall>s :: 's. collect (\<lambda>a. of_result (toManifestAsset pk platform a)) xs s = (Inr as, s)) \<and> map MaHash as = map SaHash xs" for xs
  proof (induction xs)
    case (Cons x xs)
    then show ?case
      using one [of x] by (auto simp: bindE_run of_result_run)
  qed simp
  obtain as where as: "\<And>s :: 's. collect (\<lambda>a. of_result (toManifestAsset pk platform a)) (Assets m) s = (Inr as, s)" "map MaHash as = map SaHash (Assets m)"
    using all by blast
  obtain l where l: "toManifestAsset pk platform (LaunchAsset m) = Inr l" "MaHash l = SaHash (LaunchAsset m)"
    using one by blast
  show ?thesis
    using as l by (intro exI [of _ as] exI [of _ l]) (simp add: manifestAssetsFromMapping_def bindE_run of_result_run)
qed

definition url_char :: "char \<Rightarrow> char" where
  "url_char c = (if (if c = CHR ''+'' then CHR ''-'' else c) = CHR 0x2F then CHR ''_'' else if c = CHR ''+'' then CHR ''-'' else c)"

lemma url_char_std: "c \<in> set alphabet \<Longrightarrow> url_char (std_char c) = c" and alphabet_unpadded: "CHR ''='' \<notin> set alphabet"
proof -
  have "list_all (\<lambda>c. url_char (std_char c) = c \<and> c \<noteq> CHR ''='') alphabet"
    by code_simp
  then show "c \<in> set alphabet \<Longrightarrow> url_char (std_char c) = c" and "CHR ''='' \<notin> set alphabet"
    by (auto simp: list_all_iff)
qed

text \<open>The hash of a file read back from an update folder is spelled exactly like a blob's.\<close>

lemma GetBase64URLEncoding_StdEncode: "GetBase64URLEncoding (StdEncode s) = base64_encode s"
proof -
  have eq: "GetBase64URLEncoding xs = TrimRight (map url_char xs) ''=''" for xs
    by (simp add: GetBase64URLEncoding_def url_char_def [abs_def] o_def)
  have undo: "map (url_char \<circ> std_char) (base64_encode s) = base64_encode s"
    by (intro map_idI) (simp add: url_char_std base64_encode_alphabet)
  have "base64_encode s = [] \<or> last (base64_encode s) \<noteq> CHR ''=''"
    using base64_encode_alphabet alphabet_unpadded last_in_set by metis
  moreover have "TrimRight (xs @ replicate n CHR ''='') ''='' = xs" if "xs = [] \<or> last xs \<noteq> CHR ''=''" for xs :: string and n
  proof -
    have "dropWhile (\<lambda>c. c = CHR ''='') (replicate n CHR ''='' @ zs) = dropWhile (\<lambda>c. c = CHR ''='') zs" for zs
      by (induction n) auto
    then show ?thesis
      using that by (cases xs rule: rev_cases) (auto simp: TrimRight_def)
  qed
  ultimately have "TrimRight (base64_encode s @ replicate n CHR ''='') ''='' = base64_encode s" for n
    by blast
  then show ?thesis
    unfolding eq StdEncode_def map_append map_map undo by (simp add: url_char_def)
qed

section \<open>Properties\<close>

text \<open>C38. What the publish guard compares.  When the incoming list names no config file twice, the comparison of an
  incoming publish with the stored one says yes exactly when there is a stored bundle and both have the same bundle
  hash, the same assets counted with multiplicity, and the same config files; order never matters.\<close>

theorem AreUpdatesIdentical_correct:
  assumes "distinct (map CfPath (ConfigFiles inc))"
  shows "AreUpdatesIdentical (Some st) (Some inc) \<longleftrightarrow>
      SaHash (LaunchAsset st) \<noteq> [] \<and> SaHash (LaunchAsset inc) = SaHash (LaunchAsset st)
    \<and> mset (map SaHash (Assets st)) = mset (map SaHash (Assets inc))
    \<and> mset (ConfigFiles st) = mset (ConfigFiles inc)"
proof -
  have "length (Assets st) = length (Assets inc)" if "mset (map SaHash (Assets st)) = mset (map SaHash (Assets inc))"
    using mset_eq_length [OF that] by simp
  then show ?thesis
    using consume_count [of "Assets st" "Assets inc"] sameConfigFiles_distinct [OF assms, of "ConfigFiles st"]
    by (auto simp: AreUpdatesIdentical_def)
qed

definition demo_mapping_a :: UpdateAssetMapping where
  "demo_mapping_a = \<lparr>LaunchAsset = \<lparr>SaHash = ''b'', SaKey = [], SaFileExtension = ''.bundle'', SaContentType = []\<rparr>,
     Assets = [\<lparr>SaHash = ''x'', SaKey = [], SaFileExtension = ''.png'', SaContentType = []\<rparr>],
     ConfigFiles = [\<lparr>CfPath = ''app.json'', CfHash = ''1''\<rparr>, \<lparr>CfPath = ''metadata.json'', CfHash = ''2''\<rparr>]\<rparr>"

theorem AreUpdatesIdentical_correct_witness:
  "AreUpdatesIdentical (Some demo_mapping_a) (Some demo_mapping_a) \<longleftrightarrow>
      SaHash (LaunchAsset demo_mapping_a) \<noteq> [] \<and> SaHash (LaunchAsset demo_mapping_a) = SaHash (LaunchAsset demo_mapping_a)
    \<and> mset (map SaHash (Assets demo_mapping_a)) = mset (map SaHash (Assets demo_mapping_a))
    \<and> mset (ConfigFiles demo_mapping_a) = mset (ConfigFiles demo_mapping_a)"
  by (rule AreUpdatesIdentical_correct) (simp add: demo_mapping_a_def)

text \<open>The comparison is not symmetric and can be fooled: nothing in the request path refuses a file list that names a
  config file twice, and then a publish that drops a stored config file compares as identical to it, so the publish
  is refused as having no changes.\<close>

lemma sameConfigFiles_incomplete:
  "\<exists>st inc. AreUpdatesIdentical (Some st) (Some inc) \<and> \<not> AreUpdatesIdentical (Some inc) (Some st)
     \<and> set (ConfigFiles st) \<noteq> set (ConfigFiles inc)"
proof -
  let ?inc = "demo_mapping_a\<lparr>ConfigFiles := [\<lparr>CfPath = ''app.json'', CfHash = ''1''\<rparr>, \<lparr>CfPath = ''app.json'', CfHash = ''1''\<rparr>]\<rparr>"
  have "AreUpdatesIdentical (Some demo_mapping_a) (Some ?inc)" "\<not> AreUpdatesIdentical (Some ?inc) (Some demo_mapping_a)"
      "set (ConfigFiles demo_mapping_a) \<noteq> set (ConfigFiles ?inc)"
    by (auto simp: AreUpdatesIdentical_def demo_mapping_a_def count_hashes_def sameConfigFiles_def)
  then show ?thesis
    by blast
qed

text \<open>C29. A publish that was verified can be served.  Let the verification of an update with an asset mapping succeed, on a
  bucket whose reads leave the state alone and with a base URL that parses.  Then every blob its manifest will name is in
  the store in the state the verification leaves, and there is one manifest, naming exactly the mapped hashes, that
  composing returns in every later state in which \<^verbatim>\<open>expoConfig.json\<close> reads as it did: whatever else has changed in the
  store or the caches, composing reads none of it and writes nothing.\<close>

theorem verified_update_composes:
  fixes bk :: "'s Bucket"
  assumes "VerifyUploadedUpdate rt pk bk u (Some m) s = (Inr (), s')"
    and "\<And>v p t. snd (GetFile bk v p t) = t" and "\<And>a h t. snd (HasBlob bk a h t) = t"
    and "\<And>q. \<exists>url. urlWithQuery pk (GetAssetEndpoint pk) q = Inr url"
  shows "list_all (\<lambda>a. fst (HasBlob bk (AppId u) (SaHash a) s') = Inr True) (LaunchAsset m # Assets m)
    \<and> (\<exists>manifest. (\<forall>t. fst (GetFile bk u ''expoConfig.json'' t) = fst (GetFile bk u ''expoConfig.json'' s') \<longrightarrow>
          ComposeUpdateManifest rt pk bk metadata u (Some sm) (Some m) platform t = (Inr manifest, t))
        \<and> MaHash (MnLaunchAsset manifest) = SaHash (LaunchAsset m)
        \<and> map MaHash (MnAssets manifest) = map SaHash (Assets m)
        \<and> MnId manifest = MdUpdateUUID sm \<and> ExtraBranch (MnExtra manifest) = Branch u)"
proof -
  obtain c s1 s2 where c: "GetExpoConfig pk bk u s1 = (Inr c, s2)" and v: "verifyBlobsUploaded bk (AppId u) m s2 = (Inr (), s')"
    using assms(1) by (auto simp: VerifyUploadedUpdate_def bindE_run split: prod.splits sum.splits if_splits)
  have blobs: "s' = s2" "list_all (\<lambda>a. fst (HasBlob bk (AppId u) (SaHash a) s') = Inr True) (LaunchAsset m # Assets m)"
    using verified_blobs [OF assms(3) v [unfolded verifyBlobsUploaded_def]] by simp_all
  obtain as l where asl: "\<And>t :: 's. manifestAssetsFromMapping pk m platform t = (Inr (as, l), t)"
      "map MaHash as = map SaHash (Assets m)" "MaHash l = SaHash (LaunchAsset m)"
    using compose_from_mapping [OF assms(4), of m platform] by blast
  let ?manifest = "\<lparr>MnId = MdUpdateUUID sm, MnCreatedAt = UmCreatedAt metadata, MnRunTimeVersion = RuntimeVersion u,
      MnMetadata = computeManifestMetadata pk u, MnAssets = as, MnLaunchAsset = l,
      MnExtra = \<lparr>ExpoClient = c, ExtraBranch = Branch u, BranchSurfingRefused = []\<rparr>\<rparr>"
  have "ComposeUpdateManifest rt pk bk metadata u (Some sm) (Some m) platform t = (Inr ?manifest, t)"
    if same: "fst (GetFile bk u ''expoConfig.json'' t) = fst (GetFile bk u ''expoConfig.json'' s')" for t
  proof -
    have "s1 = s'"
      using expo_config_stable(1) [OF assms(2) c] blobs(1) by simp
    then have "GetExpoConfig pk bk u t = (Inr c, t)"
      using expo_config_stable(2) [OF assms(2) c] same by simp
    then show ?thesis
      using asl(1) by (simp add: ComposeUpdateManifest_def manifestAssets_def bindE_run)
  qed
  then show ?thesis
    using blobs(2) asl(2,3) by (intro conjI exI [of _ ?manifest]) simp_all
qed

text \<open>A server with an empty cache, one update in its bucket, and a decoder that takes a whole file as one value.\<close>

definition demo_rt :: "unit Runtime" where
  "demo_rt = \<lparr>GetCache = \<lparr>cacheGet = (\<lambda>k s. ([], s)), cacheSet = (\<lambda>k v ttl s. s), cacheDelete = (\<lambda>k s. s)\<rparr>, IsDBMode = True,
     Version = ''1'', IsBundleDiffingEnabled = False, IsBundleDiffingCDNRedirect = False, GetCDN = None, uuidParse = Some,
     sha256 = (\<lambda>s. s), TypeByExtension = (\<lambda>_. []),
     jsonAppConfig = \<lparr>Marshal = (\<lambda>_. None), Unmarshal = (\<lambda>_. None)\<rparr>, jsonChannelResolution = \<lparr>Marshal = (\<lambda>_. None), Unmarshal = (\<lambda>_. None)\<rparr>,
     jsonUpdateWithRollout = \<lparr>Marshal = (\<lambda>_. None), Unmarshal = (\<lambda>_. None)\<rparr>, jsonCachedUpdate = \<lparr>Marshal = (\<lambda>_. None), Unmarshal = (\<lambda>_. None)\<rparr>,
     jsonSurfableBranches = \<lparr>Marshal = (\<lambda>_. None), Unmarshal = (\<lambda>_. None)\<rparr>, jsonManifestEntry = \<lparr>Marshal = (\<lambda>_. None), Unmarshal = (\<lambda>_. None)\<rparr>\<rparr>"

definition demo_pk :: Packages where
  "demo_pk = \<lparr>sha512 = (\<lambda>s. s), md5 = (\<lambda>s. s),
     Decode = (\<lambda>r. case r of Inl e \<Rightarrow> Inl (ReadError e) | Inr v \<Rightarrow> if v = [] then Inl EOF else Inr (v, Inr [])),
     decodeMetadata = (\<lambda>_. Inr \<lparr>MoVersion = 0, Bundler = ''metro'', MoFileMetadata = \<lparr>Android = \<lparr>Bundle = [], PmAssets = []\<rparr>,
       IOS = \<lparr>Bundle = ''index.bundle'', PmAssets = []\<rparr>\<rparr>\<rparr>),
     marshalMetadata = (\<lambda>_. Inr ''{}''), marshalManifest = (\<lambda>_. Inr ''{}''), unmarshalManifest = (\<lambda>_. Inl NilDereference),
     marshalBranch = Some, jsonUpdateMetadata = \<lparr>Marshal = (\<lambda>_. None), Unmarshal = (\<lambda>_. None)\<rparr>,
     jsonManifestAsset = \<lparr>Marshal = (\<lambda>_. None), Unmarshal = (\<lambda>_. None)\<rparr>, formatTime = (\<lambda>_. []),
     urlWithQuery = (\<lambda>b q. Inr b), BaseURL = ''https://updates''\<rparr>"

definition demo_bucket :: "unit Bucket" where
  "demo_bucket = \<lparr>GetFile = (\<lambda>u p. ret (Some \<lparr>Reader = Inr ''{}'', FileCreatedAt = 0\<rparr>)), HasBlob = (\<lambda>a h. ret True),
     UpdatePresignPut = (\<lambda>a b v i f. ret \<lparr>UrURL = f, UrHeaders = []\<rparr>), BlobPresignPut = (\<lambda>a h b. ret \<lparr>UrURL = h, UrHeaders = []\<rparr>)\<rparr>"

definition demo_upload :: Update where
  "demo_upload = \<lparr>AppId = ''app'', Branch = ''main'', RuntimeVersion = ''1.0'', UpdateId = ''11'', CreatedAt = 0, UpdateUUID = []\<rparr>"

theorem verified_update_composes_witness:
  "\<exists>manifest. ComposeUpdateManifest demo_rt demo_pk demo_bucket \<lparr>MetadataJSON = \<lparr>MoVersion = 0, Bundler = [],
        MoFileMetadata = \<lparr>Android = \<lparr>Bundle = [], PmAssets = []\<rparr>, IOS = \<lparr>Bundle = [], PmAssets = []\<rparr>\<rparr>\<rparr>, UmCreatedAt = [], UmID = [], Fingerprint = []\<rparr>
      demo_upload (Some \<lparr>MdPlatform = ''ios'', MdCommitHash = [], MdUpdateUUID = ''u'', MdMessage = []\<rparr>) (Some demo_mapping_a) ''ios'' () = (Inr manifest, ())
    \<and> MaHash (MnLaunchAsset manifest) = ''b'' \<and> map MaHash (MnAssets manifest) = [''x'']"
proof -
  have verified: "VerifyUploadedUpdate demo_rt demo_pk demo_bucket demo_upload (Some demo_mapping_a) () = (Inr (), ())"
    by (simp add: VerifyUploadedUpdate_def GetMetadata_def GetExpoConfig_def verifyBlobsUploaded_def verify_blob_def bindE_run mapErr_run
        cached_json_run put_json_run of_result_run shape_metadata_def CreateHash_def demo_rt_def demo_pk_def demo_bucket_def demo_upload_def
        demo_mapping_a_def Let_def)
  have urls: "\<exists>url. urlWithQuery demo_pk (GetAssetEndpoint demo_pk) q = Inr url" for q
    by (simp add: demo_pk_def)
  have hashes: "SaHash (LaunchAsset demo_mapping_a) = ''b''" "map SaHash (Assets demo_mapping_a) = [''x'']"
    by (simp_all add: demo_mapping_a_def)
  show ?thesis
    using verified_update_composes [OF verified _ _ urls, of "\<lparr>MetadataJSON = \<lparr>MoVersion = 0, Bundler = [],
        MoFileMetadata = \<lparr>Android = \<lparr>Bundle = [], PmAssets = []\<rparr>, IOS = \<lparr>Bundle = [], PmAssets = []\<rparr>\<rparr>\<rparr>, UmCreatedAt = [], UmID = [], Fingerprint = []\<rparr>"
      "\<lparr>MdPlatform = ''ios'', MdCommitHash = [], MdUpdateUUID = ''u'', MdMessage = []\<rparr>" "''ios''"]
    unfolding hashes by auto
qed

text \<open>Update ids.  From 1970 on, an id fits 64 bits without wrapping, a later millisecond always gives a larger id
  whatever the platforms, and two ids are equal only when they were minted in the same millisecond for the same
  platform: concurrent iOS and Android publishes never collide.\<close>

lemma update_ids_ordered:
  assumes "0 \<le> t" and "int64_range t" and "0 \<le> t'" and "int64_range t'"
    and "p \<in> {PlatformIOS, PlatformAndroid}" and "p' \<in> {PlatformIOS, PlatformAndroid}"
  shows "int64_range (GenerateUpdateTimestamp t p) \<and> GenerateUpdateTimestamp t p div 10 = t div 1000000
    \<and> (t div 1000000 < t' div 1000000 \<longrightarrow> GenerateUpdateTimestamp t p < GenerateUpdateTimestamp t' p')
    \<and> (GenerateUpdateTimestamp t p = GenerateUpdateTimestamp t' p' \<longleftrightarrow> t div 1000000 = t' div 1000000 \<and> p = p')"
proof -
  have digit: "GenerateUpdateTimestamp x q = x div 1000000 * 10 + (if q = PlatformIOS then 1 else 2) \<and> int64_range (GenerateUpdateTimestamp x q)"
    if "0 \<le> x" "int64_range x" "q \<in> {PlatformIOS, PlatformAndroid}" for x q
  proof -
    have "int64_range (x div 1000000 * 10 + 1)" "int64_range (x div 1000000 * 10 + 2)"
      using \<open>0 \<le> x\<close> \<open>int64_range x\<close> by (simp_all add: int64_range_def)
    moreover have "x sdiv 1000000 = x div 1000000"
      using \<open>0 \<le> x\<close> by (simp add: signed_divide_int_def sgn_if)
    moreover have "q = PlatformIOS \<or> q \<noteq> PlatformIOS \<and> q = PlatformAndroid"
      using that(3) by auto
    ultimately show ?thesis
      by (auto simp: GenerateUpdateTimestamp_def wrap64_id)
  qed
  have order: "(x * 10 + k) div 10 = x \<and> (x < x' \<longrightarrow> x * 10 + k < x' * 10 + k') \<and> (x * 10 + k = x' * 10 + k' \<longleftrightarrow> x = x' \<and> k = k')"
    if "k = 1 \<or> k = 2" "k' = 1 \<or> k' = 2" for x x' k k' :: int
  proof -
    have div: "(x * 10 + k) div 10 = x" "(x' * 10 + k') div 10 = x'"
      using that by auto
    moreover have "x < x' \<longrightarrow> x * 10 + k < x' * 10 + k'"
      using that by auto
    moreover have "x * 10 + k = x' * 10 + k' \<longrightarrow> x = x'"
      using div by metis
    ultimately show ?thesis
      by auto
  qed
  define k k' :: int where "k = (if p = PlatformIOS then 1 else 2)" and "k' = (if p' = PlatformIOS then 1 else 2)"
  have "k = k' \<longleftrightarrow> p = p'" "k = 1 \<or> k = 2" "k' = 1 \<or> k' = 2"
    using assms(5,6) by (auto simp: k_def k'_def PlatformIOS_def PlatformAndroid_def)
  then show ?thesis
    using order [of k k' "t div 1000000" "t' div 1000000"] digit [OF assms(1,2,5), folded k_def] digit [OF assms(3,4,6), folded k'_def]
    by metis
qed

end
