(* ===== verification/Deployment.thy ===== *)
theory Deployment
  imports Management Manifest Repositories
begin

text \<open>
  Publishing: \<^verbatim>\<open>deployment_service.go\<close> and the presigning loop of \<^verbatim>\<open>bucket.go\<close>.  An upload is requested, which creates
  an unchecked update; once the files are there it is processed, which verifies and stamps it; a rollback and a
  republish create and stamp an update in one go.  The clock is read through the service; the UUID of a new publish
  group is an argument; a \<^verbatim>\<open>go\<close> statement queues a job.
\<close>

section \<open>Requests\<close>

record ProcessUpdateParams =
  PuAppID :: string
  PuBranchName :: string
  PuPlatform :: string
  PuRuntimeVersion :: string
  PuUpdateID :: string

definition FileRoleLaunch :: string where "FileRoleLaunch = ''launch''"
definition FileRoleAsset :: string where "FileRoleAsset = ''asset''"
definition FileRoleConfig :: string where "FileRoleConfig = ''config''"

record FileUploadItem =
  FiPath :: string
  FiHash :: string
  FiKey :: string
  FiExt :: string
  FiRole :: string

record SourcemapUploadItem =
  SmPath :: string
  SmHash :: string

definition shapeAsset :: "'s Runtime \<Rightarrow> FileUploadItem \<Rightarrow> bool \<Rightarrow> ShapedAsset" where
  "shapeAsset rt file isLaunchAsset =
     \<lparr>SaHash = FiHash file, SaKey = FiKey file, SaFileExtension = ''.'' @ (if isLaunchAsset then ''bundle'' else FiExt file),
      SaContentType = AssetContentType rt (FiExt file) isLaunchAsset\<rparr>"

definition no_asset :: ShapedAsset where
  "no_asset = \<lparr>SaHash = [], SaKey = [], SaFileExtension = [], SaContentType = []\<rparr>"

text \<open>The loop over the file list, with the mapping and the number of launch assets as its accumulators; a role
  the switch does not name is skipped.\<close>

fun role_loop :: "'s Runtime \<Rightarrow> FileUploadItem list \<Rightarrow> UpdateAssetMapping \<Rightarrow> nat \<Rightarrow> UpdateAssetMapping \<times> nat" where
  "role_loop rt [] mapping launchAssets = (mapping, launchAssets)"
| "role_loop rt (file # files) mapping launchAssets =
     (if FiRole file = FileRoleLaunch then role_loop rt files (mapping\<lparr>LaunchAsset := shapeAsset rt file True\<rparr>) (launchAssets + 1)
      else if FiRole file = FileRoleAsset then
        role_loop rt files (mapping\<lparr>Assets := Assets mapping @ [shapeAsset rt file False]\<rparr>) launchAssets
      else if FiRole file = FileRoleConfig then
        role_loop rt files (mapping\<lparr>ConfigFiles := ConfigFiles mapping @ [\<lparr>CfPath = FiPath file, CfHash = FiHash file\<rparr>]\<rparr>) launchAssets
      else role_loop rt files mapping launchAssets)"

definition assetMapping :: "'s Runtime \<Rightarrow> FileUploadItem list \<Rightarrow> (err, UpdateAssetMapping) result" where
  "assetMapping rt files =
     (case role_loop rt files \<lparr>LaunchAsset = no_asset, Assets = [], ConfigFiles = []\<rparr> 0 of (mapping, launchAssets) \<Rightarrow>
        if launchAssets \<noteq> 1 then Inl (Wrapped (Msg ''%w: got %d'' [FormatInt (int launchAssets)]) ErrLaunchAssetRequired)
        else Inr mapping)"

record RequestUploadURLParams =
  RqAppID :: string
  RqBranchName :: string
  RqPlatform :: string
  RqCommitHash :: string
  RqRuntimeVersion :: string
  RqFiles :: "FileUploadItem list"
  RqSourcemap :: "SourcemapUploadItem option"
  RqMessage :: string
  RqRolloutPercentage :: "int option"
  RqPublishGroupID :: "string option"

record FileUploadRequest =
  RequestUploadUrl :: string
  FileName :: string
  FilePath :: string
  OriginalFileName :: string
  FurHash :: string
  Headers :: "(string \<times> string) list"

record UploadFile =
  UfName :: string
  UfHash :: string
  InUpdateFolder :: bool

record RequestUploadURLResponse =
  RespUpdateID :: int
  UploadRequests :: "FileUploadRequest list"

record GroupOperationResult =
  ResPublishGroup :: string
  ResUpdates :: "Update list"

section \<open>The service\<close>

record 's DeploymentService =
  dsBranchService :: "'s BranchService"
  dsUpdateRepo :: "'s UpdateRepository"
  dsBsDiffService :: bool
  dsBlobStore :: "'s BlobStore"
  dsUpdateStore :: "'s UpdateStore"
  dsSourcemapStore :: "'s SourcemapStore option"
  dsSourcemapIndexer :: "(Update \<Rightarrow> string \<Rightarrow> ('s, unit) op) option"
  dsOnAuditEvent :: "'s RecordFunc option"
  dsSpawn :: "job \<Rightarrow> 's \<Rightarrow> 's"
  dsNow :: "'s \<Rightarrow> int"

definition recordDeliveryEvent :: "'s DeploymentService \<Rightarrow> Ctx \<Rightarrow> string \<Rightarrow> Update \<Rightarrow> (string \<times> meta) list \<Rightarrow> ('s, unit) op" where
  "recordDeliveryEvent ds ctx action u metadata = (case dsOnAuditEvent ds of
     None \<Rightarrow> ret ()
   | Some _ \<Rightarrow> recordManagementEvent ctx (dsOnAuditEvent ds) (new_event action ''update'' (UpdateId u) (AppId u)
       (metadata @ [(''branch'', MetaText (Branch u)), (''runtime_version'', MetaText (RuntimeVersion u))])))"

text \<open>\<^verbatim>\<open>time.Now().UnixNano()\<close>, as \<^verbatim>\<open>GenerateUpdateTimestamp\<close> reads it.\<close>

definition generate_id :: "'s DeploymentService \<Rightarrow> string \<Rightarrow> ('s, int) op" where
  "generate_id ds platform = (\<lambda>s. (Inr (GenerateUpdateTimestamp (dsNow ds s) platform), s))"

definition verifySourcemapUploaded :: "'s DeploymentService \<Rightarrow> Update \<Rightarrow> ('s, string option) op" where
  "verifySourcemapUploaded ds u =
     bindE (mapErr (\<lambda>e. Wrapped2 (Msg ''%w: reading source map metadata: %w'' []) ErrSourcemapVerificationUnavailable e)
       (GetUpdateSourcemapHash (dsUpdateRepo ds) u)) (\<lambda>hash. case hash of
       None \<Rightarrow> ret None
     | Some h \<Rightarrow> (case dsSourcemapStore ds of
         None \<Rightarrow> throw (ErrorText (Msg ''sourcemap %s declared but sourcemap uploads are disabled'' [h]))
       | Some store \<Rightarrow>
           bindE (mapErr (\<lambda>e. Wrapped2 (Msg ''%w: checking sourcemap %s: %w'' [h]) ErrSourcemapVerificationUnavailable e)
             (SourcemapExists store (AppId u) h)) (\<lambda>present.
             if present then ret (Some h) else throw (ErrorText (Msg ''missing sourcemap %s in update'' [h])))))"

definition scheduleSourcemapIndex :: "'s DeploymentService \<Rightarrow> Update \<Rightarrow> string option \<Rightarrow> ('s, unit) op" where
  "scheduleSourcemapIndex ds u hash = (case (hash, dsSourcemapIndexer ds) of
     (Some h, Some schedule) \<Rightarrow> bindE (attempt (schedule u h)) (\<lambda>_. ret ())
   | _ \<Rightarrow> ret ())"

definition getUpdateUUIDFromMetadata :: "'s Runtime \<Rightarrow> Packages \<Rightarrow> 's Bucket \<Rightarrow> Update \<Rightarrow> ('s, string) op" where
  "getUpdateUUIDFromMetadata rt pk bk u = bindE (attempt (GetMetadata rt pk bk u)) (\<lambda>r. case r of
     Inl _ \<Rightarrow> ret [] | Inr metadata \<Rightarrow> ret (ConvertSHA256HashToUUID (UmID metadata)))"

text \<open>What \<^verbatim>\<open>MarkUpdateAsChecked\<close> makes of the repository's refusals.\<close>

definition checked_refusal :: "err \<Rightarrow> err" where
  "checked_refusal e =
     (if IsUniqueViolation e then ErrActiveRolloutBlocksPublish
      else if errors_Is e ErrPublishBlockedByActiveRollout then ErrActiveRolloutBlocksPublish
      else if errors_Is e ErrRolloutSupersededByNewerUpdate then ErrRolloutSuperseded
      else e)"

text \<open>The uuid of a normal update, which is derived from its files and stored; a rollback has none.\<close>

definition store_uuid :: "'s Runtime \<Rightarrow> Packages \<Rightarrow> 's Bucket \<Rightarrow> 's DeploymentService \<Rightarrow> Update \<Rightarrow> int \<Rightarrow> ('s, string) op" where
  "store_uuid rt pk bk ds u updateType =
     (if updateType = NormalUpdate then
        bindE (getUpdateUUIDFromMetadata rt pk bk u) (\<lambda>updateUUID.
        bindE (StoreUpdateUUIDInMetadata (dsUpdateRepo ds) u updateUUID) (\<lambda>_. ret updateUUID))
      else ret [])"

text \<open>The work that follows a publish: the manifests of both platforms, their controls, and the patches.\<close>

definition publish_jobs :: "bool \<Rightarrow> Update \<Rightarrow> int \<Rightarrow> string \<Rightarrow> string \<Rightarrow> job list" where
  "publish_jobs hasBsDiff u updateType updateUUID platform =
     [PreWarmManifestJob (AppId u) (Branch u) (RuntimeVersion u) PlatformIOS,
      PreWarmManifestJob (AppId u) (Branch u) (RuntimeVersion u) PlatformAndroid,
      PreWarmControlJob (AppId u) (Branch u) (RuntimeVersion u) PlatformIOS,
      PreWarmControlJob (AppId u) (Branch u) (RuntimeVersion u) PlatformAndroid]
     @ (if updateType = NormalUpdate \<and> hasBsDiff then [ComputeBSDiffJob u updateUUID platform] else [])"

definition MarkUpdateAsCheckedOp :: "'s Runtime \<Rightarrow> Packages \<Rightarrow> 's Bucket \<Rightarrow> 's DeploymentService \<Rightarrow> Update \<Rightarrow> int \<Rightarrow> ('s, string) op" where
  "MarkUpdateAsCheckedOp rt pk bk ds u updateType =
     bindE (RetrieveUpdateStoredMetadata (dsUpdateRepo ds) u) (\<lambda>stored. case stored of
       None \<Rightarrow> ret []
     | Some storedMetadata \<Rightarrow>
         bindE (store_uuid rt pk bk ds u updateType) (\<lambda>updateUUID.
         bindE (mapErr checked_refusal (MarkUpdateAsChecked (dsUpdateRepo ds) u)) (\<lambda>_.
         bindE (forget_all rt [ComputeLastUpdateCacheKey rt (AppId u) (Branch u) (RuntimeVersion u) (MdPlatform storedMetadata),
           ComputeGetBranchesCacheKey rt (AppId u), ComputeGetChannelsCacheKey rt (AppId u),
           ComputeGetRuntimeVersionsCacheKey rt (AppId u) (Branch u)]) (\<lambda>_.
         bindE (modify (fold (dsSpawn ds) (publish_jobs (dsBsDiffService ds) u updateType updateUUID (MdPlatform storedMetadata)))) (\<lambda>_.
         ret updateUUID)))))"

section \<open>Processing an upload\<close>

text \<open>What becomes of an upload whose verification failed: the folder goes unless the failure may be transient.\<close>

definition reject_upload :: "'s DeploymentService \<Rightarrow> ProcessUpdateParams \<Rightarrow> err \<Rightarrow> ('s, 'a) op" where
  "reject_upload ds params errorVerify =
     (let drop_folder = UpdateStoreDelete (dsUpdateStore ds) (PuAppID params) (PuBranchName params) (PuRuntimeVersion params) (PuUpdateID params)
      in if errors_Is errorVerify ErrInvalidExpoConfig then
           bindE drop_folder (\<lambda>_. throw (Wrapped (Msg ''%w: %s'' []) ErrInvalidUpdate))
         else if errors_Is errorVerify ErrExpoConfigUnreadable \<or> errors_Is errorVerify ErrSourcemapVerificationUnavailable then
           throw errorVerify
         else bindE drop_folder (\<lambda>_. throw (Wrapped (Msg ''%w: %s'' []) ErrInvalidUpdate)))"

definition ProcessUploadedUpdate :: "'s Runtime \<Rightarrow> Packages \<Rightarrow> 's Bucket \<Rightarrow> 's DeploymentService \<Rightarrow> Ctx \<Rightarrow> ProcessUpdateParams \<Rightarrow> ('s, string) op" where
  "ProcessUploadedUpdate rt pk bk ds ctx params =
     bindE (UpsertBranchAndRuntimeVersionOp (dsBranchService ds) (PuAppID params) (PuBranchName params) (PuRuntimeVersion params)) (\<lambda>_.
     bindE (GetUpdate (dsUpdateRepo ds) (PuAppID params) (PuBranchName params) (PuRuntimeVersion params) (PuUpdateID params)) (\<lambda>found.
     case found of None \<Rightarrow> throw NilDereference | Some currentUpdate \<Rightarrow>
     bindE (GetUpdateAssetMapping (dsUpdateRepo ds) currentUpdate) (\<lambda>mapping.
     bindE (attempt (bindE (VerifyUploadedUpdate rt pk bk currentUpdate mapping) (\<lambda>_. verifySourcemapUploaded ds currentUpdate))) (\<lambda>verified.
     case verified of
       Inl errorVerify \<Rightarrow> reject_upload ds params errorVerify
     | Inr sourcemapHash \<Rightarrow>
         bindE (MarkUpdateAsCheckedOp rt pk bk ds currentUpdate NormalUpdate) (\<lambda>updateUUID.
         bindE (scheduleSourcemapIndex ds currentUpdate sourcemapHash) (\<lambda>_.
         bindE (recordDeliveryEvent ds ctx ''update.published'' currentUpdate [(''platform'', MetaText (PuPlatform params))]) (\<lambda>_.
         ret updateUUID)))))))"

section \<open>Requesting an upload\<close>

text \<open>\<^verbatim>\<open>path.Base\<close>.\<close>

definition path_Base :: "string \<Rightarrow> string" where
  "path_Base p = (if p = [] then ''.''
     else let stripped = TrimRight p ''/''; name = rev (takeWhile (\<lambda>c. c \<noteq> CHR 0x2F) (rev stripped))
       in if name = [] then ''/'' else name)"

definition upload_request :: "UploadRequest \<Rightarrow> string \<Rightarrow> string \<Rightarrow> FileUploadRequest" where
  "upload_request upload name hash =
     \<lparr>RequestUploadUrl = UrURL upload, FileName = path_Base name, FilePath = name, OriginalFileName = name, FurHash = hash,
      Headers = UrHeaders upload\<rparr>"

definition requestSourcemapUpload :: "'s DeploymentService \<Rightarrow> 's SourcemapStore \<Rightarrow> RequestUploadURLParams \<Rightarrow> SourcemapUploadItem \<Rightarrow> Update
    \<Rightarrow> ('s, FileUploadRequest option) op" where
  "requestSourcemapUpload ds store params sourcemap u =
     bindE (StoreUpdateSourcemapHash (dsUpdateRepo ds) u (SmHash sourcemap)) (\<lambda>_.
     bindE (SourcemapExists store (RqAppID params) (SmHash sourcemap)) (\<lambda>present.
     if present then ret None
     else bindE (SourcemapPresignPut store (RqAppID params) (SmHash sourcemap) (RqBranchName params)) (\<lambda>upload.
       ret (Some (upload_request upload (SmPath sourcemap) (SmHash sourcemap))))))"

definition uploadFiles :: "FileUploadItem list \<Rightarrow> UploadFile list" where
  "uploadFiles files = map (\<lambda>file. \<lparr>UfName = FiPath file, UfHash = FiHash file, InUpdateFolder = (FiRole file = FileRoleConfig)\<rparr>) files"

text \<open>The workers of the deduplication only read the blob store; they run here in the order of the list.\<close>

fun dedup_loop :: "'s DeploymentService \<Rightarrow> string \<Rightarrow> UploadFile list \<Rightarrow> string set \<Rightarrow> ('s, string list) op" where
  "dedup_loop ds appId [] seen = ret []"
| "dedup_loop ds appId (file # files) seen =
     (if InUpdateFolder file \<or> UfName file \<in> seen then dedup_loop ds appId files seen
      else bindE (attempt (BlobExists (dsBlobStore ds) appId (UfHash file))) (\<lambda>r.
        bindE (dedup_loop ds appId files (insert (UfName file) seen)) (\<lambda>names.
        ret (if r = Inr True then UfName file # names else names))))"

definition dedupExistingUploadAssets :: "'s DeploymentService \<Rightarrow> string \<Rightarrow> UploadFile list \<Rightarrow> ('s, string list) op" where
  "dedupExistingUploadAssets ds appId files = dedup_loop ds appId files {}"

definition isIdenticalToLatest :: "'s DeploymentService \<Rightarrow> RequestUploadURLParams \<Rightarrow> UpdateAssetMapping \<Rightarrow> ('s, bool) op" where
  "isIdenticalToLatest ds params incoming =
     bindE (attempt (GetLatestUpdate (dsUpdateRepo ds) (RqAppID params) (RqBranchName params) (RqRuntimeVersion params) (RqPlatform params))) (\<lambda>r.
     case r of
       Inr (Some latest) \<Rightarrow> bindE (attempt (GetUpdateAssetMapping (dsUpdateRepo ds) latest)) (\<lambda>m. case m of
         Inl _ \<Rightarrow> ret False | Inr stored \<Rightarrow> ret (AreUpdatesIdentical stored (Some incoming)))
     | _ \<Rightarrow> ret False)"

text \<open>The presigning loop, with the blobs it has presigned.\<close>

fun presign_loop :: "'s Bucket \<Rightarrow> string \<Rightarrow> string \<Rightarrow> string \<Rightarrow> string \<Rightarrow> UploadFile list \<Rightarrow> string set \<Rightarrow> ('s, FileUploadRequest list) op" where
  "presign_loop bk appId branch runtimeVersion updateId [] presignedBlobs = ret []"
| "presign_loop bk appId branch runtimeVersion updateId (file # files) presignedBlobs =
     (if InUpdateFolder file then
        bindE (UpdatePresignPut bk appId branch runtimeVersion updateId (UfName file)) (\<lambda>upload.
        bindE (presign_loop bk appId branch runtimeVersion updateId files presignedBlobs) (\<lambda>requests.
        ret (upload_request upload (UfName file) (UfHash file) # requests)))
      else if UfHash file \<in> presignedBlobs then presign_loop bk appId branch runtimeVersion updateId files presignedBlobs
      else bindE (BlobPresignPut bk appId (UfHash file) branch) (\<lambda>upload.
        bindE (presign_loop bk appId branch runtimeVersion updateId files (insert (UfHash file) presignedBlobs)) (\<lambda>requests.
        ret (upload_request upload (UfName file) (UfHash file) # requests))))"

definition RequestUploadUrlsForFileUpdates :: "'s Bucket \<Rightarrow> string \<Rightarrow> string \<Rightarrow> string \<Rightarrow> string \<Rightarrow> UploadFile list \<Rightarrow> ('s, FileUploadRequest list) op" where
  "RequestUploadUrlsForFileUpdates bk appId branch runtimeVersion updateId files =
     presign_loop bk appId branch runtimeVersion updateId files {}"

text \<open>The files that still have to be uploaded, and the row the publish creates.\<close>

definition missing_files :: "'s DeploymentService \<Rightarrow> RequestUploadURLParams \<Rightarrow> ('s, UploadFile list) op" where
  "missing_files ds params =
     bindE (dedupExistingUploadAssets ds (RqAppID params) (uploadFiles (RqFiles params))) (\<lambda>dedupedAssets.
     ret (filter (\<lambda>file. UfName file \<notin> set dedupedAssets) (uploadFiles (RqFiles params))))"

definition create_row :: "'s DeploymentService \<Rightarrow> RequestUploadURLParams \<Rightarrow> int \<Rightarrow> ('s, Update option) op" where
  "create_row ds params updateId = (case RqRolloutPercentage params of
     Some percentage \<Rightarrow> CreateUpdateWithRollout (dsUpdateRepo ds) (RqAppID params) updateId (RqBranchName params) (RqRuntimeVersion params)
       (RqPlatform params) (RqCommitHash params) (RqMessage params) percentage (RqPublishGroupID params)
   | None \<Rightarrow> CreateUpdate (dsUpdateRepo ds) (RqAppID params) updateId (RqBranchName params) (RqRuntimeVersion params)
       (RqPlatform params) (RqCommitHash params) (RqMessage params) (RqPublishGroupID params))"

text \<open>The response is formed once the mapping and the source map are recorded.\<close>

definition finish_request :: "'s DeploymentService \<Rightarrow> RequestUploadURLParams \<Rightarrow> UpdateAssetMapping \<Rightarrow> FileUploadRequest list \<Rightarrow> Update
    \<Rightarrow> ('s, RequestUploadURLResponse) op" where
  "finish_request ds params mapping updateRequests newUpdate =
     bindE (StoreUpdateAssetMapping (dsUpdateRepo ds) newUpdate mapping) (\<lambda>_.
     bindE (case (RqSourcemap params, dsSourcemapStore ds) of
         (Some sourcemap, Some store) \<Rightarrow> requestSourcemapUpload ds store params sourcemap newUpdate
       | _ \<Rightarrow> ret None) (\<lambda>extra.
     ret \<lparr>RespUpdateID = ParseInt_value (UpdateId newUpdate),
          UploadRequests = updateRequests @ (case extra of None \<Rightarrow> [] | Some r \<Rightarrow> [r])\<rparr>))"

definition RequestUploadURLs :: "'s Runtime \<Rightarrow> 's Bucket \<Rightarrow> 's DeploymentService \<Rightarrow> RequestUploadURLParams \<Rightarrow> ('s, RequestUploadURLResponse) op" where
  "RequestUploadURLs rt bk ds params =
     bindE (UpsertBranchAndRuntimeVersionOp (dsBranchService ds) (RqAppID params) (RqBranchName params) (RqRuntimeVersion params)) (\<lambda>_.
     bindE (HasActiveRolloutUpdate (dsUpdateRepo ds) (RqAppID params) (RqBranchName params) (RqRuntimeVersion params)) (\<lambda>hasActiveRollout.
     if hasActiveRollout then throw ErrActiveRolloutBlocksPublish else
     bindE (of_result (assetMapping rt (RqFiles params))) (\<lambda>mapping.
     bindE (isIdenticalToLatest ds params mapping) (\<lambda>identical.
     if identical then throw ErrNoChangesDetected else
     bindE (generate_id ds (RqPlatform params)) (\<lambda>updateId.
     bindE (missing_files ds params) (\<lambda>files.
     bindE (RequestUploadUrlsForFileUpdates bk (RqAppID params) (RqBranchName params) (RqRuntimeVersion params)
       (ConvertUpdateTimestampToString updateId) files) (\<lambda>updateRequests.
     bindE (create_row ds params updateId) (\<lambda>created. case created of
       None \<Rightarrow> throw (ErrorText (Msg ''failed to create update record: no update returned'' []))
     | Some newUpdate \<Rightarrow> finish_request ds params mapping updateRequests newUpdate))))))))"

section \<open>Rollbacks and republishes\<close>

definition createRollbackInternal :: "'s Runtime \<Rightarrow> Packages \<Rightarrow> 's Bucket \<Rightarrow> 's DeploymentService \<Rightarrow> string \<Rightarrow> string \<Rightarrow> string \<Rightarrow> string \<Rightarrow> string \<Rightarrow> string
    \<Rightarrow> ('s, Update) op" where
  "createRollbackInternal rt pk bk ds appId platform commitHash runtimeVersion branchName msg =
     bindE (generate_id ds platform) (\<lambda>updateId.
     bindE (CreateRollback (dsUpdateRepo ds) appId updateId branchName runtimeVersion platform commitHash msg) (\<lambda>created. case created of
       None \<Rightarrow> throw (ErrorText (Msg ''failed to create rollback: no update returned'' []))
     | Some rollback \<Rightarrow> bindE (MarkUpdateAsCheckedOp rt pk bk ds rollback Rollback) (\<lambda>_. ret rollback)))"

definition CreateRollbackOp :: "'s Runtime \<Rightarrow> Packages \<Rightarrow> 's Bucket \<Rightarrow> 's DeploymentService \<Rightarrow> Ctx \<Rightarrow> string \<Rightarrow> string \<Rightarrow> string \<Rightarrow> string \<Rightarrow> string \<Rightarrow> string
    \<Rightarrow> ('s, Update) op" where
  "CreateRollbackOp rt pk bk ds ctx appId platform commitHash runtimeVersion branchName msg =
     bindE (HasActiveRolloutUpdate (dsUpdateRepo ds) appId branchName runtimeVersion) (\<lambda>hasActiveRollout.
     if hasActiveRollout then throw ErrActiveRolloutBlocksPublish else
     bindE (createRollbackInternal rt pk bk ds appId platform commitHash runtimeVersion branchName msg) (\<lambda>rollback.
     bindE (recordDeliveryEvent ds ctx ''update.rollback'' rollback
       ([(''platform'', MetaText platform), (''commit_hash'', MetaText commitHash)] @ (if msg \<noteq> [] then [(''message'', MetaText msg)] else []))) (\<lambda>_.
     ret rollback)))"

text \<open>The checks on the update that is to be republished; the result is what the copy keeps of it.\<close>

definition republish_source :: "'s DeploymentService \<Rightarrow> Update \<Rightarrow> string \<Rightarrow> ('s, UpdateAssetMapping option \<times> string option) op" where
  "republish_source ds previousUpdate platform =
     bindE (mapErr (\<lambda>_. RepublishError 400 (Msg ''Error getting update'' []))
       (GetUpdate (dsUpdateRepo ds) (AppId previousUpdate) (Branch previousUpdate) (RuntimeVersion previousUpdate) (UpdateId previousUpdate))) (\<lambda>found.
     case found of None \<Rightarrow> throw (RepublishError 404 (Msg ''No update found'' [])) | Some existing \<Rightarrow>
     bindE (mapErr (Wrapped (Msg ''failed to resolve update type: %w'' [])) (GetUpdateType (dsUpdateRepo ds) existing)) (\<lambda>updateType.
     if updateType \<noteq> NormalUpdate then throw (RepublishError 400 (Msg ''Update type is not normal update'' [])) else
     bindE (mapErr (Wrapped (Msg ''failed to check update validity: %w'' [])) (IsUpdateValid (dsUpdateRepo ds) existing)) (\<lambda>valid.
     if \<not> valid then throw (RepublishError 400 (Msg ''Update is not valid'' [])) else
     bindE (mapErr (\<lambda>_. RepublishError 500 (Msg ''Error retrieving update commit hash and platform'' []))
       (RetrieveUpdateStoredMetadata (dsUpdateRepo ds) existing)) (\<lambda>stored. case stored of
       None \<Rightarrow> throw (RepublishError 404 (Msg ''No stored metadata found for update'' []))
     | Some metadata \<Rightarrow>
       if MdPlatform metadata \<noteq> platform then throw (RepublishError 400 (Msg ''Update platform mismatch'' [])) else
       bindE (mapErr (Wrapped (Msg ''failed to read the source update asset mapping: %w'' [])) (GetUpdateAssetMapping (dsUpdateRepo ds) existing)) (\<lambda>mapping.
       bindE (mapErr (Wrapped (Msg ''failed to read the source update sourcemap: %w'' [])) (GetUpdateSourcemapHash (dsUpdateRepo ds) existing)) (\<lambda>sourcemapHash.
       ret (mapping, sourcemapHash)))))))"

text \<open>A nil result of \<^verbatim>\<open>CreateUpdate\<close> is dereferenced.\<close>

definition republishUpdateInternal :: "'s Runtime \<Rightarrow> Packages \<Rightarrow> 's Bucket \<Rightarrow> 's DeploymentService \<Rightarrow> Update \<Rightarrow> string \<Rightarrow> string \<Rightarrow> string option
    \<Rightarrow> ('s, Update) op" where
  "republishUpdateInternal rt pk bk ds previousUpdate platform commitHash publishGroup =
     bindE (republish_source ds previousUpdate platform) (\<lambda>(mapping, sourcemapHash).
     bindE (generate_id ds platform) (\<lambda>updateId.
     bindE (CreateFrom (dsUpdateStore ds) previousUpdate (ConvertUpdateTimestampToString updateId)) (\<lambda>_.
     bindE (CreateUpdate (dsUpdateRepo ds) (AppId previousUpdate) updateId (Branch previousUpdate) (RuntimeVersion previousUpdate)
       platform commitHash [] publishGroup) (\<lambda>created. case created of None \<Rightarrow> throw NilDereference | Some newUpdate \<Rightarrow>
     bindE (case mapping of None \<Rightarrow> ret () | Some m \<Rightarrow>
       mapErr (Wrapped (Msg ''failed to store the republished update asset mapping: %w'' [])) (StoreUpdateAssetMapping (dsUpdateRepo ds) newUpdate m)) (\<lambda>_.
     bindE (case sourcemapHash of None \<Rightarrow> ret () | Some h \<Rightarrow>
       mapErr (Wrapped (Msg ''failed to store the republished update sourcemap: %w'' [])) (StoreUpdateSourcemapHash (dsUpdateRepo ds) newUpdate h)) (\<lambda>_.
     bindE (MarkUpdateAsCheckedOp rt pk bk ds newUpdate NormalUpdate) (\<lambda>_.
     bindE (scheduleSourcemapIndex ds newUpdate sourcemapHash) (\<lambda>_.
     ret newUpdate))))))))"

definition RepublishUpdate :: "'s Runtime \<Rightarrow> Packages \<Rightarrow> 's Bucket \<Rightarrow> 's DeploymentService \<Rightarrow> Ctx \<Rightarrow> Update \<Rightarrow> string \<Rightarrow> string \<Rightarrow> string option
    \<Rightarrow> ('s, Update) op" where
  "RepublishUpdate rt pk bk ds ctx previousUpdate platform commitHash publishGroup =
     bindE (HasActiveRolloutUpdate (dsUpdateRepo ds) (AppId previousUpdate) (Branch previousUpdate) (RuntimeVersion previousUpdate)) (\<lambda>hasActiveRollout.
     if hasActiveRollout then throw ErrActiveRolloutBlocksPublish else
     bindE (republishUpdateInternal rt pk bk ds previousUpdate platform commitHash publishGroup) (\<lambda>newUpdate.
     bindE (recordDeliveryEvent ds ctx ''update.republished'' newUpdate
       [(''platform'', MetaText platform), (''source_update_id'', MetaText (UpdateId previousUpdate))]) (\<lambda>_.
     ret newUpdate)))"

definition RepublishUpdateByID :: "'s Runtime \<Rightarrow> Packages \<Rightarrow> 's Bucket \<Rightarrow> 's DeploymentService \<Rightarrow> Ctx \<Rightarrow> string \<Rightarrow> string \<Rightarrow> string \<Rightarrow> string \<Rightarrow> ('s, Update) op" where
  "RepublishUpdateByID rt pk bk ds ctx appId branchName runtimeVersion updateId =
     bindE (mapErr (Wrapped (Msg ''failed to read the update to republish: %w'' []))
       (GetUpdate (dsUpdateRepo ds) appId branchName runtimeVersion updateId)) (\<lambda>found. case found of
       None \<Rightarrow> throw (RepublishError 404 (Msg ''No update found'' []))
     | Some previousUpdate \<Rightarrow>
         bindE (mapErr (Wrapped (Msg ''failed to read the stored metadata of the update to republish: %w'' []))
           (RetrieveUpdateStoredMetadata (dsUpdateRepo ds) previousUpdate)) (\<lambda>stored. case stored of
           None \<Rightarrow> throw (RepublishError 404 (Msg ''No stored metadata found for update'' []))
         | Some metadata \<Rightarrow> RepublishUpdate rt pk bk ds ctx previousUpdate (MdPlatform metadata) (MdCommitHash metadata) None))"

definition member_update :: "string \<Rightarrow> string \<Rightarrow> string \<Rightarrow> PublishGroupMember \<Rightarrow> Update" where
  "member_update appId branchName runtimeVersion m =
     \<lparr>AppId = appId, Branch = branchName, RuntimeVersion = runtimeVersion, UpdateId = PgmUpdateId m, CreatedAt = 0, UpdateUUID = []\<rparr>"

definition RepublishPublishGroup :: "'s Runtime \<Rightarrow> Packages \<Rightarrow> 's Bucket \<Rightarrow> 's DeploymentService \<Rightarrow> Ctx \<Rightarrow> string \<Rightarrow> string \<Rightarrow> string \<Rightarrow> string \<Rightarrow> string
    \<Rightarrow> ('s, GroupOperationResult) op" where
  "RepublishPublishGroup rt pk bk ds ctx newGroup appId branchName runtimeVersion publishGroup =
     bindE (GetUpdatesByPublishGroup (dsUpdateRepo ds) appId branchName runtimeVersion publishGroup) (\<lambda>members.
     if members = [] then throw ErrPublishGroupNotFound else
     bindE (collect (\<lambda>m. mapErr (Wrapped (Msg ''republish of platform %s failed: %w'' [PgmPlatform m]))
       (RepublishUpdate rt pk bk ds ctx (member_update appId branchName runtimeVersion m) (PgmPlatform m) (PgmCommitHash m) (Some newGroup))) members) (\<lambda>us.
     ret \<lparr>ResPublishGroup = newGroup, ResUpdates = us\<rparr>))"

end
