(* ===== verification/Progression.thy ===== *)
theory Progression
  imports Deployment
begin

text \<open>
  The rollout lifecycle as the dashboard drives it, \<^verbatim>\<open>rollout_service.go\<close>: channel rollouts are started, progressed,
  promoted or reverted; update rollouts are progressed, finished or reverted.  The repository is nil without a
  database.  The UUID of a new channel rollout is an argument.
\<close>

record 's RolloutService =
  rsRolloutRepo :: "'s RolloutRepository option"
  rsChannelRepo :: "'s ChannelRepository"
  rsUpdateRepo :: "'s UpdateRepository"
  rsDeploymentService :: "'s DeploymentService"
  rsOnAuditEvent :: "'s RecordFunc option"

text \<open>The nil check every operation starts with.\<close>

definition with_rollouts :: "'s RolloutService \<Rightarrow> ('s RolloutRepository \<Rightarrow> ('s, 'a) op) \<Rightarrow> ('s, 'a) op" where
  "with_rollouts rs f = (case rsRolloutRepo rs of None \<Rightarrow> throw ErrRolloutsRequireControlPlane | Some rr \<Rightarrow> f rr)"

section \<open>Channel rollouts\<close>

fun start_refusal :: "string \<Rightarrow> string \<Rightarrow> string \<Rightarrow> ChannelMapping list \<Rightarrow> err" where
  "start_refusal appId channelName branchName [] = ErrResourceNotFound ''channel'' [channelName, appId]"
| "start_refusal appId channelName branchName (channel # others) =
     (if ReleaseChannelName channel \<noteq> channelName then start_refusal appId channelName branchName others
      else case CmBranchName channel of
        None \<Rightarrow> RolloutRequestError 400 (Msg ''channel %q has no branch mapped; map a default branch before starting a rollout'' [channelName])
      | Some b \<Rightarrow> if b = branchName
          then RolloutRequestError 400 (Msg ''the rollout branch must differ from the channel's current branch %q'' [branchName])
          else ErrResourceNotFound ''branch'' [branchName, appId])"

definition disambiguateStartRefusal :: "'s RolloutService \<Rightarrow> string \<Rightarrow> string \<Rightarrow> string \<Rightarrow> ('s, 'a) op" where
  "disambiguateStartRefusal rs appId channelName branchName =
     bindE (mapErr (Wrapped (Msg ''failed to disambiguate rollout start refusal: %w'' [])) (GetChannels (rsChannelRepo rs) appId)) (\<lambda>found.
     throw (start_refusal appId channelName branchName found))"

definition StartChannelRollout :: "'s RolloutService \<Rightarrow> Ctx \<Rightarrow> string \<Rightarrow> string \<Rightarrow> string \<Rightarrow> string \<Rightarrow> int \<Rightarrow> ('s, ChannelRollout option) op" where
  "StartChannelRollout rs ctx rolloutId appId channelName branchName percentage = with_rollouts rs (\<lambda>rr.
     bindE (require (Name ''channelName'' channelName)) (\<lambda>_.
     bindE (require (Name ''branchName'' branchName)) (\<lambda>_.
     if percentage < 1 \<or> percentage > 99 then throw (RolloutRequestError 400 (Msg ''the rollout percentage must be between 1 and 99'' []))
     else bindE (CreateChannelRollout rr rolloutId appId channelName branchName percentage) (\<lambda>rows.
       if rows = 0 then disambiguateStartRefusal rs appId channelName branchName
       else bindE (recordManagementEvent ctx (rsOnAuditEvent rs) (new_event ''channel_rollout.started'' ''channel'' channelName appId
           [(''branch'', MetaText branchName), (''percentage'', MetaInt percentage)])) (\<lambda>_.
         GetChannelRollout rr appId channelName)))))"

definition UpdateChannelRolloutPercentageOp :: "'s RolloutService \<Rightarrow> Ctx \<Rightarrow> string \<Rightarrow> string \<Rightarrow> int \<Rightarrow> ('s, ChannelRollout option) op" where
  "UpdateChannelRolloutPercentageOp rs ctx appId channelName percentage = with_rollouts rs (\<lambda>rr.
     bindE (require (Name ''channelName'' channelName)) (\<lambda>_.
     if percentage = 100 then throw (RolloutRequestError 400 (Msg ''a channel rollout cannot be set to 100%; promote it to end it'' []))
     else if percentage < 1 \<or> percentage > 99 then throw (RolloutRequestError 400 (Msg ''the rollout percentage must be between 1 and 99'' []))
     else bindE (UpdateChannelRolloutPercentage rr appId channelName percentage) (\<lambda>rows.
       if rows = 0 then throw (RolloutRequestError 404 (Msg ''channel %q has no active rollout'' [channelName]))
       else bindE (recordManagementEvent ctx (rsOnAuditEvent rs) (new_event ''channel_rollout.updated'' ''channel'' channelName appId
           [(''percentage'', MetaInt percentage)])) (\<lambda>_.
         GetChannelRollout rr appId channelName))))"

definition ChannelRolloutOutcomePromote :: string where "ChannelRolloutOutcomePromote = ''promote''"
definition ChannelRolloutOutcomeRevert :: string where "ChannelRolloutOutcomeRevert = ''revert''"

definition EndChannelRollout :: "'s RolloutService \<Rightarrow> Ctx \<Rightarrow> string \<Rightarrow> string \<Rightarrow> string \<Rightarrow> ('s, unit) op" where
  "EndChannelRollout rs ctx appId channelName outcome = with_rollouts rs (\<lambda>rr.
     bindE (require (Name ''channelName'' channelName)) (\<lambda>_.
     bindE (if outcome = ChannelRolloutOutcomePromote then PromoteChannelRollout rr appId channelName
            else if outcome = ChannelRolloutOutcomeRevert then DeleteChannelRollout rr appId channelName
            else throw (RolloutRequestError 400 (Msg ''outcome must be \"promote\" or \"revert\"'' []))) (\<lambda>rows.
     if rows = 0 then throw (RolloutRequestError 404 (Msg ''channel %q has no active rollout'' [channelName]))
     else recordManagementEvent ctx (rsOnAuditEvent rs) (new_event ''channel_rollout.ended'' ''channel'' channelName appId
         [(''result'', MetaText outcome)]))))"

section \<open>Update rollouts\<close>

definition GetUpdateRollout :: "'s RolloutService \<Rightarrow> string \<Rightarrow> string \<Rightarrow> string \<Rightarrow> ('s, RolloutUpdate list) op" where
  "GetUpdateRollout rs appId branchName runtimeVersion = with_rollouts rs (\<lambda>rr.
     bindE (require (Name ''branchName'' branchName)) (\<lambda>_.
     bindE (require (Name ''runtimeVersion'' runtimeVersion)) (\<lambda>_.
     GetActiveRolloutUpdates rr appId branchName runtimeVersion)))"

definition getActiveRolloutForMutation :: "'s RolloutRepository \<Rightarrow> string \<Rightarrow> string \<Rightarrow> string \<Rightarrow> string option \<Rightarrow> ('s, RolloutUpdate list) op" where
  "getActiveRolloutForMutation rr appId branchName runtimeVersion expectedUpdateId =
     bindE (GetActiveRolloutUpdates rr appId branchName runtimeVersion) (\<lambda>activeRollouts.
     if activeRollouts = [] then throw (RolloutRequestError 404 (Msg ''no active rollout for this branch and runtime version'' []))
     else case expectedUpdateId of
       None \<Rightarrow> ret activeRollouts
     | Some expected \<Rightarrow>
         if list_ex (\<lambda>r. RuUpdateId r = expected) activeRollouts then ret activeRollouts
         else throw (RolloutRequestError 409 (Msg ''the rollout changed since this page was loaded; reload and retry'' [])))"

definition currentMax :: "RolloutUpdate list \<Rightarrow> int" where
  "currentMax rs = foldl (\<lambda>m r. if RuPercentage r > m then RuPercentage r else m) 0 rs"

definition SetUpdateRolloutPercentageOp :: "'s RolloutService \<Rightarrow> Ctx \<Rightarrow> string \<Rightarrow> string \<Rightarrow> string \<Rightarrow> int \<Rightarrow> string option
    \<Rightarrow> ('s, RolloutUpdate list) op" where
  "SetUpdateRolloutPercentageOp rs ctx appId branchName runtimeVersion percentage expectedUpdateId = with_rollouts rs (\<lambda>rr.
     bindE (require (Name ''branchName'' branchName)) (\<lambda>_.
     bindE (require (Name ''runtimeVersion'' runtimeVersion)) (\<lambda>_.
     if percentage < 1 \<or> percentage > 100 then throw (RolloutRequestError 400 (Msg ''the rollout percentage must be between 1 and 100'' []))
     else bindE (getActiveRolloutForMutation rr appId branchName runtimeVersion expectedUpdateId) (\<lambda>activeRollouts.
       if percentage = 100 then
         bindE (ClearUpdateRollout rr appId branchName runtimeVersion) (\<lambda>rows.
         if rows = 0 then throw (RolloutRequestError 409 (Msg ''the rollout ended concurrently; reload and retry'' []))
         else ret activeRollouts)
       else if percentage \<le> currentMax activeRollouts then
         throw (RolloutRequestError 400 (Msg ''the rollout percentage can only increase (currently %d%%)'' [FormatInt (currentMax activeRollouts)]))
       else bindE (SetUpdateRolloutPercentage rr appId branchName runtimeVersion percentage) (\<lambda>rows.
         if rows = 0 then throw (RolloutRequestError 409 (Msg ''the rollout ended or was progressed concurrently; reload and retry'' []))
         else bindE (recordManagementEvent ctx (rsOnAuditEvent rs) (new_event ''update_rollout.set'' ''branch'' branchName appId
             [(''runtime_version'', MetaText runtimeVersion), (''percentage'', MetaInt percentage)])) (\<lambda>_.
           ret activeRollouts))))))"

definition revertSingleRolloutUpdate :: "'s Runtime \<Rightarrow> Packages \<Rightarrow> 's Bucket \<Rightarrow> 's RolloutService \<Rightarrow> string \<Rightarrow> string \<Rightarrow> string \<Rightarrow> RolloutUpdate \<Rightarrow> ('s, unit) op" where
  "revertSingleRolloutUpdate rt pk bk rs appId branchName runtimeVersion activeRollout =
     (let embedded = bindE (createRollbackInternal rt pk bk (rsDeploymentService rs) appId (RuPlatform activeRollout) [] runtimeVersion branchName []) (\<lambda>_. ret ())
      in case RuControlUpdateId activeRollout of
        None \<Rightarrow> embedded
      | Some control \<Rightarrow>
          bindE (GetUpdate (rsUpdateRepo rs) appId branchName runtimeVersion control) (\<lambda>found. case found of
            None \<Rightarrow> throw (ErrorText (Msg ''control update %s not found for rollout revert'' [control]))
          | Some controlUpdate \<Rightarrow>
              bindE (GetUpdateType (rsUpdateRepo rs) controlUpdate) (\<lambda>controlType.
              if controlType = Rollback then embedded
              else bindE (republishUpdateInternal rt pk bk (rsDeploymentService rs) controlUpdate (RuPlatform activeRollout) [] None) (\<lambda>_. ret ()))))"

text \<open>The loop over the active rows; its error names the platforms that are left.\<close>

fun revert_loop :: "'s Runtime \<Rightarrow> Packages \<Rightarrow> 's Bucket \<Rightarrow> 's RolloutService \<Rightarrow> string \<Rightarrow> string \<Rightarrow> string \<Rightarrow> RolloutUpdate list \<Rightarrow> ('s, unit) op" where
  "revert_loop rt pk bk rs appId branchName runtimeVersion [] = ret ()"
| "revert_loop rt pk bk rs appId branchName runtimeVersion (r # rest) =
     bindE (mapErr (\<lambda>e. RolloutRequestError 500 (Msg ''the rollout was ended but republishing the previous update failed for %s: %v. Update %s is now served to all devices on: %s. Republish the previous update (or publish a rollback) for those platforms to finish the revert''
         ([RuPlatform r, RuUpdateId r] @ map RuPlatform (r # rest))))
       (revertSingleRolloutUpdate rt pk bk rs appId branchName runtimeVersion r)) (\<lambda>_.
     revert_loop rt pk bk rs appId branchName runtimeVersion rest)"

definition RevertUpdateRollout :: "'s Runtime \<Rightarrow> Packages \<Rightarrow> 's Bucket \<Rightarrow> 's RolloutService \<Rightarrow> Ctx \<Rightarrow> string \<Rightarrow> string \<Rightarrow> string \<Rightarrow> string option
    \<Rightarrow> ('s, RolloutUpdate list) op" where
  "RevertUpdateRollout rt pk bk rs ctx appId branchName runtimeVersion expectedUpdateId = with_rollouts rs (\<lambda>rr.
     bindE (require (Name ''branchName'' branchName)) (\<lambda>_.
     bindE (require (Name ''runtimeVersion'' runtimeVersion)) (\<lambda>_.
     bindE (getActiveRolloutForMutation rr appId branchName runtimeVersion expectedUpdateId) (\<lambda>activeRollouts.
     bindE (ClearUpdateRollout rr appId branchName runtimeVersion) (\<lambda>rows.
     if rows = 0 then throw (RolloutRequestError 409 (Msg ''the rollout ended concurrently; reload and retry'' []))
     else bindE (revert_loop rt pk bk rs appId branchName runtimeVersion activeRollouts) (\<lambda>_.
       bindE (recordManagementEvent ctx (rsOnAuditEvent rs) (new_event ''update_rollout.reverted'' ''branch'' branchName appId
           [(''runtime_version'', MetaText runtimeVersion)])) (\<lambda>_.
       ret activeRollouts)))))))"

end
