(* ===== verification/Administration.thy ===== *)
theory Administration
  imports Management Manifest ServedUpdates
begin

text \<open>
  The channel and branch services on a server process: what their writes do to the database, and that the reads of
  the delivery path see them at once, whatever the cache held before.
\<close>

section \<open>The services of a process\<close>

definition world_record :: "world RecordFunc" where
  "world_record e w = w\<lparr>waudit := waudit w @ [e]\<rparr>"

definition world_spawn :: "job \<Rightarrow> world \<Rightarrow> world" where
  "world_spawn j w = w\<lparr>wjobs := wjobs w @ [j]\<rparr>"

definition pg_channels :: "uuid_parser \<Rightarrow> world ChannelService" where
  "pg_channels uuid = \<lparr>csBranchRepo = pg_branch_repository uuid, csChannelRepo = pg_channel_repository uuid,
     csOnAuditEvent = Some world_record\<rparr>"

definition pg_branches :: "uuid_parser \<Rightarrow> uuid_parser \<Rightarrow> world BranchService" where
  "pg_branches uuid scan = \<lparr>brBranchRepo = pg_branch_repository uuid, brChannelRepo = pg_channel_repository uuid,
     brUpdateRepo = pg_update_repository uuid scan, brRolloutRepo = Some (pg_rollout_repository uuid scan),
     brSpawn = world_spawn, brOnAuditEvent = Some world_record\<rparr>"

section \<open>Forgetting cache entries\<close>

lemma world_forget_run [proc_simps]: "cache_forget (world_runtime rt) k w = (Inr (), cacheDelete world_cache k w)"
  by (simp add: cache_forget_run)

lemma world_delete_fields [simp]:
  "wdb (cacheDelete world_cache k w) = wdb w" "wapps (cacheDelete world_cache k w) = wapps w" "wnow (cacheDelete world_cache k w) = wnow w"
  "waudit (cacheDelete world_cache k w) = waudit w" "wjobs (cacheDelete world_cache k w) = wjobs w"
  "wmetrics (cacheDelete world_cache k w) = wmetrics w"
  by (simp_all add: world_cache_def)

lemma world_delete_view [simp]: "world_view (cacheDelete world_cache k w) k' = (if k' = k then None else world_view w k')"
  using proc_cache.del_view [where k = k and s = w and k' = k'] by simp

definition forgotten :: "string list \<Rightarrow> world \<Rightarrow> world" where
  "forgotten ks w = fold (cacheDelete world_cache) ks w"

lemma forgotten_fields [simp]:
  "wdb (forgotten ks w) = wdb w" "waudit (forgotten ks w) = waudit w" "wjobs (forgotten ks w) = wjobs w"
  "wapps (forgotten ks w) = wapps w" "wnow (forgotten ks w) = wnow w" "wmetrics (forgotten ks w) = wmetrics w"
  by (induction ks arbitrary: w) (simp_all add: forgotten_def)

lemma forgotten_view: "world_view (forgotten ks w) k = (if k \<in> set ks then None else world_view w k)"
  by (induction ks arbitrary: w) (auto simp: forgotten_def)

lemma forgotten_Cons: "forgotten (k # ks) w = forgotten ks (cacheDelete world_cache k w)"
  by (simp add: forgotten_def)

lemma forgotten_append: "forgotten (ks @ ks') w = forgotten ks' (forgotten ks w)"
  by (simp add: forgotten_def)

lemma forget_all_world [proc_simps]: "forget_all (world_runtime rt) ks w = (Inr (), forgotten ks w)"
  by (induction ks arbitrary: w) (simp_all add: forget_all_def bindE_run world_forget_run forgotten_def)

definition purge_keys :: "'s Runtime \<Rightarrow> string \<Rightarrow> string \<Rightarrow> string list \<Rightarrow> string list" where
  "purge_keys rt app b vs = concat (map (\<lambda>v. concat (map (\<lambda>p.
      [ComputeLastUpdateCacheKey rt app b v p, surfableBranchesCacheKey rt app v p]) [PlatformIOS, PlatformAndroid])) vs)"

lemma purge_key_mem: "v \<in> set vs \<Longrightarrow> p \<in> {PlatformIOS, PlatformAndroid} \<Longrightarrow> ComputeLastUpdateCacheKey rt app b v p \<in> set (purge_keys rt app b vs)"
  by (auto simp: purge_keys_def)

lemma purge_keys_set: "set (purge_keys rt app b (rev (remdups (rev vs)))) = set (purge_keys rt app b vs)"
  by (simp add: purge_keys_def)

lemma purge_world:
  "purge_envelopes (world_runtime rt) app b rows w
     = (Inr (), forgotten (purge_keys (world_runtime rt) app b (rev (remdups (rev (map RefRuntimeVersion rows))))) w)"
proof -
  have "forEach (\<lambda>v. forEach (\<lambda>platform. bindE (cache_forget (world_runtime rt) (ComputeLastUpdateCacheKey (world_runtime rt) app b v platform)) (\<lambda>_.
      ForgetSurfableBranches (world_runtime rt) app v platform)) [PlatformIOS, PlatformAndroid]) vs w
    = (Inr (), forgotten (purge_keys (world_runtime rt) app b vs) w)" for vs
    by (induction vs arbitrary: w)
      (simp_all add: bindE_run world_forget_run ForgetSurfableBranches_def forgotten_def purge_keys_def)
  then show ?thesis
    by (simp add: purge_envelopes_def)
qed

definition signed :: "Ctx \<Rightarrow> Event \<Rightarrow> Event" where
  "signed ctx e = (case auditActorFromContext ctx of (kind, actor, display) \<Rightarrow>
     e\<lparr>ActorType := kind, ActorID := actor, ActorDisplay := display, Outcome := ''success''\<rparr>)"

lemma record_world [proc_simps]:
  "recordManagementEvent ctx (Some world_record) event w = (Inr (), w\<lparr>waudit := waudit w @ [signed ctx event]\<rparr>)"
  by (simp add: recordManagementEvent_def signed_def world_record_def split: prod.split)

lemma world_view_other [simp]:
  "world_view (w\<lparr>waudit := es\<rparr>) k = world_view w k" "world_view (w\<lparr>wjobs := js\<rparr>) k = world_view w k" "world_view (w\<lparr>wdb := d\<rparr>) k = world_view w k"
  by (simp_all add: world_view_def)

section \<open>Branch surfing\<close>

lemma surfing_miss:
  assumes "world_view w (channelBranchSurfingCacheKey (world_runtime rt) app ch) = None" and "IsDBMode rt" and "ch \<noteq> []"
  shows "fst (cachedBranchSurfing (world_runtime rt) (pg_channel_repository uuid) app ch w) = Inr (surfing_answer uuid (wdb w) app ch)"
proof -
  let ?key = "channelBranchSurfingCacheKey (world_runtime rt) app ch"
  have agree: "agrees world_view surfing_decode ?key (Some (surfing_answer uuid (wdb w) app ch)) w"
    using assms(1) by (simp add: agrees_def)
  obtain a where a: "pg_GetBranchSurfing uuid app ch (wdb w) = (Inr a, wdb w)"
      "surfing_answer uuid (wdb w) app ch = (case a of None \<Rightarrow> (False, []) | Some sf \<Rightarrow> (Enabled sf, Pattern sf))"
    using pg_surfing_reads by blast
  have "reads world_rest (world_rest w) (GetBranchSurfing (pg_channel_repository uuid) app ch) a"
    using a(1) by (auto simp: reads_def world_rest_def pg_channel_repository_def on_db_run)
  from proc_cache.cachedBranchSurfing_transparent [OF agree [unfolded a(2)] this]
  show ?thesis
    using assms(2,3) a(2) by auto
qed

lemma surfing_written:
  assumes "pg_SetBranchSurfing uuid app ch sf d = (Inr (), d')"
  shows "surfing_answer uuid d' app ch = (Enabled sf, Pattern sf)"
proof -
  let ?hit = "\<lambda>c. Some (c_app c) = ToPgUUID uuid app \<and> c_name c = ch"
  let ?set = "\<lambda>c. if ?hit c then c\<lparr>c_surf_enabled := Enabled sf, c_surf_pattern := Pattern sf\<rparr> else c"
  have d': "d' = d\<lparr>channels := map ?set (channels d)\<rparr>" "filter ?hit (channels d) \<noteq> []"
    using assms by (auto simp: pg_SetBranchSurfing_def updateChannelBranchSurfing_def bindE_run wrapped_run run_write_run Let_def
        split: if_splits sum.splits prod.splits)
  obtain x where x: "x \<in> set (channels d)" "?hit x"
    using d'(2) by (auto simp: filter_empty_conv)
  then have "?set x \<in> set (channels d')" "?hit (?set x)"
    using d'(1) by auto
  from find_exists [of _ _ ?hit, OF this] obtain c where c: "find ?hit (channels d') = Some c" "c \<in> set (channels d')" "?hit c"
    by blast
  have "channels d' = map ?set (channels d)"
    using d'(1) by simp
  then have "c \<in> ?set ` set (channels d)"
    using c(2) by (simp only: set_map)
  then obtain y where y: "c = ?set y"
    by (rule imageE)
  have "?hit y"
    using c(3) y by (cases "?hit y") auto
  then have "c_surf_enabled c = Enabled sf" "c_surf_pattern c = Pattern sf"
    using y by simp_all
  then show ?thesis
    using c(1) by (simp add: surfing_answer_def pg_GetBranchSurfing_def getChannelBranchSurfing_def bindE_run read_one_optional found_def
        channel_named_def)
qed

lemma Name_nonempty: "Name field value = None \<Longrightarrow> value \<noteq> []"
  by (auto simp: Name_def namePattern_def split: if_splits)

section \<open>The branch list\<close>

lemma page_loop_spec:
  assumes "length matched \<le> limit"
  shows "page_loop mapped pattern limit bs matched n =
    (let offered = filter (\<lambda>b. SbName b \<noteq> mapped \<and> MatchPattern pattern (SbName b)) bs
     in (matched @ take (limit - length matched) offered, n + length offered))"
  using assms
proof (induction bs arbitrary: matched n)
  case (Cons b bs)
  show ?case
  proof (cases "SbName b = mapped \<or> \<not> MatchPattern pattern (SbName b)")
    case True
    then show ?thesis
      using Cons by (auto simp: Let_def)
  next
    case False
    then have r: "page_loop mapped pattern limit (b # bs) matched n = page_loop mapped pattern limit bs
        (if length matched < limit then matched @ [b] else matched) (n + 1)"
      by simp
    show ?thesis
      unfolding r using False Cons by (auto simp: Let_def Suc_diff_Suc not_less take_Cons')
  qed
qed (simp add: Let_def)

section \<open>Deleting a branch\<close>

lemma delete_rows:
  assumes "schema_ok d" and "deleteBranchByName b app d = (Inr n, d')"
  shows "n = 0 \<Longrightarrow> d' = d" and "n \<noteq> 0 \<Longrightarrow> \<not> list_ex (\<lambda>x. b_name x = b \<and> Some (b_app x) = app) (branches d')"
    and "n \<noteq> 0 \<Longrightarrow> filter (on_branch d app b) (updates d') = []"
proof -
  let ?gone = "\<lambda>x. b_name x = b \<and> Some (b_app x) = app \<and> \<not> b_protected x"
  have d': "d' = d\<lparr>branches := filter (\<lambda>x. \<not> ?gone x) (branches d),
      updates := filter (\<lambda>u. u_branch u \<notin> b_id ` set (filter ?gone (branches d))) (updates d)\<rparr>"
      and n: "n = int (length (filter ?gone (branches d)))"
    using run_write_Inr [OF assms(2) [unfolded deleteBranchByName_def]] by (auto simp: Let_def)
  show "d' = d" if "n = 0"
  proof -
    have "filter ?gone (branches d) = []"
      using that n by simp
    then show ?thesis
      unfolding d' by (simp add: filter_empty_conv filter_id_conv)
  qed
  have x: "\<exists>x. x \<in> set (branches d) \<and> ?gone x \<and> (\<forall>y \<in> set (branches d). b_name y = b \<longrightarrow> Some (b_app y) = app \<longrightarrow> y = x)" if "n \<noteq> 0"
    using that n schema_branch_name [OF assms(1)] by (auto simp: filter_empty_conv)
  show "\<not> list_ex (\<lambda>x. b_name x = b \<and> Some (b_app x) = app) (branches d')" if "n \<noteq> 0"
    using x [OF that] unfolding d' by (auto simp: list_ex_iff)
  show "filter (on_branch d app b) (updates d') = []" if "n \<noteq> 0"
  proof -
    obtain x where x': "x \<in> set (branches d)" "?gone x" "\<forall>y \<in> set (branches d). b_name y = b \<longrightarrow> Some (b_app y) = app \<longrightarrow> y = x"
      using x [OF \<open>n \<noteq> 0\<close>] by blast
    have "u_branch u \<in> b_id ` set (filter ?gone (branches d))" if on: "on_branch d app b u" for u
    proof -
      obtain y where y: "y \<in> set (branches d)" "b_id y = u_branch u" "Some (b_app y) = app" "b_name y = b"
        using on by (auto simp: on_branch_def list_ex_iff)
      then have "y = x"
        using x'(3) by blast
      then show ?thesis
        using x'(1,2) y(2) by force
    qed
    then show ?thesis
      unfolding d' by (simp add: filter_empty_conv) blast
  qed
qed

lemma pg_delete_branch:
  assumes "schema_ok d" and "pg_DeleteBranchByName uuid app b d = (r, d')"
  shows "r = Inr () \<Longrightarrow> \<not> list_ex (\<lambda>x. b_name x = b \<and> Some (b_app x) = uuid app) (branches d') \<and> filter (on_branch d (uuid app) b) (updates d') = []"
    and "r \<noteq> Inr () \<Longrightarrow> d' = d"
proof -
  obtain q e where q: "deleteBranchByName b (ToPgUUID uuid app) d = (q, e)"
    by (cases "deleteBranchByName b (ToPgUUID uuid app) d")
  have fail: "e = d" if "q = Inl z" for z
    using q that unfolding deleteBranchByName_def by (blast dest: run_write_Inl)
  show "r = Inr () \<Longrightarrow> \<not> list_ex (\<lambda>x. b_name x = b \<and> Some (b_app x) = uuid app) (branches d') \<and> filter (on_branch d (uuid app) b) (updates d') = []"
    using assms(2) q delete_rows(2,3) [OF assms(1), of b "uuid app" _ d']
    by (auto simp: pg_DeleteBranchByName_def query_def bindE_run mapErr_run attempt_run ToPgUUID_def split: sum.splits if_splits)
  show "d' = d" if "r \<noteq> Inr ()"
    using assms(2) q that fail delete_rows(1) [OF assms(1), of b "uuid app" _ e]
    by (cases q) (auto simp: pg_DeleteBranchByName_def query_def bindE_run mapErr_run attempt_run ToPgUUID_def isBranchProtected_def
        split: sum.splits if_splits)
qed

lemma DeleteBranch_run:
  assumes "DeleteBranch (world_runtime rt) (pg_branches uuid scan) ctx b app w = (r, w')"
  shows "r \<noteq> Inr () \<Longrightarrow> (wdb w' = wdb w \<or> (\<exists>e. pg_DeleteBranchByName uuid app b (wdb w) = (Inl e, wdb w'))) \<and> wjobs w' = wjobs w"
    and "r = Inr () \<Longrightarrow> \<exists>rows. pg_GetUpdateRefsByBranchName uuid app b (wdb w) = (Inr rows, wdb w)
      \<and> pg_DeleteBranchByName uuid app b (wdb w) = (Inr (), wdb w')
      \<and> wjobs w' = wjobs w @ [DeleteBranchFilesJob app b rows]
      \<and> list_all (\<lambda>k. world_view w' k = None) (purge_keys (world_runtime rt) app b (map RefRuntimeVersion rows))"
proof -
  obtain q d' where q: "pg_DeleteBranchByName uuid app b (wdb w) = (q, d')"
    by (cases "pg_DeleteBranchByName uuid app b (wdb w)")
  have reads: "pg_GetChannelNameByBranchName uuid app b d = (Inr (projr (fst (pg_GetChannelNameByBranchName uuid app b d))), d)"
      "pg_GetChannelRolloutsByBranch uuid app b d = (Inr (projr (fst (pg_GetChannelRolloutsByBranch uuid app b d))), d)"
      "pg_GetUpdateRefsByBranchName uuid app b d = (Inr (projr (fst (pg_GetUpdateRefsByBranchName uuid app b d))), d)" for d
    by (simp_all add: pg_GetChannelNameByBranchName_def getChannelNamesByBranchName_def pg_GetChannelRolloutsByBranch_def
        getChannelRolloutsByBranch_def pg_GetUpdateRefsByBranchName_def getUpdatesMetadataByBranchName_def query_def mapErr_run bindE_run)
  obtain cs where cs: "pg_GetChannelNameByBranchName uuid app b (wdb w) = (Inr cs, wdb w)"
    using reads(1) by metis
  obtain rs where rs: "pg_GetChannelRolloutsByBranch uuid app b (wdb w) = (Inr rs, wdb w)"
    using reads(2) by metis
  obtain rows where rows: "pg_GetUpdateRefsByBranchName uuid app b (wdb w) = (Inr rows, wdb w)"
    using reads(3) by metis
  note run = DeleteBranch_def branch_in_use_def pg_branches_def pg_channel_repository_def pg_rollout_repository_def pg_branch_repository_def
    on_db_run bindE_run mapErr_run require_run record_world forget_all_world purge_world world_spawn_def
  show "(wdb w' = wdb w \<or> (\<exists>e. pg_DeleteBranchByName uuid app b (wdb w) = (Inl e, wdb w'))) \<and> wjobs w' = wjobs w" if "r \<noteq> Inr ()"
    using assms that by (auto simp: run cs rs rows q split: option.splits sum.splits if_splits)
  show "\<exists>rows. pg_GetUpdateRefsByBranchName uuid app b (wdb w) = (Inr rows, wdb w)
      \<and> pg_DeleteBranchByName uuid app b (wdb w) = (Inr (), wdb w')
      \<and> wjobs w' = wjobs w @ [DeleteBranchFilesJob app b rows]
      \<and> list_all (\<lambda>k. world_view w' k = None) (purge_keys (world_runtime rt) app b (map RefRuntimeVersion rows))"
    if "r = Inr ()"
    using assms that by (auto simp: run cs rs rows q forgotten_view list_all_iff purge_keys_set split: option.splits sum.splits if_splits)
qed

lemma DeleteBranch_succeeds:
  assumes "Name ''branchName'' b = None" and "pg_GetChannelNameByBranchName uuid app b (wdb w) = (Inr [], wdb w)"
    and "pg_GetChannelRolloutsByBranch uuid app b (wdb w) = (Inr [], wdb w)" and "pg_GetUpdateRefsByBranchName uuid app b (wdb w) = (Inr rows, wdb w)"
    and "pg_DeleteBranchByName uuid app b (wdb w) = (Inr (), d')"
  shows "\<exists>w'. DeleteBranch (world_runtime rt) (pg_branches uuid scan) ctx b app w = (Inr (), w')"
  using assms by (simp add: DeleteBranch_def branch_in_use_def pg_branches_def pg_channel_repository_def pg_rollout_repository_def
      pg_branch_repository_def on_db_run bindE_run mapErr_run require_run record_world forget_all_world purge_world)

lemma rows_of_branch:
  assumes "schema_ok d" and "pg_GetUpdateRefsByBranchName uuid app b d = (Inr rows, d)" and "u \<in> set (updates d)"
    and "on_branch d (uuid app) b u" and "on_runtime d v u"
  shows "v \<in> set (map RefRuntimeVersion rows)"
proof -
  obtain x where x: "x \<in> set (runtimes d)" "v_id x = u_runtime u" "v_version x = v"
    using assms(5) by (auto simp: on_runtime_def list_ex_iff)
  have "rows = map (\<lambda>(i, version). \<lparr>RefID = i, RefRuntimeVersion = version\<rparr>)
      [(u_id u, v_version v). u \<leftarrow> updates d, on_branch d (uuid app) b u, v \<leftarrow> runtimes d, v_id v = u_runtime u]"
    using assms(2) by (simp add: pg_GetUpdateRefsByBranchName_def getUpdatesMetadataByBranchName_def query_def mapErr_run bindE_run ToPgUUID_def)
  moreover have "(u_id u, v) \<in> set [(u_id u, v_version v). u \<leftarrow> updates d, on_branch d (uuid app) b u, v \<leftarrow> runtimes d, v_id v = u_runtime u]"
    using assms(3,4) x by auto
  ultimately show ?thesis
    by force
qed

text \<open>The join with the runtime versions gives every update of the branch once.\<close>

lemma runtime_join:
  assumes "distinct (map v_id vs)" and "v \<in> set vs"
  shows "[f w. w \<leftarrow> vs, v_id w = v_id v] = [f v] \<and> find (\<lambda>w. v_id w = v_id v) vs = Some v"
  using assms
proof (induction vs)
  case (Cons x vs)
  have "[f w. w \<leftarrow> vs, v_id w = v_id v] = []" if "v = x"
    using Cons.prems(1) that by (induction vs) auto
  then show ?case
    using Cons by (auto simp: rev_image_eqI)
qed simp

lemma refs_of_branch:
  assumes "schema_ok d" and "pg_GetUpdateRefsByBranchName uuid app b d = (Inr rows, d)"
  shows "rows = map (\<lambda>u. \<lparr>RefID = u_id u, RefRuntimeVersion = v_version (the (runtime_by_id d (u_runtime u)))\<rparr>)
      (filter (on_branch d (uuid app) b) (updates d))"
proof -
  have ids: "distinct (map v_id (runtimes d))"
    using assms(1) by (simp add: schema_ok_def uniques_ok_def)
  have one: "[(u_id u, v_version v). v \<leftarrow> runtimes d, v_id v = u_runtime u] = [(u_id u, v_version (the (runtime_by_id d (u_runtime u))))]"
    if u: "u \<in> set (updates d)" for u
  proof -
    obtain v where v: "v \<in> set (runtimes d)" "v_id v = u_runtime u"
      using schema_update_refs [OF assms(1) u] by auto
    show ?thesis
      using runtime_join [OF ids v(1), of "\<lambda>v. (u_id u, v_version v)"] v(2) by (simp add: runtime_by_id_def)
  qed
  have "[(u_id u, v_version v). u \<leftarrow> us, on_branch d (uuid app) b u, v \<leftarrow> runtimes d, v_id v = u_runtime u]
      = map (\<lambda>u. (u_id u, v_version (the (runtime_by_id d (u_runtime u))))) (filter (on_branch d (uuid app) b) us)"
    if "set us \<subseteq> set (updates d)" for us
    using that one by (induction us) auto
  then show ?thesis
    using assms(2) by (auto simp: pg_GetUpdateRefsByBranchName_def getUpdatesMetadataByBranchName_def query_def mapErr_run bindE_run
        ToPgUUID_def)
qed

section \<open>Properties\<close>

text \<open>A surfing setting is read back at once.  When storing a channel's surfing setting succeeds, then whatever
  the process had cached, the next read of the delivery path in that process answers the new setting, with the
  pattern in its canonical form, which matches the same branches as the one that was given.\<close>

lemma surfing_read_your_write:
  assumes "SetBranchSurfingOp (world_runtime rt) (pg_channels uuid) ctx app ch sf w = (Inr (), w')" and "IsDBMode rt"
  shows "\<exists>w''. cachedBranchSurfing (world_runtime rt) (pg_channel_repository uuid) app ch w'
      = (Inr (Enabled sf, CollapseWildcards (Pattern sf)), w'')
    \<and> (\<forall>b. MatchPattern (CollapseWildcards (Pattern sf)) b = MatchPattern (Pattern sf) b)"
proof -
  let ?sf = "sf\<lparr>Pattern := CollapseWildcards (Pattern sf)\<rparr>"
  let ?key = "channelBranchSurfingCacheKey (world_runtime rt) app ch"
  obtain r d' where d': "pg_SetBranchSurfing uuid app ch ?sf (wdb w) = (r, d')"
    by (cases "pg_SetBranchSurfing uuid app ch ?sf (wdb w)")
  have name: "Name ''channelName'' ch = None" and r: "r = Inr ()" and w': "wdb w' = d'" "world_view w' ?key = None"
    using assms(1) d'
    by (auto simp: SetBranchSurfingOp_def pg_channels_def pg_channel_repository_def on_db_run bindE_run require_run Let_def record_world
        invalidateChannelCaches_def forget_all_world ForgetBranchSurfing_def world_forget_run split: option.splits sum.splits)
  have "surfing_answer uuid (wdb w') app ch = (Enabled sf, CollapseWildcards (Pattern sf))"
    using surfing_written [OF d' [unfolded r]] w'(1) by simp
  then show ?thesis
    using surfing_miss [OF w'(2) assms(2) Name_nonempty [OF name], of uuid]
    by (cases "cachedBranchSurfing (world_runtime rt) (pg_channel_repository uuid) app ch w'") (simp add: MatchPattern_CollapseWildcards)
qed

text \<open>The branch picker and the resolution agree.  When a channel lists the branches a device may surf to, every one
  it offers is honoured when the device asks for it: the branch rules put it first and the channel's own branch
  second, whatever the client and any running rollout.  The list is at most one page, and the total counts every
  branch that could be offered.\<close>

lemma offered_branches_honoured:
  assumes "ListSurfableBranches rt cs app ch v p all s = (Inr found_list, s')"
  shows "\<exists>pattern branches mapping s1 s2.
      cachedBranchSurfing rt (csChannelRepo cs) app ch s = (Inr (True, pattern), s1)
    \<and> cachedSurfableBranches rt (csBranchRepo cs) app v p s1 = (Inr branches, s2)
    \<and> cachedChannelMapping rt (csChannelRepo cs) app ch s2 = (Inr mapping, s')
    \<and> SbTotal found_list = length (filter (\<lambda>b. SbName b \<noteq> (case mapping of None \<Rightarrow> [] | Some m \<Rightarrow> BranchName m)
        \<and> MatchPattern pattern (SbName b)) branches)
    \<and> length (SbBranches found_list) = min (if all then 500 else 10) (SbTotal found_list)
    \<and> list_all (\<lambda>b. \<forall>m client. mapping = Some m \<longrightarrow> SbName b \<noteq> [] \<longrightarrow>
        ResolveBranchCandidates (DefaultBranchRules sha) ((resolution_request app ch client p v m (SbName b))
          \<lparr>Surfing := \<lparr>Enabled = True, Pattern = pattern\<rparr>\<rparr>) = Inr [SbName b, BranchName m]) (SbBranches found_list)"
proof -
  obtain pattern s1 branches s2 mapping where r: "cachedBranchSurfing rt (csChannelRepo cs) app ch s = (Inr (True, pattern), s1)"
      "cachedSurfableBranches rt (csBranchRepo cs) app v p s1 = (Inr branches, s2)"
      "cachedChannelMapping rt (csChannelRepo cs) app ch s2 = (Inr mapping, s')"
      and l: "found_list = (case page_loop (case mapping of None \<Rightarrow> [] | Some m \<Rightarrow> BranchName m) pattern
          (if all then maxAllSurfableBranches else maxSurfableBranches) branches [] 0 of (matched, n) \<Rightarrow> \<lparr>SbBranches = matched, SbTotal = n\<rparr>)"
    using assms
    by (auto simp: ListSurfableBranches_def bindE_run require_run Let_def split: option.splits sum.splits prod.splits if_splits)
  let ?offered = "filter (\<lambda>b. SbName b \<noteq> (case mapping of None \<Rightarrow> [] | Some m \<Rightarrow> BranchName m) \<and> MatchPattern pattern (SbName b)) branches"
  have l': "SbBranches found_list = take (if all then 500 else 10) ?offered" "SbTotal found_list = length ?offered"
    unfolding l by (simp_all add: page_loop_spec Let_def maxAllSurfableBranches_def maxSurfableBranches_def)
  have "list_all (\<lambda>b. SbName b \<noteq> (case mapping of None \<Rightarrow> [] | Some m \<Rightarrow> BranchName m) \<and> MatchPattern pattern (SbName b)) (SbBranches found_list)"
    unfolding l' using set_take_subset by (fastforce simp: list_all_iff)
  then have "list_all (\<lambda>b. \<forall>m client. mapping = Some m \<longrightarrow> SbName b \<noteq> [] \<longrightarrow>
        ResolveBranchCandidates (DefaultBranchRules sha) ((resolution_request app ch client p v m (SbName b))
          \<lparr>Surfing := \<lparr>Enabled = True, Pattern = pattern\<rparr>\<rparr>) = Inr [SbName b, BranchName m]) (SbBranches found_list)"
    by (auto simp: list_all_iff default_candidates HonoursSurf_def resolution_request_def)
  then show ?thesis
    using r l' by fastforce
qed

text \<open>C18. Deleting a branch is all or nothing.  In every reachable database, when the delete succeeds the branch is gone
  with every update on it, exactly one job is queued, which removes the folder of every update the branch had, checked or
  not, under its runtime version, and of no other, and the process holds no cached envelope of any
  runtime version and platform it had updates for, so no device can be handed an update whose files are being
  removed.  When it fails, for whatever reason, the database is exactly what it was and no job is queued.\<close>

theorem DeleteBranch_atomic:
  assumes "reachable (wdb w)" and "DeleteBranch (world_runtime rt) (pg_branches uuid scan) ctx b app w = (r, w')"
  shows "(r \<noteq> Inr () \<longrightarrow> wdb w' = wdb w \<and> wjobs w' = wjobs w)
    \<and> (r = Inr () \<longrightarrow> \<not> list_ex (\<lambda>x. b_name x = b \<and> Some (b_app x) = uuid app) (branches (wdb w'))
        \<and> filter (on_branch (wdb w) (uuid app) b) (updates (wdb w')) = []
        \<and> wjobs w' = wjobs w @ [DeleteBranchFilesJob app b
            (map (\<lambda>u. \<lparr>RefID = u_id u, RefRuntimeVersion = v_version (the (runtime_by_id (wdb w) (u_runtime u)))\<rparr>)
              (filter (on_branch (wdb w) (uuid app) b) (updates (wdb w))))]
        \<and> (\<forall>u \<in> set (updates (wdb w)). \<forall>v. \<forall>p \<in> {PlatformIOS, PlatformAndroid}.
            on_branch (wdb w) (uuid app) b u \<longrightarrow> on_runtime (wdb w) v u \<longrightarrow>
            world_view w' (ComputeLastUpdateCacheKey (world_runtime rt) app b v p) = None))"
proof -
  have ok: "schema_ok (wdb w)"
    using reachable_inv [OF assms(1)] by (simp add: db_inv_def inv_at_def)
  show ?thesis
  proof (cases "r = Inr ()")
    case False
    then show ?thesis
      using DeleteBranch_run(1) [OF assms(2)] pg_delete_branch(2) [OF ok, of uuid app b _ "wdb w'"] by fastforce
  next
    case True
    obtain rows where rows: "pg_GetUpdateRefsByBranchName uuid app b (wdb w) = (Inr rows, wdb w)"
        and gone: "pg_DeleteBranchByName uuid app b (wdb w) = (Inr (), wdb w')"
        and jobs: "wjobs w' = wjobs w @ [DeleteBranchFilesJob app b rows]"
        and w': "list_all (\<lambda>k. world_view w' k = None) (purge_keys (world_runtime rt) app b (map RefRuntimeVersion rows))"
      using DeleteBranch_run(2) [OF assms(2) True] by blast
    have views: "world_view w' (ComputeLastUpdateCacheKey (world_runtime rt) app b v p) = None"
      if "u \<in> set (updates (wdb w))" "p \<in> {PlatformIOS, PlatformAndroid}" "on_branch (wdb w) (uuid app) b u" "on_runtime (wdb w) v u" for u v p
      using purge_key_mem [OF rows_of_branch [where uuid = uuid, OF ok rows that(1,3,4)] that(2), of "world_runtime rt" app b] w'
      by (simp add: list_all_iff)
    show ?thesis
    proof (intro conjI impI ballI allI)
      fix u v p assume "u \<in> set (updates (wdb w))" "p \<in> {PlatformIOS, PlatformAndroid}" "on_branch (wdb w) (uuid app) b u" "on_runtime (wdb w) v u"
      then show "world_view w' (ComputeLastUpdateCacheKey (world_runtime rt) app b v p) = None"
        by (rule views)
    qed (use True pg_delete_branch(1) [OF ok gone] jobs refs_of_branch [OF ok rows] in auto)
  qed
qed

section \<open>Concrete runs\<close>

definition nobody :: Ctx where
  "nobody = \<lparr>PrincipalFromContext = None, CliAuthFromContext = None\<rparr>"

definition demo_idle :: world where
  "demo_idle = demo_world\<lparr>wdb := demo_db [demo_update 11 3 (Some 4), demo_rollout 11 21 (Some 6)] 6 7\<rparr>"

theorem DeleteBranch_atomic_witness:
  "\<exists>w'. DeleteBranch (world_runtime demo_runtime) (pg_branches Some Some) nobody ''main'' ''app'' demo_idle = (Inr (), w')
    \<and> \<not> list_ex (\<lambda>x. b_name x = ''main'' \<and> Some (b_app x) = Some ''app'') (branches (wdb w'))
    \<and> filter (on_branch (wdb demo_idle) (Some ''app'') ''main'') (updates (wdb w')) = []
    \<and> wjobs w' = wjobs demo_idle @ [DeleteBranchFilesJob ''app'' ''main''
        [\<lparr>RefID = 11, RefRuntimeVersion = ''1.0''\<rparr>, \<lparr>RefID = 21, RefRuntimeVersion = ''1.0''\<rparr>]]"
proof -
  have name: "Name ''branchName'' ''main'' = None"
    by code_simp
  let ?d = "demo_db [demo_update 11 3 (Some 4), demo_rollout 11 21 (Some 6)] 6 7"
  have reach: "reachable (wdb demo_idle)"
    using demo_reachable [of 11 21] by (simp add: demo_idle_def)
  have "pg_GetChannelNameByBranchName Some ''app'' ''main'' ?d = (Inr [], ?d)" "pg_GetChannelRolloutsByBranch Some ''app'' ''main'' ?d = (Inr [], ?d)"
      "\<exists>rows. pg_GetUpdateRefsByBranchName Some ''app'' ''main'' ?d = (Inr rows, ?d)"
    by (simp_all add: pg_GetChannelNameByBranchName_def getChannelNamesByBranchName_def pg_GetChannelRolloutsByBranch_def
        getChannelRolloutsByBranch_def pg_GetUpdateRefsByBranchName_def getUpdatesMetadataByBranchName_def query_def mapErr_run bindE_run demo_db_def
        split: option.split)
  moreover have "\<exists>d'. pg_DeleteBranchByName Some ''app'' ''main'' ?d = (Inr (), d')"
    by (simp add: pg_DeleteBranchByName_def query_def bindE_run mapErr_run deleteBranchByName_def run_write_run Let_def ToPgUUID_def
        statement_eval demo_defs del: set_filter)
  moreover have "wdb demo_idle = ?d"
    by (simp add: demo_idle_def)
  ultimately obtain w' where r: "DeleteBranch (world_runtime demo_runtime) (pg_branches Some Some) nobody ''main'' ''app'' demo_idle = (Inr (), w')"
    using DeleteBranch_succeeds [OF name, of Some "''app''" demo_idle _ _ demo_runtime Some nobody] by metis
  have "map (\<lambda>u. \<lparr>RefID = u_id u, RefRuntimeVersion = v_version (the (runtime_by_id (wdb demo_idle) (u_runtime u)))\<rparr>)
      (filter (on_branch (wdb demo_idle) (Some ''app'') ''main'') (updates (wdb demo_idle)))
    = [\<lparr>RefID = 11, RefRuntimeVersion = ''1.0''\<rparr>, \<lparr>RefID = 21, RefRuntimeVersion = ''1.0''\<rparr>]"
    by (simp add: demo_idle_def demo_defs on_branch_def runtime_by_id_def)
  then show ?thesis
    using DeleteBranch_atomic [OF reach r] r by auto
qed

end
