(* ===== verification/Publishing.thy ===== *)
theory Publishing
  imports Progression Administration
begin

text \<open>
  Publishing and rollouts on a server process.  Requesting an upload never changes what a device is answered; a
  processed upload is checked and visible at the next poll; while a rollout is active its target refuses every other
  publish; a rollout only ever grows, and ends as the dashboard says.  The object stores are parameters: all that is
  assumed of them is that they hold neither the database nor the cache.
\<close>

section \<open>What the database answers to devices\<close>

definition latest_rows :: "db \<Rightarrow> string option \<Rightarrow> string \<Rightarrow> string \<Rightarrow> string \<Rightarrow> (update_row \<times> update_row option) option" where
  "latest_rows d app b v p = map_option (\<lambda>u. (u, find (\<lambda>c. u_branch c = u_branch u \<and> Some (u_id c) = u_control u) (updates d)))
     (newest (filter (serving d app b v p) (updates d)))"

definition as_envelope :: "string \<Rightarrow> string \<Rightarrow> string \<Rightarrow> update_row \<times> update_row option \<Rightarrow> UpdateWithRollout" where
  "as_envelope app b v = (\<lambda>(u, c). \<lparr>Latest = with_uuid u (as_update app b v u), RolloutPercentage = u_rollout u,
     Control = map_option (\<lambda>c. with_uuid c (as_update app b v c)) c\<rparr>)"

lemma envelope_latest: "envelope_answer uuid d app b v p = map_option (as_envelope app b v) (latest_rows d (uuid app) b v p)"
  by (simp add: envelope_answer_def pg_GetLatestUpdateWithRollout_def getLatestUpdateWithRollout_def bindE_run read_one_optional found_def
      latest_rows_def as_envelope_def ToPgUUID_def)

text \<open>Two databases that answer every device alike.\<close>

definition same_answers :: "db \<Rightarrow> db \<Rightarrow> bool" where
  "same_answers d d' \<longleftrightarrow> (\<forall>app b v p a e w. map_option (as_envelope a e w) (latest_rows d' app b v p) = map_option (as_envelope a e w) (latest_rows d app b v p))
     \<and> (\<forall>app ch. fst (getChannelBranchMapping app ch d') = fst (getChannelBranchMapping app ch d))"

lemma same_answers_refl: "same_answers d d"
  by (simp add: same_answers_def)

lemma same_answers_trans: "same_answers d d' \<Longrightarrow> same_answers d' d'' \<Longrightarrow> same_answers d d''"
  by (simp add: same_answers_def)

lemma same_answers_served:
  assumes "same_answers d d'"
  shows "envelope_answer uuid d' app b v p = envelope_answer uuid d app b v p" and "mapping_answer uuid d' app ch = mapping_answer uuid d app ch"
proof -
  show "envelope_answer uuid d' app b v p = envelope_answer uuid d app b v p"
    using assms by (simp add: envelope_latest same_answers_def)
  obtain r where "getChannelBranchMapping (uuid app) ch d = (r, d)" "getChannelBranchMapping (uuid app) ch d' = (r, d')"
    using assms by (simp add: same_answers_def prod_eq_iff getChannelBranchMapping_def)
  then show "mapping_answer uuid d' app ch = mapping_answer uuid d app ch"
    by (cases r) (simp_all add: mapping_answer_def pg_GetChannelBranchMapping_def ToPgUUID_def bindE_run optional_run found_def)
qed

text \<open>Columns that no device sees.\<close>

definition hidden :: "(update_row \<Rightarrow> update_row) \<Rightarrow> bool" where
  "hidden f \<longleftrightarrow> (\<forall>u. u_id (f u) = u_id u \<and> u_branch (f u) = u_branch u \<and> u_runtime (f u) = u_runtime u \<and> u_platform (f u) = u_platform u
     \<and> u_checked (f u) = u_checked u \<and> u_created (f u) = u_created u \<and> u_control (f u) = u_control u \<and> u_rollout (f u) = u_rollout u
     \<and> u_uuid (f u) = u_uuid u)"

lemma hidden_columns: "hidden (\<lambda>u. u\<lparr>u_mapping := m\<rparr>)" "hidden (\<lambda>u. u\<lparr>u_sourcemap := h\<rparr>)" "hidden f \<Longrightarrow> hidden (\<lambda>u. if P u then f u else u)"
  by (simp_all add: hidden_def)

lemma hidden_served: "hidden f \<Longrightarrow> with_uuid (f u) (as_update a b v (f u)) = with_uuid u (as_update a b v u)"
  by (simp add: hidden_def with_uuid_def as_update_def split: option.splits)

lemma same_answers_columns:
  assumes "hidden f" and "updates d' = map f (updates d)" and "branches d' = branches d" and "runtimes d' = runtimes d"
    and "channels d' = channels d" and "rollouts d' = rollouts d"
  shows "same_answers d d'"
proof -
  have "serving d' app b v p (f u) = serving d app b v p u" for app b v p u
    using assms(1,3,4) by (simp add: serving_def on_branch_def on_runtime_def hidden_def)
  then have rows: "newest (filter (serving d' app b v p) (updates d')) = map_option f (newest (filter (serving d app b v p) (updates d)))" for app b v p
    using assms(1,2) by (simp add: filter_map o_def newest_map hidden_def)
  have control: "find (\<lambda>c. u_branch c = u_branch (f u) \<and> Some (u_id c) = u_control (f u)) (updates d')
      = map_option f (find (\<lambda>c. u_branch c = u_branch u \<and> Some (u_id c) = u_control u) (updates d))" for u
    using assms(1,2) by (simp add: find_map hidden_def)
  have env: "as_envelope a e w (f u, map_option f c) = as_envelope a e w (u, c)" for a e w u c
    using assms(1) by (cases c) (simp_all add: as_envelope_def hidden_served, simp_all add: hidden_def)
  have "map_option (as_envelope a e w) (latest_rows d' app b v p) = map_option (as_envelope a e w) (latest_rows d app b v p)" for app b v p a e w
    by (simp add: latest_rows_def rows control env option.map_comp o_def)
  then show ?thesis
    using assms(3,5,6) by (simp add: same_answers_def getChannelBranchMapping_def read_one_def channel_named_def branch_by_id_def rollout_of_def
        split: option.splits)
qed

text \<open>A row that is not checked.\<close>

lemma find_append: "find P (xs @ [x]) = (case find P xs of None \<Rightarrow> if P x then Some x else None | Some y \<Rightarrow> Some y)"
  by (induction xs) auto

lemma find_never [simp]: "find (\<lambda>c. False) xs = None"
  by (induction xs) simp_all

lemma schema_control:
  assumes "schema_ok d" and "u \<in> set (updates d)" and "u_control u = Some i"
  shows "\<exists>c. find (\<lambda>c. u_branch c = u_branch u \<and> Some (u_id c) = u_control u) (updates d) = Some c"
proof -
  have "(u_branch u, i) \<in> (\<lambda>u. (u_branch u, u_id u)) ` set (updates d)"
    using assms unfolding schema_ok_def refs_ok_def list_all_iff by auto
  then obtain c where "c \<in> set (updates d)" "u_branch c = u_branch u" "u_id c = i"
    by auto
  then show ?thesis
    using find_exists [of c "updates d" "\<lambda>c. u_branch c = u_branch u \<and> Some (u_id c) = u_control u"] assms(3) by auto
qed

lemma same_answers_unchecked:
  assumes "schema_ok d" and "u_checked u = None"
  shows "same_answers d (add_update u d)"
proof -
  let ?d = "add_update u d"
  have rows: "filter (serving ?d app b v p) (updates ?d) = filter (serving d app b v p) (updates d)" for app b v p
    using assms(2) by (auto simp: add_update_def serving_def on_branch_def on_runtime_def intro!: filter_cong)
  have control: "find (\<lambda>c. u_branch c = u_branch x \<and> Some (u_id c) = u_control x) (updates ?d)
      = find (\<lambda>c. u_branch c = u_branch x \<and> Some (u_id c) = u_control x) (updates d)" if "x \<in> set (updates d)" for x
    using schema_control [OF assms(1) that] by (cases "u_control x") (auto simp: add_update_def find_append find_never)
  have "latest_rows ?d app b v p = latest_rows d app b v p" for app b v p
  proof (cases "newest (filter (serving d app b v p) (updates d))")
    case (Some x)
    then have "x \<in> set (updates d)"
      using newest_mem [OF Some] by simp
    then show ?thesis
      by (simp add: latest_rows_def rows Some control)
  qed (simp add: latest_rows_def rows)
  then show ?thesis
    by (simp add: same_answers_def add_update_def getChannelBranchMapping_def read_one_def channel_named_def branch_by_id_def rollout_of_def
        split: option.splits)
qed

text \<open>A branch or a runtime version that no update refers to yet.\<close>

lemma same_answers_branch:
  assumes "schema_ok d" and "schema_ok d'" and "branches d' = branches d @ [x]" and "updates d' = updates d" and "runtimes d' = runtimes d"
    and "channels d' = channels d" and "rollouts d' = rollouts d"
  shows "same_answers d d'"
proof -
  have fresh: "b_id x \<notin> b_id ` set (branches d)"
    using assms(2,3) by (simp add: schema_ok_def uniques_ok_def)
  have "on_branch d' app b u = on_branch d app b u" if "u \<in> set (updates d)" for app b u
    using schema_update_refs [OF assms(1) that] fresh assms(3) by (auto simp: on_branch_def)
  then have rows: "filter (serving d' app b v p) (updates d) = filter (serving d app b v p) (updates d)" for app b v p
    using assms(4,5) by (auto simp: serving_def on_runtime_def intro!: filter_cong)
  have by_id: "branch_by_id d' i = branch_by_id d i" if "i \<in> b_id ` set (branches d)" for i
    using that fresh assms(3) by (auto simp: branch_by_id_def find_append find_None_iff split: option.splits)
  have same: "channel_named d' app ch = channel_named d app ch" "rollout_of d' i = rollout_of d i" for app ch i
    using assms(6,7) by (simp_all add: channel_named_def rollout_of_def)
  have c: "branch_by_id d' i = branch_by_id d i" if "channel_named d app ch = Some c" "c_branch c = Some i" for app ch c i
    using by_id schema_channel_branch [OF assms(1)] channel_named_Some [OF that(1)] that(2) by blast
  have r: "branch_by_id d' (r_branch r) = branch_by_id d (r_branch r)" if "rollout_of d i = Some r" for i r
    using by_id schema_rollout_refs [OF assms(1)] rollout_of_Some [OF that] by blast
  have "fst (getChannelBranchMapping app ch d') = fst (getChannelBranchMapping app ch d)" for app ch
  proof (cases "Option.bind (channel_named d app ch) c_branch")
    case None
    then show ?thesis
      by (auto simp: getChannelBranchMapping_def read_one_def same bind_eq_None_conv split: option.splits)
  next
    case (Some i)
    then obtain z where z: "channel_named d app ch = Some z" "c_branch z = Some i"
      by (auto simp: bind_eq_Some_conv)
    show ?thesis
      using r by (cases "rollout_of d (c_id z)") (simp_all add: getChannelBranchMapping_def read_one_def same z c [OF z] split: option.split)
  qed
  then show ?thesis
    by (simp add: same_answers_def latest_rows_def rows assms(4))
qed

lemma same_answers_runtime:
  assumes "schema_ok d" and "schema_ok d'" and "runtimes d' = runtimes d @ [x]" and "updates d' = updates d" and "branches d' = branches d"
    and "channels d' = channels d" and "rollouts d' = rollouts d"
  shows "same_answers d d'"
proof -
  have fresh: "v_id x \<notin> v_id ` set (runtimes d)"
    using assms(2,3) by (simp add: schema_ok_def uniques_ok_def)
  have "on_runtime d' v u = on_runtime d v u" if "u \<in> set (updates d)" for v u
    using schema_update_refs [OF assms(1) that] fresh assms(3) by (auto simp: on_runtime_def)
  then have rows: "filter (serving d' app b v p) (updates d) = filter (serving d app b v p) (updates d)" for app b v p
    using assms(4,5) by (auto simp: serving_def on_branch_def intro!: filter_cong)
  show ?thesis
    using assms(4-) by (simp add: same_answers_def latest_rows_def rows getChannelBranchMapping_def read_one_def channel_named_def branch_by_id_def
        rollout_of_def split: option.splits)
qed

section \<open>The services of a process\<close>

definition pg_deployment :: "uuid_parser \<Rightarrow> uuid_parser \<Rightarrow> world DeploymentService \<Rightarrow> world DeploymentService" where
  "pg_deployment uuid scan ds = ds\<lparr>dsBranchService := pg_branches uuid scan, dsUpdateRepo := pg_update_repository uuid scan,
     dsOnAuditEvent := Some world_record, dsSpawn := world_spawn, dsNow := wnow\<rparr>"

definition pg_rollouts :: "uuid_parser \<Rightarrow> uuid_parser \<Rightarrow> world DeploymentService \<Rightarrow> world RolloutService" where
  "pg_rollouts uuid scan ds = \<lparr>rsRolloutRepo = Some (pg_rollout_repository uuid scan), rsChannelRepo = pg_channel_repository uuid,
     rsUpdateRepo = pg_update_repository uuid scan, rsDeploymentService = pg_deployment uuid scan ds, rsOnAuditEvent = Some world_record\<rparr>"

lemma deployment_fields [simp]:
  "dsBranchService (pg_deployment uuid scan ds) = pg_branches uuid scan" "dsUpdateRepo (pg_deployment uuid scan ds) = pg_update_repository uuid scan"
  "dsBsDiffService (pg_deployment uuid scan ds) = dsBsDiffService ds" "dsBlobStore (pg_deployment uuid scan ds) = dsBlobStore ds"
  "dsUpdateStore (pg_deployment uuid scan ds) = dsUpdateStore ds" "dsSourcemapStore (pg_deployment uuid scan ds) = dsSourcemapStore ds"
  "dsSourcemapIndexer (pg_deployment uuid scan ds) = dsSourcemapIndexer ds" "dsOnAuditEvent (pg_deployment uuid scan ds) = Some world_record"
  "dsSpawn (pg_deployment uuid scan ds) = world_spawn" "dsNow (pg_deployment uuid scan ds) = wnow"
  by (simp_all add: pg_deployment_def)

text \<open>An operation that touches neither the database nor the cache, as the object stores are.\<close>

definition detached :: "(world, 'a) op \<Rightarrow> bool" where
  "detached m \<longleftrightarrow> (\<forall>w. wdb (snd (m w)) = wdb w \<and> world_view (snd (m w)) = world_view w)"

definition storage_apart :: "world Bucket \<Rightarrow> world DeploymentService \<Rightarrow> bool" where
  "storage_apart bk ds \<longleftrightarrow> (\<forall>u f. detached (GetFile bk u f)) \<and> (\<forall>a h. detached (HasBlob bk a h))
     \<and> (\<forall>a b v i f. detached (UpdatePresignPut bk a b v i f)) \<and> (\<forall>a h b. detached (BlobPresignPut bk a h b))
     \<and> (\<forall>a h. detached (BlobExists (dsBlobStore ds) a h))
     \<and> (\<forall>a b v i. detached (UpdateStoreDelete (dsUpdateStore ds) a b v i)) \<and> (\<forall>u i. detached (CreateFrom (dsUpdateStore ds) u i))
     \<and> (\<forall>st \<in> set_option (dsSourcemapStore ds). (\<forall>a h. detached (SourcemapExists st a h)) \<and> (\<forall>a h b. detached (SourcemapPresignPut st a h b)))
     \<and> (\<forall>ix \<in> set_option (dsSourcemapIndexer ds). \<forall>u h. detached (ix u h))"

section \<open>Requesting an upload\<close>

text \<open>A database that answers devices as \<^verbatim>\<open>d\<close> does.\<close>

definition quiet :: "db \<Rightarrow> db \<Rightarrow> bool" where
  "quiet d d' \<longleftrightarrow> schema_ok d' \<and> same_answers d d'"

lemma quiet_step: "quiet d d' \<Longrightarrow> schema_ok d'' \<Longrightarrow> same_answers d' d'' \<Longrightarrow> quiet d d''"
  unfolding quiet_def by (blast intro: same_answers_trans)

definition undisturbed :: "db \<Rightarrow> (string \<Rightarrow> string option) \<Rightarrow> world \<Rightarrow> bool" where
  "undisturbed d view w \<longleftrightarrow> quiet d (wdb w) \<and> world_view w = view"

lemma detached_undisturbed: "detached m \<Longrightarrow> keeps (undisturbed d view) m"
  by (simp add: detached_def keeps_def undisturbed_def)

lemma on_db_undisturbed: "keeps (quiet d) m \<Longrightarrow> keeps (undisturbed d view) (on_db m)"
  by (auto simp: keeps_def on_db_run undisturbed_def fun_eq_iff)

lemma reads_quiet: "(\<And>e. snd (m e) = e) \<Longrightarrow> keeps (quiet d) m"
  by (simp add: keeps_def)

lemma keeps_query: "keeps P s \<Longrightarrow> keeps P (query s)" "keeps P s \<Longrightarrow> keeps P (wrapped text s)" "keeps P s \<Longrightarrow> keeps P (optional text s)"
  unfolding query_def wrapped_def optional_def by (auto split: sum.split)

lemma quiet_write:
  assumes "\<And>e. schema_ok e \<Longrightarrow> schema_ok (fst (f e)) \<Longrightarrow> same_answers e (fst (f e))"
  shows "keeps (quiet d) (run_write f)"
proof
  fix e
  assume "quiet d e"
  then show "quiet d (snd (run_write f e))"
    using assms [of e] by (auto simp: run_write_run quiet_def intro: same_answers_trans)
qed

lemma quiet_insertBranch: "keeps (quiet d) (insertBranch app name)"
  unfolding insertBranch_def by (auto split: option.split intro!: quiet_write intro: same_answers_branch)

lemma quiet_insertRuntime: "keeps (quiet d) (insertRuntimeVersion app name)"
  unfolding insertRuntimeVersion_def by (auto split: option.split intro!: quiet_write intro: same_answers_runtime)

lemma quiet_add: "quiet d e \<Longrightarrow> u_checked u = None \<Longrightarrow> quiet d (snd (run_write (\<lambda>d. (add_update u d, u)) e))"
  by (rule keepsD, rule quiet_write) (simp_all add: same_answers_unchecked)

lemma quiet_insertUpdate: "keeps (quiet d) (insertUpdate i name app ver ty platform commit msg grp)"
  unfolding insertUpdate_def by rule (auto simp: Let_def new_update_def intro!: quiet_add split: option.splits)

lemma quiet_insertRollout: "keeps (quiet d) (insertUpdateWithRollout i name app ver ty platform commit msg percentage grp)"
  unfolding insertUpdateWithRollout_def by rule (auto simp: Let_def new_update_def intro!: quiet_add split: option.splits)

lemma quiet_columns:
  assumes "hidden f"
  shows "keeps (quiet d) (run_write (\<lambda>e. set_updates (P e) f e))"
proof (rule quiet_write)
  fix e
  show "same_answers e (fst (set_updates (P e) f e))"
    by (rule same_answers_columns [OF hidden_columns(3) [OF assms, of "P e"]]) simp_all
qed

lemma quiet_mapping: "keeps (quiet d) (setUpdateAssetMapping i m app name)" "keeps (quiet d) (setUpdateSourcemapHash i h app name)"
  unfolding setUpdateAssetMapping_def setUpdateSourcemapHash_def by (rule quiet_columns, rule hidden_columns)+

lemma keeps_parse_id: "keeps P (parse_id i)"
  by (simp add: parse_id_def split: option.split)

lemma keeps_read_one [simp, intro]: "keeps P (read_one f)"
  by (simp add: keeps_def)

lemma keeps_no_rows: "keeps P (no_rows_error text i n)"
  by (simp add: no_rows_error_def)

lemmas keeps_steps = keeps_bindE keeps_mapErr keeps_attempt keeps_query keeps_parse_id keeps_no_rows

text \<open>The repository methods a request for an upload calls.\<close>

lemma quiet_upsert: "keeps (quiet d) (pg_UpsertBranchAndRuntimeVersion uuid app b v)"
  unfolding pg_UpsertBranchAndRuntimeVersion_def ensure_def pg_InsertBranch_def pg_CreateRuntimeVersion_def
  by (intro keeps_steps quiet_insertBranch quiet_insertRuntime) (auto split: sum.split intro!: keeps_steps quiet_insertRuntime)

lemma quiet_repository:
  "keeps (quiet d) (pg_HasActiveRolloutUpdate uuid app b v)" "keeps (quiet d) (pg_GetLatestUpdate uuid app b v p)"
  "keeps (quiet d) (pg_GetUpdateAssetMapping uuid u)"
  "keeps (quiet d) (pg_CreateUpdate uuid app i b v p c m g)" "keeps (quiet d) (pg_CreateUpdateWithRollout uuid app i b v p c m n g)"
  "keeps (quiet d) (pg_StoreUpdateAssetMapping uuid u mapping)" "keeps (quiet d) (pg_StoreUpdateSourcemapHash uuid u h)"
  unfolding pg_HasActiveRolloutUpdate_def pg_GetLatestUpdate_def pg_GetUpdateAssetMapping_def pg_CreateUpdate_def pg_CreateUpdateWithRollout_def
    pg_StoreUpdateAssetMapping_def pg_StoreUpdateSourcemapHash_def hasActiveRolloutUpdate_def getLatestUpdate_def getUpdateAssetMapping_def
  by (intro keeps_steps quiet_insertUpdate quiet_insertRollout quiet_mapping keeps_ret keeps_gets keeps_read_one)+

lemma undisturbed_presign:
  assumes "storage_apart bk ds"
  shows "keeps (undisturbed d view) (presign_loop bk app b v i files done)"
  using assms by (induction files arbitrary: "done") (auto simp: storage_apart_def intro!: keeps_bindE intro: detached_undisturbed)

lemma undisturbed_dedup:
  assumes "storage_apart bk ds"
  shows "keeps (undisturbed d view) (dedup_loop (pg_deployment uuid scan ds) app files seen)"
  using assms by (induction files arbitrary: seen) (auto simp: storage_apart_def intro!: keeps_bindE keeps_attempt intro: detached_undisturbed)

lemma undisturbed_repository:
  "keeps (undisturbed d view) (HasActiveRolloutUpdate (pg_update_repository uuid scan) app b v)"
  "keeps (undisturbed d view) (GetLatestUpdate (pg_update_repository uuid scan) app b v p)"
  "keeps (undisturbed d view) (GetUpdateAssetMapping (pg_update_repository uuid scan) u)"
  "keeps (undisturbed d view) (CreateUpdate (pg_update_repository uuid scan) app i b v p c m g)"
  "keeps (undisturbed d view) (CreateUpdateWithRollout (pg_update_repository uuid scan) app i b v p c m n g)"
  "keeps (undisturbed d view) (StoreUpdateAssetMapping (pg_update_repository uuid scan) u mapping)"
  "keeps (undisturbed d view) (StoreUpdateSourcemapHash (pg_update_repository uuid scan) u h)"
  "keeps (undisturbed d view) (UpsertBranchAndRuntimeVersion (pg_branch_repository uuid) app b v)"
  by (simp_all add: pg_update_repository_def pg_branch_repository_def on_db_undisturbed quiet_repository quiet_upsert)

lemma keeps_Pair [simp]: "keeps P (Pair r)"
  by (simp add: keeps_def)

lemma keeps_of_result [intro]: "keeps P (of_result r)"
  by (simp add: keeps_def of_result_run)

lemma keeps_require [intro]: "keeps P (require e)"
  by (simp add: keeps_def require_run split: option.split)

lemma undisturbed_request:
  assumes "storage_apart bk ds"
  shows "keeps (undisturbed d view) (RequestUploadURLs (world_runtime rt) bk (pg_deployment uuid scan ds) params)"
proof -
  have store: "keeps (undisturbed d view) (requestSourcemapUpload (pg_deployment uuid scan ds) st params sm u)" if "dsSourcemapStore ds = Some st" for st sm u
  proof -
    have "keeps (undisturbed d view) (SourcemapExists st a h)" "keeps (undisturbed d view) (SourcemapPresignPut st a h b)" for a h b
      using assms that by (auto simp: storage_apart_def intro!: detached_undisturbed)
    then show ?thesis
      unfolding requestSourcemapUpload_def by (auto intro!: keeps_bindE undisturbed_repository)
  qed
  have extra: "keeps (undisturbed d view) (finish_request (pg_deployment uuid scan ds) params mapping reqs u)" for mapping reqs u
    unfolding finish_request_def by (auto intro!: keeps_bindE undisturbed_repository store split: option.split)
  show ?thesis
    unfolding RequestUploadURLs_def UpsertBranchAndRuntimeVersionOp_def isIdenticalToLatest_def generate_id_def missing_files_def
      dedupExistingUploadAssets_def RequestUploadUrlsForFileUpdates_def create_row_def
    by (auto intro!: keeps_bindE keeps_attempt keeps_of_result keeps_require undisturbed_repository undisturbed_presign [OF assms] undisturbed_dedup [OF assms] extra
        simp: pg_branches_def keeps_def [of _ "\<lambda>s. (Inr (_ s), s)"] split: option.split sum.split)
qed

text \<open>The row a request leaves behind.\<close>

definition pending :: "uuid_parser \<Rightarrow> RequestUploadURLParams \<Rightarrow> int \<Rightarrow> UpdateAssetMapping option \<Rightarrow> db \<Rightarrow> bool" where
  "pending uuid params i mapping d \<longleftrightarrow> (\<exists>u \<in> set (updates d). u_id u = i
     \<and> in_target d (uuid (RqAppID params)) (RqBranchName params) (RqRuntimeVersion params) u \<and> u_platform u = RqPlatform params
     \<and> u_checked u = None \<and> u_rollout u = map_option int32 (RqRolloutPercentage params) \<and> u_mapping u = mapping)"

lemma create_row_pending:
  assumes "create_row (pg_deployment uuid scan ds) params i w = (Inr (Some nu), w')"
  shows "pending uuid params i None (wdb w')" and "UpdateId nu = FormatInt i" and "AppId nu = RqAppID params" and "Branch nu = RqBranchName params"
  using assms
  by (auto simp: create_row_def pg_update_repository_def on_db_run pg_CreateUpdate_def pg_CreateUpdateWithRollout_def bindE_run wrapped_run
      insertUpdate_def insertUpdateWithRollout_def run_write_run Let_def pending_def add_update_def new_update_def in_target_def branch_named_def runtime_named_def
      ToPgUUID_def as_update_def split: option.splits if_splits sum.splits)

lemma store_mapping_pending:
  assumes "pending uuid params i None (wdb w)" and "int64_range i" and "UpdateId nu = FormatInt i" and "AppId nu = RqAppID params" and "Branch nu = RqBranchName params"
    and "StoreUpdateAssetMapping (pg_update_repository uuid scan) nu mapping w = (Inr (), w')"
  shows "pending uuid params i (Some mapping) (wdb w')"
proof -
  let ?hit = "\<lambda>u. u_id u = i \<and> Some (u_branch u) = map_option b_id (branch_named (wdb w) (uuid (RqAppID params)) (RqBranchName params))"
  have w': "wdb w' = fst (set_updates ?hit (\<lambda>u. u\<lparr>u_mapping := Some mapping\<rparr>) (wdb w))"
    using assms(2-6) by (auto simp: pg_update_repository_def on_db_run pg_StoreUpdateAssetMapping_def bindE_run wrapped_run parse_id_FormatInt
        setUpdateAssetMapping_def run_write_run no_rows_error_def ToPgUUID_def split: if_splits)
  obtain u where u: "u \<in> set (updates (wdb w))" "?hit u" "in_target (wdb w) (uuid (RqAppID params)) (RqBranchName params) (RqRuntimeVersion params) u"
      "u_platform u = RqPlatform params" "u_checked u = None" "u_rollout u = map_option int32 (RqRolloutPercentage params)"
    using assms(1) by (auto simp: pending_def in_target_def)
  then have "u\<lparr>u_mapping := Some mapping\<rparr> \<in> set (updates (wdb w'))"
    unfolding w' by (simp add: image_iff) (rule bexI [of _ u], auto)
  then show ?thesis
    unfolding pending_def using u by (intro bexI [of _ "u\<lparr>u_mapping := Some mapping\<rparr>"]) (simp_all add: w' in_target_def branch_named_def runtime_named_def)
qed

lemma pending_hidden:
  assumes "hidden f" and "\<And>u. u_mapping (f u) = u_mapping u" and "pending uuid params i mapping d"
  shows "pending uuid params i mapping (fst (set_updates P f d))"
proof -
  obtain u where u: "u \<in> set (updates d)" "u_id u = i" "in_target d (uuid (RqAppID params)) (RqBranchName params) (RqRuntimeVersion params) u"
      "u_platform u = RqPlatform params" "u_checked u = None" "u_rollout u = map_option int32 (RqRolloutPercentage params)" "u_mapping u = mapping"
    using assms(3) by (auto simp: pending_def)
  let ?u = "if P u then f u else u"
  have "?u \<in> set (updates (fst (set_updates P f d)))"
    using u(1) by (simp add: image_iff) blast
  moreover have "u_id ?u = i" "in_target (fst (set_updates P f d)) (uuid (RqAppID params)) (RqBranchName params) (RqRuntimeVersion params) ?u"
      "u_platform ?u = RqPlatform params" "u_checked ?u = None" "u_rollout ?u = map_option int32 (RqRolloutPercentage params)" "u_mapping ?u = mapping"
    using u(2-) assms(1,2) by (simp_all add: hidden_def in_target_def branch_named_def runtime_named_def)
  ultimately show ?thesis
    unfolding pending_def by blast
qed

lemma detached_pending: "detached m \<Longrightarrow> keeps (\<lambda>w. pending uuid params i mapping (wdb w)) m"
  by (simp add: keeps_def detached_def)

lemma sourcemap_pending:
  assumes "storage_apart bk ds" and "dsSourcemapStore ds = Some st"
  shows "keeps (\<lambda>w. pending uuid params i mapping (wdb w)) (requestSourcemapUpload (pg_deployment uuid' scan ds) st q sm u)"
proof -
  let ?P = "\<lambda>w. pending uuid params i mapping (wdb w)"
  have "keeps (pending uuid params i mapping) (setUpdateSourcemapHash j h app b)" for j h app b
    unfolding setUpdateSourcemapHash_def
    by (rule keepsI, rule run_write_keeps) (auto intro!: pending_hidden simp: hidden_columns)
  then have "keeps (pending uuid params i mapping) (pg_StoreUpdateSourcemapHash uuid' u h)" for h
    unfolding pg_StoreUpdateSourcemapHash_def by (intro keeps_steps)
  then have "keeps ?P (StoreUpdateSourcemapHash (pg_update_repository uuid' scan) u h)" for h
    by (simp add: pg_update_repository_def keeps_def on_db_run)
  moreover have "keeps ?P (SourcemapExists st a h)" "keeps ?P (SourcemapPresignPut st a h b)" for a h b
    using assms by (auto simp: storage_apart_def intro!: detached_pending)
  ultimately show ?thesis
    unfolding requestSourcemapUpload_def by (auto intro!: keeps_bindE)
qed

lemma finish_request_pending:
  assumes "storage_apart bk ds" and "pending uuid params i None (wdb w)" and "int64_range i"
    and nu: "UpdateId nu = FormatInt i" "AppId nu = RqAppID params" "Branch nu = RqBranchName params"
    and "finish_request (pg_deployment uuid scan ds) params mapping reqs nu w = (Inr resp, w')"
  shows "pending uuid params (RespUpdateID resp) (Some mapping) (wdb w')"
proof -
  let ?extra = "case (RqSourcemap params, dsSourcemapStore ds) of
         (Some sourcemap, Some store) \<Rightarrow> requestSourcemapUpload (pg_deployment uuid scan ds) store params sourcemap nu | _ \<Rightarrow> ret None"
  obtain w1 x where w1: "StoreUpdateAssetMapping (pg_update_repository uuid scan) nu mapping w = (Inr (), w1)"
      and x: "?extra w1 = (Inr x, w')" and resp: "RespUpdateID resp = ParseInt_value (UpdateId nu)"
    using assms(7) unfolding finish_request_def by (auto elim!: bindE_Inr)
  have p: "pending uuid params i (Some mapping) (wdb w1)"
    by (rule store_mapping_pending [OF assms(2,3) nu w1])
  have "keeps (\<lambda>w. pending uuid params i (Some mapping) (wdb w)) ?extra"
    using sourcemap_pending [OF assms(1)] by (auto split: option.split)
  from keepsD [OF this p] have "pending uuid params i (Some mapping) (wdb w')"
    using x by simp
  moreover have "RespUpdateID resp = i"
    using resp nu(1) assms(3) by (simp add: ParseInt_value_def ParseInt_FormatInt)
  ultimately show ?thesis
    by simp
qed

lemma id_range: "int64_range (GenerateUpdateTimestamp now platform)"
  by (simp add: GenerateUpdateTimestamp_def wrap64_range)

lemma request_pending:
  assumes "storage_apart bk ds" and "RequestUploadURLs (world_runtime rt) bk (pg_deployment uuid scan ds) params w = (Inr resp, w')"
  shows "\<exists>mapping. assetMapping (world_runtime rt) (RqFiles params) = Inr mapping \<and> pending uuid params (RespUpdateID resp) (Some mapping) (wdb w')"
proof -
  obtain mapping i reqs nu w1 w2 where m: "assetMapping (world_runtime rt) (RqFiles params) = Inr mapping"
      and i: "int64_range i" and row: "create_row (pg_deployment uuid scan ds) params i w1 = (Inr (Some nu), w2)"
      and fin: "finish_request (pg_deployment uuid scan ds) params mapping reqs nu w2 = (Inr resp, w')"
    using assms(2) unfolding RequestUploadURLs_def
    by (auto elim!: bindE_Inr simp: of_result_run generate_id_def split: if_splits option.splits) (blast intro: id_range)
  show ?thesis
    using finish_request_pending [OF assms(1) create_row_pending(1) [OF row] i create_row_pending(2-4) [OF row] fin] m by blast
qed

section \<open>Stamping an update\<close>

definition row_at :: "db \<Rightarrow> string option \<Rightarrow> string \<Rightarrow> string \<Rightarrow> int \<Rightarrow> update_row \<Rightarrow> bool" where
  "row_at d app b v i u \<longleftrightarrow> u \<in> set (updates d) \<and> on_branch d app b u \<and> on_runtime d v u \<and> u_id u = i"

lemma branch_update_unique:
  assumes "schema_ok d" and "x \<in> set (updates d)" "on_branch d app b x" and "y \<in> set (updates d)" "on_branch d app b y" and "u_id x = u_id y"
  shows "x = y"
proof -
  have "Some (u_branch x) = Some (u_branch y)"
    using assms(1,3,5) by (simp only: on_branch_named)
  then show ?thesis
    using schema_update_id [OF assms(1,2,4)] assms(6) by simp
qed

lemma row_at_found:
  assumes "schema_ok d" and "row_at d app b v i u"
  shows "getUpdateByBranchNameAndRuntime app i b v d = (Inr u, d)" and "update_on_branch d app b i = Some u"
proof -
  have unique: "y = u" if "y \<in> set (updates d)" "on_branch d app b y" "u_id y = i" for y
    using branch_update_unique [OF assms(1) that(1,2), of u] assms(2) that(3) by (simp add: row_at_def)
  have "find (\<lambda>u. on_branch d app b u \<and> u_id u = i \<and> on_runtime d v u) (updates d) = Some u"
    using assms(2) by (intro find_unique) (auto simp: row_at_def intro: unique)
  then show "getUpdateByBranchNameAndRuntime app i b v d = (Inr u, d)"
    by (simp add: getUpdateByBranchNameAndRuntime_def read_one_def)
  show "update_on_branch d app b i = Some u"
    unfolding update_on_branch_def using assms(2) by (intro find_unique) (auto simp: row_at_def intro: unique)
qed

lemma mark_stamps:
  assumes ok: "schema_ok d" and row: "row_at d (uuid (AppId U)) (Branch U) (RuntimeVersion U) i u" and i: "UpdateId U = FormatInt i" "int64_range i"
    and run: "pg_MarkUpdateAsChecked uuid U d = (Inr (), d')"
  shows "stamp_allowed d u" and "schema_ok d'" and "updates d' = map (\<lambda>x. if x = u then u\<lparr>u_checked := Some (db_now d)\<rparr> else x) (updates d)"
    and "branches d' = branches d" and "row_at d' (uuid (AppId U)) (Branch U) (RuntimeVersion U) i (u\<lparr>u_checked := Some (db_now d)\<rparr>)"
proof -
  note found = row_at_found [OF ok row]
  have u: "u \<in> set (updates d)" "u_id u = i" "on_branch d (uuid (AppId U)) (Branch U) u" "on_runtime d (RuntimeVersion U) u"
    using row by (simp_all add: row_at_def)
  show allowed: "stamp_allowed d u"
  proof (rule ccontr)
    assume refused: "\<not> stamp_allowed d u"
    have "x = u" if "x \<in> set (updates d)" "u_id x = i" "on_branch d (uuid (AppId U)) (Branch U) x" for x
      using branch_update_unique [OF ok that(1,3) u(1,3)] that(2) u(2) by simp
    then have "markUpdateAsChecked i (uuid (AppId U)) (Branch U) d = (Inr 0, d)"
      using stamp_none [OF ok] refused by blast
    then show False
      using run i found(1) by (simp add: pg_MarkUpdateAsChecked_def parse_id_FormatInt bindE_run wrapped_run attempt_run ToPgUUID_def split: if_splits)
  qed
  obtain e where e: "updates e = map (\<lambda>x. if x = u then u\<lparr>u_checked := Some (db_now d)\<rparr> else x) (updates d)"
      "runtimes e = map (\<lambda>v. if v_id v = u_runtime u then v\<lparr>v_updated := db_now d\<rparr> else v) (runtimes d)" "branches e = branches d"
      "markUpdateAsChecked i (uuid (AppId U)) (Branch U) d = (if schema_ok e then (Inr 1, e) else (Inl (schema_error e), d))"
    using stamp_run [OF ok u(1-3) allowed] by blast
  have "d' = e" "schema_ok e"
    using run i e(4) by (simp_all add: pg_MarkUpdateAsChecked_def parse_id_FormatInt bindE_run wrapped_run ToPgUUID_def split: if_splits)
  then show "schema_ok d'" "updates d' = map (\<lambda>x. if x = u then u\<lparr>u_checked := Some (db_now d)\<rparr> else x) (updates d)" "branches d' = branches d"
    using e by simp_all
  have "on_runtime e (RuntimeVersion U) (u\<lparr>u_checked := Some (db_now d)\<rparr>)"
    using u(4) e(2) by (auto simp: on_runtime_def list_ex_iff intro!: bexI [of _ "v_updated_update (\<lambda>_. db_now d) _"])
  then show "row_at d' (uuid (AppId U)) (Branch U) (RuntimeVersion U) i (u\<lparr>u_checked := Some (db_now d)\<rparr>)"
    using u e(1,3) \<open>d' = e\<close> by (auto simp: row_at_def on_branch_def image_iff)
qed

lemma uuid_stored:
  assumes ok: "schema_ok d" and row: "row_at d (uuid (AppId U)) (Branch U) v i u" and i: "UpdateId U = FormatInt i" "int64_range i"
    and run: "pg_StoreUpdateUUIDInMetadata uuid scan U x d = (Inr (), d')"
  shows "\<exists>y. scan x = Some y \<and> schema_ok d' \<and> row_at d' (uuid (AppId U)) (Branch U) v i (u\<lparr>u_uuid := Some y\<rparr>)"
proof -
  obtain y where y: "scan x = Some y" "d' = fst (set_updates (\<lambda>u. u_id u = i \<and> Some (u_branch u) = map_option b_id (branch_named d (uuid (AppId U)) (Branch U)))
       (\<lambda>u. u\<lparr>u_uuid := Some y\<rparr>) d)" "schema_ok d'"
    using run i by (auto simp: pg_StoreUpdateUUIDInMetadata_def bindE_run wrapped_run storeUpdateUUID_def run_write_run no_rows_error_def
        ParseInt_value_def ParseInt_FormatInt ToPgUUID_def split: option.splits if_splits)
  have "Some (u_branch u) = map_option b_id (branch_named d (uuid (AppId U)) (Branch U))"
    using row ok by (simp add: row_at_def on_branch_named)
  then have "u\<lparr>u_uuid := Some y\<rparr> \<in> set (updates d')"
    using row unfolding y(2) by (auto simp: row_at_def image_iff)
  then have "row_at d' (uuid (AppId U)) (Branch U) v i (u\<lparr>u_uuid := Some y\<rparr>)"
    using row unfolding row_at_def y(2) by (simp add: on_branch_def on_runtime_def)
  then show ?thesis
    using y(1,3) by blast
qed

text \<open>Reading the files of an update fills the cache and leaves the database alone.\<close>

definition db_is :: "db \<Rightarrow> world \<Rightarrow> bool" where
  "db_is d w \<longleftrightarrow> wdb w = d"

lemma detached_db: "detached m \<Longrightarrow> keeps (db_is d) m"
  by (simp add: keeps_def detached_def db_is_def)

lemma cache_db:
  "keeps (db_is d) (cached_json (world_runtime rt) c key)" "keeps (db_is d) (put_json (world_runtime rt) c key x ttl)"
  by (simp_all add: keeps_def db_is_def cached_json_run put_json_run world_cache_def split: prod.split option.split)

lemma storage_db:
  assumes "storage_apart bk ds"
  shows "keeps (db_is d) (GetFile bk u f)" "keeps (db_is d) (HasBlob bk a h)" "keeps (db_is d) (UpdateStoreDelete (dsUpdateStore ds) a b v j)"
    "keeps (db_is d) (CreateFrom (dsUpdateStore ds) u j)" "dsSourcemapStore ds = Some st \<Longrightarrow> keeps (db_is d) (SourcemapExists st a h)"
    "keeps (undisturbed d' view) (UpdateStoreDelete (dsUpdateStore ds) a b v j)"
  using assms by (auto simp: storage_apart_def intro!: detached_db detached_undisturbed)

lemma metadata_db:
  assumes "storage_apart bk ds"
  shows "keeps (db_is d) (GetMetadata (world_runtime rt) pk bk u)"
  unfolding GetMetadata_def Let_def by (auto intro!: keeps_bindE keeps_of_result cache_db storage_db [OF assms] split: option.split)

lemma verify_db:
  assumes "storage_apart bk ds"
  shows "keeps (db_is d) (VerifyUploadedUpdate (world_runtime rt) pk bk u m)"
  unfolding VerifyUploadedUpdate_def GetExpoConfig_def verifyFolderUploaded_def verify_file_def verifyBlobsUploaded_def verify_blob_def
  by (auto intro!: keeps_bindE keeps_mapErr keeps_forEach keeps_of_result metadata_db [OF assms] storage_db [OF assms]
      split: option.split sum.split json_error.split prod.split)

lemma sourcemap_db:
  assumes "storage_apart bk ds"
  shows "keeps (db_is d) (verifySourcemapUploaded (pg_deployment uuid scan ds) u)"
proof -
  have "keeps (db_is d) (GetUpdateSourcemapHash (pg_update_repository uuid scan) u)"
    by (simp add: pg_update_repository_def keeps_def db_is_def on_db_run pg_GetUpdateSourcemapHash_def getUpdateSourcemapHash_def bindE_run
        read_one_optional parse_id_def split: option.split)
  then show ?thesis
    unfolding verifySourcemapUploaded_def using storage_db(5) [OF assms] by (auto intro!: keeps_bindE keeps_mapErr split: option.split)
qed

lemma mark_op_stamps:
  assumes st: "storage_apart bk ds" and ok: "schema_ok (wdb w)" and row: "row_at (wdb w) (uuid (AppId U)) (Branch U) (RuntimeVersion U) i u"
    and i: "UpdateId U = FormatInt i" "int64_range i"
    and run: "MarkUpdateAsCheckedOp (world_runtime rt) pk bk (pg_deployment uuid scan ds) U ty w = (Inr x, w')"
  shows "\<exists>t. row_at (wdb w') (uuid (AppId U)) (Branch U) (RuntimeVersion U) i
      ((if ty = NormalUpdate then u\<lparr>u_uuid := scan x\<rparr> else u)\<lparr>u_checked := Some t\<rparr>)"
    and "schema_ok (wdb w')"
    and "world_view w' (ComputeLastUpdateCacheKey (world_runtime rt) (AppId U) (Branch U) (RuntimeVersion U) (u_platform u)) = None"
proof -
  let ?repo = "pg_update_repository uuid scan"
  let ?u = "if ty = NormalUpdate then u\<lparr>u_uuid := scan x\<rparr> else u"
  obtain sm where sm: "RetrieveUpdateStoredMetadata ?repo U w = (Inr (Some sm), w)" "MdPlatform sm = u_platform u"
    using row_at_found(2) [OF ok row] i by (simp add: pg_update_repository_def on_db_run pg_RetrieveUpdateStoredMetadata_def getUpdateMetadata_def
        bindE_run wrapped_run read_one_def ParseInt_value_def ParseInt_FormatInt ToPgUUID_def)
  obtain w1 w2 where w1: "store_uuid (world_runtime rt) pk bk (pg_deployment uuid scan ds) U ty w = (Inr x, w1)"
      and w2: "MarkUpdateAsChecked ?repo U w1 = (Inr (), w2)"
      and w': "w' = fold world_spawn (publish_jobs (dsBsDiffService ds) U ty x (u_platform u))
        (forgotten [ComputeLastUpdateCacheKey (world_runtime rt) (AppId U) (Branch U) (RuntimeVersion U) (u_platform u),
          ComputeGetBranchesCacheKey (world_runtime rt) (AppId U), ComputeGetChannelsCacheKey (world_runtime rt) (AppId U),
          ComputeGetRuntimeVersionsCacheKey (world_runtime rt) (AppId U) (Branch U)] w2)"
    using run unfolding MarkUpdateAsCheckedOp_def
    by (auto elim!: bindE_Inr simp: sm mapErr_run forget_all_world split: sum.splits prod.splits)
  have "schema_ok (wdb w1) \<and> row_at (wdb w1) (uuid (AppId U)) (Branch U) (RuntimeVersion U) i ?u"
  proof (cases "ty = NormalUpdate")
    case True
    obtain w0 where w0: "getUpdateUUIDFromMetadata (world_runtime rt) pk bk U w = (Inr x, w0)" "StoreUpdateUUIDInMetadata ?repo U x w0 = (Inr (), w1)"
      using w1 True by (auto simp: store_uuid_def elim!: bindE_Inr)
    have "keeps (db_is (wdb w)) (getUpdateUUIDFromMetadata (world_runtime rt) pk bk U)"
      unfolding getUpdateUUIDFromMetadata_def by (auto intro!: keeps_bindE keeps_attempt metadata_db [OF st] split: sum.split)
    then have "wdb w0 = wdb w"
      using w0(1) by (auto simp: keeps_def db_is_def)
    then have "pg_StoreUpdateUUIDInMetadata uuid scan U x (wdb w) = (Inr (), wdb w1)"
      using w0(2) by (auto simp: pg_update_repository_def on_db_run prod_eq_iff)
    from uuid_stored [OF ok row i this] show ?thesis
      using True by auto
  next
    case False
    then show ?thesis
      using w1 ok row by (auto simp: store_uuid_def)
  qed
  moreover have "pg_MarkUpdateAsChecked uuid U (wdb w1) = (Inr (), wdb w2)"
    using w2 by (auto simp: pg_update_repository_def on_db_run prod_eq_iff)
  ultimately have "schema_ok (wdb w2)" "row_at (wdb w2) (uuid (AppId U)) (Branch U) (RuntimeVersion U) i (?u\<lparr>u_checked := Some (db_now (wdb w1))\<rparr>)"
    using mark_stamps [OF _ _ i] by blast+
  moreover have jobs: "wdb (fold world_spawn js z) = wdb z" "world_view (fold world_spawn js z) = world_view z" for js z
    by (induction js arbitrary: z) (simp_all add: world_spawn_def world_view_def fun_eq_iff)
  ultimately show "\<exists>t. row_at (wdb w') (uuid (AppId U)) (Branch U) (RuntimeVersion U) i (?u\<lparr>u_checked := Some t\<rparr>)" "schema_ok (wdb w')"
    using w' by auto
  show "world_view w' (ComputeLastUpdateCacheKey (world_runtime rt) (AppId U) (Branch U) (RuntimeVersion U) (u_platform u)) = None"
    by (simp add: w' jobs forgotten_view)
qed

section \<open>Processing an upload\<close>

lemma get_update_row:
  assumes "GetUpdate (pg_update_repository uuid scan) app b v name w = (Inr (Some U), w')"
  shows "\<exists>i u. ParseInt name = Some i \<and> row_at (wdb w) (uuid app) b v i u \<and> U = as_update app b v u \<and> w' = w"
  using assms by (auto simp: pg_update_repository_def on_db_run pg_GetUpdate_def parse_id_def getUpdateByBranchNameAndRuntime_def bindE_run
      read_one_optional row_at_def ToPgUUID_def dest!: find_Some_mem split: option.splits)

lemma as_update_fields [simp]:
  "AppId (as_update app b v u) = app" "Branch (as_update app b v u) = b" "RuntimeVersion (as_update app b v u) = v"
  "UpdateId (as_update app b v u) = FormatInt (u_id u)"
  by (simp_all add: as_update_def)

lemma envelope_miss:
  assumes "world_view w (ComputeLastUpdateCacheKey (world_runtime rt) app b v p) = None"
  shows "fst (getLatestUpdateEnvelope (world_runtime rt) (pg_update_repository uuid scan) app b v p w) = Inr (envelope_answer uuid (wdb w) app b v p)"
proof -
  let ?key = "ComputeLastUpdateCacheKey (world_runtime rt) app b v p"
  have miss: "fst (cacheGet world_cache ?key w) = []"
    using proc_cache.get_value [where rt = rt and k = ?key and s = w] assms by simp
  have "wdb (snd (cacheGet world_cache ?key w)) = wdb w"
    by (simp add: world_cache_def split: prod.split)
  then show ?thesis
    by (simp add: getLatestUpdateEnvelope_def Let_def bindE_run cached_json_run miss mapErr_run pg_update_repository_def on_db_run pg_envelope_reads
        put_json_run split: option.split)
qed

text \<open>A checked row is served, or a newer one of its target is.\<close>

lemma checked_row_served:
  assumes "row_at d (uuid app) b v i u" and "u_checked u \<noteq> None"
  shows "\<exists>e j. envelope_answer uuid d app b v (u_platform u) = Some e \<and> UpdateId (Latest e) = FormatInt j \<and> i \<le> j"
proof -
  let ?rows = "filter (serving d (uuid app) b v (u_platform u)) (updates d)"
  have u: "u \<in> set ?rows"
    using assms by (simp add: row_at_def serving_def)
  then have "?rows \<noteq> []"
    by (cases ?rows) simp_all
  then obtain x where x: "newest ?rows = Some x"
    by (cases "newest ?rows") simp_all
  then have "u_id u \<le> u_id x"
    using newest_max u by blast
  then show ?thesis
    using assms(1) x by (auto simp: envelope_latest latest_rows_def as_envelope_def with_uuid_def row_at_def split: option.split)
qed

lemma process_stamps:
  assumes st: "storage_apart bk ds" and "schema_ok (wdb w)"
    and run: "ProcessUploadedUpdate (world_runtime rt) pk bk (pg_deployment uuid scan ds) ctx params w = (Inr x, w')"
  shows "\<exists>i u. ParseInt (PuUpdateID params) = Some i \<and> row_at (wdb w') (uuid (PuAppID params)) (PuBranchName params) (PuRuntimeVersion params) i u
    \<and> u_checked u \<noteq> None \<and> u_uuid u = scan x
    \<and> world_view w' (ComputeLastUpdateCacheKey (world_runtime rt) (PuAppID params) (PuBranchName params) (PuRuntimeVersion params) (u_platform u)) = None"
proof -
  let ?ds = "pg_deployment uuid scan ds" and ?repo = "pg_update_repository uuid scan"
  let ?app = "PuAppID params" and ?b = "PuBranchName params" and ?v = "PuRuntimeVersion params"
  obtain w1 U w2 m w3 h w4 w5 w6 where w1: "UpsertBranchAndRuntimeVersionOp (pg_branches uuid scan) ?app ?b ?v w = (Inr (), w1)"
      and U: "GetUpdate ?repo ?app ?b ?v (PuUpdateID params) w1 = (Inr (Some U), w2)"
      and m: "GetUpdateAssetMapping ?repo U w2 = (Inr m, w3)"
      and h: "bindE (VerifyUploadedUpdate (world_runtime rt) pk bk U m) (\<lambda>_. verifySourcemapUploaded ?ds U) w3 = (Inr h, w4)"
      and w5: "MarkUpdateAsCheckedOp (world_runtime rt) pk bk ?ds U NormalUpdate w4 = (Inr x, w5)"
      and w6: "scheduleSourcemapIndex ?ds U h w5 = (Inr (), w6)"
      and w': "recordDeliveryEvent ?ds ctx ''update.published'' U [(''platform'', MetaText (PuPlatform params))] w6 = (Inr (), w')"
    using run unfolding ProcessUploadedUpdate_def
    by (auto elim!: bindE_Inr simp: attempt_run reject_upload_def Let_def split: option.splits sum.splits if_splits) (metis surjective_pairing)+
  have "keeps (undisturbed (wdb w) (world_view w)) (UpsertBranchAndRuntimeVersionOp (pg_branches uuid scan) ?app ?b ?v)"
    unfolding UpsertBranchAndRuntimeVersionOp_def by (auto simp: pg_branches_def intro!: keeps_bindE keeps_require undisturbed_repository)
  then have ok: "schema_ok (wdb w1)"
    using w1 assms(2) by (force simp: keeps_def undisturbed_def quiet_def same_answers_refl)
  obtain i u where i: "ParseInt (PuUpdateID params) = Some i" and row: "row_at (wdb w1) (uuid ?app) ?b ?v i u" and U': "U = as_update ?app ?b ?v u" "w2 = w1"
    using get_update_row [OF U] by blast
  have "wdb w3 = wdb w2"
    using m by (auto simp: pg_update_repository_def on_db_run pg_GetUpdateAssetMapping_def getUpdateAssetMapping_def bindE_run read_one_optional
        parse_id_def split: option.splits)
  moreover have "keeps (db_is (wdb w3)) (bindE (VerifyUploadedUpdate (world_runtime rt) pk bk U m) (\<lambda>_. verifySourcemapUploaded ?ds U))"
    by (intro keeps_bindE verify_db [OF st] sourcemap_db [OF st])
  ultimately have w4: "wdb w4 = wdb w1"
    using h U'(2) by (force simp: keeps_def db_is_def)
  have id: "UpdateId U = FormatInt i" "int64_range i"
    using U' row ParseInt_range [OF i] by (simp_all add: row_at_def)
  obtain t where t: "row_at (wdb w5) (uuid ?app) ?b ?v i (u\<lparr>u_uuid := scan x, u_checked := Some t\<rparr>)"
      "world_view w5 (ComputeLastUpdateCacheKey (world_runtime rt) ?app ?b ?v (u_platform u)) = None"
  proof -
    have "row_at (wdb w4) (uuid (AppId U)) (Branch U) (RuntimeVersion U) i u" "schema_ok (wdb w4)"
      using ok row w4 U'(1) by simp_all
    from mark_op_stamps [OF st this(2,1) id w5] show thesis
      using that U'(1) by auto
  qed
  have "wdb w6 = wdb w5 \<and> world_view w6 = world_view w5"
    using w6 st by (auto simp: scheduleSourcemapIndex_def storage_apart_def detached_def bindE_run attempt_run split: option.splits) 
  moreover have "wdb w' = wdb w6 \<and> world_view w' = world_view w6"
    using w' by (auto simp: recordDeliveryEvent_def record_world fun_eq_iff)
  ultimately show ?thesis
    using t i by (intro exI [of _ i] exI [of _ "u\<lparr>u_uuid := scan x, u_checked := Some t\<rparr>"]) simp
qed

section \<open>Properties\<close>

text \<open>C11. An upload that was only requested is invisible.  Whatever a request for an upload does, with or without success,
  every device is answered as before: the latest update of every target, the mapping of every channel and the cached
  answers are unchanged.  A successful request leaves one row for its target and platform that is not checked, with
  the requested rollout share and the manifest data of the file list, under the id it answers.\<close>

theorem upload_request_invisible:
  assumes "schema_ok (wdb w)" and "storage_apart bk ds"
    and "RequestUploadURLs (world_runtime rt) bk (pg_deployment uuid scan ds) params w = (r, w')"
  shows "envelope_answer uuid (wdb w') app b v p = envelope_answer uuid (wdb w) app b v p
    \<and> mapping_answer uuid (wdb w') app ch = mapping_answer uuid (wdb w) app ch
    \<and> world_view w' k = world_view w k
    \<and> (case r of Inl e \<Rightarrow> True | Inr resp \<Rightarrow> \<exists>mapping. assetMapping (world_runtime rt) (RqFiles params) = Inr mapping
        \<and> pending uuid params (RespUpdateID resp) (Some mapping) (wdb w'))"
proof -
  have "undisturbed (wdb w) (world_view w) w"
    using assms(1) by (simp add: undisturbed_def quiet_def same_answers_refl)
  from keepsD [OF undisturbed_request [OF assms(2), where rt = rt and uuid = uuid and scan = scan and params = params] this] have "same_answers (wdb w) (wdb w')" "world_view w' = world_view w"
    unfolding assms(3) by (simp_all add: undisturbed_def quiet_def)
  then show ?thesis
    using same_answers_served request_pending [OF assms(2)] assms(3) by (cases r) auto
qed

text \<open>C3. A processed upload is live at once.  When processing an upload succeeds, the update it names is checked on its
  branch and runtime version and carries the uuid that was answered; the process holds no stale answer for its
  target, and the very next device that asks is answered from the database, with this update or a newer one.\<close>

theorem publish_goes_live:
  assumes "schema_ok (wdb w)" and "storage_apart bk ds"
    and "ProcessUploadedUpdate (world_runtime rt) pk bk (pg_deployment uuid scan ds) ctx params w = (Inr x, w')"
  shows "\<exists>i u e j. ParseInt (PuUpdateID params) = Some i
    \<and> row_at (wdb w') (uuid (PuAppID params)) (PuBranchName params) (PuRuntimeVersion params) i u \<and> u_checked u \<noteq> None \<and> u_uuid u = scan x
    \<and> fst (getLatestUpdateEnvelope (world_runtime rt) (pg_update_repository uuid scan) (PuAppID params) (PuBranchName params)
        (PuRuntimeVersion params) (u_platform u) w') = Inr (Some e)
    \<and> envelope_answer uuid (wdb w') (PuAppID params) (PuBranchName params) (PuRuntimeVersion params) (u_platform u) = Some e
    \<and> UpdateId (Latest e) = FormatInt j \<and> i \<le> j"
proof -
  obtain i u where u: "ParseInt (PuUpdateID params) = Some i"
      "row_at (wdb w') (uuid (PuAppID params)) (PuBranchName params) (PuRuntimeVersion params) i u" "u_checked u \<noteq> None" "u_uuid u = scan x"
      "world_view w' (ComputeLastUpdateCacheKey (world_runtime rt) (PuAppID params) (PuBranchName params) (PuRuntimeVersion params) (u_platform u)) = None"
    using process_stamps [OF assms(2,1,3)] by blast
  show ?thesis
    using u checked_row_served [where uuid = uuid, OF u(2,3)] envelope_miss [OF u(5), of uuid scan] by metis
qed

section \<open>Concrete runs\<close>

text \<open>Object stores that hold every file.\<close>

definition full_bucket :: "world Bucket" where
  "full_bucket = \<lparr>GetFile = (\<lambda>u p. ret (Some \<lparr>Reader = Inr ''{}'', FileCreatedAt = 0\<rparr>)), HasBlob = (\<lambda>a h. ret True),
     UpdatePresignPut = (\<lambda>a b v i f. ret \<lparr>UrURL = f, UrHeaders = []\<rparr>), BlobPresignPut = (\<lambda>a h b. ret \<lparr>UrURL = h, UrHeaders = []\<rparr>)\<rparr>"

definition full_stores :: "world DeploymentService" where
  "full_stores = \<lparr>dsBranchService = pg_branches Some Some, dsUpdateRepo = pg_update_repository Some Some, dsBsDiffService = False,
     dsBlobStore = \<lparr>BlobExists = (\<lambda>a h. ret False), BlobGet = (\<lambda>a h. ret None)\<rparr>,
     dsUpdateStore = \<lparr>UpdateStoreDelete = (\<lambda>a b v i. ret ()), CreateFrom = (\<lambda>u i. ret u)\<rparr>,
     dsSourcemapStore = None, dsSourcemapIndexer = None, dsOnAuditEvent = None, dsSpawn = world_spawn, dsNow = wnow\<rparr>"

lemma full_apart: "storage_apart full_bucket full_stores"
  by (simp add: storage_apart_def detached_def full_bucket_def full_stores_def)

definition demo_request :: RequestUploadURLParams where
  "demo_request = \<lparr>RqAppID = ''app'', RqBranchName = ''main'', RqPlatform = ''ios'', RqCommitHash = ''c'', RqRuntimeVersion = ''1.0'',
     RqFiles = [\<lparr>FiPath = ''b.js'', FiHash = ''h'', FiKey = ''k'', FiExt = [], FiRole = ''launch''\<rparr>], RqSourcemap = None, RqMessage = [],
     RqRolloutPercentage = None, RqPublishGroupID = None\<rparr>"

definition demo_publishing :: "update_row list \<Rightarrow> world" where
  "demo_publishing us = demo_world\<lparr>wdb := demo_db us 4 6\<rparr>"

lemma demo_upsert: "schema_ok (demo_db us 4 6) \<Longrightarrow> pg_UpsertBranchAndRuntimeVersion Some ''app'' ''main'' ''1.0'' (demo_db us 4 6) = (Inr (), demo_db us 4 6)"
  by (simp add: pg_UpsertBranchAndRuntimeVersion_def ensure_def pg_InsertBranch_def pg_CreateRuntimeVersion_def bindE_run attempt_run mapErr_run
      ToPgUUID_def insertBranch_def insertRuntimeVersion_def run_write_run schema_ok_def checks_ok_def uniques_ok_def schema_error_def demo_db_def)

lemma demo_names: "ValidateBranchName ''main'' = None"
  by code_simp

lemma demo_base_ok: "schema_ok (demo_db [demo_update 11 3 (Some 4)] 4 6)" "schema_ok (demo_db [demo_update 11 3 (Some 4), demo_update 31 5 None] 4 6)"
  by (simp_all add: statement_eval demo_defs)

lemma demo_request_fields [simp]:
  "RqAppID demo_request = ''app''" "RqBranchName demo_request = ''main''" "RqPlatform demo_request = ''ios''" "RqRuntimeVersion demo_request = ''1.0''"
  "RqSourcemap demo_request = None" "RqRolloutPercentage demo_request = None" "RqPublishGroupID demo_request = None" "RqMessage demo_request = []"
  "RqCommitHash demo_request = ''c''"
  "RqFiles demo_request = [\<lparr>FiPath = ''b.js'', FiHash = ''h'', FiKey = ''k'', FiExt = [], FiRole = ''launch''\<rparr>]"
  by (simp_all add: demo_request_def)

lemma demo_request_runs:
  "\<exists>resp w'. RequestUploadURLs (world_runtime demo_runtime) full_bucket (pg_deployment Some Some full_stores) demo_request
      (demo_publishing [demo_update 11 3 (Some 4)]) = (Inr resp, w')"
proof -
  define d where "d = demo_db [demo_update 11 3 (Some 4)] 4 6"
  define w where "w = demo_publishing [demo_update 11 3 (Some 4)]"
  let ?ds = "pg_deployment Some Some full_stores"
  have w: "wdb w = d" "wnow w = 0" "w\<lparr>wdb := d\<rparr> = w"
    by (simp_all add: w_def d_def demo_publishing_def demo_world_def)
  have s1: "UpsertBranchAndRuntimeVersionOp (pg_branches Some Some) ''app'' ''main'' ''1.0'' w = (Inr (), w)"
    using demo_upsert [OF demo_base_ok(1)]
    by (simp add: UpsertBranchAndRuntimeVersionOp_def require_run demo_names bindE_run pg_branches_def pg_branch_repository_def on_db_run w flip: d_def)
  have s2: "HasActiveRolloutUpdate (pg_update_repository Some Some) ''app'' ''main'' ''1.0'' w = (Inr False, w)"
    by (simp add: pg_update_repository_def on_db_run w pg_HasActiveRolloutUpdate_def query_run hasActiveRolloutUpdate_def active_def)
      (simp add: d_def demo_defs)
  obtain m where s3: "assetMapping (world_runtime demo_runtime) (RqFiles demo_request) = Inr m"
    by (simp add: assetMapping_def FileRoleLaunch_def)
  have rows: "newest (filter (serving d (Some ''app'') ''main'' ''1.0'' ''ios'') (updates d)) = Some (demo_update 11 3 (Some 4))"
      "update_on_branch d (Some ''app'') ''main'' 11 = Some (demo_update 11 3 (Some 4))" "branch_named d (Some ''app'') ''main'' = Some \<lparr>b_id = 1, b_app = ''app'', b_name = ''main'', b_created = 1, b_protected = False\<rparr>"
      "runtime_named d (Some ''app'') ''1.0'' = Some \<lparr>v_id = 2, v_app = ''app'', v_version = ''1.0'', v_created = 2, v_updated = 4\<rparr>"
    by (simp_all add: d_def demo_defs serving_def on_branch_def on_runtime_def update_on_branch_def branch_named_def runtime_named_def)
  have s4: "isIdenticalToLatest ?ds demo_request m w = (Inr False, w)"
    by (simp add: isIdenticalToLatest_def pg_update_repository_def on_db_run w pg_GetLatestUpdate_def getLatestUpdate_def bindE_run attempt_run
        read_one_optional ToPgUUID_def rows pg_GetUpdateAssetMapping_def getUpdateAssetMapping_def parse_id_FormatInt int64_range_def AreUpdatesIdentical_def
        as_update_def demo_update_def)
  have s5: "generate_id ?ds ''ios'' w = (Inr 1, w)"
    by (simp add: generate_id_def w GenerateUpdateTimestamp_def PlatformIOS_def wrap64_def)
  have s6: "missing_files ?ds demo_request w = (Inr [\<lparr>UfName = ''b.js'', UfHash = ''h'', InUpdateFolder = False\<rparr>], w)"
    by (simp add: missing_files_def dedupExistingUploadAssets_def uploadFiles_def full_stores_def bindE_run attempt_run FileRoleConfig_def)
  obtain reqs where s7: "RequestUploadUrlsForFileUpdates full_bucket ''app'' ''main'' ''1.0'' (ConvertUpdateTimestampToString 1)
      [\<lparr>UfName = ''b.js'', UfHash = ''h'', InUpdateFolder = False\<rparr>] w = (Inr reqs, w)"
    by (simp add: RequestUploadUrlsForFileUpdates_def full_bucket_def bindE_run)
  obtain nu w2 where s8: "create_row ?ds demo_request 1 w = (Inr (Some nu), w2)" and nu: "UpdateId nu = FormatInt 1" "AppId nu = ''app''" "Branch nu = ''main''"
      and w2: "wdb w2 = add_update (demo_update 1 6 None\<lparr>u_commit := ''c''\<rparr>) d"
    by (simp add: create_row_def pg_update_repository_def on_db_run w pg_CreateUpdate_def bindE_run wrapped_run insertUpdate_def rows ToPgUUID_def
        run_write_run Let_def) (simp add: d_def statement_eval demo_defs as_update_def ToPgUUIDPtr_def opt_text_def)
  have s9: "\<exists>resp w'. finish_request ?ds demo_request m reqs nu w2 = (Inr resp, w')"
    by (simp add: finish_request_def pg_update_repository_def on_db_run bindE_run pg_StoreUpdateAssetMapping_def nu parse_id_FormatInt int64_range_def
        wrapped_run setUpdateAssetMapping_def run_write_run no_rows_error_def w2 set_updates_def ToPgUUID_def)
     (simp add: d_def statement_eval demo_defs)
  show ?thesis
    using s9 by (simp add: RequestUploadURLs_def bindE_run s1 s2 s3 [simplified] s4 s5 s6 s7 s8 of_result_run flip: w_def)
qed

theorem upload_request_invisible_witness:
  "\<exists>resp w'. RequestUploadURLs (world_runtime demo_runtime) full_bucket (pg_deployment Some Some full_stores) demo_request
      (demo_publishing [demo_update 11 3 (Some 4)]) = (Inr resp, w')
    \<and> envelope_answer Some (wdb w') ''app'' ''main'' ''1.0'' ''ios'' = envelope_answer Some (demo_db [demo_update 11 3 (Some 4)] 4 6) ''app'' ''main'' ''1.0'' ''ios''
    \<and> (\<exists>mapping. pending Some demo_request (RespUpdateID resp) (Some mapping) (wdb w'))"
proof -
  let ?w = "demo_publishing [demo_update 11 3 (Some 4)]"
  have ok: "schema_ok (wdb ?w)"
    using demo_base_ok(1) by (simp add: demo_publishing_def)
  obtain resp w' where run: "RequestUploadURLs (world_runtime demo_runtime) full_bucket (pg_deployment Some Some full_stores) demo_request ?w = (Inr resp, w')"
    using demo_request_runs by blast
  show ?thesis
    using upload_request_invisible [OF ok full_apart run, of "''app''" "''main''" "''1.0''" "''ios''" "[]" "[]"] run
    by (auto simp: demo_publishing_def)
qed

definition demo_process :: ProcessUpdateParams where
  "demo_process = \<lparr>PuAppID = ''app'', PuBranchName = ''main'', PuPlatform = ''ios'', PuRuntimeVersion = ''1.0'', PuUpdateID = ''31''\<rparr>"

lemma demo_metadata: "\<exists>m. GetMetadata (world_runtime demo_runtime) demo_pk full_bucket U w
    = (Inr m, snd (cacheGet world_cache (ComputeMetadataCacheKey (world_runtime demo_runtime) (AppId U) (Branch U) (RuntimeVersion U) (UpdateId U)) w))
  \<and> Bundle (IOS (MoFileMetadata (MetadataJSON m))) \<noteq> []"
  by (simp add: GetMetadata_def Let_def bindE_run cached_json_run put_json_run of_result_run shape_metadata_def CreateHash_def demo_pk_def full_bucket_def)

lemma demo_verified: "\<exists>w'. VerifyUploadedUpdate (world_runtime demo_runtime) demo_pk full_bucket U None w = (Inr (), w') \<and> wdb w' = wdb w"
proof -
  obtain m w1 where m: "GetMetadata (world_runtime demo_runtime) demo_pk full_bucket U w = (Inr m, w1)" "wdb w1 = wdb w" "Bundle (IOS (MoFileMetadata (MetadataJSON m))) \<noteq> []"
    using demo_metadata [of U w] by (auto simp: world_cache_def split: prod.splits)
  have "forEach (verify_file full_bucket U) fs w1 = (Inr (), w1)" for fs
    by (induction fs) (simp_all add: bindE_run verify_file_def mapErr_run full_bucket_def)
  then show ?thesis
    using m by (simp add: VerifyUploadedUpdate_def bindE_run GetExpoConfig_def mapErr_run verifyFolderUploaded_def) (simp add: full_bucket_def demo_pk_def)
qed

lemma demo_process_runs:
  "\<exists>x w'. ProcessUploadedUpdate (world_runtime demo_runtime) demo_pk full_bucket (pg_deployment Some Some full_stores) nobody demo_process
      (demo_publishing [demo_update 11 3 (Some 4), demo_update 31 5 None]) = (Inr x, w')"
proof -
  define d where "d = demo_db [demo_update 11 3 (Some 4), demo_update 31 5 None] 4 6"
  define w where "w = demo_publishing [demo_update 11 3 (Some 4), demo_update 31 5 None]"
  let ?ds = "pg_deployment Some Some full_stores" and ?repo = "pg_update_repository Some Some" and ?rt = "world_runtime demo_runtime"
  define U where "U = as_update ''app'' ''main'' ''1.0'' (demo_update 31 5 None)"
  have w: "wdb w = d" "w\<lparr>wdb := d\<rparr> = w"
    by (simp_all add: w_def d_def demo_publishing_def demo_world_def)
  have ok: "schema_ok d" and row: "row_at d (Some ''app'') ''main'' ''1.0'' 31 (demo_update 31 5 None)"
    using demo_base_ok(2) by (simp_all add: d_def) (simp add: row_at_def on_branch_def on_runtime_def demo_defs)
  have U: "AppId U = ''app''" "Branch U = ''main''" "RuntimeVersion U = ''1.0''" "UpdateId U = FormatInt 31" and i: "ParseInt ''31'' = Some 31" "int64_range 31"
    by (simp_all add: U_def demo_update_def int64_range_def) code_simp
  have s1: "UpsertBranchAndRuntimeVersionOp (pg_branches Some Some) ''app'' ''main'' ''1.0'' w = (Inr (), w)"
    using demo_upsert [OF demo_base_ok(2)]
    by (simp add: UpsertBranchAndRuntimeVersionOp_def require_run demo_names bindE_run pg_branches_def pg_branch_repository_def on_db_run w flip: d_def)
  have s2: "GetUpdate ?repo ''app'' ''main'' ''1.0'' ''31'' w = (Inr (Some U), w)"
    using row_at_found(1) [OF ok row]
    by (simp add: pg_update_repository_def on_db_run w pg_GetUpdate_def parse_id_def i bindE_run optional_run ToPgUUID_def U_def)
  have s3: "GetUpdateAssetMapping ?repo U w = (Inr None, w)"
    using row_at_found(2) [OF ok row]
    by (simp add: pg_update_repository_def on_db_run w pg_GetUpdateAssetMapping_def getUpdateAssetMapping_def bindE_run read_one_optional U
        parse_id_FormatInt i ToPgUUID_def demo_update_def)
  obtain w1 where s4: "VerifyUploadedUpdate ?rt demo_pk full_bucket U None w = (Inr (), w1)" "wdb w1 = d"
    using demo_verified [of U w] w by blast
  have s5: "verifySourcemapUploaded ?ds U w1 = (Inr None, w1)"
    using row_at_found(2) [OF ok row] s4(2)
    by (auto simp: verifySourcemapUploaded_def pg_update_repository_def on_db_run pg_GetUpdateSourcemapHash_def getUpdateSourcemapHash_def bindE_run mapErr_run
        read_one_optional U parse_id_FormatInt i ToPgUUID_def demo_update_def)
  have s6: "\<exists>x w'. MarkUpdateAsCheckedOp ?rt demo_pk full_bucket ?ds U NormalUpdate w1 = (Inr x, w')"
  proof -
    obtain x w2 where x: "getUpdateUUIDFromMetadata ?rt demo_pk full_bucket U w1 = (Inr x, w2)" "wdb w2 = d"
      using demo_metadata [of U w1] s4(2) by (auto simp: getUpdateUUIDFromMetadata_def bindE_run attempt_run world_cache_def split: prod.splits)
    let ?e = "demo_db [demo_update 11 3 (Some 4), (demo_update 31 5 None)\<lparr>u_uuid := Some x\<rparr>] 4 6"
    have "pg_StoreUpdateUUIDInMetadata Some Some U x d = (Inr (), ?e)"
      by (simp add: pg_StoreUpdateUUIDInMetadata_def bindE_run wrapped_run storeUpdateUUID_def run_write_run set_updates_def no_rows_error_def U
          ParseInt_value_def ParseInt_FormatInt i ToPgUUID_def) (simp add: d_def statement_eval demo_defs)
    moreover have "\<exists>d'. pg_MarkUpdateAsChecked Some U ?e = (Inr (), d')"
      by (simp add: pg_MarkUpdateAsChecked_def U parse_id_FormatInt i bindE_run wrapped_run ToPgUUID_def statement_eval demo_defs del: set_filter)
    moreover have "RetrieveUpdateStoredMetadata ?repo U w1 = (Inr (Some \<lparr>MdPlatform = ''ios'', MdCommitHash = ''abc'', MdUpdateUUID = [], MdMessage = []\<rparr>), w1)"
      using row_at_found(2) [OF ok row] s4(2) by (auto simp: pg_update_repository_def on_db_run pg_RetrieveUpdateStoredMetadata_def getUpdateMetadata_def
          bindE_run wrapped_run read_one_def ParseInt_value_def ParseInt_FormatInt i U ToPgUUID_def demo_update_def)
    ultimately show ?thesis
      using x by (auto simp: MarkUpdateAsCheckedOp_def bindE_run store_uuid_def mapErr_run pg_update_repository_def on_db_run forget_all_world)
  qed
  show ?thesis
    using s6 by (auto simp: ProcessUploadedUpdate_def bindE_run demo_process_def s1 s2 s3 s4 s5 attempt_run scheduleSourcemapIndex_def recordDeliveryEvent_def
        record_world simp flip: w_def)
qed

theorem publish_goes_live_witness:
  "\<exists>x w' u e. ProcessUploadedUpdate (world_runtime demo_runtime) demo_pk full_bucket (pg_deployment Some Some full_stores) nobody demo_process
      (demo_publishing [demo_update 11 3 (Some 4), demo_update 31 5 None]) = (Inr x, w')
    \<and> row_at (wdb w') (Some ''app'') ''main'' ''1.0'' 31 u \<and> u_checked u \<noteq> None
    \<and> fst (getLatestUpdateEnvelope (world_runtime demo_runtime) (pg_update_repository Some Some) ''app'' ''main'' ''1.0'' (u_platform u) w') = Inr (Some e)"
proof -
  let ?w = "demo_publishing [demo_update 11 3 (Some 4), demo_update 31 5 None]"
  have ok: "schema_ok (wdb ?w)"
    using demo_base_ok(2) by (simp add: demo_publishing_def)
  obtain x w' where run: "ProcessUploadedUpdate (world_runtime demo_runtime) demo_pk full_bucket (pg_deployment Some Some full_stores) nobody demo_process ?w
      = (Inr x, w')"
    using demo_process_runs by blast
  have "ParseInt ''31'' = Some 31"
    by code_simp
  then show ?thesis
    using publish_goes_live [OF ok full_apart run] run by (auto simp: demo_process_def)
qed

end
