(* ===== verification/Staging.thy ===== *)
theory Staging
  imports Publishing
begin

text \<open>
  The rollout lifecycle on a server process: what starting, progressing and ending a rollout does to the answers
  devices get, and that an active rollout keeps every other publish off its target.
\<close>

section \<open>Channel rollouts\<close>

definition mapping_of :: "db \<Rightarrow> channel_row \<Rightarrow> branch_row \<Rightarrow> ChannelResolution" where
  "mapping_of d c b = \<lparr>MappingId = FormatInt (c_id c), BranchName = b_name b,
     Rollout = Option.bind (rollout_of d (c_id c)) (\<lambda>r. map_option (\<lambda>rb. \<lparr>RolloutID = r_id r, RolloutBranch = b_name rb, RolloutShare = r_percentage r\<rparr>)
       (branch_by_id d (r_branch r)))\<rparr>"

lemma mapping_answer_of:
  assumes "channel_named d (uuid app) ch = Some c" and "c_branch c = Some (b_id b)" and "branch_by_id d (b_id b) = Some b" and "b_app b = c_app c"
  shows "mapping_answer uuid d app ch = Some (mapping_of d c b)"
  using assms by (simp add: mapping_answer_def pg_GetChannelBranchMapping_def getChannelBranchMapping_def bindE_run read_one_optional found_def ToPgUUID_def
      mapping_of_def option.map_comp o_def split: option.split)

text \<open>A channel with a rollout: it has a branch, and the rollout another one, both of its app.\<close>

lemma rollout_setting:
  assumes "schema_ok d" and "mapping_inv d" and "channel_named d app ch = Some c" and "rollout_of d (c_id c) = Some r"
  obtains b rb where "c_branch c = Some (b_id b)" "branch_by_id d (b_id b) = Some b" "b_app b = c_app c"
    "branch_by_id d (r_branch r) = Some rb" "b_app rb = c_app c" "b_id rb = r_branch r" "rb \<in> set (branches d)" "b_id rb \<noteq> b_id b"
proof -
  have c: "c \<in> set (channels d)" and r: "r \<in> set (rollouts d)" "r_channel r = c_id c"
    using channel_named_Some [OF assms(3)] rollout_of_Some [OF assms(4)] by auto
  obtain rb where rb: "rb \<in> set (branches d)" "b_id rb = r_branch r"
    using schema_rollout_refs [OF assms(1) r(1)] by force
  have inv: "c_branch c \<noteq> None" "c_branch c \<noteq> Some (r_branch r)" "b_app rb = c_app c"
    using assms(2) c r rb unfolding mapping_inv_def by metis+
  then obtain i where i: "c_branch c = Some i"
    by blast
  then obtain b where b: "b \<in> set (branches d)" "i = b_id b"
    using schema_channel_branch [OF assms(1) c i] by auto
  have "b_app b = c_app c"
    using assms(2) c b i unfolding mapping_inv_def by blast
  then show thesis
    using that [of b rb] i b rb inv branch_by_id_eq [OF assms(1)] by fastforce
qed

lemma start_mapping:
  assumes ok: "schema_ok d" and inv: "mapping_inv d" and run: "insertChannelRollout i p (uuid app) ch branch d = (Inr n, d')" and n: "n \<noteq> 0"
  shows "\<exists>m. mapping_answer uuid d app ch = Some m \<and> Rollout m = None
    \<and> mapping_answer uuid d' app ch = Some (m\<lparr>Rollout := Some \<lparr>RolloutID = i, RolloutBranch = branch, RolloutShare = p\<rparr>\<rparr>)"
proof -
  let ?new = "\<lambda>c rb. \<lparr>r_id = i, r_channel = c_id c, r_branch = b_id rb, r_percentage = p, r_created = db_now d, r_updated = db_now d\<rparr>"
  define rows where "rows = [?new c rb. c \<leftarrow> channels d, Some (c_app c) = uuid app \<and> c_name c = ch \<and> c_branch c \<noteq> None,
      rb \<leftarrow> branches d, b_app rb = c_app c \<and> b_name rb = branch \<and> Some (b_id rb) \<noteq> c_branch c]"
  have d': "d' = d\<lparr>rollouts := rollouts d @ rows\<rparr>" "schema_ok d'" "n = int (length rows)"
    using run_write_Inr [OF run [unfolded insertChannelRollout_def]] by (auto simp: rows_def Let_def)
  have "rows \<noteq> []"
    using n d'(3) by simp
  then obtain x where x: "x \<in> set rows"
    by (cases rows) auto
  then obtain c rb where c: "c \<in> set (channels d)" "Some (c_app c) = uuid app" "c_name c = ch" "c_branch c \<noteq> None"
      and rb: "rb \<in> set (branches d)" "b_app rb = c_app c" "b_name rb = branch"
      and new: "x = ?new c rb"
    unfolding rows_def by auto
  note mem = x [unfolded new]
  have named: "channel_named d (uuid app) ch = Some c"
    using channel_named_eq [OF ok c(1)] c(2,3) by simp
  obtain b where b: "b \<in> set (branches d)" "c_branch c = Some (b_id b)"
    using c(4) schema_channel_branch [OF ok c(1)] by auto
  then have app: "b_app b = c_app c"
    using inv c(1) unfolding mapping_inv_def by blast
  have fresh: "rollout_of d (c_id c) = None"
  proof (rule ccontr)
    assume "rollout_of d (c_id c) \<noteq> None"
    then obtain r where "r \<in> set (rollouts d)" "r_channel r = c_id c"
      using rollout_of_Some by blast
    moreover have "distinct (map r_channel (rollouts d @ rows))"
      using d'(1,2) by (simp add: schema_ok_def uniques_ok_def)
    ultimately show False
      using mem by (force simp: image_iff)
  qed
  have "rollout_of d' (c_id c) = Some (?new c rb)"
    using rollout_of_eq [OF d'(2), of "?new c rb"] mem d'(1) by simp
  then have "mapping_answer uuid d' app ch = Some ((mapping_of d c b)\<lparr>Rollout := Some \<lparr>RolloutID = i, RolloutBranch = branch, RolloutShare = p\<rparr>\<rparr>)"
    using mapping_answer_of [of d' uuid app ch c b] named b app branch_by_id_eq [OF d'(2)] rb d'(1) by (simp add: channel_named_def mapping_of_def)
  moreover have "mapping_answer uuid d app ch = Some (mapping_of d c b)"
    using mapping_answer_of [of d uuid app ch c b] named b app branch_by_id_eq [OF ok] by simp
  moreover have "Rollout (mapping_of d c b) = None"
    by (simp add: mapping_of_def fresh)
  ultimately show ?thesis
    by blast
qed

lemma ended_mapping:
  assumes ok: "schema_ok d" and inv: "mapping_inv d" and c: "channel_named d (uuid app) ch = Some c" and r: "rollout_of d (c_id c) = Some r"
  shows "\<exists>m ro. mapping_answer uuid d app ch = Some m \<and> Rollout m = Some ro
    \<and> mapping_answer uuid (d\<lparr>rollouts := filter (\<lambda>r'. r_channel r' \<noteq> c_id c) (rollouts d)\<rparr>) app ch = Some (m\<lparr>Rollout := None\<rparr>)
    \<and> mapping_answer uuid (promoted d c r) app ch = Some (m\<lparr>BranchName := RolloutBranch ro, Rollout := None\<rparr>)"
proof -
  obtain b rb where b: "c_branch c = Some (b_id b)" "branch_by_id d (b_id b) = Some b" "b_app b = c_app c"
      and rb: "branch_by_id d (r_branch r) = Some rb" "b_app rb = c_app c" "b_id rb = r_branch r"
    by (rule rollout_setting [OF ok inv c r]) blast
  let ?g = "\<lambda>c'. if c' = c then c\<lparr>c_branch := Some (r_branch r)\<rparr> else c'"
  have "(\<lambda>x. Some (c_app (?g x)) = uuid app \<and> c_name (?g x) = ch) = (\<lambda>x. Some (c_app x) = uuid app \<and> c_name x = ch)"
    by auto
  then have c': "channel_named (promoted d c r) (uuid app) ch = Some (c\<lparr>c_branch := Some (r_branch r)\<rparr>)"
    using c by (simp add: channel_named_def promoted_def find_map)
  have none: "rollout_of (d\<lparr>rollouts := filter (\<lambda>r'. r_channel r' \<noteq> c_id c) (rollouts d)\<rparr>) (c_id c) = None" "rollout_of (promoted d c r) (c_id c) = None"
    by (simp_all add: rollout_of_def promoted_def find_None_iff)
  have "mapping_answer uuid (d\<lparr>rollouts := filter (\<lambda>r'. r_channel r' \<noteq> c_id c) (rollouts d)\<rparr>) app ch = Some ((mapping_of d c b)\<lparr>Rollout := None\<rparr>)"
    using mapping_answer_of [of "d\<lparr>rollouts := filter (\<lambda>r'. r_channel r' \<noteq> c_id c) (rollouts d)\<rparr>" uuid app ch c b] c b none(1)
    by (simp add: channel_named_def branch_by_id_def mapping_of_def)
  moreover have "mapping_answer uuid (promoted d c r) app ch = Some ((mapping_of d c b)\<lparr>BranchName := b_name rb, Rollout := None\<rparr>)"
    using mapping_answer_of [of "promoted d c r" uuid app ch "c\<lparr>c_branch := Some (r_branch r)\<rparr>" rb] c' rb none(2)
    by (simp add: branch_by_id_def mapping_of_def) (simp add: promoted_def)
  ultimately show ?thesis
    using mapping_answer_of [of d uuid app ch c b, OF c b]
    by (intro exI [of _ "mapping_of d c b"] exI [of _ "\<lparr>RolloutID = r_id r, RolloutBranch = b_name rb, RolloutShare = r_percentage r\<rparr>"])
      (simp add: mapping_of_def r rb)
qed

lemma delete_rollout_run:
  assumes "deleteChannelRollout app ch d = (Inr n, d')"
  shows "n = 0 \<Longrightarrow> d' = d" and "n \<noteq> 0 \<Longrightarrow> \<exists>c r. channel_named d app ch = Some c \<and> rollout_of d (c_id c) = Some r
    \<and> d' = d\<lparr>rollouts := filter (\<lambda>r'. r_channel r' \<noteq> c_id c) (rollouts d)\<rparr>"
proof -
  let ?hit = "\<lambda>r. Some (r_channel r) = map_option c_id (channel_named d app ch)"
  have d': "d' = d\<lparr>rollouts := filter (\<lambda>r. \<not> ?hit r) (rollouts d)\<rparr>" "n = int (length (filter ?hit (rollouts d)))"
    using run_write_Inr [OF assms [unfolded deleteChannelRollout_def]] by (auto simp: Let_def)
  show "n = 0 \<Longrightarrow> d' = d"
    using d' by (simp add: filter_empty_conv filter_id_conv)
  assume "n \<noteq> 0"
  then have "filter ?hit (rollouts d) \<noteq> []"
    using d'(2) by auto
  then obtain r where r: "r \<in> set (rollouts d)" "?hit r"
    by (auto simp: filter_empty_conv)
  then obtain c where c: "channel_named d app ch = Some c" "r_channel r = c_id c"
    by (cases "channel_named d app ch") auto
  then have "rollout_of d (c_id c) \<noteq> None"
    using r(1) by (auto simp: rollout_of_def find_None_iff)
  then show "\<exists>c r. channel_named d app ch = Some c \<and> rollout_of d (c_id c) = Some r
    \<and> d' = d\<lparr>rollouts := filter (\<lambda>r'. r_channel r' \<noteq> c_id c) (rollouts d)\<rparr>"
    using c d'(1) by auto
qed

lemma promote_outcome:
  assumes "schema_ok d" and "promoteChannelRollout app ch d = (Inr n, d')"
  shows "n = 0 \<Longrightarrow> d' = d" and "n \<noteq> 0 \<Longrightarrow> \<exists>c r. channel_named d app ch = Some c \<and> rollout_of d (c_id c) = Some r \<and> d' = promoted d c r"
proof -
  consider (none) "Option.bind (channel_named d app ch) (\<lambda>c. rollout_of d (c_id c)) = None" | (some) c r where "channel_named d app ch = Some c" "rollout_of d (c_id c) = Some r"
    by (cases "Option.bind (channel_named d app ch) (\<lambda>c. rollout_of d (c_id c))") (auto simp: bind_eq_Some_conv)
  then have "(n = 0 \<longrightarrow> d' = d) \<and> (n \<noteq> 0 \<longrightarrow> (\<exists>c r. channel_named d app ch = Some c \<and> rollout_of d (c_id c) = Some r \<and> d' = promoted d c r))"
  proof cases
    case none
    then show ?thesis
      using promote_none [OF assms(1) none] assms(2) by simp
  next
    case (some c r)
    then show ?thesis
      using promote_run [OF assms(1) some] assms(2) by auto
  qed
  then show "n = 0 \<Longrightarrow> d' = d" "n \<noteq> 0 \<Longrightarrow> \<exists>c r. channel_named d app ch = Some c \<and> rollout_of d (c_id c) = Some r \<and> d' = promoted d c r"
    by blast+
qed

text \<open>What the two operations do to the database.\<close>

lemma rollout_fields [simp]:
  "rsRolloutRepo (pg_rollouts uuid scan ds) = Some (pg_rollout_repository uuid scan)" "rsChannelRepo (pg_rollouts uuid scan ds) = pg_channel_repository uuid"
  "rsUpdateRepo (pg_rollouts uuid scan ds) = pg_update_repository uuid scan" "rsDeploymentService (pg_rollouts uuid scan ds) = pg_deployment uuid scan ds"
  "rsOnAuditEvent (pg_rollouts uuid scan ds) = Some world_record"
  by (simp_all add: pg_rollouts_def)

lemma int32_percent: "1 \<le> p \<Longrightarrow> p \<le> 100 \<Longrightarrow> int32 p = p"
  by (simp add: int32_def)

lemma failed_write: "run_write f d = (Inl e, d') \<Longrightarrow> d' = d"
  by (drule run_write_Inl) simp

lemma pg_create_rollout:
  assumes "pg_CreateChannelRollout uuid scan rid app ch b p d = (r, d')"
  shows "(\<exists>e. r = Inl e) \<and> d' = d \<or> (\<exists>i n. scan rid = Some i \<and> r = Inr n \<and> insertChannelRollout i (int32 p) (uuid app) ch b d = (Inr n, d'))"
proof (cases "scan rid")
  case None
  then show ?thesis
    using assms by (auto simp: pg_CreateChannelRollout_def)
next
  case (Some i)
  obtain r' where "insertChannelRollout i (int32 p) (uuid app) ch b d = (r', d')"
    using assms Some by (cases "insertChannelRollout i (int32 p) (uuid app) ch b d") (auto simp: pg_CreateChannelRollout_def ToPgUUID_def mapErr_run split: sum.splits)
  then show ?thesis
    using assms Some failed_write
    by (cases r') (auto simp: pg_CreateChannelRollout_def ToPgUUID_def mapErr_run insertChannelRollout_def Let_def)
qed

lemma insert_rollout_nothing: "insertChannelRollout i p app ch b d = (Inr 0, d') \<Longrightarrow> d' = d"
  unfolding insertChannelRollout_def by (drule run_write_Inr) (auto simp: Let_def)

lemma start_run:
  assumes "StartChannelRollout (pg_rollouts uuid scan ds) ctx rid app ch b p w = (r, w')"
  shows "(\<exists>e. r = Inl e) \<and> wdb w' = wdb w
    \<or> (\<exists>i n x. 1 \<le> p \<and> p \<le> 99 \<and> scan rid = Some i \<and> r = Inr x \<and> n \<noteq> 0 \<and> insertChannelRollout i p (uuid app) ch b (wdb w) = (Inr n, wdb w'))"
proof -
  have refuse: "\<exists>e. disambiguateStartRefusal (pg_rollouts uuid scan ds) app ch b w = (Inl e, w)" for w
    by (simp add: disambiguateStartRefusal_def pg_channel_repository_def bindE_run mapErr_run on_db_run pg_GetChannels_def wrapped_run
        getChannelsByAppID_def)
  have get: "\<exists>x. on_db (pg_GetChannelRollout uuid app ch) w = (Inr x, w)" for w
    by (auto simp: on_db_run pg_GetChannelRollout_def bindE_run getChannelRollout_def read_one_optional)
  show ?thesis
  proof (cases "Name ''channelName'' ch \<noteq> None \<or> Name ''branchName'' b \<noteq> None \<or> p < 1 \<or> p > 99")
    case True
    then have "\<exists>e. StartChannelRollout (pg_rollouts uuid scan ds) ctx rid app ch b p w = (Inl e, w)"
      by (cases "Name ''channelName'' ch"; cases "Name ''branchName'' b") (auto simp: StartChannelRollout_def with_rollouts_def bindE_run require_run)
    then show ?thesis
      using assms by auto
  next
    case False
    define q where "q = fst (pg_CreateChannelRollout uuid scan rid app ch b p (wdb w))"
    define d where "d = snd (pg_CreateChannelRollout uuid scan rid app ch b p (wdb w))"
    have create: "pg_CreateChannelRollout uuid scan rid app ch b p (wdb w) = (q, d)"
      by (simp add: q_def d_def)
    have step: "StartChannelRollout (pg_rollouts uuid scan ds) ctx rid app ch b p w = (case q of Inl e \<Rightarrow> (Inl e, w\<lparr>wdb := d\<rparr>)
        | Inr n \<Rightarrow> if n = 0 then disambiguateStartRefusal (pg_rollouts uuid scan ds) app ch b (w\<lparr>wdb := d\<rparr>)
          else bindE (recordManagementEvent ctx (Some world_record) (new_event ''channel_rollout.started'' ''channel'' ch app [(''branch'', MetaText b), (''percentage'', MetaInt p)]))
            (\<lambda>_. on_db (pg_GetChannelRollout uuid app ch)) (w\<lparr>wdb := d\<rparr>))"
      using False create by (simp add: StartChannelRollout_def with_rollouts_def bindE_run require_run pg_rollout_repository_def on_db_run
          split: sum.split)
    show ?thesis
    proof (cases q)
      case (Inl e)
      then show ?thesis
        using assms step pg_create_rollout [OF create] by auto
    next
      case (Inr n)
      then obtain i where i: "scan rid = Some i" "insertChannelRollout i p (uuid app) ch b (wdb w) = (Inr n, d)"
        using pg_create_rollout [OF create] False by (auto simp: int32_percent)
      show ?thesis
      proof (cases "n = 0")
        case True
        then have d: "d = wdb w"
          using i(2) insert_rollout_nothing by blast
        have "\<exists>e. StartChannelRollout (pg_rollouts uuid scan ds) ctx rid app ch b p w = (Inl e, w)"
          using step Inr True refuse [of w] by (simp add: d)
        then show ?thesis
          using assms by auto
      next
        case False
        define w1 where "w1 = w\<lparr>wdb := d, waudit := waudit w @ [signed ctx (new_event ''channel_rollout.started'' ''channel'' ch app [(''branch'', MetaText b), (''percentage'', MetaInt p)])]\<rparr>"
        obtain x where "on_db (pg_GetChannelRollout uuid app ch) w1 = (Inr x, w1)"
          using get by blast
        then have "StartChannelRollout (pg_rollouts uuid scan ds) ctx rid app ch b p w = (Inr x, w1)"
          using step Inr False by (simp add: bindE_run record_world w1_def)
        then show ?thesis
          using assms i False \<open>\<not> (Name _ ch \<noteq> None \<or> _)\<close> by (auto simp: w1_def)
      qed
    qed
  qed
qed

lemma promote_fails: "promoteChannelRollout app ch d = (Inl e, d') \<Longrightarrow> d' = d"
  by (auto simp: promoteChannelRollout_def WithTx_def bindE_run split: sum.splits prod.splits)

lemma pg_promote: "pg_PromoteChannelRollout uuid app ch d = (r, d') \<Longrightarrow>
    (\<exists>e. r = Inl e) \<and> d' = d \<or> (\<exists>n. r = Inr n \<and> promoteChannelRollout (uuid app) ch d = (Inr n, d'))"
  by (cases "promoteChannelRollout (uuid app) ch d"; cases "fst (promoteChannelRollout (uuid app) ch d)")
    (auto simp: pg_PromoteChannelRollout_def wrapped_run ToPgUUID_def dest: promote_fails)

lemma pg_delete_rollout: "pg_DeleteChannelRollout uuid app ch d = (r, d') \<Longrightarrow>
    (\<exists>e. r = Inl e) \<and> d' = d \<or> (\<exists>n. r = Inr n \<and> deleteChannelRollout (uuid app) ch d = (Inr n, d'))"
  by (cases "deleteChannelRollout (uuid app) ch d"; cases "fst (deleteChannelRollout (uuid app) ch d)")
    (auto simp: pg_DeleteChannelRollout_def query_run ToPgUUID_def deleteChannelRollout_def dest: failed_write)

lemma end_run:
  assumes ok: "schema_ok (wdb w)" and run: "EndChannelRollout (pg_rollouts uuid scan ds) ctx app ch outcome w = (r, w')"
  shows "(\<exists>e. r = Inl e) \<and> wdb w' = wdb w \<or> r = Inr () \<and> (\<exists>c ro. channel_named (wdb w) (uuid app) ch = Some c \<and> rollout_of (wdb w) (c_id c) = Some ro
    \<and> (outcome = ''promote'' \<and> wdb w' = promoted (wdb w) c ro
      \<or> outcome = ''revert'' \<and> wdb w' = (wdb w)\<lparr>rollouts := filter (\<lambda>r'. r_channel r' \<noteq> c_id c) (rollouts (wdb w))\<rparr>))"
proof -
  let ?step = "if outcome = ''promote'' then pg_PromoteChannelRollout uuid app ch else pg_DeleteChannelRollout uuid app ch"
  consider (bad) "Name ''channelName'' ch \<noteq> None \<or> outcome \<notin> {''promote'', ''revert''}" | (ok) "Name ''channelName'' ch = None" "outcome \<in> {''promote'', ''revert''}"
    by blast
  then show ?thesis
  proof cases
    case bad
    then have "\<exists>e. EndChannelRollout (pg_rollouts uuid scan ds) ctx app ch outcome w = (Inl e, w)"
      by (cases "Name ''channelName'' ch") (auto simp: EndChannelRollout_def with_rollouts_def bindE_run require_run ChannelRolloutOutcomePromote_def
          ChannelRolloutOutcomeRevert_def)
    then show ?thesis
      using run by auto
  next
    case good: ok
    obtain q d where q: "?step (wdb w) = (q, d)"
      by (cases "?step (wdb w)") blast
    have step: "EndChannelRollout (pg_rollouts uuid scan ds) ctx app ch outcome w = (case q of Inl e \<Rightarrow> (Inl e, w\<lparr>wdb := d\<rparr>)
        | Inr n \<Rightarrow> if n = 0 then (Inl (RolloutRequestError 404 (Msg ''channel %q has no active rollout'' [ch])), w\<lparr>wdb := d\<rparr>)
          else recordManagementEvent ctx (Some world_record) (new_event ''channel_rollout.ended'' ''channel'' ch app [(''result'', MetaText outcome)]) (w\<lparr>wdb := d\<rparr>))"
    proof -
      have "on_db ?step w = (q, w\<lparr>wdb := d\<rparr>)"
        using q by (simp add: on_db_run)
      moreover have "(if outcome = ChannelRolloutOutcomePromote then PromoteChannelRollout (pg_rollout_repository uuid scan) app ch
          else if outcome = ChannelRolloutOutcomeRevert then DeleteChannelRollout (pg_rollout_repository uuid scan) app ch
          else throw (RolloutRequestError 400 (Msg ''outcome must be \"promote\" or \"revert\"'' []))) = on_db ?step"
        using good(2) by (auto simp: pg_rollout_repository_def ChannelRolloutOutcomePromote_def ChannelRolloutOutcomeRevert_def)
      ultimately show ?thesis
        using good(1) by (simp add: EndChannelRollout_def with_rollouts_def bindE_run require_run split: sum.split)
    qed
    have wrote: "(\<exists>e. q = Inl e) \<and> d = wdb w \<or> (\<exists>n. q = Inr n \<and> (if outcome = ''promote'' then promoteChannelRollout (uuid app) ch (wdb w) else deleteChannelRollout (uuid app) ch (wdb w)) = (Inr n, d))"
      using q pg_promote pg_delete_rollout by (auto split: if_splits)
    show ?thesis
    proof (cases q)
      case (Inl e)
      then show ?thesis
        using run step wrote by auto
    next
      case (Inr n)
      then have did: "(if outcome = ''promote'' then promoteChannelRollout (uuid app) ch (wdb w) else deleteChannelRollout (uuid app) ch (wdb w)) = (Inr n, d)"
        using wrote by auto
      have promote: "outcome = ''promote'' \<Longrightarrow> promoteChannelRollout (uuid app) ch (wdb w) = (Inr n, d)"
        and revert: "outcome = ''revert'' \<Longrightarrow> deleteChannelRollout (uuid app) ch (wdb w) = (Inr n, d)"
        using did by simp_all
      have n: "n = 0 \<Longrightarrow> d = wdb w"
        using good(2) promote_outcome(1) [OF ok promote] delete_rollout_run(1) [OF revert] by blast
      have hit: "n \<noteq> 0 \<Longrightarrow> \<exists>c ro. channel_named (wdb w) (uuid app) ch = Some c \<and> rollout_of (wdb w) (c_id c) = Some ro
          \<and> (outcome = ''promote'' \<and> d = promoted (wdb w) c ro
            \<or> outcome = ''revert'' \<and> d = (wdb w)\<lparr>rollouts := filter (\<lambda>r'. r_channel r' \<noteq> c_id c) (rollouts (wdb w))\<rparr>)"
        using good(2) promote_outcome(2) [OF ok promote] delete_rollout_run(2) [OF revert] by blast
      show ?thesis
        using run step Inr n hit by (cases "n = 0") (auto simp: record_world)
    qed
  qed
qed

text \<open>C10.  A channel rollout from its start to its end, on a process over a reachable database.  Starting one either fails
  and leaves the database as it was, or the channel had no rollout and now maps, beside its branch, the rollout branch with the
  requested share, between 1 and 99 percent.  Ending one either fails and leaves the database as it was, or the channel had a
  rollout and now has none: promoted, it maps the rollout branch; reverted, it maps the branch it always had.\<close>

theorem channel_rollout_lifecycle:
  assumes "reachable (wdb w)"
  shows "(\<forall>r w'. StartChannelRollout (pg_rollouts uuid scan ds) ctx rid app ch b p w = (r, w') \<longrightarrow>
      (\<exists>e. r = Inl e) \<and> wdb w' = wdb w
      \<or> 1 \<le> p \<and> p \<le> 99 \<and> (\<exists>i x m. scan rid = Some i \<and> r = Inr x \<and> mapping_answer uuid (wdb w) app ch = Some m \<and> Rollout m = None
          \<and> mapping_answer uuid (wdb w') app ch = Some (m\<lparr>Rollout := Some \<lparr>RolloutID = i, RolloutBranch = b, RolloutShare = p\<rparr>\<rparr>)))
    \<and> (\<forall>r w'. EndChannelRollout (pg_rollouts uuid scan ds) ctx app ch outcome w = (r, w') \<longrightarrow>
      (\<exists>e. r = Inl e) \<and> wdb w' = wdb w
      \<or> r = Inr () \<and> (\<exists>m ro. mapping_answer uuid (wdb w) app ch = Some m \<and> Rollout m = Some ro
          \<and> mapping_answer uuid (wdb w') app ch = Some (if outcome = ''promote'' then m\<lparr>BranchName := RolloutBranch ro, Rollout := None\<rparr> else m\<lparr>Rollout := None\<rparr>)))"
    (is "(\<forall>r w'. ?start r w' \<longrightarrow> ?P r w') \<and> (\<forall>r w'. ?end r w' \<longrightarrow> ?Q r w')")
proof -
  have ok: "schema_ok (wdb w)" and inv: "mapping_inv (wdb w)"
    using reachable_inv [OF assms] by (simp_all add: db_inv_def inv_at_def)
  have "\<forall>r w'. ?start r w' \<longrightarrow> ?P r w'"
  proof (intro allI impI)
    fix r w'
    assume "StartChannelRollout (pg_rollouts uuid scan ds) ctx rid app ch b p w = (r, w')"
    from start_run [OF this] start_mapping [OF ok inv, of _ p uuid app ch b _ "wdb w'"]
    show "?P r w'"
      by blast
  qed
  moreover have "\<forall>r w'. ?end r w' \<longrightarrow> ?Q r w'"
  proof (intro allI impI)
    fix r w'
    assume "EndChannelRollout (pg_rollouts uuid scan ds) ctx app ch outcome w = (r, w')"
    from end_run [OF ok this] ended_mapping [OF ok inv, of uuid app ch]
    show "?Q r w'"
      by (elim disjE exE conjE) (simp_all, metis+)
  qed
  ultimately show ?thesis ..
qed

definition demo_staged :: world where
  "demo_staged = demo_world\<lparr>wdb := demo_mapped\<rparr>"

lemma demo_staged_db [simp]: "wdb demo_staged = demo_mapped"
  by (simp add: demo_staged_def)

lemma demo_mapping: "mapping_answer Some demo_mapped ''app'' ''production'' = Some \<lparr>MappingId = ''4'', BranchName = ''main'',
    Rollout = Some \<lparr>RolloutID = ''salt'', RolloutBranch = ''next'', RolloutShare = 25\<rparr>\<rparr>"
  by (simp add: mapping_answer_def pg_GetChannelBranchMapping_def getChannelBranchMapping_def bindE_run read_one_optional found_def ToPgUUID_def
      channel_named_def branch_by_id_def rollout_of_def demo_mapped_def demo_db_def) code_simp

lemma demo_promotes: "\<exists>w'. EndChannelRollout (pg_rollouts Some Some full_stores) nobody ''app'' ''production'' ''promote'' demo_staged = (Inr (), w')"
proof -
  have name: "Name ''channelName'' ''production'' = None"
    by code_simp
  have "\<exists>d. pg_PromoteChannelRollout Some ''app'' ''production'' demo_mapped = (Inr 1, d)"
    by (simp add: pg_PromoteChannelRollout_def wrapped_run ToPgUUID_def promoteChannelRollout_def WithTx_def bindE_run repointChannelToRolloutBranch_def
        deleteChannelRollout_def) (simp add: statement_eval demo_db_def demo_mapped_def rollout_of_def bindE_run deleteChannelRollout_def)
  then show ?thesis
    using name by (auto simp: EndChannelRollout_def with_rollouts_def bindE_run require_run ChannelRolloutOutcomePromote_def pg_rollout_repository_def on_db_run
        record_world)
qed

theorem channel_rollout_lifecycle_witness:
  "\<exists>w'. EndChannelRollout (pg_rollouts Some Some full_stores) nobody ''app'' ''production'' ''promote'' demo_staged = (Inr (), w')
    \<and> mapping_answer Some (wdb w') ''app'' ''production'' = Some \<lparr>MappingId = ''4'', BranchName = ''next'', Rollout = None\<rparr>"
proof -
  obtain w' where run: "EndChannelRollout (pg_rollouts Some Some full_stores) nobody ''app'' ''production'' ''promote'' demo_staged = (Inr (), w')"
    using demo_promotes by blast
  have "reachable (wdb demo_staged)"
    using demo_mapped_reachable by simp
  from channel_rollout_lifecycle [OF this, THEN conjunct2, rule_format, OF run] run demo_mapping
  show ?thesis
    by simp
qed

section \<open>What a rollout keeps off its target\<close>

definition under_rollout :: "db \<Rightarrow> string option \<Rightarrow> string \<Rightarrow> string \<Rightarrow> bool" where
  "under_rollout d app b v \<longleftrightarrow> list_ex (\<lambda>u. on_branch d app b u \<and> on_runtime d v u \<and> active u) (updates d)"

lemma upsert_existing:
  assumes "schema_ok d" and "uuid app = Some a" and "b \<in> set (branches d)" "b_app b = a" and "v \<in> set (runtimes d)" "v_app v = a"
  shows "pg_UpsertBranchAndRuntimeVersion uuid app (b_name b) (v_version v) d = (Inr (), d)"
proof -
  have "(a, b_name b) \<in> (\<lambda>b. (b_app b, b_name b)) ` set (branches d)" "(a, v_version v) \<in> (\<lambda>v. (v_app v, v_version v)) ` set (runtimes d)"
    using assms by force+
  then show ?thesis
    using assms(1,2)
    by (simp add: pg_UpsertBranchAndRuntimeVersion_def ensure_def pg_InsertBranch_def pg_CreateRuntimeVersion_def bindE_run attempt_run mapErr_run
        ToPgUUID_def insertBranch_def insertRuntimeVersion_def run_write_run schema_ok_def checks_ok_def uniques_ok_def schema_error_def)
qed

lemma rollout_target:
  assumes "db_inv d" and "under_rollout d app b v"
  obtains x y a where "app = Some a" "x \<in> set (branches d)" "b_app x = a" "b_name x = b" "y \<in> set (runtimes d)" "v_app y = a" "v_version y = v"
proof -
  have ok: "schema_ok d"
    using assms(1) by (simp add: db_inv_def inv_at_def)
  obtain u where u: "u \<in> set (updates d)" "on_branch d app b u" "on_runtime d v u"
    using assms(2) by (auto simp: under_rollout_def list_ex_iff)
  obtain x y where xy: "x \<in> set (branches d)" "b_id x = u_branch u" "y \<in> set (runtimes d)" "v_id y = u_runtime u" "b_app x = v_app y"
    by (rule update_owner [OF assms(1) u(1)])
  obtain x' where x': "x' \<in> set (branches d)" "b_id x' = u_branch u" "Some (b_app x') = app" "b_name x' = b"
    using u(2) unfolding on_branch_def list_ex_iff by blast
  obtain y' where y': "y' \<in> set (runtimes d)" "v_id y' = u_runtime u" "v_version y' = v"
    using u(3) unfolding on_runtime_def list_ex_iff by blast
  have "x' = x" "y' = y"
    using schema_branch_id [OF ok x'(1) xy(1)] schema_runtime_id [OF ok y'(1) xy(3)] x' y' xy by simp_all
  then have "app = Some (b_app x)" "b_name x = b" "v_version y = v"
    using x' y' by auto
  then show thesis
    using xy by (intro that [of "b_app x" x y]) simp_all
qed

lemma has_rollout_run: "HasActiveRolloutUpdate (pg_update_repository uuid scan) app b v w = (Inr (under_rollout (wdb w) (uuid app) b v), w)"
  by (simp add: pg_update_repository_def on_db_run pg_HasActiveRolloutUpdate_def query_run hasActiveRolloutUpdate_def ToPgUUID_def under_rollout_def)

lemma stamp_refused:
  assumes ok: "schema_ok d" and row: "row_at d (uuid (AppId u)) (Branch u) (RuntimeVersion u) i x" and id: "ParseInt (UpdateId u) = Some i"
    and other: "a \<in> set (updates d)" "target_key a = target_key x" "active a" "u_rollout x = None"
  shows "pg_MarkUpdateAsChecked uuid u d = (Inl ErrPublishBlockedByActiveRollout, d)"
proof -
  have "\<not> stamp_allowed d x"
    using other by (auto simp: stamp_allowed_def list_ex_iff)
  then have "markUpdateAsChecked i (uuid (AppId u)) (Branch u) d = (Inr 0, d)"
    using row branch_update_unique [OF ok] by (intro stamp_none [OF ok]) (fastforce simp: row_at_def)
  then show ?thesis
    using row_at_found(1) [OF ok row] other(4)
    by (simp add: pg_MarkUpdateAsChecked_def parse_id_def id bindE_run wrapped_run ToPgUUID_def attempt_run)
qed

text \<open>C9.  While a rollout is active on a branch and runtime version, on a process over a reachable database: rollbacks and
  republishes of the target are refused before anything happens, an upload for it is refused and leaves the database as it
  was, and an upload that was requested before the rollout began cannot be checked on the rollout's platform unless it is a
  rollout itself: the statement that would make it visible refuses.\<close>

theorem rollout_blocks_publish:
  assumes "reachable (wdb w)" and "under_rollout (wdb w) (uuid app) b v"
  shows "CreateRollbackOp rt pk bk (pg_deployment uuid scan ds) ctx app platform commit v b msg w = (Inl ErrActiveRolloutBlocksPublish, w)
    \<and> RepublishUpdate rt pk bk (pg_deployment uuid scan ds) ctx \<lparr>AppId = app, Branch = b, RuntimeVersion = v, UpdateId = i, CreatedAt = c, UpdateUUID = x\<rparr>
      platform commit grp w = (Inl ErrActiveRolloutBlocksPublish, w)
    \<and> (RqAppID params = app \<and> RqBranchName params = b \<and> RqRuntimeVersion params = v \<longrightarrow>
      RequestUploadURLs rt bk (pg_deployment uuid scan ds) params w = (Inl (case ValidateBranchName b of Some e \<Rightarrow> e | None \<Rightarrow> ErrActiveRolloutBlocksPublish), w))
    \<and> (ParseInt i = Some n \<and> row_at (wdb w) (uuid app) b v n y \<and> u_rollout y = None
        \<and> list_ex (\<lambda>a. target_key a = target_key y \<and> active a) (updates (wdb w)) \<longrightarrow>
      MarkUpdateAsChecked (pg_update_repository uuid scan) \<lparr>AppId = app, Branch = b, RuntimeVersion = v, UpdateId = i, CreatedAt = c, UpdateUUID = x\<rparr> w
        = (Inl ErrPublishBlockedByActiveRollout, w))"
proof -
  note inv = reachable_inv [OF assms(1)]
  have ok: "schema_ok (wdb w)"
    using inv by (simp add: db_inv_def inv_at_def)
  have rollback: "CreateRollbackOp rt pk bk (pg_deployment uuid scan ds) ctx app platform commit v b msg w = (Inl ErrActiveRolloutBlocksPublish, w)"
    using assms(2) by (simp add: CreateRollbackOp_def bindE_run has_rollout_run)
  have republish: "RepublishUpdate rt pk bk (pg_deployment uuid scan ds) ctx \<lparr>AppId = app, Branch = b, RuntimeVersion = v, UpdateId = i, CreatedAt = c, UpdateUUID = x\<rparr>
      platform commit grp w = (Inl ErrActiveRolloutBlocksPublish, w)"
    using assms(2) by (simp add: RepublishUpdate_def bindE_run has_rollout_run)
  have upsert: "UpsertBranchAndRuntimeVersion (brBranchRepo (pg_branches uuid scan)) app b v w = (Inr (), w)"
  proof -
    obtain x y a where "uuid app = Some a" "x \<in> set (branches (wdb w))" "b_app x = a" "b_name x = b" "y \<in> set (runtimes (wdb w))" "v_app y = a" "v_version y = v"
      by (rule rollout_target [OF inv assms(2)])
    then show ?thesis
      using upsert_existing [OF ok, of uuid app a x y] by (simp add: pg_branches_def pg_branch_repository_def on_db_run)
  qed
  have request: "RequestUploadURLs rt bk (pg_deployment uuid scan ds) params w = (Inl (case ValidateBranchName b of Some e \<Rightarrow> e | None \<Rightarrow> ErrActiveRolloutBlocksPublish), w)"
    if "RqAppID params = app \<and> RqBranchName params = b \<and> RqRuntimeVersion params = v"
    using that assms(2) upsert
    by (cases "ValidateBranchName b") (simp_all add: RequestUploadURLs_def UpsertBranchAndRuntimeVersionOp_def require_run bindE_run has_rollout_run)
  have mark: "MarkUpdateAsChecked (pg_update_repository uuid scan) \<lparr>AppId = app, Branch = b, RuntimeVersion = v, UpdateId = i, CreatedAt = c, UpdateUUID = x\<rparr> w
        = (Inl ErrPublishBlockedByActiveRollout, w)"
    if "ParseInt i = Some n \<and> row_at (wdb w) (uuid app) b v n y \<and> u_rollout y = None
        \<and> list_ex (\<lambda>a. target_key a = target_key y \<and> active a) (updates (wdb w))"
    using that stamp_refused [OF ok, of uuid "\<lparr>AppId = app, Branch = b, RuntimeVersion = v, UpdateId = i, CreatedAt = c, UpdateUUID = x\<rparr>" n y]
    by (auto simp: pg_update_repository_def on_db_run list_ex_iff)
  show ?thesis
    using rollback republish request mark by blast
qed

lemma demo_idle_under_rollout: "reachable (wdb demo_idle)" "under_rollout (wdb demo_idle) (Some ''app'') ''main'' ''1.0''"
  using demo_reachable [of 11 21] by (simp_all add: demo_idle_def under_rollout_def on_branch_def on_runtime_def active_def demo_defs)

theorem rollout_blocks_publish_witness:
  "CreateRollbackOp (world_runtime demo_runtime) demo_pk full_bucket (pg_deployment Some Some full_stores) nobody ''app'' ''ios'' [] ''1.0'' ''main'' [] demo_idle
      = (Inl ErrActiveRolloutBlocksPublish, demo_idle)
    \<and> RequestUploadURLs (world_runtime demo_runtime) full_bucket (pg_deployment Some Some full_stores) demo_request demo_idle
      = (Inl ErrActiveRolloutBlocksPublish, demo_idle)"
proof -
  have "ValidateBranchName ''main'' = None"
    by code_simp
  moreover have "RqAppID demo_request = ''app'' \<and> RqBranchName demo_request = ''main'' \<and> RqRuntimeVersion demo_request = ''1.0''"
    by (simp add: demo_request_def)
  ultimately show ?thesis
    using rollout_blocks_publish [where uuid = Some and app = "''app''", OF demo_idle_under_rollout] by auto
qed

section \<open>Update rollouts\<close>

definition rolling :: "db \<Rightarrow> string option \<Rightarrow> string \<Rightarrow> string \<Rightarrow> update_row \<Rightarrow> bool" where
  "rolling d app b v u \<longleftrightarrow> on_branch d app b u \<and> on_runtime d v u \<and> active u"

definition new_share :: "int \<Rightarrow> int option" where
  "new_share p = (if p = 100 then None else Some p)"

definition progressed :: "string option \<Rightarrow> string \<Rightarrow> string \<Rightarrow> int option \<Rightarrow> db \<Rightarrow> db" where
  "progressed app b v share d = d\<lparr>updates := map (\<lambda>u. if rolling d app b v u then u\<lparr>u_rollout := share\<rparr> else u) (updates d)\<rparr>"

lemma in_target_iff:
  assumes "db_inv d" and "u \<in> set (updates d)"
  shows "in_target d app b v u \<longleftrightarrow> on_branch d app b u \<and> on_runtime d v u"
proof -
  have ok: "schema_ok d"
    using assms(1) by (simp add: db_inv_def inv_at_def)
  obtain x y where xy: "x \<in> set (branches d)" "b_id x = u_branch u" "y \<in> set (runtimes d)" "v_id y = u_runtime u" "b_app x = v_app y"
    by (rule update_owner [OF assms])
  have "Some (u_runtime u) = map_option v_id (runtime_named d app v) \<longleftrightarrow> on_runtime d v u" if br: "on_branch d app b u"
  proof -
    have app: "app = Some (v_app y)"
    proof -
      obtain x' where x': "x' \<in> set (branches d)" "b_id x' = u_branch u" "Some (b_app x') = app"
        using br unfolding on_branch_def list_ex_iff by blast
      then show ?thesis
        using schema_branch_id [OF ok x'(1) xy(1)] xy(2,5) by auto
    qed
    show ?thesis
    proof
      assume "Some (u_runtime u) = map_option v_id (runtime_named d app v)"
      then show "on_runtime d v u"
        using runtime_named_Some [of d app v] by (cases "runtime_named d app v") (auto simp: on_runtime_def list_ex_iff)
    next
      assume "on_runtime d v u"
      then have "v_version y = v"
        unfolding on_runtime_def list_ex_iff using schema_runtime_id [OF ok _ xy(3)] xy(4) by metis
      then show "Some (u_runtime u) = map_option v_id (runtime_named d app v)"
        using runtime_named_eq [OF ok xy(3)] xy(4) by (simp add: app)
    qed
  qed
  then show ?thesis
    by (auto simp: in_target_def on_branch_named [OF ok])
qed

lemma share_range: "schema_ok d \<Longrightarrow> u \<in> set (updates d) \<Longrightarrow> u_rollout u = Some q \<Longrightarrow> 1 \<le> q \<and> q \<le> 99"
  by (auto simp: schema_ok_def checks_ok_def list_all_iff percentage_ok_def dest!: bspec)

lemma currentMax_max: "r \<in> set rs \<Longrightarrow> RuPercentage r \<le> currentMax rs"
proof -
  let ?max = "foldl (\<lambda>m r. if RuPercentage r > m then RuPercentage r else m)"
  have acc: "m \<le> ?max m rs \<and> (\<forall>r \<in> set rs. RuPercentage r \<le> ?max m rs)" for m
  proof (induction rs arbitrary: m)
    case (Cons a rs)
    show ?case
      using Cons [of m] Cons [of "RuPercentage a"] by simp
  qed simp
  then show "r \<in> set rs \<Longrightarrow> RuPercentage r \<le> currentMax rs"
    by (simp add: currentMax_def)
qed

definition active_list :: "db \<Rightarrow> string option \<Rightarrow> string \<Rightarrow> string \<Rightarrow> RolloutUpdate list" where
  "active_list d app b v = map (\<lambda>u. \<lparr>RuUpdateId = FormatInt (u_id u), RuPlatform = u_platform u,
     RuPercentage = (case u_rollout u of None \<Rightarrow> 0 | Some p \<Rightarrow> p), RuControlUpdateId = map_option FormatInt (u_control u), RuCreatedAt = u_created u\<rparr>)
     (sort_key u_platform (filter (rolling d app b v) (updates d)))"

lemma active_list_run: "GetActiveRolloutUpdates (pg_rollout_repository uuid scan) app b v w = (Inr (active_list (wdb w) (uuid app) b v), w)"
  by (simp add: pg_rollout_repository_def on_db_run pg_GetActiveRolloutUpdates_def bindE_run wrapped_run getActiveRolloutUpdates_def ToPgUUID_def active_list_def
      rolling_def [abs_def])

lemma active_list_share:
  assumes "currentMax (active_list d app b v) < p" and "u \<in> set (updates d)" and "rolling d app b v u"
  shows "\<exists>q. u_rollout u = Some q \<and> q < p"
proof -
  obtain q where q: "u_rollout u = Some q"
    using assms(3) by (auto simp: rolling_def active_def)
  have "\<lparr>RuUpdateId = FormatInt (u_id u), RuPlatform = u_platform u, RuPercentage = q, RuControlUpdateId = map_option FormatInt (u_control u),
      RuCreatedAt = u_created u\<rparr> \<in> set (active_list d app b v)"
    using assms(2,3) q by (force simp: active_list_def)
  from currentMax_max [OF this] show ?thesis
    using assms(1) q by simp
qed

lemma set_updates_run:
  assumes "query (run_write (set_updates P f)) d = (r, d')" and "\<And>u. u \<in> set (updates d) \<Longrightarrow> (if P u then f u else u) = g u"
  shows "(\<exists>e. r = Inl e) \<and> d' = d \<or> (\<exists>n. r = Inr n \<and> (n = 0 \<longrightarrow> d' = d) \<and> d' = d\<lparr>updates := map g (updates d)\<rparr>)"
proof -
  have rows: "map (\<lambda>u. if P u then f u else u) (updates d) = map g (updates d)"
    using assms(2) by simp
  obtain q where q: "run_write (set_updates P f) d = (q, d')" "r = map_sum DbError id q"
    using assms(1) by (cases "run_write (set_updates P f) d") (auto simp: query_run split: sum.splits)
  have "map g (updates d) = updates d" if "filter P (updates d) = []"
    using that assms(2) by (intro map_idI) (auto simp: filter_empty_conv split: if_splits)
  then show ?thesis
    using q by (cases q) (auto simp: set_updates_def rows dest!: run_write_Inl run_write_Inr)
qed

lemma clear_run:
  assumes inv: "db_inv d" and run: "pg_ClearUpdateRollout uuid app b v d = (r, d')"
  shows "(\<exists>e. r = Inl e) \<and> d' = d \<or> (\<exists>n. r = Inr n \<and> (n = 0 \<longrightarrow> d' = d) \<and> d' = progressed (uuid app) b v None d)"
proof -
  have "query (run_write (set_updates (\<lambda>u. in_target d (uuid app) b v u \<and> u_rollout u \<noteq> None \<and> u_checked u \<noteq> None) (\<lambda>u. u\<lparr>u_rollout := None\<rparr>))) d = (r, d')"
    using run by (simp only: pg_ClearUpdateRollout_def ToPgUUID_def clearUpdateRollout_def query_run run_write_run)
  then show ?thesis
    unfolding progressed_def
    by (rule set_updates_run [THEN disj_forward]) (use in_target_iff [OF inv] in \<open>auto simp: rolling_def active_def\<close>)
qed

lemma set_share_run:
  assumes inv: "db_inv d" and run: "pg_SetUpdateRolloutPercentage uuid app b v p d = (r, d')" and p: "1 \<le> p" "p \<le> 100"
    and below: "\<And>u. u \<in> set (updates d) \<Longrightarrow> rolling d (uuid app) b v u \<Longrightarrow> \<exists>q. u_rollout u = Some q \<and> q < p"
  shows "(\<exists>e. r = Inl e) \<and> d' = d \<or> (\<exists>n. r = Inr n \<and> (n = 0 \<longrightarrow> d' = d) \<and> d' = progressed (uuid app) b v (Some p) d)"
proof -
  have "query (run_write (set_updates (\<lambda>u. in_target d (uuid app) b v u \<and> u_checked u \<noteq> None \<and> (\<exists>q \<in> set_option (u_rollout u). q < p)) (\<lambda>u. u\<lparr>u_rollout := Some p\<rparr>))) d = (r, d')"
    using run p by (simp only: pg_SetUpdateRolloutPercentage_def int32_percent ToPgUUID_def setUpdateRolloutPercentage_def query_run run_write_run)
  then show ?thesis
    unfolding progressed_def
  proof (rule set_updates_run [THEN disj_forward])
    fix u
    assume u: "u \<in> set (updates d)"
    have "in_target d (uuid app) b v u \<and> u_checked u \<noteq> None \<and> (\<exists>q \<in> set_option (u_rollout u). q < p) \<longleftrightarrow> rolling d (uuid app) b v u"
      using in_target_iff [OF inv u] below [OF u] by (auto simp: rolling_def active_def)
    then show "(if in_target d (uuid app) b v u \<and> u_checked u \<noteq> None \<and> (\<exists>q \<in> set_option (u_rollout u). q < p) then u\<lparr>u_rollout := Some p\<rparr> else u)
        = (if rolling d (uuid app) b v u then u\<lparr>u_rollout := Some p\<rparr> else u)"
      by (simp only:)
  qed auto
qed

lemma mutation_guard:
  "getActiveRolloutForMutation (pg_rollout_repository uuid scan) app b v expected w = (r, w') \<Longrightarrow>
    w' = w \<and> ((\<exists>e. r = Inl e) \<or> r = Inr (active_list (wdb w) (uuid app) b v) \<and> active_list (wdb w) (uuid app) b v \<noteq> [])"
  by (auto simp: getActiveRolloutForMutation_def bindE_run active_list_run split: if_splits option.splits)

lemma progress_run:
  assumes inv: "db_inv (wdb w)" and run: "SetUpdateRolloutPercentageOp (pg_rollouts uuid scan ds) ctx app b v p expected w = (r, w')"
  shows "(\<exists>e. r = Inl e) \<and> wdb w' = wdb w \<or> (\<exists>x. r = Inr x) \<and> 1 \<le> p \<and> p \<le> 100 \<and> under_rollout (wdb w) (uuid app) b v
    \<and> wdb w' = progressed (uuid app) b v (new_share p) (wdb w)
    \<and> (\<forall>u \<in> set (updates (wdb w)). rolling (wdb w) (uuid app) b v u \<longrightarrow> (\<exists>q. u_rollout u = Some q \<and> q < p))"
proof (cases "Name ''branchName'' b = None \<and> Name ''runtimeVersion'' v = None \<and> 1 \<le> p \<and> p \<le> 100")
  case False
  then have "\<exists>e. SetUpdateRolloutPercentageOp (pg_rollouts uuid scan ds) ctx app b v p expected w = (Inl e, w)"
    by (cases "Name ''branchName'' b"; cases "Name ''runtimeVersion'' v")
      (auto simp: SetUpdateRolloutPercentageOp_def with_rollouts_def bindE_run require_run)
  then show ?thesis
    using run by auto
next
  case True
  have ok: "schema_ok (wdb w)"
    using inv by (simp add: db_inv_def inv_at_def)
  let ?l = "active_list (wdb w) (uuid app) b v"
  have under: "?l \<noteq> [] \<Longrightarrow> under_rollout (wdb w) (uuid app) b v"
    unfolding under_rollout_def list_ex_iff using set_sort [of u_platform "filter (rolling (wdb w) (uuid app) b v) (updates (wdb w))"]
    by (cases ?l) (auto simp: active_list_def rolling_def simp del: set_sort)
  obtain g w1 where g: "getActiveRolloutForMutation (pg_rollout_repository uuid scan) app b v expected w = (g, w1)"
    by (cases "getActiveRolloutForMutation (pg_rollout_repository uuid scan) app b v expected w")
  note w1 = mutation_guard [OF g]
  consider (refused) e where "g = Inl e" "w1 = w" | (full) "g = Inr ?l" "w1 = w" "?l \<noteq> []" "p = 100" | (part) "g = Inr ?l" "w1 = w" "?l \<noteq> []" "p \<noteq> 100"
    using w1 by blast
  then show ?thesis
  proof cases
    case refused
    then show ?thesis
      using run True g by (auto simp: SetUpdateRolloutPercentageOp_def with_rollouts_def bindE_run require_run)
  next
    case full
    obtain q d where q: "pg_ClearUpdateRollout uuid app b v (wdb w) = (q, d)"
      by (cases "pg_ClearUpdateRollout uuid app b v (wdb w)")
    have "\<forall>u \<in> set (updates (wdb w)). rolling (wdb w) (uuid app) b v u \<longrightarrow> (\<exists>q. u_rollout u = Some q \<and> q < 100)"
      using share_range [OF ok] by (fastforce simp: rolling_def active_def)
    moreover have "SetUpdateRolloutPercentageOp (pg_rollouts uuid scan ds) ctx app b v p expected w = (case q of Inl e \<Rightarrow> (Inl e, w\<lparr>wdb := d\<rparr>)
        | Inr n \<Rightarrow> if n = 0 then (Inl (RolloutRequestError 409 (Msg ''the rollout ended concurrently; reload and retry'' [])), w\<lparr>wdb := d\<rparr>) else (Inr ?l, w\<lparr>wdb := d\<rparr>))"
      using True g full q by (simp add: SetUpdateRolloutPercentageOp_def with_rollouts_def bindE_run require_run pg_rollout_repository_def on_db_run split: sum.split)
    ultimately show ?thesis
      using run clear_run [OF inv q] under full True by (auto simp: new_share_def split: sum.splits if_splits)
  next
    case part
    show ?thesis
    proof (cases "p \<le> currentMax ?l")
      case True': True
      then show ?thesis
        using run True g part by (auto simp: SetUpdateRolloutPercentageOp_def with_rollouts_def bindE_run require_run)
    next
      case False
      obtain q d where q: "pg_SetUpdateRolloutPercentage uuid app b v p (wdb w) = (q, d)"
        by (cases "pg_SetUpdateRolloutPercentage uuid app b v p (wdb w)")
      have below: "\<forall>u \<in> set (updates (wdb w)). rolling (wdb w) (uuid app) b v u \<longrightarrow> (\<exists>q. u_rollout u = Some q \<and> q < p)"
        using False active_list_share [of "wdb w" "uuid app" b v p] by fastforce
      have "SetUpdateRolloutPercentageOp (pg_rollouts uuid scan ds) ctx app b v p expected w = (case q of Inl e \<Rightarrow> (Inl e, w\<lparr>wdb := d\<rparr>)
          | Inr n \<Rightarrow> if n = 0 then (Inl (RolloutRequestError 409 (Msg ''the rollout ended or was progressed concurrently; reload and retry'' [])), w\<lparr>wdb := d\<rparr>)
            else bindE (recordManagementEvent ctx (Some world_record) (new_event ''update_rollout.set'' ''branch'' b app
             [(''runtime_version'', MetaText v), (''percentage'', MetaInt p)])) (\<lambda>_. ret ?l) (w\<lparr>wdb := d\<rparr>))"
        using True g part False q by (simp add: SetUpdateRolloutPercentageOp_def with_rollouts_def bindE_run require_run pg_rollout_repository_def on_db_run split: sum.split)
      then show ?thesis
        using run set_share_run [OF inv q] below under part True by (auto simp: new_share_def bindE_run record_world split: sum.splits if_splits)
    qed
  qed
qed

lemma progressed_envelope:
  "envelope_answer uuid (progressed (uuid app) b v share d) app b v platform
    = map_option (\<lambda>e. if RolloutPercentage e = None then e else e\<lparr>RolloutPercentage := share\<rparr>) (envelope_answer uuid d app b v platform)"
proof -
  let ?d = "progressed (uuid app) b v share d"
  define f where "f = (\<lambda>u. if rolling d (uuid app) b v u then u\<lparr>u_rollout := share\<rparr> else u)"
  have f: "u_id (f u) = u_id u" "u_branch (f u) = u_branch u" "u_runtime (f u) = u_runtime u" "u_platform (f u) = u_platform u" "u_checked (f u) = u_checked u"
      "u_control (f u) = u_control u" "u_uuid (f u) = u_uuid u" "u_created (f u) = u_created u" for u
    by (simp_all add: f_def)
  have d: "updates ?d = map f (updates d)" "branches ?d = branches d" "runtimes ?d = runtimes d"
    by (simp_all add: progressed_def f_def)
  have served: "with_uuid (f u) (as_update app b v (f u)) = with_uuid u (as_update app b v u)" for u
    by (simp add: with_uuid_def as_update_def f split: option.split)
  have "serving ?d (uuid app) b v platform (f u) = serving d (uuid app) b v platform u" for u
    by (simp add: serving_def on_branch_def on_runtime_def f d)
  then have rows: "newest (filter (serving ?d (uuid app) b v platform) (updates ?d)) = map_option f (newest (filter (serving d (uuid app) b v platform) (updates d)))"
    by (simp add: d filter_map o_def newest_map f)
  have control: "find (\<lambda>c. u_branch c = u_branch (f u) \<and> Some (u_id c) = u_control (f u)) (updates ?d)
      = map_option f (find (\<lambda>c. u_branch c = u_branch u \<and> Some (u_id c) = u_control u) (updates d))" for u
    by (simp add: d find_map f)
  show ?thesis
  proof (cases "newest (filter (serving d (uuid app) b v platform) (updates d))")
    case (Some u)
    then have "serving d (uuid app) b v platform u"
      using newest_mem [OF Some] by simp
    then have "u_rollout (f u) = (if u_rollout u = None then None else share)"
      by (auto simp: f_def rolling_def serving_def active_def)
    then show ?thesis
      by (simp add: envelope_latest latest_rows_def rows Some control as_envelope_def served option.map_comp o_def)
  qed (simp add: envelope_latest latest_rows_def rows)
qed

text \<open>C8.  Progressing an update rollout on a process over a reachable database either fails and leaves the database as it
  was, or there was a rollout on the target and only its rows change: the share of every one of them rises to the requested
  one, or the rollout ends and the update goes to everybody.  A device that is given the rollout update keeps it, and every
  other device is given what it was given before or moves to the rollout update.\<close>

theorem rollout_only_grows:
  assumes "reachable (wdb w)" and "SetUpdateRolloutPercentageOp (pg_rollouts uuid scan ds) ctx app b v p expected w = (r, w')"
  shows "(\<exists>e. r = Inl e) \<and> wdb w' = wdb w
    \<or> under_rollout (wdb w) (uuid app) b v
      \<and> updates (wdb w') = map (\<lambda>u. if rolling (wdb w) (uuid app) b v u then u\<lparr>u_rollout := new_share p\<rparr> else u) (updates (wdb w))
      \<and> (\<forall>u \<in> set (updates (wdb w)). rolling (wdb w) (uuid app) b v u \<longrightarrow> (\<exists>q. u_rollout u = Some q \<and> q < p))
      \<and> (\<forall>platform e sha client. envelope_answer uuid (wdb w) app b v platform = Some e \<longrightarrow>
          (\<exists>e'. envelope_answer uuid (wdb w') app b v platform = Some e' \<and> Latest e' = Latest e
            \<and> (if device_update sha app b v client e = Some (Latest e) then device_update sha app b v client e' = Some (Latest e)
               else device_update sha app b v client e' \<in> {device_update sha app b v client e, Some (Latest e)})))"
proof -
  note inv = reachable_inv [OF assms(1)]
  have grow: "(if device_update sha app b v client e = Some (Latest e) then device_update sha app b v client e' = Some (Latest e)
               else device_update sha app b v client e' \<in> {device_update sha app b v client e, Some (Latest e)})"
    if "\<forall>q. RolloutPercentage e = Some q \<longrightarrow> q < p" "e' = (if RolloutPercentage e = None then e else e\<lparr>RolloutPercentage := new_share p\<rparr>)" for sha client e e'
    using that InBucket_mono by (fastforce simp: device_update_def new_share_def split: option.splits)
  have share: "q < p" if rows: "\<forall>u \<in> set (updates (wdb w)). rolling (wdb w) (uuid app) b v u \<longrightarrow> (\<exists>q. u_rollout u = Some q \<and> q < p)"
      and env: "envelope_answer uuid (wdb w) app b v platform = Some e" and q: "RolloutPercentage e = Some q" for platform e q
  proof -
    obtain u where u: "newest (filter (serving (wdb w) (uuid app) b v platform) (updates (wdb w))) = Some u" "RolloutPercentage e = u_rollout u"
      using env by (auto simp: envelope_latest latest_rows_def as_envelope_def)
    have "u \<in> set (updates (wdb w))" "rolling (wdb w) (uuid app) b v u"
      using newest_mem [OF u(1)] q u(2) by (auto simp: rolling_def serving_def active_def)
    then show ?thesis
      using rows q u(2) by force
  qed
  show ?thesis
    using progress_run [OF inv assms(2)]
  proof (elim disjE)
    assume did: "(\<exists>x. r = Inr x) \<and> 1 \<le> p \<and> p \<le> 100 \<and> under_rollout (wdb w) (uuid app) b v
      \<and> wdb w' = progressed (uuid app) b v (new_share p) (wdb w)
      \<and> (\<forall>u \<in> set (updates (wdb w)). rolling (wdb w) (uuid app) b v u \<longrightarrow> (\<exists>q. u_rollout u = Some q \<and> q < p))"
    then have env: "envelope_answer uuid (wdb w') app b v platform
        = map_option (\<lambda>e. if RolloutPercentage e = None then e else e\<lparr>RolloutPercentage := new_share p\<rparr>) (envelope_answer uuid (wdb w) app b v platform)" for platform
      by (simp add: progressed_envelope)
    have "\<exists>e'. envelope_answer uuid (wdb w') app b v platform = Some e' \<and> Latest e' = Latest e
            \<and> (if device_update sha app b v client e = Some (Latest e) then device_update sha app b v client e' = Some (Latest e)
               else device_update sha app b v client e' \<in> {device_update sha app b v client e, Some (Latest e)})"
      if e: "envelope_answer uuid (wdb w) app b v platform = Some e" for platform e sha client
    proof -
      let ?e = "if RolloutPercentage e = None then e else e\<lparr>RolloutPercentage := new_share p\<rparr>"
      have below: "\<forall>q. RolloutPercentage e = Some q \<longrightarrow> q < p"
        using share [OF _ e] did by blast
      have "envelope_answer uuid (wdb w') app b v platform = Some ?e" "Latest ?e = Latest e"
        using e by (simp_all add: env)
      with grow [OF below refl, of sha client] show ?thesis
        by blast
    qed
    then show ?thesis
      using did by (simp add: progressed_def)
  qed simp
qed

lemma demo_progresses:
  "\<exists>x w'. SetUpdateRolloutPercentageOp (pg_rollouts Some Some full_stores) nobody ''app'' ''main'' ''1.0'' 50 None demo_idle = (Inr x, w')"
proof -
  have names: "Name ''branchName'' ''main'' = None" "Name ''runtimeVersion'' ''1.0'' = None"
    by code_simp+
  define d where "d = wdb demo_idle"
  have l: "currentMax (active_list d (Some ''app'') ''main'' ''1.0'') = 10" "active_list d (Some ''app'') ''main'' ''1.0'' \<noteq> []"
    by (simp_all add: active_list_def d_def demo_idle_def demo_defs rolling_def on_branch_def on_runtime_def active_def currentMax_def)
  have "\<exists>d'. pg_SetUpdateRolloutPercentage Some ''app'' ''main'' ''1.0'' 50 d = (Inr 1, d')"
    by (simp add: pg_SetUpdateRolloutPercentage_def int32_percent query_run ToPgUUID_def setUpdateRolloutPercentage_def run_write_run set_updates_def)
      (simp add: d_def demo_idle_def demo_defs statement_eval in_target_def branch_named_def runtime_named_def)
  then obtain d' where d': "pg_SetUpdateRolloutPercentage Some ''app'' ''main'' ''1.0'' 50 d = (Inr 1, d')"
    by blast
  have "getActiveRolloutForMutation (pg_rollout_repository Some Some) ''app'' ''main'' ''1.0'' None demo_idle
      = (Inr (active_list d (Some ''app'') ''main'' ''1.0''), demo_idle)"
    using l(2) by (simp add: getActiveRolloutForMutation_def bindE_run active_list_run d_def)
  then show ?thesis
    using names l d' by (simp add: SetUpdateRolloutPercentageOp_def with_rollouts_def bindE_run require_run record_world flip: d_def)
      (simp add: pg_rollout_repository_def on_db_run bindE_run record_world flip: d_def)
qed

theorem rollout_only_grows_witness:
  "\<exists>x w'. SetUpdateRolloutPercentageOp (pg_rollouts Some Some full_stores) nobody ''app'' ''main'' ''1.0'' 50 None demo_idle = (Inr x, w')
    \<and> updates (wdb w') = [demo_update 11 3 (Some 4), (demo_rollout 11 21 (Some 6))\<lparr>u_rollout := Some 50\<rparr>]"
proof -
  obtain x w' where run: "SetUpdateRolloutPercentageOp (pg_rollouts Some Some full_stores) nobody ''app'' ''main'' ''1.0'' 50 None demo_idle = (Inr x, w')"
    using demo_progresses by blast
  from rollout_only_grows [OF demo_idle_under_rollout(1) run]
  have "updates (wdb w') = map (\<lambda>u. if rolling (wdb demo_idle) (Some ''app'') ''main'' ''1.0'' u then u\<lparr>u_rollout := new_share 50\<rparr> else u) (updates (wdb demo_idle))"
    by simp
  then show ?thesis
    using run by (simp add: demo_idle_def demo_defs rolling_def on_branch_def on_runtime_def active_def new_share_def)
qed

end
