(* ===== verification/Accounts.thy ===== *)
theory Accounts
  imports Interfaces Repositories Validation
begin

text \<open>
  Dashboard accounts: the \<^verbatim>\<open>users\<close> and \<^verbatim>\<open>refresh_tokens\<close> tables with their statements
  (\<^verbatim>\<open>queries.sql.go\<close>), the repositories over them (\<^verbatim>\<open>user_postgres.go\<close>, \<^verbatim>\<open>refresh_token_postgres.go\<close>)
  and the user service (\<^verbatim>\<open>user_service.go\<close>).

  A UUID column holds the canonical spelling; \<^verbatim>\<open>uuid\<close> is the parser behind \<^verbatim>\<open>ToPgUUID\<close>, \<^const>\<open>None\<close> the SQL
  NULL it gives for anything else.  Identifiers the code draws with \<^verbatim>\<open>uuid.New\<close> are arguments.  bcrypt, the mail
  address parser, \<^verbatim>\<open>strings.ToLower\<close> and the character classes of \<^verbatim>\<open>unicode\<close> are parameters.
\<close>

section \<open>Tables\<close>

record user_row =
  us_id :: string
  us_email :: string
  us_hash :: string
  us_admin :: bool
  us_enabled :: bool
  us_created :: int
  us_updated :: int
  us_connected :: "int option"
  us_version :: int

record token_row =
  tk_id :: string
  tk_user :: string
  tk_family :: string
  tk_created :: int
  tk_expires :: int
  tk_used :: "int option"
  tk_replaced :: "string option"

record role_row =
  ro_id :: string
  ro_name :: string
  ro_permissions :: "string list"
  ro_created :: int
  ro_updated :: int

record grant_row =
  gr_user :: string
  gr_app :: string
  gr_role :: "string option"
  gr_extra :: "string list"

record account_db =
  account_apps :: "string list"
  users :: "user_row list"
  tokens :: "token_row list"
  roles :: "role_row list"
  grants :: "grant_row list"
  account_now :: int

text \<open>The constraints of the four tables; \<^verbatim>\<open>session_version\<close> is an \<^verbatim>\<open>INTEGER\<close>.\<close>

definition account_uniques :: "account_db \<Rightarrow> bool" where
  "account_uniques d \<longleftrightarrow> distinct (map us_id (users d)) \<and> distinct (map us_email (users d)) \<and> distinct (map tk_id (tokens d))
     \<and> distinct (map ro_id (roles d)) \<and> distinct (map ro_name (roles d)) \<and> distinct (map (\<lambda>g. (gr_user g, gr_app g)) (grants d))"

definition account_refs :: "account_db \<Rightarrow> bool" where
  "account_refs d \<longleftrightarrow> list_all (\<lambda>t. tk_user t \<in> us_id ` set (users d)) (tokens d)
     \<and> list_all (\<lambda>g. gr_user g \<in> us_id ` set (users d) \<and> gr_app g \<in> set (account_apps d)
         \<and> pred_option (\<lambda>r. r \<in> ro_id ` set (roles d)) (gr_role g)) (grants d)"

definition account_ranges :: "account_db \<Rightarrow> bool" where
  "account_ranges d \<longleftrightarrow> list_all (\<lambda>u. us_version u < 2 ^ 31) (users d)"

definition account_ok :: "account_db \<Rightarrow> bool" where
  "account_ok d \<longleftrightarrow> account_uniques d \<and> account_refs d \<and> account_ranges d"

definition account_error :: "account_db \<Rightarrow> db_error" where
  "account_error d = (if \<not> account_ranges d then CheckViolation else if \<not> account_uniques d then UniqueViolation else ForeignKeyViolation)"

type_synonym 'a astmt = "(account_db, db_error, 'a) proc"

definition account_write :: "(account_db \<Rightarrow> account_db \<times> 'a) \<Rightarrow> 'a astmt" where
  "account_write f d = (if account_ok (fst (f d)) then (Inr (snd (f d)), fst (f d)) else (Inl (account_error (fst (f d))), d))"

definition account_read :: "(account_db \<Rightarrow> 'a option) \<Rightarrow> 'a astmt" where
  "account_read f d = (case f d of None \<Rightarrow> (Inl NoRows, d) | Some x \<Rightarrow> (Inr x, d))"

section \<open>Statements on users\<close>

definition user_by_id :: "account_db \<Rightarrow> string option \<Rightarrow> user_row option" where
  "user_by_id d i = find (\<lambda>u. Some (us_id u) = i) (users d)"

definition admins :: "account_db \<Rightarrow> user_row list" where
  "admins d = filter (\<lambda>u. us_admin u \<and> us_enabled u) (users d)"

text \<open>The guard of the statements that could leave no admin: the row is not an enabled admin, or not the only one.\<close>

definition spares_admin :: "account_db \<Rightarrow> user_row \<Rightarrow> bool" where
  "spares_admin d u \<longleftrightarrow> us_id u \<notin> us_id ` set (admins d) \<or> length (admins d) > 1"

definition insertUser :: "string option \<Rightarrow> string \<Rightarrow> string \<Rightarrow> bool \<Rightarrow> bool \<Rightarrow> user_row astmt" where
  "insertUser i email hash is_admin enabled = (case i of None \<Rightarrow> throw NotNullViolation
     | Some x \<Rightarrow> (\<lambda>d. let u = \<lparr>us_id = x, us_email = email, us_hash = hash, us_admin = is_admin, us_enabled = enabled,
           us_created = account_now d, us_updated = account_now d, us_connected = None, us_version = 0\<rparr>
         in account_write (\<lambda>d. (d\<lparr>users := users d @ [u]\<rparr>, u)) d))"

definition getUserByEmail :: "string \<Rightarrow> user_row astmt" where
  "getUserByEmail email = account_read (\<lambda>d. find (\<lambda>u. us_email u = email) (users d))"

definition getUserByID :: "string option \<Rightarrow> user_row astmt" where
  "getUserByID i = account_read (\<lambda>d. user_by_id d i)"

definition getUsers :: "user_row list astmt" where
  "getUsers = gets (\<lambda>d. sort_key us_created (users d))"

text \<open>The rows of the other tables that name a deleted user go with it (\<^verbatim>\<open>ON DELETE CASCADE\<close>).\<close>

definition deleteUserByID :: "string option \<Rightarrow> int astmt" where
  "deleteUserByID i = account_write (\<lambda>d.
     let hit = (\<lambda>u. Some (us_id u) = i \<and> spares_admin d u); gone = us_id ` set (filter hit (users d))
     in (d\<lparr>users := filter (\<lambda>u. \<not> hit u) (users d), tokens := filter (\<lambda>t. tk_user t \<notin> gone) (tokens d),
           grants := filter (\<lambda>g. gr_user g \<notin> gone) (grants d)\<rparr>, int (length (filter hit (users d)))))"

definition set_users :: "(account_db \<Rightarrow> user_row \<Rightarrow> bool) \<Rightarrow> (account_db \<Rightarrow> user_row \<Rightarrow> user_row) \<Rightarrow> int astmt" where
  "set_users P f = account_write (\<lambda>d. (d\<lparr>users := map (\<lambda>u. if P d u then f d u else u) (users d)\<rparr>, int (length (filter (P d) (users d)))))"

definition updateUserPasswordByID :: "string option \<Rightarrow> string \<Rightarrow> int astmt" where
  "updateUserPasswordByID i hash = set_users (\<lambda>d u. Some (us_id u) = i)
     (\<lambda>d u. u\<lparr>us_hash := hash, us_version := us_version u + 1, us_updated := account_now d\<rparr>)"

definition updateUserIsAdminByID :: "string option \<Rightarrow> bool \<Rightarrow> int astmt" where
  "updateUserIsAdminByID i is_admin = set_users (\<lambda>d u. Some (us_id u) = i \<and> (is_admin \<or> spares_admin d u))
     (\<lambda>d u. u\<lparr>us_admin := is_admin, us_version := us_version u + (if us_admin u \<and> \<not> is_admin then 1 else 0), us_updated := account_now d\<rparr>)"

definition updateUserEnabledByID :: "string option \<Rightarrow> bool \<Rightarrow> int astmt" where
  "updateUserEnabledByID i enabled = set_users (\<lambda>d u. Some (us_id u) = i \<and> (enabled \<or> spares_admin d u))
     (\<lambda>d u. u\<lparr>us_enabled := enabled, us_version := us_version u + (if us_enabled u \<and> \<not> enabled then 1 else 0), us_updated := account_now d\<rparr>)"

definition bumpUserSessionVersion :: "string option \<Rightarrow> int astmt" where
  "bumpUserSessionVersion i = set_users (\<lambda>d u. Some (us_id u) = i) (\<lambda>d u. u\<lparr>us_version := us_version u + 1, us_updated := account_now d\<rparr>)"

definition touchUserLastConnectedAt :: "string option \<Rightarrow> int astmt" where
  "touchUserLastConnectedAt i = set_users (\<lambda>d u. Some (us_id u) = i) (\<lambda>d u. u\<lparr>us_connected := Some (account_now d)\<rparr>)"

section \<open>Statements on refresh tokens\<close>

definition insertRefreshToken :: "string option \<Rightarrow> string option \<Rightarrow> string option \<Rightarrow> int \<Rightarrow> unit astmt" where
  "insertRefreshToken i user family expires = (case (i, user, family) of
       (Some x, Some y, Some z) \<Rightarrow> account_write (\<lambda>d. (d\<lparr>tokens := tokens d @ [\<lparr>tk_id = x, tk_user = y, tk_family = z,
         tk_created = account_now d, tk_expires = expires, tk_used = None, tk_replaced = None\<rparr>]\<rparr>, ()))
     | _ \<Rightarrow> throw NotNullViolation)"

definition consumable :: "account_db \<Rightarrow> string option \<Rightarrow> token_row \<Rightarrow> bool" where
  "consumable d i t \<longleftrightarrow> Some (tk_id t) = i \<and> tk_used t = None \<and> tk_expires t > account_now d"

definition consumeRefreshToken :: "string option \<Rightarrow> string option \<Rightarrow> token_row astmt" where
  "consumeRefreshToken replacedBy i = (\<lambda>d. case find (consumable d i) (tokens d) of
       None \<Rightarrow> (Inl NoRows, d)
     | Some t \<Rightarrow> account_write (\<lambda>d.
         (d\<lparr>tokens := map (\<lambda>t. if consumable d i t then t\<lparr>tk_used := Some (account_now d), tk_replaced := replacedBy\<rparr> else t) (tokens d)\<rparr>,
          t\<lparr>tk_used := Some (account_now d), tk_replaced := replacedBy\<rparr>)) d)"

text \<open>The row with \<^verbatim>\<open>used_recently\<close>.\<close>

definition getRefreshToken :: "int \<Rightarrow> string option \<Rightarrow> (token_row \<times> bool) astmt" where
  "getRefreshToken grace i = account_read (\<lambda>d. map_option (\<lambda>t. (t, case tk_used t of None \<Rightarrow> False | Some at \<Rightarrow> at > account_now d - grace))
     (find (\<lambda>t. Some (tk_id t) = i) (tokens d)))"

definition deleteRefreshTokenFamily :: "string option \<Rightarrow> unit astmt" where
  "deleteRefreshTokenFamily family = account_write (\<lambda>d. (d\<lparr>tokens := filter (\<lambda>t. Some (tk_family t) \<noteq> family) (tokens d)\<rparr>, ()))"

definition deleteExpiredRefreshTokensForUser :: "string option \<Rightarrow> unit astmt" where
  "deleteExpiredRefreshTokensForUser user = account_write (\<lambda>d.
     (d\<lparr>tokens := filter (\<lambda>t. \<not> (Some (tk_user t) = user \<and> tk_expires t \<le> account_now d)) (tokens d)\<rparr>, ()))"

section \<open>Errors\<close>

text \<open>The errors of the account services; \<^verbatim>\<open>StoreError\<close> carries those every repository has.\<close>

datatype auth_err =
    StoreError err
  | ErrWouldLeaveNoAdmin
  | ErrUsersRequireControlPlane
  | ErrCannotChangeOwnAdminFlag
  | ErrCannotDeleteOwnAccount
  | ErrCannotDisableOwnAccount
  | ErrLastAdmin
  | ErrInvalidCurrentPassword
  | ErrUserCreationDisabledBySSO
  | ErrCannotResetOwnPassword
  | ErrPasswordResetDisabledBySSO
  | UserInputError message
  | ErrAdminEmailNotSet
  | ErrPasswordLoginDisabledBySSO
  | ErrAccountPendingApproval
  | ErrSessionRevoked
  | ErrRefreshTokenReuse
  | ErrAuthUnavailable
  | AuthText message

type_synonym ('s, 'a) aop = "('s, auth_err, 'a) proc"
type_synonym 'a arepo = "(account_db, auth_err, 'a) proc"

definition stored :: "string \<Rightarrow> 'a astmt \<Rightarrow> 'a arepo" where
  "stored text m = mapErr (\<lambda>e. StoreError (Wrapped (Msg text []) (DbError e))) m"

fun is_not_found :: "auth_err \<Rightarrow> bool" where
  "is_not_found (StoreError (ErrResourceNotFound _ _)) = True"
| "is_not_found _ = False"

section \<open>The user repository\<close>

record User =
  UId :: string
  UEmail :: string
  UPasswordHash :: string
  UIsAdmin :: bool
  UEnabled :: bool
  UCreatedAt :: int
  ULastConnectedAt :: "int option"
  USessionVersion :: int

definition userFromRow :: "user_row \<Rightarrow> User" where
  "userFromRow u = \<lparr>UId = us_id u, UEmail = us_email u, UPasswordHash = us_hash u, UIsAdmin = us_admin u, UEnabled = us_enabled u,
     UCreatedAt = us_created u, ULastConnectedAt = us_connected u, USessionVersion = us_version u\<rparr>"

definition NormalizeEmail :: "(string \<Rightarrow> string) \<Rightarrow> string \<Rightarrow> string" where
  "NormalizeEmail toLower email = toLower (TrimSpace email)"

definition pg_InsertUser :: "uuid_parser \<Rightarrow> (string \<Rightarrow> string) \<Rightarrow> string \<Rightarrow> string \<Rightarrow> string \<Rightarrow> bool \<Rightarrow> bool \<Rightarrow> User arepo" where
  "pg_InsertUser uuid toLower i email hash is_admin enabled =
     bindE (mapErr (\<lambda>e. if e = UniqueViolation then StoreError (ErrResourceAlreadyExists ''user'' [NormalizeEmail toLower email])
         else StoreError (Wrapped (Msg ''failed to insert user into database: %w'' []) (DbError e)))
       (insertUser (ToPgUUID uuid i) (NormalizeEmail toLower email) hash is_admin enabled)) (\<lambda>u.
       ret \<lparr>UId = us_id u, UEmail = us_email u, UPasswordHash = [], UIsAdmin = us_admin u, UEnabled = us_enabled u, UCreatedAt = us_created u,
         ULastConnectedAt = None, USessionVersion = 0\<rparr>)"

definition user_lookup :: "string \<Rightarrow> user_row astmt \<Rightarrow> User arepo" where
  "user_lookup shown m = bindE (mapErr (\<lambda>e. if e = NoRows then StoreError (ErrResourceNotFound ''user'' [shown])
       else StoreError (Wrapped (Msg ''failed to retrieve user from database: %w'' []) (DbError e))) m) (\<lambda>u. ret (userFromRow u))"

definition pg_GetUserByEmail :: "(string \<Rightarrow> string) \<Rightarrow> string \<Rightarrow> User arepo" where
  "pg_GetUserByEmail toLower email = user_lookup (NormalizeEmail toLower email) (getUserByEmail (NormalizeEmail toLower email))"

definition pg_GetUserByID :: "uuid_parser \<Rightarrow> string \<Rightarrow> User arepo" where
  "pg_GetUserByID uuid i = user_lookup i (getUserByID (ToPgUUID uuid i))"

definition pg_GetUsers :: "User list arepo" where
  "pg_GetUsers = bindE (stored ''failed to retrieve users from database: %w'' getUsers) (\<lambda>rows.
     ret (map (\<lambda>u. (userFromRow u)\<lparr>UPasswordHash := [], USessionVersion := 0\<rparr>) rows))"

text \<open>The guarded writes match no row both for a missing user and for the last enabled admin; a lookup tells them apart.\<close>

definition guarded_write :: "uuid_parser \<Rightarrow> string \<Rightarrow> string \<Rightarrow> int astmt \<Rightarrow> unit arepo" where
  "guarded_write uuid text i m = bindE (stored text m) (\<lambda>rows.
     if rows = 0 then bindE (pg_GetUserByID uuid i) (\<lambda>_. throw ErrWouldLeaveNoAdmin) else ret ())"

definition pg_DeleteUserByID :: "uuid_parser \<Rightarrow> string \<Rightarrow> unit arepo" where
  "pg_DeleteUserByID uuid i = guarded_write uuid ''failed to delete user from database: %w'' i (deleteUserByID (ToPgUUID uuid i))"

definition pg_UpdateUserIsAdmin :: "uuid_parser \<Rightarrow> string \<Rightarrow> bool \<Rightarrow> unit arepo" where
  "pg_UpdateUserIsAdmin uuid i is_admin =
     guarded_write uuid ''failed to update user admin flag in database: %w'' i (updateUserIsAdminByID (ToPgUUID uuid i) is_admin)"

definition pg_UpdateUserEnabled :: "uuid_parser \<Rightarrow> string \<Rightarrow> bool \<Rightarrow> unit arepo" where
  "pg_UpdateUserEnabled uuid i enabled =
     guarded_write uuid ''failed to update user enabled flag in database: %w'' i (updateUserEnabledByID (ToPgUUID uuid i) enabled)"

definition plain_write :: "string \<Rightarrow> string \<Rightarrow> int astmt \<Rightarrow> unit arepo" where
  "plain_write text i m = bindE (stored text m) (\<lambda>rows. if rows = 0 then throw (StoreError (ErrResourceNotFound ''user'' [i])) else ret ())"

definition pg_UpdateUserPassword :: "uuid_parser \<Rightarrow> string \<Rightarrow> string \<Rightarrow> unit arepo" where
  "pg_UpdateUserPassword uuid i hash = plain_write ''failed to update user password in database: %w'' i (updateUserPasswordByID (ToPgUUID uuid i) hash)"

definition pg_BumpUserSessionVersion :: "uuid_parser \<Rightarrow> string \<Rightarrow> unit arepo" where
  "pg_BumpUserSessionVersion uuid i = plain_write ''failed to bump user session version in database: %w'' i (bumpUserSessionVersion (ToPgUUID uuid i))"

definition pg_TouchUserLastConnected :: "uuid_parser \<Rightarrow> string \<Rightarrow> unit arepo" where
  "pg_TouchUserLastConnected uuid i =
     bindE (stored ''failed to touch user last connection in database: %w'' (touchUserLastConnectedAt (ToPgUUID uuid i))) (\<lambda>_. ret ())"

section \<open>The refresh token repository\<close>

record RefreshToken =
  RtId :: string
  RtUserId :: string
  RtFamilyId :: string
  RtExpiresAt :: int
  RtUsedAt :: "int option"
  RtUsedRecently :: bool
  RtReplacedBy :: "string option"

definition refreshTokenFromRow :: "token_row \<Rightarrow> RefreshToken" where
  "refreshTokenFromRow t = \<lparr>RtId = tk_id t, RtUserId = tk_user t, RtFamilyId = tk_family t, RtExpiresAt = tk_expires t, RtUsedAt = tk_used t,
     RtUsedRecently = False, RtReplacedBy = tk_replaced t\<rparr>"

definition pg_InsertRefreshToken :: "uuid_parser \<Rightarrow> string \<Rightarrow> string \<Rightarrow> string \<Rightarrow> int \<Rightarrow> unit arepo" where
  "pg_InsertRefreshToken uuid i user family expires = stored ''failed to insert refresh token into database: %w''
     (insertRefreshToken (ToPgUUID uuid i) (ToPgUUID uuid user) (ToPgUUID uuid family) expires)"

text \<open>\<^verbatim>\<open>Engine.WithTx\<close> on the account tables.\<close>

definition AccountTx :: "(account_db, 'e, 'a) proc \<Rightarrow> (account_db, 'e, 'a) proc" where
  "AccountTx m d = (case m d of (Inl e, _) \<Rightarrow> (Inl e, d) | (Inr x, d') \<Rightarrow> (Inr x, d'))"

definition pg_RotateRefreshToken :: "uuid_parser \<Rightarrow> string \<Rightarrow> string \<Rightarrow> int \<Rightarrow> RefreshToken arepo" where
  "pg_RotateRefreshToken uuid oldId newId expires = AccountTx (
     bindE (mapErr (\<lambda>e. if e = NoRows then StoreError (ErrResourceNotFound ''refresh token'' [oldId])
         else StoreError (Wrapped (Msg ''failed to consume refresh token in database: %w'' []) (DbError e)))
       (consumeRefreshToken (ToPgUUID uuid newId) (ToPgUUID uuid oldId))) (\<lambda>row.
     bindE (stored ''failed to insert the rotated refresh token into database: %w''
       (insertRefreshToken (ToPgUUID uuid newId) (Some (tk_user row)) (Some (tk_family row)) expires)) (\<lambda>_.
     ret (refreshTokenFromRow row))))"

definition pg_GetRefreshToken :: "uuid_parser \<Rightarrow> string \<Rightarrow> int \<Rightarrow> RefreshToken arepo" where
  "pg_GetRefreshToken uuid i grace =
     bindE (mapErr (\<lambda>e. if e = NoRows then StoreError (ErrResourceNotFound ''refresh token'' [i])
         else StoreError (Wrapped (Msg ''failed to retrieve refresh token from database: %w'' []) (DbError e)))
       (getRefreshToken grace (ToPgUUID uuid i))) (\<lambda>(row, recently). ret ((refreshTokenFromRow row)\<lparr>RtUsedRecently := recently\<rparr>))"

definition pg_DeleteRefreshTokenFamily :: "uuid_parser \<Rightarrow> string \<Rightarrow> unit arepo" where
  "pg_DeleteRefreshTokenFamily uuid family =
     stored ''failed to delete refresh token family from database: %w'' (deleteRefreshTokenFamily (ToPgUUID uuid family))"

definition pg_DeleteExpiredRefreshTokens :: "uuid_parser \<Rightarrow> string \<Rightarrow> unit arepo" where
  "pg_DeleteExpiredRefreshTokens uuid user =
     stored ''failed to delete expired refresh tokens from database: %w'' (deleteExpiredRefreshTokensForUser (ToPgUUID uuid user))"

section \<open>Packages\<close>

text \<open>The third-party and library code the account services call: bcrypt, \<^verbatim>\<open>net/mail\<close>, \<^verbatim>\<open>strings.ToLower\<close> and the
  character classes of \<^verbatim>\<open>unicode\<close>.\<close>

record AuthPackages =
  GenerateFromPassword :: "string \<Rightarrow> string option"
  CompareHashAndPassword :: "string \<Rightarrow> string \<Rightarrow> bool"
  ParseAddress :: "string \<Rightarrow> string option"
  ToLower :: "string \<Rightarrow> string"
  IsUpper :: "nat \<Rightarrow> bool"
  IsLower :: "nat \<Rightarrow> bool"
  IsDigit :: "nat \<Rightarrow> bool"

definition PasswordPolicyMinLength :: nat where "PasswordPolicyMinLength = 8"

text \<open>The four flags after the loop over the characters.\<close>

definition policy_flags :: "AuthPackages \<Rightarrow> string \<Rightarrow> bool \<times> bool \<times> bool \<times> bool" where
  "policy_flags ap password =
     (let rs = runes password
      in (list_ex (IsUpper ap) rs, list_ex (\<lambda>r. \<not> IsUpper ap r \<and> IsLower ap r) rs,
          list_ex (\<lambda>r. \<not> IsUpper ap r \<and> \<not> IsLower ap r \<and> IsDigit ap r) rs,
          list_ex (\<lambda>r. \<not> IsUpper ap r \<and> \<not> IsLower ap r \<and> \<not> IsDigit ap r) rs))"

definition ValidatePasswordPolicy :: "AuthPackages \<Rightarrow> string \<Rightarrow> message option" where
  "ValidatePasswordPolicy ap password = (case policy_flags ap password of (hasUpper, hasLower, hasDigit, hasSpecial) \<Rightarrow>
     let missing = (if length (runes password) < PasswordPolicyMinLength then [''at least 8 characters''] else [])
         @ (if \<not> hasUpper then [''an uppercase letter''] else []) @ (if \<not> hasLower then [''a lowercase letter''] else [])
         @ (if \<not> hasDigit then [''a digit''] else []) @ (if \<not> hasSpecial then [''a special character''] else [])
     in if missing \<noteq> [] then Some (Msg ''password does not meet the policy, it needs %s'' [Join missing '', '']) else None)"

definition HashPassword :: "AuthPackages \<Rightarrow> string \<Rightarrow> ('s, string) aop" where
  "HashPassword ap password = (case GenerateFromPassword ap password of
     None \<Rightarrow> throw (AuthText (Msg ''failed to hash password: %w'' [])) | Some h \<Rightarrow> ret h)"

definition VerifyPassword :: "AuthPackages \<Rightarrow> string \<Rightarrow> string \<Rightarrow> bool" where
  "VerifyPassword ap hashedPassword password = CompareHashAndPassword ap hashedPassword password"

section \<open>The user service\<close>

record 's UserRepository =
  InsertUser :: "string \<Rightarrow> string \<Rightarrow> string \<Rightarrow> bool \<Rightarrow> bool \<Rightarrow> ('s, User) aop"
  GetUserByEmail :: "string \<Rightarrow> ('s, User) aop"
  GetUserByID :: "string \<Rightarrow> ('s, User) aop"
  GetUsers :: "('s, User list) aop"
  DeleteUserByID :: "string \<Rightarrow> ('s, unit) aop"
  UpdateUserPassword :: "string \<Rightarrow> string \<Rightarrow> ('s, unit) aop"
  UpdateUserIsAdmin :: "string \<Rightarrow> bool \<Rightarrow> ('s, unit) aop"
  UpdateUserEnabled :: "string \<Rightarrow> bool \<Rightarrow> ('s, unit) aop"
  BumpUserSessionVersion :: "string \<Rightarrow> ('s, unit) aop"
  TouchUserLastConnected :: "string \<Rightarrow> ('s, unit) aop"

record 's UserService =
  uvUserRepo :: "'s UserRepository option"
  uvSsoEnforced :: "('s \<Rightarrow> bool) option"
  uvOnAuditEvent :: "'s RecordFunc option"

definition sso_active :: "('s \<Rightarrow> bool) option \<Rightarrow> ('s, bool) aop" where
  "sso_active enforced = (case enforced of None \<Rightarrow> ret False | Some f \<Rightarrow> gets f)"

definition requireControlPlane :: "'s UserService \<Rightarrow> ('s UserRepository \<Rightarrow> ('s, 'a) aop) \<Rightarrow> ('s, 'a) aop" where
  "requireControlPlane uv f = (case uvUserRepo uv of None \<Rightarrow> throw ErrUsersRequireControlPlane | Some repo \<Rightarrow> f repo)"

definition lift_event :: "('s, unit) op \<Rightarrow> ('s, unit) aop" where
  "lift_event m = mapErr StoreError m"

definition recordUserEvent :: "'s UserService \<Rightarrow> Ctx \<Rightarrow> string \<Rightarrow> User \<Rightarrow> (string \<times> meta) list \<Rightarrow> ('s, unit) aop" where
  "recordUserEvent uv ctx action target metadata = lift_event (recordManagementEvent ctx (uvOnAuditEvent uv)
     ((new_event action ''user'' (UId target) [] metadata)\<lparr>TargetDisplay := UEmail target\<rparr>))"

definition GetUsersOp :: "'s UserService \<Rightarrow> ('s, User list) aop" where
  "GetUsersOp uv = requireControlPlane uv GetUsers"

definition GetMe :: "'s UserService \<Rightarrow> string \<Rightarrow> string \<Rightarrow> ('s, User) aop" where
  "GetMe uv userId email = (case uvUserRepo uv of
     None \<Rightarrow> ret \<lparr>UId = [], UEmail = email, UPasswordHash = [], UIsAdmin = True, UEnabled = True, UCreatedAt = 0, ULastConnectedAt = None, USessionVersion = 0\<rparr>
   | Some repo \<Rightarrow> GetUserByID repo userId)"

definition CreateUser :: "AuthPackages \<Rightarrow> 's UserService \<Rightarrow> Ctx \<Rightarrow> string \<Rightarrow> string \<Rightarrow> string \<Rightarrow> bool \<Rightarrow> ('s, User) aop" where
  "CreateUser ap uv ctx newId email password isAdmin = requireControlPlane uv (\<lambda>repo.
     bindE (sso_active (uvSsoEnforced uv)) (\<lambda>sso.
     if sso then throw ErrUserCreationDisabledBySSO
     else let normalizedEmail = NormalizeEmail (ToLower ap) email
       in if ParseAddress ap normalizedEmail \<noteq> Some normalizedEmail then throw (UserInputError (Msg ''invalid email address'' []))
       else case ValidatePasswordPolicy ap password of Some m \<Rightarrow> throw (UserInputError m) | None \<Rightarrow>
         bindE (HashPassword ap password) (\<lambda>passwordHash.
         bindE (InsertUser repo newId normalizedEmail passwordHash isAdmin True) (\<lambda>user.
         bindE (recordUserEvent uv ctx ''user.created'' user [(''is_admin'', MetaBool isAdmin)]) (\<lambda>_.
         ret user)))))"

text \<open>The target as an event names it: the row read before the write, or the bare id when it could not be read.\<close>

definition event_target :: "string \<Rightarrow> (auth_err, User) result \<Rightarrow> User" where
  "event_target targetUserId found = (case found of Inr u \<Rightarrow> u
     | Inl _ \<Rightarrow> \<lparr>UId = targetUserId, UEmail = targetUserId, UPasswordHash = [], UIsAdmin = False, UEnabled = False, UCreatedAt = 0,
         ULastConnectedAt = None, USessionVersion = 0\<rparr>)"

definition last_admin :: "('s, unit) aop \<Rightarrow> ('s, unit) aop" where
  "last_admin m = mapErr (\<lambda>e. if e = ErrWouldLeaveNoAdmin then ErrLastAdmin else e) m"

definition DeleteUser :: "'s UserService \<Rightarrow> Ctx \<Rightarrow> string \<Rightarrow> string \<Rightarrow> ('s, unit) aop" where
  "DeleteUser uv ctx actorUserId targetUserId = requireControlPlane uv (\<lambda>repo.
     if actorUserId = targetUserId then throw ErrCannotDeleteOwnAccount
     else bindE (attempt (GetUserByID repo targetUserId)) (\<lambda>target.
       bindE (last_admin (DeleteUserByID repo targetUserId)) (\<lambda>_.
       recordUserEvent uv ctx ''user.deleted'' (event_target targetUserId target) [])))"

definition SetUserAdmin :: "'s UserService \<Rightarrow> Ctx \<Rightarrow> string \<Rightarrow> string \<Rightarrow> bool \<Rightarrow> ('s, unit) aop" where
  "SetUserAdmin uv ctx actorUserId targetUserId isAdmin = requireControlPlane uv (\<lambda>repo.
     if actorUserId = targetUserId then throw ErrCannotChangeOwnAdminFlag
     else bindE (attempt (GetUserByID repo targetUserId)) (\<lambda>target.
       bindE (last_admin (UpdateUserIsAdmin repo targetUserId isAdmin)) (\<lambda>_.
       if (case target of Inr u \<Rightarrow> UIsAdmin u = isAdmin | Inl _ \<Rightarrow> False) then ret ()
       else recordUserEvent uv ctx (if isAdmin then ''user.admin_granted'' else ''user.admin_revoked'') (event_target targetUserId target) [])))"

definition SetUserEnabled :: "'s UserService \<Rightarrow> Ctx \<Rightarrow> string \<Rightarrow> string \<Rightarrow> bool \<Rightarrow> ('s, unit) aop" where
  "SetUserEnabled uv ctx actorUserId targetUserId enabled = requireControlPlane uv (\<lambda>repo.
     if actorUserId = targetUserId then throw ErrCannotDisableOwnAccount
     else bindE (attempt (GetUserByID repo targetUserId)) (\<lambda>target.
       bindE (last_admin (UpdateUserEnabled repo targetUserId enabled)) (\<lambda>_.
       if (case target of Inr u \<Rightarrow> UEnabled u = enabled | Inl _ \<Rightarrow> False) then ret ()
       else if enabled then recordUserEvent uv ctx ''user.approved'' (event_target targetUserId target) []
       else recordUserEvent uv ctx ''user.updated'' (event_target targetUserId target) [(''enabled'', MetaBool False)])))"

definition ChangePassword :: "AuthPackages \<Rightarrow> 's UserService \<Rightarrow> string \<Rightarrow> string \<Rightarrow> string \<Rightarrow> ('s, unit) aop" where
  "ChangePassword ap uv userId currentPassword newPassword = requireControlPlane uv (\<lambda>repo.
     bindE (GetUserByID repo userId) (\<lambda>user.
     if \<not> VerifyPassword ap (UPasswordHash user) currentPassword then throw ErrInvalidCurrentPassword
     else case ValidatePasswordPolicy ap newPassword of Some m \<Rightarrow> throw (UserInputError m) | None \<Rightarrow>
       bindE (HashPassword ap newPassword) (\<lambda>passwordHash.
       bindE (UpdateUserPassword repo userId passwordHash) (\<lambda>_.
       case uvOnAuditEvent uv of None \<Rightarrow> ret () | Some record \<Rightarrow>
         modify (record ((new_event ''user.password_changed'' ''user'' (UId user) [] [])\<lparr>ActorType := ''user'', ActorID := UId user,
           ActorDisplay := UEmail user, TargetDisplay := UEmail user, Outcome := ''success''\<rparr>))))))"

definition ResetPassword :: "AuthPackages \<Rightarrow> 's UserService \<Rightarrow> Ctx \<Rightarrow> string \<Rightarrow> string \<Rightarrow> string \<Rightarrow> ('s, unit) aop" where
  "ResetPassword ap uv ctx actorUserId targetUserId newPassword = requireControlPlane uv (\<lambda>repo.
     if actorUserId = targetUserId then throw ErrCannotResetOwnPassword
     else bindE (GetUserByID repo targetUserId) (\<lambda>target.
       if actorUserId = UId target then throw ErrCannotResetOwnPassword
       else bindE (sso_active (uvSsoEnforced uv)) (\<lambda>sso.
         if sso \<and> \<not> UIsAdmin target then throw ErrPasswordResetDisabledBySSO
         else case ValidatePasswordPolicy ap newPassword of Some m \<Rightarrow> throw (UserInputError m) | None \<Rightarrow>
           bindE (HashPassword ap newPassword) (\<lambda>passwordHash.
           bindE (UpdateUserPassword repo targetUserId passwordHash) (\<lambda>_.
           recordUserEvent uv ctx ''user.password_changed'' target [(''reset'', MetaBool True)])))))"

end
