(* ===== verification/Sessions.thy ===== *)
theory Sessions
  imports Accounts Manifest RateLimit
begin

text \<open>
  Dashboard sessions, \<^verbatim>\<open>dashboard_auth_service.go\<close>: sign-in, the session and refresh JWTs, the per-request check, and
  the rotation of refresh tokens with its replay detection.  \<^verbatim>\<open>golang-jwt\<close> is a parameter: \<^verbatim>\<open>SignedString\<close> of a secret and
  claims, and \<^verbatim>\<open>ParseWithClaims\<close> of the time, a secret and a token.  Times are nanoseconds; a claim's date is
  in seconds.
\<close>

section \<open>Claims\<close>

record sessionClaims =
  ClSubject :: string
  ClExpiresAt :: int
  ClIssuedAt :: int
  ClID :: string
  ClType :: string
  ClUserID :: string
  ClEmail :: string
  ClIsAdmin :: bool
  ClSessionVersion :: int
  ClPasswordVersion :: string

record JWTPackage =
  SignedString :: "string \<Rightarrow> sessionClaims \<Rightarrow> string option"
  ParseWithClaims :: "int \<Rightarrow> string \<Rightarrow> string \<Rightarrow> sessionClaims option"

definition NewNumericDate :: "int \<Rightarrow> int" where
  "NewNumericDate t = t div second"

definition GenerateJWTToken :: "JWTPackage \<Rightarrow> string \<Rightarrow> sessionClaims \<Rightarrow> ('s, string) aop" where
  "GenerateJWTToken jwt key claims = (case SignedString jwt key claims of
     None \<Rightarrow> throw (AuthText (Msg ''error while generating the jwt token: %w'' [])) | Some t \<Rightarrow> ret t)"

definition DecodeAndExtractJWTToken :: "JWTPackage \<Rightarrow> ('s \<Rightarrow> int) \<Rightarrow> string \<Rightarrow> string \<Rightarrow> ('s, sessionClaims) aop" where
  "DecodeAndExtractJWTToken jwt now key tokenString = bindE (gets now) (\<lambda>t. case ParseWithClaims jwt t key tokenString of
     None \<Rightarrow> throw (AuthText (Msg ''token is invalid'' [])) | Some claims \<Rightarrow> ret claims)"

definition dashboardSubject :: string where "dashboardSubject = ''admin-dashboard''"
definition sessionTokenTTL :: int where "sessionTokenTTL = 2 * 60 * 60 * second"
definition refreshTokenTTL :: int where "refreshTokenTTL = 7 * 24 * 60 * 60 * second"
definition refreshReplayGrace :: int where "refreshReplayGrace = 30 * second"

section \<open>The service\<close>

record 's RefreshTokenRepository =
  InsertRefreshToken :: "string \<Rightarrow> string \<Rightarrow> string \<Rightarrow> int \<Rightarrow> ('s, unit) aop"
  RotateRefreshToken :: "string \<Rightarrow> string \<Rightarrow> int \<Rightarrow> ('s, RefreshToken) aop"
  GetRefreshToken :: "string \<Rightarrow> int \<Rightarrow> ('s, RefreshToken) aop"
  DeleteRefreshTokenFamily :: "string \<Rightarrow> ('s, unit) aop"
  DeleteExpiredRefreshTokens :: "string \<Rightarrow> ('s, unit) aop"

text \<open>The service with what it reads from the process: \<^verbatim>\<open>ADMIN_EMAIL\<close> and \<^verbatim>\<open>ADMIN_PASSWORD\<close>, and the clock.\<close>

record 's DashboardAuthService =
  daSecret :: string
  daUserRepo :: "'s UserRepository option"
  daRefreshTokens :: "'s RefreshTokenRepository option"
  daOnAuditEvent :: "'s RecordFunc option"
  daSsoEnforced :: "('s \<Rightarrow> bool) option"
  daAdminEmail :: string
  daAdminPassword :: string
  daNow :: "'s \<Rightarrow> int"

record DashboardSession =
  SessionToken :: string
  SessionRefreshToken :: string

definition statelessPasswordVersion :: "(string \<Rightarrow> string) \<Rightarrow> 's DashboardAuthService \<Rightarrow> string" where
  "statelessPasswordVersion sha da = hex_encode (take 8 (sha (daAdminPassword da)))"

definition statelessClaimsAreCurrent :: "(string \<Rightarrow> string) \<Rightarrow> 's DashboardAuthService \<Rightarrow> sessionClaims \<Rightarrow> bool" where
  "statelessClaimsAreCurrent sha da claims \<longleftrightarrow>
     (if daUserRepo da \<noteq> None then True else ClPasswordVersion claims = statelessPasswordVersion sha da)"

definition statelessPasswordVersionClaim :: "(string \<Rightarrow> string) \<Rightarrow> 's DashboardAuthService \<Rightarrow> string" where
  "statelessPasswordVersionClaim sha da = (if daUserRepo da = None then statelessPasswordVersion sha da else [])"

definition session_claims :: "(string \<Rightarrow> string) \<Rightarrow> 's DashboardAuthService \<Rightarrow> int \<Rightarrow> DashboardPrincipal \<Rightarrow> sessionClaims" where
  "session_claims sha da now p =
     \<lparr>ClSubject = dashboardSubject, ClExpiresAt = NewNumericDate (now + sessionTokenTTL), ClIssuedAt = NewNumericDate now, ClID = [],
      ClType = ''token'', ClUserID = PrUserId p, ClEmail = PrEmail p, ClIsAdmin = PrIsAdmin p, ClSessionVersion = PrSessionVersion p,
      ClPasswordVersion = statelessPasswordVersionClaim sha da\<rparr>"

definition generateSessionToken :: "JWTPackage \<Rightarrow> (string \<Rightarrow> string) \<Rightarrow> 's DashboardAuthService \<Rightarrow> DashboardPrincipal \<Rightarrow> ('s, string) aop" where
  "generateSessionToken jwt sha da p = bindE (gets (daNow da)) (\<lambda>now. GenerateJWTToken jwt (daSecret da) (session_claims sha da now p))"

definition refresh_claims :: "(string \<Rightarrow> string) \<Rightarrow> 's DashboardAuthService \<Rightarrow> int \<Rightarrow> DashboardPrincipal \<Rightarrow> string \<Rightarrow> int \<Rightarrow> sessionClaims" where
  "refresh_claims sha da now p tokenId expiresAt =
     \<lparr>ClSubject = dashboardSubject, ClExpiresAt = NewNumericDate expiresAt, ClIssuedAt = NewNumericDate now, ClID = tokenId,
      ClType = ''refreshToken'', ClUserID = PrUserId p, ClEmail = PrEmail p, ClIsAdmin = False, ClSessionVersion = PrSessionVersion p,
      ClPasswordVersion = statelessPasswordVersionClaim sha da\<rparr>"

definition generateRefreshToken :: "JWTPackage \<Rightarrow> (string \<Rightarrow> string) \<Rightarrow> 's DashboardAuthService \<Rightarrow> DashboardPrincipal \<Rightarrow> string \<Rightarrow> int \<Rightarrow> ('s, string) aop" where
  "generateRefreshToken jwt sha da p tokenId expiresAt =
     bindE (gets (daNow da)) (\<lambda>now. GenerateJWTToken jwt (daSecret da) (refresh_claims sha da now p tokenId expiresAt))"

definition issueSessionPair :: "JWTPackage \<Rightarrow> (string \<Rightarrow> string) \<Rightarrow> 's DashboardAuthService \<Rightarrow> DashboardPrincipal \<Rightarrow> string \<Rightarrow> int \<Rightarrow> ('s, DashboardSession) aop" where
  "issueSessionPair jwt sha da p tokenId expiresAt =
     bindE (generateSessionToken jwt sha da p) (\<lambda>token.
     bindE (generateRefreshToken jwt sha da p tokenId expiresAt) (\<lambda>refreshToken.
     ret \<lparr>SessionToken = token, SessionRefreshToken = refreshToken\<rparr>))"

text \<open>A new chain of refresh tokens; the two drawn identifiers are arguments.  A failed purge is only logged.\<close>

definition startSession :: "JWTPackage \<Rightarrow> (string \<Rightarrow> string) \<Rightarrow> 's DashboardAuthService \<Rightarrow> string \<Rightarrow> string \<Rightarrow> DashboardPrincipal \<Rightarrow> ('s, DashboardSession) aop" where
  "startSession jwt sha da tokenId familyId p = bindE (gets (daNow da)) (\<lambda>now.
     let expiresAt = now + refreshTokenTTL
     in case daRefreshTokens da of
          None \<Rightarrow> issueSessionPair jwt sha da p [] expiresAt
        | Some ledger \<Rightarrow>
            bindE (mapErr (\<lambda>_. ErrAuthUnavailable) (InsertRefreshToken ledger tokenId (PrUserId p) familyId expiresAt)) (\<lambda>_.
            bindE (attempt (DeleteExpiredRefreshTokens ledger (PrUserId p))) (\<lambda>_.
            issueSessionPair jwt sha da p tokenId expiresAt)))"

section \<open>Signing in\<close>

definition resolveStatelessPrincipal :: "AuthPackages \<Rightarrow> 's DashboardAuthService \<Rightarrow> string \<Rightarrow> string option \<Rightarrow> ('s, DashboardPrincipal) aop" where
  "resolveStatelessPrincipal ap da email password =
     (let adminEmail = NormalizeEmail (ToLower ap) (daAdminEmail da)
      in if adminEmail = [] then throw ErrAdminEmailNotSet
         else if daAdminPassword da = [] then throw (AuthText (Msg ''admin password is not set, all requests will be rejected'' []))
         else if NormalizeEmail (ToLower ap) email \<noteq> adminEmail then throw (AuthText (Msg ''invalid credentials'' []))
         else if (case password of None \<Rightarrow> False | Some p \<Rightarrow> p \<noteq> daAdminPassword da) then throw (AuthText (Msg ''invalid credentials'' []))
         else ret \<lparr>PrUserId = [], PrEmail = adminEmail, PrIsAdmin = True, PrSessionVersion = 0\<rparr>)"

definition user_principal :: "User \<Rightarrow> DashboardPrincipal" where
  "user_principal u = \<lparr>PrUserId = UId u, PrEmail = UEmail u, PrIsAdmin = UIsAdmin u, PrSessionVersion = USessionVersion u\<rparr>"

definition principalForUser :: "'s UserRepository \<Rightarrow> User \<Rightarrow> ('s, DashboardPrincipal) aop" where
  "principalForUser repo user =
     (if \<not> UEnabled user then throw ErrAccountPendingApproval
      else bindE (attempt (TouchUserLastConnected repo (UId user))) (\<lambda>_. ret (user_principal user)))"

text \<open>The bcrypt comparison with a throwaway hash only takes time.\<close>

definition resolveLoginPrincipal :: "AuthPackages \<Rightarrow> 's DashboardAuthService \<Rightarrow> string \<Rightarrow> string \<Rightarrow> ('s, DashboardPrincipal) aop" where
  "resolveLoginPrincipal ap da email password = (case daUserRepo da of
     None \<Rightarrow> resolveStatelessPrincipal ap da email (Some password)
   | Some repo \<Rightarrow>
       bindE (mapErr (\<lambda>e. if is_not_found e then AuthText (Msg ''invalid credentials'' []) else ErrAuthUnavailable) (GetUserByEmail repo email)) (\<lambda>user.
       if UPasswordHash user = [] then throw (AuthText (Msg ''invalid credentials'' []))
       else if \<not> VerifyPassword ap (UPasswordHash user) password then throw (AuthText (Msg ''invalid credentials'' []))
       else bindE (sso_active (daSsoEnforced da)) (\<lambda>sso.
         if sso \<and> \<not> UIsAdmin user then throw ErrPasswordLoginDisabledBySSO
         else principalForUser repo user)))"

definition resolveRefreshPrincipal :: "'s UserRepository \<Rightarrow> string \<Rightarrow> ('s, DashboardPrincipal) aop" where
  "resolveRefreshPrincipal repo userId =
     (if userId = [] then throw (AuthText (Msg ''invalid token'' []))
      else bindE (mapErr (\<lambda>e. if is_not_found e then AuthText (Msg ''invalid credentials'' []) else ErrAuthUnavailable) (GetUserByID repo userId)) (\<lambda>user.
        principalForUser repo user))"

definition login_event :: "string \<Rightarrow> string \<Rightarrow> string \<Rightarrow> (string \<times> meta) list \<Rightarrow> Event" where
  "login_event actor display outcome metadata = (new_event ''user.login'' ''user'' actor [] metadata)
     \<lparr>ActorType := ''user'', ActorID := actor, ActorDisplay := display, TargetDisplay := display, Outcome := outcome\<rparr>"

definition recordLoginSuccess :: "'s DashboardAuthService \<Rightarrow> DashboardPrincipal \<Rightarrow> ('s, unit) aop" where
  "recordLoginSuccess da p = (case daOnAuditEvent da of None \<Rightarrow> ret ()
     | Some record \<Rightarrow> modify (record (login_event (PrUserId p) (PrEmail p) ''success'' [])))"

definition recordLoginFailure :: "'s DashboardAuthService \<Rightarrow> string \<Rightarrow> auth_err \<Rightarrow> ('s, unit) aop" where
  "recordLoginFailure da email e = (case daOnAuditEvent da of None \<Rightarrow> ret ()
     | Some record \<Rightarrow> if e = ErrAuthUnavailable \<or> e = ErrAdminEmailNotSet then ret ()
         else modify (record (login_event [] email ''failure'' [(''reason'', MetaText
           (if e = ErrPasswordLoginDisabledBySSO then ''sso_enforced'' else if e = ErrAccountPendingApproval then ''pending_approval''
            else ''invalid_credentials''))])))"

definition LoginWithEmailPassword :: "AuthPackages \<Rightarrow> JWTPackage \<Rightarrow> (string \<Rightarrow> string) \<Rightarrow> 's DashboardAuthService \<Rightarrow> string \<Rightarrow> string \<Rightarrow> string \<Rightarrow> string
    \<Rightarrow> ('s, DashboardSession) aop" where
  "LoginWithEmailPassword ap jwt sha da tokenId familyId email password =
     bindE (attempt (resolveLoginPrincipal ap da email password)) (\<lambda>r. case r of
       Inl e \<Rightarrow> bindE (recordLoginFailure da email e) (\<lambda>_. throw e)
     | Inr p \<Rightarrow> bindE (recordLoginSuccess da p) (\<lambda>_. startSession jwt sha da tokenId familyId p))"

definition IssueSession :: "JWTPackage \<Rightarrow> (string \<Rightarrow> string) \<Rightarrow> 's DashboardAuthService \<Rightarrow> string \<Rightarrow> string \<Rightarrow> User \<Rightarrow> ('s, DashboardSession) aop" where
  "IssueSession jwt sha da tokenId familyId user = (case daUserRepo da of
     None \<Rightarrow> throw (AuthText (Msg ''sessions can only be issued for database-backed accounts'' []))
   | Some repo \<Rightarrow> bindE (principalForUser repo user) (\<lambda>p. startSession jwt sha da tokenId familyId p))"

section \<open>Checking a session\<close>

definition ValidateSession :: "JWTPackage \<Rightarrow> (string \<Rightarrow> string) \<Rightarrow> 's DashboardAuthService \<Rightarrow> string \<Rightarrow> ('s, DashboardPrincipal) aop" where
  "ValidateSession jwt sha da tokenString =
     bindE (DecodeAndExtractJWTToken jwt (daNow da) (daSecret da) tokenString) (\<lambda>claims.
     if ClType claims \<noteq> ''token'' then throw (AuthText (Msg ''invalid token type'' []))
     else if ClSubject claims \<noteq> dashboardSubject then throw (AuthText (Msg ''invalid token subject'' []))
     else if \<not> statelessClaimsAreCurrent sha da claims then throw ErrSessionRevoked
     else ret \<lparr>PrUserId = ClUserID claims, PrEmail = ClEmail claims, PrIsAdmin = ClIsAdmin claims, PrSessionVersion = ClSessionVersion claims\<rparr>)"

definition AuthenticateSession :: "JWTPackage \<Rightarrow> (string \<Rightarrow> string) \<Rightarrow> 's DashboardAuthService \<Rightarrow> string \<Rightarrow> ('s, DashboardPrincipal) aop" where
  "AuthenticateSession jwt sha da tokenString =
     bindE (ValidateSession jwt sha da tokenString) (\<lambda>p. case daUserRepo da of
       None \<Rightarrow> ret p
     | Some repo \<Rightarrow>
         if PrUserId p = [] then throw ErrSessionRevoked
         else bindE (mapErr (\<lambda>e. if is_not_found e then ErrSessionRevoked else ErrAuthUnavailable) (GetUserByID repo (PrUserId p))) (\<lambda>user.
           if \<not> UEnabled user \<or> USessionVersion user \<noteq> PrSessionVersion p then throw ErrSessionRevoked
           else ret (user_principal user)))"

section \<open>Refreshing a session\<close>

text \<open>What becomes of a token the rotation refused.\<close>

definition refused_rotation :: "JWTPackage \<Rightarrow> (string \<Rightarrow> string) \<Rightarrow> 's DashboardAuthService \<Rightarrow> 's UserRepository \<Rightarrow> 's RefreshTokenRepository
    \<Rightarrow> DashboardPrincipal \<Rightarrow> string \<Rightarrow> ('s, DashboardSession) aop" where
  "refused_rotation jwt sha da repo ledger p spentId =
     (let lookup = (\<lambda>i. mapErr (\<lambda>e. if is_not_found e then ErrSessionRevoked else ErrAuthUnavailable) (GetRefreshToken ledger i refreshReplayGrace))
      in bindE (lookup spentId) (\<lambda>spent.
        if RtUsedAt spent = None then throw ErrSessionRevoked
        else case (RtUsedRecently spent, RtReplacedBy spent) of
          (True, Some successorId) \<Rightarrow> bindE (lookup successorId) (\<lambda>successor.
            if RtUsedAt successor \<noteq> None then throw ErrSessionRevoked
            else issueSessionPair jwt sha da p (RtId successor) (RtExpiresAt successor))
        | _ \<Rightarrow>
            bindE (attempt (DeleteRefreshTokenFamily ledger (RtFamilyId spent))) (\<lambda>_.
            bindE (attempt (BumpUserSessionVersion repo (PrUserId p))) (\<lambda>_.
            throw ErrRefreshTokenReuse))))"

definition RefreshSession :: "AuthPackages \<Rightarrow> JWTPackage \<Rightarrow> (string \<Rightarrow> string) \<Rightarrow> 's DashboardAuthService \<Rightarrow> string \<Rightarrow> string \<Rightarrow> string \<Rightarrow> ('s, DashboardSession) aop" where
  "RefreshSession ap jwt sha da newId familyId tokenString =
     bindE (DecodeAndExtractJWTToken jwt (daNow da) (daSecret da) tokenString) (\<lambda>claims.
     if ClType claims \<noteq> ''refreshToken'' then throw (AuthText (Msg ''invalid token type'' []))
     else if ClSubject claims \<noteq> dashboardSubject then throw (AuthText (Msg ''invalid token subject'' []))
     else case daUserRepo da of
       None \<Rightarrow> if \<not> statelessClaimsAreCurrent sha da claims then throw ErrSessionRevoked
         else bindE (resolveStatelessPrincipal ap da (ClEmail claims) None) (\<lambda>p. startSession jwt sha da newId familyId p)
     | Some repo \<Rightarrow>
         bindE (resolveRefreshPrincipal repo (ClUserID claims)) (\<lambda>p.
         if PrSessionVersion p \<noteq> ClSessionVersion claims then throw ErrSessionRevoked
         else case daRefreshTokens da of
           None \<Rightarrow> startSession jwt sha da newId familyId p
         | Some ledger \<Rightarrow>
             if ClID claims = [] then throw ErrSessionRevoked
             else bindE (gets (daNow da)) (\<lambda>now.
               bindE (attempt (RotateRefreshToken ledger (ClID claims) newId (now + refreshTokenTTL))) (\<lambda>rotated. case rotated of
                 Inr _ \<Rightarrow> bindE (attempt (DeleteExpiredRefreshTokens ledger (PrUserId p))) (\<lambda>_.
                   issueSessionPair jwt sha da p newId (now + refreshTokenTTL))
               | Inl e \<Rightarrow> if \<not> is_not_found e then throw ErrAuthUnavailable
                   else refused_rotation jwt sha da repo ledger p (ClID claims)))))"

end
