(* ===== verification/Revocation.thy ===== *)
theory Revocation
  imports Sessions
begin

text \<open>
  Accounts and sessions on a server process.  An enabled admin always remains; a change of password, a revoked right or
  a deletion ends every session of the account for good; a family of refresh tokens has one live token, and
  presenting a spent one again ends every session of the account.
\<close>

section \<open>The process\<close>

record auth_world =
  adb :: account_db
  aclock :: int
  aaudit :: "Event list"

definition on_accounts :: "(account_db, 'e, 'a) proc \<Rightarrow> (auth_world, 'e, 'a) proc" where
  "on_accounts m w = (case m (adb w) of (r, d) \<Rightarrow> (r, w\<lparr>adb := d\<rparr>))"

definition auth_record :: "auth_world RecordFunc" where
  "auth_record e w = w\<lparr>aaudit := aaudit w @ [e]\<rparr>"

definition pg_user_repository :: "uuid_parser \<Rightarrow> AuthPackages \<Rightarrow> auth_world UserRepository" where
  "pg_user_repository uuid ap =
     \<lparr>InsertUser = (\<lambda>i e h a n. on_accounts (pg_InsertUser uuid (ToLower ap) i e h a n)),
      GetUserByEmail = (\<lambda>e. on_accounts (pg_GetUserByEmail (ToLower ap) e)), GetUserByID = (\<lambda>i. on_accounts (pg_GetUserByID uuid i)),
      GetUsers = on_accounts pg_GetUsers, DeleteUserByID = (\<lambda>i. on_accounts (pg_DeleteUserByID uuid i)),
      UpdateUserPassword = (\<lambda>i h. on_accounts (pg_UpdateUserPassword uuid i h)),
      UpdateUserIsAdmin = (\<lambda>i a. on_accounts (pg_UpdateUserIsAdmin uuid i a)),
      UpdateUserEnabled = (\<lambda>i n. on_accounts (pg_UpdateUserEnabled uuid i n)),
      BumpUserSessionVersion = (\<lambda>i. on_accounts (pg_BumpUserSessionVersion uuid i)),
      TouchUserLastConnected = (\<lambda>i. on_accounts (pg_TouchUserLastConnected uuid i))\<rparr>"

definition pg_ledger :: "uuid_parser \<Rightarrow> auth_world RefreshTokenRepository" where
  "pg_ledger uuid =
     \<lparr>InsertRefreshToken = (\<lambda>i u f t. on_accounts (pg_InsertRefreshToken uuid i u f t)),
      RotateRefreshToken = (\<lambda>i n t. on_accounts (pg_RotateRefreshToken uuid i n t)),
      GetRefreshToken = (\<lambda>i g. on_accounts (pg_GetRefreshToken uuid i g)),
      DeleteRefreshTokenFamily = (\<lambda>f. on_accounts (pg_DeleteRefreshTokenFamily uuid f)),
      DeleteExpiredRefreshTokens = (\<lambda>u. on_accounts (pg_DeleteExpiredRefreshTokens uuid u))\<rparr>"

definition pg_users :: "uuid_parser \<Rightarrow> AuthPackages \<Rightarrow> (auth_world \<Rightarrow> bool) option \<Rightarrow> auth_world UserService" where
  "pg_users uuid ap sso = \<lparr>uvUserRepo = Some (pg_user_repository uuid ap), uvSsoEnforced = sso, uvOnAuditEvent = Some auth_record\<rparr>"

definition pg_auth :: "uuid_parser \<Rightarrow> AuthPackages \<Rightarrow> string \<Rightarrow> (auth_world \<Rightarrow> bool) option \<Rightarrow> auth_world DashboardAuthService" where
  "pg_auth uuid ap key sso = \<lparr>daSecret = key, daUserRepo = Some (pg_user_repository uuid ap), daRefreshTokens = Some (pg_ledger uuid),
     daOnAuditEvent = Some auth_record, daSsoEnforced = sso, daAdminEmail = [], daAdminPassword = [], daNow = aclock\<rparr>"

lemma auth_fields [simp]:
  "uvUserRepo (pg_users uuid ap sso) = Some (pg_user_repository uuid ap)" "uvSsoEnforced (pg_users uuid ap sso) = sso"
  "uvOnAuditEvent (pg_users uuid ap sso) = Some auth_record"
  "daSecret (pg_auth uuid ap key sso) = key" "daUserRepo (pg_auth uuid ap key sso) = Some (pg_user_repository uuid ap)"
  "daRefreshTokens (pg_auth uuid ap key sso) = Some (pg_ledger uuid)" "daOnAuditEvent (pg_auth uuid ap key sso) = Some auth_record"
  "daSsoEnforced (pg_auth uuid ap key sso) = sso" "daNow (pg_auth uuid ap key sso) = aclock"
  by (simp_all add: pg_users_def pg_auth_def)

text \<open>The operations of a server on its accounts, and the passing of time.\<close>

inductive account_step :: "uuid_parser \<Rightarrow> AuthPackages \<Rightarrow> JWTPackage \<Rightarrow> string set \<Rightarrow> auth_world \<Rightarrow> auth_world \<Rightarrow> bool"
  for uuid :: uuid_parser and ap :: AuthPackages and jwt :: JWTPackage and new :: "string set" where
  create_user: "uuid newId = Some i \<Longrightarrow> i \<in> new \<Longrightarrow> account_step uuid ap jwt new w (snd (CreateUser ap (pg_users uuid ap sso) ctx newId email password isAdmin w))"
| delete_user: "account_step uuid ap jwt new w (snd (DeleteUser (pg_users uuid ap sso) ctx actor target w))"
| set_admin: "account_step uuid ap jwt new w (snd (SetUserAdmin (pg_users uuid ap sso) ctx actor target a w))"
| set_enabled: "account_step uuid ap jwt new w (snd (SetUserEnabled (pg_users uuid ap sso) ctx actor target n w))"
| change_password: "account_step uuid ap jwt new w (snd (ChangePassword ap (pg_users uuid ap sso) user current fresh w))"
| reset_password: "account_step uuid ap jwt new w (snd (ResetPassword ap (pg_users uuid ap sso) ctx actor target fresh w))"
| login: "uuid familyId = Some f \<Longrightarrow> f \<notin> tk_family ` set (tokens (adb w)) \<Longrightarrow>
    account_step uuid ap jwt new w (snd (LoginWithEmailPassword ap jwt sha (pg_auth uuid ap key sso) tokenId familyId email password w))"
| issue: "uuid familyId = Some f \<Longrightarrow> f \<notin> tk_family ` set (tokens (adb w)) \<Longrightarrow>
    account_step uuid ap jwt new w (snd (IssueSession jwt sha (pg_auth uuid ap key sso) tokenId familyId user w))"
| refresh: "account_step uuid ap jwt new w (snd (RefreshSession ap jwt sha (pg_auth uuid ap key sso) newId familyId token w))"
| authenticate: "account_step uuid ap jwt new w (snd (AuthenticateSession jwt sha (pg_auth uuid ap key sso) token w))"
| pass: "0 \<le> t \<Longrightarrow> account_step uuid ap jwt new w (w\<lparr>adb := adb w\<lparr>account_now := account_now (adb w) + t\<rparr>, aclock := aclock w + t'\<rparr>)"

abbreviation account_steps :: "uuid_parser \<Rightarrow> AuthPackages \<Rightarrow> JWTPackage \<Rightarrow> string set \<Rightarrow> auth_world \<Rightarrow> auth_world \<Rightarrow> bool" where
  "account_steps uuid ap jwt new \<equiv> (account_step uuid ap jwt new)\<^sup>*\<^sup>*"

section \<open>Running statements\<close>

lemma account_write_run: "account_write f d = (if account_ok (fst (f d)) then (Inr (snd (f d)), fst (f d)) else (Inl (account_error (fst (f d))), d))"
  by (simp add: account_write_def)

lemma keeps_account_write:
  assumes "\<And>d. P d \<Longrightarrow> account_ok (fst (f d)) \<Longrightarrow> P (fst (f d))"
  shows "keeps P (account_write f)"
  using assms by (simp add: keeps_def account_write_def)

lemma keeps_account_read [simp, intro]: "keeps P (account_read f)"
  by (auto simp: keeps_def account_read_def split: option.split)

lemma keeps_on_accounts: "keeps P m \<Longrightarrow> keeps (\<lambda>w. P (adb w)) (on_accounts m)"
  by (auto simp: keeps_def on_accounts_def split: prod.split)

lemma keeps_modify: "(\<And>s. P s \<Longrightarrow> P (f s)) \<Longrightarrow> keeps P (modify f)"
  by (simp add: keeps_def)

lemma keeps_stored [intro]: "keeps P m \<Longrightarrow> keeps P (stored text m)"
  unfolding stored_def by auto

lemma keeps_reads [simp, intro]:
  "keeps P (pg_GetUserByID uuid i)" "keeps P (pg_GetUserByEmail toLower e)" "keeps P pg_GetUsers" "keeps P (pg_GetRefreshToken uuid i g)"
  unfolding pg_GetUserByID_def pg_GetUserByEmail_def user_lookup_def getUserByID_def getUserByEmail_def pg_GetUsers_def stored_def getUsers_def
    pg_GetRefreshToken_def getRefreshToken_def
  by (auto intro!: keeps_bindE split: prod.split)

lemma keeps_guarded: "keeps P m \<Longrightarrow> keeps P (guarded_write uuid text i m)" and keeps_plain: "keeps P m \<Longrightarrow> keeps P (plain_write text i m)"
  unfolding guarded_write_def plain_write_def by (auto intro!: keeps_bindE)

lemma keeps_AccountTx: "keeps P m \<Longrightarrow> keeps P (AccountTx m)"
  by (fastforce simp: keeps_def AccountTx_def split: prod.split sum.split)

lemma keeps_conj: "keeps P m \<Longrightarrow> keeps Q m \<Longrightarrow> keeps (\<lambda>s. P s \<and> Q s) m"
  by (simp add: keeps_def)

text \<open>An operation that leads from states with one property to states with another.\<close>

definition leads :: "('s \<Rightarrow> bool) \<Rightarrow> ('s \<Rightarrow> bool) \<Rightarrow> ('s, 'e, 'a) proc \<Rightarrow> bool" where
  "leads Q P m \<longleftrightarrow> (\<forall>s. Q s \<longrightarrow> P (snd (m s)))"

lemma leads_keeps: "keeps P m \<Longrightarrow> (\<And>s. Q s \<Longrightarrow> P s) \<Longrightarrow> leads Q P m"
  by (simp add: leads_def keeps_def)

lemma leads_first: "keeps Q m \<Longrightarrow> (\<And>s. Q s \<Longrightarrow> P s) \<Longrightarrow> (\<And>x. leads Q P (k x)) \<Longrightarrow> leads Q P (bindE m k)"
  unfolding leads_def keeps_def bindE_def by (fastforce split: prod.split sum.split)

lemma leads_then: "leads Q P m \<Longrightarrow> (\<And>x. keeps P (k x)) \<Longrightarrow> leads Q P (bindE m k)"
  unfolding leads_def keeps_def bindE_def by (fastforce split: prod.split sum.split)

lemma leads_mapErr: "leads Q P m \<Longrightarrow> leads Q P (mapErr f m)"
  unfolding leads_def mapErr_def by (fastforce split: prod.split sum.split)

section \<open>Invariants of the account tables\<close>

text \<open>What a predicate on the tables has to satisfy to hold on a server for good: every write of the repositories
  keeps it.  A new account has an identifier of \<^verbatim>\<open>new\<close>, a new chain of refresh tokens a fresh family.\<close>

locale account_invariant =
  fixes P :: "account_db \<Rightarrow> bool" and uuid :: uuid_parser and new :: "string set"
  assumes inserts_user: "i \<in> new \<Longrightarrow> keeps P (insertUser (Some i) email hash a n)"
    and deletes_user: "keeps P (deleteUserByID j)"
    and sets_password: "keeps P (updateUserPasswordByID j hash)"
    and sets_admin: "keeps P (updateUserIsAdminByID j a)"
    and sets_enabled: "keeps P (updateUserEnabledByID j n)"
    and bumps: "keeps P (bumpUserSessionVersion j)"
    and touches: "keeps P (touchUserLastConnectedAt j)"
    and starts_family: "P d \<Longrightarrow> f \<notin> tk_family ` set (tokens d) \<Longrightarrow> P (snd (insertRefreshToken k j (Some f) t d))"
    and rotates: "keeps P (pg_RotateRefreshToken uuid old next t)"
    and deletes_family: "keeps P (deleteRefreshTokenFamily g)"
    and deletes_expired: "keeps P (deleteExpiredRefreshTokensForUser j)"
    and passes: "P d \<Longrightarrow> 0 \<le> t \<Longrightarrow> P (d\<lparr>account_now := account_now d + t\<rparr>)"
begin

abbreviation holds :: "auth_world \<Rightarrow> bool" where
  "holds w \<equiv> P (adb w)"

lemma repository_keeps:
  "i \<in> new \<Longrightarrow> uuid x = Some i \<Longrightarrow> keeps holds (InsertUser (pg_user_repository uuid ap) x e h a n)"
  "keeps holds (GetUserByEmail (pg_user_repository uuid ap) e)" "keeps holds (GetUserByID (pg_user_repository uuid ap) y)"
  "keeps holds (DeleteUserByID (pg_user_repository uuid ap) y)" "keeps holds (UpdateUserPassword (pg_user_repository uuid ap) y h)"
  "keeps holds (UpdateUserIsAdmin (pg_user_repository uuid ap) y a)" "keeps holds (UpdateUserEnabled (pg_user_repository uuid ap) y n)"
  "keeps holds (BumpUserSessionVersion (pg_user_repository uuid ap) y)" "keeps holds (TouchUserLastConnected (pg_user_repository uuid ap) y)"
  "keeps holds (RotateRefreshToken (pg_ledger uuid) y z t)" "keeps holds (GetRefreshToken (pg_ledger uuid) y t)"
  "keeps holds (DeleteRefreshTokenFamily (pg_ledger uuid) y)" "keeps holds (DeleteExpiredRefreshTokens (pg_ledger uuid) y)"
  using inserts_user deletes_user sets_password sets_admin sets_enabled bumps touches rotates deletes_family deletes_expired
  by (auto simp: pg_user_repository_def pg_ledger_def pg_InsertUser_def pg_DeleteUserByID_def pg_UpdateUserPassword_def pg_UpdateUserIsAdmin_def
      pg_UpdateUserEnabled_def pg_BumpUserSessionVersion_def pg_TouchUserLastConnected_def pg_DeleteRefreshTokenFamily_def
      pg_DeleteExpiredRefreshTokens_def ToPgUUID_def intro!: keeps_on_accounts keeps_guarded keeps_plain keeps_bindE keeps_mapErr keeps_stored)

lemma event_keeps: "keeps holds (recordUserEvent (pg_users uuid ap sso) ctx action target metadata)"
  by (auto simp: recordUserEvent_def lift_event_def recordManagementEvent_def auth_record_def intro!: keeps_mapErr keeps_modify split: prod.split)

lemma sso_keeps: "keeps holds (sso_active sso)"
  by (auto simp: sso_active_def split: option.split)

lemma hash_keeps: "keeps holds (HashPassword ap password)"
  by (auto simp: HashPassword_def split: option.split)

lemmas service_keeps = repository_keeps event_keeps sso_keeps hash_keeps

lemma user_service_keeps:
  "uuid x = Some i \<Longrightarrow> i \<in> new \<Longrightarrow> keeps holds (CreateUser ap (pg_users uuid ap sso) ctx x email password a)"
  "keeps holds (DeleteUser (pg_users uuid ap sso) ctx actor target)"
  "keeps holds (SetUserAdmin (pg_users uuid ap sso) ctx actor target a)"
  "keeps holds (SetUserEnabled (pg_users uuid ap sso) ctx actor target n)"
  "keeps holds (ChangePassword ap (pg_users uuid ap sso) user current fresh)"
  "keeps holds (ResetPassword ap (pg_users uuid ap sso) ctx actor target fresh)"
  unfolding CreateUser_def DeleteUser_def SetUserAdmin_def SetUserEnabled_def ChangePassword_def ResetPassword_def requireControlPlane_def Let_def last_admin_def
  by (auto intro!: keeps_bindE keeps_mapErr keeps_attempt keeps_modify service_keeps simp: auth_record_def split: option.split)

lemma pair_keeps: "keeps holds (issueSessionPair jwt sha da p i t)"
  unfolding issueSessionPair_def generateSessionToken_def generateRefreshToken_def GenerateJWTToken_def
  by (auto intro!: keeps_bindE split: option.split)

lemma decode_keeps: "keeps holds (DecodeAndExtractJWTToken jwt now key token)"
  unfolding DecodeAndExtractJWTToken_def by (auto intro!: keeps_bindE split: option.split)

lemma principal_keeps: "keeps holds (principalForUser (pg_user_repository uuid ap) user)"
  unfolding principalForUser_def by (auto intro!: keeps_bindE keeps_attempt service_keeps)

lemma authenticate_keeps: "keeps holds (AuthenticateSession jwt sha (pg_auth uuid ap key sso) token)"
  unfolding AuthenticateSession_def ValidateSession_def by (auto intro!: keeps_bindE keeps_mapErr decode_keeps service_keeps)

lemma refresh_keeps: "keeps holds (RefreshSession ap jwt sha (pg_auth uuid ap key sso) i f token)"
  unfolding RefreshSession_def refused_rotation_def resolveRefreshPrincipal_def Let_def
  by (auto intro!: keeps_bindE keeps_mapErr keeps_attempt decode_keeps principal_keeps pair_keeps service_keeps split: option.split sum.split bool.split)

text \<open>The touch of the last connection leaves every family as it is, so a family drawn fresh is fresh when it is inserted.\<close>

abbreviation fresh :: "string \<Rightarrow> auth_world \<Rightarrow> bool" where
  "fresh f w \<equiv> f \<notin> tk_family ` set (tokens (adb w))"

lemma principal_fresh: "keeps (fresh f) (principalForUser (pg_user_repository uuid ap) user)"
proof -
  have "keeps (\<lambda>d. f \<notin> tk_family ` set (tokens d)) (pg_TouchUserLastConnected uuid j)" for j
    unfolding pg_TouchUserLastConnected_def touchUserLastConnectedAt_def set_users_def by (auto intro!: keeps_bindE keeps_stored keeps_account_write)
  then show ?thesis
    unfolding principalForUser_def
    by (auto intro!: keeps_bindE keeps_attempt keeps_on_accounts [where P = "\<lambda>d. f \<notin> tk_family ` set (tokens d)"] simp: pg_user_repository_def)
qed

lemma start_leads:
  assumes "uuid familyId = Some f"
  shows "leads (\<lambda>w. holds w \<and> fresh f w) holds (startSession jwt sha (pg_auth uuid ap key sso) tokenId familyId p)"
proof -
  have "leads (\<lambda>w. holds w \<and> fresh f w) holds (InsertRefreshToken (pg_ledger uuid) tokenId u familyId t)" for u t
    using starts_family assms unfolding leads_def
    by (auto simp: pg_ledger_def on_accounts_def pg_InsertRefreshToken_def stored_def mapErr_def ToPgUUID_def split: prod.split sum.split) (metis sndI)+
  then show ?thesis
    unfolding startSession_def Let_def
    by (auto intro!: leads_first [OF keeps_gets] leads_then [OF leads_mapErr] keeps_bindE keeps_attempt pair_keeps service_keeps)
qed

lemma issue_leads:
  assumes "uuid familyId = Some f"
  shows "leads (\<lambda>w. holds w \<and> fresh f w) holds (IssueSession jwt sha (pg_auth uuid ap key sso) tokenId familyId user)"
  unfolding IssueSession_def using start_leads [OF assms] principal_fresh principal_keeps by (auto intro!: leads_first [OF keeps_conj])

lemma login_leads:
  assumes "uuid familyId = Some f"
  shows "leads (\<lambda>w. holds w \<and> fresh f w) holds (LoginWithEmailPassword ap jwt sha (pg_auth uuid ap key sso) tokenId familyId email password)"
proof -
  have "keeps (fresh f) (GetUserByEmail (pg_user_repository uuid ap) e)" for e
    using keeps_on_accounts [of "\<lambda>d. f \<notin> tk_family ` set (tokens d)"] by (auto simp: pg_user_repository_def)
  then have prefix: "keeps (fresh f) (resolveLoginPrincipal ap (pg_auth uuid ap key sso) email password)"
    unfolding resolveLoginPrincipal_def by (auto intro!: keeps_bindE keeps_mapErr principal_fresh simp: sso_active_def split: option.split)
  have keep: "keeps holds (resolveLoginPrincipal ap (pg_auth uuid ap key sso) email password)"
    unfolding resolveLoginPrincipal_def by (auto intro!: keeps_bindE keeps_mapErr principal_keeps service_keeps)
  have failure: "keeps (\<lambda>w. R (adb w)) (recordLoginFailure (pg_auth uuid ap key sso) email e)"
    and success: "keeps (\<lambda>w. R (adb w)) (recordLoginSuccess (pg_auth uuid ap key sso) p)" for R e p
    by (auto simp: recordLoginFailure_def recordLoginSuccess_def auth_record_def intro!: keeps_modify)
  have "leads (\<lambda>w. holds w \<and> fresh f w) holds (case r of
       Inl e \<Rightarrow> bindE (recordLoginFailure (pg_auth uuid ap key sso) email e) (\<lambda>_. throw e)
     | Inr p \<Rightarrow> bindE (recordLoginSuccess (pg_auth uuid ap key sso) p) (\<lambda>_. startSession jwt sha (pg_auth uuid ap key sso) tokenId familyId p))" for r
  proof (cases r)
    case (Inl e)
    show ?thesis
      unfolding Inl using failure [of P] by (auto intro!: leads_keeps keeps_bindE)
  next
    case (Inr p)
    show ?thesis
      unfolding Inr using success [of P] success [of "\<lambda>d. f \<notin> tk_family ` set (tokens d)"] start_leads [OF assms]
      by (auto intro!: leads_first [OF keeps_conj])
  qed
  then show ?thesis
    unfolding LoginWithEmailPassword_def using prefix keep by (intro leads_first keeps_conj keeps_attempt) auto
qed

lemma step_keeps:
  assumes "account_step uuid ap jwt new w w'" and "holds w"
  shows "holds w'"
  using assms
proof cases
  case (login familyId f sha key sso tokenId email password)
  then show ?thesis
    using login_leads [OF login(2)] assms(2) unfolding leads_def by blast
next
  case (issue familyId f sha key sso tokenId user)
  then show ?thesis
    using issue_leads [OF issue(2)] assms(2) unfolding leads_def by blast
next
  case (pass t t')
  then show ?thesis
    using passes assms(2) by simp
qed (simp_all add: keepsD [where P = holds, OF user_service_keeps(1)] keepsD [where P = holds, OF user_service_keeps(2)]
    keepsD [where P = holds, OF user_service_keeps(3)] keepsD [where P = holds, OF user_service_keeps(4)]
    keepsD [where P = holds, OF user_service_keeps(5)] keepsD [where P = holds, OF user_service_keeps(6)]
    keepsD [where P = holds, OF refresh_keeps] keepsD [where P = holds, OF authenticate_keeps])

lemma steps_keep: "account_steps uuid ap jwt new w w' \<Longrightarrow> holds w \<Longrightarrow> holds w'"
  by (induction rule: rtranclp_induct) (blast intro: step_keeps)+

end

section \<open>An enabled admin remains\<close>

definition administered :: "account_db \<Rightarrow> bool" where
  "administered d \<longleftrightarrow> account_ok d \<and> (\<exists>u \<in> set (users d). us_admin u \<and> us_enabled u)"

lemma user_id_unique: "account_ok d \<Longrightarrow> u \<in> set (users d) \<Longrightarrow> v \<in> set (users d) \<Longrightarrow> us_id u = us_id v \<Longrightarrow> u = v"
  unfolding account_ok_def account_uniques_def using distinct_map_eq [of us_id "users d" u v] by simp

text \<open>A guarded row is not the last enabled admin: whoever carries its id, another enabled admin does not.\<close>

lemma spared:
  assumes "administered d" and "u \<in> set (users d)" and "spares_admin d u"
  obtains v where "v \<in> set (users d)" "us_admin v" "us_enabled v" "us_id v \<noteq> us_id u"
proof -
  have ok: "account_ok d"
    using assms(1) by (simp add: administered_def)
  obtain a where a: "a \<in> set (users d)" "us_admin a" "us_enabled a"
    using assms(1) by (auto simp: administered_def)
  show thesis
  proof (cases "us_id a = us_id u")
    case True
    then have "u \<in> set (admins d)"
      using user_id_unique [OF ok a(1) assms(2)] a by (simp add: admins_def)
    then have "1 < length (admins d)"
      using assms(3) by (auto simp: spares_admin_def)
    moreover have "distinct (map us_id (admins d))"
      using ok by (simp add: account_ok_def account_uniques_def admins_def distinct_map_filter)
    ultimately have "\<not> set (map us_id (admins d)) \<subseteq> {us_id u}"
      using distinct_card [of "map us_id (admins d)"] card_mono [of "{us_id u}" "set (map us_id (admins d))"] by auto
    then show thesis
      using that by (auto simp: admins_def)
  qed (use that a in auto)
qed

lemma administered_set_users:
  assumes flags: "\<And>d u. us_id (f d u) = us_id u"
    and keeps: "\<And>d u. P d u \<Longrightarrow> us_admin u \<Longrightarrow> us_enabled u \<Longrightarrow> us_admin (f d u) \<and> us_enabled (f d u) \<or> spares_admin d u"
    and one: "\<And>d u. P d u \<Longrightarrow> Some (us_id u) = i"
  shows "keeps administered (set_users P f)"
  unfolding set_users_def
proof (rule keeps_account_write)
  fix d
  assume d: "administered d" and ok: "account_ok (fst (d\<lparr>users := map (\<lambda>u. if P d u then f d u else u) (users d)\<rparr>, int (length (filter (P d) (users d)))))"
  obtain a where a: "a \<in> set (users d)" "us_admin a" "us_enabled a"
    using d by (auto simp: administered_def)
  have "\<exists>b \<in> set (users d). us_admin (if P d b then f d b else b) \<and> us_enabled (if P d b then f d b else b)"
  proof (cases "P d a \<longrightarrow> us_admin (f d a) \<and> us_enabled (f d a)")
    case True
    then show ?thesis
      using a by auto
  next
    case False
    then obtain v where "v \<in> set (users d)" "us_admin v" "us_enabled v" "us_id v \<noteq> us_id a"
      using spared [OF d a(1)] keeps [of d a] a by blast
    moreover have "\<not> P d v"
      using one [of d v] one [of d a] False calculation by auto
    ultimately show ?thesis
      by auto
  qed
  then have "\<exists>u \<in> set (map (\<lambda>u. if P d u then f d u else u) (users d)). us_admin u \<and> us_enabled u"
    unfolding set_map by blast
  then show "administered (fst (d\<lparr>users := map (\<lambda>u. if P d u then f d u else u) (users d)\<rparr>, int (length (filter (P d) (users d)))))"
    using ok unfolding administered_def by simp
qed

lemma administered_delete: "keeps administered (deleteUserByID i)"
  unfolding deleteUserByID_def
proof (rule keeps_account_write)
  fix d
  let ?d = "fst (let hit = (\<lambda>u. Some (us_id u) = i \<and> spares_admin d u); gone = us_id ` set (filter hit (users d))
     in (d\<lparr>users := filter (\<lambda>u. \<not> hit u) (users d), tokens := filter (\<lambda>t. tk_user t \<notin> gone) (tokens d),
           grants := filter (\<lambda>g. gr_user g \<notin> gone) (grants d)\<rparr>, int (length (filter hit (users d)))))"
  assume d: "administered d" and ok: "account_ok ?d"
  obtain a where a: "a \<in> set (users d)" "us_admin a" "us_enabled a"
    using d by (auto simp: administered_def)
  have "\<exists>b \<in> set (users d). us_admin b \<and> us_enabled b \<and> \<not> (Some (us_id b) = i \<and> spares_admin d b)"
    using spared [OF d a(1)] a by (metis option.inject)
  then show "administered ?d"
    using ok by (auto simp: administered_def Let_def)
qed

lemma tokens_administered:
  assumes "\<And>d. users (fst (f d)) = users d"
  shows "keeps administered (account_write f)"
  using assms by (intro keeps_account_write) (simp add: administered_def)

interpretation admin_left: account_invariant administered uuid UNIV for uuid
proof
  fix i :: string and email hash a n
  show "keeps administered (insertUser (Some i) email hash a n)"
    by rule (auto simp: insertUser_def account_write_run administered_def Let_def)
next
  fix j
  show "keeps administered (deleteUserByID j)"
    by (rule administered_delete)
  show "keeps administered (updateUserPasswordByID j hash)" for hash
    unfolding updateUserPasswordByID_def by (rule administered_set_users [of _ _ j]) simp_all
  show "keeps administered (updateUserIsAdminByID j a)" for a
    unfolding updateUserIsAdminByID_def by (rule administered_set_users [of _ _ j]) auto
  show "keeps administered (updateUserEnabledByID j n)" for n
    unfolding updateUserEnabledByID_def by (rule administered_set_users [of _ _ j]) auto
  show "keeps administered (bumpUserSessionVersion j)"
    unfolding bumpUserSessionVersion_def by (rule administered_set_users [of _ _ j]) simp_all
  show "keeps administered (touchUserLastConnectedAt j)"
    unfolding touchUserLastConnectedAt_def by (rule administered_set_users [of _ _ j]) simp_all
  show "keeps administered (deleteExpiredRefreshTokensForUser j)"
    unfolding deleteExpiredRefreshTokensForUser_def by (rule tokens_administered) simp
  show "keeps administered (deleteRefreshTokenFamily g)" for g
    unfolding deleteRefreshTokenFamily_def by (rule tokens_administered) simp
  have insert: "keeps administered (insertRefreshToken k u f t)" for k u f t
    unfolding insertRefreshToken_def by (auto split: option.split intro!: tokens_administered)
  then show "administered d \<Longrightarrow> f \<notin> tk_family ` set (tokens d) \<Longrightarrow> administered (snd (insertRefreshToken k j (Some f) t d))" for d f k t
    by (simp add: keepsD)
  have "keeps administered (consumeRefreshToken r k)" for r k
    by rule (auto simp: consumeRefreshToken_def account_write_run administered_def split: option.split)
  then show "keeps administered (pg_RotateRefreshToken uuid old next t)" for old "next" t
    unfolding pg_RotateRefreshToken_def using insert by (intro keeps_AccountTx keeps_bindE keeps_mapErr keeps_stored) auto
next
  fix d and t :: int
  show "administered d \<Longrightarrow> administered (d\<lparr>account_now := account_now d + t\<rparr>)"
    by (simp add: administered_def account_ok_def account_uniques_def account_refs_def account_ranges_def)
qed

section \<open>Generations\<close>

text \<open>No account with this id is of this generation or an older one; none at all when it is deleted.\<close>

definition outdated :: "string \<Rightarrow> int \<Rightarrow> account_db \<Rightarrow> bool" where
  "outdated i v d \<longleftrightarrow> (\<forall>u \<in> set (users d). us_id u = i \<longrightarrow> v < us_version u)"

lemma outdated_set_users:
  assumes "\<And>d u. us_id (f d u) = us_id u" and "\<And>d u. us_version u \<le> us_version (f d u)"
  shows "keeps (outdated i v) (set_users P f)"
  unfolding set_users_def
proof (rule keeps_account_write)
  fix d
  assume "outdated i v d"
  then have "v < us_version (f d u)" if "u \<in> set (users d)" "us_id u = i" for u
    using that assms(2) [of u d] unfolding outdated_def by fastforce
  with \<open>outdated i v d\<close> show "outdated i v (fst (d\<lparr>users := map (\<lambda>u. if P d u then f d u else u) (users d)\<rparr>, int (length (filter (P d) (users d)))))"
    using assms(1) by (auto simp: outdated_def)
qed

lemma outdated_tokens:
  assumes "\<And>d. users (fst (f d)) = users d"
  shows "keeps (outdated i v) (account_write f)"
  using assms by (intro keeps_account_write) (simp add: outdated_def)

interpretation generation: account_invariant "outdated i v" uuid "- {i}" for i v uuid
proof
  fix j :: string and email hash a n
  show "j \<in> - {i} \<Longrightarrow> keeps (outdated i v) (insertUser (Some j) email hash a n)"
    by rule (auto simp: insertUser_def account_write_run outdated_def Let_def)
next
  fix j
  show "keeps (outdated i v) (deleteUserByID j)"
    unfolding deleteUserByID_def by (rule keeps_account_write) (auto simp: outdated_def Let_def)
  show "keeps (outdated i v) (updateUserPasswordByID j hash)" for hash
    unfolding updateUserPasswordByID_def by (rule outdated_set_users) simp_all
  show "keeps (outdated i v) (updateUserIsAdminByID j a)" for a
    unfolding updateUserIsAdminByID_def by (rule outdated_set_users) simp_all
  show "keeps (outdated i v) (updateUserEnabledByID j n)" for n
    unfolding updateUserEnabledByID_def by (rule outdated_set_users) simp_all
  show "keeps (outdated i v) (bumpUserSessionVersion j)"
    unfolding bumpUserSessionVersion_def by (rule outdated_set_users) simp_all
  show "keeps (outdated i v) (touchUserLastConnectedAt j)"
    unfolding touchUserLastConnectedAt_def by (rule outdated_set_users) simp_all
  show "keeps (outdated i v) (deleteExpiredRefreshTokensForUser j)"
    unfolding deleteExpiredRefreshTokensForUser_def by (rule outdated_tokens) simp
  show "keeps (outdated i v) (deleteRefreshTokenFamily g)" for g
    unfolding deleteRefreshTokenFamily_def by (rule outdated_tokens) simp
  have insert: "keeps (outdated i v) (insertRefreshToken k u f t)" for k u f t
    unfolding insertRefreshToken_def by (auto split: option.split intro!: outdated_tokens)
  then show "outdated i v d \<Longrightarrow> f \<notin> tk_family ` set (tokens d) \<Longrightarrow> outdated i v (snd (insertRefreshToken k j (Some f) t d))" for d f k t
    by (simp add: keepsD)
  have "keeps (outdated i v) (consumeRefreshToken r k)" for r k
    by rule (auto simp: consumeRefreshToken_def account_write_run outdated_def split: option.split)
  then show "keeps (outdated i v) (pg_RotateRefreshToken uuid old next t)" for old "next" t
    unfolding pg_RotateRefreshToken_def using insert by (intro keeps_AccountTx keeps_bindE keeps_mapErr keeps_stored) auto
next
  fix d and t :: int
  show "outdated i v d \<Longrightarrow> outdated i v (d\<lparr>account_now := account_now d + t\<rparr>)"
    by (simp add: outdated_def)
qed

section \<open>Families of refresh tokens\<close>

definition unspent :: "token_row \<Rightarrow> bool" where
  "unspent t \<longleftrightarrow> tk_used t = None"

definition chained :: "account_db \<Rightarrow> bool" where
  "chained d \<longleftrightarrow> account_ok d \<and> distinct (map tk_family (filter unspent (tokens d)))
     \<and> (\<forall>t \<in> set (tokens d). unspent t \<longleftrightarrow> tk_replaced t = None)"

lemma chained_users: "(\<And>d. tokens (fst (f d)) = tokens d) \<Longrightarrow> keeps chained (account_write f)"
  by (intro keeps_account_write) (simp add: chained_def)

lemma chained_fewer:
  assumes "\<And>d. tokens (fst (f d)) = filter (P d) (tokens d)"
  shows "keeps chained (account_write f)"
proof (rule keeps_account_write)
  fix d
  assume "chained d" "account_ok (fst (f d))"
  moreover have "filter unspent (filter (P d) (tokens d)) = filter (P d) (filter unspent (tokens d))"
    by (simp add: conj_commute)
  ultimately show "chained (fst (f d))"
    using assms [of d] by (auto simp: chained_def distinct_map_filter simp del: filter_filter)
qed

lemma consumable_unique:
  assumes "account_ok d" and "find (consumable d i) (tokens d) = Some t" and "x \<in> set (tokens d)"
  shows "consumable d i x \<longleftrightarrow> x = t"
proof -
  have t: "t \<in> set (tokens d)" "consumable d i t"
    using assms(2) find_Some_mem by fast+
  have dist: "distinct (map tk_id (tokens d))"
    using assms(1) by (simp add: account_ok_def account_uniques_def)
  have "x = t" if "consumable d i x"
    using distinct_map_eq [OF dist assms(3) t(1)] that t(2) unfolding consumable_def by (metis option.inject)
  then show ?thesis
    using t by blast
qed

text \<open>What a rotation does to the ledger.\<close>

lemma rotated_tokens:
  assumes ok: "account_ok d" and row: "consumeRefreshToken (Some n) i d = (Inr row, d1)"
    and ins: "insertRefreshToken (Some n) (Some (tk_user row)) (Some (tk_family row)) t d1 = (Inr (), d')"
  obtains s where "s \<in> set (tokens d)" "Some (tk_id s) = i" "unspent s" "tk_expires s > account_now d"
    "tokens d' = map (\<lambda>x. if x = s then s\<lparr>tk_used := Some (account_now d), tk_replaced := Some n\<rparr> else x) (tokens d)
      @ [\<lparr>tk_id = n, tk_user = tk_user s, tk_family = tk_family s, tk_created = account_now d, tk_expires = t, tk_used = None, tk_replaced = None\<rparr>]"
    "users d' = users d" "account_now d' = account_now d" "account_ok d'"
proof -
  obtain s where s: "find (consumable d i) (tokens d) = Some s"
    using row by (auto simp: consumeRefreshToken_def split: option.splits)
  note mem = find_Some_mem [OF s]
  have m: "map (\<lambda>x. if consumable d i x then x\<lparr>tk_used := Some (account_now d), tk_replaced := Some n\<rparr> else x) (tokens d)
      = map (\<lambda>x. if x = s then s\<lparr>tk_used := Some (account_now d), tk_replaced := Some n\<rparr> else x) (tokens d)"
    using consumable_unique [OF ok s] by (intro map_cong) auto
  have d1: "d1 = d\<lparr>tokens := map (\<lambda>x. if x = s then s\<lparr>tk_used := Some (account_now d), tk_replaced := Some n\<rparr> else x) (tokens d)\<rparr>"
      "row = s\<lparr>tk_used := Some (account_now d), tk_replaced := Some n\<rparr>"
    using row s by (auto simp: consumeRefreshToken_def account_write_run m split: if_splits)
  have "d' = d1\<lparr>tokens := tokens d1 @ [\<lparr>tk_id = n, tk_user = tk_user s, tk_family = tk_family s, tk_created = account_now d, tk_expires = t,
      tk_used = None, tk_replaced = None\<rparr>]\<rparr>" "account_ok d'"
    using ins d1 by (auto simp: insertRefreshToken_def account_write_run split: if_splits)
  then show thesis
    using mem d1 by (intro that [of s]) (auto simp: consumable_def unspent_def)
qed

lemma chained_rotated:
  assumes d: "chained d" and row: "consumeRefreshToken (uuid next) (uuid old) d = (Inr row, d1)"
    and ins: "insertRefreshToken (uuid next) (Some (tk_user row)) (Some (tk_family row)) t d1 = (Inr (), d')"
  shows "chained d'"
proof -
  have ok: "account_ok d" and dist: "distinct (map tk_family (filter unspent (tokens d)))"
      and sync: "\<And>t. t \<in> set (tokens d) \<Longrightarrow> unspent t \<longleftrightarrow> tk_replaced t = None"
    using d by (auto simp: chained_def)
  obtain n where n: "uuid next = Some n"
    using ins by (auto simp: insertRefreshToken_def split: option.splits)
  obtain s where s: "s \<in> set (tokens d)" "unspent s" "account_ok d'" and
      tks: "tokens d' = map (\<lambda>x. if x = s then s\<lparr>tk_used := Some (account_now d), tk_replaced := Some n\<rparr> else x) (tokens d)
        @ [\<lparr>tk_id = n, tk_user = tk_user s, tk_family = tk_family s, tk_created = account_now d, tk_expires = t, tk_used = None, tk_replaced = None\<rparr>]"
    by (rule rotated_tokens [OF ok row [unfolded n] ins [unfolded n]]) blast
  have kept: "filter unspent (map (\<lambda>x. if x = s then s\<lparr>tk_used := Some (account_now d), tk_replaced := Some n\<rparr> else x) ts)
      = filter (\<lambda>x. x \<noteq> s) (filter unspent ts)" for ts
    by (induction ts) (auto simp: unspent_def)
  have "tk_family s \<notin> tk_family ` set (filter (\<lambda>x. x \<noteq> s) (filter unspent (tokens d)))"
    using dist s distinct_map_eq [OF dist] by auto
  moreover have "distinct (map tk_family (filter (\<lambda>x. x \<noteq> s) (filter unspent (tokens d))))"
    using dist by (rule distinct_map_filter)
  ultimately have "distinct (map tk_family (filter unspent (tokens d')))"
    unfolding tks filter_append kept by (auto simp: unspent_def simp del: filter_filter)
  moreover have "\<forall>t \<in> set (tokens d'). unspent t \<longleftrightarrow> tk_replaced t = None"
    using sync by (auto simp: tks unspent_def)
  ultimately show ?thesis
    using s(3) by (simp add: chained_def)
qed

lemma chained_rotate: "keeps chained (pg_RotateRefreshToken uuid old next t)"
proof
  fix d
  assume d: "chained d"
  show "chained (snd (pg_RotateRefreshToken uuid old next t d))"
  proof (cases "pg_RotateRefreshToken uuid old next t d")
    case (Pair r d')
    show ?thesis
    proof (cases r)
      case (Inl e)
      then show ?thesis
        using Pair d by (auto simp: pg_RotateRefreshToken_def AccountTx_def split: prod.splits sum.splits)
    next
      case (Inr x)
      obtain row d1 where row: "consumeRefreshToken (uuid next) (uuid old) d = (Inr row, d1)"
          and ins: "insertRefreshToken (uuid next) (Some (tk_user row)) (Some (tk_family row)) t d1 = (Inr (), d')"
        using Pair Inr by (auto simp: pg_RotateRefreshToken_def AccountTx_def stored_def mapErr_run bindE_run ToPgUUID_def split: prod.splits sum.splits)
      then show ?thesis
        using chained_rotated [OF d] Pair by simp
    qed
  qed
qed

lemma chained_start:
  assumes d: "chained d" and f: "f \<notin> tk_family ` set (tokens d)"
  shows "chained (snd (insertRefreshToken k j (Some f) t d))"
  using assms by (auto simp: insertRefreshToken_def account_write_run chained_def unspent_def split: option.split)

interpretation ledger: account_invariant chained uuid UNIV for uuid
proof
  fix i :: string and email hash a n
  show "keeps chained (insertUser (Some i) email hash a n)"
    by rule (auto simp: insertUser_def account_write_run chained_def Let_def)
next
  fix j
  have set: "keeps chained (set_users P f)" for P f
    unfolding set_users_def by (rule chained_users) simp
  show "keeps chained (deleteUserByID j)"
    unfolding deleteUserByID_def by (rule chained_fewer) (simp add: Let_def)
  show "keeps chained (updateUserPasswordByID j hash)" "keeps chained (updateUserIsAdminByID j a)" "keeps chained (updateUserEnabledByID j a)"
      "keeps chained (bumpUserSessionVersion j)" "keeps chained (touchUserLastConnectedAt j)" for hash a
    unfolding updateUserPasswordByID_def updateUserIsAdminByID_def updateUserEnabledByID_def bumpUserSessionVersion_def touchUserLastConnectedAt_def
    by (rule set)+
  show "keeps chained (deleteExpiredRefreshTokensForUser j)"
    unfolding deleteExpiredRefreshTokensForUser_def by (rule chained_fewer) simp
  show "keeps chained (deleteRefreshTokenFamily g)" for g
    unfolding deleteRefreshTokenFamily_def by (rule chained_fewer) simp
  show "chained d \<Longrightarrow> f \<notin> tk_family ` set (tokens d) \<Longrightarrow> chained (snd (insertRefreshToken k j (Some f) t d))" for d f k t
    by (rule chained_start)
  show "keeps chained (pg_RotateRefreshToken uuid old next t)" for old "next" t
    by (rule chained_rotate)
next
  fix d and t :: int
  show "chained d \<Longrightarrow> chained (d\<lparr>account_now := account_now d + t\<rparr>)"
    by (simp add: chained_def account_ok_def account_uniques_def account_refs_def account_ranges_def)
qed

section \<open>What a session rests on\<close>

text \<open>The account a token names, at its generation.\<close>

definition names_account :: "uuid_parser \<Rightarrow> account_db \<Rightarrow> sessionClaims \<Rightarrow> user_row \<Rightarrow> bool" where
  "names_account uuid d claims u \<longleftrightarrow> u \<in> set (users d) \<and> ClUserID claims \<noteq> [] \<and> uuid (ClUserID claims) = Some (us_id u)
     \<and> us_enabled u \<and> us_version u = ClSessionVersion claims"

lemma pg_GetUserByID_run:
  "pg_GetUserByID uuid i d = (case user_by_id d (uuid i) of None \<Rightarrow> (Inl (StoreError (ErrResourceNotFound ''user'' [i])), d) | Some u \<Rightarrow> (Inr (userFromRow u), d))"
  by (simp add: pg_GetUserByID_def user_lookup_def getUserByID_def account_read_def ToPgUUID_def bindE_run mapErr_run split: option.split)

lemma user_by_id_Some: "user_by_id d i = Some u \<Longrightarrow> u \<in> set (users d) \<and> i = Some (us_id u)"
  unfolding user_by_id_def using find_Some_mem by fastforce

lemma user_by_id_mem:
  assumes "account_ok d" and "u \<in> set (users d)"
  shows "user_by_id d (Some (us_id u)) = Some u"
proof (cases "user_by_id d (Some (us_id u))")
  case None
  then show ?thesis
    using assms(2) by (auto simp: user_by_id_def find_None_iff)
next
  case (Some v)
  then show ?thesis
    using user_by_id_Some [OF Some] user_id_unique [OF assms(1) _ assms(2)] by simp
qed

lemma repository_run:
  "GetUserByID (pg_user_repository uuid ap) i w = (case user_by_id (adb w) (uuid i) of
     None \<Rightarrow> (Inl (StoreError (ErrResourceNotFound ''user'' [i])), w) | Some u \<Rightarrow> (Inr (userFromRow u), w))"
  by (simp add: pg_user_repository_def on_accounts_def pg_GetUserByID_run split: option.split)

lemma userFromRow_fields [simp]:
  "UId (userFromRow u) = us_id u" "UEmail (userFromRow u) = us_email u" "UPasswordHash (userFromRow u) = us_hash u" "UIsAdmin (userFromRow u) = us_admin u"
  "UEnabled (userFromRow u) = us_enabled u" "USessionVersion (userFromRow u) = us_version u"
  by (simp_all add: userFromRow_def)

lemma AuthenticateSession_run:
  "AuthenticateSession jwt sha (pg_auth uuid ap key sso) token w = (case ParseWithClaims jwt (aclock w) key token of
     None \<Rightarrow> (Inl (AuthText (Msg ''token is invalid'' [])), w)
   | Some claims \<Rightarrow>
       if ClType claims \<noteq> ''token'' then (Inl (AuthText (Msg ''invalid token type'' [])), w)
       else if ClSubject claims \<noteq> dashboardSubject then (Inl (AuthText (Msg ''invalid token subject'' [])), w)
       else if ClUserID claims = [] then (Inl ErrSessionRevoked, w)
       else case user_by_id (adb w) (uuid (ClUserID claims)) of
         None \<Rightarrow> (Inl ErrSessionRevoked, w)
       | Some u \<Rightarrow> if us_enabled u \<and> us_version u = ClSessionVersion claims then (Inr (user_principal (userFromRow u)), w) else (Inl ErrSessionRevoked, w))"
  unfolding AuthenticateSession_def ValidateSession_def DecodeAndExtractJWTToken_def statelessClaimsAreCurrent_def
  by (simp add: bindE_run mapErr_run repository_run split: option.split)

lemma authenticate_accepts:
  assumes "AuthenticateSession jwt sha (pg_auth uuid ap key sso) token w = (Inr p, w')"
  obtains claims u where "ParseWithClaims jwt (aclock w) key token = Some claims" "ClType claims = ''token''" "ClSubject claims = dashboardSubject"
    "names_account uuid (adb w) claims u" "p = user_principal (userFromRow u)"
  using assms user_by_id_Some [of "adb w"] unfolding AuthenticateSession_run names_account_def
  by (auto split: option.splits if_splits)

lemma authenticate_passes:
  assumes "account_ok (adb w)" and "ParseWithClaims jwt (aclock w) key token = Some claims" and "ClType claims = ''token''"
    and "ClSubject claims = dashboardSubject" and "names_account uuid (adb w) claims u"
  shows "AuthenticateSession jwt sha (pg_auth uuid ap key sso) token w = (Inr (user_principal (userFromRow u)), w)"
  using assms user_by_id_mem [of "adb w" u] unfolding AuthenticateSession_run names_account_def by simp

lemma refresh_accepts:
  assumes "RefreshSession ap jwt sha (pg_auth uuid ap key sso) newId familyId token w = (Inr s, w')"
  obtains claims u where "ParseWithClaims jwt (aclock w) key token = Some claims" "ClType claims = ''refreshToken''" "ClSubject claims = dashboardSubject"
    "names_account uuid (adb w) claims u"
proof -
  obtain claims where c: "ParseWithClaims jwt (aclock w) key token = Some claims" "ClType claims = ''refreshToken''" "ClSubject claims = dashboardSubject"
    using assms by (auto simp: RefreshSession_def DecodeAndExtractJWTToken_def bindE_run split: option.splits if_splits)
  obtain p w1 where p: "resolveRefreshPrincipal (pg_user_repository uuid ap) (ClUserID claims) w = (Inr p, w1)" "PrSessionVersion p = ClSessionVersion claims"
    using assms c by (auto simp: RefreshSession_def DecodeAndExtractJWTToken_def bindE_run split: prod.splits sum.splits if_splits)
  obtain u where "user_by_id (adb w) (uuid (ClUserID claims)) = Some u" "us_enabled u" "ClUserID claims \<noteq> []" "p = user_principal (userFromRow u)"
    using p(1)
    by (auto simp: resolveRefreshPrincipal_def principalForUser_def bindE_run mapErr_run repository_run
        split: option.splits if_splits prod.splits sum.splits)
  then show thesis
    using c p(2) that [of claims u] user_by_id_Some [of "adb w"] by (auto simp: names_account_def user_principal_def userFromRow_def)
qed

section \<open>Ending the sessions of an account\<close>

text \<open>A write that counts up the generation of the account, or removes it.\<close>

lemma outdates_set_users:
  assumes "set_users P f d = (Inr n, d')" and "\<And>d u. us_id (f d u) = us_id u" and "u \<in> set (users d)" and "account_ok d"
    and "P d u" and "us_version u < us_version (f d u)"
  shows "outdated (us_id u) (us_version u) d'"
proof -
  have one: "v = u" if "v \<in> set (users d)" "us_id v = us_id u" for v
    using user_id_unique [OF assms(4) that(1) assms(3) that(2)] .
  have "d' = d\<lparr>users := map (\<lambda>u. if P d u then f d u else u) (users d)\<rparr>"
    using assms(1) by (auto simp: set_users_def account_write_run split: if_splits)
  then show ?thesis
    using assms(2,5,6) by (auto simp: outdated_def dest!: one)
qed

lemma set_users_hit: "set_users P f d = (Inr n, d') \<Longrightarrow> n \<noteq> 0 \<Longrightarrow> (\<And>u. P d u \<Longrightarrow> Some (us_id u) = Some i) \<Longrightarrow> \<exists>u \<in> set (users d). us_id u = i \<and> P d u"
  by (auto simp: set_users_def account_write_run filter_empty_conv split: if_splits) blast

lemma guarded_write_ok: "guarded_write uuid text x m d = (Inr (), d') \<Longrightarrow> \<exists>n. m d = (Inr n, d') \<and> n \<noteq> 0"
  and plain_write_ok: "plain_write text x m d = (Inr (), d') \<Longrightarrow> \<exists>n. m d = (Inr n, d') \<and> n \<noteq> 0"
  unfolding guarded_write_def plain_write_def stored_def by (auto simp: bindE_run mapErr_run split: prod.splits sum.splits if_splits)

lemma outdates_password:
  assumes "pg_UpdateUserPassword uuid x h d = (Inr (), d')" and "uuid x = Some (us_id u)" and "u \<in> set (users d)" and "account_ok d"
  shows "outdated (us_id u) (us_version u) d'"
  using plain_write_ok [OF assms(1) [unfolded pg_UpdateUserPassword_def]] assms(2-4)
  by (auto simp: updateUserPasswordByID_def ToPgUUID_def intro: outdates_set_users)

lemma outdates_flag:
  assumes "guarded_write uuid text x (set_users (\<lambda>d v. Some (us_id v) = Some (us_id u) \<and> Q d v) f) d = (Inr (), d')"
    and "\<And>d v. us_id (f d v) = us_id v" and "u \<in> set (users d)" and "account_ok d" and "us_version u < us_version (f d u)"
  shows "outdated (us_id u) (us_version u) d'"
proof -
  obtain n where n: "set_users (\<lambda>d v. Some (us_id v) = Some (us_id u) \<and> Q d v) f d = (Inr n, d')" "n \<noteq> 0"
    using guarded_write_ok [OF assms(1)] by blast
  then have "Q d u"
    using set_users_hit [OF n, of "us_id u"] user_id_unique [OF assms(4) _ assms(3)] by auto
  then show ?thesis
    using outdates_set_users [OF n(1) assms(2,3,4)] assms(5) by simp
qed

lemma outdates_delete:
  assumes "pg_DeleteUserByID uuid x d = (Inr (), d')" and "uuid x = Some i" and "account_ok d"
  shows "outdated i v d'"
proof -
  obtain n where n: "deleteUserByID (Some i) d = (Inr n, d')" "n \<noteq> 0"
    using guarded_write_ok [OF assms(1) [unfolded pg_DeleteUserByID_def]] assms(2) by (auto simp: ToPgUUID_def)
  then obtain u where "u \<in> set (users d)" "us_id u = i" "spares_admin d u"
    by (auto simp: deleteUserByID_def account_write_run Let_def filter_empty_conv split: if_splits)
  then show ?thesis
    using n user_id_unique [OF assms(3)] by (fastforce simp: deleteUserByID_def account_write_run Let_def outdated_def split: if_splits)
qed

text \<open>The operations that end the sessions of an account: a new password, a right taken away, and deletion.\<close>

inductive revocation :: "uuid_parser \<Rightarrow> AuthPackages \<Rightarrow> user_row \<Rightarrow> auth_world \<Rightarrow> auth_world \<Rightarrow> bool"
  for uuid :: uuid_parser and ap :: AuthPackages and u :: user_row and w w' :: auth_world where
  own_password: "uuid x = Some (us_id u) \<Longrightarrow> ChangePassword ap (pg_users uuid ap sso) x current fresh w = (Inr (), w') \<Longrightarrow> revocation uuid ap u w w'"
| reset: "uuid x = Some (us_id u) \<Longrightarrow> ResetPassword ap (pg_users uuid ap sso) ctx actor x fresh w = (Inr (), w') \<Longrightarrow> revocation uuid ap u w w'"
| demoted: "uuid x = Some (us_id u) \<Longrightarrow> us_admin u \<Longrightarrow> SetUserAdmin (pg_users uuid ap sso) ctx actor x False w = (Inr (), w') \<Longrightarrow> revocation uuid ap u w w'"
| disabled: "uuid x = Some (us_id u) \<Longrightarrow> us_enabled u \<Longrightarrow> SetUserEnabled (pg_users uuid ap sso) ctx actor x False w = (Inr (), w') \<Longrightarrow> revocation uuid ap u w w'"
| deleted: "uuid x = Some (us_id u) \<Longrightarrow> DeleteUser (pg_users uuid ap sso) ctx actor x w = (Inr (), w') \<Longrightarrow> revocation uuid ap u w w'"

lemma event_silent: "recordUserEvent (pg_users uuid ap sso) ctx action target metadata w = (r, w') \<Longrightarrow> adb w' = adb w"
  by (auto simp: recordUserEvent_def lift_event_def recordManagementEvent_def auth_record_def mapErr_run split: prod.splits)

lemma on_accounts_ok: "on_accounts m w = (Inr x, w') \<Longrightarrow> m (adb w) = (Inr x, adb w')"
  by (auto simp: on_accounts_def split: prod.splits)

lemma last_admin_ok: "last_admin m w = (Inr (), w') \<Longrightarrow> m w = (Inr (), w')"
  by (auto simp: last_admin_def mapErr_run split: prod.splits sum.splits)

lemma target_read: "attempt (GetUserByID (pg_user_repository uuid ap) x) w = (Inr r, w1) \<Longrightarrow> w1 = w"
  by (auto simp: attempt_run repository_run split: option.splits)

lemma revocation_outdates:
  assumes "revocation uuid ap u w w'" and ok: "account_ok (adb w)" and u: "u \<in> set (users (adb w))"
  shows "outdated (us_id u) (us_version u) (adb w')"
  using assms(1)
proof cases
  case (own_password x sso current fresh)
  then obtain h w1 where "UpdateUserPassword (pg_user_repository uuid ap) x h w = (Inr (), w1)" "adb w1 = adb w'"
    by (auto simp: ChangePassword_def requireControlPlane_def HashPassword_def auth_record_def repository_run elim!: bindE_Inr split: if_splits option.splits)
  then have "pg_UpdateUserPassword uuid x h (adb w) = (Inr (), adb w')"
    by (auto simp: pg_user_repository_def dest!: on_accounts_ok)
  then show ?thesis
    using outdates_password own_password(1) u ok by blast
next
  case (reset x sso ctx actor fresh)
  then obtain h w1 where "UpdateUserPassword (pg_user_repository uuid ap) x h w = (Inr (), w1)" "adb w1 = adb w'"
    by (auto simp: ResetPassword_def requireControlPlane_def HashPassword_def repository_run sso_active_def elim!: bindE_Inr split: if_splits option.splits
        dest!: event_silent)
  then have "pg_UpdateUserPassword uuid x h (adb w) = (Inr (), adb w')"
    by (auto simp: pg_user_repository_def dest!: on_accounts_ok)
  then show ?thesis
    using outdates_password reset(1) u ok by blast
next
  case (demoted x sso ctx actor)
  then obtain w1 where "UpdateUserIsAdmin (pg_user_repository uuid ap) x False w = (Inr (), w1)" "adb w1 = adb w'"
    by (auto simp: SetUserAdmin_def requireControlPlane_def elim!: bindE_Inr split: if_splits dest!: event_silent last_admin_ok target_read)
  then have "pg_UpdateUserIsAdmin uuid x False (adb w) = (Inr (), adb w')"
    by (auto simp: pg_user_repository_def dest!: on_accounts_ok)
  then show ?thesis
    using demoted(1,2) u ok unfolding pg_UpdateUserIsAdmin_def updateUserIsAdminByID_def ToPgUUID_def by (auto intro: outdates_flag)
next
  case (disabled x sso ctx actor)
  then obtain w1 where "UpdateUserEnabled (pg_user_repository uuid ap) x False w = (Inr (), w1)" "adb w1 = adb w'"
    by (auto simp: SetUserEnabled_def requireControlPlane_def elim!: bindE_Inr split: if_splits dest!: event_silent last_admin_ok target_read)
  then have "pg_UpdateUserEnabled uuid x False (adb w) = (Inr (), adb w')"
    by (auto simp: pg_user_repository_def dest!: on_accounts_ok)
  then show ?thesis
    using disabled(1,2) u ok unfolding pg_UpdateUserEnabled_def updateUserEnabledByID_def ToPgUUID_def by (auto intro: outdates_flag)
next
  case (deleted x sso ctx actor)
  then obtain w1 where "DeleteUserByID (pg_user_repository uuid ap) x w = (Inr (), w1)" "adb w1 = adb w'"
    by (auto simp: DeleteUser_def requireControlPlane_def elim!: bindE_Inr split: if_splits dest!: event_silent last_admin_ok target_read)
  then have "pg_DeleteUserByID uuid x (adb w) = (Inr (), adb w')"
    by (auto simp: pg_user_repository_def dest!: on_accounts_ok)
  then show ?thesis
    using outdates_delete deleted(1) ok by blast
qed

lemma outdated_refuses:
  assumes "outdated i v (adb w)" and "ParseWithClaims jwt (aclock w) key token = Some claims" and "uuid (ClUserID claims) = Some i"
    and "ClSessionVersion claims \<le> v"
  shows "isl (fst (AuthenticateSession jwt sha (pg_auth uuid ap key sso) token w))"
    and "isl (fst (RefreshSession ap jwt sha (pg_auth uuid ap key sso) newId familyId token w))"
proof -
  have no: "\<not> names_account uuid (adb w) claims u" for u
    using assms by (auto simp: outdated_def names_account_def)
  show "isl (fst (AuthenticateSession jwt sha (pg_auth uuid ap key sso) token w))"
  proof (cases "AuthenticateSession jwt sha (pg_auth uuid ap key sso) token w")
    case (Pair r w')
    then show ?thesis
      using no assms(2) by (cases r) (auto elim!: authenticate_accepts)
  qed
  show "isl (fst (RefreshSession ap jwt sha (pg_auth uuid ap key sso) newId familyId token w))"
  proof (cases "RefreshSession ap jwt sha (pg_auth uuid ap key sso) newId familyId token w")
    case (Pair r w')
    then show ?thesis
      using no assms(2) by (cases r) (auto elim!: refresh_accepts)
  qed
qed

section \<open>Replay\<close>

lemma keeps_account_ok [intro]: "keeps account_ok (account_write f)"
  by (rule keeps_account_write)

lemma touched:
  assumes "account_ok d" and "u \<in> set (users d)"
  obtains d' u' where "snd (pg_TouchUserLastConnected uuid x d) = d'" "account_ok d'" "u' \<in> set (users d')" "us_id u' = us_id u" "us_version u' = us_version u"
    "tokens d' = tokens d" "account_now d' = account_now d"
proof -
  let ?d = "snd (pg_TouchUserLastConnected uuid x d)"
  have "keeps account_ok (pg_TouchUserLastConnected uuid x)"
    unfolding pg_TouchUserLastConnected_def touchUserLastConnectedAt_def set_users_def by (auto intro!: keeps_bindE)
  then have "account_ok ?d"
    using assms(1) by (rule keepsD)
  moreover have "\<exists>f. users ?d = map f (users d) \<and> (\<forall>v. us_id (f v) = us_id v \<and> us_version (f v) = us_version v)"
    "tokens ?d = tokens d" "account_now ?d = account_now d"
    by (auto simp: pg_TouchUserLastConnected_def touchUserLastConnectedAt_def set_users_def account_write_run stored_def mapErr_run bindE_run
        intro: exI [of _ "\<lambda>u. u"] exI [of _ "\<lambda>u. if Some (us_id u) = ToPgUUID uuid x then u\<lparr>us_connected := Some (account_now d)\<rparr> else u"])
  then have "\<exists>u' \<in> set (users ?d). us_id u' = us_id u \<and> us_version u' = us_version u" "tokens ?d = tokens d" "account_now ?d = account_now d"
    using assms(2) by auto
  ultimately show thesis
    using that by blast
qed

lemma bumped:
  assumes ok: "account_ok d" and u: "u \<in> set (users d)" and x: "uuid x = Some (us_id u)" and v: "us_version u < 2 ^ 31 - 1"
  obtains d' where "pg_BumpUserSessionVersion uuid x d = (Inr (), d')" "outdated (us_id u) (us_version u) d'" "tokens d' = tokens d"
proof -
  define f where "f u' = (if Some (us_id u') = Some (us_id u) then u'\<lparr>us_version := us_version u' + 1, us_updated := account_now d\<rparr> else u')" for u' :: user_row
  let ?d = "d\<lparr>users := map f (users d)\<rparr>"
  have f: "us_id (f u') = us_id u'" "us_email (f u') = us_email u'" for u'
    by (simp_all add: f_def)
  have "us_version (f u') < 2 ^ 31" if "u' \<in> set (users d)" for u'
    using that ok v user_id_unique [OF ok that u] by (auto simp: f_def account_ok_def account_ranges_def list_all_iff)
  then have "account_ok ?d"
    using ok f by (simp add: account_ok_def account_uniques_def account_refs_def account_ranges_def list_all_iff comp_def image_image)
  then have run: "bumpUserSessionVersion (Some (us_id u)) d = (Inr (int (length (filter (\<lambda>u'. us_id u' = us_id u) (users d)))), ?d)"
    by (simp add: bumpUserSessionVersion_def set_users_def account_write_run f_def [abs_def])
  have "filter (\<lambda>u'. us_id u' = us_id u) (users d) \<noteq> []"
    using u by (auto simp: filter_empty_conv)
  then have "pg_BumpUserSessionVersion uuid x d = (Inr (), ?d)"
    by (simp add: pg_BumpUserSessionVersion_def plain_write_def stored_def bindE_run mapErr_run ToPgUUID_def x run)
  moreover have "u' = u" if "u' \<in> set (users d)" "us_id u' = us_id u" for u'
    using user_id_unique [OF ok that(1) u that(2)] .
  then have "outdated (us_id u) (us_version u) ?d"
    by (auto simp: outdated_def f) (auto simp: f_def)
  ultimately show thesis
    using that by simp
qed

lemma family_gone:
  assumes "account_ok d" and "uuid x = Some g"
  shows "pg_DeleteRefreshTokenFamily uuid x d = (Inr (), d\<lparr>tokens := filter (\<lambda>t. tk_family t \<noteq> g) (tokens d)\<rparr>)"
    and "account_ok (d\<lparr>tokens := filter (\<lambda>t. tk_family t \<noteq> g) (tokens d)\<rparr>)"
proof -
  show ok: "account_ok (d\<lparr>tokens := filter (\<lambda>t. tk_family t \<noteq> g) (tokens d)\<rparr>)"
    using assms(1) by (auto simp: account_ok_def account_uniques_def account_refs_def account_ranges_def list_all_iff distinct_map_filter)
  show "pg_DeleteRefreshTokenFamily uuid x d = (Inr (), d\<lparr>tokens := filter (\<lambda>t. tk_family t \<noteq> g) (tokens d)\<rparr>)"
    using ok by (simp add: pg_DeleteRefreshTokenFamily_def deleteRefreshTokenFamily_def stored_def mapErr_run account_write_run ToPgUUID_def assms(2))
qed

lemma token_found:
  assumes "account_ok d" and "t \<in> set (tokens d)"
  shows "find (\<lambda>s. Some (tk_id s) = Some (tk_id t)) (tokens d) = Some t"
proof (cases "find (\<lambda>s. Some (tk_id s) = Some (tk_id t)) (tokens d)")
  case None
  then show ?thesis
    using assms(2) by (auto simp: find_None_iff)
next
  case (Some s)
  moreover have "distinct (map tk_id (tokens d))"
    using assms(1) by (simp add: account_ok_def account_uniques_def)
  ultimately show ?thesis
    using find_Some_mem [OF Some] assms(2) distinct_map_eq [of tk_id "tokens d" s t] by simp
qed

lemma spent_not_rotated:
  assumes "account_ok d" and "t \<in> set (tokens d)" and "uuid i = Some (tk_id t)" and "tk_used t = Some since"
  shows "pg_RotateRefreshToken uuid i n e d = (Inl (StoreError (ErrResourceNotFound ''refresh token'' [i])), d)"
proof -
  have "\<not> consumable d (Some (tk_id t)) s" if "s \<in> set (tokens d)" for s
    using that assms(1,2,4) distinct_map_eq [of tk_id "tokens d" s t] by (auto simp: consumable_def account_ok_def account_uniques_def)
  then have "find (consumable d (Some (tk_id t))) (tokens d) = None"
    by (simp add: find_None_iff)
  then show ?thesis
    by (simp add: pg_RotateRefreshToken_def AccountTx_def consumeRefreshToken_def bindE_run mapErr_run ToPgUUID_def assms(3))
qed

lemma ledger_run:
  "RotateRefreshToken (pg_ledger uuid) i n e w = on_accounts (pg_RotateRefreshToken uuid i n e) w"
  "GetRefreshToken (pg_ledger uuid) i g w = on_accounts (pg_GetRefreshToken uuid i g) w"
  "DeleteRefreshTokenFamily (pg_ledger uuid) f w = on_accounts (pg_DeleteRefreshTokenFamily uuid f) w"
  "BumpUserSessionVersion (pg_user_repository uuid ap) x w = on_accounts (pg_BumpUserSessionVersion uuid x) w"
  "TouchUserLastConnected (pg_user_repository uuid ap) x w = on_accounts (pg_TouchUserLastConnected uuid x) w"
  by (simp_all add: pg_ledger_def pg_user_repository_def)

lemma old_spent_read:
  assumes "account_ok d" and "t \<in> set (tokens d)" and "uuid i = Some (tk_id t)" and "tk_used t = Some since" and "since \<le> account_now d - grace"
  shows "pg_GetRefreshToken uuid i grace d = (Inr (refreshTokenFromRow t), d)"
  using token_found [OF assms(1,2)] assms(3-5)
  by (simp add: pg_GetRefreshToken_def getRefreshToken_def account_read_def bindE_run mapErr_run ToPgUUID_def refreshTokenFromRow_def)

lemma replay_refused:
  assumes ok: "account_ok (adb w)" and t: "t \<in> set (tokens (adb w))" "uuid i = Some (tk_id t)" "tk_used t = Some since"
      "since \<le> account_now (adb w) - refreshReplayGrace" "uuid (tk_family t) = Some (tk_family t)"
    and u: "u \<in> set (users (adb w))" "uuid (PrUserId p) = Some (us_id u)" "us_version u < 2 ^ 31 - 1"
    and run: "refused_rotation jwt sha da (pg_user_repository uuid ap) (pg_ledger uuid) p i w = (r, w')"
  shows "r = Inl ErrRefreshTokenReuse \<and> tk_family t \<notin> tk_family ` set (tokens (adb w')) \<and> outdated (us_id u) (us_version u) (adb w')"
proof -
  let ?d = "adb w\<lparr>tokens := filter (\<lambda>s. tk_family s \<noteq> tk_family t) (tokens (adb w))\<rparr>"
  obtain d' where d': "pg_BumpUserSessionVersion uuid (PrUserId p) ?d = (Inr (), d')" "outdated (us_id u) (us_version u) d'" "tokens d' = tokens ?d"
    using bumped [OF family_gone(2) [where uuid = uuid and x = "tk_family t", OF ok t(5)], of u uuid "PrUserId p"] u by auto
  have "refused_rotation jwt sha da (pg_user_repository uuid ap) (pg_ledger uuid) p i w = (Inl ErrRefreshTokenReuse, w\<lparr>adb := d'\<rparr>)"
    unfolding refused_rotation_def Let_def
    using old_spent_read [where uuid = uuid and i = i, OF ok t(1-4)] family_gone(1) [where uuid = uuid and x = "tk_family t", OF ok t(5)] d'(1) t(3)
    by (simp add: bindE_run mapErr_run attempt_run ledger_run on_accounts_def refreshTokenFromRow_def split: option.split)
  then show ?thesis
    using run d' by auto
qed

text \<open>C17: replaying a refresh token.  Let a token be presented whose signature and expiry are good, which is a dashboard refresh token
  issued to an account that is enabled and still at the generation the token carries (below the largest one), and which the ledger records as spent more than the
  grace period ago.  It is answered with \<^verbatim>\<open>ErrRefreshTokenReuse\<close>; every token of its family is removed from the
  ledger, the one an attacker or the user holds too, and the account moves to a new generation.  A token of a
  disabled account or of an older generation is refused with another error and ends nothing.\<close>

theorem replay_ends_the_family:
  assumes "account_ok (adb w)" and "ParseWithClaims jwt (aclock w) key token = Some claims"
    and "ClType claims = ''refreshToken''" and "ClSubject claims = dashboardSubject" and "names_account uuid (adb w) claims u"
    and "t \<in> set (tokens (adb w))" and "ClID claims \<noteq> []" and "uuid (ClID claims) = Some (tk_id t)"
    and "tk_used t = Some since" and "since \<le> account_now (adb w) - refreshReplayGrace"
    and "uuid (tk_family t) = Some (tk_family t)" and "uuid (us_id u) = Some (us_id u)" and "us_version u < 2 ^ 31 - 1"
    and "RefreshSession ap jwt sha (pg_auth uuid ap key sso) newId familyId token w = (r, w')"
  shows "r = Inl ErrRefreshTokenReuse \<and> tk_family t \<notin> tk_family ` set (tokens (adb w')) \<and> outdated (us_id u) (us_version u) (adb w')"
proof -
  have u: "u \<in> set (users (adb w))" "ClUserID claims \<noteq> []" "uuid (ClUserID claims) = Some (us_id u)" "us_enabled u" "us_version u = ClSessionVersion claims"
    using assms(5) by (auto simp: names_account_def)
  let ?p = "user_principal (userFromRow u)"
  obtain d u' where d: "snd (pg_TouchUserLastConnected uuid (us_id u) (adb w)) = d" "account_ok d" "u' \<in> set (users d)" "us_id u' = us_id u"
      "us_version u' = us_version u" "tokens d = tokens (adb w)" "account_now d = account_now (adb w)"
    using touched [OF assms(1) u(1)] .
  have "resolveRefreshPrincipal (pg_user_repository uuid ap) (ClUserID claims) w = (Inr ?p, w\<lparr>adb := d\<rparr>)"
    using u d(1) user_by_id_mem [OF assms(1) u(1)]
    by (auto simp: resolveRefreshPrincipal_def principalForUser_def bindE_run mapErr_run attempt_run repository_run ledger_run on_accounts_def split: prod.split)
  moreover have "on_accounts (pg_RotateRefreshToken uuid (ClID claims) newId e) (w\<lparr>adb := d\<rparr>)
      = (Inl (StoreError (ErrResourceNotFound ''refresh token'' [ClID claims])), w\<lparr>adb := d\<rparr>)" for e
    using spent_not_rotated [where uuid = uuid and i = "ClID claims", OF d(2) _ assms(8,9)] assms(6) d(6) by (simp add: on_accounts_def)
  ultimately have "refused_rotation jwt sha (pg_auth uuid ap key sso) (pg_user_repository uuid ap) (pg_ledger uuid) ?p (ClID claims) (w\<lparr>adb := d\<rparr>) = (r, w')"
    using assms(2-4,7,14) u by (simp add: RefreshSession_def DecodeAndExtractJWTToken_def bindE_run attempt_run ledger_run user_principal_def)
  then show ?thesis
    using replay_refused [of "w\<lparr>adb := d\<rparr>" t uuid "ClID claims" since u' ?p] d assms(6-13) by (auto simp: user_principal_def)
qed

text \<open>C12: access lost is lost for good.  Once an account's password was changed or reset, its admin right or its access
  revoked, or the account deleted, no session or refresh token of the generation it had then, or of an older one, is
  accepted again, whatever the server does later, unless an account is created anew under the same identifier.\<close>

theorem revoked_for_good:
  assumes "account_ok (adb w)" and "u \<in> set (users (adb w))" and "revocation uuid ap u w w1"
    and "account_steps uuid ap jwt (- {us_id u}) w1 w2"
    and "ParseWithClaims jwt (aclock w2) key token = Some claims" and "uuid (ClUserID claims) = Some (us_id u)"
    and "ClSessionVersion claims \<le> us_version u"
  shows "isl (fst (AuthenticateSession jwt sha (pg_auth uuid ap key sso) token w2))
    \<and> isl (fst (RefreshSession ap jwt sha (pg_auth uuid ap key sso) newId familyId token w2))"
proof -
  have "outdated (us_id u) (us_version u) (adb w2)"
    using generation.steps_keep [OF assms(4)] revocation_outdates [OF assms(3,1,2)] by blast
  then show ?thesis
    using outdated_refuses [where uuid = uuid and claims = claims, OF _ assms(5-7)] by simp
qed

text \<open>C19: an enabled admin remains.  Whatever accounts are created, changed, disabled or deleted, and whoever signs in, a
  server with an enabled admin account has one after.\<close>

theorem enabled_admin_remains:
  assumes "administered (adb w)" and "account_steps uuid ap jwt UNIV w w'"
  shows "\<exists>u \<in> set (users (adb w')). us_admin u \<and> us_enabled u"
  using admin_left.steps_keep [OF assms(2,1)] by (simp add: administered_def)

lemma distinct_fibre: "distinct (map g (filter P xs)) \<Longrightarrow> length (filter (\<lambda>x. P x \<and> g x = y) xs) \<le> 1"
proof (induction xs)
  case (Cons x xs)
  have "filter (\<lambda>x. P x \<and> g x = y) xs = []" if "g x = y" "P x"
    using Cons.prems that by (auto simp: filter_empty_conv image_iff)
  then show ?case
    using Cons by (auto split: if_splits)
qed simp

text \<open>One live refresh token.  On a server where every family of refresh tokens has at most one unspent token, and
  a token is spent exactly when it has a successor, this stays so.\<close>

lemma one_live_token:
  assumes "chained (adb w)" and "account_steps uuid ap jwt UNIV w w'"
  shows "length (filter (\<lambda>t. tk_used t = None \<and> tk_family t = f) (tokens (adb w'))) \<le> 1"
  using ledger.steps_keep [OF assms(2,1)] distinct_fibre [of tk_family unspent "tokens (adb w')" f] by (simp add: chained_def unspent_def)

lemma deletion_ok:
  assumes "account_ok d"
  shows "account_ok (d\<lparr>users := filter (\<lambda>v. \<not> P v) (users d), tokens := filter (\<lambda>t. tk_user t \<notin> us_id ` set (filter P (users d))) (tokens d),
    grants := filter (\<lambda>g. gr_user g \<notin> us_id ` set (filter P (users d))) (grants d)\<rparr>)"
proof -
  have "i \<in> us_id ` set (filter (\<lambda>v. \<not> P v) (users d))" if "i \<in> us_id ` set (users d)" "i \<notin> us_id ` set (filter P (users d))" for i
    using that by auto
  then show ?thesis
    using assms unfolding account_ok_def account_uniques_def account_refs_def account_ranges_def list_all_iff
    by (simp add: distinct_map_filter del: set_filter) (simp add: set_filter)
qed

lemma deletes_run: "DeleteUserByID (pg_user_repository uuid ap) x w = on_accounts (pg_DeleteUserByID uuid x) w"
  by (simp add: pg_user_repository_def)

lemma event_ok:
  "fst (recordUserEvent (pg_users uuid ap sso) ctx action target metadata w) = Inr ()"
  "adb (snd (recordUserEvent (pg_users uuid ap sso) ctx action target metadata w)) = adb w"
  by (auto simp: recordUserEvent_def lift_event_def recordManagementEvent_def auth_record_def mapErr_run split: prod.splits)

lemma delete_user_run:
  assumes "pg_DeleteUserByID uuid x (adb w) = (Inr (), d)" and "actor \<noteq> x"
  shows "fst (DeleteUser (pg_users uuid ap sso) ctx actor x w) = Inr () \<and> adb (snd (DeleteUser (pg_users uuid ap sso) ctx actor x w)) = d"
  using assms event_ok
  by (simp add: DeleteUser_def requireControlPlane_def bindE_run attempt_run repository_run last_admin_def mapErr_run deletes_run on_accounts_def
      split: option.split)

text \<open>The guards against acting on one's own account compare the identifiers as text.  With another spelling of
  one's own identifier, one the database reads as the same, an admin deletes the account the guard protects.\<close>

lemma own_account_alias_deleted:
  assumes "account_ok (adb w)" and "u \<in> set (users (adb w))" and "spares_admin (adb w) u"
    and "uuid spelling = Some (us_id u)" and "spelling \<noteq> us_id u"
  shows "fst (DeleteUser (pg_users uuid ap sso) ctx (us_id u) spelling w) = Inr ()
    \<and> us_id u \<notin> us_id ` set (users (adb (snd (DeleteUser (pg_users uuid ap sso) ctx (us_id u) spelling w))))
    \<and> DeleteUser (pg_users uuid ap sso) ctx (us_id u) (us_id u) w = (Inl ErrCannotDeleteOwnAccount, w)"
proof -
  let ?hit = "\<lambda>v. Some (us_id v) = Some (us_id u) \<and> spares_admin (adb w) v"
  let ?gone = "us_id ` set (filter ?hit (users (adb w)))"
  let ?d = "adb w\<lparr>users := filter (\<lambda>v. \<not> ?hit v) (users (adb w)), tokens := filter (\<lambda>t. tk_user t \<notin> ?gone) (tokens (adb w)),
           grants := filter (\<lambda>g. gr_user g \<notin> ?gone) (grants (adb w))\<rparr>"
  have one: "v = u" if "v \<in> set (users (adb w))" "us_id v = us_id u" for v
    using user_id_unique [OF assms(1) that(1) assms(2) that(2)] .
  have gone: "us_id u \<notin> us_id ` set (users ?d)" and hits: "filter ?hit (users (adb w)) \<noteq> []"
    using assms(2,3) by (auto simp: filter_empty_conv dest!: one intro!: bexI [of _ u])
  have "account_ok ?d"
    using assms(1) by (rule deletion_ok)
  then have "pg_DeleteUserByID uuid spelling (adb w) = (Inr (), ?d)"
    using hits by (simp add: pg_DeleteUserByID_def guarded_write_def stored_def bindE_run mapErr_run deleteUserByID_def account_write_run Let_def ToPgUUID_def assms(4))
  then show ?thesis
    using gone delete_user_run [of uuid spelling w ?d "us_id u" ap sso ctx] assms(5) by (simp add: DeleteUser_def requireControlPlane_def)
qed

section \<open>Witnesses\<close>

definition demo_user :: "string \<Rightarrow> user_row" where
  "demo_user i = \<lparr>us_id = i, us_email = i @ ''@x'', us_hash = ''h'', us_admin = True, us_enabled = True, us_created = 0, us_updated = 0, us_connected = None,
     us_version = 0\<rparr>"

definition demo_token :: "string \<Rightarrow> int option \<Rightarrow> string option \<Rightarrow> token_row" where
  "demo_token i used replaced = \<lparr>tk_id = i, tk_user = ''a'', tk_family = ''f'', tk_created = 0, tk_expires = refreshTokenTTL, tk_used = used, tk_replaced = replaced\<rparr>"

definition demo_accounts :: account_db where
  "demo_accounts = \<lparr>account_apps = [], users = [demo_user ''a'', demo_user ''b''], tokens = [demo_token ''1'' (Some 0) (Some ''2''), demo_token ''2'' None None],
     roles = [], grants = [], account_now = 60 * second\<rparr>"

definition demo_auth :: auth_world where
  "demo_auth = \<lparr>adb = demo_accounts, aclock = 0, aaudit = []\<rparr>"

text \<open>Two spellings of an identifier, and tokens that are their own type.\<close>

definition demo_uuid :: uuid_parser where
  "demo_uuid s = (if s = [] then None else if s = ''A'' then Some ''a'' else Some s)"

definition demo_claims :: "string \<Rightarrow> sessionClaims" where
  "demo_claims kind = \<lparr>ClSubject = dashboardSubject, ClExpiresAt = 0, ClIssuedAt = 0, ClID = ''1'', ClType = kind, ClUserID = ''a'', ClEmail = [], ClIsAdmin = True,
     ClSessionVersion = 0, ClPasswordVersion = []\<rparr>"

definition demo_jwt :: JWTPackage where
  "demo_jwt = \<lparr>SignedString = (\<lambda>_ _. Some []), ParseWithClaims = (\<lambda>_ _ token. Some (demo_claims token))\<rparr>"

definition demo_packages :: AuthPackages where
  "demo_packages = \<lparr>GenerateFromPassword = Some, CompareHashAndPassword = (=), ParseAddress = Some, ToLower = id,
     IsUpper = (\<lambda>r. 65 \<le> r \<and> r \<le> 90), IsLower = (\<lambda>r. 97 \<le> r \<and> r \<le> 122), IsDigit = (\<lambda>r. 48 \<le> r \<and> r \<le> 57)\<rparr>"

definition no_one :: Ctx where
  "no_one = \<lparr>PrincipalFromContext = None, CliAuthFromContext = None\<rparr>"

lemmas demo_account_defs = demo_user_def demo_token_def demo_accounts_def demo_auth_def demo_uuid_def demo_claims_def demo_jwt_def demo_packages_def

lemma demo_ok: "account_ok demo_accounts"
  by (simp add: account_ok_def account_uniques_def account_refs_def account_ranges_def demo_account_defs)

lemma demo_wait: "account_steps uuid ap jwt new w (w\<lparr>adb := adb w\<lparr>account_now := account_now (adb w) + 5\<rparr>, aclock := aclock w + 5\<rparr>)"
  using account_step.pass [of 5 uuid ap jwt new w 5] by auto

lemma demo_deleted: "spares_admin demo_accounts (demo_user ''a'')"
  by (simp add: spares_admin_def admins_def demo_account_defs)

theorem replay_ends_the_family_witness:
  "fst (RefreshSession demo_packages demo_jwt id (pg_auth demo_uuid demo_packages [] None) ''3'' ''g'' ''refreshToken'' demo_auth) = Inl ErrRefreshTokenReuse
    \<and> ''f'' \<notin> tk_family ` set (tokens (adb (snd (RefreshSession demo_packages demo_jwt id (pg_auth demo_uuid demo_packages [] None) ''3'' ''g'' ''refreshToken'' demo_auth))))"
  using replay_ends_the_family [of demo_auth demo_jwt "[]" "''refreshToken''" "demo_claims ''refreshToken''" demo_uuid "demo_user ''a''"
      "demo_token ''1'' (Some 0) (Some ''2'')" 0 demo_packages id None "''3''" "''g''"
      "fst (RefreshSession demo_packages demo_jwt id (pg_auth demo_uuid demo_packages [] None) ''3'' ''g'' ''refreshToken'' demo_auth)"
      "snd (RefreshSession demo_packages demo_jwt id (pg_auth demo_uuid demo_packages [] None) ''3'' ''g'' ''refreshToken'' demo_auth)"] demo_ok
  by (simp add: demo_account_defs names_account_def refreshReplayGrace_def second_def)

theorem revoked_for_good_witness:
  "isl (fst (AuthenticateSession demo_jwt id (pg_auth demo_uuid demo_packages [] None) ''token''
     (let w = snd (DeleteUser (pg_users demo_uuid demo_packages None) no_one ''b'' ''a'' demo_auth)
      in w\<lparr>adb := adb w\<lparr>account_now := account_now (adb w) + 5\<rparr>, aclock := aclock w + 5\<rparr>)))"
proof -
  let ?w = "snd (DeleteUser (pg_users demo_uuid demo_packages None) no_one ''b'' ''a'' demo_auth)"
  have "fst (DeleteUser (pg_users demo_uuid demo_packages None) no_one ''b'' ''a'' demo_auth) = Inr ()"
    using demo_ok by (simp add: DeleteUser_def requireControlPlane_def bindE_run attempt_run repository_run deletes_run last_admin_def mapErr_run on_accounts_def
        pg_DeleteUserByID_def guarded_write_def stored_def deleteUserByID_def account_write_run account_ok_def account_uniques_def account_refs_def
        account_ranges_def event_ok demo_account_defs spares_admin_def admins_def ToPgUUID_def user_by_id_def del: set_filter)
  then have "revocation demo_uuid demo_packages (demo_user ''a'') demo_auth ?w"
    by (intro revocation.deleted [of _ "''a''" _ _ None no_one "''b''"]) (simp_all add: demo_uuid_def demo_user_def prod_eq_iff)
  then show ?thesis
    using revoked_for_good [of demo_auth "demo_user ''a''" demo_uuid demo_packages ?w demo_jwt _ "[]" "''token''" "demo_claims ''token''" id None "[]" "[]", OF _ _ _ demo_wait]
      demo_ok by (simp add: demo_account_defs Let_def)
qed

theorem enabled_admin_remains_witness:
  "\<exists>u \<in> set (users (adb (snd (DeleteUser (pg_users demo_uuid demo_packages None) no_one ''b'' ''a'' demo_auth)))). us_admin u \<and> us_enabled u"
  using enabled_admin_remains [of demo_auth demo_uuid demo_packages demo_jwt, OF _ r_into_rtranclp, OF _ account_step.delete_user] demo_ok
  by (auto simp: administered_def demo_account_defs)

end
