(* ===== verification/Access.thy ===== *)
theory Access
  imports Revocation
begin

text \<open>
  Roles and per-app grants, \<^verbatim>\<open>ee/rbac\<close>: the permission catalog, the statements on \<^verbatim>\<open>roles\<close> and
  \<^verbatim>\<open>user_app_grants\<close> and their repository, the service that manages and enforces them, and the two middlewares in
  front of the app-scoped dashboard routes.  Whether the enterprise license is active is a function of the state.
\<close>

section \<open>The catalog\<close>

definition AllPermissions :: "string list" where
  "AllPermissions = [''app:delete'', ''app:rename'', ''certificate:read'', ''branch:create'', ''branch:delete'', ''branch:protect'', ''channel:create'',
     ''channel:delete'', ''channel:edit-branch'', ''channel:branch-surfing'', ''channel-rollout:manage'', ''update-rollout:manage'', ''update:publish'',
     ''apikeys:manage'', ''identity:manage'', ''identity:read'', ''observe:read'']"

definition NoPermission :: string where "NoPermission = []"

definition IsValidPermission :: "string \<Rightarrow> bool" where
  "IsValidPermission p \<longleftrightarrow> p \<in> set AllPermissions"

definition anyMemberPermissions :: "string list" where
  "anyMemberPermissions = [''identity:read'', ''observe:read'']"

text \<open>The zero value is no declaration.\<close>

datatype Fallback = FallbackUnset | FallbackAdminOnly | FallbackAnyMember

definition DefaultFallback :: "string \<Rightarrow> Fallback" where
  "DefaultFallback p = (if p \<in> set anyMemberPermissions then FallbackAnyMember else FallbackAdminOnly)"

section \<open>Roles and grants\<close>

record Role =
  RoleID :: string
  RoleName :: string
  RolePerms :: "string list"
  RoleCreatedAt :: int
  RoleUpdatedAt :: int

record AppGrant =
  AgAppID :: string
  AgRoleID :: "string option"
  AgRoleName :: "string option"
  AgRolePermissions :: "string list"
  AgExtraPermissions :: "string list"

definition Effective :: "AppGrant \<Rightarrow> string list" where
  "Effective g = filter (\<lambda>p. p \<in> set (AgRolePermissions g) \<union> set (AgExtraPermissions g)) AllPermissions"

definition Has :: "AppGrant \<Rightarrow> string \<Rightarrow> bool" where
  "Has g perm \<longleftrightarrow> perm \<in> set (AgRolePermissions g) \<or> perm \<in> set (AgExtraPermissions g)"

record GrantInput =
  GiAppID :: string
  GiRoleID :: "string option"
  GiExtraPermissions :: "string list"

record Subject =
  SubUserID :: string
  SubIsAdmin :: bool

definition subjectFor :: "DashboardPrincipal \<Rightarrow> Subject" where
  "subjectFor p = \<lparr>SubUserID = PrUserId p, SubIsAdmin = PrIsAdmin p\<rparr>"

section \<open>Errors\<close>

datatype rbac_err =
    RbacStore err
  | RbacLookup auth_err
  | ErrRequiresControlPlane
  | ErrRequiresValidLicense
  | ErrRoleNotFound
  | ErrRoleInUse
  | ErrNoAppAccess
  | ErrPermissionDenied string
  | RbacValidation message

type_synonym ('s, 'a) rop = "('s, rbac_err, 'a) proc"
type_synonym 'a rrepo = "(account_db, rbac_err, 'a) proc"

definition rbac_wrap :: "string \<Rightarrow> db_error \<Rightarrow> rbac_err" where
  "rbac_wrap text e = RbacStore (Wrapped (Msg text []) (DbError e))"

section \<open>Statements\<close>

definition getRoleByID :: "string option \<Rightarrow> role_row astmt" where
  "getRoleByID i = account_read (\<lambda>d. find (\<lambda>r. Some (ro_id r) = i) (roles d))"

definition listRoles :: "role_row list astmt" where
  "listRoles = gets (\<lambda>d. sort_key ro_name (roles d))"

definition insertRole :: "string option \<Rightarrow> string \<Rightarrow> string list \<Rightarrow> role_row astmt" where
  "insertRole i name permissions = (case i of None \<Rightarrow> throw NotNullViolation
     | Some x \<Rightarrow> (\<lambda>d. let r = \<lparr>ro_id = x, ro_name = name, ro_permissions = permissions, ro_created = account_now d, ro_updated = account_now d\<rparr>
         in account_write (\<lambda>d. (d\<lparr>roles := roles d @ [r]\<rparr>, r)) d))"

definition updateRole :: "string option \<Rightarrow> string \<Rightarrow> string list \<Rightarrow> int astmt" where
  "updateRole i name permissions = account_write (\<lambda>d.
     (d\<lparr>roles := map (\<lambda>r. if Some (ro_id r) = i then r\<lparr>ro_name := name, ro_permissions := permissions, ro_updated := account_now d\<rparr> else r) (roles d)\<rparr>,
      int (length (filter (\<lambda>r. Some (ro_id r) = i) (roles d)))))"

text \<open>\<^verbatim>\<open>ON DELETE RESTRICT\<close>: a role that a grant refers to stays.\<close>

definition deleteRole :: "string option \<Rightarrow> int astmt" where
  "deleteRole i = account_write (\<lambda>d.
     (d\<lparr>roles := filter (\<lambda>r. Some (ro_id r) \<noteq> i) (roles d)\<rparr>, int (length (filter (\<lambda>r. Some (ro_id r) = i) (roles d)))))"

text \<open>The role a grant's row is joined with.\<close>

definition joined_role :: "account_db \<Rightarrow> grant_row \<Rightarrow> role_row option" where
  "joined_role d g = (case gr_role g of None \<Rightarrow> None | Some r \<Rightarrow> find (\<lambda>x. ro_id x = r) (roles d))"

definition getUserAppGrant :: "string option \<Rightarrow> string option \<Rightarrow> (grant_row \<times> role_row option) astmt" where
  "getUserAppGrant user app = account_read (\<lambda>d. map_option (\<lambda>g. (g, joined_role d g))
     (find (\<lambda>g. Some (gr_user g) = user \<and> Some (gr_app g) = app) (grants d)))"

definition listUserAppGrants :: "string option \<Rightarrow> (grant_row \<times> role_row option) list astmt" where
  "listUserAppGrants user = gets (\<lambda>d. map (\<lambda>g. (g, joined_role d g)) (sort_key gr_app (filter (\<lambda>g. Some (gr_user g) = user) (grants d))))"

definition listAccessibleAppIDs :: "string option \<Rightarrow> string list astmt" where
  "listAccessibleAppIDs user = gets (\<lambda>d. map gr_app (filter (\<lambda>g. Some (gr_user g) = user) (grants d)))"

definition countGrantsPerUser :: "(string \<times> int) list astmt" where
  "countGrantsPerUser = gets (\<lambda>d. map (\<lambda>u. (u, int (length (filter (\<lambda>g. gr_user g = u) (grants d))))) (remdups (map gr_user (grants d))))"

definition deleteUserAppGrantsByUser :: "string option \<Rightarrow> unit astmt" where
  "deleteUserAppGrantsByUser user = account_write (\<lambda>d. (d\<lparr>grants := filter (\<lambda>g. Some (gr_user g) \<noteq> user) (grants d)\<rparr>, ()))"

text \<open>An insert reports the constraint it breaks by name; the foreign keys are checked in the order of the table's
  columns, after the primary key.\<close>

definition insertUserAppGrant :: "string option \<Rightarrow> string option \<Rightarrow> string option \<Rightarrow> string list \<Rightarrow> (account_db, db_error \<times> string, unit) proc" where
  "insertUserAppGrant user app role extra = (\<lambda>d. case (user, app) of
       (Some u, Some a) \<Rightarrow>
         if (u, a) \<in> (\<lambda>g. (gr_user g, gr_app g)) ` set (grants d) then (Inl (UniqueViolation, ''user_app_grants_pkey''), d)
         else if u \<notin> us_id ` set (users d) then (Inl (ForeignKeyViolation, ''user_app_grants_user_id_fkey''), d)
         else if a \<notin> set (account_apps d) then (Inl (ForeignKeyViolation, ''user_app_grants_app_id_fkey''), d)
         else if \<not> pred_option (\<lambda>r. r \<in> ro_id ` set (roles d)) role then (Inl (ForeignKeyViolation, ''user_app_grants_role_id_fkey''), d)
         else (Inr (), d\<lparr>grants := grants d @ [\<lparr>gr_user = u, gr_app = a, gr_role = role, gr_extra = extra\<rparr>]\<rparr>)
     | _ \<Rightarrow> (Inl (NotNullViolation, []), d))"

section \<open>The repository\<close>

definition roleFromRow :: "role_row \<Rightarrow> Role" where
  "roleFromRow r = \<lparr>RoleID = ro_id r, RoleName = ro_name r, RolePerms = ro_permissions r, RoleCreatedAt = ro_created r, RoleUpdatedAt = ro_updated r\<rparr>"

definition grantFromRow :: "grant_row \<times> role_row option \<Rightarrow> AppGrant" where
  "grantFromRow row = (case row of (g, r) \<Rightarrow>
     \<lparr>AgAppID = gr_app g, AgRoleID = gr_role g, AgRoleName = map_option ro_name r, AgRolePermissions = (case r of None \<Rightarrow> [] | Some x \<Rightarrow> ro_permissions x),
      AgExtraPermissions = gr_extra g\<rparr>)"

definition pg_ListRoles :: "Role list rrepo" where
  "pg_ListRoles = bindE (mapErr (rbac_wrap ''failed to list roles from database: %w'') listRoles) (\<lambda>rows. ret (map roleFromRow rows))"

definition pg_GetRoleByID :: "uuid_parser \<Rightarrow> string \<Rightarrow> Role rrepo" where
  "pg_GetRoleByID uuid i = bindE (mapErr (\<lambda>e. if e = NoRows then ErrRoleNotFound else rbac_wrap ''failed to read role from database: %w'' e)
     (getRoleByID (ToPgUUID uuid i))) (\<lambda>row. ret (roleFromRow row))"

definition pg_InsertRole :: "uuid_parser \<Rightarrow> Role \<Rightarrow> Role rrepo" where
  "pg_InsertRole uuid role = bindE (mapErr (\<lambda>e. if e = UniqueViolation then RbacStore (ErrResourceAlreadyExists ''role'' [RoleName role])
       else rbac_wrap ''failed to insert role in database: %w'' e)
     (insertRole (ToPgUUID uuid (RoleID role)) (RoleName role) (RolePerms role))) (\<lambda>row. ret (roleFromRow row))"

definition pg_UpdateRole :: "uuid_parser \<Rightarrow> string \<Rightarrow> string \<Rightarrow> string list \<Rightarrow> unit rrepo" where
  "pg_UpdateRole uuid i name permissions = bindE (mapErr (\<lambda>e. if e = UniqueViolation then RbacStore (ErrResourceAlreadyExists ''role'' [name])
       else rbac_wrap ''failed to update role in database: %w'' e)
     (updateRole (ToPgUUID uuid i) name permissions)) (\<lambda>rows. if rows = 0 then throw ErrRoleNotFound else ret ())"

definition pg_DeleteRole :: "uuid_parser \<Rightarrow> string \<Rightarrow> unit rrepo" where
  "pg_DeleteRole uuid i = bindE (mapErr (\<lambda>e. if e = ForeignKeyViolation then ErrRoleInUse else rbac_wrap ''failed to delete role from database: %w'' e)
     (deleteRole (ToPgUUID uuid i))) (\<lambda>rows. if rows = 0 then throw ErrRoleNotFound else ret ())"

definition pg_ListUserGrants :: "uuid_parser \<Rightarrow> string \<Rightarrow> AppGrant list rrepo" where
  "pg_ListUserGrants uuid user = bindE (mapErr (rbac_wrap ''failed to list user grants from database: %w'') (listUserAppGrants (ToPgUUID uuid user))) (\<lambda>rows.
     ret (map grantFromRow rows))"

definition pg_GetUserAppGrant :: "uuid_parser \<Rightarrow> string \<Rightarrow> string \<Rightarrow> AppGrant option rrepo" where
  "pg_GetUserAppGrant uuid user app = (\<lambda>d. case getUserAppGrant (ToPgUUID uuid user) (ToPgUUID uuid app) d of
       (Inr row, d') \<Rightarrow> (Inr (Some ((grantFromRow row)\<lparr>AgRoleName := None\<rparr>)), d')
     | (Inl e, d') \<Rightarrow> (if e = NoRows then Inr None else Inl (rbac_wrap ''failed to read user grant from database: %w'' e), d'))"

definition replaceGrantError :: "db_error \<times> string \<Rightarrow> GrantInput \<Rightarrow> rbac_err" where
  "replaceGrantError e grant = (case e of (code, constraint) \<Rightarrow>
     if code = ForeignKeyViolation \<and> Contains constraint ''app_id'' then RbacValidation (Msg ''app %q does not exist'' [GiAppID grant])
     else if code = ForeignKeyViolation \<and> Contains constraint ''role_id'' then
       RbacValidation (Msg ''role %q does not exist'' [case GiRoleID grant of None \<Rightarrow> [] | Some r \<Rightarrow> r])
     else if code = ForeignKeyViolation \<and> Contains constraint ''user_id'' then RbacValidation (Msg ''user does not exist'' [])
     else RbacStore (DbError code))"

primrec insert_grants :: "uuid_parser \<Rightarrow> string option \<Rightarrow> GrantInput list \<Rightarrow> unit rrepo" where
  "insert_grants uuid user [] = ret ()"
| "insert_grants uuid user (g # gs) =
     (case GiRoleID g of
        Some r \<Rightarrow> if ToPgUUID uuid r = None then throw (RbacValidation (Msg ''invalid role id %q'' [r]))
          else bindE (mapErr (\<lambda>e. replaceGrantError e g) (insertUserAppGrant user (ToPgUUID uuid (GiAppID g)) (ToPgUUID uuid r) (GiExtraPermissions g))) (\<lambda>_.
            insert_grants uuid user gs)
      | None \<Rightarrow> bindE (mapErr (\<lambda>e. replaceGrantError e g) (insertUserAppGrant user (ToPgUUID uuid (GiAppID g)) None (GiExtraPermissions g))) (\<lambda>_.
            insert_grants uuid user gs))"

definition pg_ReplaceUserGrants :: "uuid_parser \<Rightarrow> string \<Rightarrow> GrantInput list \<Rightarrow> unit rrepo" where
  "pg_ReplaceUserGrants uuid user gs =
     mapErr (\<lambda>e. case e of RbacStore x \<Rightarrow> RbacStore (Wrapped (Msg ''failed to replace user grants in database: %w'' []) x) | _ \<Rightarrow> e)
       (AccountTx (bindE (mapErr (\<lambda>e. RbacStore (DbError e)) (deleteUserAppGrantsByUser (ToPgUUID uuid user))) (\<lambda>_.
          insert_grants uuid (ToPgUUID uuid user) gs)))"

definition pg_GrantCountsByUser :: "(string \<times> int) list rrepo" where
  "pg_GrantCountsByUser = mapErr (rbac_wrap ''failed to count grants per user from database: %w'') countGrantsPerUser"

definition pg_ListAccessibleAppIDs :: "uuid_parser \<Rightarrow> string \<Rightarrow> string list rrepo" where
  "pg_ListAccessibleAppIDs uuid user = mapErr (rbac_wrap ''failed to list accessible apps from database: %w'') (listAccessibleAppIDs (ToPgUUID uuid user))"

section \<open>The service\<close>

record 's RBACRepository =
  ListRolesOf :: "('s, Role list) rop"
  GetRoleByIDOf :: "string \<Rightarrow> ('s, Role) rop"
  InsertRoleOf :: "Role \<Rightarrow> ('s, Role) rop"
  UpdateRoleOf :: "string \<Rightarrow> string \<Rightarrow> string list \<Rightarrow> ('s, unit) rop"
  DeleteRoleOf :: "string \<Rightarrow> ('s, unit) rop"
  ListUserGrantsOf :: "string \<Rightarrow> ('s, AppGrant list) rop"
  GetUserAppGrantOf :: "string \<Rightarrow> string \<Rightarrow> ('s, AppGrant option) rop"
  ReplaceUserGrantsOf :: "string \<Rightarrow> GrantInput list \<Rightarrow> ('s, unit) rop"
  ListAccessibleAppIDsOf :: "string \<Rightarrow> ('s, string list) rop"
  GrantCountsByUserOf :: "('s, (string \<times> int) list) rop"

record 's RBACService =
  rsRepo :: "'s RBACRepository option"
  rsUserLookup :: "(string \<Rightarrow> ('s, User) aop) option"
  rsLicenseValid :: "'s \<Rightarrow> bool"
  rsOnAuditEvent :: "'s RecordFunc option"

definition recordManagement :: "'s RBACService \<Rightarrow> Ctx \<Rightarrow> string \<Rightarrow> string \<Rightarrow> string \<Rightarrow> string \<Rightarrow> (string \<times> meta) list \<Rightarrow> ('s, unit) rop" where
  "recordManagement rs ctx action targetType targetID targetDisplay metadata = (case rsOnAuditEvent rs of
     None \<Rightarrow> ret ()
   | Some record \<Rightarrow>
       let (actorID, actorDisplay) = (case PrincipalFromContext ctx of None \<Rightarrow> ([], []) | Some p \<Rightarrow> (PrUserId p, if PrEmail p = [] then PrUserId p else PrEmail p))
       in modify (record ((new_event action targetType targetID [] metadata)\<lparr>ActorType := ''user'', ActorID := actorID, ActorDisplay := actorDisplay,
            TargetDisplay := targetDisplay, Outcome := ''success''\<rparr>)))"

definition EnabledRoles :: "'s RBACService \<Rightarrow> 's \<Rightarrow> bool" where
  "EnabledRoles rs s \<longleftrightarrow> rsRepo rs \<noteq> None \<and> rsLicenseValid rs s"

definition requireWritable :: "'s RBACService \<Rightarrow> ('s RBACRepository \<Rightarrow> ('s, 'a) rop) \<Rightarrow> ('s, 'a) rop" where
  "requireWritable rs f = (case rsRepo rs of None \<Rightarrow> throw ErrRequiresControlPlane
     | Some repo \<Rightarrow> bindE (gets (rsLicenseValid rs)) (\<lambda>valid. if \<not> valid then throw ErrRequiresValidLicense else f repo))"

definition readable :: "'s RBACService \<Rightarrow> ('s RBACRepository \<Rightarrow> ('s, 'a) rop) \<Rightarrow> ('s, 'a) rop" where
  "readable rs f = (case rsRepo rs of None \<Rightarrow> throw ErrRequiresControlPlane | Some repo \<Rightarrow> f repo)"

definition validatePermissions :: "string list \<Rightarrow> rbac_err option" where
  "validatePermissions perms = map_option (\<lambda>p. RbacValidation (Msg ''unknown permission %q'' [p])) (find (\<lambda>p. \<not> IsValidPermission p) perms)"

definition normalizeRoleName :: "string \<Rightarrow> rbac_err + string" where
  "normalizeRoleName name =
     (let name = TrimSpace name
      in if name = [] then Inl (RbacValidation (Msg ''role name cannot be empty'' []))
         else if length name > 255 then Inl (RbacValidation (Msg ''role name cannot exceed 255 characters'' []))
         else Inr name)"

text \<open>The two checks of a role's name and permissions.\<close>

definition checked_role :: "string \<Rightarrow> string list \<Rightarrow> (string \<Rightarrow> ('s, 'a) rop) \<Rightarrow> ('s, 'a) rop" where
  "checked_role name permissions f = (case normalizeRoleName name of Inl e \<Rightarrow> throw e
     | Inr name \<Rightarrow> (case validatePermissions permissions of Some e \<Rightarrow> throw e | None \<Rightarrow> f name))"

definition permissions_meta :: "string list \<Rightarrow> meta" where
  "permissions_meta perms = MetaList (map MetaText perms)"

definition ListRoles :: "'s RBACService \<Rightarrow> ('s, Role list) rop" where
  "ListRoles rs = readable rs ListRolesOf"

definition CreateRole :: "'s RBACService \<Rightarrow> Ctx \<Rightarrow> string \<Rightarrow> string \<Rightarrow> string list \<Rightarrow> ('s, Role) rop" where
  "CreateRole rs ctx newId name permissions = requireWritable rs (\<lambda>repo. checked_role name permissions (\<lambda>name.
     bindE (InsertRoleOf repo \<lparr>RoleID = newId, RoleName = name, RolePerms = permissions, RoleCreatedAt = 0, RoleUpdatedAt = 0\<rparr>) (\<lambda>role.
     bindE (recordManagement rs ctx ''role.created'' ''role'' (RoleID role) (RoleName role) [(''permissions'', permissions_meta (RolePerms role))]) (\<lambda>_.
     ret role))))"

definition UpdateRole :: "'s RBACService \<Rightarrow> Ctx \<Rightarrow> string \<Rightarrow> string \<Rightarrow> string list \<Rightarrow> ('s, unit) rop" where
  "UpdateRole rs ctx i name permissions = requireWritable rs (\<lambda>repo. checked_role name permissions (\<lambda>name.
     bindE (UpdateRoleOf repo i name permissions) (\<lambda>_.
     recordManagement rs ctx ''role.updated'' ''role'' i name [(''permissions'', permissions_meta permissions)])))"

definition DeleteRole :: "'s RBACService \<Rightarrow> Ctx \<Rightarrow> string \<Rightarrow> ('s, unit) rop" where
  "DeleteRole rs ctx i = requireWritable rs (\<lambda>repo.
     bindE (attempt (GetRoleByIDOf repo i)) (\<lambda>found.
     bindE (DeleteRoleOf repo i) (\<lambda>_.
     recordManagement rs ctx ''role.deleted'' ''role'' i (case found of Inr role \<Rightarrow> RoleName role | Inl _ \<Rightarrow> i) [])))"

definition GetUserGrants :: "'s RBACService \<Rightarrow> string \<Rightarrow> ('s, AppGrant list) rop" where
  "GetUserGrants rs user = readable rs (\<lambda>repo. ListUserGrantsOf repo user)"

definition GrantCountsByUser :: "'s RBACService \<Rightarrow> ('s, (string \<times> int) list) rop" where
  "GrantCountsByUser rs = readable rs GrantCountsByUserOf"

primrec check_grants :: "string set \<Rightarrow> GrantInput list \<Rightarrow> rbac_err option" where
  "check_grants seenApps [] = None"
| "check_grants seenApps (g # gs) =
     (if GiAppID g \<in> seenApps then Some (RbacValidation (Msg ''app %q appears twice in the grants'' [GiAppID g]))
      else case validatePermissions (GiExtraPermissions g) of Some e \<Rightarrow> Some e
        | None \<Rightarrow> check_grants (insert (GiAppID g) seenApps) gs)"

definition grant_meta :: "GrantInput \<Rightarrow> meta" where
  "grant_meta g = MetaMap ((''app_id'', MetaText (GiAppID g))
     # (case GiRoleID g of None \<Rightarrow> [] | Some r \<Rightarrow> [(''role_id'', MetaText r)])
     @ (if GiExtraPermissions g \<noteq> [] then [(''extra_permissions'', permissions_meta (GiExtraPermissions g))] else []))"

definition SetUserGrants :: "'s RBACService \<Rightarrow> Ctx \<Rightarrow> string \<Rightarrow> GrantInput list \<Rightarrow> ('s, unit) rop" where
  "SetUserGrants rs ctx user gs = requireWritable rs (\<lambda>repo.
     case check_grants {} gs of Some e \<Rightarrow> throw e | None \<Rightarrow>
       bindE (ReplaceUserGrantsOf repo user gs) (\<lambda>_.
       if rsOnAuditEvent rs = None then ret ()
       else bindE (case rsUserLookup rs of None \<Rightarrow> ret user
                   | Some lookup \<Rightarrow> bindE (attempt (lookup user)) (\<lambda>found. ret (case found of Inr u \<Rightarrow> UEmail u | Inl _ \<Rightarrow> user))) (\<lambda>targetDisplay.
         recordManagement rs ctx ''user.grants_updated'' ''user'' user targetDisplay [(''grants'', MetaList (map grant_meta gs))])))"

section \<open>Decisions\<close>

definition grantAllows :: "AppGrant option \<Rightarrow> string \<Rightarrow> ('s, unit) rop" where
  "grantAllows grant perm = (case grant of None \<Rightarrow> throw ErrNoAppAccess
     | Some g \<Rightarrow> if \<not> Has g perm then throw (ErrPermissionDenied perm) else ret ())"

definition Authorize :: "'s RBACService \<Rightarrow> Subject \<Rightarrow> string \<Rightarrow> string \<Rightarrow> Fallback \<Rightarrow> ('s, unit) rop" where
  "Authorize rs subject appID perm fallback =
     (if SubIsAdmin subject then ret ()
      else case rsRepo rs of None \<Rightarrow> throw ErrRequiresControlPlane
      | Some repo \<Rightarrow> bindE (gets (rsLicenseValid rs)) (\<lambda>valid.
          if \<not> valid then if fallback = FallbackAnyMember then ret () else throw ErrRequiresValidLicense
          else bindE (GetUserAppGrantOf repo (SubUserID subject) appID) (\<lambda>grant. grantAllows grant perm)))"

text \<open>The map from an app to the member's permissions, as an association list without duplicate keys.\<close>

definition EffectivePermissionsByApp :: "'s RBACService \<Rightarrow> string \<Rightarrow> ('s, (string \<times> string list) list) rop" where
  "EffectivePermissionsByApp rs user = readable rs (\<lambda>repo. bindE (ListUserGrantsOf repo user) (\<lambda>gs.
     ret (fold (\<lambda>g. AList.update (AgAppID g) (Effective g)) gs [])))"

record AppPermissions =
  ApAppID :: string
  ApGranted :: "string list"
  ApDenied :: "string list"

record AccountPermissions =
  AcRole :: string
  AcRolesEnforced :: bool
  AcApps :: "AppPermissions list"

definition app_permissions :: "(string \<Rightarrow> bool) \<Rightarrow> string \<Rightarrow> AppPermissions" where
  "app_permissions allows appID = \<lparr>ApAppID = appID, ApGranted = filter allows AllPermissions, ApDenied = filter (\<lambda>p. \<not> allows p) AllPermissions\<rparr>"

definition DescribeAccountPermissions :: "'s RBACService \<Rightarrow> Subject \<Rightarrow> string list \<Rightarrow> ('s, AccountPermissions) rop" where
  "DescribeAccountPermissions rs subject allAppIDs = bindE (gets (EnabledRoles rs)) (\<lambda>enforced.
     let description = (\<lambda>apps. \<lparr>AcRole = (if SubIsAdmin subject then ''admin'' else ''member''), AcRolesEnforced = enforced, AcApps = apps\<rparr>)
     in if SubIsAdmin subject \<or> \<not> enforced then
          let granted = (if SubIsAdmin subject then AllPermissions else filter (\<lambda>p. DefaultFallback p = FallbackAnyMember) AllPermissions);
              denied = (if SubIsAdmin subject then [] else filter (\<lambda>p. DefaultFallback p \<noteq> FallbackAnyMember) AllPermissions)
          in ret (description (map (\<lambda>appID. \<lparr>ApAppID = appID, ApGranted = granted, ApDenied = denied\<rparr>) (sort allAppIDs)))
        else bindE (EffectivePermissionsByApp rs (SubUserID subject)) (\<lambda>byApp.
          ret (description (map (\<lambda>appID. app_permissions (\<lambda>p. p \<in> set (the (map_of byApp appID))) appID) (sort (map fst byApp))))))"

definition HasPermissionSomewhere :: "'s RBACService \<Rightarrow> Subject \<Rightarrow> string \<Rightarrow> Fallback \<Rightarrow> ('s, bool) rop" where
  "HasPermissionSomewhere rs subject perm fallback =
     (if SubIsAdmin subject then ret True
      else if rsRepo rs = None then ret False
      else bindE (gets (rsLicenseValid rs)) (\<lambda>valid.
        if \<not> valid then ret (fallback = FallbackAnyMember)
        else bindE (EffectivePermissionsByApp rs (SubUserID subject)) (\<lambda>byApp. ret (list_ex (\<lambda>(_, perms). perm \<in> set perms) byApp))))"

definition VisibleGrant :: "'s RBACService \<Rightarrow> Subject \<Rightarrow> string \<Rightarrow> ('s, bool \<times> AppGrant option) rop" where
  "VisibleGrant rs subject appID = bindE (gets (EnabledRoles rs)) (\<lambda>enabled.
     if SubIsAdmin subject \<or> \<not> enabled then ret (True, None)
     else case rsRepo rs of None \<Rightarrow> ret (True, None)
     | Some repo \<Rightarrow> bindE (GetUserAppGrantOf repo (SubUserID subject) appID) (\<lambda>grant. ret (grant \<noteq> None, grant)))"

definition VisibleApps :: "'s RBACService \<Rightarrow> Subject \<Rightarrow> ('s, string list option) rop" where
  "VisibleApps rs subject = bindE (gets (EnabledRoles rs)) (\<lambda>enabled.
     if SubIsAdmin subject \<or> \<not> enabled then ret None
     else readable rs (\<lambda>repo. bindE (ListAccessibleAppIDsOf repo (SubUserID subject)) (\<lambda>ids. ret (Some ids))))"

definition VisibleAppsForPrincipal :: "'s RBACService \<Rightarrow> DashboardPrincipal option \<Rightarrow> ('s, string set option) rop" where
  "VisibleAppsForPrincipal rs account = bindE (gets (EnabledRoles rs)) (\<lambda>enabled. case account of
     None \<Rightarrow> ret None
   | Some p \<Rightarrow> if \<not> enabled then ret None
       else let scope = (\<lambda>subject. bindE (VisibleApps rs subject) (\<lambda>ids. ret (map_option set ids)))
         in case rsUserLookup rs of
              None \<Rightarrow> scope (subjectFor p)
            | Some lookup \<Rightarrow> bindE (attempt (lookup (PrUserId p))) (\<lambda>found. case found of
                Inl e \<Rightarrow> if is_not_found e then ret (Some {}) else throw (RbacLookup e)
              | Inr user \<Rightarrow> scope \<lparr>SubUserID = PrUserId p, SubIsAdmin = UIsAdmin user\<rparr>))"

section \<open>Middlewares\<close>

record Request =
  rqCtx :: Ctx
  rqAppId :: string
  rqMethod :: string
  rqPath :: string
  rqGrant :: "AppGrant option"

record Response =
  rpStatus :: nat
  rpDetail :: message

type_synonym ('q, 's) handler = "'q Request_scheme \<Rightarrow> 's \<Rightarrow> Response \<times> 's"

definition RenderError :: "nat \<Rightarrow> message \<Rightarrow> 's \<Rightarrow> Response \<times> 's" where
  "RenderError status detail s = (\<lparr>rpStatus = status, rpDetail = detail\<rparr>, s)"

fun renderAuthorizeError :: "rbac_err \<Rightarrow> 's \<Rightarrow> Response \<times> 's" where
  "renderAuthorizeError ErrRequiresControlPlane = RenderError 403 (Msg ''This action requires an admin account'' [])"
| "renderAuthorizeError ErrRequiresValidLicense = RenderError 403 (Msg ''This action requires an admin account'' [])"
| "renderAuthorizeError ErrNoAppAccess = RenderError 404 (Msg ''app not found'' [])"
| "renderAuthorizeError (ErrPermissionDenied p) = RenderError 403 (Msg ''this action requires the %q permission on this app'' [p])"
| "renderAuthorizeError _ = RenderError 500 (Msg ''Could not verify permissions'' [])"

definition recordDenied :: "'s RBACService \<Rightarrow> 'q Request_scheme \<Rightarrow> Subject \<Rightarrow> string \<Rightarrow> rbac_err \<Rightarrow> (string \<times> meta) list \<Rightarrow> 's \<Rightarrow> 's" where
  "recordDenied rs rq subject appID cause metadata s = (case rsOnAuditEvent rs of None \<Rightarrow> s
     | Some record \<Rightarrow>
         let event = (\<lambda>extra. (new_event ''permission.denied'' ''app'' appID appID (metadata @ extra @ [(''method'', MetaText (rqMethod rq)), (''path'', MetaText (rqPath rq))]))
               \<lparr>ActorType := ''user'', ActorID := SubUserID subject,
                 ActorDisplay := (case PrincipalFromContext (rqCtx rq) of Some p \<Rightarrow> if PrEmail p \<noteq> [] then PrEmail p else SubUserID subject | None \<Rightarrow> SubUserID subject),
                 TargetDisplay := [], Outcome := ''denied''\<rparr>)
         in case cause of ErrPermissionDenied _ \<Rightarrow> record (event []) s
            | ErrNoAppAccess \<Rightarrow> record (event [(''reason'', MetaText ''no_app_grant'')]) s
            | _ \<Rightarrow> s)"

definition authorizeRequest :: "'s RBACService \<Rightarrow> 'q Request_scheme \<Rightarrow> string \<Rightarrow> Fallback \<Rightarrow> ('s \<Rightarrow> Response \<times> 's) \<Rightarrow> 's \<Rightarrow> Response \<times> 's" where
  "authorizeRequest rs rq perm fallback next s = (case PrincipalFromContext (rqCtx rq) of
     None \<Rightarrow> RenderError 403 (Msg ''This action requires a dashboard session'' []) s
   | Some p \<Rightarrow>
       let subject = subjectFor p; appId = rqAppId rq
       in if appId = [] then RenderError 400 (Msg ''invalid app id'' []) s
          else case (case rqGrant rq of Some g \<Rightarrow> grantAllows (Some g) perm s | None \<Rightarrow> Authorize rs subject appId perm fallback s) of
            (Inl e, s') \<Rightarrow> renderAuthorizeError e (recordDenied rs rq subject appId e [(''permission'', MetaText perm)] s')
          | (Inr _, s') \<Rightarrow> next s')"

definition RequirePermission :: "'s RBACService \<Rightarrow> string \<Rightarrow> Fallback \<Rightarrow> ('q, 's) handler \<Rightarrow> ('q, 's) handler" where
  "RequirePermission rs perm fallback next rq = authorizeRequest rs rq perm fallback (next rq)"

definition CliAuthAppFromContext :: "Ctx \<Rightarrow> string" where
  "CliAuthAppFromContext ctx = (case CliAuthFromContext ctx of None \<Rightarrow> [] | Some c \<Rightarrow> CaAppID c)"

definition RequireAppVisible :: "'s RBACService \<Rightarrow> ('q, 's) handler \<Rightarrow> ('q, 's) handler" where
  "RequireAppVisible rs next rq s = (case PrincipalFromContext (rqCtx rq) of
     None \<Rightarrow> if CliAuthAppFromContext (rqCtx rq) \<noteq> [] then next rq s else RenderError 403 (Msg ''This action requires a dashboard session'' []) s
   | Some p \<Rightarrow>
       let subject = subjectFor p; appId = rqAppId rq
       in case VisibleGrant rs subject appId s of
            (Inl _, s') \<Rightarrow> RenderError 500 (Msg ''Could not verify permissions'' []) s'
          | (Inr (visible, grant), s') \<Rightarrow>
              if \<not> visible then RenderError 404 (Msg ''app not found'' []) (recordDenied rs rq subject appId ErrNoAppAccess [] s')
              else next (if grant \<noteq> None then rq\<lparr>rqGrant := grant\<rparr> else rq) s')"

section \<open>On the server\<close>

definition pg_rbac_repository :: "uuid_parser \<Rightarrow> auth_world RBACRepository" where
  "pg_rbac_repository uuid =
     \<lparr>ListRolesOf = on_accounts pg_ListRoles, GetRoleByIDOf = (\<lambda>i. on_accounts (pg_GetRoleByID uuid i)), InsertRoleOf = (\<lambda>r. on_accounts (pg_InsertRole uuid r)),
      UpdateRoleOf = (\<lambda>i n ps. on_accounts (pg_UpdateRole uuid i n ps)), DeleteRoleOf = (\<lambda>i. on_accounts (pg_DeleteRole uuid i)),
      ListUserGrantsOf = (\<lambda>u. on_accounts (pg_ListUserGrants uuid u)), GetUserAppGrantOf = (\<lambda>u a. on_accounts (pg_GetUserAppGrant uuid u a)),
      ReplaceUserGrantsOf = (\<lambda>u gs. on_accounts (pg_ReplaceUserGrants uuid u gs)), ListAccessibleAppIDsOf = (\<lambda>u. on_accounts (pg_ListAccessibleAppIDs uuid u)),
      GrantCountsByUserOf = on_accounts pg_GrantCountsByUser\<rparr>"

definition pg_rbac :: "uuid_parser \<Rightarrow> AuthPackages \<Rightarrow> (auth_world \<Rightarrow> bool) \<Rightarrow> auth_world RBACService" where
  "pg_rbac uuid ap licensed = \<lparr>rsRepo = Some (pg_rbac_repository uuid), rsUserLookup = Some (GetUserByID (pg_user_repository uuid ap)),
     rsLicenseValid = licensed, rsOnAuditEvent = Some auth_record\<rparr>"

lemma pg_rbac_fields [simp]:
  "rsRepo (pg_rbac uuid ap licensed) = Some (pg_rbac_repository uuid)" "rsLicenseValid (pg_rbac uuid ap licensed) = licensed"
  "rsUserLookup (pg_rbac uuid ap licensed) = Some (GetUserByID (pg_user_repository uuid ap))" "rsOnAuditEvent (pg_rbac uuid ap licensed) = Some auth_record"
  by (simp_all add: pg_rbac_def)

lemma on_accounts_run: "on_accounts m w = (fst (m (adb w)), w\<lparr>adb := snd (m (adb w))\<rparr>)"
  by (simp add: on_accounts_def split: prod.split)

lemma enabled_pg [simp]: "EnabledRoles (pg_rbac uuid ap licensed) w = licensed w"
  by (simp add: EnabledRoles_def)

section \<open>What the decisions rest on\<close>

text \<open>A member's grant on an app, as the enforcement reads it.\<close>

definition member_grant :: "uuid_parser \<Rightarrow> account_db \<Rightarrow> string \<Rightarrow> string \<Rightarrow> AppGrant option" where
  "member_grant uuid d user app = map_option (\<lambda>g. (grantFromRow (g, joined_role d g))\<lparr>AgRoleName := None\<rparr>)
     (find (\<lambda>g. Some (gr_user g) = uuid user \<and> Some (gr_app g) = uuid app) (grants d))"

lemma GetUserAppGrant_run [simp]: "GetUserAppGrantOf (pg_rbac_repository uuid) user app w = (Inr (member_grant uuid (adb w) user app), w)"
  by (simp add: pg_rbac_repository_def on_accounts_run pg_GetUserAppGrant_def getUserAppGrant_def account_read_def member_grant_def ToPgUUID_def
      split: option.split)

definition member_grants :: "uuid_parser \<Rightarrow> account_db \<Rightarrow> string \<Rightarrow> AppGrant list" where
  "member_grants uuid d user = map (\<lambda>g. grantFromRow (g, joined_role d g)) (sort_key gr_app (filter (\<lambda>g. Some (gr_user g) = uuid user) (grants d)))"

lemma ListUserGrants_run [simp]: "ListUserGrantsOf (pg_rbac_repository uuid) user w = (Inr (member_grants uuid (adb w) user), w)"
  by (simp add: pg_rbac_repository_def on_accounts_run pg_ListUserGrants_def listUserAppGrants_def member_grants_def ToPgUUID_def bindE_run mapErr_run comp_def)

lemma Has_nameless [simp]: "Has (g\<lparr>AgRoleName := n\<rparr>) p = Has g p"
  by (simp add: Has_def)

lemma Effective_iff: "p \<in> set (Effective g) \<longleftrightarrow> IsValidPermission p \<and> Has g p"
  by (auto simp: Effective_def Has_def IsValidPermission_def)

lemma grant_unique:
  assumes "account_ok d" and "g \<in> set (grants d)" and "h \<in> set (grants d)" and "gr_user g = gr_user h" and "gr_app g = gr_app h"
  shows "g = h"
  using assms distinct_map_eq [of "\<lambda>g. (gr_user g, gr_app g)" "grants d" g h] by (simp add: account_ok_def account_uniques_def)

lemma Authorize_run:
  "Authorize (pg_rbac uuid ap licensed) subject app perm fallback w =
     (if SubIsAdmin subject then (Inr (), w)
      else if \<not> licensed w then (if fallback = FallbackAnyMember then Inr () else Inl ErrRequiresValidLicense, w)
      else grantAllows (member_grant uuid (adb w) (SubUserID subject) app) perm w)"
  by (simp add: Authorize_def bindE_run)

lemma grantAllows_ok: "fst (grantAllows grant perm s) = Inr () \<longleftrightarrow> (\<exists>g. grant = Some g \<and> Has g perm)" and grantAllows_state: "snd (grantAllows grant perm s) = s"
  by (simp_all add: grantAllows_def split: option.split)

lemma member_grants_mem:
  "g \<in> set (member_grants uuid d user) \<longleftrightarrow> (\<exists>r \<in> set (grants d). Some (gr_user r) = uuid user \<and> g = grantFromRow (r, joined_role d r))"
  by (auto simp: member_grants_def)

lemma grantFromRow_app [simp]: "AgAppID (grantFromRow (g, r)) = gr_app g"
  by (simp add: grantFromRow_def)

lemma member_grants_apps: "account_ok d \<Longrightarrow> distinct (map AgAppID (member_grants uuid d user))"
proof -
  assume ok: "account_ok d"
  have "inj_on gr_app (set (filter (\<lambda>g. Some (gr_user g) = uuid user) (grants d)))"
    using grant_unique [OF ok] by (auto intro!: inj_onI) (metis option.inject)
  moreover have "distinct (grants d)"
    using ok unfolding account_ok_def account_uniques_def distinct_map by blast
  ultimately have "distinct (map gr_app (filter (\<lambda>g. Some (gr_user g) = uuid user) (grants d)))"
    by (simp add: distinct_map)
  then have "distinct (map gr_app (sort_key gr_app (filter (\<lambda>g. Some (gr_user g) = uuid user) (grants d))))"
    by (simp add: distinct_map)
  then show ?thesis
    by (simp add: member_grants_def comp_def)
qed

text \<open>The grant the enforcement reads is the one the listing shows.\<close>

lemma member_grant_listed:
  assumes "account_ok d"
  shows "(\<exists>g. member_grant uuid d user app = Some g \<and> Has g p) \<longleftrightarrow> (\<exists>g \<in> set (member_grants uuid d user). Some (AgAppID g) = uuid app \<and> Has g p)"
proof (cases "find (\<lambda>g. Some (gr_user g) = uuid user \<and> Some (gr_app g) = uuid app) (grants d)")
  case None
  then have "\<not> (Some (gr_user r) = uuid user \<and> Some (gr_app r) = uuid app)" if "r \<in> set (grants d)" for r
    using that by (auto simp: find_None_iff)
  then show ?thesis
    using None by (auto simp: member_grant_def member_grants_mem)
next
  case (Some g)
  have g: "g \<in> set (grants d)" "uuid user = Some (gr_user g)" "uuid app = Some (gr_app g)"
    using find_Some_mem [OF Some] by auto
  have one: "r = g" if "r \<in> set (grants d)" "gr_user r = gr_user g" "gr_app r = gr_app g" for r
    using grant_unique [OF assms that(1) g(1) that(2,3)] .
  have "grantFromRow (g, joined_role d g) \<in> set (member_grants uuid d user)"
    using g by (auto simp: member_grants_mem)
  moreover have "h = grantFromRow (g, joined_role d g)" if "h \<in> set (member_grants uuid d user)" "AgAppID h = gr_app g" for h
    using that g(2) by (auto simp: member_grants_mem dest!: one)
  ultimately have "(\<exists>h \<in> set (member_grants uuid d user). AgAppID h = gr_app g \<and> Has h p) \<longleftrightarrow> Has (grantFromRow (g, joined_role d g)) p"
    by (metis grantFromRow_app)
  then show ?thesis
    using Some g by (simp add: member_grant_def)
qed

lemma update_fresh: "k \<notin> fst ` set xs \<Longrightarrow> AList.update k v xs = xs @ [(k, v)]"
  by (induction xs) auto

lemma fold_update_distinct: "distinct (map f gs) \<Longrightarrow> fold (\<lambda>g. AList.update (f g) (h g)) gs [] = map (\<lambda>g. (f g, h g)) gs"
proof (induction gs rule: rev_induct)
  case (snoc g gs)
  then show ?case
    by (simp add: update_fresh image_image)
qed simp

lemma by_app_run:
  "account_ok (adb w) \<Longrightarrow> EffectivePermissionsByApp (pg_rbac uuid ap licensed) user w
     = (Inr (map (\<lambda>g. (AgAppID g, Effective g)) (member_grants uuid (adb w) user)), w)"
  by (simp add: EffectivePermissionsByApp_def readable_def bindE_run fold_update_distinct member_grants_apps)

text \<open>The app a description lists a permission on.\<close>

definition shows_permission :: "AccountPermissions \<Rightarrow> string \<Rightarrow> string \<Rightarrow> bool" where
  "shows_permission description app perm \<longleftrightarrow> list_ex (\<lambda>a. ApAppID a = app \<and> perm \<in> set (ApGranted a)) (AcApps description)"

text \<open>C13: what an account is told is what it may do.  The permissions that \<^verbatim>\<open>DescribeAccountPermissions\<close> lists for an
  app of the deployment are exactly those for which \<^verbatim>\<open>Authorize\<close> lets the account act on it, for admins, members with
  grants, and members of a deployment without an active license.\<close>

theorem described_permissions_enforced:
  assumes "account_ok (adb w)" and "uuid app = Some app" and "app \<in> set allAppIDs" and "IsValidPermission perm"
  shows "\<exists>description. DescribeAccountPermissions (pg_rbac uuid ap licensed) subject allAppIDs w = (Inr description, w)
    \<and> (shows_permission description app perm
        \<longleftrightarrow> fst (Authorize (pg_rbac uuid ap licensed) subject app perm (DefaultFallback perm) w) = Inr ())"
proof (cases "SubIsAdmin subject \<or> \<not> licensed w")
  case True
  then show ?thesis
    using assms(3,4)
    by (auto simp: DescribeAccountPermissions_def Let_def bindE_run Authorize_run shows_permission_def list_ex_iff IsValidPermission_def DefaultFallback_def)
next
  case False
  let ?gs = "member_grants uuid (adb w) (SubUserID subject)"
  let ?apps = "map (\<lambda>appID. app_permissions (\<lambda>p. p \<in> set (the (map_of (map (\<lambda>g. (AgAppID g, Effective g)) ?gs) appID))) appID) (sort (map AgAppID ?gs))"
  have "map_of (map (\<lambda>g. (AgAppID g, Effective g)) ?gs) (AgAppID g) = Some (Effective g)" if "g \<in> set ?gs" for g
    using that member_grants_apps [OF assms(1)] by (intro map_of_is_SomeI) (auto simp: comp_def)
  then have "(\<exists>a \<in> set ?apps. ApAppID a = app \<and> perm \<in> set (ApGranted a)) \<longleftrightarrow> (\<exists>g \<in> set ?gs. AgAppID g = app \<and> perm \<in> set (Effective g))"
    using assms(4) by (auto simp: app_permissions_def IsValidPermission_def)
  then have "(\<exists>a \<in> set ?apps. ApAppID a = app \<and> perm \<in> set (ApGranted a)) \<longleftrightarrow> (\<exists>g. member_grant uuid (adb w) (SubUserID subject) app = Some g \<and> Has g perm)"
    using member_grant_listed [OF assms(1)] assms(2,4) by (auto simp: Effective_iff)
  then show ?thesis
    using False by (simp add: DescribeAccountPermissions_def Let_def bindE_run by_app_run assms(1) comp_def Authorize_run grantAllows_ok shows_permission_def list_ex_iff)
qed

text \<open>Visibility of a tool.  \<^verbatim>\<open>HasPermissionSomewhere\<close> is true exactly when there is an app on which \<^verbatim>\<open>Authorize\<close> lets
  the account act with that permission.\<close>

lemma somewhere_iff_authorized:
  assumes "account_ok (adb w)" and "IsValidPermission perm" and "\<And>a. a \<in> set (account_apps (adb w)) \<Longrightarrow> uuid a = Some a"
  shows "HasPermissionSomewhere (pg_rbac uuid ap licensed) subject perm fallback w
    = (Inr (\<exists>app. fst (Authorize (pg_rbac uuid ap licensed) subject app perm fallback w) = Inr ()), w)"
proof (cases "SubIsAdmin subject \<or> \<not> licensed w")
  case True
  then show ?thesis
    by (auto simp: HasPermissionSomewhere_def bindE_run Authorize_run)
next
  case False
  let ?gs = "member_grants uuid (adb w) (SubUserID subject)"
  have "(\<exists>g \<in> set ?gs. Has g perm) \<longleftrightarrow> (\<exists>app. \<exists>g. member_grant uuid (adb w) (SubUserID subject) app = Some g \<and> Has g perm)"
    unfolding member_grant_listed [OF assms(1)]
  proof safe
    fix g
    assume g: "g \<in> set ?gs" "Has g perm"
    then have "uuid (AgAppID g) = Some (AgAppID g)"
      using assms(1,3) by (auto simp: member_grants_mem account_ok_def account_refs_def list_all_iff)
    then show "\<exists>app. \<exists>g \<in> set ?gs. Some (AgAppID g) = uuid app \<and> Has g perm"
      using g by metis
  qed blast
  then show ?thesis
    using False assms(2)
    by (simp add: HasPermissionSomewhere_def bindE_run by_app_run assms(1) list_ex_iff Effective_iff Authorize_run grantAllows_ok)
qed

section \<open>A route behind the middlewares\<close>

lemma recordDenied_silent: "adb (recordDenied (pg_rbac uuid ap licensed) rq subject app e metadata w) = adb w"
  by (simp add: recordDenied_def auth_record_def Let_def split: rbac_err.split)

lemma VisibleGrant_run:
  "VisibleGrant (pg_rbac uuid ap licensed) subject app w =
     (if SubIsAdmin subject \<or> \<not> licensed w then (Inr (True, None), w)
      else (Inr (member_grant uuid (adb w) (SubUserID subject) app \<noteq> None, member_grant uuid (adb w) (SubUserID subject) app), w))"
  by (simp add: VisibleGrant_def bindE_run)

text \<open>C16: a route behind the two middlewares.  For a signed-in account, the handler behind \<^verbatim>\<open>RequireAppVisible\<close> and
  \<^verbatim>\<open>RequirePermission\<close> runs exactly when \<^verbatim>\<open>Authorize\<close> allows the action, on the untouched state, although the second
  middleware judges the grant the first one loaded; otherwise the answer is a 403 or a 404 that does not depend on the
  handler, and the account tables are as before.\<close>

theorem guarded_route:
  assumes "PrincipalFromContext (rqCtx rq) = Some p" and "rqAppId rq \<noteq> []" and "rqGrant rq = None"
  shows "if fst (Authorize (pg_rbac uuid ap licensed) (subjectFor p) (rqAppId rq) perm fallback w) = Inr ()
    then \<exists>grant. RequireAppVisible (pg_rbac uuid ap licensed) (RequirePermission (pg_rbac uuid ap licensed) perm fallback handler) rq w
       = handler (rq\<lparr>rqGrant := grant\<rparr>) w
    else \<exists>r w'. adb w' = adb w \<and> rpStatus r \<in> {403, 404}
       \<and> (\<forall>h. RequireAppVisible (pg_rbac uuid ap licensed) (RequirePermission (pg_rbac uuid ap licensed) perm fallback h) rq w = (r, w'))"
proof (cases "SubIsAdmin (subjectFor p) \<or> \<not> licensed w")
  case True
  have same: "rq\<lparr>rqGrant := None\<rparr> = rq"
    using assms(3) by (cases rq) simp
  show ?thesis
    using True assms unfolding RequireAppVisible_def RequirePermission_def authorizeRequest_def Let_def
    by (auto simp: VisibleGrant_run Authorize_run RenderError_def recordDenied_silent same intro!: exI [of _ "None :: AppGrant option"])
next
  case False
  show ?thesis
  proof (cases "member_grant uuid (adb w) (SubUserID (subjectFor p)) (rqAppId rq)")
    case None
    then show ?thesis
      using False assms unfolding RequireAppVisible_def Let_def
      by (simp add: VisibleGrant_run Authorize_run grantAllows_def RenderError_def recordDenied_silent)
  next
    case (Some g)
    then show ?thesis
      using False assms unfolding RequireAppVisible_def RequirePermission_def authorizeRequest_def Let_def
      by (auto simp: VisibleGrant_run Authorize_run grantAllows_def RenderError_def recordDenied_silent)
  qed
qed

section \<open>The catalog holds every stored permission\<close>

definition catalogued :: "account_db \<Rightarrow> bool" where
  "catalogued d \<longleftrightarrow> list_all (\<lambda>r. list_all IsValidPermission (ro_permissions r)) (roles d) \<and> list_all (\<lambda>g. list_all IsValidPermission (gr_extra g)) (grants d)"

lemma catalogued_write:
  assumes "\<And>d. roles (fst (f d)) = roles d" and "\<And>d. set (grants (fst (f d))) \<subseteq> set (grants d)"
  shows "keeps catalogued (account_write f)"
  using assms by (intro keeps_account_write) (fastforce simp: catalogued_def list_all_iff)

interpretation catalog: account_invariant catalogued uuid UNIV for uuid
proof
  fix i :: string and email hash a n
  show "keeps catalogued (insertUser (Some i) email hash a n)"
    by rule (auto simp: insertUser_def account_write_run catalogued_def Let_def)
next
  fix j
  have set: "keeps catalogued (set_users P f)" for P f
    unfolding set_users_def by (rule catalogued_write) simp_all
  show "keeps catalogued (deleteUserByID j)"
    unfolding deleteUserByID_def by (rule catalogued_write) (auto simp: Let_def)
  show "keeps catalogued (updateUserPasswordByID j hash)" "keeps catalogued (updateUserIsAdminByID j a)" "keeps catalogued (updateUserEnabledByID j a)"
      "keeps catalogued (bumpUserSessionVersion j)" "keeps catalogued (touchUserLastConnectedAt j)" for hash a
    unfolding updateUserPasswordByID_def updateUserIsAdminByID_def updateUserEnabledByID_def bumpUserSessionVersion_def touchUserLastConnectedAt_def
    by (rule set)+
  show "keeps catalogued (deleteExpiredRefreshTokensForUser j)" "keeps catalogued (deleteRefreshTokenFamily g)" for g
    unfolding deleteExpiredRefreshTokensForUser_def deleteRefreshTokenFamily_def by (rule catalogued_write; simp)+
  have insert: "keeps catalogued (insertRefreshToken k u f t)" for k u f t
    unfolding insertRefreshToken_def by (auto split: option.split intro!: catalogued_write)
  then show "catalogued d \<Longrightarrow> f \<notin> tk_family ` set (tokens d) \<Longrightarrow> catalogued (snd (insertRefreshToken k j (Some f) t d))" for d f k t
    by (simp add: keepsD)
  have "keeps catalogued (consumeRefreshToken r k)" for r k
    by rule (auto simp: consumeRefreshToken_def account_write_run catalogued_def split: option.split)
  then show "keeps catalogued (pg_RotateRefreshToken uuid old next t)" for old "next" t
    unfolding pg_RotateRefreshToken_def using insert by (intro keeps_AccountTx keeps_bindE keeps_mapErr keeps_stored) auto
next
  fix d and t :: int
  show "catalogued d \<Longrightarrow> catalogued (d\<lparr>account_now := account_now d + t\<rparr>)"
    by (simp add: catalogued_def)
qed

text \<open>The operations on accounts, roles and grants.\<close>

inductive access_step :: "uuid_parser \<Rightarrow> AuthPackages \<Rightarrow> JWTPackage \<Rightarrow> auth_world \<Rightarrow> auth_world \<Rightarrow> bool"
  for uuid :: uuid_parser and ap :: AuthPackages and jwt :: JWTPackage where
  on_account: "account_step uuid ap jwt UNIV w w' \<Longrightarrow> access_step uuid ap jwt w w'"
| create_role: "access_step uuid ap jwt w (snd (CreateRole (pg_rbac uuid ap licensed) ctx newId name perms w))"
| update_role: "access_step uuid ap jwt w (snd (UpdateRole (pg_rbac uuid ap licensed) ctx i name perms w))"
| delete_role: "access_step uuid ap jwt w (snd (DeleteRole (pg_rbac uuid ap licensed) ctx i w))"
| set_grants: "access_step uuid ap jwt w (snd (SetUserGrants (pg_rbac uuid ap licensed) ctx user gs w))"

lemma record_silent: "keeps (\<lambda>w. P (adb w)) (recordManagement (pg_rbac uuid ap licensed) ctx action kind i shown metadata)"
  by (auto simp: recordManagement_def auth_record_def Let_def intro!: keeps_modify split: option.split prod.split)

lemma validated: "validatePermissions perms = None \<longleftrightarrow> list_all IsValidPermission perms"
  by (auto simp: validatePermissions_def find_None_iff list_all_iff)

lemma checked_validated: "check_grants seen gs = None \<Longrightarrow> list_all (\<lambda>g. list_all IsValidPermission (GiExtraPermissions g)) gs"
  by (induction gs arbitrary: seen) (auto simp: validated split: if_splits option.splits)

lemma keeps_insertUserAppGrant: "list_all IsValidPermission extra \<Longrightarrow> keeps catalogued (insertUserAppGrant user app role extra)"
  by (rule keepsI) (auto simp: insertUserAppGrant_def catalogued_def split: option.split)

lemma keeps_insert_grants: "list_all (\<lambda>g. list_all IsValidPermission (GiExtraPermissions g)) gs \<Longrightarrow> keeps catalogued (insert_grants uuid user gs)"
  by (induction gs) (auto intro!: keeps_bindE keeps_mapErr keeps_insertUserAppGrant split: option.split)

lemma keeps_roles:
  "list_all IsValidPermission (RolePerms role) \<Longrightarrow> keeps catalogued (pg_InsertRole uuid role)"
  "list_all IsValidPermission perms \<Longrightarrow> keeps catalogued (pg_UpdateRole uuid i name perms)"
  "keeps catalogued (pg_DeleteRole uuid i)" "keeps catalogued (pg_GetRoleByID uuid i)"
  "list_all (\<lambda>g. list_all IsValidPermission (GiExtraPermissions g)) gs \<Longrightarrow> keeps catalogued (pg_ReplaceUserGrants uuid user gs)"
proof -
  show "keeps catalogued (pg_InsertRole uuid role)" if "list_all IsValidPermission (RolePerms role)"
  proof -
    have "keeps catalogued (insertRole i name (RolePerms role))" for i name
      using that by (intro keepsI) (auto simp: insertRole_def account_write_run catalogued_def Let_def split: option.split)
    then show ?thesis
      unfolding pg_InsertRole_def by (auto intro!: keeps_bindE keeps_mapErr)
  qed
  show "keeps catalogued (pg_UpdateRole uuid i name perms)" if "list_all IsValidPermission perms"
    using that unfolding pg_UpdateRole_def updateRole_def
    by (auto intro!: keeps_bindE keeps_mapErr keeps_account_write simp: catalogued_def list_all_iff)
  show "keeps catalogued (pg_DeleteRole uuid i)"
    unfolding pg_DeleteRole_def deleteRole_def by (auto intro!: keeps_bindE keeps_mapErr keeps_account_write simp: catalogued_def list_all_iff)
  show "keeps catalogued (pg_GetRoleByID uuid i)"
    unfolding pg_GetRoleByID_def getRoleByID_def by (auto intro!: keeps_bindE keeps_mapErr)
  show "keeps catalogued (pg_ReplaceUserGrants uuid user gs)" if "list_all (\<lambda>g. list_all IsValidPermission (GiExtraPermissions g)) gs"
    using that unfolding pg_ReplaceUserGrants_def deleteUserAppGrantsByUser_def
    by (auto intro!: keeps_mapErr keeps_AccountTx keeps_bindE keeps_insert_grants catalogued_write)
qed

lemma access_keeps_catalogued:
  assumes "access_step uuid ap jwt w w'" and "catalogued (adb w)"
  shows "catalogued (adb w')"
proof -
  let ?P = "\<lambda>w. catalogued (adb w)"
  have create: "keeps ?P (CreateRole (pg_rbac uuid ap licensed) ctx newId name perms)" for licensed ctx newId name perms
    unfolding CreateRole_def requireWritable_def checked_role_def
    by (auto intro!: keeps_bindE record_silent keeps_on_accounts [where P = catalogued] keeps_roles simp: validated pg_rbac_repository_def split: sum.split option.split)
  have update: "keeps ?P (UpdateRole (pg_rbac uuid ap licensed) ctx i name perms)" for licensed ctx i name perms
    unfolding UpdateRole_def requireWritable_def checked_role_def
    by (auto intro!: keeps_bindE record_silent keeps_on_accounts [where P = catalogued] keeps_roles simp: validated pg_rbac_repository_def split: sum.split option.split)
  have delete: "keeps ?P (DeleteRole (pg_rbac uuid ap licensed) ctx i)" for licensed ctx i
    unfolding DeleteRole_def requireWritable_def
    by (auto intro!: keeps_bindE keeps_attempt record_silent keeps_on_accounts [where P = catalogued] keeps_roles simp: pg_rbac_repository_def)
  have grant: "keeps ?P (SetUserGrants (pg_rbac uuid ap licensed) ctx user gs)" for licensed ctx user gs
    unfolding SetUserGrants_def requireWritable_def
    by (auto intro!: keeps_bindE keeps_attempt record_silent keeps_on_accounts [where P = catalogued] keeps_roles catalog.repository_keeps
        simp: pg_rbac_repository_def dest: checked_validated split: option.split)
  show ?thesis
    using assms catalog.step_keeps keepsD [where P = ?P, OF create] keepsD [where P = ?P, OF update] keepsD [where P = ?P, OF delete] keepsD [where P = ?P, OF grant]
    by (cases rule: access_step.cases) auto
qed

text \<open>C39: stored permissions are typed.  On a server whose roles and grants hold only permissions of the catalog, every
  sequence of operations on accounts, roles and grants, successful or not, leaves it so: every permission of every role and
  every direct permission of every grant is in the catalog.  The permissions shown for a member's grant are then all that the
  enforcement honours: \<^verbatim>\<open>Has\<close>, which reads the stored strings, agrees with \<^verbatim>\<open>Effective\<close>, which reads the catalog, on every string.\<close>

theorem grants_are_catalogued:
  assumes "catalogued (adb w)" and "(access_step uuid ap jwt)\<^sup>*\<^sup>* w w'"
  shows "list_all (\<lambda>r. set (ro_permissions r) \<subseteq> set AllPermissions) (roles (adb w'))
    \<and> list_all (\<lambda>r. set (gr_extra r) \<subseteq> set AllPermissions) (grants (adb w'))
    \<and> pred_option (\<lambda>g. \<forall>p. Has g p \<longleftrightarrow> p \<in> set (Effective g)) (member_grant uuid (adb w') user app)"
proof -
  have c: "catalogued (adb w')"
    using assms(2,1) by (induction rule: rtranclp_induct) (blast intro: access_keeps_catalogued)+
  have "Has g p \<longleftrightarrow> p \<in> set (Effective g)" if g: "member_grant uuid (adb w') user app = Some g" for g p
  proof -
    obtain r where "r \<in> set (grants (adb w'))" "g = (grantFromRow (r, joined_role (adb w') r))\<lparr>AgRoleName := None\<rparr>"
      using g find_Some_mem by (fastforce simp: member_grant_def)
    then have "IsValidPermission p" if "Has g p"
      using c that by (auto simp: Has_def grantFromRow_def joined_role_def catalogued_def list_all_iff split: option.splits dest!: find_Some_mem)
    then show ?thesis
      by (auto simp: Effective_iff)
  qed
  then show ?thesis
    using c by (auto simp: catalogued_def IsValidPermission_def list_all_iff pred_option_def)
qed

section \<open>Replacing the grants of a member\<close>

text \<open>A grant as it is stored: the app, the role and the direct permissions.\<close>

definition wanted :: "uuid_parser \<Rightarrow> GrantInput \<Rightarrow> string option \<times> string option \<times> string list" where
  "wanted uuid g = (uuid (GiAppID g), Option.bind (GiRoleID g) uuid, GiExtraPermissions g)"

definition granted :: "AppGrant \<Rightarrow> string option \<times> string option \<times> string list" where
  "granted g = (Some (AgAppID g), AgRoleID g, AgExtraPermissions g)"

lemma granted_row [simp]: "granted (grantFromRow (r, x)) = (Some (gr_app r), gr_role r, gr_extra r)"
  by (simp add: granted_def grantFromRow_def)

lemma insert_grant_ok:
  assumes "insertUserAppGrant user app role extra d = (Inr (), d')"
  shows "\<exists>r. d' = d\<lparr>grants := grants d @ [r]\<rparr> \<and> Some (gr_user r) = user \<and> Some (gr_app r) = app \<and> gr_role r = role \<and> gr_extra r = extra"
  using assms by (auto simp: insertUserAppGrant_def split: option.splits if_splits)

lemma insert_grants_ok:
  assumes "insert_grants uuid user gs d = (Inr (), d')"
  shows "\<exists>rows. d' = d\<lparr>grants := grants d @ rows\<rparr> \<and> map (\<lambda>r. (Some (gr_app r), gr_role r, gr_extra r)) rows = map (wanted uuid) gs
    \<and> (\<forall>r \<in> set rows. Some (gr_user r) = user)"
  using assms
proof (induction gs arbitrary: d)
  case (Cons g gs)
  obtain d1 where "insertUserAppGrant user (uuid (GiAppID g)) (Option.bind (GiRoleID g) uuid) (GiExtraPermissions g) d = (Inr (), d1)"
      "insert_grants uuid user gs d1 = (Inr (), d')"
    using Cons.prems by (auto simp: ToPgUUID_def bindE_run mapErr_run split: option.splits if_splits prod.splits sum.splits)
  then obtain r rows where "d1 = d\<lparr>grants := grants d @ [r]\<rparr>" "Some (gr_user r) = user" "Some (gr_app r) = uuid (GiAppID g)"
      "gr_role r = Option.bind (GiRoleID g) uuid" "gr_extra r = GiExtraPermissions g" "d' = d1\<lparr>grants := grants d1 @ rows\<rparr>"
      "map (\<lambda>r. (Some (gr_app r), gr_role r, gr_extra r)) rows = map (wanted uuid) gs" "\<forall>r \<in> set rows. Some (gr_user r) = user"
    using insert_grant_ok Cons.IH by blast
  then show ?case
    by (intro exI [of _ "r # rows"]) (simp add: wanted_def)
qed simp

lemma mapErr_ok: "mapErr f m s = (Inr x, s') \<longleftrightarrow> m s = (Inr x, s')" and AccountTx_ok: "AccountTx n d = (Inr y, d') \<longleftrightarrow> n d = (Inr y, d')"
  by (auto simp: mapErr_run AccountTx_def split: prod.split sum.split)

lemma replaced:
  assumes "pg_ReplaceUserGrants uuid user gs d = (Inr (), d')"
  obtains rows where "d' = d\<lparr>grants := filter (\<lambda>g. Some (gr_user g) \<noteq> uuid user) (grants d) @ rows\<rparr>"
    "map (\<lambda>r. (Some (gr_app r), gr_role r, gr_extra r)) rows = map (wanted uuid) gs" "\<forall>r \<in> set rows. Some (gr_user r) = uuid user"
proof -
  obtain d1 where d1: "deleteUserAppGrantsByUser (uuid user) d = (Inr (), d1)" "insert_grants uuid (uuid user) gs d1 = (Inr (), d')"
    using assms unfolding pg_ReplaceUserGrants_def mapErr_ok AccountTx_ok ToPgUUID_def by (auto elim!: bindE_Inr simp: mapErr_ok)
  then have "d1 = d\<lparr>grants := filter (\<lambda>g. Some (gr_user g) \<noteq> uuid user) (grants d)\<rparr>"
    by (auto simp: deleteUserAppGrantsByUser_def account_write_run split: if_splits)
  then show thesis
    using insert_grants_ok [OF d1(2)] that by auto
qed

lemma joined_grants [simp]: "joined_role (d\<lparr>grants := gs\<rparr>) = joined_role d"
  by (rule ext) (simp add: joined_role_def split: option.split)

lemma member_grants_view:
  "image_mset granted (mset (member_grants uuid d user))
    = image_mset (\<lambda>r. (Some (gr_app r), gr_role r, gr_extra r)) (mset (filter (\<lambda>g. Some (gr_user g) = uuid user) (grants d)))"
  by (simp add: member_grants_def image_mset.compositionality comp_def)

lemma SetUserGrants_replaces:
  assumes "SetUserGrants (pg_rbac uuid ap licensed) ctx user gs w = (r, w')"
  shows "case r of Inl _ \<Rightarrow> adb w' = adb w | Inr _ \<Rightarrow> pg_ReplaceUserGrants uuid user gs (adb w) = (Inr (), adb w')"
proof -
  have quiet: "adb (snd (recordManagement (pg_rbac uuid ap licensed) ctx action kind i shown metadata w)) = adb w"
    "fst (recordManagement (pg_rbac uuid ap licensed) ctx action kind i shown metadata w) = Inr ()" for action kind i shown metadata w
    by (auto simp: recordManagement_def auth_record_def Let_def split: prod.split)
  have look: "snd (GetUserByID (pg_user_repository uuid ap) user w) = w" for w
    by (simp add: repository_run split: option.split)
  have failed: "snd (pg_ReplaceUserGrants uuid user gs d) = d" if "fst (pg_ReplaceUserGrants uuid user gs d) = Inl e" for e d
    using that by (auto simp: pg_ReplaceUserGrants_def AccountTx_def mapErr_run split: prod.splits sum.splits)
  show ?thesis
    using assms quiet look failed unfolding SetUserGrants_def requireWritable_def
    by (auto simp: bindE_run attempt_run pg_rbac_repository_def on_accounts_run prod_eq_iff split: if_splits option.splits prod.splits sum.splits)
qed

text \<open>Replacing grants.  When \<^verbatim>\<open>SetUserGrants\<close> succeeds, \<^verbatim>\<open>GetUserGrants\<close> lists exactly the grants that were
  given, with their role and direct permissions, and the grants of every other member are as before; when it fails, for
  an unknown app or role, a repeated app or an unknown permission, no grant has changed.\<close>

lemma grants_read_back:
  assumes "SetUserGrants (pg_rbac uuid ap licensed) ctx user gs w = (r, w')"
  shows "case r of Inl _ \<Rightarrow> adb w' = adb w
    | Inr _ \<Rightarrow> (\<exists>listed. GetUserGrants (pg_rbac uuid ap licensed) user w' = (Inr listed, w') \<and> image_mset granted (mset listed) = mset (map (wanted uuid) gs))
        \<and> (\<forall>other. uuid other \<noteq> uuid user
            \<longrightarrow> fst (GetUserGrants (pg_rbac uuid ap licensed) other w') = fst (GetUserGrants (pg_rbac uuid ap licensed) other w))"
proof (cases r)
  case (Inl e)
  then show ?thesis
    using SetUserGrants_replaces [OF assms] by simp
next
  case (Inr x)
  then have run: "pg_ReplaceUserGrants uuid user gs (adb w) = (Inr (), adb w')"
    using SetUserGrants_replaces [OF assms] by simp
  obtain rows where d: "adb w' = adb w\<lparr>grants := filter (\<lambda>g. Some (gr_user g) \<noteq> uuid user) (grants (adb w)) @ rows\<rparr>"
      "map (\<lambda>r. (Some (gr_app r), gr_role r, gr_extra r)) rows = map (wanted uuid) gs" "\<forall>r \<in> set rows. Some (gr_user r) = uuid user"
    using replaced [OF run] .
  have "filter (\<lambda>g. Some (gr_user g) = uuid user) (grants (adb w')) = rows"
    using d(1,3) by (simp add: filter_id_conv)
  then have "image_mset granted (mset (member_grants uuid (adb w') user)) = mset (map (wanted uuid) gs)"
    by (simp add: member_grants_view d(2) [symmetric])
  moreover have "member_grants uuid (adb w') other = member_grants uuid (adb w) other" if "uuid other \<noteq> uuid user" for other
  proof -
    have "filter (\<lambda>g. Some (gr_user g) = uuid other) (grants (adb w')) = filter (\<lambda>g. Some (gr_user g) = uuid other) (grants (adb w))"
      using d(1,3) that by (auto intro: filter_cong)
    moreover have "joined_role (adb w') = joined_role (adb w)"
      using d(1) by simp
    ultimately show ?thesis
      by (simp add: member_grants_def)
  qed
  ultimately show ?thesis
    by (simp add: Inr GetUserGrants_def readable_def)
qed

text \<open>A role that a member holds stays.  \<^verbatim>\<open>DeleteRole\<close> on a role some grant refers to answers \<^verbatim>\<open>ErrRoleInUse\<close> and
  changes nothing; on a role no grant refers to, it removes it.\<close>

lemma assigned_role_stays:
  assumes "account_ok (adb w)" and "licensed w" and "uuid i = Some (ro_id role)" and "role \<in> set (roles (adb w))"
  shows "if \<exists>g \<in> set (grants (adb w)). gr_role g = Some (ro_id role)
    then DeleteRole (pg_rbac uuid ap licensed) ctx i w = (Inl ErrRoleInUse, w)
    else fst (DeleteRole (pg_rbac uuid ap licensed) ctx i w) = Inr ()
      \<and> adb (snd (DeleteRole (pg_rbac uuid ap licensed) ctx i w)) = adb w\<lparr>roles := filter (\<lambda>r. ro_id r \<noteq> ro_id role) (roles (adb w))\<rparr>"
proof -
  let ?d = "adb w\<lparr>roles := filter (\<lambda>r. ro_id r \<noteq> ro_id role) (roles (adb w))\<rparr>"
  have left: "x \<in> ro_id ` set (roles ?d) \<longleftrightarrow> x \<in> ro_id ` set (roles (adb w)) \<and> x \<noteq> ro_id role" for x
    by auto
  have ok: "account_ok ?d \<longleftrightarrow> \<not> (\<exists>g \<in> set (grants (adb w)). gr_role g = Some (ro_id role))"
    using assms(1) unfolding account_ok_def account_refs_def list_all_iff pred_option_def left
    by (auto simp: account_uniques_def account_ranges_def distinct_map_filter)
  have error: "\<not> account_ok ?d \<Longrightarrow> account_error ?d = ForeignKeyViolation"
    using assms(1) by (auto simp: account_ok_def account_uniques_def account_ranges_def account_error_def distinct_map_filter)
  have hit: "filter (\<lambda>r. ro_id r = ro_id role) (roles (adb w)) \<noteq> []"
    using assms(4) by (auto simp: filter_empty_conv)
  have run: "deleteRole (uuid i) (adb w) = (if account_ok ?d then (Inr (int (length (filter (\<lambda>r. ro_id r = ro_id role) (roles (adb w))))), ?d)
      else (Inl ForeignKeyViolation, adb w))"
    using error by (simp add: deleteRole_def account_write_run assms(3))
  have read: "snd (pg_GetRoleByID uuid i (adb w)) = adb w"
    by (simp add: pg_GetRoleByID_def getRoleByID_def account_read_def bindE_run mapErr_run split: option.split)
  show ?thesis
    using assms(2) ok hit read
    by (simp add: DeleteRole_def requireWritable_def bindE_run attempt_run pg_rbac_repository_def on_accounts_run pg_DeleteRole_def ToPgUUID_def run mapErr_run
        recordManagement_def auth_record_def Let_def split: prod.split)
qed

section \<open>Witnesses\<close>

definition demo_access :: auth_world where
  "demo_access = demo_auth\<lparr>adb := demo_accounts\<lparr>account_apps := [''app''], users := [demo_user ''a'', (demo_user ''m'')\<lparr>us_admin := False\<rparr>],
     roles := [\<lparr>ro_id = ''r'', ro_name = ''publisher'', ro_permissions = [''update:publish''], ro_created = 0, ro_updated = 0\<rparr>],
     grants := [\<lparr>gr_user = ''m'', gr_app = ''app'', gr_role = Some ''r'', gr_extra = [''observe:read'']\<rparr>]\<rparr>\<rparr>"

definition demo_member :: DashboardPrincipal where
  "demo_member = \<lparr>PrUserId = ''m'', PrEmail = ''m@x'', PrIsAdmin = False, PrSessionVersion = 0\<rparr>"

definition demo_request :: Request where
  "demo_request = \<lparr>rqCtx = \<lparr>PrincipalFromContext = Some demo_member, CliAuthFromContext = None\<rparr>, rqAppId = ''app'', rqMethod = ''POST'', rqPath = ''/'', rqGrant = None\<rparr>"

definition demo_roles :: "auth_world RBACService" where
  "demo_roles = pg_rbac demo_uuid demo_packages (\<lambda>_. True)"

lemmas demo_access_defs = demo_access_def demo_member_def demo_request_def demo_roles_def

lemma demo_access_ok: "account_ok (adb demo_access)"
  by (simp add: account_ok_def account_uniques_def account_refs_def account_ranges_def demo_access_def demo_account_defs)

lemma demo_member_grant:
  "member_grant demo_uuid (adb demo_access) ''m'' ''app''
    = Some \<lparr>AgAppID = ''app'', AgRoleID = Some ''r'', AgRoleName = None, AgRolePermissions = [''update:publish''], AgExtraPermissions = [''observe:read'']\<rparr>"
  by (simp add: member_grant_def demo_access_def demo_account_defs joined_role_def grantFromRow_def)

theorem described_permissions_enforced_witness:
  "\<exists>description. DescribeAccountPermissions demo_roles (subjectFor demo_member) [''app''] demo_access = (Inr description, demo_access)
    \<and> shows_permission description ''app'' ''update:publish'' \<and> \<not> shows_permission description ''app'' ''app:delete''"
  using described_permissions_enforced [of demo_access demo_uuid "''app''" "[''app'']" "''update:publish''" demo_packages "\<lambda>_. True" "subjectFor demo_member"]
    described_permissions_enforced [of demo_access demo_uuid "''app''" "[''app'']" "''app:delete''" demo_packages "\<lambda>_. True" "subjectFor demo_member"] demo_access_ok
  by (auto simp: demo_roles_def demo_uuid_def IsValidPermission_def AllPermissions_def Authorize_run subjectFor_def demo_member_def demo_member_grant grantAllows_def Has_def)

theorem guarded_route_witness:
  "\<exists>grant. RequireAppVisible demo_roles (RequirePermission demo_roles ''update:publish'' FallbackAdminOnly (\<lambda>rq s. (\<lparr>rpStatus = 204, rpDetail = Msg [] []\<rparr>, s)))
      demo_request demo_access = ((\<lambda>rq s. (\<lparr>rpStatus = 204, rpDetail = Msg [] []\<rparr>, s)) (demo_request\<lparr>rqGrant := grant\<rparr>) demo_access)"
  using guarded_route [of demo_request demo_member demo_uuid demo_packages "\<lambda>_. True" "''update:publish''" FallbackAdminOnly demo_access
      "\<lambda>rq s. (\<lparr>rpStatus = 204, rpDetail = Msg [] []\<rparr>, s)"]
  by (simp add: demo_roles_def demo_request_def Authorize_run subjectFor_def demo_member_def demo_member_grant grantAllows_def Has_def)

text \<open>An administrator replaces the grant of the member by another one, which is stored and honoured.\<close>

definition demo_granted :: auth_world where
  "demo_granted = snd (SetUserGrants demo_roles (rqCtx demo_request) ''m''
     [\<lparr>GiAppID = ''app'', GiRoleID = None, GiExtraPermissions = [''update:publish'']\<rparr>] demo_access)"

lemma demo_granted_grants: "grants (adb demo_granted) = [\<lparr>gr_user = ''m'', gr_app = ''app'', gr_role = None, gr_extra = [''update:publish'']\<rparr>]"
  by (simp add: demo_granted_def SetUserGrants_def demo_access_defs demo_account_defs requireWritable_def bindE_run attempt_run pg_rbac_repository_def on_accounts_run
      pg_ReplaceUserGrants_def deleteUserAppGrantsByUser_def insertUserAppGrant_def AccountTx_def mapErr_run account_write_run account_ok_def account_uniques_def
      account_refs_def account_ranges_def repository_run recordManagement_def auth_record_def IsValidPermission_def AllPermissions_def
      validatePermissions_def Let_def ToPgUUID_def demo_uuid_def split: option.split)

theorem grants_are_catalogued_witness:
  "grants (adb demo_granted) = [\<lparr>gr_user = ''m'', gr_app = ''app'', gr_role = None, gr_extra = [''update:publish'']\<rparr>]
    \<and> list_all (\<lambda>r. set (ro_permissions r) \<subseteq> set AllPermissions) (roles (adb demo_granted))
    \<and> list_all (\<lambda>r. set (gr_extra r) \<subseteq> set AllPermissions) (grants (adb demo_granted))
    \<and> pred_option (\<lambda>g. \<forall>p. Has g p \<longleftrightarrow> p \<in> set (Effective g)) (member_grant demo_uuid (adb demo_granted) ''m'' ''app'')"
proof -
  have "catalogued (adb demo_access)"
    by (simp add: catalogued_def demo_access_def IsValidPermission_def AllPermissions_def)
  moreover have "(access_step demo_uuid demo_packages demo_jwt)\<^sup>*\<^sup>* demo_access demo_granted"
    unfolding demo_granted_def demo_roles_def by (rule r_into_rtranclp) (rule access_step.set_grants)
  ultimately show ?thesis
    using grants_are_catalogued [of demo_access demo_uuid demo_packages demo_jwt demo_granted "''m''" "''app''"] demo_granted_grants by simp
qed

end
