(* ===== verification/ApiKeys.thy ===== *)
theory ApiKeys
  imports Access BranchPattern "HOL-Library.Word"
begin

text \<open>
  Publishing keys: the \<^verbatim>\<open>api_keys\<close> and \<^verbatim>\<open>api_key_branch_rules\<close> tables, the service that issues, checks and revokes
  keys (\<^verbatim>\<open>cli_auth_service.go\<close>, \<^verbatim>\<open>auth_postgres.go\<close>), what a key may do, on which branches and from which networks
  (\<^verbatim>\<open>ee/apikeyrestrictions\<close>), and the guards of the routes a key may call (\<^verbatim>\<open>router/access_*.go\<close>).

  Addresses and networks are machine words as in \<^verbatim>\<open>net/netip\<close>; reading and printing their text is a parameter, as is
  SHA-256.  The bytes drawn for a key are an argument.
\<close>

unbundle bit_operations_syntax

section \<open>Addresses and networks\<close>

datatype Addr = V4 "32 word" | V6 "128 word" string

record Prefix =
  PfxAddr :: Addr
  PfxBits :: nat

fun BitLen :: "Addr \<Rightarrow> nat" where
  "BitLen (V4 _) = 32"
| "BitLen (V6 _ _) = 128"

fun Is4In6 :: "Addr \<Rightarrow> bool" where
  "Is4In6 (V6 w _) \<longleftrightarrow> drop_bit 32 w = 0xFFFF"
| "Is4In6 (V4 _) \<longleftrightarrow> False"

fun Unmap :: "Addr \<Rightarrow> Addr" where
  "Unmap (V6 w z) = (if drop_bit 32 w = 0xFFFF then V4 (ucast w) else V6 w z)"
| "Unmap (V4 w) = V4 w"

fun withoutZone :: "Addr \<Rightarrow> Addr" where
  "withoutZone (V6 w _) = V6 w []"
| "withoutZone (V4 w) = V4 w"

definition PrefixFrom :: "Addr \<Rightarrow> nat \<Rightarrow> Prefix" where
  "PrefixFrom a bits = \<lparr>PfxAddr = withoutZone a, PfxBits = bits\<rparr>"

fun masked_addr :: "Addr \<Rightarrow> nat \<Rightarrow> Addr" where
  "masked_addr (V4 w) bits = V4 (push_bit (32 - bits) (drop_bit (32 - bits) w))"
| "masked_addr (V6 w z) bits = V6 (push_bit (128 - bits) (drop_bit (128 - bits) w)) z"

definition Masked :: "Prefix \<Rightarrow> Prefix" where
  "Masked p = p\<lparr>PfxAddr := masked_addr (PfxAddr p) (PfxBits p)\<rparr>"

definition PrefixContains :: "Prefix \<Rightarrow> Addr \<Rightarrow> bool" where
  "PrefixContains p ip = (case (PfxAddr p, ip) of
     (V4 a, V4 x) \<Rightarrow> drop_bit (32 - PfxBits p) (x XOR a) = 0
   | (V6 a _, V6 x z) \<Rightarrow> z = [] \<and> drop_bit (128 - PfxBits p) (x XOR a) = 0
   | _ \<Rightarrow> False)"

record IpPackage =
  ParseAddr :: "string \<Rightarrow> Addr option"
  ParsePrefix :: "string \<Rightarrow> Prefix option"
  PrefixString :: "Prefix \<Rightarrow> string"

text \<open>A caller whose address could not be resolved is \<^const>\<open>None\<close>.\<close>

definition ipAllowed :: "Addr option \<Rightarrow> Prefix list \<Rightarrow> bool" where
  "ipAllowed clientIP allowed = (case clientIP of None \<Rightarrow> False | Some ip \<Rightarrow> list_ex (\<lambda>p. PrefixContains p (Unmap ip)) allowed)"

section \<open>Errors\<close>

datatype key_err =
    KeyStore err
  | KeysRequireControlPlane
  | KeysRequireValidLicense
  | ErrApiKeyNotFound
  | ErrInvalidCidr string
  | ErrIpNotAllowed "Addr option"
  | BranchDenied string string
  | CliAuthUnavailable key_err
  | AuthNotValidated key_err
  | KeyText message

type_synonym ('s, 'a) kop = "('s, key_err, 'a) proc"

definition network_of :: "IpPackage \<Rightarrow> string \<Rightarrow> Prefix option" where
  "network_of ip entry =
     (if Contains entry ''/'' then
        case ParsePrefix ip entry of
          None \<Rightarrow> None
        | Some p \<Rightarrow> if Is4In6 (PfxAddr p) then
              if PfxBits p < 96 then None else Some (Masked (PrefixFrom (Unmap (PfxAddr p)) (PfxBits p - 96)))
            else Some (Masked p)
      else map_option (\<lambda>a. PrefixFrom (Unmap a) (BitLen (Unmap a))) (ParseAddr ip entry))"

primrec cidr_loop :: "IpPackage \<Rightarrow> Prefix list \<Rightarrow> string list \<Rightarrow> key_err + Prefix list" where
  "cidr_loop ip prefixes [] = Inr prefixes"
| "cidr_loop ip prefixes (e # es) =
     (let entry = TrimSpace e
      in if entry = [] then cidr_loop ip prefixes es
         else case network_of ip entry of None \<Rightarrow> Inl (ErrInvalidCidr entry)
           | Some p \<Rightarrow> cidr_loop ip (if p \<in> set prefixes then prefixes else prefixes @ [p]) es)"

definition parseCidrs :: "IpPackage \<Rightarrow> string list \<Rightarrow> key_err + Prefix list" where
  "parseCidrs ip entries = cidr_loop ip [] entries"

section \<open>Branch rules\<close>

definition maxBranchRules :: nat where "maxBranchRules = 50"
definition ActionRead :: string where "ActionRead = ''read''"
definition ActionPublish :: string where "ActionPublish = ''publish''"
definition ActionRollback :: string where "ActionRollback = ''rollback''"

definition AllActions :: "string list" where
  "AllActions = [ActionRead, ActionPublish, ActionRollback]"

definition IsValidAction :: "string \<Rightarrow> bool" where
  "IsValidAction action \<longleftrightarrow> list_ex (\<lambda>known. known = action) AllActions"

definition Implies :: "string \<Rightarrow> string \<Rightarrow> bool" where
  "Implies a b \<longleftrightarrow> (if a = b then True else b = ActionRead \<and> (a = ActionPublish \<or> a = ActionRollback))"

record BranchRule =
  RulePattern :: string
  RuleActions :: "string list"

definition Allows :: "BranchRule \<Rightarrow> string \<Rightarrow> string \<Rightarrow> bool" where
  "Allows rule branchName action \<longleftrightarrow> MatchPattern (RulePattern rule) branchName \<and> list_ex (\<lambda>granted. Implies granted action) (RuleActions rule)"

definition AllowsBranch :: "BranchRule list \<Rightarrow> string \<Rightarrow> string \<Rightarrow> bool" where
  "AllowsBranch rules branchName action \<longleftrightarrow>
     (if rules = [] then True else if branchName = [] then False else list_ex (\<lambda>rule. Allows rule branchName action) rules)"

definition normalizeActions :: "string \<Rightarrow> string list \<Rightarrow> key_err + string list" where
  "normalizeActions pattern actions = (case find (\<lambda>a. \<not> IsValidAction a) actions of
     Some a \<Rightarrow> Inl (KeyStore (ValidationError ''actions'' (Msg ''unknown action %q on rule %q'' [a, pattern])))
   | None \<Rightarrow> if actions = [] then Inl (KeyStore (ValidationError ''actions'' (Msg ''rule %q grants no action; delete the rule instead'' [pattern])))
       else Inr (filter (\<lambda>a. a \<in> set actions) AllActions))"

primrec rules_loop :: "BranchRule list \<Rightarrow> string set \<Rightarrow> BranchRule list \<Rightarrow> key_err + BranchRule list" where
  "rules_loop normalized seen [] = Inr normalized"
| "rules_loop normalized seen (rule # rest) = (case NamePattern ''pattern'' (RulePattern rule) of
     Some e \<Rightarrow> Inl (KeyStore e)
   | None \<Rightarrow> let pattern = CollapseWildcards (RulePattern rule)
       in if pattern \<in> seen then Inl (KeyStore (ValidationError ''pattern'' (Msg ''%q appears in more than one rule; merge them into one'' [pattern])))
          else case normalizeActions pattern (RuleActions rule) of Inl e \<Rightarrow> Inl e
            | Inr actions \<Rightarrow> rules_loop (normalized @ [\<lparr>RulePattern = pattern, RuleActions = actions\<rparr>]) (insert pattern seen) rest)"

definition NormalizeBranchRules :: "BranchRule list \<Rightarrow> key_err + BranchRule list" where
  "NormalizeBranchRules rules =
     (if length rules > maxBranchRules then
        Inl (KeyStore (ValidationError ''rules'' (Msg ''a key cannot hold more than %d access rules'' [format_nat maxBranchRules])))
      else rules_loop [] {} rules)"

definition describeBranchRules :: "BranchRule list \<Rightarrow> string list" where
  "describeBranchRules rules = map (\<lambda>rule. RulePattern rule @ '':'' @ Join (RuleActions rule) ''+'') rules"

section \<open>Tables\<close>

record key_row =
  ak_id :: int
  ak_app :: string
  ak_name :: string
  ak_hint :: string
  ak_hash :: string
  ak_created :: int
  ak_used :: "int option"
  ak_revoked :: "int option"
  ak_ips :: "Prefix list"

record rule_row =
  br_key :: int
  br_pattern :: string
  br_actions :: "string list"

text \<open>The sequence behind the keys' identifiers is part of the state.\<close>

record key_db =
  key_apps :: "string list"
  api_keys :: "key_row list"
  branch_rules :: "rule_row list"
  key_seq :: int
  key_now :: int

definition key_ok :: "key_db \<Rightarrow> bool" where
  "key_ok d \<longleftrightarrow> distinct (map ak_id (api_keys d)) \<and> distinct (map ak_hash (api_keys d)) \<and> list_all (\<lambda>k. ak_app k \<in> set (key_apps d)) (api_keys d)
     \<and> distinct (map (\<lambda>r. (br_key r, br_pattern r)) (branch_rules d)) \<and> list_all (\<lambda>r. br_key r \<in> ak_id ` set (api_keys d)) (branch_rules d)"

definition key_error :: "key_db \<Rightarrow> db_error" where
  "key_error d = (if distinct (map ak_id (api_keys d)) \<and> distinct (map ak_hash (api_keys d)) \<and> distinct (map (\<lambda>r. (br_key r, br_pattern r)) (branch_rules d))
     then ForeignKeyViolation else UniqueViolation)"

type_synonym 'a kstmt = "(key_db, db_error, 'a) proc"
type_synonym 'a krepo = "(key_db, key_err, 'a) proc"

definition key_write :: "(key_db \<Rightarrow> key_db \<times> 'a) \<Rightarrow> 'a kstmt" where
  "key_write f d = (if key_ok (fst (f d)) then (Inr (snd (f d)), fst (f d)) else (Inl (key_error (fst (f d))), d))"

text \<open>A sequence keeps a value it has handed out, also when the insert fails.\<close>

definition insertApiKey :: "string option \<Rightarrow> string \<Rightarrow> string \<Rightarrow> string \<Rightarrow> int kstmt" where
  "insertApiKey app name hint hash = (case app of None \<Rightarrow> throw NotNullViolation
     | Some a \<Rightarrow> bindE (modify (\<lambda>d. d\<lparr>key_seq := key_seq d + 1\<rparr>)) (\<lambda>_. key_write (\<lambda>d.
         (d\<lparr>api_keys := api_keys d @ [\<lparr>ak_id = key_seq d, ak_app = a, ak_name = name, ak_hint = hint, ak_hash = hash, ak_created = key_now d,
            ak_used = None, ak_revoked = None, ak_ips = []\<rparr>]\<rparr>, key_seq d))))"

definition live :: "int \<Rightarrow> string option \<Rightarrow> key_row \<Rightarrow> bool" where
  "live i app k \<longleftrightarrow> ak_id k = i \<and> Some (ak_app k) = app \<and> ak_revoked k = None"

definition set_keys :: "(key_row \<Rightarrow> bool) \<Rightarrow> (key_db \<Rightarrow> key_row \<Rightarrow> key_row) \<Rightarrow> key_db \<Rightarrow> key_db" where
  "set_keys P f d = d\<lparr>api_keys := map (\<lambda>k. if P k then f d k else k) (api_keys d)\<rparr>"

text \<open>An \<^verbatim>\<open>UPDATE ... RETURNING\<close> gives the first row it changed.\<close>

definition update_returning :: "(key_row \<Rightarrow> bool) \<Rightarrow> (key_db \<Rightarrow> key_row \<Rightarrow> key_row) \<Rightarrow> (key_row \<Rightarrow> 'a) \<Rightarrow> 'a kstmt" where
  "update_returning P f g d = (case find P (api_keys d) of None \<Rightarrow> (Inl NoRows, d) | Some k \<Rightarrow> key_write (\<lambda>d. (set_keys P f d, g k)) d)"

definition validateAndTouchAuth :: "string option \<Rightarrow> string \<Rightarrow> int kstmt" where
  "validateAndTouchAuth app hash = update_returning (\<lambda>k. Some (ak_app k) = app \<and> ak_hash k = hash \<and> ak_revoked k = None)
     (\<lambda>d k. k\<lparr>ak_used := Some (key_now d)\<rparr>) ak_id"

definition revokeApiKeyByID :: "int \<Rightarrow> string option \<Rightarrow> string kstmt" where
  "revokeApiKeyByID i app = update_returning (live i app) (\<lambda>d k. k\<lparr>ak_revoked := Some (key_now d)\<rparr>) ak_name"

definition getApiKeyNameByID :: "int \<Rightarrow> string option \<Rightarrow> string kstmt" where
  "getApiKeyNameByID i app d = (case find (\<lambda>k. ak_id k = i \<and> Some (ak_app k) = app) (api_keys d) of None \<Rightarrow> (Inl NoRows, d) | Some k \<Rightarrow> (Inr (ak_name k), d))"

definition getApiKeysMetadataByAppID :: "string option \<Rightarrow> key_row list kstmt" where
  "getApiKeysMetadataByAppID app = gets (\<lambda>d. sort_key ak_created (filter (\<lambda>k. Some (ak_app k) = app \<and> ak_revoked k = None) (api_keys d)))"

text \<open>The rules joined to a key: one row with no rule when it has none.\<close>

definition joined_rules :: "key_db \<Rightarrow> key_row \<Rightarrow> (key_row \<times> rule_row option) list" where
  "joined_rules d k = (case filter (\<lambda>r. br_key r = ak_id k) (branch_rules d) of [] \<Rightarrow> [(k, None)] | rs \<Rightarrow> map (\<lambda>r. (k, Some r)) rs)"

definition getApiKeyAccess :: "int \<Rightarrow> (key_row \<times> rule_row option) list kstmt" where
  "getApiKeyAccess i = gets (\<lambda>d. concat (map (joined_rules d) (filter (\<lambda>k. ak_id k = i \<and> ak_revoked k = None) (api_keys d))))"

definition getApiKeyAccessByAppID :: "string option \<Rightarrow> (key_row \<times> rule_row option) list kstmt" where
  "getApiKeyAccessByAppID app = gets (\<lambda>d. concat (map (joined_rules d) (sort_key ak_id (filter (\<lambda>k. Some (ak_app k) = app \<and> ak_revoked k = None) (api_keys d)))))"

definition updateApiKeyAccess :: "Prefix list \<Rightarrow> int \<Rightarrow> string option \<Rightarrow> int kstmt" where
  "updateApiKeyAccess ips i app = key_write (\<lambda>d. (set_keys (live i app) (\<lambda>_ k. k\<lparr>ak_ips := ips\<rparr>) d, int (length (filter (live i app) (api_keys d)))))"

definition deleteApiKeyBranchRules :: "int \<Rightarrow> unit kstmt" where
  "deleteApiKeyBranchRules i = key_write (\<lambda>d. (d\<lparr>branch_rules := filter (\<lambda>r. br_key r \<noteq> i) (branch_rules d)\<rparr>, ()))"

definition insertApiKeyBranchRule :: "int \<Rightarrow> string \<Rightarrow> string list \<Rightarrow> unit kstmt" where
  "insertApiKeyBranchRule i pattern actions = key_write (\<lambda>d.
     (d\<lparr>branch_rules := branch_rules d @ [\<lparr>br_key = i, br_pattern = pattern, br_actions = actions\<rparr>]\<rparr>, ()))"

section \<open>Repositories\<close>

definition key_stored :: "string \<Rightarrow> 'a kstmt \<Rightarrow> 'a krepo" where
  "key_stored text m = mapErr (\<lambda>e. KeyStore (Wrapped (Msg text []) (DbError e))) m"

definition KeyTx :: "'a krepo \<Rightarrow> 'a krepo" where
  "KeyTx m d = (case m d of (Inl e, _) \<Rightarrow> (Inl e, d) | (Inr x, d') \<Rightarrow> (Inr x, d'))"

definition PrefixActive :: string where "PrefixActive = ''eoo_''"

definition GenerateAPIKeyText :: "string \<Rightarrow> string" where
  "GenerateAPIKeyText tokenBytes = PrefixActive @ hex_encode tokenBytes"

definition HashPlaintextAPIKey :: "(string \<Rightarrow> string) \<Rightarrow> string \<Rightarrow> string" where
  "HashPlaintextAPIKey sha plaintextKey = hex_encode (sha plaintextKey)"

definition pg_ValidateCliCredential :: "uuid_parser \<Rightarrow> (string \<Rightarrow> string) \<Rightarrow> string \<Rightarrow> string option \<Rightarrow> int krepo" where
  "pg_ValidateCliCredential uuid sha appId token = (case token of None \<Rightarrow> throw (KeyText (Msg ''no token provided in auth'' []))
     | Some t \<Rightarrow> mapErr (\<lambda>e. if e = NoRows then KeyText (Msg ''invalid API key'' []) else KeyStore (DbError e))
         (validateAndTouchAuth (ToPgUUID uuid appId) (HashPlaintextAPIKey sha t)))"

definition pg_InsertApiKey :: "uuid_parser \<Rightarrow> string \<Rightarrow> string \<Rightarrow> string \<Rightarrow> string \<Rightarrow> int krepo" where
  "pg_InsertApiKey uuid appId name hint hashedKey = mapErr (\<lambda>e. KeyStore (DbError e)) (insertApiKey (ToPgUUID uuid appId) name hint hashedKey)"

definition pg_GetApiKeysMetadataByAppID :: "uuid_parser \<Rightarrow> string \<Rightarrow> key_row list krepo" where
  "pg_GetApiKeysMetadataByAppID uuid appId = mapErr (\<lambda>e. KeyStore (DbError e)) (getApiKeysMetadataByAppID (ToPgUUID uuid appId))"

definition pg_RevokeApiKeyByID :: "uuid_parser \<Rightarrow> int \<Rightarrow> string \<Rightarrow> string krepo" where
  "pg_RevokeApiKeyByID uuid i appId = mapErr (\<lambda>e. if e = NoRows then KeyStore (ErrResourceNotFound ''api_key'' [FormatInt i, appId])
       else KeyStore (Wrapped (Msg ''failed to execute revoke query: %w'' []) (DbError e)))
     (revokeApiKeyByID i (ToPgUUID uuid appId))"

definition pg_GetApiKeyNameByID :: "uuid_parser \<Rightarrow> string \<Rightarrow> int \<Rightarrow> string krepo" where
  "pg_GetApiKeyNameByID uuid appId i = mapErr (\<lambda>e. KeyStore (DbError e)) (getApiKeyNameByID i (ToPgUUID uuid appId))"

record ApiKeyAccess =
  AaApiKeyID :: int
  AaAllowedIps :: "Prefix list"
  AaBranchRules :: "BranchRule list"

definition toActions :: "string list \<Rightarrow> string list" where
  "toActions raw = filter IsValidAction raw"

definition rule_of :: "rule_row \<Rightarrow> BranchRule" where
  "rule_of r = \<lparr>RulePattern = br_pattern r, RuleActions = toActions (br_actions r)\<rparr>"

definition pg_GetAccess :: "int \<Rightarrow> ApiKeyAccess krepo" where
  "pg_GetAccess i = bindE (key_stored ''failed to read api key access: %w'' (getApiKeyAccess i)) (\<lambda>rows. case rows of
     [] \<Rightarrow> throw ErrApiKeyNotFound
   | (k, _) # _ \<Rightarrow> ret \<lparr>AaApiKeyID = i, AaAllowedIps = ak_ips k, AaBranchRules = map rule_of (List.map_filter snd rows)\<rparr>)"

primrec foldAccessRows :: "ApiKeyAccess list \<Rightarrow> (key_row \<times> rule_row option) list \<Rightarrow> ApiKeyAccess list" where
  "foldAccessRows result [] = result"
| "foldAccessRows result (row # rows) =
     (let k = fst row;
          result = (if result = [] \<or> AaApiKeyID (last result) \<noteq> ak_id k
            then result @ [\<lparr>AaApiKeyID = ak_id k, AaAllowedIps = ak_ips k, AaBranchRules = []\<rparr>] else result)
      in case snd row of None \<Rightarrow> foldAccessRows result rows
         | Some r \<Rightarrow> foldAccessRows (butlast result @ [(last result)\<lparr>AaBranchRules := AaBranchRules (last result) @ [rule_of r]\<rparr>]) rows)"

definition pg_GetAccessByAppID :: "uuid_parser \<Rightarrow> string \<Rightarrow> ApiKeyAccess list krepo" where
  "pg_GetAccessByAppID uuid appID = bindE (key_stored ''failed to read api key access: %w'' (getApiKeyAccessByAppID (ToPgUUID uuid appID))) (\<lambda>rows. ret (foldAccessRows [] rows))"

primrec insert_rules :: "int \<Rightarrow> BranchRule list \<Rightarrow> unit krepo" where
  "insert_rules i [] = ret ()"
| "insert_rules i (rule # rest) =
     bindE (key_stored ''failed to insert api key branch rule: %w'' (insertApiKeyBranchRule i (RulePattern rule) (RuleActions rule))) (\<lambda>_. insert_rules i rest)"

definition pg_SetAccess :: "uuid_parser \<Rightarrow> string \<Rightarrow> ApiKeyAccess \<Rightarrow> unit krepo" where
  "pg_SetAccess uuid appID access = KeyTx (
     bindE (key_stored ''failed to update api key access: %w'' (updateApiKeyAccess (AaAllowedIps access) (AaApiKeyID access) (ToPgUUID uuid appID))) (\<lambda>updated.
     if updated = 0 then throw ErrApiKeyNotFound
     else bindE (key_stored ''failed to clear api key branch rules: %w'' (deleteApiKeyBranchRules (AaApiKeyID access))) (\<lambda>_.
       insert_rules (AaApiKeyID access) (AaBranchRules access))))"

section \<open>Access of a key\<close>

record 's ApiKeyAccessRepository =
  GetAccessByAppIDOf :: "string \<Rightarrow> ('s, ApiKeyAccess list) kop"
  GetAccessOf :: "int \<Rightarrow> ('s, ApiKeyAccess) kop"
  SetAccessOf :: "string \<Rightarrow> ApiKeyAccess \<Rightarrow> ('s, unit) kop"
  GetApiKeyNameOf :: "string \<Rightarrow> int \<Rightarrow> ('s, string) kop"

record 's ApiKeyAccessService =
  kaRepo :: "'s ApiKeyAccessRepository option"
  kaLicenseValid :: "'s \<Rightarrow> bool"
  kaOnAuditEvent :: "'s RecordFunc option"

record CliRequest =
  CrAppID :: string
  CrAPIKeyID :: int
  CrBranch :: string
  CrAction :: string
  CrClientIP :: "Addr option"

definition recordAccessEvent :: "'s ApiKeyAccessService \<Rightarrow> Ctx \<Rightarrow> string \<Rightarrow> string \<Rightarrow> string \<Rightarrow> string \<Rightarrow> string \<Rightarrow> (string \<times> meta) list \<Rightarrow> ('s, unit) kop" where
  "recordAccessEvent ka ctx action targetType targetID targetDisplay appID metadata = (case kaOnAuditEvent ka of
     None \<Rightarrow> ret ()
   | Some record \<Rightarrow>
       let (actorID, actorDisplay) = (case PrincipalFromContext ctx of None \<Rightarrow> ([], []) | Some p \<Rightarrow> (PrUserId p, if PrEmail p = [] then PrUserId p else PrEmail p))
       in modify (record ((new_event action targetType targetID appID metadata)\<lparr>ActorType := ''user'', ActorID := actorID, ActorDisplay := actorDisplay,
            TargetDisplay := targetDisplay, Outcome := ''success''\<rparr>)))"

definition GetAccessByApp :: "'s ApiKeyAccessService \<Rightarrow> string \<Rightarrow> ('s, ApiKeyAccess list) kop" where
  "GetAccessByApp ka appID = (case kaRepo ka of None \<Rightarrow> throw KeysRequireControlPlane | Some repo \<Rightarrow> GetAccessByAppIDOf repo appID)"

definition SetAccess :: "IpPackage \<Rightarrow> 's ApiKeyAccessService \<Rightarrow> Ctx \<Rightarrow> string \<Rightarrow> int \<Rightarrow> BranchRule list \<Rightarrow> string list \<Rightarrow> ('s, unit) kop" where
  "SetAccess ip ka ctx appID apiKeyID rules cidrs = (case kaRepo ka of None \<Rightarrow> throw KeysRequireControlPlane | Some repo \<Rightarrow>
     bindE (gets (kaLicenseValid ka)) (\<lambda>valid. if \<not> valid then throw KeysRequireValidLicense
     else case parseCidrs ip cidrs of Inl e \<Rightarrow> throw e | Inr allowedIps \<Rightarrow>
       (case NormalizeBranchRules rules of Inl e \<Rightarrow> throw e | Inr normalizedRules \<Rightarrow>
         bindE (SetAccessOf repo appID \<lparr>AaApiKeyID = apiKeyID, AaAllowedIps = allowedIps, AaBranchRules = normalizedRules\<rparr>) (\<lambda>_.
         bindE (if kaOnAuditEvent ka = None then ret (FormatInt apiKeyID)
                else bindE (attempt (GetApiKeyNameOf repo appID apiKeyID)) (\<lambda>found. ret (case found of Inr name \<Rightarrow> name | Inl _ \<Rightarrow> FormatInt apiKeyID))) (\<lambda>targetDisplay.
         recordAccessEvent ka ctx ''api_key.restrictions_updated'' ''api_key'' (FormatInt apiKeyID) targetDisplay appID
           [(''branch_rules'', MetaList (map MetaText (describeBranchRules normalizedRules))),
            (''allowed_cidrs'', MetaList (map (\<lambda>p. MetaText (PrefixString ip p)) allowedIps))])))))"

definition unjudged :: "key_err \<Rightarrow> key_err" where
  "unjudged e = (if e = ErrApiKeyNotFound then e else CliAuthUnavailable e)"

definition AuthorizeKey :: "'s ApiKeyAccessService \<Rightarrow> CliRequest \<Rightarrow> ('s, unit) kop" where
  "AuthorizeKey ka req = (case kaRepo ka of None \<Rightarrow> ret () | Some repo \<Rightarrow>
     bindE (gets (kaLicenseValid ka)) (\<lambda>valid. if \<not> valid then ret ()
     else bindE (mapErr unjudged (GetAccessOf repo (CrAPIKeyID req))) (\<lambda>access.
       if AaAllowedIps access \<noteq> [] \<and> \<not> ipAllowed (CrClientIP req) (AaAllowedIps access) then throw (ErrIpNotAllowed (CrClientIP req))
       else if \<not> AllowsBranch (AaBranchRules access) (CrBranch req) (CrAction req) then throw (BranchDenied (CrAction req) (CrBranch req))
       else ret ())))"

section \<open>Keys\<close>

record 's CliAuthRepository =
  ValidateCliCredentialOf :: "string \<Rightarrow> string option \<Rightarrow> ('s, int) kop"
  InsertApiKeyOf :: "string \<Rightarrow> string \<Rightarrow> string \<Rightarrow> string \<Rightarrow> ('s, int) kop"
  GetApiKeysMetadataOf :: "string \<Rightarrow> ('s, key_row list) kop"
  GetApiKeyNameByIDOf :: "string \<Rightarrow> int \<Rightarrow> ('s, string) kop"
  RevokeApiKeyByIDOf :: "int \<Rightarrow> string \<Rightarrow> ('s, string) kop"

record 's CliAuthService =
  clAuthRepo :: "'s CliAuthRepository"
  clOnAuditEvent :: "'s RecordFunc option"
  clAuditActive :: "('s \<Rightarrow> bool) option"

definition AuthenticateCliCredential :: "'s CliAuthService \<Rightarrow> string \<Rightarrow> string option \<Rightarrow> ('s, CliCredential) kop" where
  "AuthenticateCliCredential cl appId token =
     bindE (mapErr AuthNotValidated (ValidateCliCredentialOf (clAuthRepo cl) appId token)) (\<lambda>apiKeyID.
     bindE (case clAuditActive cl of None \<Rightarrow> ret False | Some collecting \<Rightarrow> gets collecting) (\<lambda>audited.
     if apiKeyID \<noteq> 0 \<and> audited then
       bindE (attempt (GetApiKeyNameByIDOf (clAuthRepo cl) appId apiKeyID)) (\<lambda>name.
         ret \<lparr>CaAppID = appId, CaKeyName = (case name of Inr n \<Rightarrow> n | Inl _ \<Rightarrow> []), CaKeyID = apiKeyID\<rparr>)
     else ret \<lparr>CaAppID = appId, CaKeyName = [], CaKeyID = apiKeyID\<rparr>))"

definition key_event :: "string \<Rightarrow> string \<Rightarrow> string \<Rightarrow> string \<Rightarrow> (string \<times> meta) list \<Rightarrow> Event" where
  "key_event action target display app metadata = (new_event action ''api_key'' target app metadata)\<lparr>TargetDisplay := display\<rparr>"

definition lift_key_event :: "('s, unit) op \<Rightarrow> ('s, unit) kop" where
  "lift_key_event m = mapErr KeyStore m"

definition GenerateAPIKey :: "(string \<Rightarrow> string) \<Rightarrow> 's CliAuthService \<Rightarrow> Ctx \<Rightarrow> string \<Rightarrow> string \<Rightarrow> string \<Rightarrow> ('s, string) kop" where
  "GenerateAPIKey sha cl ctx tokenBytes appId name = (case DisplayName ''name'' name of Some e \<Rightarrow> throw (KeyStore e) | None \<Rightarrow>
     let apiKey = GenerateAPIKeyText tokenBytes;
         hashedKey = HashPlaintextAPIKey sha apiKey;
         lastFour = drop (length apiKey - 4) apiKey;
         hint = PrefixActive @ ''*******'' @ lastFour
     in bindE (mapErr (\<lambda>e. case e of KeyStore x \<Rightarrow> KeyStore (Wrapped (Msg ''failed to insert API key into database: %w'' []) x) | _ \<Rightarrow> e)
          (InsertApiKeyOf (clAuthRepo cl) appId name hint hashedKey)) (\<lambda>keyID.
        bindE (lift_key_event (recordManagementEvent ctx (clOnAuditEvent cl) (key_event ''api_key.created'' (FormatInt keyID) name appId [(''hint'', MetaText hint)]))) (\<lambda>_.
        ret apiKey)))"

definition GetApiKeysMetadata :: "'s CliAuthService \<Rightarrow> string \<Rightarrow> ('s, key_row list) kop" where
  "GetApiKeysMetadata cl appId = mapErr (\<lambda>e. case e of KeyStore x \<Rightarrow> KeyStore (Wrapped (Msg ''failed to retrieve API keys metadata from database: %w'' []) x) | _ \<Rightarrow> e)
     (GetApiKeysMetadataOf (clAuthRepo cl) appId)"

definition RevokeApiKey :: "'s CliAuthService \<Rightarrow> Ctx \<Rightarrow> string \<Rightarrow> string \<Rightarrow> ('s, unit) kop" where
  "RevokeApiKey cl ctx appId apiKeyId = (case NumericID ''apiKeyId'' apiKeyId of Some e \<Rightarrow> throw (KeyStore e) | None \<Rightarrow>
     (case ParseInt apiKeyId of None \<Rightarrow> throw (KeyText (Msg ''invalid API key ID: %w'' [])) | Some i \<Rightarrow>
       bindE (RevokeApiKeyByIDOf (clAuthRepo cl) i appId) (\<lambda>keyName.
       lift_key_event (recordManagementEvent ctx (clOnAuditEvent cl) (key_event ''api_key.revoked'' apiKeyId keyName appId [])))))"

section \<open>Guards of the routes\<close>

record CliRequestInfo = Request +
  rqBranch :: string
  rqUploadTokenBranch :: string
  rqAuthToken :: "string option"
  rqClientIP :: "Addr option"

fun is_cli_denied :: "key_err \<Rightarrow> bool" where
  "is_cli_denied (ErrIpNotAllowed _) = True"
| "is_cli_denied (BranchDenied _ _) = True"
| "is_cli_denied (AuthNotValidated e) = is_cli_denied e"
| "is_cli_denied (CliAuthUnavailable e) = is_cli_denied e"
| "is_cli_denied _ = False"

fun is_cli_unavailable :: "key_err \<Rightarrow> bool" where
  "is_cli_unavailable (CliAuthUnavailable _) = True"
| "is_cli_unavailable (AuthNotValidated e) = is_cli_unavailable e"
| "is_cli_unavailable _ = False"

fun denied_text :: "key_err \<Rightarrow> message" where
  "denied_text (ErrIpNotAllowed (Some _)) = Msg ''access denied: this API key cannot be used from this IP address (resolved client IP: %s)'' []"
| "denied_text (ErrIpNotAllowed None) = Msg ''access denied: this API key cannot be used from this IP address (the server could not resolve your source IP; if it runs behind a proxy, set TRUST_PROXY_HEADERS)'' []"
| "denied_text (BranchDenied action branchName) = Msg ''access denied: this API key is not allowed to %s on branch %q'' [action, branchName]"
| "denied_text _ = Msg ''access denied'' []"

definition RenderCliAuthError :: "key_err \<Rightarrow> 's \<Rightarrow> Response \<times> 's" where
  "RenderCliAuthError e = (if is_cli_denied e then RenderError 403 (denied_text e)
     else if is_cli_unavailable e then RenderError 500 (Msg ''Could not verify this credential'' [])
     else RenderError 401 (Msg ''Error validating auth'' []))"

definition authorizeCliRequest :: "'s ApiKeyAccessService \<Rightarrow> CliRequestInfo \<Rightarrow> CliCredential \<Rightarrow> string \<Rightarrow> string \<Rightarrow> ('s \<Rightarrow> Response \<times> 's) \<Rightarrow> 's \<Rightarrow> Response \<times> 's" where
  "authorizeCliRequest ka rq credential action branchName next s =
     (if branchName = [] then RenderError 403 (Msg ''This route requires a branch'' []) s
      else if CaKeyID credential \<noteq> 0 then
        case AuthorizeKey ka \<lparr>CrAppID = CaAppID credential, CrAPIKeyID = CaKeyID credential, CrBranch = branchName, CrAction = action, CrClientIP = rqClientIP rq\<rparr> s of
          (Inl e, s') \<Rightarrow> RenderCliAuthError e s'
        | (Inr _, s') \<Rightarrow> next s'
      else next s)"

record AppAccess =
  acToken :: bool
  acTokenAction :: string
  acPerm :: string
  acFallback :: Fallback

definition AnyViewer :: AppAccess where
  "AnyViewer = \<lparr>acToken = False, acTokenAction = [], acPerm = NoPermission, acFallback = FallbackUnset\<rparr>"

text \<open>The declarations panic when the route table is built.\<close>

definition AnyViewerOrToken :: "string \<Rightarrow> AppAccess option" where
  "AnyViewerOrToken action = (if \<not> IsValidAction action then None
     else Some \<lparr>acToken = True, acTokenAction = action, acPerm = NoPermission, acFallback = FallbackUnset\<rparr>)"

definition NeedsPermission :: "string \<Rightarrow> Fallback \<Rightarrow> AppAccess option" where
  "NeedsPermission perm fallback = (if perm = NoPermission then None
     else if fallback \<noteq> FallbackAdminOnly \<and> fallback \<noteq> FallbackAnyMember then None
     else Some \<lparr>acToken = False, acTokenAction = [], acPerm = perm, acFallback = fallback\<rparr>)"

type_synonym 's cli_handler = "CliRequestInfo \<Rightarrow> 's \<Rightarrow> Response \<times> 's"

definition appGuard :: "'s RBACService \<Rightarrow> 's ApiKeyAccessService \<Rightarrow> AppAccess \<Rightarrow> 's cli_handler \<Rightarrow> 's cli_handler" where
  "appGuard rs ka access next rq s =
     (let gated = (if acPerm access \<noteq> NoPermission then RequirePermission rs (acPerm access) (acFallback access) next else next)
      in case CliAuthFromContext (rqCtx rq) of
           Some credential \<Rightarrow>
             if \<not> acToken access then RenderError 403 (Msg ''This route requires a dashboard session'' []) s
             else authorizeCliRequest ka rq credential (acTokenAction access) (rqBranch rq) (gated rq) s
         | None \<Rightarrow> gated rq s)"

definition publishGuard :: "'s CliAuthService \<Rightarrow> 's ApiKeyAccessService \<Rightarrow> string \<Rightarrow> (CliRequestInfo \<Rightarrow> string) \<Rightarrow> 's cli_handler \<Rightarrow> 's cli_handler" where
  "publishGuard cl ka action resolveBranch next rq s = (case AuthenticateCliCredential cl (rqAppId rq) (rqAuthToken rq) s of
     (Inl e, s') \<Rightarrow> RenderCliAuthError e s'
   | (Inr credential, s') \<Rightarrow>
       authorizeCliRequest ka rq credential action (resolveBranch rq) (next (rq\<lparr>rqCtx := (rqCtx rq)\<lparr>CliAuthFromContext := Some credential\<rparr>\<rparr>)) s')"

section \<open>On the server\<close>

record key_world =
  kdb :: key_db
  kaudit :: "Event list"

definition on_keys :: "'a krepo \<Rightarrow> (key_world, 'a) kop" where
  "on_keys m w = (fst (m (kdb w)), w\<lparr>kdb := snd (m (kdb w))\<rparr>)"

definition key_record :: "key_world RecordFunc" where
  "key_record e w = w\<lparr>kaudit := kaudit w @ [e]\<rparr>"

definition pg_key_access_repository :: "uuid_parser \<Rightarrow> key_world ApiKeyAccessRepository" where
  "pg_key_access_repository uuid = \<lparr>GetAccessByAppIDOf = (\<lambda>a. on_keys (pg_GetAccessByAppID uuid a)), GetAccessOf = (\<lambda>i. on_keys (pg_GetAccess i)),
     SetAccessOf = (\<lambda>a x. on_keys (pg_SetAccess uuid a x)), GetApiKeyNameOf = (\<lambda>a i. on_keys (pg_GetApiKeyNameByID uuid a i))\<rparr>"

definition pg_key_access :: "uuid_parser \<Rightarrow> (key_world \<Rightarrow> bool) \<Rightarrow> key_world ApiKeyAccessService" where
  "pg_key_access uuid licensed = \<lparr>kaRepo = Some (pg_key_access_repository uuid), kaLicenseValid = licensed, kaOnAuditEvent = Some key_record\<rparr>"

definition pg_cli_auth_repository :: "uuid_parser \<Rightarrow> (string \<Rightarrow> string) \<Rightarrow> key_world CliAuthRepository" where
  "pg_cli_auth_repository uuid sha = \<lparr>ValidateCliCredentialOf = (\<lambda>a t. on_keys (pg_ValidateCliCredential uuid sha a t)),
     InsertApiKeyOf = (\<lambda>a n h k. on_keys (pg_InsertApiKey uuid a n h k)), GetApiKeysMetadataOf = (\<lambda>a. on_keys (pg_GetApiKeysMetadataByAppID uuid a)),
     GetApiKeyNameByIDOf = (\<lambda>a i. on_keys (pg_GetApiKeyNameByID uuid a i)), RevokeApiKeyByIDOf = (\<lambda>i a. on_keys (pg_RevokeApiKeyByID uuid i a))\<rparr>"

definition pg_cli_auth :: "uuid_parser \<Rightarrow> (string \<Rightarrow> string) \<Rightarrow> (key_world \<Rightarrow> bool) option \<Rightarrow> key_world CliAuthService" where
  "pg_cli_auth uuid sha audited = \<lparr>clAuthRepo = pg_cli_auth_repository uuid sha, clOnAuditEvent = Some key_record, clAuditActive = audited\<rparr>"

lemma key_service_fields [simp]:
  "kaRepo (pg_key_access uuid licensed) = Some (pg_key_access_repository uuid)" "kaLicenseValid (pg_key_access uuid licensed) = licensed"
  "kaOnAuditEvent (pg_key_access uuid licensed) = Some key_record"
  "clAuthRepo (pg_cli_auth uuid sha audited) = pg_cli_auth_repository uuid sha" "clOnAuditEvent (pg_cli_auth uuid sha audited) = Some key_record"
  "clAuditActive (pg_cli_auth uuid sha audited) = audited"
  by (simp_all add: pg_key_access_def pg_cli_auth_def)

lemma key_repository_fields [simp]:
  "GetAccessOf (pg_key_access_repository uuid) i = on_keys (pg_GetAccess i)" "SetAccessOf (pg_key_access_repository uuid) a x = on_keys (pg_SetAccess uuid a x)"
  "GetApiKeyNameOf (pg_key_access_repository uuid) a i = on_keys (pg_GetApiKeyNameByID uuid a i)"
  "ValidateCliCredentialOf (pg_cli_auth_repository uuid sha) a t = on_keys (pg_ValidateCliCredential uuid sha a t)"
  "InsertApiKeyOf (pg_cli_auth_repository uuid sha) a n h k = on_keys (pg_InsertApiKey uuid a n h k)"
  "GetApiKeyNameByIDOf (pg_cli_auth_repository uuid sha) a i = on_keys (pg_GetApiKeyNameByID uuid a i)"
  "RevokeApiKeyByIDOf (pg_cli_auth_repository uuid sha) i a = on_keys (pg_RevokeApiKeyByID uuid i a)"
  by (simp_all add: pg_key_access_repository_def pg_cli_auth_repository_def)

end
