(* ===== verification/KeyScope.thy ===== *)
theory KeyScope
  imports ApiKeys
begin

text \<open>
  What a publishing key reaches.  An allowlist admits exactly the addresses its entries denote, whichever of the two
  spellings of an IPv4 address is used; a key whose access was set may do exactly what the rules as they were entered say; a
  guarded publish route runs its handler only for a live key of the app within its scope; a revoked key stays refused.
\<close>

section \<open>Networks\<close>

definition v4_block :: "128 word" where
  "v4_block = push_bit 32 0xFFFF"

text \<open>The 128-bit form of an address, in which an IPv4 address lies in \<^verbatim>\<open>::ffff:0:0/96\<close>.\<close>

fun form128 :: "Addr \<Rightarrow> 128 word" where
  "form128 (V4 w) = v4_block OR ucast w"
| "form128 (V6 w _) = w"

fun zone :: "Addr \<Rightarrow> string" where
  "zone (V4 _) = []"
| "zone (V6 w z) = (if drop_bit 32 w = 0xFFFF then [] else z)"

definition is_v4 :: "Addr \<Rightarrow> bool" where
  "is_v4 a \<longleftrightarrow> drop_bit 32 (form128 a) = 0xFFFF"

definition bits128 :: "Addr \<Rightarrow> nat \<Rightarrow> nat" where
  "bits128 a n = n + (128 - BitLen a)"

text \<open>An address and a length denote the addresses of the same family that agree with it on that many leading bits.\<close>

definition denotes :: "Addr \<times> nat \<Rightarrow> Addr \<Rightarrow> bool" where
  "denotes net client \<longleftrightarrow> (case net of (a, n) \<Rightarrow> is_v4 a = is_v4 client \<and> zone client = []
     \<and> drop_bit (128 - bits128 a n) (form128 client) = drop_bit (128 - bits128 a n) (form128 a))"

definition entry_network :: "IpPackage \<Rightarrow> string \<Rightarrow> (Addr \<times> nat) option" where
  "entry_network ip entry = (if Contains entry ''/'' then map_option (\<lambda>p. (PfxAddr p, PfxBits p)) (ParsePrefix ip entry)
     else map_option (\<lambda>a. (a, BitLen a)) (ParseAddr ip entry))"

definition admits :: "IpPackage \<Rightarrow> string \<Rightarrow> Addr \<Rightarrow> bool" where
  "admits ip entry client \<longleftrightarrow> (case entry_network ip entry of None \<Rightarrow> False | Some net \<Rightarrow> denotes net client)"

lemma xor_drop: "drop_bit k (x XOR y) = 0 \<longleftrightarrow> drop_bit k x = drop_bit k y" for x y :: "'a::len word"
  by (auto simp: bit_eq_iff bit_simps)

lemma xor_zero [simp]: "x XOR y = 0 \<longleftrightarrow> x = y" for x y :: "'a::len word"
  using xor_drop [of 0 x y] by simp

lemma drop_push: "drop_bit k (push_bit k (drop_bit k w)) = drop_bit k w" for w :: "'a::len word"
  by (rule bit_word_eqI) (auto simp: bit_simps dest: bit_imp_le_length)

lemma bit_v4_block: "bit v4_block n \<longleftrightarrow> 32 \<le> n \<and> n < 128 \<and> bit (0xFFFF :: 128 word) (n - 32)"
proof -
  have "bit (push_bit 32 c) n \<longleftrightarrow> 32 \<le> n \<and> n < 128 \<and> bit c (n - 32)" for c :: "128 word"
    by (simp add: bit_simps)
  then show ?thesis
    unfolding v4_block_def by blast
qed

lemma small_tag: "bit (0xFFFF :: 128 word) n \<Longrightarrow> n < 16"
proof -
  have "(0xFFFF :: 128 word) = mask 16"
    by (simp add: mask_eq_exp_minus_1)
  then show "bit (0xFFFF :: 128 word) n \<Longrightarrow> n < 16"
    by (simp add: bit_mask_iff)
qed

lemma v4_form: "drop_bit 32 (v4_block OR ucast w) = 0xFFFF" for w :: "32 word"
proof (rule bit_word_eqI)
  fix n
  show "bit (drop_bit 32 (v4_block OR ucast w)) n \<longleftrightarrow> bit (0xFFFF :: 128 word) n"
    using small_tag [of n] by (auto simp: bit_simps bit_v4_block dest: bit_imp_le_length)
qed

lemma form_mapped:
  assumes "drop_bit 32 w = (0xFFFF :: 128 word)"
  shows "v4_block OR ucast (ucast w :: 32 word) = w"
proof (rule bit_word_eqI)
  fix n
  assume n: "n < LENGTH(128)"
  show "bit (v4_block OR ucast (ucast w :: 32 word)) n \<longleftrightarrow> bit w n"
  proof (cases "n < 32")
    case True
    then show ?thesis
      using n by (simp add: bit_simps bit_v4_block)
  next
    case False
    then have "bit w n \<longleftrightarrow> bit (0xFFFF :: 128 word) (n - 32)"
      unfolding assms [symmetric] by (simp add: bit_simps)
    then show ?thesis
      using False n by (simp add: bit_simps bit_v4_block)
  qed
qed

lemma form_v4_drop:
  assumes "k \<le> 32"
  shows "drop_bit k (form128 (V4 x)) = drop_bit k (form128 (V4 a)) \<longleftrightarrow> drop_bit k x = drop_bit k a"
proof -
  have "bit (form128 (V4 y)) (k + n) \<longleftrightarrow> bit v4_block (k + n) \<or> bit y (k + n)" for y n
    by (auto simp: bit_simps dest: bit_imp_le_length)
  moreover have "\<not> (bit v4_block (k + n) \<and> bit y (k + n))" for y :: "32 word" and n
    by (auto simp: bit_v4_block dest: bit_imp_le_length)
  ultimately have same: "bit (form128 (V4 x)) (k + n) = bit (form128 (V4 a)) (k + n) \<longleftrightarrow> bit x (k + n) = bit a (k + n)" for n
    by blast
  show ?thesis
  proof
    assume "drop_bit k (form128 (V4 x)) = drop_bit k (form128 (V4 a))"
    then have "bit (drop_bit k (form128 (V4 x))) n = bit (drop_bit k (form128 (V4 a))) n" for n
      by (rule arg_cong)
    then show "drop_bit k x = drop_bit k a"
      using same by (intro bit_word_eqI) (simp add: bit_drop_bit_eq del: form128.simps)
  next
    assume "drop_bit k x = drop_bit k a"
    then have "bit (drop_bit k x) n = bit (drop_bit k a) n" for n
      by simp
    then show "drop_bit k (form128 (V4 x)) = drop_bit k (form128 (V4 a))"
      using same by (intro bit_word_eqI) (simp add: bit_drop_bit_eq del: form128.simps)
  qed
qed

lemma is_v4_simps [simp]: "is_v4 (V4 x)" "is_v4 (V6 w z) \<longleftrightarrow> drop_bit 32 w = 0xFFFF"
  by (simp_all only: is_v4_def form128.simps v4_form)

lemma Unmap_form [simp]: "form128 (Unmap a) = form128 a" and Unmap_zone [simp]: "zone (Unmap a) = zone a"
  by (cases a; simp add: form_mapped)+

lemma Unmap_v4: "is_v4 a \<longleftrightarrow> (\<exists>w. Unmap a = V4 w)"
  by (cases a) auto

lemma Unmap_cases:
  obtains (four) w where "Unmap a = V4 w" "is_v4 a" | (six) w z where "Unmap a = V6 w z" "\<not> is_v4 a" "zone a = z" "form128 a = w" "a = V6 w z"
  by (cases a) (auto split: if_splits)

lemma is_v4_Unmap [simp]: "is_v4 (Unmap a) = is_v4 a"
  by (simp add: is_v4_def)

lemma zoneless [simp]: "is_v4 (withoutZone a) = is_v4 a" "form128 (withoutZone a) = form128 a" "BitLen (withoutZone a) = BitLen a"
  by (cases a; simp)+

lemma plain_contains:
  assumes "Unmap a = a"
  shows "PrefixContains \<lparr>PfxAddr = a, PfxBits = n\<rparr> (Unmap client) \<longleftrightarrow> denotes (a, n) client"
proof (cases rule: Unmap_cases [of client])
  case (four x)
  have f: "form128 client = form128 (V4 x)" and z: "zone client = []"
    using four(1) Unmap_form [of client] Unmap_zone [of client] by simp_all
  show ?thesis
  proof (cases a)
    case (V4 y)
    have "128 - bits128 (V4 y) n = 32 - n"
      by (simp add: bits128_def)
    then show ?thesis
      using four f z form_v4_drop [of "32 - n" x y] by (simp add: V4 PrefixContains_def denotes_def xor_drop del: form128.simps)
  next
    case (V6 w u)
    then have "\<not> is_v4 a"
      using assms by (auto split: if_splits)
    then show ?thesis
      using four V6 by (simp add: PrefixContains_def denotes_def)
  qed
next
  case (six x z)
  show ?thesis
  proof (cases a)
    case (V4 y)
    then show ?thesis
      using six by (simp add: PrefixContains_def denotes_def)
  next
    case (V6 w u)
    then have "\<not> is_v4 a"
      using assms by (auto split: if_splits)
    then show ?thesis
      using six V6 by (auto simp: PrefixContains_def denotes_def xor_drop bits128_def simp del: is_v4_simps)
  qed
qed

lemma masked_contains: "PrefixContains \<lparr>PfxAddr = masked_addr a n, PfxBits = n\<rparr> ip = PrefixContains \<lparr>PfxAddr = a, PfxBits = n\<rparr> ip"
  by (cases a; cases ip) (simp_all add: PrefixContains_def xor_drop drop_push)

lemma denotes_cong: "is_v4 a = is_v4 b \<Longrightarrow> form128 a = form128 b \<Longrightarrow> bits128 a n = bits128 b m \<Longrightarrow> denotes (a, n) client = denotes (b, m) client"
  by (simp add: denotes_def)

lemma zoneless_unmapped: "Unmap (withoutZone (Unmap a)) = withoutZone (Unmap a)"
  by (cases a) auto

lemma network_contains:
  assumes "network_of ip entry = Some p"
  shows "PrefixContains p (Unmap client) \<longleftrightarrow> admits ip entry client"
proof (cases "Contains entry ''/''")
  case True
  then obtain q where q: "ParsePrefix ip entry = Some q"
    using assms by (auto simp: network_of_def split: option.splits)
  have "admits ip entry client \<longleftrightarrow> denotes (PfxAddr q, PfxBits q) client"
    using True q by (simp add: admits_def entry_network_def)
  moreover have "PrefixContains p (Unmap client) \<longleftrightarrow> denotes (PfxAddr q, PfxBits q) client"
  proof (cases "Is4In6 (PfxAddr q)")
    case mapped: True
    then obtain w z where w: "PfxAddr q = V6 w z" "drop_bit 32 w = 0xFFFF"
      by (cases "PfxAddr q") auto
    have n: "96 \<le> PfxBits q" and p: "p = Masked (PrefixFrom (Unmap (PfxAddr q)) (PfxBits q - 96))"
      using assms True q mapped by (auto simp: network_of_def split: if_splits)
    have "PrefixContains p (Unmap client) \<longleftrightarrow> denotes (withoutZone (Unmap (PfxAddr q)), PfxBits q - 96) client"
      using plain_contains [OF zoneless_unmapped] by (simp add: p Masked_def PrefixFrom_def masked_contains)
    also have "\<dots> \<longleftrightarrow> denotes (PfxAddr q, PfxBits q) client"
      using w n by (intro denotes_cong) (simp_all add: bits128_def form_mapped)
    finally show ?thesis .
  next
    case False
    then have "Unmap (PfxAddr q) = PfxAddr q"
      by (cases "PfxAddr q") auto
    moreover have "p = \<lparr>PfxAddr = masked_addr (PfxAddr q) (PfxBits q), PfxBits = PfxBits q\<rparr>"
      using assms True q False by (cases q) (auto simp: network_of_def Masked_def)
    ultimately show ?thesis
      using plain_contains by (simp add: masked_contains)
  qed
  ultimately show ?thesis
    by simp
next
  case False
  then obtain a where a: "ParseAddr ip entry = Some a" "p = PrefixFrom (Unmap a) (BitLen (Unmap a))"
    using assms by (auto simp: network_of_def)
  have "PrefixContains p (Unmap client) \<longleftrightarrow> denotes (withoutZone (Unmap a), BitLen (Unmap a)) client"
    using plain_contains [OF zoneless_unmapped] by (simp add: a(2) PrefixFrom_def)
  also have "\<dots> \<longleftrightarrow> denotes (a, BitLen a) client"
    by (rule denotes_cong) (cases a; simp add: bits128_def form_mapped)+
  finally show ?thesis
    using False a(1) by (simp add: admits_def entry_network_def)
qed

section \<open>Allowlists\<close>

lemma cidr_loop_ok:
  assumes "cidr_loop ip ps entries = Inr qs"
  shows "(\<forall>client. list_ex (\<lambda>p. PrefixContains p (Unmap client)) qs \<longleftrightarrow> list_ex (\<lambda>p. PrefixContains p (Unmap client)) ps
      \<or> (\<exists>e \<in> set entries. TrimSpace e \<noteq> [] \<and> admits ip (TrimSpace e) client))
    \<and> (qs = [] \<longleftrightarrow> ps = [] \<and> (\<forall>e \<in> set entries. TrimSpace e = []))"
  using assms
proof (induction entries arbitrary: ps)
  case (Cons e es)
  show ?case
  proof (cases "TrimSpace e = []")
    case True
    then show ?thesis
      using Cons by simp
  next
    case False
    then obtain p where p: "network_of ip (TrimSpace e) = Some p" "cidr_loop ip (if p \<in> set ps then ps else ps @ [p]) es = Inr qs"
      using Cons.prems by (auto simp: Let_def split: option.splits)
    show ?thesis
      using Cons.IH [OF p(2)] network_contains [OF p(1)] False by (auto simp: list_ex_iff)
  qed
qed simp

text \<open>Whom an allowlist as it was entered lets in: nobody without an address, everybody when every entry is blank.\<close>

definition list_admits :: "IpPackage \<Rightarrow> string list \<Rightarrow> Addr option \<Rightarrow> bool" where
  "list_admits ip entries client \<longleftrightarrow> list_all (\<lambda>e. TrimSpace e = []) entries
     \<or> (case client of None \<Rightarrow> False | Some c \<Rightarrow> list_ex (\<lambda>e. TrimSpace e \<noteq> [] \<and> admits ip (TrimSpace e) c) entries)"

lemma parsed_list_admits:
  assumes "parseCidrs ip entries = Inr ps"
  shows "ps = [] \<or> ipAllowed client ps \<longleftrightarrow> list_admits ip entries client"
  using cidr_loop_ok [OF assms [unfolded parseCidrs_def]]
  by (cases client) (auto simp: ipAllowed_def list_admits_def list_ex_iff list_all_iff)

section \<open>Branch rules\<close>

text \<open>Two rules that allow the same.\<close>

definition same_rule :: "BranchRule \<Rightarrow> BranchRule \<Rightarrow> bool" where
  "same_rule r s \<longleftrightarrow> (\<forall>branch action. Allows r branch action = Allows s branch action) \<and> list_all IsValidAction (RuleActions s)"

lemma normalized_actions:
  assumes "normalizeActions pattern actions = Inr actions'"
  shows "set actions' = set actions \<and> list_all IsValidAction actions'"
  using assms by (auto simp: normalizeActions_def find_None_iff IsValidAction_def list_all_iff list_ex_iff split: option.splits if_splits)

lemma rules_loop_ok:
  assumes "rules_loop kept seen rules = Inr rules'"
  shows "\<exists>fresh. rules' = kept @ fresh \<and> list_all2 same_rule rules fresh"
  using assms
proof (induction rules arbitrary: kept seen)
  case (Cons rule rest)
  let ?p = "CollapseWildcards (RulePattern rule)"
  obtain actions where a: "normalizeActions ?p (RuleActions rule) = Inr actions"
      and rest: "rules_loop (kept @ [\<lparr>RulePattern = ?p, RuleActions = actions\<rparr>]) (insert ?p seen) rest = Inr rules'"
    using Cons.prems by (auto simp: Let_def split: option.splits if_splits sum.splits)
  have "same_rule rule \<lparr>RulePattern = ?p, RuleActions = actions\<rparr>"
    using normalized_actions [OF a] by (auto simp: same_rule_def Allows_def MatchPattern_CollapseWildcards list_ex_iff)
  then show ?case
    using Cons.IH [OF rest] by (fastforce simp: list_all2_Cons1)
qed auto

lemma list_ex_rel: "list_all2 R xs ys \<Longrightarrow> (\<And>x y. R x y \<Longrightarrow> P x = Q y) \<Longrightarrow> list_ex P xs = list_ex Q ys"
  by (induction rule: list_all2_induct) auto

lemma normalized_rules:
  assumes "NormalizeBranchRules rules = Inr rules'"
  shows "AllowsBranch rules' branch action = AllowsBranch rules branch action" and "list_all (\<lambda>r. list_all IsValidAction (RuleActions r)) rules'"
proof -
  have all: "list_all2 same_rule rules rules'"
    using assms rules_loop_ok by (fastforce simp: NormalizeBranchRules_def split: if_splits)
  have "list_ex (\<lambda>r. Allows r branch action) rules = list_ex (\<lambda>r. Allows r branch action) rules'"
    using all by (rule list_ex_rel) (simp add: same_rule_def)
  moreover have "rules = [] \<longleftrightarrow> rules' = []"
    using all by auto
  ultimately show "AllowsBranch rules' branch action = AllowsBranch rules branch action"
    by (simp add: AllowsBranch_def)
  show "list_all (\<lambda>r. list_all IsValidAction (RuleActions r)) rules'"
    using all by (induction rule: list_all2_induct) (auto simp: same_rule_def)
qed

section \<open>Access is read back as it was set\<close>

lemma key_write_run: "key_write f d = (if key_ok (fst (f d)) then (Inr (snd (f d)), fst (f d)) else (Inl (key_error (fst (f d))), d))"
  by (simp add: key_write_def)

lemma key_mapErr_ok: "key_stored text m d = (Inr x, d') \<longleftrightarrow> m d = (Inr x, d')"
  unfolding key_stored_def by (rule mapErr_ok)

lemma insert_rules_ok:
  assumes "insert_rules i rules d = (Inr (), d')"
  shows "d' = d\<lparr>branch_rules := branch_rules d @ map (\<lambda>r. \<lparr>br_key = i, br_pattern = RulePattern r, br_actions = RuleActions r\<rparr>) rules\<rparr> \<and> (rules = [] \<or> key_ok d')"
  using assms
proof (induction rules arbitrary: d)
  case (Cons rule rest)
  then obtain d1 where "insertApiKeyBranchRule i (RulePattern rule) (RuleActions rule) d = (Inr (), d1)" "insert_rules i rest d1 = (Inr (), d')"
    by (auto elim!: bindE_Inr simp: key_mapErr_ok)
  then show ?case
    using Cons.IH [of d1] by (cases rest) (auto simp: insertApiKeyBranchRule_def key_write_run split: if_splits)
qed simp

lemma key_unique: "key_ok d \<Longrightarrow> k \<in> set (api_keys d) \<Longrightarrow> l \<in> set (api_keys d) \<Longrightarrow> ak_id k = ak_id l \<Longrightarrow> k = l"
  using distinct_map_eq [of ak_id "api_keys d" k l] by (simp add: key_ok_def)

lemma set_access_ok:
  assumes "pg_SetAccess uuid app access d = (Inr (), d')"
  shows "key_ok d' \<and> (\<exists>k \<in> set (api_keys d'). ak_id k = AaApiKeyID access \<and> ak_revoked k = None \<and> ak_ips k = AaAllowedIps access)
    \<and> map rule_of (filter (\<lambda>r. br_key r = AaApiKeyID access) (branch_rules d'))
        = map (\<lambda>r. r\<lparr>RuleActions := toActions (RuleActions r)\<rparr>) (AaBranchRules access)"
proof -
  let ?i = "AaApiKeyID access"
  obtain n d1 d2 where s: "updateApiKeyAccess (AaAllowedIps access) ?i (uuid app) d = (Inr n, d1)" "n \<noteq> 0"
      "deleteApiKeyBranchRules ?i d1 = (Inr (), d2)" "insert_rules ?i (AaBranchRules access) d2 = (Inr (), d')"
    using assms by (auto simp: pg_SetAccess_def KeyTx_def ToPgUUID_def key_mapErr_ok split: prod.splits sum.splits if_splits elim!: bindE_Inr)
  have d1: "d1 = set_keys (live ?i (uuid app)) (\<lambda>_ k. k\<lparr>ak_ips := AaAllowedIps access\<rparr>) d" and hit: "filter (live ?i (uuid app)) (api_keys d) \<noteq> []"
    using s(1,2) by (auto simp: updateApiKeyAccess_def key_write_run split: if_splits)
  have d2: "key_ok d2" "d2 = d1\<lparr>branch_rules := filter (\<lambda>r. br_key r \<noteq> ?i) (branch_rules d1)\<rparr>"
    using s(3) by (auto simp: deleteApiKeyBranchRules_def key_write_run split: if_splits)
  note ins = insert_rules_ok [OF s(4)]
  have "key_ok d'"
    using ins d2(1) by (cases "AaBranchRules access") auto
  moreover obtain k where "k \<in> set (api_keys d)" "live ?i (uuid app) k"
    using hit by (auto simp: filter_empty_conv)
  then have "k\<lparr>ak_ips := AaAllowedIps access\<rparr> \<in> set (api_keys d')" "ak_id k = ?i" "ak_revoked k = None"
    using ins d1 d2(2) by (force simp: set_keys_def live_def)+
  moreover have "filter (\<lambda>r. br_key r = ?i) (branch_rules d') = map (\<lambda>r. \<lparr>br_key = ?i, br_pattern = RulePattern r, br_actions = RuleActions r\<rparr>) (AaBranchRules access)"
    using ins d2(2) by simp
  then have "map rule_of (filter (\<lambda>r. br_key r = ?i) (branch_rules d')) = map (\<lambda>r. r\<lparr>RuleActions := toActions (RuleActions r)\<rparr>) (AaBranchRules access)"
    by (simp add: rule_of_def)
  ultimately show ?thesis
    by (intro conjI bexI [of _ "k\<lparr>ak_ips := AaAllowedIps access\<rparr>"]) simp_all
qed

lemma filter_eq_one: "distinct xs \<Longrightarrow> x \<in> set xs \<Longrightarrow> filter (\<lambda>y. y = x) xs = [x]"
  by (induction xs) (auto simp: filter_empty_conv)

lemma get_access_run:
  assumes "key_ok d" and "k \<in> set (api_keys d)" and "ak_revoked k = None"
  shows "pg_GetAccess (ak_id k) d = (Inr \<lparr>AaApiKeyID = ak_id k, AaAllowedIps = ak_ips k,
    AaBranchRules = map rule_of (filter (\<lambda>r. br_key r = ak_id k) (branch_rules d))\<rparr>, d)"
proof -
  have one: "l = k" if "l \<in> set (api_keys d)" "ak_id l = ak_id k" for l
    using key_unique [OF assms(1) that(1) assms(2) that(2)] .
  have "distinct (api_keys d)"
    using assms(1) unfolding key_ok_def distinct_map by blast
  then have "filter (\<lambda>l. l = k) (api_keys d) = [k]"
    using assms(2) by (simp add: filter_eq_one)
  moreover have "filter (\<lambda>l. ak_id l = ak_id k \<and> ak_revoked l = None) (api_keys d) = filter (\<lambda>l. l = k) (api_keys d)"
    using assms(3) one by (intro filter_cong) auto
  ultimately have "filter (\<lambda>l. ak_id l = ak_id k \<and> ak_revoked l = None) (api_keys d) = [k]"
    by simp
  then show ?thesis
    by (auto simp: pg_GetAccess_def bindE_run key_stored_def mapErr_run getApiKeyAccess_def joined_rules_def List.map_filter_def comp_def split: list.split)
qed

lemma set_access_service:
  assumes "SetAccess ip (pg_key_access uuid licensed) ctx app i rules cidrs w = (Inr (), w')"
  obtains ips rules' where "parseCidrs ip cidrs = Inr ips" "NormalizeBranchRules rules = Inr rules'"
    "pg_SetAccess uuid app \<lparr>AaApiKeyID = i, AaAllowedIps = ips, AaBranchRules = rules'\<rparr> (kdb w) = (Inr (), kdb w')"
proof -
  have quiet: "fst (recordAccessEvent (pg_key_access uuid licensed) ctx action kind j shown app metadata v) = Inr ()"
      "kdb (snd (recordAccessEvent (pg_key_access uuid licensed) ctx action kind j shown app metadata v)) = kdb v" for action kind j shown metadata v
    by (simp_all add: recordAccessEvent_def key_record_def Let_def split: option.split prod.split)
  have name: "kdb (snd (on_keys (pg_GetApiKeyNameByID uuid app j) v)) = kdb v" for j v
    by (simp add: on_keys_def pg_GetApiKeyNameByID_def getApiKeyNameByID_def mapErr_run split: option.split)
  obtain ips rules' where parsed: "parseCidrs ip cidrs = Inr ips" "NormalizeBranchRules rules = Inr rules'"
    using assms by (auto simp: SetAccess_def bindE_run split: if_splits sum.splits)
  let ?m = "pg_SetAccess uuid app \<lparr>AaApiKeyID = i, AaAllowedIps = ips, AaBranchRules = rules'\<rparr>"
  have "?m (kdb w) = (Inr (), kdb w')"
  proof (cases "?m (kdb w)")
    case (Pair r d)
    then show ?thesis
      using assms parsed quiet name [of i]
      by (cases r) (auto simp: SetAccess_def bindE_run attempt_run on_keys_def prod_eq_iff split: if_splits)
  qed
  then show thesis
    using that parsed by blast
qed

text \<open>C14: a key may do what was entered.  After \<^verbatim>\<open>SetAccess\<close> on a key, a request made with the key is authorized exactly when
  the allowlist as it was entered admits the caller's address, in either spelling of an IPv4 address, and the rules as
  they were entered allow the action on the branch: parsing, masking, unmapping and removing duplicates of networks,
  collapsing patterns, reordering actions and storing the result change nothing.\<close>

theorem access_as_entered:
  assumes "SetAccess ip (pg_key_access uuid licensed) ctx app i rules cidrs w = (Inr (), w')" and "licensed w'" and "CrAPIKeyID req = i"
  shows "fst (AuthorizeKey (pg_key_access uuid licensed) req w') = Inr ()
    \<longleftrightarrow> list_admits ip cidrs (CrClientIP req) \<and> AllowsBranch rules (CrBranch req) (CrAction req)"
proof -
  obtain ips rules' where parsed: "parseCidrs ip cidrs = Inr ips" "NormalizeBranchRules rules = Inr rules'"
      and stored: "pg_SetAccess uuid app \<lparr>AaApiKeyID = i, AaAllowedIps = ips, AaBranchRules = rules'\<rparr> (kdb w) = (Inr (), kdb w')"
    using set_access_service [OF assms(1)] .
  obtain k where k: "key_ok (kdb w')" "k \<in> set (api_keys (kdb w'))" "ak_id k = i" "ak_revoked k = None" "ak_ips k = ips"
      and rules: "map rule_of (filter (\<lambda>r. br_key r = i) (branch_rules (kdb w'))) = map (\<lambda>r. r\<lparr>RuleActions := toActions (RuleActions r)\<rparr>) rules'"
    using set_access_ok [OF stored] by auto
  have "map (\<lambda>r. r\<lparr>RuleActions := toActions (RuleActions r)\<rparr>) rules' = rules'"
    using normalized_rules(2) [OF parsed(2)] by (intro map_idI) (auto simp: toActions_def list_all_iff filter_id_conv)
  then have "on_keys (pg_GetAccess i) w' = (Inr \<lparr>AaApiKeyID = i, AaAllowedIps = ips, AaBranchRules = rules'\<rparr>, w')"
    using get_access_run [OF k(1,2,4)] k(3,5) rules by (simp add: on_keys_def)
  then have "fst (AuthorizeKey (pg_key_access uuid licensed) req w') = Inr () \<longleftrightarrow> (ips = [] \<or> ipAllowed (CrClientIP req) ips) \<and> AllowsBranch rules' (CrBranch req) (CrAction req)"
    using assms(2,3) by (simp add: AuthorizeKey_def bindE_run mapErr_run)
  then show ?thesis
    using parsed_list_admits [OF parsed(1)] normalized_rules(1) [OF parsed(2)] by simp
qed

section \<open>A guarded publish route\<close>

text \<open>The access a key holds.\<close>

definition key_allows :: "key_db \<Rightarrow> key_row \<Rightarrow> Addr option \<Rightarrow> string \<Rightarrow> string \<Rightarrow> bool" where
  "key_allows d k client branch action \<longleftrightarrow> (ak_ips k = [] \<or> ipAllowed client (ak_ips k))
     \<and> AllowsBranch (map rule_of (filter (\<lambda>r. br_key r = ak_id k) (branch_rules d))) branch action"

lemma validate_ok:
  assumes "pg_ValidateCliCredential uuid sha app token d = (Inr i, d')"
  obtains t k where "token = Some t" "k \<in> set (api_keys d)" "ak_id k = i" "uuid app = Some (ak_app k)" "ak_hash k = HashPlaintextAPIKey sha t" "ak_revoked k = None"
    "key_ok d'" "branch_rules d' = branch_rules d" "k\<lparr>ak_used := Some (key_now d)\<rparr> \<in> set (api_keys d')"
proof -
  obtain t where t: "token = Some t" "validateAndTouchAuth (uuid app) (HashPlaintextAPIKey sha t) d = (Inr i, d')"
    using assms by (auto simp: pg_ValidateCliCredential_def ToPgUUID_def mapErr_ok split: option.splits)
  then obtain k where "find (\<lambda>k. Some (ak_app k) = uuid app \<and> ak_hash k = HashPlaintextAPIKey sha t \<and> ak_revoked k = None) (api_keys d) = Some k"
      "ak_id k = i" and d': "key_ok d'" "d' = set_keys (\<lambda>k. Some (ak_app k) = uuid app \<and> ak_hash k = HashPlaintextAPIKey sha t \<and> ak_revoked k = None)
        (\<lambda>d k. k\<lparr>ak_used := Some (key_now d)\<rparr>) d"
    by (auto simp: validateAndTouchAuth_def update_returning_def key_write_run split: option.splits if_splits)
  then have k: "k \<in> set (api_keys d)" "Some (ak_app k) = uuid app" "ak_hash k = HashPlaintextAPIKey sha t" "ak_revoked k = None" "ak_id k = i"
    using find_Some_mem by fastforce+
  then have "k\<lparr>ak_used := Some (key_now d)\<rparr> \<in> set (api_keys d')"
    unfolding d'(2) set_keys_def by (auto simp: image_iff intro!: bexI [of _ k])
  then show thesis
    using that [OF t(1) k(1)] k d' by (simp add: set_keys_def)
qed

lemma authenticate_cases:
  assumes "AuthenticateCliCredential (pg_cli_auth uuid sha audited) app token w = (r, w')"
  shows "case r of Inl e \<Rightarrow> (\<exists>e'. e = AuthNotValidated e' \<and> fst (pg_ValidateCliCredential uuid sha app token (kdb w)) = Inl e')
    | Inr c \<Rightarrow> pg_ValidateCliCredential uuid sha app token (kdb w) = (Inr (CaKeyID c), kdb w') \<and> CaAppID c = app"
proof -
  have name: "snd (pg_GetApiKeyNameByID uuid app j d) = d" for j d
    by (simp add: pg_GetApiKeyNameByID_def getApiKeyNameByID_def mapErr_run split: option.split)
  show ?thesis
  proof (cases "pg_ValidateCliCredential uuid sha app token (kdb w)")
    case (Pair x d)
    show ?thesis
    proof (cases x)
      case (Inl e)
      then show ?thesis
        using assms Pair by (auto simp: AuthenticateCliCredential_def bindE_run mapErr_run on_keys_def)
    next
      case (Inr j)
      then show ?thesis
        using assms Pair name by (cases audited) (auto simp: AuthenticateCliCredential_def bindE_run mapErr_run attempt_run on_keys_def split: if_splits)
    qed
  qed
qed

lemma RenderCliAuthError_status: "rpStatus (fst (RenderCliAuthError e s)) \<ge> 400" "snd (RenderCliAuthError e s) = s"
  by (simp_all add: RenderCliAuthError_def RenderError_def)

text \<open>C15: a guarded publish route.  The handler behind the guard of the CLI write routes runs only for a request that
  carries the token of a live key of the route's app, names a branch and, while the license is active, lies within what the
  key may do on that branch from the caller's address, and it is handed that key as the request's credential.  Every
  other request is refused with an error that does not depend on the handler.\<close>

theorem publish_route_confined:
  assumes "key_ok (kdb w)" and "\<And>k. k \<in> set (api_keys (kdb w)) \<Longrightarrow> 0 < ak_id k"
  shows "(\<exists>t k c w'. rqAuthToken rq = Some t \<and> k \<in> set (api_keys (kdb w)) \<and> ak_hash k = HashPlaintextAPIKey sha t \<and> ak_revoked k = None
        \<and> uuid (rqAppId rq) = Some (ak_app k) \<and> CaKeyID c = ak_id k \<and> CaAppID c = rqAppId rq \<and> resolveBranch rq \<noteq> []
        \<and> (if licensed w' then key_allows (kdb w) k (rqClientIP rq) (resolveBranch rq) action else True)
        \<and> (\<forall>h. publishGuard (pg_cli_auth uuid sha audited) (pg_key_access uuid licensed) action resolveBranch h rq w
              = h (rq\<lparr>rqCtx := (rqCtx rq)\<lparr>CliAuthFromContext := Some c\<rparr>\<rparr>) w'))
    \<or> (\<exists>r w'. rpStatus r \<ge> 400 \<and> (\<forall>h. publishGuard (pg_cli_auth uuid sha audited) (pg_key_access uuid licensed) action resolveBranch h rq w = (r, w')))"
proof (cases "AuthenticateCliCredential (pg_cli_auth uuid sha audited) (rqAppId rq) (rqAuthToken rq) w")
  case (Pair r w1)
  let ?guard = "publishGuard (pg_cli_auth uuid sha audited) (pg_key_access uuid licensed) action resolveBranch"
  show ?thesis
  proof (cases r)
    case (Inl e)
    then have "?guard h rq w = RenderCliAuthError e w1" for h
      using Pair by (simp add: publishGuard_def)
    then show ?thesis
      using RenderCliAuthError_status(1) by (metis prod.collapse)
  next
    case (Inr c)
    then obtain t k where k: "rqAuthToken rq = Some t" "k \<in> set (api_keys (kdb w))" "ak_id k = CaKeyID c" "uuid (rqAppId rq) = Some (ak_app k)"
        "ak_hash k = HashPlaintextAPIKey sha t" "ak_revoked k = None" and w1: "key_ok (kdb w1)" "branch_rules (kdb w1) = branch_rules (kdb w)"
        "k\<lparr>ak_used := Some (key_now (kdb w))\<rparr> \<in> set (api_keys (kdb w1))" and c: "CaAppID c = rqAppId rq"
      using authenticate_cases [OF Pair] by (auto elim!: validate_ok)
    have next': "?guard h rq w = authorizeCliRequest (pg_key_access uuid licensed) rq c action (resolveBranch rq)
        (h (rq\<lparr>rqCtx := (rqCtx rq)\<lparr>CliAuthFromContext := Some c\<rparr>\<rparr>)) w1" for h
      using Pair Inr by (simp add: publishGuard_def)
    have access: "on_keys (pg_GetAccess (CaKeyID c)) w1 = (Inr \<lparr>AaApiKeyID = CaKeyID c, AaAllowedIps = ak_ips k,
        AaBranchRules = map rule_of (filter (\<lambda>r. br_key r = CaKeyID c) (branch_rules (kdb w)))\<rparr>, w1)"
      using get_access_run [OF w1(1,3)] k(3,6) w1(2) by (simp add: on_keys_def)
    let ?req = "\<lparr>CrAppID = CaAppID c, CrAPIKeyID = CaKeyID c, CrBranch = resolveBranch rq, CrAction = action, CrClientIP = rqClientIP rq\<rparr>"
    define e where "e = (if ak_ips k \<noteq> [] \<and> \<not> ipAllowed (rqClientIP rq) (ak_ips k) then ErrIpNotAllowed (rqClientIP rq) else BranchDenied action (resolveBranch rq))"
    have judged: "AuthorizeKey (pg_key_access uuid licensed) ?req w1 = (if licensed w1 \<longrightarrow> key_allows (kdb w) k (rqClientIP rq) (resolveBranch rq) action then Inr () else Inl e, w1)"
      by (simp add: AuthorizeKey_def bindE_run mapErr_run access key_allows_def k(3) e_def)
    have "CaKeyID c \<noteq> 0"
      using assms(2) [OF k(2)] k(3) by simp
    then have run: "?guard h rq w = (if resolveBranch rq = [] then RenderError 403 (Msg ''This route requires a branch'' []) w1
        else if licensed w1 \<longrightarrow> key_allows (kdb w) k (rqClientIP rq) (resolveBranch rq) action then h (rq\<lparr>rqCtx := (rqCtx rq)\<lparr>CliAuthFromContext := Some c\<rparr>\<rparr>) w1
        else RenderCliAuthError e w1)" for h
      unfolding next' authorizeCliRequest_def by (simp add: judged)
    show ?thesis
    proof (cases "resolveBranch rq \<noteq> [] \<and> (licensed w1 \<longrightarrow> key_allows (kdb w) k (rqClientIP rq) (resolveBranch rq) action)")
      case True
      then show ?thesis
        using run k c by (intro disjI1 exI [of _ t] exI [of _ k] exI [of _ c] exI [of _ w1]) auto
    next
      case False
      then have "?guard h rq w = (if resolveBranch rq = [] then RenderError 403 (Msg ''This route requires a branch'' []) w1 else RenderCliAuthError e w1)" for h
        using run by auto
      then show ?thesis
        using RenderCliAuthError_status [of e w1] by (intro disjI2) (auto simp: RenderError_def, metis prod.collapse)
    qed
  qed
qed

section \<open>Revocation\<close>

text \<open>A key with this hash is revoked.\<close>

definition dead :: "string \<Rightarrow> key_db \<Rightarrow> bool" where
  "dead hash d \<longleftrightarrow> key_ok d \<and> (\<exists>k \<in> set (api_keys d). ak_hash k = hash \<and> ak_revoked k \<noteq> None)"

lemma key_keeps_Pair [simp, intro]: "keeps P (Pair x)"
  by (simp add: keeps_def)

lemma dead_write:
  assumes "\<And>d k. k \<in> set (api_keys d) \<Longrightarrow> ak_revoked k \<noteq> None \<Longrightarrow> \<exists>l \<in> set (api_keys (fst (f d))). ak_hash l = ak_hash k \<and> ak_revoked l \<noteq> None"
  shows "keeps (dead hash) (key_write f)"
proof (rule keepsI)
  fix d
  assume "dead hash d"
  moreover from this obtain l where "l \<in> set (api_keys (fst (f d)))" "ak_hash l = hash" "ak_revoked l \<noteq> None"
    using assms unfolding dead_def by metis
  ultimately show "dead hash (snd (key_write f d))"
    unfolding key_write_run dead_def by auto
qed

lemma dead_set_keys:
  assumes "\<And>d k. ak_hash (f d k) = ak_hash k" and "\<And>d k. ak_revoked k \<noteq> None \<Longrightarrow> ak_revoked (f d k) \<noteq> None"
  shows "keeps (dead hash) (key_write (\<lambda>d. (set_keys P f d, g d)))"
proof (rule dead_write)
  fix d :: key_db and k
  assume "k \<in> set (api_keys d)" and "ak_revoked k \<noteq> None"
  then show "\<exists>l \<in> set (api_keys (fst (set_keys P f d, g d))). ak_hash l = ak_hash k \<and> ak_revoked l \<noteq> None"
    using assms by (intro bexI [of _ "if P k then f d k else k"]) (auto simp: set_keys_def)
qed

lemma dead_update_returning:
  assumes "\<And>d k. ak_hash (f d k) = ak_hash k" and "\<And>d k. ak_revoked k \<noteq> None \<Longrightarrow> ak_revoked (f d k) \<noteq> None"
  shows "keeps (dead hash) (update_returning P f g)"
proof (rule keepsI)
  fix d
  assume "dead hash d"
  have "keeps (dead hash) (key_write (\<lambda>d. (set_keys P f d, g k)))" for k
    by (rule dead_set_keys [OF assms])
  then show "dead hash (snd (update_returning P f g d))"
    using \<open>dead hash d\<close> by (auto simp: update_returning_def keepsD split: option.split)
qed

lemma dead_statements:
  "keeps (dead hash) (insertApiKey app name hint h)" "keeps (dead hash) (validateAndTouchAuth app h)" "keeps (dead hash) (revokeApiKeyByID i app)"
  "keeps (dead hash) (getApiKeyNameByID i app)" "keeps (dead hash) (updateApiKeyAccess ips i app)" "keeps (dead hash) (deleteApiKeyBranchRules i)"
  "keeps (dead hash) (insertApiKeyBranchRule i pattern actions)"
proof -
  have "keeps (dead hash) (modify (\<lambda>d. d\<lparr>key_seq := key_seq d + 1\<rparr>))"
    by (rule keeps_modify) (simp add: dead_def key_ok_def)
  then show "keeps (dead hash) (insertApiKey app name hint h)"
    unfolding insertApiKey_def by (auto split: option.split intro!: keeps_bindE dead_write)
  show "keeps (dead hash) (validateAndTouchAuth app h)" "keeps (dead hash) (revokeApiKeyByID i app)"
    unfolding validateAndTouchAuth_def revokeApiKeyByID_def by (rule dead_update_returning; simp)+
  show "keeps (dead hash) (getApiKeyNameByID i app)"
    by (rule keepsI) (simp add: getApiKeyNameByID_def split: option.split)
  show "keeps (dead hash) (updateApiKeyAccess ips i app)"
    unfolding updateApiKeyAccess_def by (rule dead_set_keys) simp_all
  show "keeps (dead hash) (deleteApiKeyBranchRules i)" "keeps (dead hash) (insertApiKeyBranchRule i pattern actions)"
    unfolding deleteApiKeyBranchRules_def insertApiKeyBranchRule_def by (rule dead_write; auto)+
qed

lemma keeps_KeyTx: "keeps P m \<Longrightarrow> keeps P (KeyTx m)"
  by (fastforce simp: keeps_def KeyTx_def split: prod.split sum.split)

lemma keeps_key_stored: "keeps P m \<Longrightarrow> keeps P (key_stored text m)"
  unfolding key_stored_def by auto

lemma dead_insert_rules: "keeps (dead hash) (insert_rules i rules)"
  by (induction rules) (auto intro!: keeps_bindE keeps_key_stored dead_statements)

lemma dead_repository:
  "keeps (dead hash) (pg_ValidateCliCredential uuid sha app token)" "keeps (dead hash) (pg_InsertApiKey uuid app name hint h)"
  "keeps (dead hash) (pg_RevokeApiKeyByID uuid i app)" "keeps (dead hash) (pg_GetApiKeyNameByID uuid app i)" "keeps (dead hash) (pg_SetAccess uuid app access)"
  unfolding pg_ValidateCliCredential_def pg_InsertApiKey_def pg_RevokeApiKeyByID_def pg_GetApiKeyNameByID_def pg_SetAccess_def
  by (auto split: option.split intro!: keeps_mapErr keeps_KeyTx keeps_bindE keeps_key_stored dead_statements dead_insert_rules)

lemma keeps_on_keys: "keeps P m \<Longrightarrow> keeps (\<lambda>w. P (kdb w)) (on_keys m)"
  by (simp add: keeps_def on_keys_def)

lemma dead_key_event: "keeps (\<lambda>w. P (kdb w)) (lift_key_event (recordManagementEvent ctx (Some key_record) event))"
  "keeps (\<lambda>w. P (kdb w)) (recordAccessEvent (pg_key_access uuid licensed) ctx action kind i shown app metadata)"
  by (auto simp: lift_key_event_def recordManagementEvent_def recordAccessEvent_def key_record_def Let_def intro!: keeps_mapErr keeps_modify split: prod.split option.split)

text \<open>The operations on keys, and the passing of time.\<close>

inductive key_step :: "uuid_parser \<Rightarrow> (string \<Rightarrow> string) \<Rightarrow> IpPackage \<Rightarrow> key_world \<Rightarrow> key_world \<Rightarrow> bool"
  for uuid :: uuid_parser and sha :: "string \<Rightarrow> string" and ip :: IpPackage where
  generate: "key_step uuid sha ip w (snd (GenerateAPIKey sha (pg_cli_auth uuid sha audited) ctx bytes app name w))"
| revoke: "key_step uuid sha ip w (snd (RevokeApiKey (pg_cli_auth uuid sha audited) ctx app i w))"
| set_access: "key_step uuid sha ip w (snd (SetAccess ip (pg_key_access uuid licensed) ctx app j rules cidrs w))"
| authenticate: "key_step uuid sha ip w (snd (AuthenticateCliCredential (pg_cli_auth uuid sha audited) app token w))"
| pass: "key_step uuid sha ip w (w\<lparr>kdb := kdb w\<lparr>key_now := key_now (kdb w) + t\<rparr>\<rparr>)"

lemma dead_step:
  assumes "key_step uuid sha ip w w'" and "dead hash (kdb w)"
  shows "dead hash (kdb w')"
proof -
  let ?P = "\<lambda>w. dead hash (kdb w)"
  have generate: "keeps ?P (GenerateAPIKey sha (pg_cli_auth uuid sha audited) ctx bytes app name)" for audited ctx bytes app name
    unfolding GenerateAPIKey_def Let_def
    by (auto split: option.split intro!: keeps_bindE keeps_mapErr keeps_on_keys [where P = "dead hash"] dead_repository dead_key_event(1) [where P = "dead hash"])
  have revoke: "keeps ?P (RevokeApiKey (pg_cli_auth uuid sha audited) ctx app i)" for audited ctx app i
    unfolding RevokeApiKey_def
    by (auto split: option.split intro!: keeps_bindE keeps_on_keys [where P = "dead hash"] dead_repository dead_key_event(1) [where P = "dead hash"])
  have access: "keeps ?P (SetAccess ip (pg_key_access uuid licensed) ctx app j rules cidrs)" for licensed ctx app j rules cidrs
    unfolding SetAccess_def
    by (auto split: sum.split intro!: keeps_bindE keeps_attempt keeps_on_keys [where P = "dead hash"] dead_repository dead_key_event(2) [where P = "dead hash"])
  have auth: "keeps ?P (AuthenticateCliCredential (pg_cli_auth uuid sha audited) app token)" for audited app token
    unfolding AuthenticateCliCredential_def
    by (auto split: option.split intro!: keeps_bindE keeps_mapErr keeps_attempt keeps_on_keys [where P = "dead hash"] dead_repository)
  show ?thesis
    using assms keepsD [where P = ?P, OF generate] keepsD [where P = ?P, OF revoke] keepsD [where P = ?P, OF access] keepsD [where P = ?P, OF auth]
    by (cases rule: key_step.cases) (auto simp: dead_def key_ok_def)
qed

lemma dead_refused:
  assumes "dead (HashPlaintextAPIKey sha t) (kdb w)"
  shows "isl (fst (AuthenticateCliCredential (pg_cli_auth uuid sha audited) app (Some t) w))"
proof (cases "AuthenticateCliCredential (pg_cli_auth uuid sha audited) app (Some t) w")
  case (Pair r w')
  show ?thesis
  proof (cases r)
    case (Inr c)
    then obtain k where k: "k \<in> set (api_keys (kdb w))" "ak_hash k = HashPlaintextAPIKey sha t" "ak_revoked k = None"
      using authenticate_cases [OF Pair] by (auto elim!: validate_ok)
    obtain l where "l \<in> set (api_keys (kdb w))" "ak_hash l = HashPlaintextAPIKey sha t" "ak_revoked l \<noteq> None"
      using assms by (auto simp: dead_def)
    then show ?thesis
      using k assms distinct_map_eq [of ak_hash "api_keys (kdb w)" k l] by (simp add: dead_def key_ok_def)
  qed (simp add: Pair)
qed

lemma revoke_kills:
  assumes "RevokeApiKey (pg_cli_auth uuid sha audited) ctx app i w = (Inr (), w')" and "key_ok (kdb w)" and "k \<in> set (api_keys (kdb w))" and "ParseInt i = Some (ak_id k)"
  shows "dead (ak_hash k) (kdb w')"
proof -
  obtain name w1 where r: "on_keys (pg_RevokeApiKeyByID uuid (ak_id k) app) w = (Inr name, w1)" "kdb w' = kdb w1"
    using assms(1,4)
    by (auto simp: RevokeApiKey_def lift_key_event_def recordManagementEvent_def key_record_def mapErr_run elim!: bindE_Inr split: option.splits prod.splits)
  then have stmt: "revokeApiKeyByID (ak_id k) (uuid app) (kdb w) = (Inr name, kdb w')"
    using mapErr_ok unfolding on_keys_def pg_RevokeApiKeyByID_def ToPgUUID_def by (metis (no_types, lifting) Pair_inject key_world.select_convs(1) key_world.surjective key_world.update_convs(1) prod.collapse)
  then obtain l where l: "l \<in> set (api_keys (kdb w))" "live (ak_id k) (uuid app) l" and d': "key_ok (kdb w')"
      "kdb w' = set_keys (live (ak_id k) (uuid app)) (\<lambda>d k. k\<lparr>ak_revoked := Some (key_now d)\<rparr>) (kdb w)"
    using find_Some_mem by (fastforce simp: revokeApiKeyByID_def update_returning_def key_write_run split: option.splits if_splits)
  then have "l = k"
    using key_unique [OF assms(2) l(1) assms(3)] by (simp add: live_def)
  then have "k\<lparr>ak_revoked := Some (key_now (kdb w))\<rparr> \<in> set (api_keys (kdb w'))"
    using l d'(2) by (auto simp: set_keys_def image_iff intro!: bexI [of _ k])
  then show ?thesis
    using d'(1) by (auto simp: dead_def intro!: bexI [of _ "k\<lparr>ak_revoked := Some (key_now (kdb w))\<rparr>"])
qed

text \<open>C20: a revoked key stays refused.  Once \<^verbatim>\<open>RevokeApiKey\<close> succeeded on a key, no request carrying its token is
  authenticated for any app, whatever keys are issued, restricted or revoked later.\<close>

theorem revoked_key_refused:
  assumes "key_ok (kdb w)" and "k \<in> set (api_keys (kdb w))" and "ak_hash k = HashPlaintextAPIKey sha t" and "ParseInt i = Some (ak_id k)"
    and "RevokeApiKey (pg_cli_auth uuid sha audited) ctx app i w = (Inr (), w1)" and "(key_step uuid sha ip)\<^sup>*\<^sup>* w1 w2"
  shows "isl (fst (AuthenticateCliCredential (pg_cli_auth uuid sha audited') app' (Some t) w2))"
proof -
  have "dead (HashPlaintextAPIKey sha t) (kdb w1)"
    using revoke_kills [OF assms(5,1,2,4)] assms(3) by simp
  with assms(6) have "dead (HashPlaintextAPIKey sha t) (kdb w2)"
    by (induction rule: rtranclp_induct) (blast intro: dead_step)+
  then show ?thesis
    by (rule dead_refused)
qed

section \<open>Witnesses\<close>

definition demo_key :: key_row where
  "demo_key = \<lparr>ak_id = 1, ak_app = ''app'', ak_name = ''ci'', ak_hint = [], ak_hash = HashPlaintextAPIKey id ''tok'', ak_created = 0, ak_used = None,
     ak_revoked = None, ak_ips = []\<rparr>"

definition demo_keys :: key_world where
  "demo_keys = \<lparr>kdb = \<lparr>key_apps = [''app''], api_keys = [demo_key], branch_rules = [], key_seq = 1, key_now = 0\<rparr>, kaudit = []\<rparr>"

definition demo_ip :: IpPackage where
  "demo_ip = \<lparr>ParseAddr = (\<lambda>s. if s = ''10.0.0.1'' then Some (V4 0x0A000001) else None), ParsePrefix = (\<lambda>_. None), PrefixString = (\<lambda>_. [])\<rparr>"

definition demo_call :: CliRequestInfo where
  "demo_call = \<lparr>rqCtx = no_one, rqAppId = ''app'', rqMethod = ''POST'', rqPath = ''/'', rqGrant = None, rqBranch = ''main'', rqUploadTokenBranch = [],
     rqAuthToken = None, rqClientIP = None\<rparr>"

lemma demo_keys_ok: "key_ok (kdb demo_keys)"
  by (simp add: key_ok_def demo_keys_def demo_key_def)

theorem access_as_entered_witness:
  "\<exists>w'. SetAccess demo_ip (pg_key_access Some (\<lambda>_. True)) no_one ''app'' 1 [] [''10.0.0.1''] demo_keys = (Inr (), w')
    \<and> fst (AuthorizeKey (pg_key_access Some (\<lambda>_. True))
        \<lparr>CrAppID = ''app'', CrAPIKeyID = 1, CrBranch = ''main'', CrAction = ActionPublish, CrClientIP = Some (V6 0xFFFF0A000001 [])\<rparr> w') = Inr ()
    \<and> fst (AuthorizeKey (pg_key_access Some (\<lambda>_. True))
        \<lparr>CrAppID = ''app'', CrAPIKeyID = 1, CrBranch = ''main'', CrAction = ActionPublish, CrClientIP = Some (V4 0x0A000002)\<rparr> w') \<noteq> Inr ()"
proof -
  have trim: "TrimSpace ''10.0.0.1'' = ''10.0.0.1''"
    by code_simp
  have "\<not> Contains ''10.0.0.1'' ''/''"
    by code_simp
  then have entry: "entry_network demo_ip ''10.0.0.1'' = Some (V4 0x0A000001, 32)" and net: "network_of demo_ip ''10.0.0.1'' = Some (PrefixFrom (V4 0x0A000001) 32)"
    by (simp_all add: entry_network_def network_of_def demo_ip_def)
  have "fst (SetAccess demo_ip (pg_key_access Some (\<lambda>_. True)) no_one ''app'' 1 [] [''10.0.0.1''] demo_keys) = Inr ()"
    by (simp add: SetAccess_def bindE_run attempt_run parseCidrs_def trim net NormalizeBranchRules_def maxBranchRules_def on_keys_def pg_SetAccess_def KeyTx_def
        key_stored_def mapErr_run updateApiKeyAccess_def deleteApiKeyBranchRules_def key_write_run set_keys_def live_def key_ok_def demo_keys_def demo_key_def
        ToPgUUID_def recordAccessEvent_def Let_def no_one_def)
  then obtain w' where run: "SetAccess demo_ip (pg_key_access Some (\<lambda>_. True)) no_one ''app'' 1 [] [''10.0.0.1''] demo_keys = (Inr (), w')"
    by (metis prod.collapse)
  have "list_admits demo_ip [''10.0.0.1''] (Some (V6 0xFFFF0A000001 []))" "\<not> list_admits demo_ip [''10.0.0.1''] (Some (V4 0x0A000002))"
    by (simp_all add: list_admits_def trim admits_def entry denotes_def bits128_def v4_block_def)
  then show ?thesis
    using run access_as_entered [OF run, of "\<lparr>CrAppID = ''app'', CrAPIKeyID = 1, CrBranch = ''main'', CrAction = ActionPublish, CrClientIP = Some (V6 0xFFFF0A000001 [])\<rparr>"]
      access_as_entered [OF run, of "\<lparr>CrAppID = ''app'', CrAPIKeyID = 1, CrBranch = ''main'', CrAction = ActionPublish, CrClientIP = Some (V4 0x0A000002)\<rparr>"]
    by (auto simp: AllowsBranch_def)
qed

theorem publish_route_confined_witness:
  "\<exists>r w'. rpStatus r \<ge> 400 \<and> (\<forall>h. publishGuard (pg_cli_auth Some id None) (pg_key_access Some (\<lambda>_. True)) ActionPublish rqBranch h demo_call demo_keys = (r, w'))"
  using publish_route_confined [of demo_keys demo_call id Some rqBranch "\<lambda>_. True" ActionPublish None] demo_keys_ok
  by (simp add: demo_keys_def demo_key_def demo_call_def)

theorem revoked_key_refused_witness:
  "isl (fst (AuthenticateCliCredential (pg_cli_auth Some id None) ''app'' (Some ''tok'')
     (snd (RevokeApiKey (pg_cli_auth Some id None) no_one ''app'' ''1'' demo_keys))))"
proof -
  have i: "ParseInt ''1'' = Some 1"
    by code_simp
  have "fst (RevokeApiKey (pg_cli_auth Some id None) no_one ''app'' ''1'' demo_keys) = Inr ()"
    by (simp add: RevokeApiKey_def NumericID_def i bindE_run on_keys_def pg_RevokeApiKeyByID_def mapErr_run revokeApiKeyByID_def update_returning_def key_write_run
        set_keys_def live_def key_ok_def demo_keys_def demo_key_def ToPgUUID_def lift_key_event_def recordManagementEvent_def split: prod.split)
  then show ?thesis
    using revoked_key_refused [of demo_keys demo_key id "''tok''" "''1''" Some None no_one "''app''"
        "snd (RevokeApiKey (pg_cli_auth Some id None) no_one ''app'' ''1'' demo_keys)" demo_ip, OF demo_keys_ok _ _ _ _ rtranclp.rtrancl_refl] i
    by (simp add: demo_keys_def demo_key_def prod_eq_iff)
qed

end
