(* ===== verification/SourceMap.thy ===== *)
theory SourceMap
  imports GoStrings "HOL-Library.Word"
begin

text \<open>
  The parser of source maps, \<^verbatim>\<open>src/ee/symbolication/map.go\<close>.  A map lists, in the order of the generated file,
  segments that lead from a generated position to an original one; the list is written as base64 VLQ deltas.
  \<^verbatim>\<open>uint32\<close> is \<^typ>\<open>32 word\<close>; the \<^verbatim>\<open>int64\<close> running totals are integers, and \<open>totals_in_range\<close> shows that
  they stay inside \<^verbatim>\<open>int64\<close>.  Reading the JSON text of the map is a parameter, and so is the context: a function
  that says at each place the code polls it whether it is done by then.
\<close>

unbundle bit_operations_syntax

type_synonym uint32 = "32 word"

datatype CtxError = Canceled | DeadlineExceeded

datatype poll = PollStart | PollParsed | PollCount nat | PollCounted | PollDecode nat

type_synonym mapContext = "poll \<Rightarrow> CtxError option"

datatype map_fault =
    BadJSON string
  | BadVersion int
  | NoMappings
  | UnexpectedChar char
  | VLQTooLong
  | TooManyFields
  | TruncatedVLQ
  | FieldCount nat
  | PositionOutOfRange
  | SourceOutOfRange int
  | NameOutOfRange int
  | SegmentLimit
  | NotSorted
  | ContentsMismatch nat nat

datatype map_err = ErrInvalidMap map_fault | MapCtx CtxError

abbreviation errSegmentLimit :: map_err where
  "errSegmentLimit \<equiv> ErrInvalidMap SegmentLimit"

definition NoIndex :: uint32 where
  "NoIndex = - 1"

record Segment =
  Line :: uint32
  Column :: uint32
  Source :: uint32
  OriginalLine :: uint32
  OriginalColumn :: uint32
  Name :: uint32

record SourceMap =
  Sources :: "string list"
  SourcesContent :: "string list"
  Names :: "string list"
  Ignored :: "bool list"
  Segments :: "Segment list"

record rawMap =
  RawVersion :: int
  RawSources :: "string list"
  RawNames :: "string list"
  RawMappings :: string
  RawSourcesContent :: "string option list"
  RawIgnoreList :: "int list"
  RawGoogleIgnoreList :: "int list"

section \<open>Reading one segment\<close>

definition base64Alphabet :: string where
  "base64Alphabet = ''ABCDEFGHIJKLMNOPQRSTUVWXYZabcdefghijklmnopqrstuvwxyz0123456789+/''"

fun index_of :: "char \<Rightarrow> string \<Rightarrow> nat option" where
  "index_of c [] = None"
| "index_of c (d # ds) = (if c = d then Some 0 else map_option Suc (index_of c ds))"

text \<open>The table of the code holds the place of a character in the alphabet, or a negative number.\<close>

definition base64Values :: "char \<Rightarrow> int" where
  "base64Values c = (case index_of c base64Alphabet of Some i \<Rightarrow> int i | None \<Rightarrow> - 1)"

text \<open>The loop of \<^verbatim>\<open>decodeVLQ\<close>: five bits of a number in each digit, the lowest first; the sixth bit of a digit says
  that the number goes on, the lowest bit of the number is its sign.\<close>

fun vlq_loop :: "string \<Rightarrow> int list \<Rightarrow> int \<Rightarrow> nat \<Rightarrow> map_err + int list" where
  "vlq_loop [] numbers acc shift =
     (if shift \<noteq> 0 then Inl (ErrInvalidMap TruncatedVLQ) else Inr numbers)"
| "vlq_loop (c # encoded) numbers acc shift =
     (let digit = base64Values c in
      if digit < 0 then Inl (ErrInvalidMap (UnexpectedChar c))
      else
        let acc = acc OR push_bit shift (digit AND 31) in
        if digit AND 32 \<noteq> 0 then
          (let shift = shift + 5 in
           if shift > 35 then Inl (ErrInvalidMap VLQTooLong) else vlq_loop encoded numbers acc shift)
        else if length numbers = 5 then Inl (ErrInvalidMap TooManyFields)
        else vlq_loop encoded (numbers @ [if acc AND 1 \<noteq> 0 then - drop_bit 1 acc else drop_bit 1 acc]) 0 0)"

definition decodeVLQ :: "string \<Rightarrow> map_err + int list" where
  "decodeVLQ encoded = vlq_loop encoded [] 0 0"

record runningTotals =
  tColumn :: int
  tSource :: int
  tOriginalLine :: int
  tOriginalColumn :: int
  tName :: int

definition MaxUint32 :: int where
  "MaxUint32 = 2 ^ 32 - 1"

definition out_of_range :: "int \<Rightarrow> bool" where
  "out_of_range z \<longleftrightarrow> z < 0 \<or> z > MaxUint32"

text \<open>\<^verbatim>\<open>runningTotals.add\<close>, in its three steps: the column, the original position, the name.\<close>

definition add_column :: "int list \<Rightarrow> runningTotals \<Rightarrow> map_err + Segment \<times> runningTotals" where
  "add_column deltas t =
     (let t = t\<lparr>tColumn := tColumn t + deltas ! 0\<rparr> in
      if out_of_range (tColumn t) then Inl (ErrInvalidMap PositionOutOfRange)
      else Inr (\<lparr>Line = 0, Column = word_of_int (tColumn t), Source = NoIndex, OriginalLine = 0, OriginalColumn = 0,
                 Name = NoIndex\<rparr>, t))"

definition add_original :: "nat \<Rightarrow> int list \<Rightarrow> Segment \<times> runningTotals \<Rightarrow> map_err + Segment \<times> runningTotals" where
  "add_original sources deltas st =
     (case st of (segment, t) \<Rightarrow>
      let t = t\<lparr>tSource := tSource t + deltas ! 1, tOriginalLine := tOriginalLine t + deltas ! 2,
                tOriginalColumn := tOriginalColumn t + deltas ! 3\<rparr> in
      if tSource t < 0 \<or> tSource t \<ge> int sources then Inl (ErrInvalidMap (SourceOutOfRange (tSource t)))
      else if out_of_range (tOriginalLine t) \<or> out_of_range (tOriginalColumn t) then Inl (ErrInvalidMap PositionOutOfRange)
      else Inr (segment\<lparr>Source := word_of_int (tSource t), OriginalLine := word_of_int (tOriginalLine t),
                        OriginalColumn := word_of_int (tOriginalColumn t)\<rparr>, t))"

definition add_name :: "nat \<Rightarrow> int list \<Rightarrow> Segment \<times> runningTotals \<Rightarrow> map_err + Segment \<times> runningTotals" where
  "add_name names deltas st =
     (case st of (segment, t) \<Rightarrow>
      let t = t\<lparr>tName := tName t + deltas ! 4\<rparr> in
      if tName t < 0 \<or> tName t \<ge> int names then Inl (ErrInvalidMap (NameOutOfRange (tName t)))
      else Inr (segment\<lparr>Name := word_of_int (tName t)\<rparr>, t))"

definition add :: "runningTotals \<Rightarrow> int list \<Rightarrow> nat \<Rightarrow> nat \<Rightarrow> map_err + Segment \<times> runningTotals" where
  "add t deltas sources names =
     (if length deltas \<noteq> 1 \<and> length deltas \<noteq> 4 \<and> length deltas \<noteq> 5
      then Inl (ErrInvalidMap (FieldCount (length deltas)))
      else case add_column deltas t of Inl e \<Rightarrow> Inl e | Inr st \<Rightarrow>
        (case (if length deltas \<ge> 4 then add_original sources deltas st else Inr st) of Inl e \<Rightarrow> Inl e | Inr st \<Rightarrow>
          if length deltas = 5 then add_name names deltas st else Inr st))"

section \<open>Reading the mappings\<close>

definition is_end :: "char \<Rightarrow> bool" where
  "is_end c \<longleftrightarrow> c = CHR '','' \<or> c = CHR '';''"

definition polled :: "mapContext \<Rightarrow> (nat \<Rightarrow> poll) \<Rightarrow> nat \<Rightarrow> CtxError option" where
  "polled ctx site i = (if i mod 4096 = 0 then ctx (site i) else None)"

fun seg_count_loop :: "mapContext \<Rightarrow> int \<Rightarrow> nat \<Rightarrow> string \<Rightarrow> int \<Rightarrow> bool \<Rightarrow> map_err + int" where
  "seg_count_loop ctx maximum i [] count inSegment = Inr count"
| "seg_count_loop ctx maximum i (c # rest) count inSegment =
     (case polled ctx PollCount i of
        Some e \<Rightarrow> Inl (MapCtx e)
      | None \<Rightarrow>
          if is_end c then seg_count_loop ctx maximum (Suc i) rest count False
          else if \<not> inSegment then
            (if count + 1 > maximum then Inl errSegmentLimit else seg_count_loop ctx maximum (Suc i) rest (count + 1) True)
          else seg_count_loop ctx maximum (Suc i) rest count inSegment)"

definition countSegments :: "mapContext \<Rightarrow> string \<Rightarrow> int \<Rightarrow> map_err + int" where
  "countSegments ctx mappings maximum = seg_count_loop ctx maximum 0 mappings 0 False"

record decoding =
  dLine :: uint32
  dTotals :: runningTotals
  dSegments :: "Segment list"

definition end_segment :: "nat \<Rightarrow> nat \<Rightarrow> string \<Rightarrow> decoding \<Rightarrow> map_err + decoding" where
  "end_segment sources names encoded d =
     (if encoded = [] then Inr d
      else case decodeVLQ encoded of Inl e \<Rightarrow> Inl e | Inr deltas \<Rightarrow>
        (case add (dTotals d) deltas sources names of Inl e \<Rightarrow> Inl e | Inr (segment, t) \<Rightarrow>
          Inr (d\<lparr>dTotals := t, dSegments := dSegments d @ [segment\<lparr>Line := dLine d\<rparr>]\<rparr>)))"

definition end_line :: "decoding \<Rightarrow> decoding" where
  "end_line d = d\<lparr>dLine := dLine d + 1, dTotals := (dTotals d)\<lparr>tColumn := 0\<rparr>\<rparr>"

text \<open>The loop of \<^verbatim>\<open>decodeMappings\<close>: \<^term>\<open>encoded\<close> is \<^verbatim>\<open>mappings[start:i]\<close> and \<^term>\<open>rest\<close> is
  \<^verbatim>\<open>mappings[i:]\<close>; the last round, at the end of the string, closes the last segment.\<close>

fun decode_loop :: "mapContext \<Rightarrow> nat \<Rightarrow> nat \<Rightarrow> nat \<Rightarrow> string \<Rightarrow> string \<Rightarrow> decoding \<Rightarrow> map_err + decoding" where
  "decode_loop ctx sources names i encoded [] d =
     (case polled ctx PollDecode i of
        Some e \<Rightarrow> Inl (MapCtx e)
      | None \<Rightarrow> end_segment sources names encoded d)"
| "decode_loop ctx sources names i encoded (c # rest) d =
     (case polled ctx PollDecode i of
        Some e \<Rightarrow> Inl (MapCtx e)
      | None \<Rightarrow>
          if \<not> is_end c then decode_loop ctx sources names (Suc i) (encoded @ [c]) rest d
          else (case end_segment sources names encoded d of Inl e \<Rightarrow> Inl e | Inr d \<Rightarrow>
            decode_loop ctx sources names (Suc i) [] rest (if c = CHR '';'' then end_line d else d)))"

definition no_totals :: runningTotals where
  "no_totals = \<lparr>tColumn = 0, tSource = 0, tOriginalLine = 0, tOriginalColumn = 0, tName = 0\<rparr>"

definition decodeMappings :: "mapContext \<Rightarrow> string \<Rightarrow> nat \<Rightarrow> nat \<Rightarrow> int \<Rightarrow> map_err + Segment list" where
  "decodeMappings ctx mappings sources names maxSegments =
     (case countSegments ctx mappings maxSegments of Inl e \<Rightarrow> Inl e | Inr _ \<Rightarrow>
      case ctx PollCounted of Some e \<Rightarrow> Inl (MapCtx e) | None \<Rightarrow>
      map_sum id dSegments
        (decode_loop ctx sources names 0 [] mappings \<lparr>dLine = 0, dTotals = no_totals, dSegments = []\<rparr>))"

section \<open>Reading the map\<close>

definition segmentSize :: nat where
  "segmentSize = 24"

definition ignore_flags :: "int list \<Rightarrow> bool list \<Rightarrow> bool list" where
  "ignore_flags indexes ignored =
     fold (\<lambda>index ignored. if index \<ge> 0 \<and> index < int (length ignored) then ignored[nat index := True] else ignored)
       indexes ignored"

fun fill_contents :: "nat \<Rightarrow> string option list \<Rightarrow> string list" where
  "fill_contents 0 contents = []"
| "fill_contents (Suc n) [] = [] # fill_contents n []"
| "fill_contents (Suc n) (content # contents) = (case content of Some text \<Rightarrow> text | None \<Rightarrow> []) # fill_contents n contents"

definition parseMap :: "(string \<Rightarrow> string + rawMap) \<Rightarrow> mapContext \<Rightarrow> string \<Rightarrow> int \<Rightarrow> map_err + SourceMap" where
  "parseMap unmarshal ctx data maxSegmentBytes =
     (case ctx PollStart of Some e \<Rightarrow> Inl (MapCtx e) | None \<Rightarrow>
      case unmarshal data of Inl e \<Rightarrow> Inl (ErrInvalidMap (BadJSON e)) | Inr raw \<Rightarrow>
      case ctx PollParsed of Some e \<Rightarrow> Inl (MapCtx e) | None \<Rightarrow>
      if RawVersion raw \<noteq> 3 then Inl (ErrInvalidMap (BadVersion (RawVersion raw)))
      else if RawMappings raw = [] then Inl (ErrInvalidMap NoMappings)
      else case decodeMappings ctx (RawMappings raw) (length (RawSources raw)) (length (RawNames raw))
                  (maxSegmentBytes div int segmentSize) of
             Inl e \<Rightarrow> Inl e
           | Inr segments \<Rightarrow>
               Inr \<lparr>Sources = RawSources raw,
                    SourcesContent = fill_contents (length (RawSources raw)) (RawSourcesContent raw),
                    Names = RawNames raw,
                    Ignored = ignore_flags (RawGoogleIgnoreList raw)
                                (ignore_flags (RawIgnoreList raw) (replicate (length (RawSources raw)) False)),
                    Segments = segments\<rparr>)"

section \<open>Digits\<close>

lemma map_sum_Inr: "map_sum f g x = Inr y \<longleftrightarrow> (\<exists>z. x = Inr z \<and> y = g z)"
  by (cases x) auto

lemma index_of_Some: "index_of c ds = Some i \<Longrightarrow> i < length ds \<and> ds ! i = c"
  by (induction ds arbitrary: i) (auto split: if_splits)

lemma index_of_nth: "distinct ds \<Longrightarrow> i < length ds \<Longrightarrow> index_of (ds ! i) ds = Some i"
proof (induction ds arbitrary: i)
  case (Cons d ds)
  then show ?case
    by (cases i) (auto simp: in_set_conv_nth)
qed simp

lemma alphabet_facts: "distinct base64Alphabet" "length base64Alphabet = 64"
  "CHR '','' \<notin> set base64Alphabet" "CHR '';'' \<notin> set base64Alphabet"
  by (simp_all add: base64Alphabet_def)

lemma base64Values_nth [simp]: "i < 64 \<Longrightarrow> base64Values (base64Alphabet ! i) = int i"
  by (simp add: base64Values_def index_of_nth alphabet_facts)

lemma base64Values_less: "base64Values c < 64"
proof (cases "index_of c base64Alphabet")
  case (Some i)
  then show ?thesis
    using index_of_Some [OF Some] by (simp add: base64Values_def alphabet_facts)
qed (simp add: base64Values_def)

lemma low_digit: "digit AND 31 = digit mod 32" for digit :: int
  using take_bit_eq_mask [of 5 digit] take_bit_eq_mod [of 5 digit] by (simp add: mask_eq_exp_minus_1)

lemma high_digit: "0 \<le> digit \<Longrightarrow> digit < 64 \<Longrightarrow> digit AND 32 \<noteq> 0 \<longleftrightarrow> 32 \<le> digit" for digit :: int
proof -
  assume d: "0 \<le> digit" "digit < 64"
  have "digit AND 32 \<noteq> 0 \<longleftrightarrow> bit digit 5"
    using and_exp_eq_0_iff_not_bit [of digit 5] by simp
  also have "\<dots> \<longleftrightarrow> odd (digit div 32)"
    by (simp add: bit_iff_odd)
  also have "\<dots> \<longleftrightarrow> 32 \<le> digit"
    using d by (cases "32 \<le> digit") (auto simp: div_pos_geq)
  finally show ?thesis .
qed

lemma or_shifted: "0 \<le> acc \<Longrightarrow> acc < 2 ^ shift \<Longrightarrow> acc OR push_bit shift w = acc + w * 2 ^ shift"
  for acc w :: int
proof -
  assume v: "0 \<le> acc" "acc < 2 ^ shift"
  have "acc + push_bit shift w = acc OR push_bit shift w"
  proof (rule disjunctive_add_eq_or, rule bit_eqI)
    fix n
    show "bit (acc AND push_bit shift w) n = bit 0 n"
      using v take_bit_int_eq_self [of acc shift] bit_take_bit_iff [of shift acc n]
      by (auto simp: bit_and_iff bit_push_bit_iff)
  qed
  then show ?thesis
    by (simp add: push_bit_eq_mult)
qed

lemma sign_bit: "acc AND 1 \<noteq> 0 \<longleftrightarrow> odd acc" "drop_bit 1 acc = acc div 2" for acc :: int
  by (simp_all add: and_one_eq odd_iff_mod_2_eq_one drop_bit_eq_div)

text \<open>What a number decoded so far may be: a number of \<^verbatim>\<open>shift\<close> bits.\<close>

lemma vlq_loop_step:
  assumes "0 \<le> base64Values c" "0 \<le> acc" "acc < 2 ^ shift" "acc' = acc + (base64Values c mod 32) * 2 ^ shift"
  shows "vlq_loop (c # encoded) numbers acc shift =
    (if 32 \<le> base64Values c then
       (if shift + 5 > 35 then Inl (ErrInvalidMap VLQTooLong) else vlq_loop encoded numbers acc' (shift + 5))
     else if length numbers = 5 then Inl (ErrInvalidMap TooManyFields)
     else vlq_loop encoded (numbers @ [if odd acc' then - (acc' div 2) else acc' div 2]) 0 0)"
proof -
  have disj: "acc OR push_bit shift (base64Values c AND 31) = acc'"
    using assms by (simp add: low_digit or_shifted)
  have more: "base64Values c AND 32 \<noteq> 0 \<longleftrightarrow> 32 \<le> base64Values c"
    using assms(1) base64Values_less by (rule high_digit)
  show ?thesis
    unfolding vlq_loop.simps Let_def disj more sign_bit using assms(1) by simp
qed

lemma shifted_digit_less:
  assumes "0 \<le> acc" "acc < 2 ^ shift"
  shows "acc + (d mod 32) * 2 ^ shift < (2 ^ (shift + 5) :: int)"
proof -
  have "d mod 32 \<le> 31"
    using pos_mod_bound [of 32 d] by simp
  then have "(d mod 32) * 2 ^ shift \<le> 31 * (2 ^ shift :: int)"
    by (intro mult_right_mono) auto
  moreover have "(2::int) ^ (shift + 5) = 32 * 2 ^ shift"
    by (simp add: power_add)
  ultimately show ?thesis
    using assms by linarith
qed

definition small :: "int \<Rightarrow> bool" where
  "small z \<longleftrightarrow> \<bar>z\<bar> < 2 ^ 39"

lemma vlq_loop_small:
  assumes "vlq_loop encoded numbers acc shift = Inr result" "0 \<le> acc" "acc < 2 ^ shift" "shift \<le> 35"
    "list_all small numbers" "length numbers \<le> 5"
  shows "list_all small result \<and> length result \<le> 5"
  using assms
proof (induction encoded arbitrary: numbers acc shift)
  case (Cons c encoded)
  show ?case
  proof (cases "0 \<le> base64Values c")
    case digit: True
    define acc' where "acc' = acc + (base64Values c mod 32) * 2 ^ shift"
    have v': "0 \<le> acc'" "acc' < 2 ^ (shift + 5)"
      using Cons.prems digit shifted_digit_less [of acc shift "base64Values c"] by (auto simp: acc'_def)
    have step: "vlq_loop (c # encoded) numbers acc shift =
        (if 32 \<le> base64Values c then
           (if shift + 5 > 35 then Inl (ErrInvalidMap VLQTooLong) else vlq_loop encoded numbers acc' (shift + 5))
         else if length numbers = 5 then Inl (ErrInvalidMap TooManyFields)
         else vlq_loop encoded (numbers @ [if odd acc' then - (acc' div 2) else acc' div 2]) 0 0)"
      using Cons.prems digit by (intro vlq_loop_step) (auto simp: acc'_def)
    have "(2::int) ^ (shift + 5) \<le> 2 ^ 40"
      using Cons.prems by (intro power_increasing) auto
    then have "small (if odd acc' then - (acc' div 2) else acc' div 2)"
      using v' by (auto simp: small_def)
    then show ?thesis
      using Cons.IH [of _ "if 32 \<le> base64Values c then acc' else 0"] Cons.prems v' unfolding step by (auto split: if_splits)
  qed (use Cons.prems in simp)
qed (auto split: if_splits)

declare vlq_loop.simps(2) [simp del]

section \<open>Totals and segments stay in range\<close>

definition totals_ok :: "nat \<Rightarrow> nat \<Rightarrow> runningTotals \<Rightarrow> bool" where
  "totals_ok sources names t \<longleftrightarrow> \<not> out_of_range (tColumn t) \<and> \<not> out_of_range (tOriginalLine t)
     \<and> \<not> out_of_range (tOriginalColumn t) \<and> 0 \<le> tSource t \<and> (tSource t = 0 \<or> tSource t < int sources)
     \<and> 0 \<le> tName t \<and> (tName t = 0 \<or> tName t < int names)"

text \<open>What a reader of a segment relies on: it names an original source of the map or none, and a name of the map or none.\<close>

definition segment_ok :: "nat \<Rightarrow> nat \<Rightarrow> Segment \<Rightarrow> bool" where
  "segment_ok sources names s \<longleftrightarrow>
     (Source s = NoIndex \<or> unat (Source s) < sources) \<and> (Name s = NoIndex \<or> unat (Name s) < names)"

lemma unat_of_int_less: "0 \<le> z \<Longrightarrow> z < int n \<Longrightarrow> unat (word_of_int z :: uint32) < n"
proof -
  assume z: "0 \<le> z" "z < int n"
  have "unat (word_of_int z :: uint32) = nat (z mod 2 ^ 32)"
    by (simp add: unat_eq_nat_uint uint_word_of_int)
  also have "\<dots> \<le> nat z"
    using z by (simp add: zmod_le_nonneg_dividend nat_mono)
  finally show ?thesis
    using z by linarith
qed

lemma add_column_ok:
  assumes "add_column deltas t = Inr (s, t')" "totals_ok sources names t"
  shows "totals_ok sources names t' \<and> segment_ok sources names s"
  using assms by (auto simp: add_column_def Let_def totals_ok_def segment_ok_def split: if_splits)

lemma add_original_ok:
  assumes "add_original sources deltas (s, t) = Inr (s', t')" "totals_ok sources names t \<and> segment_ok sources names s"
  shows "totals_ok sources names t' \<and> segment_ok sources names s'"
  using assms unat_of_int_less [of "tSource t + deltas ! 1" sources]
  by (auto simp: add_original_def Let_def totals_ok_def segment_ok_def split: if_splits)

lemma add_name_ok:
  assumes "add_name names deltas (s, t) = Inr (s', t')" "totals_ok sources names t \<and> segment_ok sources names s"
  shows "totals_ok sources names t' \<and> segment_ok sources names s'"
  using assms unat_of_int_less [of "tName t + deltas ! 4" names]
  by (auto simp: add_name_def Let_def totals_ok_def segment_ok_def split: if_splits)

lemma add_ok:
  assumes "add t deltas sources names = Inr (s, t')" "totals_ok sources names t"
  shows "totals_ok sources names t' \<and> segment_ok sources names s"
proof -
  obtain s1 t1 where 1: "add_column deltas t = Inr (s1, t1)"
    using assms(1) by (fastforce simp: add_def split: if_splits sum.splits)
  obtain s2 t2 where 2: "(if length deltas \<ge> 4 then add_original sources deltas (s1, t1) else Inr (s1, t1)) = Inr (s2, t2)"
    using assms(1) 1 by (fastforce simp: add_def split: if_splits sum.splits)
  have "totals_ok sources names t2 \<and> segment_ok sources names s2"
    using 2 add_original_ok [OF _ add_column_ok [OF 1 assms(2)], of deltas s2 t2] add_column_ok [OF 1 assms(2)]
    by (simp split: if_splits)
  moreover have "(if length deltas = 5 then add_name names deltas (s2, t2) else Inr (s2, t2)) = Inr (s, t')"
    using assms(1) 1 2 by (simp add: add_def split: if_splits)
  ultimately show ?thesis
    using add_name_ok [of names deltas s2 t2 s t'] by (simp split: if_splits)
qed

text \<open>The sums that \<^verbatim>\<open>add\<close> forms fit \<^verbatim>\<open>int64\<close>: the totals are below two to the 32 and the deltas below two to the 39.\<close>

lemma totals_in_range:
  assumes "totals_ok sources names t" "small delta" "sources \<le> 2 ^ 32" "names \<le> 2 ^ 32"
    "z \<in> {tColumn t, tSource t, tOriginalLine t, tOriginalColumn t, tName t}"
  shows "- (2 ^ 63) \<le> z + delta \<and> z + delta < 2 ^ 63"
proof -
  have "int sources \<le> 2 ^ 32" "int names \<le> 2 ^ 32"
    using of_nat_mono [OF assms(3), where 'a = int] of_nat_mono [OF assms(4), where 'a = int] by simp_all
  then have "0 \<le> z \<and> z \<le> 2 ^ 32"
    using assms(1,5) by (auto simp: totals_ok_def out_of_range_def MaxUint32_def)
  then show ?thesis
    using assms(2) by (simp add: small_def abs_if split: if_splits)
qed

definition decoding_ok :: "nat \<Rightarrow> nat \<Rightarrow> decoding \<Rightarrow> bool" where
  "decoding_ok sources names d \<longleftrightarrow>
     totals_ok sources names (dTotals d) \<and> list_all (segment_ok sources names) (dSegments d)"

lemma end_segment_ok:
  "end_segment sources names encoded d = Inr d' \<Longrightarrow> decoding_ok sources names d \<Longrightarrow> decoding_ok sources names d'"
  by (auto simp: end_segment_def decoding_ok_def segment_ok_def dest!: add_ok split: if_splits sum.splits prod.splits)

lemma end_line_ok: "decoding_ok sources names d \<Longrightarrow> decoding_ok sources names (end_line d)"
  by (simp add: decoding_ok_def end_line_def totals_ok_def out_of_range_def MaxUint32_def)

lemma decode_loop_ok:
  "decode_loop ctx sources names i encoded rest d = Inr d' \<Longrightarrow> decoding_ok sources names d \<Longrightarrow> decoding_ok sources names d'"
proof (induction ctx sources names i encoded rest d rule: decode_loop.induct)
  case (2 ctx sources names i encoded c rest d)
  then show ?case
    by (auto split: option.splits if_splits sum.splits intro: end_line_ok dest: end_segment_ok)
qed (auto split: option.splits dest: end_segment_ok)

lemma no_totals_ok: "totals_ok sources names no_totals"
  by (simp add: totals_ok_def no_totals_def out_of_range_def MaxUint32_def)

lemma decodeMappings_ok:
  "decodeMappings ctx mappings sources names maxSegments = Inr segments \<Longrightarrow> list_all (segment_ok sources names) segments"
  using decode_loop_ok [of ctx sources names 0 "[]" mappings "\<lparr>dLine = 0, dTotals = no_totals, dSegments = []\<rparr>"]
  by (auto simp: decodeMappings_def decoding_ok_def no_totals_ok map_sum_Inr split: sum.splits option.splits)

section \<open>The segments were counted beforehand\<close>

lemma end_segment_length:
  "end_segment sources names encoded d = Inr d' \<Longrightarrow>
     length (dSegments d') = length (dSegments d) + (if encoded = [] then 0 else 1)"
  by (auto simp: end_segment_def split: if_splits sum.splits)

lemma end_line_segments [simp]: "dSegments (end_line d) = dSegments d"
  by (simp add: end_line_def)

lemma seg_count_loop_decodes:
  "seg_count_loop ctx maximum i rest count inSegment = Inr n \<Longrightarrow> decode_loop ctx' sources names j encoded rest d = Inr d' \<Longrightarrow>
   inSegment \<longleftrightarrow> encoded \<noteq> [] \<Longrightarrow> count = int (length (dSegments d)) + (if encoded = [] then 0 else 1) \<Longrightarrow>
   n = int (length (dSegments d'))"
proof (induction ctx maximum i rest count inSegment arbitrary: j encoded d rule: seg_count_loop.induct)
  case (1 ctx maximum i count inSegment)
  then show ?case
    by (auto split: option.splits dest!: end_segment_length)
next
  case (2 ctx maximum i c rest count inSegment)
  show ?case
  proof (cases "is_end c")
    case True
    then obtain d1 where d1: "end_segment sources names encoded d = Inr d1"
      "decode_loop ctx' sources names (Suc j) [] rest (if c = CHR '';'' then end_line d1 else d1) = Inr d'"
      using 2(5) by (auto split: option.splits sum.splits)
    show ?thesis
      by (rule 2(1) [OF _ True _ d1(2)]) (use 2 True end_segment_length [OF d1(1)] in \<open>auto split: option.splits\<close>)
  next
    case False
    then have "decode_loop ctx' sources names (Suc j) (encoded @ [c]) rest d = Inr d'"
      using 2(5) by (auto split: option.splits)
    then show ?thesis
      using 2(2,3) [OF _ False] 2(4,6,7) False by (auto split: option.splits if_splits)
  qed
qed

lemma seg_count_loop_bound:
  "seg_count_loop ctx maximum i rest count inSegment = Inr n \<Longrightarrow> count \<le> maximum \<or> \<not> inSegment \<and> count = 0 \<Longrightarrow>
     n \<le> maximum \<or> n = 0"
  by (induction ctx maximum i rest count inSegment rule: seg_count_loop.induct) (auto split: option.splits if_splits)

lemma decodeMappings_bound:
  assumes "decodeMappings ctx mappings sources names maxSegments = Inr segments" "0 \<le> maxSegments"
  shows "int (length segments) \<le> maxSegments"
proof -
  obtain n d where n: "countSegments ctx mappings maxSegments = Inr n"
    and d: "decode_loop ctx sources names 0 [] mappings \<lparr>dLine = 0, dTotals = no_totals, dSegments = []\<rparr> = Inr d"
    and segments: "segments = dSegments d"
    using assms(1) by (auto simp: decodeMappings_def map_sum_Inr split: sum.splits option.splits)
  have "n = int (length (dSegments d))"
    by (rule seg_count_loop_decodes [OF n [unfolded countSegments_def] d]) auto
  then show ?thesis
    using seg_count_loop_bound [OF n [unfolded countSegments_def]] assms(2) segments by auto
qed

section \<open>Well-formed maps\<close>

definition map_ok :: "SourceMap \<Rightarrow> bool" where
  "map_ok m \<longleftrightarrow> length (Ignored m) = length (Sources m) \<and> length (SourcesContent m) = length (Sources m)
     \<and> list_all (segment_ok (length (Sources m)) (length (Names m))) (Segments m)"

lemma length_ignore_flags [simp]: "length (ignore_flags indexes ignored) = length ignored"
  by (induction indexes arbitrary: ignored) (auto simp: ignore_flags_def)

lemma length_fill_contents [simp]: "length (fill_contents n contents) = n"
  by (induction n contents rule: fill_contents.induct) auto

lemma parseMap_ok:
  "parseMap unmarshal ctx data maxSegmentBytes = Inr m \<Longrightarrow> map_ok m"
  by (auto simp: parseMap_def map_ok_def split: option.splits sum.splits if_splits dest!: decodeMappings_ok)

lemma parseMap_bound:
  "parseMap unmarshal ctx data maxSegmentBytes = Inr m \<Longrightarrow> 0 \<le> maxSegmentBytes \<Longrightarrow>
     int (segmentSize * length (Segments m)) \<le> maxSegmentBytes"
  by (auto simp: parseMap_def segmentSize_def split: option.splits sum.splits if_splits dest!: decodeMappings_bound)

section \<open>The mappings a bundler writes are read back\<close>

text \<open>A reference encoder, after the source map format: the numbers of a segment are deltas to the segments before it,
  written five bits to a digit; a comma separates the segments of a line and a semicolon ends a line.\<close>

function vlq_digits :: "nat \<Rightarrow> string" where
  "vlq_digits n = (if n < 32 then [base64Alphabet ! n] else base64Alphabet ! (32 + n mod 32) # vlq_digits (n div 32))"
  by auto
termination by (relation "measure id") auto

declare vlq_digits.simps [simp del]

definition encodeVLQ :: "int \<Rightarrow> string" where
  "encodeVLQ z = vlq_digits (if z < 0 then 2 * nat (- z) + 1 else 2 * nat z)"

definition deltas_of :: "runningTotals \<Rightarrow> Segment \<Rightarrow> int list" where
  "deltas_of t s = [uint (Column s) - tColumn t] @
     (if Source s = NoIndex then [] else
        [uint (Source s) - tSource t, uint (OriginalLine s) - tOriginalLine t, uint (OriginalColumn s) - tOriginalColumn t] @
        (if Name s = NoIndex then [] else [uint (Name s) - tName t]))"

definition totals_after :: "runningTotals \<Rightarrow> Segment \<Rightarrow> runningTotals" where
  "totals_after t s =
     (let t = t\<lparr>tColumn := uint (Column s)\<rparr> in
      if Source s = NoIndex then t else
        let t = t\<lparr>tSource := uint (Source s), tOriginalLine := uint (OriginalLine s), tOriginalColumn := uint (OriginalColumn s)\<rparr> in
        if Name s = NoIndex then t else t\<lparr>tName := uint (Name s)\<rparr>)"

definition encode_segment :: "runningTotals \<Rightarrow> Segment \<Rightarrow> string" where
  "encode_segment t s = concat (map encodeVLQ (deltas_of t s))"

fun encode_from :: "runningTotals \<Rightarrow> nat \<Rightarrow> bool \<Rightarrow> Segment list \<Rightarrow> string" where
  "encode_from t line fresh [] = []"
| "encode_from t line fresh (s # ss) =
     (let moved = unat (Line s) \<noteq> line; t = (if moved then t\<lparr>tColumn := 0\<rparr> else t) in
      (if moved then replicate (unat (Line s) - line) (CHR '';'') else if fresh then [] else '','')
      @ encode_segment t s @ encode_from (totals_after t s) (unat (Line s)) False ss)"

definition encodeMappings :: "Segment list \<Rightarrow> string" where
  "encodeMappings ss = encode_from no_totals 0 True ss"

text \<open>The segments such a list can hold: in the order of the generated lines, each naming a source of the map and
  perhaps a name, or neither.\<close>

definition writable :: "nat \<Rightarrow> nat \<Rightarrow> Segment \<Rightarrow> bool" where
  "writable sources names s \<longleftrightarrow> segment_ok sources names s
     \<and> (Source s = NoIndex \<longrightarrow> OriginalLine s = 0 \<and> OriginalColumn s = 0 \<and> Name s = NoIndex)"

subsection \<open>Numbers\<close>

lemma digit_not_end: "i < 64 \<Longrightarrow> \<not> is_end (base64Alphabet ! i)"
  using nth_mem [of i base64Alphabet] alphabet_facts by (metis is_end_def)

lemma vlq_digits_no_end: "list_all (\<lambda>c. \<not> is_end c) (vlq_digits n)"
proof (induction n rule: vlq_digits.induct)
  case (1 n)
  then show ?case
    by (subst vlq_digits.simps) (simp add: digit_not_end)
qed

lemma vlq_digits_not_Nil [simp]: "vlq_digits n \<noteq> []"
  by (subst vlq_digits.simps) simp

lemma vlq_loop_digits:
  assumes "0 \<le> acc" "acc < 2 ^ (5 * k)" "n < 32 ^ (8 - k)" "k \<le> 7" "length numbers < 5"
    "acc' = acc + int n * 2 ^ (5 * k)"
  shows "vlq_loop (vlq_digits n @ encoded) numbers acc (5 * k) =
    vlq_loop encoded (numbers @ [if odd acc' then - (acc' div 2) else acc' div 2]) 0 0"
  using assms
proof (induction n arbitrary: acc k rule: vlq_digits.induct)
  case (1 n)
  show ?case
  proof (cases "n < 32")
    case True
    then have "vlq_digits n = [base64Alphabet ! n]"
      by (simp add: vlq_digits.simps)
    then show ?thesis
      using True 1(2-) by (simp add: vlq_loop_step [of _ _ _ acc'])
  next
    case False
    then have k: "k \<le> 6"
      using 1(4,5) by (cases "k = 7") auto
    have "(32 :: nat) ^ (8 - k) = 32 ^ (8 - Suc k) * 32"
      using k by (simp add: power_Suc2 [symmetric] Suc_diff_Suc del: power_Suc)
    then have less: "n div 32 < 32 ^ (8 - Suc k)"
      using 1(4) by (simp add: less_mult_imp_div_less)
    have split: "int n = int (n mod 32) + 32 * int (n div 32)"
      by (metis mod_mult_div_eq of_nat_add of_nat_mult of_nat_numeral)
    define acc1 where "acc1 = acc + int (n mod 32) * 2 ^ (5 * k)"
    have acc1: "0 \<le> acc1" "acc1 < 2 ^ (5 * Suc k)" "acc' = acc1 + int (n div 32) * 2 ^ (5 * Suc k)"
      using 1(2,3,7) shifted_digit_less [of acc "5 * k" "int (n mod 32)"] split
      by (simp_all add: acc1_def power_add algebra_simps)
    have "vlq_loop (vlq_digits n @ encoded) numbers acc (5 * k) = vlq_loop (vlq_digits (n div 32) @ encoded) numbers acc1 (5 * Suc k)"
      using False k 1(2,3) by (subst vlq_digits.simps) (simp add: vlq_loop_step [of _ _ _ acc1] acc1_def algebra_simps)
    also have "\<dots> = vlq_loop encoded (numbers @ [if odd acc' then - (acc' div 2) else acc' div 2]) 0 0"
      by (rule 1(1) [OF False acc1(1,2) less _ 1(6) acc1(3)]) (use k in simp)
    finally show ?thesis .
  qed
qed

lemma vlq_loop_encodeVLQ:
  assumes "small z" "length numbers < 5"
  shows "vlq_loop (encodeVLQ z @ encoded) numbers 0 0 = vlq_loop encoded (numbers @ [z]) 0 0"
proof -
  define n where "n = (if z < 0 then 2 * nat (- z) + 1 else 2 * nat z)"
  have "n < 32 ^ (8 - 0)"
    using assms(1) by (simp add: n_def small_def) linarith
  moreover have "(if odd (int n) then - (int n div 2) else int n div 2) = z"
  proof (cases "z < 0")
    case True
    then have "int n = 2 * (- z) + 1"
      by (simp add: n_def)
    then show ?thesis
      by presburger
  qed (simp add: n_def)
  ultimately show ?thesis
    using vlq_loop_digits [of 0 0 n numbers "int n" encoded] assms(2) by (simp add: encodeVLQ_def n_def [symmetric])
qed

lemma vlq_loop_encode_all:
  "list_all small zs \<Longrightarrow> length numbers + length zs \<le> 5 \<Longrightarrow>
     vlq_loop (concat (map encodeVLQ zs)) numbers 0 0 = Inr (numbers @ zs)"
  by (induction zs arbitrary: numbers) (simp_all add: vlq_loop_encodeVLQ)

lemma decodeVLQ_encode: "list_all small zs \<Longrightarrow> length zs \<le> 5 \<Longrightarrow> decodeVLQ (concat (map encodeVLQ zs)) = Inr zs"
  by (simp add: decodeVLQ_def vlq_loop_encode_all)

subsection \<open>Segments\<close>

lemma small_diff: "0 \<le> a \<Longrightarrow> a < 2 ^ 33 \<Longrightarrow> 0 \<le> b \<Longrightarrow> b < 2 ^ 33 \<Longrightarrow> small (b - a)"
  by (simp add: small_def abs_if)

lemma small_difference: "0 \<le> a \<Longrightarrow> a < 2 ^ 33 \<Longrightarrow> small (uint (w :: uint32) - a)"
  using uint_bounded [of w] by (intro small_diff) auto

lemma deltas_small:
  assumes "totals_ok sources names t" "sources \<le> 2 ^ 32" "names \<le> 2 ^ 32"
  shows "list_all small (deltas_of t s)"
proof -
  have "int sources \<le> 2 ^ 32" "int names \<le> 2 ^ 32"
    using of_nat_mono [OF assms(2), where 'a = int] of_nat_mono [OF assms(3), where 'a = int] by simp_all
  then have "tSource t < 2 ^ 33" "tName t < 2 ^ 33"
    using assms(1) by (auto simp: totals_ok_def)
  then show ?thesis
    using assms(1) small_difference [of "tColumn t"] small_difference [of "tSource t"] small_difference [of "tName t"]
      small_difference [of "tOriginalLine t"] small_difference [of "tOriginalColumn t"]
    by (simp add: deltas_of_def totals_ok_def out_of_range_def MaxUint32_def)
qed

lemma length_deltas: "length (deltas_of t s) = (if Source s = NoIndex then 1 else if Name s = NoIndex then 4 else 5)"
  by (simp add: deltas_of_def)

lemma uint_in_range: "\<not> out_of_range (uint (w :: uint32))"
  using uint_bounded [of w] by (simp add: out_of_range_def MaxUint32_def)

lemma uint_less_iff: "uint (w :: uint32) < int n \<longleftrightarrow> unat w < n"
  unfolding unat_eq_nat_uint by (rule nat_less_iff [symmetric]) simp

lemma add_column_delta:
  "add_column ((uint c - tColumn t) # ds) t =
     Inr (\<lparr>Line = 0, Column = c, Source = NoIndex, OriginalLine = 0, OriginalColumn = 0, Name = NoIndex\<rparr>,
          t\<lparr>tColumn := uint c\<rparr>)"
  by (simp add: add_column_def uint_in_range)

lemma add_original_delta:
  "unat a < sources \<Longrightarrow>
   add_original sources (d # (uint a - tSource t) # (uint b - tOriginalLine t) # (uint c - tOriginalColumn t) # ds) (s, t) =
     Inr (s\<lparr>Source := a, OriginalLine := b, OriginalColumn := c\<rparr>,
          t\<lparr>tSource := uint a, tOriginalLine := uint b, tOriginalColumn := uint c\<rparr>)"
  using uint_less_iff [of a sources] by (simp add: add_original_def uint_in_range not_le Let_def)

lemma add_name_delta:
  "unat a < names \<Longrightarrow>
   add_name names [d0, d1, d2, d3, uint a - tName t] (s, t) = Inr (s\<lparr>Name := a\<rparr>, t\<lparr>tName := uint a\<rparr>)"
  using uint_less_iff [of a names] by (simp add: add_name_def not_le Let_def)

lemma add_deltas:
  assumes "writable sources names s"
  shows "add t (deltas_of t s) sources names = Inr (s\<lparr>Line := 0\<rparr>, totals_after t s)"
proof (cases "Source s = NoIndex")
  case True
  then show ?thesis
    using assms by (simp add: add_def deltas_of_def totals_after_def writable_def add_column_delta Let_def)
next
  case False
  then have src: "unat (Source s) < sources"
    using assms by (simp add: writable_def segment_ok_def)
  show ?thesis
  proof (cases "Name s = NoIndex")
    case True
    then show ?thesis
      using False src add_original_delta [OF src, of _ "t\<lparr>tColumn := uint (Column s)\<rparr>"]
      by (simp add: add_def deltas_of_def totals_after_def add_column_delta Let_def)
  next
    case named: False
    then have nam: "unat (Name s) < names"
      using assms by (simp add: writable_def segment_ok_def)
    then show ?thesis
      using False named src add_original_delta [OF src, of _ "t\<lparr>tColumn := uint (Column s)\<rparr>"]
        add_name_delta [OF nam, of _ _ _ _ "t\<lparr>tColumn := uint (Column s), tSource := uint (Source s),
          tOriginalLine := uint (OriginalLine s), tOriginalColumn := uint (OriginalColumn s)\<rparr>"]
      by (simp add: add_def deltas_of_def totals_after_def add_column_delta Let_def)
  qed
qed

subsection \<open>Lines\<close>

abbreviation background :: mapContext where
  "background \<equiv> \<lambda>_. None"

lemma polled_background [simp]: "polled background site i = None"
  by (simp add: polled_def)

lemma encode_segment_word: "list_all (\<lambda>c. \<not> is_end c) (encode_segment t s)" "encode_segment t s \<noteq> []"
proof -
  have "list_all (\<lambda>c. \<not> is_end c) (concat (map encodeVLQ zs))" for zs
    by (induction zs) (simp_all add: encodeVLQ_def vlq_digits_no_end)
  then show "list_all (\<lambda>c. \<not> is_end c) (encode_segment t s)"
    by (simp add: encode_segment_def)
  show "encode_segment t s \<noteq> []"
    by (simp add: encode_segment_def deltas_of_def encodeVLQ_def)
qed

lemma decode_loop_word:
  "list_all (\<lambda>c. \<not> is_end c) w \<Longrightarrow>
     decode_loop background sources names i e (w @ rest) d = decode_loop background sources names (i + length w) (e @ w) rest d"
  by (induction w arbitrary: i e) simp_all

lemma decode_loop_lines:
  "decode_loop background sources names i [] (replicate k (CHR '';'') @ rest) d =
     decode_loop background sources names (i + k) [] rest ((end_line ^^ k) d)"
  by (induction k arbitrary: i d) (simp_all add: is_end_def end_segment_def funpow_swap1)

lemma end_lines:
  "dLine ((end_line ^^ k) d) = dLine d + of_nat k" "dSegments ((end_line ^^ k) d) = dSegments d"
  "dTotals ((end_line ^^ k) d) = (if k = 0 then dTotals d else (dTotals d)\<lparr>tColumn := 0\<rparr>)"
  by (induction k) (simp_all add: end_line_def)

lemma decode_loop_separator:
  assumes "end_segment sources names e d = Inr d0" "e = [] \<longleftrightarrow> fresh" "line \<le> k"
  shows "\<exists>i'. decode_loop background sources names i e
      ((if k \<noteq> line then replicate (k - line) (CHR '';'') else if fresh then [] else '','') @ rest) d
    = decode_loop background sources names i' [] rest ((end_line ^^ (k - line)) d0)"
proof (cases "k = line")
  case True
  then show ?thesis
    using assms by (cases fresh) (auto simp: end_segment_def is_end_def)
next
  case False
  then obtain n where n: "k - line = Suc n"
    using assms(3) by (cases "k - line") auto
  then show ?thesis
    using False assms(1) by (auto simp: is_end_def decode_loop_lines funpow_swap1)
qed

lemma end_segment_encoded:
  assumes "writable sources names s" "totals_ok sources names (dTotals d)" "sources \<le> 2 ^ 32" "names \<le> 2 ^ 32"
  shows "end_segment sources names (encode_segment (dTotals d) s) d =
    Inr (d\<lparr>dTotals := totals_after (dTotals d) s, dSegments := dSegments d @ [s\<lparr>Line := dLine d\<rparr>]\<rparr>)"
proof -
  have "decodeVLQ (encode_segment (dTotals d) s) = Inr (deltas_of (dTotals d) s)"
    using decodeVLQ_encode [OF deltas_small [OF assms(2-4)], of s] by (simp add: encode_segment_def length_deltas)
  then show ?thesis
    using add_deltas [OF assms(1)] encode_segment_word(2) by (simp add: end_segment_def)
qed

lemma totals_after_ok:
  "writable sources names s \<Longrightarrow> totals_ok sources names t \<Longrightarrow> totals_ok sources names (totals_after t s)"
  using add_ok [OF add_deltas] by blast

lemma decode_encode_from:
  assumes "end_segment sources names e d = Inr d0" "e = [] \<longleftrightarrow> fresh" "dTotals d0 = t" "dLine d0 = of_nat line"
    "totals_ok sources names t" "list_all (writable sources names) ss" "sorted (line # map (\<lambda>s. unat (Line s)) ss)"
    "sources \<le> 2 ^ 32" "names \<le> 2 ^ 32"
  shows "map_sum id dSegments (decode_loop background sources names i e (encode_from t line fresh ss) d) = Inr (dSegments d0 @ ss)"
  using assms
proof (induction ss arbitrary: e d d0 fresh t line i)
  case (Cons s ss)
  define d1 where "d1 = (end_line ^^ (unat (Line s) - line)) d0"
  have line: "line \<le> unat (Line s)"
    using Cons.prems(7) by simp
  have t1: "dTotals d1 = (if unat (Line s) \<noteq> line then t\<lparr>tColumn := 0\<rparr> else t)"
    using line Cons.prems(3) by (simp add: d1_def end_lines)
  have ok1: "totals_ok sources names (dTotals d1)"
    using Cons.prems(5) by (simp add: t1 totals_ok_def out_of_range_def MaxUint32_def)
  have line1: "dLine d1 = Line s"
    using line Cons.prems(4) by (simp add: d1_def end_lines of_nat_diff)
  have s: "writable sources names s"
    using Cons.prems(6) by simp
  define d2 where "d2 = d1\<lparr>dTotals := totals_after (dTotals d1) s, dSegments := dSegments d1 @ [s]\<rparr>"
  have d2: "end_segment sources names (encode_segment (dTotals d1) s) d1 = Inr d2"
    using end_segment_encoded [OF s ok1 Cons.prems(8,9)] by (simp add: d2_def line1)
  obtain i' where i': "decode_loop background sources names i e (encode_from t line fresh (s # ss)) d =
      decode_loop background sources names i' [] (encode_segment (dTotals d1) s @ encode_from (totals_after (dTotals d1) s)
        (unat (Line s)) False ss) d1"
    using decode_loop_separator [OF Cons.prems(1,2) line, where i = i and rest = "encode_segment (dTotals d1) s @
        encode_from (totals_after (dTotals d1) s) (unat (Line s)) False ss"]
    unfolding encode_from.simps Let_def t1 [symmetric] d1_def [symmetric] by blast
  have "map_sum id dSegments (decode_loop background sources names (i' + length (encode_segment (dTotals d1) s))
      (encode_segment (dTotals d1) s) (encode_from (totals_after (dTotals d1) s) (unat (Line s)) False ss) d1) =
      Inr (dSegments d2 @ ss)"
    using Cons.prems(6,7) s ok1
    by (intro Cons.IH [OF d2 _ _ _ _ _ _ Cons.prems(8,9)])
       (auto simp: encode_segment_word d2_def line1 intro!: totals_after_ok)
  moreover have "dSegments d2 @ ss = dSegments d0 @ s # ss"
    by (simp add: d2_def d1_def end_lines)
  ultimately show ?case
    unfolding i' decode_loop_word [OF encode_segment_word(1)] by (simp add: map_sum_Inr)
qed auto

subsection \<open>Counting\<close>

lemma decode_loop_grows:
  "decode_loop ctx sources names i e rest d = Inr d' \<Longrightarrow>
     length (dSegments d) + (if e = [] then 0 else 1) \<le> length (dSegments d')"
proof (induction ctx sources names i e rest d rule: decode_loop.induct)
  case (1 ctx sources names i e d)
  then show ?case
    by (auto split: option.splits dest!: end_segment_length)
next
  case (2 ctx sources names i e c rest d)
  show ?case
  proof (cases "is_end c")
    case True
    then obtain d1 where d1: "end_segment sources names e d = Inr d1" "polled ctx PollDecode i = None"
      "decode_loop ctx sources names (Suc i) [] rest (if c = CHR '';'' then end_line d1 else d1) = Inr d'"
      using 2(3) by (auto split: option.splits sum.splits)
    have "length (dSegments (if c = CHR '';'' then end_line d1 else d1)) \<le> length (dSegments d')"
      using 2(2) [OF d1(2) _ d1(1,3)] True by simp
    then show ?thesis
      using end_segment_length [OF d1(1)] by (simp split: if_splits)
  next
    case False
    then have "length (dSegments d) + 1 \<le> length (dSegments d')"
      using 2(1) 2(3) by (auto split: option.splits)
    then show ?thesis
      by simp
  qed
qed

lemma seg_count_loop_succeeds:
  assumes "map_sum id dSegments (decode_loop background sources names j e rest d) = Inr segments"
    "int (length segments) \<le> maximum" "inSegment \<longleftrightarrow> e \<noteq> []" "count = int (length (dSegments d)) + (if e = [] then 0 else 1)"
  shows "\<exists>n. seg_count_loop background maximum i rest count inSegment = Inr n"
  using assms
proof (induction rest arbitrary: i j e d count inSegment)
  case (Cons c rest)
  show ?case
  proof (cases "is_end c")
    case True
    then obtain d1 where d1: "end_segment sources names e d = Inr d1"
      "map_sum id dSegments (decode_loop background sources names (Suc j) [] rest (if c = CHR '';'' then end_line d1 else d1)) = Inr segments"
      using Cons.prems(1) by (auto simp: map_sum_Inr split: sum.splits)
    then show ?thesis
      using True Cons.IH [OF d1(2) Cons.prems(2), of False count "Suc i"] end_segment_length [OF d1(1)] Cons.prems(4)
      by (cases "c = CHR '';''"; cases "e = []") simp_all
  next
    case False
    then have next_round: "map_sum id dSegments (decode_loop background sources names (Suc j) (e @ [c]) rest d) = Inr segments"
      using Cons.prems(1) by (simp add: map_sum_Inr)
    then have "int (length (dSegments d)) + 1 \<le> maximum"
      using decode_loop_grows [of background sources names "Suc j" "e @ [c]" rest d] Cons.prems(2) by (auto simp: map_sum_Inr)
    then show ?thesis
      using False Cons.IH [OF next_round Cons.prems(2), of True] Cons.prems(3,4) by simp
  qed
qed simp

text \<open>C25: the mappings of a source map are read back as they were written.  Whatever segments a bundler writes, on any
  lines and at any columns, as long as their sources and names exist, \<^verbatim>\<open>decodeMappings\<close> recovers exactly them:
  the line, the column and the original position of every segment, with its name.  The limit only has to admit them.\<close>

theorem mappings_read_back:
  assumes "list_all (writable sources names) ss" "sorted (map (\<lambda>s. unat (Line s)) ss)"
    "int (length ss) \<le> maxSegments" "sources \<le> 2 ^ 32" "names \<le> 2 ^ 32"
  shows "decodeMappings background (encodeMappings ss) sources names maxSegments = Inr ss"
proof -
  let ?d = "\<lparr>dLine = 0, dTotals = no_totals, dSegments = []\<rparr>"
  have read: "map_sum id dSegments (decode_loop background sources names 0 [] (encodeMappings ss) ?d) = Inr ss"
    using decode_encode_from [of sources names "[]" ?d ?d True no_totals 0 ss 0] assms
    by (simp add: end_segment_def encodeMappings_def no_totals_ok)
  then obtain n where "countSegments background (encodeMappings ss) maxSegments = Inr n"
    using seg_count_loop_succeeds [OF read assms(3), of False 0 0] by (auto simp: countSegments_def)
  then show ?thesis
    using read by (simp add: decodeMappings_def map_sum_Inr)
qed

definition demo_segments :: "Segment list" where
  "demo_segments =
     [\<lparr>Line = 0, Column = 4, Source = 1, OriginalLine = 10, OriginalColumn = 2, Name = 0\<rparr>,
      \<lparr>Line = 0, Column = 9, Source = NoIndex, OriginalLine = 0, OriginalColumn = 0, Name = NoIndex\<rparr>,
      \<lparr>Line = 3, Column = 0, Source = 0, OriginalLine = 7, OriginalColumn = 40, Name = NoIndex\<rparr>]"

theorem mappings_read_back_witness:
  "decodeMappings background (encodeMappings demo_segments) 2 1 3 = Inr demo_segments"
  by (rule mappings_read_back) (simp_all add: demo_segments_def writable_def segment_ok_def NoIndex_def)

end
