(* ===== verification/SymIndex.thy ===== *)
theory SymIndex
  imports SourceMap
begin

text \<open>
  The index of a source map, \<^verbatim>\<open>src/ee/symbolication/index.go\<close>: one file holding a header, tables, the segments in
  order and the source texts, written once and then searched in two steps, first among the fences (the position of
  every 1024th segment), then among the segments between two fences.  Bytes are the characters of a string;
  \<^verbatim>\<open>io.ReaderAt\<close> is the \<^verbatim>\<open>bytes.Reader\<close> over the file that the program opens indexes with, and \<^verbatim>\<open>io.Writer\<close> is a
  parameter of the writer.  On a 64-bit machine \<^verbatim>\<open>int\<close> holds every size formed here, so sizes are natural numbers.
\<close>

section \<open>Little-endian words and files\<close>

definition AppendUint32 :: "string \<Rightarrow> uint32 \<Rightarrow> string" where
  "AppendUint32 buf v = buf @ map (\<lambda>i. char_of (unat v div 256 ^ i)) [0..<4]"

text \<open>Reading needs four bytes; the places that read have checked for them.\<close>

definition Uint32 :: "string \<Rightarrow> uint32" where
  "Uint32 b = word_of_nat (horner_sum of_char 256 (take 4 b))"

text \<open>\<^verbatim>\<open>bytes.Reader.ReadAt\<close> fills the buffer or fails with \<^verbatim>\<open>io.EOF\<close>; at the end of the file it fails even for an
  empty buffer.\<close>

definition ReadAt :: "string \<Rightarrow> nat \<Rightarrow> nat \<Rightarrow> string option" where
  "ReadAt data n offset =
     (if offset \<ge> length data then None
      else let b = take n (drop offset data) in if length b < n then None else Some b)"

text \<open>\<^verbatim>\<open>sort.Search\<close> and \<^verbatim>\<open>sort.SliceIsSorted\<close>.\<close>

function search_loop :: "(nat \<Rightarrow> bool) \<Rightarrow> nat \<Rightarrow> nat \<Rightarrow> nat" where
  "search_loop f i j =
     (if i < j then let h = (i + j) div 2 in if \<not> f h then search_loop f (h + 1) j else search_loop f i h else i)"
  by auto
termination by (relation "measure (\<lambda>(f, i, j). j - i)") auto

declare search_loop.simps [simp del]

definition Search :: "nat \<Rightarrow> (nat \<Rightarrow> bool) \<Rightarrow> nat" where
  "Search n f = search_loop f 0 n"

fun SliceIsSorted :: "'a list \<Rightarrow> ('a \<Rightarrow> 'a \<Rightarrow> bool) \<Rightarrow> bool" where
  "SliceIsSorted (a # b # xs) lt \<longleftrightarrow> \<not> lt b a \<and> SliceIsSorted (b # xs) lt"
| "SliceIsSorted _ lt \<longleftrightarrow> True"

section \<open>The header\<close>

definition indexMagic :: string where "indexMagic = ''XSMI''"
definition indexVersion :: uint32 where "indexVersion = 2"
definition indexHeaderSize :: nat where "indexHeaderSize = 48"
definition fenceStride :: nat where "fenceStride = 1024"
definition maxIndexCacheBytes :: nat where "maxIndexCacheBytes = 268435456"

datatype index_fault =
    ShortRead
  | BadMagic
  | IndexVersion uint32
  | InconsistentHeader
  | TruncatedStringTable
  | StringOffsets
  | TruncatedTables
  | UnexpectedBytes nat
  | SourceIndexRange int
  | SourceSpan int uint32

datatype index_err = ErrInvalidIndex index_fault | ReadingSegments nat | ReadingSource int

record header =
  SegmentCount :: uint32
  FenceCount :: uint32
  SourcesBytes :: uint32
  NamesBytes :: uint32
  SegmentsOffset :: uint32
  TextsOffset :: uint32

definition header_fields :: "header \<Rightarrow> uint32 list" where
  "header_fields h = [SegmentCount h, FenceCount h, SourcesBytes h, NamesBytes h, SegmentsOffset h, TextsOffset h]"

definition encodeHeader :: "header \<Rightarrow> string" where
  "encodeHeader h =
     (let buf = fold (\<lambda>field buf. AppendUint32 buf field) (header_fields h) (AppendUint32 indexMagic indexVersion)
      in buf @ replicate (indexHeaderSize - length buf) (char_of (0::nat)))"

definition header_at :: "string \<Rightarrow> nat \<Rightarrow> uint32" where
  "header_at b i = Uint32 (drop (8 + 4 * i) b)"

definition decodeHeader :: "string \<Rightarrow> index_err + header" where
  "decodeHeader b =
     (if take 4 b \<noteq> indexMagic then Inl (ErrInvalidIndex BadMagic)
      else if Uint32 (drop 4 b) \<noteq> indexVersion then Inl (ErrInvalidIndex (IndexVersion (Uint32 (drop 4 b))))
      else let h = \<lparr>SegmentCount = header_at b 0, FenceCount = header_at b 1, SourcesBytes = header_at b 2,
                    NamesBytes = header_at b 3, SegmentsOffset = header_at b 4, TextsOffset = header_at b 5\<rparr> in
        if unat (SegmentsOffset h) < indexHeaderSize \<or> SegmentsOffset h > TextsOffset h
          \<or> unat (TextsOffset h - SegmentsOffset h) \<noteq> segmentSize * unat (SegmentCount h)
          \<or> unat (FenceCount h) \<noteq> (unat (SegmentCount h) + fenceStride - 1) div fenceStride
          \<or> unat (SegmentsOffset h) - indexHeaderSize > maxIndexCacheBytes
        then Inl (ErrInvalidIndex InconsistentHeader)
        else Inr h)"

section \<open>Writing an index\<close>

record fence =
  fenceLine :: uint32
  fenceColumn :: uint32

record span =
  spanOffset :: uint32
  spanLength :: uint32

definition segmentLess :: "Segment \<Rightarrow> Segment \<Rightarrow> bool" where
  "segmentLess a b \<longleftrightarrow> (if Line a \<noteq> Line b then Line a < Line b else Column a < Column b)"

text \<open>\<^verbatim>\<open>IndexSize\<close> measures what \<^verbatim>\<open>WriteIndex\<close> will write.\<close>

definition IndexSize :: "SourceMap \<Rightarrow> nat" where
  "IndexSize m = indexHeaderSize + 16 + 4 * (length (Sources m) + length (Names m)) + length (Ignored m)
     + 8 * ((length (Segments m) + fenceStride - 1) div fenceStride) + 8 * length (Sources m)
     + segmentSize * length (Segments m)
     + sum_list (map length (Sources m)) + sum_list (map length (Names m)) + sum_list (map length (SourcesContent m))"

function fencesOf :: "Segment list \<Rightarrow> fence list" where
  "fencesOf [] = []"
| "fencesOf (s # ss) = \<lparr>fenceLine = Line s, fenceColumn = Column s\<rparr> # fencesOf (drop fenceStride (s # ss))"
  by pat_completeness auto
termination by (relation "measure length") (auto simp: fenceStride_def)

fun spans_from :: "uint32 \<Rightarrow> nat \<Rightarrow> string list \<Rightarrow> span list" where
  "spans_from offset 0 contents = []"
| "spans_from offset (Suc n) [] = \<lparr>spanOffset = offset, spanLength = 0\<rparr> # spans_from offset n []"
| "spans_from offset (Suc n) (content # contents) =
     (let s = \<lparr>spanOffset = offset, spanLength = word_of_nat (length content)\<rparr>
      in s # spans_from (offset + spanLength s) n contents)"

definition textSpans :: "SourceMap \<Rightarrow> span list" where
  "textSpans m = spans_from 0 (length (Sources m)) (SourcesContent m)"

fun string_offsets :: "string \<Rightarrow> uint32 \<Rightarrow> string list \<Rightarrow> string \<times> uint32" where
  "string_offsets buf offset [] = (buf, offset)"
| "string_offsets buf offset (v # vs) = string_offsets (AppendUint32 buf offset) (offset + word_of_nat (length v)) vs"

definition encodeStrings :: "string list \<Rightarrow> string" where
  "encodeStrings values =
     (case string_offsets (AppendUint32 [] (word_of_nat (length values))) 0 values of
        (buf, offset) \<Rightarrow> AppendUint32 buf offset @ concat values)"

definition encodeTables :: "SourceMap \<Rightarrow> string \<Rightarrow> string \<Rightarrow> string" where
  "encodeTables m sources names =
     (let buf = sources @ names @ map (\<lambda>ignored. char_of (if ignored then 1 else 0 :: nat)) (Ignored m);
          buf = fold (\<lambda>f buf. AppendUint32 (AppendUint32 buf (fenceLine f)) (fenceColumn f)) (fencesOf (Segments m)) buf
      in fold (\<lambda>s buf. AppendUint32 (AppendUint32 buf (spanOffset s)) (spanLength s)) (textSpans m) buf)"

definition appendSegment :: "string \<Rightarrow> Segment \<Rightarrow> string" where
  "appendSegment buf s =
     fold (\<lambda>v buf. AppendUint32 buf v) [Line s, Column s, Source s, OriginalLine s, OriginalColumn s, Name s] buf"

type_synonym 'w writer = "string \<Rightarrow> ('w, string, unit) proc"

datatype write_err = WriteInvalidMap map_fault | WriteFailed string

function writeSegments :: "'w writer \<Rightarrow> Segment list \<Rightarrow> ('w, write_err, unit) proc" where
  "writeSegments Write [] = ret ()"
| "writeSegments Write (s # ss) =
     bindE (mapErr WriteFailed (Write (fold (\<lambda>s buf. appendSegment buf s) (take fenceStride (s # ss)) [])))
       (\<lambda>_. writeSegments Write (drop fenceStride (s # ss)))"
  by pat_completeness auto
termination by (relation "measure (\<lambda>(w, ss). length ss)") (auto simp: fenceStride_def)

definition index_header :: "SourceMap \<Rightarrow> string \<Rightarrow> string \<Rightarrow> string \<Rightarrow> header" where
  "index_header m sources names tables =
     (let segmentsOffset = indexHeaderSize + length tables in
      \<lparr>SegmentCount = word_of_nat (length (Segments m)),
       FenceCount = word_of_nat (length (fencesOf (Segments m))),
       SourcesBytes = word_of_nat (length sources),
       NamesBytes = word_of_nat (length names),
       SegmentsOffset = word_of_nat segmentsOffset,
       TextsOffset = word_of_nat (segmentsOffset + segmentSize * length (Segments m))\<rparr>)"

definition WriteIndex :: "'w writer \<Rightarrow> SourceMap \<Rightarrow> ('w, write_err, unit) proc" where
  "WriteIndex Write m =
     (if \<not> SliceIsSorted (Segments m) segmentLess then throw (WriteInvalidMap NotSorted)
      else if length (SourcesContent m) \<noteq> 0 \<and> length (SourcesContent m) \<noteq> length (Sources m)
      then throw (WriteInvalidMap (ContentsMismatch (length (Sources m)) (length (SourcesContent m))))
      else
        let sources = encodeStrings (Sources m); names = encodeStrings (Names m);
            tables = encodeTables m sources names; h = index_header m sources names tables in
        bindE (mapErr WriteFailed (Write (encodeHeader h @ tables))) (\<lambda>_.
        bindE (writeSegments Write (Segments m)) (\<lambda>_.
        forEach (\<lambda>content. mapErr WriteFailed (Write content)) (SourcesContent m))))"

text \<open>\<^verbatim>\<open>bytes.Buffer\<close>, the writer of the program.\<close>

definition buffer_Write :: "string writer" where
  "buffer_Write b buf = (Inr (), buf @ b)"

section \<open>Opening an index\<close>

definition string_at :: "string \<Rightarrow> string \<Rightarrow> nat \<Rightarrow> string option" where
  "string_at b data i =
     (let start = Uint32 (drop (4 + 4 * i) b); stop = Uint32 (drop (4 + 4 * (i + 1)) b) in
      if start > stop \<or> unat stop > length data then None
      else Some (take (unat stop - unat start) (drop (unat start) data)))"

definition decodeStrings :: "string \<Rightarrow> index_err + string list" where
  "decodeStrings b =
     (if length b < 8 then Inl (ErrInvalidIndex TruncatedStringTable)
      else let count = unat (Uint32 b); offsetsEnd = 4 + 4 * count + 4 in
        if length b < offsetsEnd then Inl (ErrInvalidIndex TruncatedStringTable)
        else case those (map (string_at b (drop offsetsEnd b)) [0..<count]) of
               None \<Rightarrow> Inl (ErrInvalidIndex StringOffsets)
             | Some values \<Rightarrow> Inr values)"

record tableReader =
  trRest :: string
  trErr :: "index_err option"

definition tr_take :: "nat \<Rightarrow> tableReader \<Rightarrow> string \<times> tableReader" where
  "tr_take n t =
     (if trErr t \<noteq> None then ([], t)
      else if length (trRest t) < n then ([], t\<lparr>trErr := Some (ErrInvalidIndex TruncatedTables)\<rparr>)
      else (take n (trRest t), t\<lparr>trRest := drop n (trRest t)\<rparr>))"

definition tr_strings :: "uint32 \<Rightarrow> tableReader \<Rightarrow> string list \<times> tableReader" where
  "tr_strings bytes t =
     (case tr_take (unat bytes) t of (raw, t) \<Rightarrow>
      if trErr t \<noteq> None then ([], t)
      else case decodeStrings raw of
             Inl e \<Rightarrow> ([], t\<lparr>trErr := Some e\<rparr>)
           | Inr values \<Rightarrow> (values, t))"

definition tr_flags :: "nat \<Rightarrow> tableReader \<Rightarrow> bool list \<times> tableReader" where
  "tr_flags count t = (case tr_take count t of (raw, t) \<Rightarrow> (map (\<lambda>b. b = char_of (1::nat)) raw, t))"

definition tr_pairs :: "nat \<Rightarrow> tableReader \<Rightarrow> (uint32 \<times> uint32) list \<times> tableReader" where
  "tr_pairs count t =
     (case tr_take (8 * count) t of (raw, t) \<Rightarrow>
        (map (\<lambda>i. (Uint32 (drop (8 * i) raw), Uint32 (drop (8 * i + 4) raw))) [0..<length raw div 8], t))"

text \<open>\<^verbatim>\<open>ReadSegmentCount\<close> reads from a stream: \<^verbatim>\<open>io.ReadFull\<close> fails when it holds fewer bytes.\<close>

definition ReadSegmentCount :: "string \<Rightarrow> index_err + nat" where
  "ReadSegmentCount data =
     (if length data < indexHeaderSize then Inl (ErrInvalidIndex ShortRead)
      else case decodeHeader (take indexHeaderSize data) of
             Inl e \<Rightarrow> Inl e
           | Inr h \<Rightarrow> Inr (unat (SegmentCount h)))"

record MapIndex =
  ixReader :: string
  ixH :: header
  ixSources :: "string list"
  ixNames :: "string list"
  ixIgnored :: "bool list"
  ixFences :: "fence list"
  ixTexts :: "span list"

definition read_tables :: "string \<Rightarrow> header \<Rightarrow> string \<Rightarrow> MapIndex \<times> tableReader" where
  "read_tables data h tables =
     (let t = \<lparr>trRest = tables, trErr = None\<rparr>;
          (sources, t) = tr_strings (SourcesBytes h) t;
          (names, t) = tr_strings (NamesBytes h) t;
          (ignored, t) = tr_flags (length sources) t;
          (fences, t) = tr_pairs (unat (FenceCount h)) t;
          (texts, t) = tr_pairs (length sources) t
      in (\<lparr>ixReader = data, ixH = h, ixSources = sources, ixNames = names, ixIgnored = ignored,
           ixFences = map (\<lambda>(a, b). \<lparr>fenceLine = a, fenceColumn = b\<rparr>) fences,
           ixTexts = map (\<lambda>(a, b). \<lparr>spanOffset = a, spanLength = b\<rparr>) texts\<rparr>, t))"

definition OpenIndex :: "string \<Rightarrow> index_err + MapIndex" where
  "OpenIndex data =
     (case ReadAt data indexHeaderSize 0 of None \<Rightarrow> Inl (ErrInvalidIndex ShortRead) | Some head \<Rightarrow>
      case decodeHeader head of Inl e \<Rightarrow> Inl e | Inr h \<Rightarrow>
      case ReadAt data (unat (SegmentsOffset h) - indexHeaderSize) indexHeaderSize of
        None \<Rightarrow> Inl (ErrInvalidIndex ShortRead)
      | Some tables \<Rightarrow>
          (case read_tables data h tables of (x, t) \<Rightarrow>
           case trErr t of
             Some e \<Rightarrow> Inl e
           | None \<Rightarrow> if trRest t \<noteq> [] then Inl (ErrInvalidIndex (UnexpectedBytes (length (trRest t)))) else Inr x))"

section \<open>Looking up\<close>

definition sourceText :: "MapIndex \<Rightarrow> int \<Rightarrow> uint32 \<Rightarrow> index_err + string" where
  "sourceText x source maxBytes =
     (if source < 0 \<or> source \<ge> int (length (ixTexts x)) then Inl (ErrInvalidIndex (SourceIndexRange source))
      else let s = ixTexts x ! nat source in
        if spanLength s = 0 then Inr []
        else if spanLength s > maxBytes then Inl (ErrInvalidIndex (SourceSpan source (spanLength s)))
        else case ReadAt (ixReader x) (unat (spanLength s)) (unat (TextsOffset (ixH x)) + unat (spanOffset s)) of
               None \<Rightarrow> Inl (ReadingSource source)
             | Some buf \<Rightarrow> Inr buf)"

record Position =
  posSource :: string
  posSourceIndex :: int
  posLine :: int
  posColumn :: int
  posName :: string
  posIgnored :: bool

definition decodeSegment :: "string \<Rightarrow> Segment" where
  "decodeSegment b = \<lparr>Line = Uint32 b, Column = Uint32 (drop 4 b), Source = Uint32 (drop 8 b),
     OriginalLine = Uint32 (drop 12 b), OriginalColumn = Uint32 (drop 16 b), Name = Uint32 (drop 20 b)\<rparr>"

definition fence_segment :: "fence \<Rightarrow> Segment" where
  "fence_segment f = \<lparr>Line = fenceLine f, Column = fenceColumn f, Source = 0, OriginalLine = 0, OriginalColumn = 0, Name = 0\<rparr>"

definition fenceBefore :: "MapIndex \<Rightarrow> Segment \<Rightarrow> nat option" where
  "fenceBefore x target =
     (let found = Search (length (ixFences x)) (\<lambda>i. segmentLess target (fence_segment (ixFences x ! i)))
      in if found = 0 then None else Some (found - 1))"

definition readAfterFence :: "MapIndex \<Rightarrow> nat \<Rightarrow> index_err + Segment list" where
  "readAfterFence x fenceIndex =
     (let first = fenceIndex * fenceStride;
          count = min fenceStride (unat (SegmentCount (ixH x)) - first)
      in case ReadAt (ixReader x) (count * segmentSize) (unat (SegmentsOffset (ixH x)) + first * segmentSize) of
           None \<Rightarrow> Inl (ReadingSegments fenceIndex)
         | Some buf \<Rightarrow> Inr (map (\<lambda>i. decodeSegment (drop (i * segmentSize) buf)) [0..<count]))"

definition lastAtOrBefore :: "Segment list \<Rightarrow> Segment \<Rightarrow> Segment option" where
  "lastAtOrBefore segments target =
     (let found = Search (length segments) (\<lambda>i. segmentLess target (segments ! i))
      in if found = 0 then None else Some (segments ! (found - 1)))"

text \<open>\<^verbatim>\<open>position\<close> indexes the sources and the flags, which \<^verbatim>\<open>Lookup\<close> has compared with the number of sources; an opened
  index has one flag per source (\<open>OpenIndex_lengths\<close>).\<close>

definition position :: "MapIndex \<Rightarrow> Segment \<Rightarrow> Position" where
  "position x s =
     \<lparr>posSource = ixSources x ! unat (Source s), posSourceIndex = uint (Source s),
      posLine = uint (OriginalLine s) + 1, posColumn = uint (OriginalColumn s) + 1,
      posName = (if Name s \<noteq> NoIndex \<and> unat (Name s) < length (ixNames x) then ixNames x ! unat (Name s) else []),
      posIgnored = ixIgnored x ! unat (Source s)\<rparr>"

definition target_at :: "uint32 \<Rightarrow> uint32 \<Rightarrow> Segment" where
  "target_at line column = \<lparr>Line = line, Column = column, Source = 0, OriginalLine = 0, OriginalColumn = 0, Name = 0\<rparr>"

definition Lookup :: "MapIndex \<Rightarrow> uint32 \<Rightarrow> uint32 \<Rightarrow> index_err + Position option" where
  "Lookup x line column =
     (let target = target_at line column in
      case fenceBefore x target of None \<Rightarrow> Inr None | Some fenceIndex \<Rightarrow>
      case readAfterFence x fenceIndex of Inl e \<Rightarrow> Inl e | Inr segments \<Rightarrow>
      case lastAtOrBefore segments target of
        None \<Rightarrow> Inr None
      | Some segment \<Rightarrow>
          if Line segment \<noteq> line \<or> Source segment = NoIndex \<or> unat (Source segment) \<ge> length (ixSources x) then Inr None
          else Inr (Some (position x segment)))"

end
