(* ===== verification/SymLookup.thy ===== *)
theory SymLookup
  imports SymIndex
begin

text \<open>
  What the index of a source map promises: the file has the size that was announced, it opens, and a lookup in it
  answers what a scan over all segments of the map would.
\<close>

section \<open>Fields of fixed width\<close>

abbreviation le32 :: "uint32 \<Rightarrow> string" where
  "le32 v \<equiv> map (\<lambda>i. char_of (unat v div 256 ^ i)) [0..<4]"

lemma length_le32: "length (le32 v) = 4"
  by simp

lemma horner_le: "horner_sum of_char 256 (map (\<lambda>i. char_of (n div 256 ^ i)) [0..<4]) = n mod (256 ^ 4 :: nat)"
proof -
  have "n mod 256 ^ 4 = n mod 256 + 256 * (n div 256 mod 256 + 256 * (n div 256 div 256 mod 256 + 256 * (n div 256 div 256 div 256 mod 256)))"
    using mod_mult2_eq [of n 256 "256 * (256 * 256)"] mod_mult2_eq [of "n div 256" 256 "256 * 256"]
      mod_mult2_eq [of "n div 256 div 256" 256 256] by simp
  then show ?thesis
    by (simp add: upt_rec horner_sum_simps div_mult2_eq [symmetric])
qed

lemma unat_word32: "unat (v :: uint32) < 4294967296"
  using unsigned_less [of v] by simp

lemma drop_prefix: "length a = k \<Longrightarrow> drop (k + j) (a @ b) = drop j b"
  by simp

lemma Uint32_le32 [simp]: "Uint32 (le32 v @ rest) = v"
proof -
  have "take 4 (le32 v @ rest) = le32 v"
    by simp
  then show ?thesis
    using unat_word32 [of v] unfolding Uint32_def by (simp only: horner_le) simp
qed

lemma Append_le32: "AppendUint32 buf v = buf @ le32 v"
  by (simp add: AppendUint32_def)

lemma fold_append: "(\<And>x buf. f x buf = buf @ g x) \<Longrightarrow> fold f xs buf = buf @ concat (map g xs)"
  by (induction xs arbitrary: buf) simp_all

lemma drop_concat_fixed:
  "(\<And>x. length (f x) = n) \<Longrightarrow> drop (i * n) (concat (map f xs)) = concat (map f (drop i xs))"
proof (induction xs arbitrary: i)
  case (Cons x xs)
  then show ?case
    by (cases i) simp_all
qed simp

lemma take_concat_fixed:
  "(\<And>x. length (f x) = n) \<Longrightarrow> take (i * n) (concat (map f xs)) = concat (map f (take i xs))"
proof (induction xs arbitrary: i)
  case (Cons x xs)
  then show ?case
    by (cases i) simp_all
qed simp

lemma length_concat_fixed: "(\<And>x. length (f x) = n) \<Longrightarrow> length (concat (map f xs)) = n * length xs"
  by (induction xs) simp_all

lemma drop_words: "i < length ws \<Longrightarrow> drop (4 * i) (concat (map le32 ws) @ rest) =
    le32 (ws ! i) @ concat (map le32 (drop (Suc i) ws)) @ rest"
proof -
  assume "i < length ws"
  then have "drop i ws = ws ! i # drop (Suc i) ws"
    by (simp add: Cons_nth_drop_Suc)
  moreover have "length (concat (map le32 ws)) = 4 * length ws"
    by (rule length_concat_fixed) simp
  moreover have "drop (i * 4) (concat (map le32 ws)) = concat (map le32 (drop i ws))"
    by (rule drop_concat_fixed) simp
  ultimately show ?thesis
    using \<open>i < length ws\<close> by (simp add: mult.commute)
qed

lemma Uint32_words: "i < length ws \<Longrightarrow> Uint32 (drop (4 * i) (concat (map le32 ws) @ rest)) = ws ! i"
  by (simp only: drop_words Uint32_le32)

section \<open>The header\<close>

lemma encodeHeader_words:
  "encodeHeader h = indexMagic @ concat (map le32 (indexVersion # header_fields h)) @ replicate 16 (char_of (0::nat))"
  by (simp add: encodeHeader_def fold_append [where g = le32] Append_le32 header_fields_def indexMagic_def indexHeaderSize_def)

lemma length_encodeHeader [simp]: "length (encodeHeader h) = indexHeaderSize"
  by (simp add: encodeHeader_words header_fields_def indexMagic_def indexHeaderSize_def)

definition header_ok :: "header \<Rightarrow> bool" where
  "header_ok h \<longleftrightarrow> indexHeaderSize \<le> unat (SegmentsOffset h) \<and> SegmentsOffset h \<le> TextsOffset h
     \<and> unat (TextsOffset h - SegmentsOffset h) = segmentSize * unat (SegmentCount h)
     \<and> unat (FenceCount h) = (unat (SegmentCount h) + fenceStride - 1) div fenceStride
     \<and> unat (SegmentsOffset h) - indexHeaderSize \<le> maxIndexCacheBytes"

lemma decode_encode_header: "header_ok h \<Longrightarrow> decodeHeader (encodeHeader h) = Inr h"
proof -
  assume ok: "header_ok h"
  let ?ws = "indexVersion # header_fields h"
  let ?pad = "replicate 16 (char_of (0::nat))"
  have at: "Uint32 (drop (4 + 4 * i) (encodeHeader h)) = ?ws ! i" if "i < 7" for i
  proof -
    have "drop (4 + 4 * i) (encodeHeader h) = drop (4 * i) (concat (map le32 ?ws) @ ?pad)"
      unfolding encodeHeader_words by (rule drop_prefix) (simp add: indexMagic_def)
    moreover have "i < length ?ws"
      using that by (simp add: header_fields_def)
    ultimately show ?thesis
      by (simp only: Uint32_words)
  qed
  have "header_at (encodeHeader h) i = header_fields h ! i" if "i < 6" for i
    using at [of "Suc i"] that by (simp add: header_at_def algebra_simps)
  then show ?thesis
    using ok at [of 0]
    by (auto simp: decodeHeader_def header_fields_def header_ok_def encodeHeader_words indexMagic_def Let_def not_less not_le)
qed

section \<open>String tables\<close>

abbreviation chars :: "string list \<Rightarrow> nat" where
  "chars vs \<equiv> sum_list (map length vs)"

definition starts :: "string list \<Rightarrow> uint32 list" where
  "starts vs = map (\<lambda>k. word_of_nat (chars (take k vs))) [0..<Suc (length vs)]"

lemma starts_nth: "k \<le> length vs \<Longrightarrow> starts vs ! k = word_of_nat (chars (take k vs))"
  by (simp add: starts_def del: upt_Suc)

lemma length_starts [simp]: "length (starts vs) = Suc (length vs)"
  by (simp add: starts_def)

lemma string_offsets_words:
  "string_offsets buf (word_of_nat n) vs =
     (buf @ concat (map (\<lambda>k. le32 (word_of_nat (n + chars (take k vs)))) [0..<length vs]), word_of_nat (n + chars vs))"
proof (induction vs arbitrary: buf n)
  case (Cons v vs)
  have "[0..<length (v # vs)] = 0 # map Suc [0..<length vs]"
    by (simp add: map_Suc_upt upt_conv_Cons del: upt_Suc)
  then show ?case
    using Cons.IH [of "AppendUint32 buf (word_of_nat n)" "n + length v"]
    by (simp add: Append_le32 o_def add.assoc del: upt.simps)
qed simp

lemma encodeStrings_words:
  "encodeStrings vs = concat (map le32 (word_of_nat (length vs) # starts vs)) @ concat vs"
proof -
  have "map le32 (starts vs) = map (\<lambda>k. le32 (word_of_nat (chars (take k vs)))) [0..<length vs] @ [le32 (word_of_nat (chars vs))]"
    by (simp add: starts_def)
  then show ?thesis
    using string_offsets_words [of "AppendUint32 [] (word_of_nat (length vs))" 0 vs]
    by (simp add: encodeStrings_def Append_le32 del: upt.simps)
qed

lemma length_encodeStrings: "length (encodeStrings vs) = 8 + 4 * length vs + chars vs"
proof -
  have "length (concat (map le32 (word_of_nat (length vs) # starts vs))) = 4 * length (word_of_nat (length vs) # starts vs)"
    by (rule length_concat_fixed) simp
  then show ?thesis
    unfolding encodeStrings_words by (simp add: length_concat)
qed

lemma chars_take_le: "chars (take k vs) \<le> chars vs"
  by (metis append_take_drop_id le_add1 map_append sum_list_append)

lemma take_drop_concat:
  assumes "i < length vs"
  shows "take (length (vs ! i)) (drop (chars (take i vs)) (concat vs)) = vs ! i"
proof -
  have "concat vs = concat (take i vs) @ vs ! i @ concat (drop (Suc i) vs)"
    using assms by (metis append_take_drop_id concat.simps(2) concat_append Cons_nth_drop_Suc)
  moreover have "length (concat (take i vs)) = chars (take i vs)"
    by (simp add: length_concat)
  ultimately show ?thesis
    by simp
qed

lemma those_map_Some: "(\<And>i. i \<in> set is \<Longrightarrow> f i = Some (g i)) \<Longrightarrow> those (map f is) = Some (map g is)"
  by (induction "is") simp_all

lemma unat_small: "n < 4294967296 \<Longrightarrow> unat (word_of_nat n :: uint32) = n"
  by (simp add: unat_of_nat)

lemma decode_encode_strings:
  assumes "length (encodeStrings vs) < 4294967296"
  shows "decodeStrings (encodeStrings vs) = Inr vs"
proof -
  let ?b = "encodeStrings vs"
  let ?ws = "word_of_nat (length vs) # starts vs"
  have small: "length vs < 4294967296" "chars vs < 4294967296"
    using assms by (simp_all add: length_encodeStrings)
  have at: "Uint32 (drop (4 * i) ?b) = ?ws ! i" if "i \<le> Suc (length vs)" for i
    unfolding encodeStrings_words by (rule Uint32_words) (use that in simp)
  have count: "unat (Uint32 ?b) = length vs"
    using at [of 0] small by (simp add: unat_small)
  have data: "drop (4 + 4 * length vs + 4) ?b = concat vs"
  proof -
    have "length (concat (map le32 ?ws)) = 4 * length ?ws"
      by (rule length_concat_fixed) simp
    then show ?thesis
      unfolding encodeStrings_words using drop_prefix [of "concat (map le32 ?ws)" "4 + 4 * length vs + 4" 0] by simp
  qed
  have start: "unat (Uint32 (drop (4 + 4 * i) ?b)) = chars (take i vs)" if "i \<le> length vs" for i
    using at [of "Suc i"] that small chars_take_le [of i vs] by (simp add: starts_nth unat_small)
  have "string_at ?b (concat vs) i = Some (vs ! i)" if "i < length vs" for i
  proof -
    have sum: "chars (take (Suc i) vs) = chars (take i vs) + length (vs ! i)"
      using that by (simp add: take_Suc_conv_app_nth)
    have "\<not> Uint32 (drop (4 + 4 * i) ?b) > Uint32 (drop (4 + 4 * (i + 1)) ?b)"
      using start [of i] start [of "i + 1"] that sum by (simp add: word_less_nat_alt)
    moreover have "chars (take (Suc i) vs) \<le> length (concat vs)"
      using chars_take_le [of "Suc i" vs] by (simp add: length_concat)
    ultimately show ?thesis
      using that sum start [of i] start [of "i + 1"] take_drop_concat [OF that]
      by (simp add: string_at_def Let_def)
  qed
  then have "those (map (string_at ?b (concat vs)) [0..<length vs]) = Some (map (\<lambda>i. vs ! i) [0..<length vs])"
    by (intro those_map_Some) simp
  then show ?thesis
    using count data by (simp add: decodeStrings_def Let_def length_encodeStrings map_nth)
qed

section \<open>The tables\<close>

definition fence_bytes :: "fence \<Rightarrow> string" where
  "fence_bytes f = le32 (fenceLine f) @ le32 (fenceColumn f)"

definition span_bytes :: "span \<Rightarrow> string" where
  "span_bytes s = le32 (spanOffset s) @ le32 (spanLength s)"

definition flag_bytes :: "bool list \<Rightarrow> string" where
  "flag_bytes fs = map (\<lambda>ignored. char_of (if ignored then 1 else 0 :: nat)) fs"

lemma encodeTables_parts:
  "encodeTables m sources names = sources @ names @ flag_bytes (Ignored m)
     @ concat (map fence_bytes (fencesOf (Segments m))) @ concat (map span_bytes (textSpans m))"
  by (simp add: encodeTables_def flag_bytes_def fold_append [where g = fence_bytes] fold_append [where g = span_bytes]
      Append_le32 fence_bytes_def span_bytes_def Let_def)

lemma tr_take_part:
  "length a = n \<Longrightarrow> tr_take n \<lparr>trRest = a @ r, trErr = None\<rparr> = (a, \<lparr>trRest = r, trErr = None\<rparr>)"
  by (simp add: tr_take_def)

lemma tr_strings_part:
  assumes "length (encodeStrings vs) < 4294967296" "w = word_of_nat (length (encodeStrings vs))"
  shows "tr_strings w \<lparr>trRest = encodeStrings vs @ r, trErr = None\<rparr> = (vs, \<lparr>trRest = r, trErr = None\<rparr>)"
  using assms tr_take_part [of "encodeStrings vs" "unat w" r]
  by (simp add: tr_strings_def decode_encode_strings unat_small)

lemma tr_flags_part:
  "length fs = n \<Longrightarrow> tr_flags n \<lparr>trRest = flag_bytes fs @ r, trErr = None\<rparr> = (fs, \<lparr>trRest = r, trErr = None\<rparr>)"
  using tr_take_part [of "flag_bytes fs" n r]
  by (auto simp: tr_flags_def flag_bytes_def o_def intro!: map_idI)

lemma tr_pairs_part:
  assumes "length ps = n" "\<And>p. f p = le32 (fst (g p)) @ le32 (snd (g p))"
  shows "tr_pairs n \<lparr>trRest = concat (map f ps) @ r, trErr = None\<rparr> = (map g ps, \<lparr>trRest = r, trErr = None\<rparr>)"
proof -
  have len: "length (f p) = 8" for p
    by (simp add: assms(2))
  have total: "length (concat (map f ps)) = 8 * n"
    using assms(1) by (simp add: length_concat_fixed [OF len])
  have "(Uint32 (drop (8 * i) (concat (map f ps))), Uint32 (drop (8 * i + 4) (concat (map f ps)))) = g (ps ! i)" if "i < n" for i
  proof -
    have "drop (8 * i) (concat (map f ps)) = le32 (fst (g (ps ! i))) @ le32 (snd (g (ps ! i))) @ concat (map f (drop (Suc i) ps))"
      using drop_concat_fixed [where f = f, OF len, of i ps] that assms(1)
      by (simp add: mult.commute [of 8] Cons_nth_drop_Suc [symmetric] assms(2) [of "ps ! i"])
    moreover from this have "drop (8 * i + 4) (concat (map f ps)) = le32 (snd (g (ps ! i))) @ concat (map f (drop (Suc i) ps))"
      using drop_drop [of 4 "8 * i" "concat (map f ps)"] by (simp add: add.commute)
    ultimately show ?thesis
      by (simp only: Uint32_le32 prod.collapse)
  qed
  then have "map (\<lambda>i. (Uint32 (drop (8 * i) (concat (map f ps))), Uint32 (drop (8 * i + 4) (concat (map f ps))))) [0..<n] = map g ps"
    using assms(1) by (auto intro!: nth_equalityI)
  then show ?thesis
    using tr_take_part [OF total, of r] total by (simp add: tr_pairs_def)
qed

section \<open>Binary search\<close>

text \<open>\<^verbatim>\<open>sort.Search\<close> finds the only place where a condition that stays true once it is true begins to hold.\<close>

lemma search_loop_least:
  assumes "\<And>a b. a \<le> b \<Longrightarrow> b < n \<Longrightarrow> f a \<Longrightarrow> f b"
    "i \<le> r" "r \<le> j" "j \<le> n" "\<And>k. k < r \<Longrightarrow> \<not> f k" "r < n \<Longrightarrow> f r"
  shows "search_loop f i j = r"
  using assms
proof (induction f i j rule: search_loop.induct)
  case (1 f i j)
  show ?case
  proof (cases "i < j")
    case True
    let ?h = "(i + j) div 2"
    have h: "i \<le> ?h" "?h < j"
      using True by auto
    show ?thesis
    proof (cases "f ?h")
      case fh: True
      then have "r \<le> ?h"
        using 1(7) [of ?h] by linarith
      then have "search_loop f i ?h = r"
        using 1(2) [OF True refl] fh h 1(3-) by auto
      then show ?thesis
        using True fh by (simp add: search_loop.simps [of f i j])
    next
      case fh: False
      then have "?h + 1 \<le> r"
        using 1(3) [of r ?h] 1(8) 1(6) h by (cases "r \<le> ?h") auto
      then have "search_loop f (?h + 1) j = r"
        using 1(1) [OF True refl] fh 1(3-) by auto
      then show ?thesis
        using True fh by (simp add: search_loop.simps [of f i j])
    qed
  next
    case False
    then show ?thesis
      using 1(4,5) by (simp add: search_loop.simps)
  qed
qed

lemma Search_least:
  assumes "\<And>a b. a \<le> b \<Longrightarrow> b < n \<Longrightarrow> f a \<Longrightarrow> f b" "r \<le> n" "\<And>k. k < r \<Longrightarrow> \<not> f k" "r < n \<Longrightarrow> f r"
  shows "Search n f = r"
  unfolding Search_def using assms by (intro search_loop_least [where n = n]) auto

section \<open>Segments in order\<close>

definition place :: "Segment \<Rightarrow> nat" where
  "place s = unat (Line s) * 4294967296 + unat (Column s)"

lemma segmentLess_place: "segmentLess a b \<longleftrightarrow> place a < place b"
proof -
  have col: "unat (Column a) < 4294967296" "unat (Column b) < 4294967296"
    by (rule unat_word32)+
  consider "Line a = Line b" | "Line a < Line b" | "Line b < Line a"
    by (rule linorder_less_linear [THEN disjE]) auto
  then show ?thesis
  proof cases
    case 1
    then show ?thesis
      by (simp add: segmentLess_def place_def word_less_nat_alt)
  next
    case 2
    then have "unat (Line a) + 1 \<le> unat (Line b)"
      by (simp add: word_less_nat_alt)
    then have "(unat (Line a) + 1) * 4294967296 \<le> unat (Line b) * 4294967296"
      by (rule mult_le_mono1)
    then show ?thesis
      using 2 col by (auto simp: segmentLess_def place_def)
  next
    case 3
    then have "unat (Line b) + 1 \<le> unat (Line a)"
      by (simp add: word_less_nat_alt)
    then have "(unat (Line b) + 1) * 4294967296 \<le> unat (Line a) * 4294967296"
      by (rule mult_le_mono1)
    then show ?thesis
      using 3 col by (auto simp: segmentLess_def place_def)
  qed
qed

lemma SliceIsSorted_places: "SliceIsSorted segments segmentLess \<longleftrightarrow> sorted (map place segments)"
  by (induction segments segmentLess rule: SliceIsSorted.induct) (auto simp: segmentLess_place not_less intro: order_trans)

text \<open>The segment a position falls in, by a scan from the end.\<close>

definition segment_at :: "Segment list \<Rightarrow> Segment \<Rightarrow> Segment option" where
  "segment_at segments target = find (\<lambda>s. \<not> segmentLess target s) (rev segments)"

text \<open>How many segments are not past a position; in an ordered list they come first.\<close>

definition reached :: "Segment list \<Rightarrow> Segment \<Rightarrow> nat" where
  "reached segments target = length (takeWhile (\<lambda>s. place s \<le> place target) segments)"

lemma reached_le: "reached segments target \<le> length segments"
  by (simp add: reached_def length_takeWhile_le)

lemma place_reached:
  assumes "sorted (map place segments)" "k < length segments"
  shows "place (segments ! k) \<le> place target \<longleftrightarrow> k < reached segments target"
proof
  assume "k < reached segments target"
  then show "place (segments ! k) \<le> place target"
    using nth_mem [of k "takeWhile (\<lambda>s. place s \<le> place target) segments"] set_takeWhileD
    by (fastforce simp: reached_def takeWhile_nth)
next
  assume le: "place (segments ! k) \<le> place target"
  show "k < reached segments target"
  proof (rule ccontr)
    assume "\<not> k < reached segments target"
    then have r: "reached segments target \<le> k" "reached segments target < length segments"
      using assms(2) by auto
    have "\<not> place (segments ! reached segments target) \<le> place target"
      using r(2) nth_length_takeWhile [of "\<lambda>s. place s \<le> place target" segments] by (simp add: reached_def)
    moreover have "place (segments ! reached segments target) \<le> place (segments ! k)"
      using sorted_nth_mono [OF assms(1) r(1)] assms(2) r(2) by simp
    ultimately show False
      using le by simp
  qed
qed

lemma find_rev_last:
  assumes "r \<le> length xs" "\<And>k. k < length xs \<Longrightarrow> P (xs ! k) \<longleftrightarrow> k < r"
  shows "find P (rev xs) = (if r = 0 then None else Some (xs ! (r - 1)))"
  using assms
proof (induction xs arbitrary: r rule: rev_induct)
  case (snoc x xs)
  show ?case
  proof (cases "P x")
    case True
    then have "r = Suc (length xs)"
      using snoc.prems(1) snoc.prems(2) [of "length xs"] by simp
    then show ?thesis
      using True by simp
  next
    case False
    then have r: "r \<le> length xs"
      using snoc.prems(1) snoc.prems(2) [of "length xs"] by simp
    have "P (xs ! k) \<longleftrightarrow> k < r" if "k < length xs" for k
      using snoc.prems(2) [of k] that by (simp add: nth_append)
    then show ?thesis
      using snoc.IH [OF r] False r by (cases r) (simp_all add: nth_append)
  qed
qed simp

lemma segment_at_reached:
  "sorted (map place segments) \<Longrightarrow>
     segment_at segments target = (if reached segments target = 0 then None else Some (segments ! (reached segments target - 1)))"
  unfolding segment_at_def segmentLess_place
  by (rule find_rev_last) (simp_all add: reached_le not_less place_reached)

section \<open>Fences\<close>

lemma fence_count_step:
  assumes "0 < n"
  shows "(n + fenceStride - 1) div fenceStride = Suc ((n - fenceStride + fenceStride - 1) div fenceStride)"
proof (cases "fenceStride \<le> n")
  case True
  then have "n + fenceStride - 1 = (n - fenceStride + fenceStride - 1) + fenceStride"
    using assms by simp
  then show ?thesis
    by (simp add: fenceStride_def)
next
  case False
  then show ?thesis
    using assms by (simp add: fenceStride_def div_eq_dividend_iff)
qed

lemma fencesOf_nth:
  "length (fencesOf ss) = (length ss + fenceStride - 1) div fenceStride
   \<and> (\<forall>k. k * fenceStride < length ss \<longrightarrow> place (fence_segment (fencesOf ss ! k)) = place (ss ! (k * fenceStride)))"
proof (induction ss rule: fencesOf.induct)
  case (2 s ss)
  have count: "(length (s # ss) + fenceStride - 1) div fenceStride
      = Suc ((length (drop fenceStride (s # ss)) + fenceStride - 1) div fenceStride)"
    using fence_count_step [of "length (s # ss)"] by simp
  have "place (fence_segment (fencesOf (s # ss) ! k)) = place ((s # ss) ! (k * fenceStride))"
    if "k * fenceStride < length (s # ss)" for k
  proof (cases k)
    case 0
    then show ?thesis
      by (simp add: place_def fence_segment_def)
  next
    case (Suc j)
    then have "j * fenceStride < length (drop fenceStride (s # ss))" "fenceStride \<le> length (s # ss)"
      using that by auto
    then show ?thesis
      using 2 Suc by (simp add: algebra_simps)
  qed
  then show ?case
    using 2 count by simp
qed (simp add: fenceStride_def)

lemmas length_fencesOf = fencesOf_nth [THEN conjunct1]

lemma place_fence: "k * fenceStride < length ss \<Longrightarrow> place (fence_segment (fencesOf ss ! k)) = place (ss ! (k * fenceStride))"
  using fencesOf_nth by blast

lemma fenceBefore_reached:
  assumes "sorted (map place segments)" "ixFences x = fencesOf segments" "reached segments target = r"
  shows "fenceBefore x target = (if r = 0 then None else Some ((r - 1) div fenceStride))"
proof -
  have r: "r \<le> length segments"
    using assms(3) reached_le by auto
  have less: "segmentLess target (fence_segment (fencesOf segments ! k)) \<longleftrightarrow> r \<le> k * fenceStride"
    if "k < length (fencesOf segments)" for k
  proof -
    have "k * fenceStride < length segments"
      using that by (simp add: length_fencesOf fenceStride_def)
    then show ?thesis
      using place_fence [of k segments] place_reached [OF assms(1), of "k * fenceStride" target] assms(3)
      by (auto simp: segmentLess_place not_le)
  qed
  have "Search (length (fencesOf segments)) (\<lambda>i. segmentLess target (fence_segment (fencesOf segments ! i)))
      = (r + fenceStride - 1) div fenceStride"
  proof (rule Search_least)
    show "(r + fenceStride - 1) div fenceStride \<le> length (fencesOf segments)"
      using r by (simp add: length_fencesOf fenceStride_def div_le_mono)
    fix k assume "k < (r + fenceStride - 1) div fenceStride"
    then have "k * fenceStride < r" "k < length (fencesOf segments)"
      using r \<open>_ \<le> length (fencesOf segments)\<close> by (simp_all add: fenceStride_def)
    then show "\<not> segmentLess target (fence_segment (fencesOf segments ! k))"
      using less by simp
  next
    assume "(r + fenceStride - 1) div fenceStride < length (fencesOf segments)"
    then show "segmentLess target (fence_segment (fencesOf segments ! ((r + fenceStride - 1) div fenceStride)))"
      using less by (simp add: fenceStride_def)
  next
    fix a b assume ab: "a \<le> b" "b < length (fencesOf segments)" "segmentLess target (fence_segment (fencesOf segments ! a))"
    have "r \<le> b * fenceStride"
      using less [of a] ab by (intro order_trans [OF _ mult_le_mono1 [OF ab(1)]]) simp
    then show "segmentLess target (fence_segment (fencesOf segments ! b))"
      using less [of b] ab by simp
  qed
  moreover have "(r + fenceStride - 1) div fenceStride = (if r = 0 then 0 else Suc ((r - 1) div fenceStride))"
    by (cases r) (simp_all add: fenceStride_def)
  ultimately show ?thesis
    using assms(2) by (simp add: fenceBefore_def Let_def)
qed

lemma lastAtOrBefore_chunk:
  assumes "sorted (map place segments)" "reached segments target = r" "0 < r" "k = (r - 1) div fenceStride"
  shows "lastAtOrBefore (take fenceStride (drop (k * fenceStride) segments)) target = Some (segments ! (r - 1))"
proof -
  let ?first = "k * fenceStride"
  let ?chunk = "take fenceStride (drop ?first segments)"
  have r: "r \<le> length segments" "?first < r" "r \<le> ?first + fenceStride"
    using assms reached_le [of segments target] by (auto simp: fenceStride_def)
  have less: "segmentLess target (?chunk ! i) \<longleftrightarrow> r \<le> ?first + i" if "i < length ?chunk" for i
  proof -
    have "?first + i < length segments" "i < fenceStride"
      using that by auto
    then show ?thesis
      using place_reached [OF assms(1), of "?first + i" target] assms(2) by (auto simp: segmentLess_place not_le)
  qed
  have "Search (length ?chunk) (\<lambda>i. segmentLess target (?chunk ! i)) = r - ?first"
  proof (rule Search_least)
    show bound: "r - ?first \<le> length ?chunk"
      using r by (simp add: diff_le_mono le_diff_conv add.commute)
    show "\<not> segmentLess target (?chunk ! i)" if "i < r - ?first" for i
      using less [of i] that bound by linarith
    show "segmentLess target (?chunk ! (r - ?first))" if "r - ?first < length ?chunk"
      using less [OF that] by simp
    show "segmentLess target (?chunk ! b)" if "a \<le> b" "b < length ?chunk" "segmentLess target (?chunk ! a)" for a b
      using less [of a] less [of b] that by linarith
  qed
  then show ?thesis
    using r by (simp add: lastAtOrBefore_def)
qed

section \<open>The file\<close>

definition segment_words :: "Segment \<Rightarrow> uint32 list" where
  "segment_words s = [Line s, Column s, Source s, OriginalLine s, OriginalColumn s, Name s]"

definition segment_bytes :: "Segment \<Rightarrow> string" where
  "segment_bytes s = concat (map le32 (segment_words s))"

lemma length_segment_bytes [simp]: "length (segment_bytes s) = segmentSize"
  by (simp add: segment_bytes_def segment_words_def segmentSize_def)

lemma appendSegment_bytes: "appendSegment buf s = buf @ segment_bytes s"
  by (simp add: appendSegment_def segment_bytes_def segment_words_def Append_le32)

lemma decode_segment_bytes: "decodeSegment (segment_bytes s @ rest) = s"
proof -
  have "Uint32 (drop (4 * i) (segment_bytes s @ rest)) = segment_words s ! i" if "i < 6" for i
    unfolding segment_bytes_def by (rule Uint32_words) (use that in \<open>simp add: segment_words_def\<close>)
  from this [of 0] this [of 1] this [of 2] this [of 3] this [of 4] this [of 5] show ?thesis
    by (simp add: decodeSegment_def segment_words_def)
qed

definition index_tables :: "SourceMap \<Rightarrow> string" where
  "index_tables m = encodeTables m (encodeStrings (Sources m)) (encodeStrings (Names m))"

definition header_of :: "SourceMap \<Rightarrow> header" where
  "header_of m = index_header m (encodeStrings (Sources m)) (encodeStrings (Names m)) (index_tables m)"

definition index_file :: "SourceMap \<Rightarrow> string" where
  "index_file m = encodeHeader (header_of m) @ index_tables m @ concat (map segment_bytes (Segments m)) @ concat (SourcesContent m)"

lemma writeSegments_buffer:
  "writeSegments buffer_Write segments buf = (Inr (), buf @ concat (map segment_bytes segments))"
proof (induction segments arbitrary: buf rule: length_induct)
  case (1 segments)
  show ?case
  proof (cases segments)
    case (Cons s ss)
    have "length (drop fenceStride (s # ss)) < length (s # ss)"
      by (simp add: fenceStride_def)
    then have rest: "writeSegments buffer_Write (drop fenceStride (s # ss)) b =
        (Inr (), b @ concat (map segment_bytes (drop fenceStride (s # ss))))" for b
      using 1 Cons by blast
    have "fold (\<lambda>s buf. appendSegment buf s) (take fenceStride (s # ss)) [] = concat (map segment_bytes (take fenceStride (s # ss)))"
      by (simp add: fold_append [where g = segment_bytes] appendSegment_bytes)
    moreover have "concat (map segment_bytes (take fenceStride (s # ss))) @ concat (map segment_bytes (drop fenceStride (s # ss)))
        = concat (map segment_bytes (s # ss))"
      by (metis append_take_drop_id concat_append map_append)
    ultimately show ?thesis
      unfolding Cons writeSegments.simps
      by (simp add: bindE_run mapErr_run buffer_Write_def rest del: concat.simps list.map drop.simps take.simps)
  qed simp
qed

lemma forEach_buffer:
  "forEach (\<lambda>content. mapErr WriteFailed (buffer_Write content)) contents buf = (Inr (), buf @ concat contents)"
  by (induction contents arbitrary: buf) (simp_all add: bindE_run mapErr_run buffer_Write_def)

lemma WriteIndex_buffer:
  "WriteIndex buffer_Write m buf =
     (if \<not> SliceIsSorted (Segments m) segmentLess then (Inl (WriteInvalidMap NotSorted), buf)
      else if SourcesContent m \<noteq> [] \<and> length (SourcesContent m) \<noteq> length (Sources m)
      then (Inl (WriteInvalidMap (ContentsMismatch (length (Sources m)) (length (SourcesContent m)))), buf)
      else (Inr (), buf @ index_file m))"
  by (simp add: WriteIndex_def Let_def bindE_run mapErr_run buffer_Write_def [of "encodeHeader _ @ _"] writeSegments_buffer
      forEach_buffer index_file_def header_of_def index_tables_def)

lemma length_spans [simp]: "length (spans_from offset n contents) = n"
  by (induction offset n contents rule: spans_from.induct) (simp_all add: Let_def)

lemma length_index_tables:
  "length (index_tables m) = 16 + 4 * (length (Sources m) + length (Names m)) + chars (Sources m) + chars (Names m)
     + length (Ignored m) + 8 * ((length (Segments m) + fenceStride - 1) div fenceStride) + 8 * length (Sources m)"
proof -
  have "length (concat (map fence_bytes fs)) = 8 * length fs" for fs
    by (rule length_concat_fixed) (simp add: fence_bytes_def)
  moreover have "length (concat (map span_bytes ss)) = 8 * length ss" for ss
    by (rule length_concat_fixed) (simp add: span_bytes_def)
  ultimately show ?thesis
    by (simp add: index_tables_def encodeTables_parts length_encodeStrings flag_bytes_def textSpans_def length_fencesOf
        del: length_concat)
qed

lemma length_segments_bytes: "length (concat (map segment_bytes ss)) = segmentSize * length ss"
  by (rule length_concat_fixed) simp

lemma length_index_file: "length (index_file m) = IndexSize m"
  by (simp add: index_file_def IndexSize_def length_index_tables length_segments_bytes del: length_concat)
     (simp add: length_concat)

section \<open>Opening what was written\<close>

text \<open>The maps the program writes indexes of: one flag and one content per source, and no larger than the cache.\<close>

definition indexable :: "SourceMap \<Rightarrow> bool" where
  "indexable m \<longleftrightarrow> length (Ignored m) = length (Sources m) \<and> length (SourcesContent m) = length (Sources m)
     \<and> IndexSize m \<le> maxIndexCacheBytes"

lemma indexable_sizes:
  assumes "indexable m"
  shows "length (index_tables m) + indexHeaderSize + segmentSize * length (Segments m) + chars (SourcesContent m) \<le> 268435456"
    "length (encodeStrings (Sources m)) \<le> length (index_tables m)" "length (encodeStrings (Names m)) \<le> length (index_tables m)"
    "length (Segments m) \<le> 268435456" "16 \<le> length (index_tables m)"
  using assms
  by (simp_all add: indexable_def IndexSize_def maxIndexCacheBytes_def length_index_tables length_encodeStrings segmentSize_def)

lemma header_of_unat:
  assumes "indexable m"
  shows "unat (SegmentCount (header_of m)) = length (Segments m)"
    "unat (FenceCount (header_of m)) = length (fencesOf (Segments m))"
    "unat (SegmentsOffset (header_of m)) = indexHeaderSize + length (index_tables m)"
    "unat (TextsOffset (header_of m)) = indexHeaderSize + length (index_tables m) + segmentSize * length (Segments m)"
proof -
  have "length (fencesOf (Segments m)) < 4294967296"
    using indexable_sizes(4) [OF assms] by (simp add: length_fencesOf fenceStride_def)
  then show "unat (SegmentCount (header_of m)) = length (Segments m)"
    "unat (FenceCount (header_of m)) = length (fencesOf (Segments m))"
    "unat (SegmentsOffset (header_of m)) = indexHeaderSize + length (index_tables m)"
    "unat (TextsOffset (header_of m)) = indexHeaderSize + length (index_tables m) + segmentSize * length (Segments m)"
    using indexable_sizes [OF assms] by (simp_all add: header_of_def index_header_def Let_def unat_small del: of_nat_add of_nat_mult)
qed

lemma header_of_ok: "indexable m \<Longrightarrow> header_ok (header_of m)"
proof -
  assume m: "indexable m"
  note h = header_of_unat [OF m]
  have le: "SegmentsOffset (header_of m) \<le> TextsOffset (header_of m)"
    by (simp add: word_le_nat_alt h)
  have "unat (TextsOffset (header_of m) - SegmentsOffset (header_of m)) = segmentSize * length (Segments m)"
    using unat_sub [OF le] by (simp add: h)
  then show ?thesis
    using le indexable_sizes [OF m] by (simp add: header_ok_def h length_fencesOf maxIndexCacheBytes_def)
qed

lemma ReadAt_part: "length a = offset \<Longrightarrow> length b = n \<Longrightarrow> 0 < n \<Longrightarrow> ReadAt (a @ b @ c) n offset = Some b"
  by (simp add: ReadAt_def)

definition opened :: "SourceMap \<Rightarrow> MapIndex" where
  "opened m = \<lparr>ixReader = index_file m, ixH = header_of m, ixSources = Sources m, ixNames = Names m, ixIgnored = Ignored m,
     ixFences = fencesOf (Segments m), ixTexts = textSpans m\<rparr>"

lemma opened_fields [simp]:
  "ixSources (opened m) = Sources m" "ixNames (opened m) = Names m" "ixIgnored (opened m) = Ignored m"
  "ixFences (opened m) = fencesOf (Segments m)"
  by (simp_all add: opened_def)

lemma read_tables_written:
  assumes "indexable m"
  shows "read_tables (index_file m) (header_of m) (index_tables m) = (opened m, \<lparr>trRest = [], trErr = None\<rparr>)"
proof -
  let ?fences = "concat (map fence_bytes (fencesOf (Segments m)))" and ?spans = "concat (map span_bytes (textSpans m))"
  have sizes: "length (encodeStrings (Sources m)) < 4294967296" "length (encodeStrings (Names m)) < 4294967296"
    using indexable_sizes [OF assms] by simp_all
  have tables: "index_tables m = encodeStrings (Sources m) @ encodeStrings (Names m) @ flag_bytes (Ignored m) @ ?fences @ ?spans"
    by (simp add: index_tables_def encodeTables_parts)
  have 1: "tr_strings (SourcesBytes (header_of m)) \<lparr>trRest = index_tables m, trErr = None\<rparr> =
      (Sources m, \<lparr>trRest = encodeStrings (Names m) @ flag_bytes (Ignored m) @ ?fences @ ?spans, trErr = None\<rparr>)"
    unfolding tables by (rule tr_strings_part [OF sizes(1)]) (simp add: header_of_def index_header_def Let_def)
  have 2: "tr_strings (NamesBytes (header_of m)) \<lparr>trRest = encodeStrings (Names m) @ flag_bytes (Ignored m) @ ?fences @ ?spans, trErr = None\<rparr> =
      (Names m, \<lparr>trRest = flag_bytes (Ignored m) @ ?fences @ ?spans, trErr = None\<rparr>)"
    by (rule tr_strings_part [OF sizes(2)]) (simp add: header_of_def index_header_def Let_def)
  have 3: "tr_flags (length (Sources m)) \<lparr>trRest = flag_bytes (Ignored m) @ ?fences @ ?spans, trErr = None\<rparr> =
      (Ignored m, \<lparr>trRest = ?fences @ ?spans, trErr = None\<rparr>)"
    by (rule tr_flags_part) (use assms in \<open>simp add: indexable_def\<close>)
  have 4: "tr_pairs (unat (FenceCount (header_of m))) \<lparr>trRest = ?fences @ ?spans, trErr = None\<rparr> =
      (map (\<lambda>f. (fenceLine f, fenceColumn f)) (fencesOf (Segments m)), \<lparr>trRest = ?spans, trErr = None\<rparr>)"
    by (rule tr_pairs_part) (simp_all add: header_of_unat [OF assms] fence_bytes_def)
  have 5: "tr_pairs (length (Sources m)) \<lparr>trRest = ?spans, trErr = None\<rparr> =
      (map (\<lambda>s. (spanOffset s, spanLength s)) (textSpans m), \<lparr>trRest = [], trErr = None\<rparr>)"
    using tr_pairs_part [of "textSpans m" "length (Sources m)" span_bytes "\<lambda>s. (spanOffset s, spanLength s)" "[]"]
    by (simp add: textSpans_def span_bytes_def)
  show ?thesis
    by (simp add: read_tables_def opened_def 1 2 3 4 5 o_def Let_def map_idI)
qed

lemma OpenIndex_written: "indexable m \<Longrightarrow> OpenIndex (index_file m) = Inr (opened m)"
proof -
  assume m: "indexable m"
  let ?rest = "concat (map segment_bytes (Segments m)) @ concat (SourcesContent m)"
  have head: "ReadAt (index_file m) indexHeaderSize 0 = Some (encodeHeader (header_of m))"
    using ReadAt_part [of "[]" 0 "encodeHeader (header_of m)" indexHeaderSize] by (simp add: index_file_def indexHeaderSize_def)
  have "ReadAt (index_file m) (unat (SegmentsOffset (header_of m)) - indexHeaderSize) indexHeaderSize = Some (index_tables m)"
    unfolding index_file_def
    by (rule ReadAt_part) (use indexable_sizes(5) [OF m] in \<open>auto simp: header_of_unat [OF m]\<close>)
  then show ?thesis
    using head decode_encode_header [OF header_of_ok [OF m]] read_tables_written [OF m] by (simp add: OpenIndex_def)
qed

lemma readAfterFence_written:
  assumes "indexable m" "k * fenceStride < length (Segments m)"
  shows "readAfterFence (opened m) k = Inr (take fenceStride (drop (k * fenceStride) (Segments m)))"
proof -
  let ?first = "k * fenceStride" and ?ss = "Segments m"
  let ?chunk = "take fenceStride (drop ?first ?ss)"
  let ?bytes = "\<lambda>ss. concat (map segment_bytes ss)"
  have parts: "?ss = take ?first ?ss @ ?chunk @ drop fenceStride (drop ?first ?ss)"
    by (metis append_take_drop_id)
  have "?bytes ?ss = ?bytes (take ?first ?ss) @ ?bytes ?chunk @ ?bytes (drop fenceStride (drop ?first ?ss))"
    by (subst parts) simp
  then have layout: "index_file m = (encodeHeader (header_of m) @ index_tables m @ ?bytes (take ?first ?ss)) @ ?bytes ?chunk
      @ ?bytes (drop fenceStride (drop ?first ?ss)) @ concat (SourcesContent m)"
    by (simp add: index_file_def)
  have count: "length ?chunk = min fenceStride (length ?ss - ?first)"
    by simp
  have read: "ReadAt (index_file m) (length ?chunk * segmentSize) (indexHeaderSize + length (index_tables m) + ?first * segmentSize)
      = Some (?bytes ?chunk)"
    unfolding layout
    by (rule ReadAt_part) (use assms(2) in \<open>simp_all add: length_segments_bytes min_absorb2 fenceStride_def segmentSize_def del: length_concat\<close>)
  have "decodeSegment (drop (i * segmentSize) (?bytes ?chunk)) = ?chunk ! i" if "i < length ?chunk" for i
  proof -
    have "drop (i * segmentSize) (?bytes ?chunk) = segment_bytes (?chunk ! i) @ ?bytes (drop (Suc i) ?chunk)"
      using that by (simp add: drop_concat_fixed [where f = segment_bytes] Cons_nth_drop_Suc [symmetric] del: drop_take)
    then show ?thesis
      by (simp only: decode_segment_bytes)
  qed
  then have "map (\<lambda>i. decodeSegment (drop (i * segmentSize) (?bytes ?chunk))) [0..<length ?chunk] = ?chunk"
    by (intro nth_equalityI) auto
  then show ?thesis
    using read by (simp add: readAfterFence_def opened_def header_of_unat [OF assms(1)] Let_def count [symmetric] del: length_take length_drop)
qed

section \<open>Lookups\<close>

text \<open>What a lookup should answer, by a scan over the map: the last segment that does not start after the position, when
  it is on the same line and comes from a source.\<close>

definition map_position :: "SourceMap \<Rightarrow> Segment \<Rightarrow> Position" where
  "map_position m s =
     \<lparr>posSource = Sources m ! unat (Source s), posSourceIndex = uint (Source s),
      posLine = uint (OriginalLine s) + 1, posColumn = uint (OriginalColumn s) + 1,
      posName = (if Name s \<noteq> NoIndex \<and> unat (Name s) < length (Names m) then Names m ! unat (Name s) else []),
      posIgnored = Ignored m ! unat (Source s)\<rparr>"

definition map_lookup :: "SourceMap \<Rightarrow> uint32 \<Rightarrow> uint32 \<Rightarrow> Position option" where
  "map_lookup m line column =
     (case segment_at (Segments m) (target_at line column) of
        None \<Rightarrow> None
      | Some s \<Rightarrow> if Line s \<noteq> line \<or> Source s = NoIndex \<or> unat (Source s) \<ge> length (Sources m) then None
                  else Some (map_position m s))"

lemma Lookup_written:
  assumes "indexable m" "sorted (map place (Segments m))"
  shows "Lookup (opened m) line column = Inr (map_lookup m line column)"
proof -
  let ?target = "target_at line column"
  define r where "r = reached (Segments m) ?target"
  have before: "fenceBefore (opened m) ?target = (if r = 0 then None else Some ((r - 1) div fenceStride))"
    by (rule fenceBefore_reached [OF assms(2)]) (simp_all add: r_def)
  show ?thesis
  proof (cases "r = 0")
    case True
    then show ?thesis
      using before segment_at_reached [OF assms(2), of ?target]
      by (simp add: Lookup_def map_lookup_def Let_def r_def [symmetric])
  next
    case False
    have "(r - 1) div fenceStride * fenceStride < length (Segments m)"
      using False reached_le [of "Segments m" ?target] by (simp add: r_def [symmetric] fenceStride_def)
    then show ?thesis
      using False before segment_at_reached [OF assms(2), of ?target] readAfterFence_written [OF assms(1)]
        lastAtOrBefore_chunk [OF assms(2) r_def [symmetric], of "(r - 1) div fenceStride"]
      by (simp add: Lookup_def map_lookup_def Let_def r_def [symmetric] position_def map_position_def)
  qed
qed

section \<open>Source texts\<close>

lemma spans_from_nth:
  "i < length contents \<Longrightarrow> length contents = n \<Longrightarrow>
     spans_from (word_of_nat o0) n contents ! i =
       \<lparr>spanOffset = word_of_nat (o0 + chars (take i contents)), spanLength = word_of_nat (length (contents ! i))\<rparr>"
proof (induction contents arbitrary: i n o0)
  case (Cons c cs)
  then obtain n' where "n = Suc n'"
    by (cases n) auto
  then show ?case
    using Cons.prems Cons.IH [of "i - 1" n' "o0 + length c"] by (cases i) (simp_all add: Let_def add.assoc)
qed simp

lemma sourceText_written:
  assumes "indexable m" "i < length (Sources m)" "length (SourcesContent m ! i) \<le> unat maxBytes"
  shows "sourceText (opened m) (int i) maxBytes = Inr (SourcesContent m ! i)"
proof -
  let ?cs = "SourcesContent m" and ?c = "SourcesContent m ! i"
  have i: "i < length ?cs" "length ?cs = length (Sources m)"
    using assms(1,2) by (simp_all add: indexable_def)
  have parts: "concat ?cs = concat (take i ?cs) @ ?c @ concat (drop (Suc i) ?cs)"
    using i by (metis append_take_drop_id concat.simps(2) concat_append Cons_nth_drop_Suc)
  have sum: "chars (take i ?cs) + length ?c \<le> chars ?cs"
    using arg_cong [OF parts, of length] by (simp add: length_concat)
  then have small: "chars (take i ?cs) < 4294967296" "length ?c < 4294967296"
    using indexable_sizes(1) [OF assms(1)] by simp_all
  have span: "textSpans m ! i = \<lparr>spanOffset = word_of_nat (chars (take i ?cs)), spanLength = word_of_nat (length ?c)\<rparr>"
    using spans_from_nth [OF i, of 0] by (simp add: textSpans_def)
  have fits: "\<not> maxBytes < word_of_nat (length ?c)"
    using assms(3) small by (simp add: word_less_nat_alt unat_small)
  show ?thesis
  proof (cases "?c = []")
    case True
    then show ?thesis
      using assms(2) span by (simp add: sourceText_def opened_def textSpans_def)
  next
    case False
    then have nonzero: "(word_of_nat (length ?c) :: uint32) \<noteq> 0"
      using small(2) unat_small [OF small(2)] by (metis length_0_conv unat_0)
    have layout: "index_file m = (encodeHeader (header_of m) @ index_tables m @ concat (map segment_bytes (Segments m)) @
        concat (take i ?cs)) @ ?c @ concat (drop (Suc i) ?cs)"
      by (subst index_file_def, subst parts) simp
    have "ReadAt (index_file m) (length ?c) (indexHeaderSize + length (index_tables m) + segmentSize * length (Segments m)
        + chars (take i ?cs)) = Some ?c"
      unfolding layout by (rule ReadAt_part) (use False in \<open>simp_all add: length_segments_bytes length_concat [of "take i ?cs"] del: length_concat\<close>)
    then show ?thesis
      using assms(2) span nonzero fits
      by (simp add: sourceText_def opened_def textSpans_def header_of_unat [OF assms(1)] unat_small [OF small(1)] unat_small [OF small(2)] Let_def)
  qed
qed

lemma sourceText_too_large:
  assumes "indexable m" "i < length (Sources m)" "length (SourcesContent m ! i) > unat maxBytes"
  shows "isl (sourceText (opened m) (int i) maxBytes)"
proof -
  let ?cs = "SourcesContent m" and ?c = "SourcesContent m ! i"
  have i: "i < length ?cs" "length ?cs = length (Sources m)"
    using assms(1,2) by (simp_all add: indexable_def)
  have "length ?c \<le> chars ?cs"
    using i(1) by (intro member_le_sum_list) auto
  then have small: "length ?c < 4294967296"
    using indexable_sizes(1) [OF assms(1)] by simp
  have "textSpans m ! i = \<lparr>spanOffset = word_of_nat (chars (take i ?cs)), spanLength = word_of_nat (length ?c)\<rparr>"
    using spans_from_nth [OF i, of 0] by (simp add: textSpans_def)
  moreover have "maxBytes < word_of_nat (length ?c)"
    using assms(3) small by (simp add: word_less_nat_alt unat_small)
  ultimately show ?thesis
    using assms(2) by (auto simp: sourceText_def opened_def textSpans_def Let_def)
qed

lemma parseMap_indexable:
  "parseMap unmarshal ctx data maxSegmentBytes = Inr m \<Longrightarrow> IndexSize m \<le> maxIndexCacheBytes \<Longrightarrow> indexable m"
  using parseMap_ok [of unmarshal ctx data maxSegmentBytes m] by (simp add: map_ok_def indexable_def)

section \<open>Any file that opens can be searched\<close>

lemma tr_take_ok: "tr_take n t = (raw, t') \<Longrightarrow> trErr t' = None \<Longrightarrow> trErr t = None \<and> length raw = n"
  by (auto simp: tr_take_def split: if_splits)

lemma tr_flags_ok: "tr_flags n t = (fs, t') \<Longrightarrow> trErr t' = None \<Longrightarrow> trErr t = None \<and> length fs = n"
  by (auto simp: tr_flags_def split: prod.splits dest!: tr_take_ok)

lemma tr_pairs_ok: "tr_pairs n t = (ps, t') \<Longrightarrow> trErr t' = None \<Longrightarrow> trErr t = None \<and> length ps = n"
  by (auto simp: tr_pairs_def split: prod.splits dest!: tr_take_ok)

text \<open>Whatever bytes the file holds, an index that opens has a flag and a text span for every source and the fences its
  header announces, so no lookup indexes past the end of a table.\<close>

lemma OpenIndex_lengths:
  assumes "OpenIndex data = Inr x"
  shows "length (ixIgnored x) = length (ixSources x)" "length (ixTexts x) = length (ixSources x)"
    "length (ixFences x) = unat (FenceCount (ixH x))" "header_ok (ixH x)" "ixReader x = data"
proof -
  obtain head h tables t where file_opened: "decodeHeader head = Inr h" "read_tables data h tables = (x, t)" "trErr t = None"
    using assms by (auto simp: OpenIndex_def split: option.splits sum.splits prod.splits if_splits)
  obtain sources t1 where 1: "tr_strings (SourcesBytes h) \<lparr>trRest = tables, trErr = None\<rparr> = (sources, t1)"
    by fastforce
  obtain names t2 where 2: "tr_strings (NamesBytes h) t1 = (names, t2)"
    by fastforce
  obtain ignored t3 where 3: "tr_flags (length sources) t2 = (ignored, t3)"
    by fastforce
  obtain fences t4 where 4: "tr_pairs (unat (FenceCount h)) t3 = (fences, t4)"
    by fastforce
  obtain texts t5 where 5: "tr_pairs (length sources) t4 = (texts, t5)"
    by fastforce
  have x: "x = \<lparr>ixReader = data, ixH = h, ixSources = sources, ixNames = names, ixIgnored = ignored,
      ixFences = map (\<lambda>(a, b). \<lparr>fenceLine = a, fenceColumn = b\<rparr>) fences,
      ixTexts = map (\<lambda>(a, b). \<lparr>spanOffset = a, spanLength = b\<rparr>) texts\<rparr>" and t: "t = t5"
    using file_opened(2) by (simp_all add: read_tables_def 1 2 3 4 5 Let_def)
  have e5: "trErr t4 = None" "length texts = length sources"
    using tr_pairs_ok [OF 5] file_opened(3) t by simp_all
  have e4: "trErr t3 = None" "length fences = unat (FenceCount h)"
    using tr_pairs_ok [OF 4] e5 by simp_all
  have "length ignored = length sources"
    using tr_flags_ok [OF 3] e4 by simp
  then show "length (ixIgnored x) = length (ixSources x)" "length (ixTexts x) = length (ixSources x)"
    "length (ixFences x) = unat (FenceCount (ixH x))" "ixReader x = data"
    using e4 e5 x by simp_all
  show "header_ok (ixH x)"
    using file_opened(1) x by (auto simp: decodeHeader_def header_ok_def Let_def not_less not_le split: if_splits)
qed

text \<open>C22: the index answers what the map says.  When a source map was parsed and its index fits the cache, the file
  \<^verbatim>\<open>WriteIndex\<close> produces has the size \<^verbatim>\<open>IndexSize\<close> announced and opens, every lookup through the fences gives
  what a scan over all segments of the map gives, and every source text is read back.\<close>

theorem index_answers_like_map:
  assumes "parseMap unmarshal ctx data maxSegmentBytes = Inr m" "IndexSize m \<le> maxIndexCacheBytes"
    "WriteIndex buffer_Write m [] = (Inr (), bytes)"
  shows "length bytes = IndexSize m \<and> (\<exists>x. OpenIndex bytes = Inr x
    \<and> (\<forall>line column. Lookup x line column = Inr (map_lookup m line column))
    \<and> (\<forall>i < length (Sources m). \<forall>maxBytes. length (SourcesContent m ! i) \<le> unat maxBytes \<longrightarrow>
          sourceText x (int i) maxBytes = Inr (SourcesContent m ! i)))"
proof -
  have bytes: "bytes = index_file m" "sorted (map place (Segments m))"
    using assms(3) by (auto simp: WriteIndex_buffer SliceIsSorted_places split: if_splits)
  have m: "indexable m"
    using parseMap_indexable [OF assms(1,2)] .
  show ?thesis
    using OpenIndex_written [OF m] Lookup_written [OF m bytes(2)] sourceText_written [OF m] length_index_file [of m] bytes(1)
    by blast
qed

definition demo_raw :: rawMap where
  "demo_raw = \<lparr>RawVersion = 3, RawSources = [''app.js'', ''lib.js''], RawNames = [''main''], RawMappings = ''AAUAA,I;ACAA'',
     RawSourcesContent = [Some ''main()'', None], RawIgnoreList = [1], RawGoogleIgnoreList = []\<rparr>"

definition demo_map :: SourceMap where
  "demo_map = \<lparr>Sources = [''app.js'', ''lib.js''], SourcesContent = [''main()'', []], Names = [''main''], Ignored = [False, True],
     Segments = [\<lparr>Line = 0, Column = 0, Source = 0, OriginalLine = 10, OriginalColumn = 0, Name = 0\<rparr>,
                 \<lparr>Line = 0, Column = 4, Source = NoIndex, OriginalLine = 0, OriginalColumn = 0, Name = NoIndex\<rparr>,
                 \<lparr>Line = 1, Column = 0, Source = 1, OriginalLine = 10, OriginalColumn = 0, Name = NoIndex\<rparr>]\<rparr>"

lemma demo_parsed: "parseMap (\<lambda>_. Inr demo_raw) background [] 1000 = Inr demo_map"
  by code_simp

lemma demo_written: "WriteIndex buffer_Write demo_map [] = (Inr (), index_file demo_map)"
  by (simp add: WriteIndex_buffer SliceIsSorted_places demo_map_def place_def)

lemma demo_size: "IndexSize demo_map \<le> maxIndexCacheBytes"
  by (simp add: IndexSize_def demo_map_def indexHeaderSize_def fenceStride_def segmentSize_def maxIndexCacheBytes_def)

theorem index_answers_like_map_witness:
  "\<exists>x. OpenIndex (index_file demo_map) = Inr x
    \<and> Lookup x 0 2 = Inr (Some \<lparr>posSource = ''app.js'', posSourceIndex = 0, posLine = 11, posColumn = 1, posName = ''main'', posIgnored = False\<rparr>)
    \<and> Lookup x 0 7 = Inr None"
proof -
  have "map_lookup demo_map 0 2 = Some \<lparr>posSource = ''app.js'', posSourceIndex = 0, posLine = 11, posColumn = 1,
      posName = ''main'', posIgnored = False\<rparr>" "map_lookup demo_map 0 7 = None"
    by (simp_all add: map_lookup_def segment_at_def segmentLess_def target_at_def demo_map_def map_position_def NoIndex_def)
  then show ?thesis
    using index_answers_like_map [OF demo_parsed demo_size demo_written] by auto
qed

end
