(* ===== verification/IndexCache.thy ===== *)
theory IndexCache
  imports SymLookup
begin

text \<open>
  The cache of opened indexes, \<^verbatim>\<open>src/ee/symbolication/index_cache.go\<close>: at most 256 MB of index files, the least
  recently used leaves first.  Every method holds the mutex of the cache from start to end, so each is one step.
\<close>

record cachedIndex =
  ciIndex :: MapIndex
  ciSize :: int

record indexCache =
  icItems :: "string \<Rightarrow> cachedIndex option"
  icOrder :: "string list"
  icBytes :: int

definition newIndexCache :: indexCache where
  "newIndexCache = \<lparr>icItems = (\<lambda>_. None), icOrder = [], icBytes = 0\<rparr>"

text \<open>\<^verbatim>\<open>touch\<close>: \<^verbatim>\<open>slices.Index\<close> finds the first occurrence, \<^verbatim>\<open>slices.Delete\<close> takes it out.\<close>

definition touch :: "string \<Rightarrow> indexCache \<Rightarrow> indexCache" where
  "touch hash c = c\<lparr>icOrder := remove1 hash (icOrder c) @ [hash]\<rparr>"

definition ic_get :: "string \<Rightarrow> indexCache \<Rightarrow> MapIndex option \<times> indexCache" where
  "ic_get hash c = (case icItems c hash of Some item \<Rightarrow> (Some (ciIndex item), touch hash c) | None \<Rightarrow> (None, c))"

text \<open>The eviction loop of \<^verbatim>\<open>put\<close>; \<^term>\<open>None\<close> is the panic of reading the first element of an empty order.  An
  order that names a key without an item subtracts the size of the zero value.\<close>

fun evict :: "string list \<Rightarrow> (string \<Rightarrow> cachedIndex option) \<Rightarrow> int \<Rightarrow> indexCache option" where
  "evict [] items bytes =
     (if bytes > int maxIndexCacheBytes then None else Some \<lparr>icItems = items, icOrder = [], icBytes = bytes\<rparr>)"
| "evict (oldest # order) items bytes =
     (if bytes > int maxIndexCacheBytes
      then evict order (items(oldest := None)) (bytes - (case items oldest of Some item \<Rightarrow> ciSize item | None \<Rightarrow> 0))
      else Some \<lparr>icItems = items, icOrder = oldest # order, icBytes = bytes\<rparr>)"

definition ic_put :: "string \<Rightarrow> string \<Rightarrow> indexCache \<Rightarrow> ((index_err + MapIndex) \<times> indexCache) option" where
  "ic_put hash data c =
     (case OpenIndex data of
        Inl e \<Rightarrow> Some (Inl e, c)
      | Inr index \<Rightarrow>
          let bytes = icBytes c - (case icItems c hash of Some replaced \<Rightarrow> ciSize replaced | None \<Rightarrow> 0);
              c = c\<lparr>icItems := (icItems c)(hash \<mapsto> \<lparr>ciIndex = index, ciSize = int (length data)\<rparr>),
                    icBytes := bytes + int (length data)\<rparr>;
              c = touch hash c
          in map_option (\<lambda>c. (Inr index, c)) (evict (icOrder c) (icItems c) (icBytes c)))"

section \<open>The cache keeps its accounts\<close>

definition item_size :: "(string \<Rightarrow> cachedIndex option) \<Rightarrow> string \<Rightarrow> int" where
  "item_size items key = (case items key of Some item \<Rightarrow> ciSize item | None \<Rightarrow> 0)"

definition accounted :: "string list \<Rightarrow> (string \<Rightarrow> cachedIndex option) \<Rightarrow> int \<Rightarrow> bool" where
  "accounted order items bytes \<longleftrightarrow> distinct order \<and> set order = dom items
     \<and> bytes = sum_list (map (item_size items) order) \<and> (\<forall>key \<in> dom items. 0 \<le> item_size items key)"

definition cache_ok :: "indexCache \<Rightarrow> bool" where
  "cache_ok c \<longleftrightarrow> accounted (icOrder c) (icItems c) (icBytes c) \<and> icBytes c \<le> int maxIndexCacheBytes"

lemma newIndexCache_ok: "cache_ok newIndexCache"
  by (simp add: cache_ok_def accounted_def newIndexCache_def)

lemma sum_list_remove1: "x \<in> set xs \<Longrightarrow> sum_list (map f (remove1 x xs)) = sum_list (map f xs) - (f x :: int)"
  by (induction xs) auto

lemma accounted_touch: "accounted order items bytes \<Longrightarrow> hash \<in> dom items \<Longrightarrow> accounted (remove1 hash order @ [hash]) items bytes"
  by (auto simp: accounted_def sum_list_remove1)

lemma ic_get_ok: "cache_ok c \<Longrightarrow> cache_ok (snd (ic_get hash c))"
  using accounted_touch [of "icOrder c" "icItems c" "icBytes c" hash]
  by (auto simp: ic_get_def cache_ok_def touch_def domIff split: option.splits)

lemma item_size_del: "item_size (items(k := None)) j = (if j = k then 0 else item_size items j)"
  by (simp add: item_size_def)

lemma accounted_evict:
  assumes "accounted (oldest # order) items bytes"
  shows "accounted order (items(oldest := None)) (bytes - item_size items oldest)"
proof -
  have "sum_list (map (item_size (items(oldest := None))) order) = sum_list (map (item_size items) order)"
    using assms by (intro arg_cong [of _ _ sum_list]) (auto simp: accounted_def item_size_del)
  then show ?thesis
    using assms by (auto simp: accounted_def item_size_del)
qed

text \<open>The loop ends, and with the newest key still there, when that key alone fits.\<close>

lemma evict_keeps_last:
  assumes "accounted (order @ [hash]) items bytes" "item_size items hash \<le> int maxIndexCacheBytes"
  shows "\<exists>c. evict (order @ [hash]) items bytes = Some c \<and> cache_ok c \<and> icItems c hash = items hash
    \<and> (\<forall>key. icItems c key \<in> {None, items key}) \<and> (\<exists>gone. order @ [hash] = gone @ icOrder c)"
  using assms
proof (induction order arbitrary: items bytes)
  case Nil
  then have "bytes \<le> int maxIndexCacheBytes"
    by (simp add: accounted_def)
  then show ?case
    using Nil by (auto simp: cache_ok_def)
next
  case (Cons oldest order)
  show ?case
  proof (cases "bytes > int maxIndexCacheBytes")
    case True
    have other: "hash \<noteq> oldest"
      using Cons.prems(1) by (auto simp: accounted_def)
    have size_kept: "item_size (items(oldest := None)) hash \<le> int maxIndexCacheBytes"
      using Cons.prems(2) other by (simp add: item_size_del)
    have rest: "accounted (order @ [hash]) (items(oldest := None)) (bytes - item_size items oldest)"
      using accounted_evict Cons.prems(1) by simp
    obtain c where c: "evict (order @ [hash]) (items(oldest := None)) (bytes - item_size items oldest) = Some c" "cache_ok c"
      "icItems c hash = items hash" "\<forall>key. icItems c key \<in> {None, (items(oldest := None)) key}"
      "\<exists>gone. order @ [hash] = gone @ icOrder c"
      using Cons.IH [OF rest size_kept] unfolding fun_upd_other [OF other] by blast
    have "icItems c key \<in> {None, items key}" for key
      using c(4) by (cases "key = oldest") (auto dest: spec [of _ key])
    moreover have "\<exists>gone. (oldest # order) @ [hash] = gone @ icOrder c"
      using c(5) by (metis append_Cons)
    ultimately show ?thesis
      using True c by (simp add: item_size_def)
  next
    case False
    then show ?thesis
      using Cons.prems(1) by (simp add: cache_ok_def)
  qed
qed

lemma accounted_put:
  assumes "accounted order items bytes" "0 \<le> ciSize item"
  shows "accounted (remove1 hash order @ [hash]) (items(hash \<mapsto> item)) (bytes - item_size items hash + ciSize item)"
proof -
  have "sum_list (map (item_size (items(hash \<mapsto> item))) (remove1 hash order)) = sum_list (map (item_size items) (remove1 hash order))"
    using assms(1) by (intro arg_cong [of _ _ sum_list]) (auto simp: accounted_def item_size_def)
  moreover have "sum_list (map (item_size items) (remove1 hash order)) = bytes - item_size items hash"
  proof (cases "hash \<in> set order")
    case True
    then show ?thesis
      using assms(1) by (simp add: accounted_def sum_list_remove1)
  next
    case False
    then show ?thesis
      using assms(1) by (auto simp: accounted_def remove1_idem item_size_def domIff)
  qed
  ultimately show ?thesis
    using assms by (auto simp: accounted_def item_size_def)
qed

lemma ic_put_keeps:
  assumes "cache_ok c" "OpenIndex data = Inr index" "length data \<le> maxIndexCacheBytes"
  shows "\<exists>c'. ic_put hash data c = Some (Inr index, c') \<and> cache_ok c' \<and> fst (ic_get hash c') = Some index
    \<and> (\<forall>key. key \<noteq> hash \<longrightarrow> icItems c' key \<in> {None, icItems c key})"
proof -
  let ?item = "\<lparr>ciIndex = index, ciSize = int (length data)\<rparr>"
  let ?items = "(icItems c)(hash \<mapsto> ?item)"
  have "accounted (remove1 hash (icOrder c) @ [hash]) ?items (icBytes c - item_size (icItems c) hash + ciSize ?item)"
    using assms(1) by (intro accounted_put) (simp_all add: cache_ok_def)
  from evict_keeps_last [OF this] obtain c' where c':
    "evict (remove1 hash (icOrder c) @ [hash]) ?items (icBytes c - item_size (icItems c) hash + int (length data)) = Some c'"
    "cache_ok c'" "icItems c' hash = Some ?item" "\<forall>key. icItems c' key \<in> {None, ?items key}"
    using assms(3) by (auto simp: item_size_def)
  moreover have "ic_put hash data c = Some (Inr index, c')"
    using assms(2) c'(1) by (simp add: ic_put_def touch_def Let_def item_size_def)
  moreover have "icItems c' key \<in> {None, icItems c key}" if "key \<noteq> hash" for key
    using c'(4) that by (auto dest: spec [of _ key])
  ultimately show ?thesis
    by (auto simp: ic_get_def)
qed

text \<open>C40: what the cache of indexes promises.  A cache that accounts for exactly the files it keeps, within its limit, still
  does after every lookup and after every file that is put into it; putting never runs out of entries to evict, the
  index just put is there, and no other entry is changed otherwise than by leaving.\<close>

theorem cache_accounts:
  assumes "cache_ok c"
  shows "cache_ok (snd (ic_get hash c)) \<and> (OpenIndex data = Inr index \<and> length data \<le> maxIndexCacheBytes \<longrightarrow>
    (\<exists>c'. ic_put hash data c = Some (Inr index, c') \<and> cache_ok c' \<and> fst (ic_get hash c') = Some index
       \<and> (\<forall>key. key \<noteq> hash \<longrightarrow> icItems c' key \<in> {None, icItems c key})))"
  using ic_get_ok [OF assms] ic_put_keeps [OF assms] by blast

theorem cache_accounts_witness:
  "\<exists>c. ic_put ''app/hash'' (index_file demo_map) newIndexCache = Some (Inr (opened demo_map), c) \<and> cache_ok c
     \<and> fst (ic_get ''app/hash'' c) = Some (opened demo_map)"
proof -
  have "OpenIndex (index_file demo_map) = Inr (opened demo_map)"
    using demo_parsed demo_size by (intro OpenIndex_written parseMap_indexable)
  moreover have "length (index_file demo_map) \<le> maxIndexCacheBytes"
    using demo_size by (simp add: length_index_file)
  ultimately show ?thesis
    using cache_accounts [OF newIndexCache_ok, of "''app/hash''" "index_file demo_map" "opened demo_map"] by blast
qed

end
