(* ===== verification/GoRegexp.thy ===== *)
theory GoRegexp
  imports GoStrings
begin

text \<open>
  The part of Go's \<^verbatim>\<open>regexp\<close> package that the sources use: leftmost-first matching with capture groups.  A pattern
  describes, from a position of the text, the ways it can match in the order a backtracking engine would try them;
  the package documents that it chooses the first.  Matching is byte by byte: every class used is either a set of
  ASCII characters or the complement of one, and every literal is a sequence of bytes, so a match can neither start
  nor end inside a multi-byte character.  Classes are functions, so patterns are not compared.
\<close>

datatype re =
    Empty
  | Cls "char \<Rightarrow> bool"
  | Seq re re
  | Alt re re
  | Star re
  | LazyStar re
  | Group nat re

type_synonym captures = "nat \<Rightarrow> string"

text \<open>One way to match: the rest of the text and the captured groups.  An iteration that matches the empty string
  ends a repetition.\<close>

function runs :: "re \<Rightarrow> string \<Rightarrow> captures \<Rightarrow> (string \<times> captures) list" where
  "runs Empty s m = [(s, m)]"
| "runs (Cls P) s m = (case s of [] \<Rightarrow> [] | c # s' \<Rightarrow> if P c then [(s', m)] else [])"
| "runs (Seq a b) s m = concat (map (\<lambda>(s', m'). runs b s' m') (runs a s m))"
| "runs (Alt a b) s m = runs a s m @ runs b s m"
| "runs (Star a) s m =
     concat (map (\<lambda>(s', m'). if length s' < length s then runs (Star a) s' m' else []) (runs a s m)) @ [(s, m)]"
| "runs (LazyStar a) s m =
     (s, m) # concat (map (\<lambda>(s', m'). if length s' < length s then runs (LazyStar a) s' m' else []) (runs a s m))"
| "runs (Group n a) s m = map (\<lambda>(s', m'). (s', m'(n := take (length s - length s') s))) (runs a s m)"
  by pat_completeness auto
termination
  by (relation "measures [\<lambda>(r, s, m). size r, \<lambda>(r, s, m). length s]") auto

definition Chr :: "char \<Rightarrow> re" where
  "Chr c = Cls (\<lambda>d. d = c)"

fun Lit :: "string \<Rightarrow> re" where
  "Lit [] = Empty"
| "Lit (c # cs) = Seq (Chr c) (Lit cs)"

definition Opt :: "re \<Rightarrow> re" where
  "Opt a = Alt a Empty"

definition Plus :: "re \<Rightarrow> re" where
  "Plus a = Seq a (Star a)"

definition LazyPlus :: "re \<Rightarrow> re" where
  "LazyPlus a = Seq a (LazyStar a)"

fun Times :: "nat \<Rightarrow> re \<Rightarrow> re" where
  "Times 0 a = Empty"
| "Times (Suc n) a = Seq a (Times n a)"

fun seq :: "re list \<Rightarrow> re" where
  "seq [] = Empty"
| "seq [a] = a"
| "seq (a # b # rs) = Seq a (seq (b # rs))"

text \<open>The classes \<^verbatim>\<open>\s\<close>, \<^verbatim>\<open>\d\<close>, \<^verbatim>\<open>\w\<close> and the dot, which does not match a line feed.\<close>

definition space_class :: "char \<Rightarrow> bool" where
  "space_class c \<longleftrightarrow> of_char c \<in> {9, 10, 12, 13, 32 :: nat}"

definition digit_class :: "char \<Rightarrow> bool" where
  "digit_class c \<longleftrightarrow> (48 :: nat) \<le> of_char c \<and> of_char c \<le> (57 :: nat)"

definition hex_class :: "char \<Rightarrow> bool" where
  "hex_class c \<longleftrightarrow> digit_class c \<or> (65 :: nat) \<le> of_char c \<and> of_char c \<le> (70 :: nat)
     \<or> (97 :: nat) \<le> of_char c \<and> of_char c \<le> (102 :: nat)"

definition word_class :: "char \<Rightarrow> bool" where
  "word_class c \<longleftrightarrow> digit_class c \<or> c = CHR ''_'' \<or> (65 :: nat) \<le> of_char c \<and> of_char c \<le> (90 :: nat)
     \<or> (97 :: nat) \<le> of_char c \<and> of_char c \<le> (122 :: nat)"

definition dot_class :: "char \<Rightarrow> bool" where
  "dot_class c \<longleftrightarrow> of_char c \<noteq> (10 :: nat)"

text \<open>\<^verbatim>\<open>FindStringSubmatch\<close> for a pattern anchored at both ends: the groups of the first way to match all of the text; a
  group that took no part is empty.\<close>

definition FindSubmatch :: "re \<Rightarrow> string \<Rightarrow> captures option" where
  "FindSubmatch r s = map_option snd (find (\<lambda>(s', m). s' = []) (runs r s (\<lambda>_. [])))"

text \<open>\<^verbatim>\<open>ReplaceAllString\<close> for a pattern that does not match the empty string and a replacement without \<^verbatim>\<open>$\<close>: the leftmost
  match first, then the text after it.\<close>

definition match_here :: "re \<Rightarrow> string \<Rightarrow> string option" where
  "match_here r s = (case runs r s (\<lambda>_. []) of [] \<Rightarrow> None | (s', m) # _ \<Rightarrow> Some s')"

function ReplaceAllString :: "re \<Rightarrow> string \<Rightarrow> string \<Rightarrow> string" where
  "ReplaceAllString r [] repl = []"
| "ReplaceAllString r (c # s) repl =
     (case match_here r (c # s) of
        Some s' \<Rightarrow> if length s' < length (c # s) then repl @ ReplaceAllString r s' repl else c # ReplaceAllString r s repl
      | None \<Rightarrow> c # ReplaceAllString r s repl)"
  by pat_completeness auto
termination
  by (relation "measure (\<lambda>(r, s, repl). length s)") auto

declare runs.simps(5,6) [simp del]

lemmas runs_Star = runs.simps(5)
lemmas runs_LazyStar = runs.simps(6)

section \<open>The first way to match\<close>

definition first_run :: "re \<Rightarrow> string \<Rightarrow> captures \<Rightarrow> string \<Rightarrow> captures \<Rightarrow> bool" where
  "first_run r s m s' m' \<longleftrightarrow> (\<exists>others. runs r s m = (s', m') # others)"

lemma first_Empty: "first_run Empty s m s m"
  by (simp add: first_run_def)

lemma first_Cls: "P c \<Longrightarrow> first_run (Cls P) (c # s) m s m"
  by (simp add: first_run_def)

lemma first_Seq: "first_run a s m s1 m1 \<Longrightarrow> first_run b s1 m1 s2 m2 \<Longrightarrow> first_run (Seq a b) s m s2 m2"
  by (auto simp: first_run_def)

lemma first_Chr: "first_run (Chr c) (c # s) m s m"
  by (simp add: Chr_def first_Cls)

lemma first_Lit: "first_run (Lit w) (w @ s) m s m"
  by (induction w) (auto intro: first_Empty first_Seq first_Chr)

lemma first_Star:
  "list_all P w \<Longrightarrow> (case s of [] \<Rightarrow> True | c # _ \<Rightarrow> \<not> P c) \<Longrightarrow> first_run (Star (Cls P)) (w @ s) m s m"
proof (induction w)
  case Nil
  then show ?case
    by (cases s) (simp_all add: first_run_def runs_Star [of "Cls P"])
next
  case (Cons c w)
  then show ?case
    by (auto simp: first_run_def runs_Star [of "Cls P" "c # w @ s"])
qed

lemma first_Plus:
  "list_all P w \<Longrightarrow> w \<noteq> [] \<Longrightarrow> (case s of [] \<Rightarrow> True | c # _ \<Rightarrow> \<not> P c) \<Longrightarrow> first_run (Plus (Cls P)) (w @ s) m s m"
  by (cases w) (auto simp: Plus_def intro!: first_Seq [OF first_Cls first_Star])

lemma first_Group:
  "first_run a s m s' m' \<Longrightarrow> first_run (Group n a) s m s' (m'(n := take (length s - length s') s))"
  by (auto simp: first_run_def)

lemma FindSubmatch_first: "first_run r s (\<lambda>_. []) [] m \<Longrightarrow> FindSubmatch r s = Some m"
  by (auto simp: first_run_def FindSubmatch_def)

section \<open>What a match consumes\<close>

lemma runs_suffix: "(s', m') \<in> set (runs r s m) \<Longrightarrow> \<exists>w. s = w @ s'"
proof (induction r s m arbitrary: s' m' rule: runs.induct)
  case (3 a b s m)
  then obtain s1 m1 where 1: "(s1, m1) \<in> set (runs a s m)" "(s', m') \<in> set (runs b s1 m1)"
    by auto
  then show ?case
    using "3.IH"(1) [OF 1(1)] "3.IH"(2) [OF 1(1) refl 1(2)] by (metis append.assoc)
next
  case (5 a s m)
  then consider "s' = s" | s1 m1 where "(s1, m1) \<in> set (runs a s m)" "length s1 < length s" "(s', m') \<in> set (runs (Star a) s1 m1)"
    by (auto simp: runs_Star [of a s] split: if_splits)
  then show ?case
  proof cases
    case 2
    then show ?thesis
      using "5.IH"(1) [OF 2(1)] "5.IH"(2) [OF 2(1) refl 2(2,3)] by (metis append.assoc)
  qed simp
next
  case (6 a s m)
  then consider "s' = s" | s1 m1 where "(s1, m1) \<in> set (runs a s m)" "length s1 < length s" "(s', m') \<in> set (runs (LazyStar a) s1 m1)"
    by (auto simp: runs_LazyStar [of a s] split: if_splits)
  then show ?case
  proof cases
    case 2
    then show ?thesis
      using "6.IH"(1) [OF 2(1)] "6.IH"(2) [OF 2(1) refl 2(2,3)] by (metis append.assoc)
  qed simp
qed (auto split: list.splits if_splits)

text \<open>A pattern \<^term>\<open>ends P\<close> when everything it matches ends in a character that satisfies \<^term>\<open>P\<close>.\<close>

definition ends :: "(char \<Rightarrow> bool) \<Rightarrow> re \<Rightarrow> bool" where
  "ends P r \<longleftrightarrow> (\<forall>s m s' m'. (s', m') \<in> set (runs r s m) \<longrightarrow> (\<exists>w c. s = w @ c # s' \<and> P c))"

lemma endsD: "ends P r \<Longrightarrow> (s', m') \<in> set (runs r s m) \<Longrightarrow> \<exists>w c. s = w @ c # s' \<and> P c"
  unfolding ends_def by blast

lemma endsI: "(\<And>s m s' m'. (s', m') \<in> set (runs r s m) \<Longrightarrow> \<exists>w c. s = w @ c # s' \<and> P c) \<Longrightarrow> ends P r"
  unfolding ends_def by blast

lemma ends_Cls [intro]: "(\<And>c. Q c \<Longrightarrow> P c) \<Longrightarrow> ends P (Cls Q)"
  by (rule endsI) (auto split: list.splits if_splits)

lemma ends_Chr [intro]: "P c \<Longrightarrow> ends P (Chr c)"
  by (auto simp: Chr_def)

lemma ends_Seq [intro]:
  assumes "ends P b"
  shows "ends P (Seq a b)"
proof (rule endsI)
  fix s m s' m'
  assume "(s', m') \<in> set (runs (Seq a b) s m)"
  then obtain s1 m1 where "(s1, m1) \<in> set (runs a s m)" "(s', m') \<in> set (runs b s1 m1)"
    by auto
  then show "\<exists>w c. s = w @ c # s' \<and> P c"
    using runs_suffix [of s1 m1 a s m] endsD [OF assms, of s' m' s1 m1] by (metis append.assoc)
qed

lemma ends_Alt [intro]: "ends P a \<Longrightarrow> ends P b \<Longrightarrow> ends P (Alt a b)"
  by (rule endsI) (auto dest: endsD)

lemma ends_Group [intro]: "ends P a \<Longrightarrow> ends P (Group n a)"
  by (rule endsI) (auto dest: endsD)

lemma ends_Opt: "ends P a \<Longrightarrow> ends P b \<Longrightarrow> ends P (Seq a (Opt b))"
proof (rule endsI)
  fix s m s' m'
  assume ab: "ends P a" "ends P b" and run: "(s', m') \<in> set (runs (Seq a (Opt b)) s m)"
  then consider "(s', m') \<in> set (runs a s m)" | "(s', m') \<in> set (runs (Seq a b) s m)"
    by (auto simp: Opt_def)
  then show "\<exists>w c. s = w @ c # s' \<and> P c"
    using ab endsD [OF ends_Seq [OF ab(2)], of s' m' a s m] by cases (blast dest: endsD)+
qed

lemma ends_Star:
  "ends P a \<Longrightarrow> (s', m') \<in> set (runs (Star a) s m) \<Longrightarrow> s' = s \<or> (\<exists>w c. s = w @ c # s' \<and> P c)"
proof (induction s arbitrary: m rule: length_induct)
  case (1 s)
  then consider "s' = s" | s1 m1 where "(s1, m1) \<in> set (runs a s m)" "length s1 < length s" "(s', m') \<in> set (runs (Star a) s1 m1)"
    by (auto simp: runs_Star [of a s] split: if_splits)
  then show ?case
  proof cases
    case 2
    then show ?thesis
      using 1(1,2) endsD [OF 1(2) 2(1)] by (metis append.assoc append_Cons)
  qed simp
qed

lemma ends_Plus [intro]: "ends P a \<Longrightarrow> ends P (Plus a)"
proof (rule endsI)
  fix s m s' m'
  assume a: "ends P a" and "(s', m') \<in> set (runs (Plus a) s m)"
  then obtain s1 m1 where "(s1, m1) \<in> set (runs a s m)" "(s', m') \<in> set (runs (Star a) s1 m1)"
    by (auto simp: Plus_def)
  then show "\<exists>w c. s = w @ c # s' \<and> P c"
    using endsD [OF a, of s1 m1 s m] ends_Star [OF a, of s' m' s1 m1] by (metis append.assoc append_Cons)
qed

lemma ends_Lit [intro]: "w \<noteq> [] \<Longrightarrow> P (last w) \<Longrightarrow> ends P (Lit w)"
proof (induction w)
  case (Cons c w)
  show ?case
  proof (cases "w = []")
    case True
    have "ends P (Chr c)"
      using Cons True by auto
    then show ?thesis
      using True by (intro endsI) (auto dest: endsD)
  next
    case False
    then show ?thesis
      using Cons by auto
  qed
qed simp

lemma FindSubmatch_None: "ends P r \<Longrightarrow> s = [] \<or> \<not> P (last s) \<Longrightarrow> FindSubmatch r s = None"
proof -
  assume r: "ends P r" and s: "s = [] \<or> \<not> P (last s)"
  have "([], m) \<notin> set (runs r s (\<lambda>_. []))" for m
    using endsD [OF r, of "[]" m s "\<lambda>_. []"] s by auto
  then show ?thesis
    by (auto simp: FindSubmatch_def find_None_iff)
qed

end
