(* ===== verification/Symbolicate.thy ===== *)
theory Symbolicate
  imports SymLookup GoRegexp GoStrconv
begin

text \<open>
  Reading a stack trace and mapping its frames through an index: \<^verbatim>\<open>frames.go\<close>, \<^verbatim>\<open>symbolicate.go\<close> and \<^verbatim>\<open>message.go\<close> of
  \<^verbatim>\<open>src/ee/symbolication\<close>.  \<^verbatim>\<open>int\<close> values are integers; pointers that may be nil are options.  The SHA-256 digest of a
  fingerprint is a parameter.
\<close>

section \<open>Frames\<close>

datatype FrameKind = SourceFrame | BytecodeFrame | NativeFrame

record Frame =
  frKind :: FrameKind
  frFunction :: string
  frFile :: string
  frLine :: int
  frColumn :: int

definition maxFrameLineBytes :: nat where "maxFrameLineBytes = 4096"

text \<open>\<^verbatim>\<open>atoi\<close> drops the error of \<^verbatim>\<open>strconv.Atoi\<close>, which answers the nearest \<^verbatim>\<open>int\<close> for a number that is too large.\<close>

definition atoi :: "string \<Rightarrow> int" where
  "atoi digits = (case parse_nat digits of None \<Rightarrow> 0 | Some n \<Rightarrow> min (int n) (2 ^ 63 - 1))"

abbreviation dot :: re where "dot \<equiv> Cls dot_class"
abbreviation space :: re where "space \<equiv> Cls space_class"
abbreviation digits :: re where "digits \<equiv> Plus (Cls digit_class)"
abbreviation not_at :: re where "not_at \<equiv> Star (Cls (\<lambda>c. c \<noteq> CHR ''@'' \<and> \<not> space_class c))"

definition source_frame :: "string \<Rightarrow> string \<Rightarrow> string \<Rightarrow> string \<Rightarrow> Frame" where
  "source_frame fn path line column =
     \<lparr>frKind = SourceFrame, frFunction = fn, frFile = path, frLine = atoi line, frColumn = atoi column\<rparr>"

definition native_frame :: "string \<Rightarrow> string \<Rightarrow> int \<Rightarrow> Frame" where
  "native_frame fn path line = \<lparr>frKind = NativeFrame, frFunction = fn, frFile = path, frLine = line, frColumn = 0\<rparr>"

definition hermes_re :: re where
  "hermes_re = seq [Star space, Lit ''at '', Group 1 (LazyPlus dot), Lit '' ('',
     Alt (Group 2 (Lit ''native''))
         (seq [Opt (Group 3 (Lit ''address at '')), Group 4 (Plus dot), Chr (CHR '':''), Group 5 digits, Chr (CHR '':''), Group 6 digits]),
     Chr (CHR '')'')]"

definition hermes_frame :: "captures \<Rightarrow> Frame" where
  "hermes_frame m =
     (if m 2 \<noteq> [] then native_frame (m 1) [] 0
      else if m 3 \<noteq> [] then (source_frame (m 1) (m 4) (m 5) (m 6))\<lparr>frKind := BytecodeFrame\<rparr>
      else source_frame (m 1) (m 4) (m 5) (m 6))"

definition v8_re :: re where
  "v8_re = seq [Star space, Lit ''at '', Group 1 (Seq (Cls (\<lambda>c. \<not> space_class c)) (Star dot)), Chr (CHR '':''), Group 2 digits,
     Chr (CHR '':''), Group 3 digits]"

definition jsc_re :: re where
  "jsc_re = seq [Star space, Group 1 not_at, Chr (CHR ''@''), Group 2 (Plus dot), Chr (CHR '':''), Group 3 digits,
     Chr (CHR '':''), Group 4 digits]"

definition jsc_native_re :: re where
  "jsc_native_re = seq [Star space, Opt (Seq (Group 1 not_at) (Chr (CHR ''@''))), Lit ''[native code]'']"

definition java_re :: re where
  "java_re = seq [Star space, Opt (Lit ''at ''),
     Group 1 (Seq (Plus (Cls (\<lambda>c. word_class c \<or> c = CHR ''$'')))
       (Plus (Seq (Chr (CHR ''.'')) (Plus (Cls (\<lambda>c. word_class c \<or> c \<in> set ''$<>'')))))),
     Chr (CHR ''(''), Group 2 (Star (Cls (\<lambda>c. c \<notin> set ''():''))), Opt (Seq (Chr (CHR '':'')) (Group 3 digits)), Chr (CHR '')'')]"

definition ios_re :: re where
  "ios_re = seq [Opt (Seq (Group 1 (Plus dot)) (Lit '' ('')), Group 2 (Plus (Cls (\<lambda>c. \<not> space_class c \<and> c \<notin> set ''()''))),
     Lit '' + '', digits, Opt (Chr (CHR '')''))]"

definition address_re :: re where
  "address_re = Seq (Lit ''0x'') (Plus (Cls hex_class))"

definition frameFormats :: "(re \<times> (captures \<Rightarrow> Frame)) list" where
  "frameFormats =
     [(hermes_re, hermes_frame),
      (v8_re, \<lambda>m. source_frame [] (m 1) (m 2) (m 3)),
      (jsc_re, \<lambda>m. source_frame (m 1) (m 2) (m 3) (m 4)),
      (jsc_native_re, \<lambda>m. native_frame (m 1) [] 0),
      (java_re, \<lambda>m. native_frame (m 1) (m 2) (atoi (m 3))),
      (ios_re, \<lambda>m. native_frame (m 1) (m 2) 0),
      (address_re, \<lambda>m. native_frame [] [] 0)]"

fun first_format :: "(re \<times> (captures \<Rightarrow> 'a)) list \<Rightarrow> string \<Rightarrow> 'a option" where
  "first_format [] line = None"
| "first_format ((r, f) # formats) line =
     (case FindSubmatch r line of Some m \<Rightarrow> Some (f m) | None \<Rightarrow> first_format formats line)"

definition ParseFrame :: "string \<Rightarrow> Frame option" where
  "ParseFrame line = (if length line > maxFrameLineBytes then None else first_format frameFormats line)"

definition ellipsis :: string where
  "ellipsis = [CHR 0xE2, CHR 0x80, CHR 0xA6]"

definition skippedFramesPatterns :: "re list" where
  "skippedFramesPatterns =
     [seq [Star space, Lit ''... skipping '', Group 1 digits, Lit '' frames''],
      seq [Star space, Lit ellipsis, Lit '' +'', Group 1 digits, Lit '' more frames'']]"

definition SkippedFrames :: "string \<Rightarrow> int option" where
  "SkippedFrames line =
     (if length line > maxFrameLineBytes then None
      else first_format (map (\<lambda>r. (r, \<lambda>m. atoi (m 1))) skippedFramesPatterns) line)"

definition SkippedFramesLine :: "int \<Rightarrow> string" where
  "SkippedFramesLine count = ''    ... skipping '' @ FormatInt count @ '' frames''"

section \<open>Traces\<close>

record Context =
  cxFirstLine :: int
  cxLines :: "string list"

record Origin =
  orSource :: string
  orLine :: int
  orColumn :: int
  orName :: string
  orInApp :: bool
  orContext :: "Context option"

record TraceFrame =
  tfFunction :: string
  tfFile :: string
  tfLine :: int
  tfColumn :: int
  tfNative :: bool
  tfBytecode :: bool
  tfRepeat :: int
  tfSkipped :: int
  tfOrigin :: "Origin option"

type_synonym Trace = "TraceFrame list"

record TextLine =
  tlText :: string
  tlFrame :: "Frame option"
  tlSkipped :: int

definition ReadLines :: "string \<Rightarrow> TextLine list" where
  "ReadLines stacktrace =
     map (\<lambda>text. case ParseFrame text of
            Some frame \<Rightarrow> \<lparr>tlText = text, tlFrame = Some frame, tlSkipped = 0\<rparr>
          | None \<Rightarrow> (case SkippedFrames text of
                       Some count \<Rightarrow> \<lparr>tlText = text, tlFrame = None, tlSkipped = count\<rparr>
                     | None \<Rightarrow> \<lparr>tlText = text, tlFrame = None, tlSkipped = 0\<rparr>))
       (split_on (CHR 0x0A) stacktrace)"

text \<open>\<^verbatim>\<open>path.Base\<close>: the last element of a slash-separated path.\<close>

definition base_name :: "string \<Rightarrow> string" where
  "base_name path =
     (if path = [] then ''.''
      else let base = last (split_on (CHR ''/'') (TrimRight path ''/'')) in if base = [] then ''/'' else base)"

definition isEngineFrame :: "Frame \<Rightarrow> bool" where
  "isEngineFrame frame \<longleftrightarrow> frKind frame = BytecodeFrame \<and> base_name (frFile frame) = ''InternalBytecode.js''"

definition sameFrame :: "TraceFrame \<Rightarrow> TraceFrame \<Rightarrow> bool" where
  "sameFrame a b \<longleftrightarrow> tfSkipped a = 0 \<and> tfSkipped b = 0 \<and> tfFunction a = tfFunction b \<and> tfFile a = tfFile b
     \<and> tfLine a = tfLine b \<and> tfColumn a = tfColumn b \<and> tfNative a = tfNative b \<and> tfBytecode a = tfBytecode b"

definition entry_of :: "Frame \<Rightarrow> TraceFrame" where
  "entry_of frame =
     \<lparr>tfFunction = frFunction frame, tfFile = frFile frame, tfLine = frLine frame, tfColumn = frColumn frame,
      tfNative = (frKind frame = NativeFrame \<or> isEngineFrame frame), tfBytecode = (frKind frame = BytecodeFrame),
      tfRepeat = 1, tfSkipped = 0, tfOrigin = None\<rparr>"

definition skipped_entry :: "int \<Rightarrow> TraceFrame" where
  "skipped_entry n =
     \<lparr>tfFunction = [], tfFile = [], tfLine = 0, tfColumn = 0, tfNative = False, tfBytecode = False, tfRepeat = 0,
      tfSkipped = n, tfOrigin = None\<rparr>"

definition read_line :: "TextLine \<Rightarrow> Trace \<Rightarrow> Trace" where
  "read_line line frames =
     (case tlFrame line of
        Some frame \<Rightarrow>
          (let entry = entry_of frame in
           if frames \<noteq> [] \<and> sameFrame (last frames) entry
           then butlast frames @ [(last frames)\<lparr>tfRepeat := tfRepeat (last frames) + 1\<rparr>]
           else frames @ [entry])
      | None \<Rightarrow> if tlSkipped line > 0 then frames @ [skipped_entry (tlSkipped line)] else frames)"

definition ReadTrace :: "string \<Rightarrow> Trace" where
  "ReadTrace stacktrace = fold read_line (ReadLines stacktrace) []"

section \<open>Source text around a position\<close>

definition contextLines :: int where "contextLines = 5"
definition maxContextLineRunes :: int where "maxContextLineRunes = 150"
definition trimmedLineRunes :: int where "trimmedLineRunes = 140"
definition maxContextSourceBytes :: uint32 where "maxContextSourceBytes = 4194304"

text \<open>\<^verbatim>\<open>[]rune(text)\<close>, each rune as the bytes that \<^verbatim>\<open>string\<close> turns it into again.\<close>

function text_runes :: "string \<Rightarrow> string list" where
  "text_runes [] = []"
| "text_runes (c # s) =
     (let n = rune_size (c # s) in
      if n = 0 then replacement_rune # text_runes s else take n (c # s) # text_runes (drop n (c # s)))"
  by pat_completeness auto
termination by (relation "measure length") auto

definition trimLine :: "string \<Rightarrow> int \<Rightarrow> string" where
  "trimLine text column =
     (let rs = text_runes text; n = int (length rs) in
      if n \<le> maxContextLineRunes then text
      else
        let start = max (min column n - 60) 0;
            start = (if start < 5 then 0 else start);
            stop = min (start + trimmedLineRunes) n;
            snapped = stop > n - 5;
            stop = (if snapped then n else stop);
            start = (if snapped then max (stop - trimmedLineRunes) 0 else start);
            trimmed = concat (take (nat (stop - start)) (drop (nat start) rs));
            trimmed = (if start > 0 then ellipsis @ trimmed else trimmed)
        in if stop < n then trimmed @ ellipsis else trimmed)"

text \<open>\<^verbatim>\<open>sourceLines\<close>: the lines of each source read so far; a nil slice is the empty list.\<close>

type_synonym sourceLines = "int \<Rightarrow> string list option"

definition read_source :: "MapIndex \<Rightarrow> int \<Rightarrow> string list" where
  "read_source index source =
     (case sourceText index source maxContextSourceBytes of
        Inr text \<Rightarrow> if text \<noteq> [] then split_on (CHR 0x0A) (TrimSuffix text [CHR 0x0A]) else []
      | Inl _ \<Rightarrow> [])"

definition context_of :: "string list \<Rightarrow> int \<Rightarrow> int \<Rightarrow> Context option" where
  "context_of lines line column =
     (if line < 1 \<or> line > int (length lines) then None
      else let first = max (line - contextLines) 1; stop = min (line + contextLines) (int (length lines)) in
        Some \<lparr>cxFirstLine = first,
              cxLines = map (\<lambda>text. trimLine text column) (take (nat (stop - (first - 1))) (drop (nat (first - 1)) lines))\<rparr>)"

definition around :: "MapIndex \<Rightarrow> int \<Rightarrow> int \<Rightarrow> int \<Rightarrow> sourceLines \<Rightarrow> Context option \<times> sourceLines" where
  "around index source line column seen =
     (case seen source of
        Some lines \<Rightarrow> (context_of lines line column, seen)
      | None \<Rightarrow> (let lines = read_source index source in (context_of lines line column, seen(source \<mapsto> lines))))"

section \<open>Mapping the frames\<close>

definition frame_position :: "MapIndex \<Rightarrow> Frame \<Rightarrow> Position option" where
  "frame_position index frame =
     (if frLine frame > MaxUint32 \<or> frColumn frame > MaxUint32 then None
      else case (if frKind frame = BytecodeFrame then Lookup index 0 (word_of_int (frColumn frame))
                 else if frLine frame > 0 \<and> frColumn frame > 0
                 then Lookup index (word_of_int (frLine frame - 1)) (word_of_int (frColumn frame - 1))
                 else Inr None) of
             Inl _ \<Rightarrow> None
           | Inr found \<Rightarrow> found)"

definition originOf :: "MapIndex \<Rightarrow> Frame \<Rightarrow> sourceLines \<Rightarrow> Origin option \<times> sourceLines" where
  "originOf index frame sources =
     (case frame_position index frame of
        None \<Rightarrow> (None, sources)
      | Some pos \<Rightarrow>
          let origin = \<lparr>orSource = posSource pos, orLine = posLine pos, orColumn = posColumn pos, orName = posName pos,
                        orInApp = (\<not> posIgnored pos), orContext = None\<rparr> in
          if orInApp origin then
            (case around index (posSourceIndex pos) (posLine pos) (posColumn pos) sources of
               (context, sources) \<Rightarrow> (Some (origin\<lparr>orContext := context\<rparr>), sources))
          else (Some origin, sources))"

type_synonym originTable = "Frame \<Rightarrow> Origin option option"

definition frame_key :: "TraceFrame \<Rightarrow> Frame" where
  "frame_key frame = \<lparr>frKind = (if tfBytecode frame then BytecodeFrame else SourceFrame), frFunction = [], frFile = tfFile frame,
     frLine = tfLine frame, frColumn = tfColumn frame\<rparr>"

definition symbolicate_frame :: "MapIndex \<Rightarrow> TraceFrame \<Rightarrow> sourceLines \<times> originTable \<Rightarrow> TraceFrame \<times> sourceLines \<times> originTable" where
  "symbolicate_frame index frame st =
     (case st of (sources, origins) \<Rightarrow>
      if tfNative frame \<or> tfSkipped frame > 0 then (frame, sources, origins)
      else let key = frame_key frame in
        case origins key of
          Some origin \<Rightarrow> (frame\<lparr>tfOrigin := origin\<rparr>, sources, origins)
        | None \<Rightarrow> (case originOf index key sources of (origin, sources) \<Rightarrow>
                    (frame\<lparr>tfOrigin := origin\<rparr>, sources, origins(key \<mapsto> origin))))"

fun symbolicate_frames :: "MapIndex \<Rightarrow> Trace \<Rightarrow> sourceLines \<times> originTable \<Rightarrow> Trace" where
  "symbolicate_frames index [] st = []"
| "symbolicate_frames index (frame # frames) st =
     (case symbolicate_frame index frame st of (frame, st) \<Rightarrow> frame # symbolicate_frames index frames st)"

definition Symbolicate :: "MapIndex option \<Rightarrow> string \<Rightarrow> Trace" where
  "Symbolicate index stacktrace =
     (let trace = ReadTrace stacktrace in
      case index of None \<Rightarrow> trace | Some index \<Rightarrow> symbolicate_frames index trace (\<lambda>_. None, \<lambda>_. None))"

section \<open>Grouping\<close>

definition uuid_re :: re where
  "uuid_re = (let hex = Cls hex_class; dash = Chr (CHR ''-'') in
     seq [Times 8 hex, dash, Times 4 hex, dash, Times 4 hex, dash, Times 4 hex, dash, Times 12 hex])"

definition messageVariables :: "(re \<times> string) list" where
  "messageVariables =
     [(uuid_re, ''<uuid>''),
      (seq [Lit ''http'', Opt (Chr (CHR ''s'')), Lit ''://'', Plus (Cls (\<lambda>c. \<not> space_class c))], ''<url>''),
      (Seq (Lit ''0x'') (Plus (Cls hex_class)), ''<hex>''),
      (Alt (seq [Chr (CHR 0x27), Star (Cls (\<lambda>c. c \<noteq> CHR 0x27)), Chr (CHR 0x27)])
           (seq [Chr (CHR 0x22), Star (Cls (\<lambda>c. c \<noteq> CHR 0x22)), Chr (CHR 0x22)]), ''<str>''),
      (digits, ''<num>'')]"

definition NormalizeMessage :: "string \<Rightarrow> string" where
  "NormalizeMessage message = fold (\<lambda>(r, placeholder) message. ReplaceAllString r message placeholder) messageVariables message"

text \<open>\<^verbatim>\<open>Fingerprint\<close>: the digest of the parts, each behind its length in eight little-endian bytes.\<close>

definition length_prefixed :: "string \<Rightarrow> string" where
  "length_prefixed part = map (\<lambda>i. char_of (length part div 256 ^ i)) [0..<8] @ part"

definition Fingerprint :: "(string \<Rightarrow> string) \<Rightarrow> string list \<Rightarrow> string" where
  "Fingerprint sha256 parts = take 16 (sha256 (concat (map length_prefixed parts)))"

text \<open>\<^verbatim>\<open>strings.Fields\<close>: the words between white space.\<close>

function fields_loop :: "string \<Rightarrow> string \<Rightarrow> string list" where
  "fields_loop word [] = (if word = [] then [] else [word])"
| "fields_loop word (c # s) =
     (case leading_space space_runes (c # s) of
        Some r \<Rightarrow> (if word = [] then [] else [word]) @ fields_loop [] (drop (max 1 (length r)) (c # s))
      | None \<Rightarrow> (let n = max 1 (rune_size (c # s)) in fields_loop (word @ take n (c # s)) (drop n (c # s))))"
  by pat_completeness auto
termination by (relation "measure (\<lambda>(w, s). length s)") auto

definition Fields :: "string \<Rightarrow> string list" where
  "Fields s = fields_loop [] s"

definition maxGroupingLineRunes :: nat where "maxGroupingLineRunes = 120"

text \<open>\<^verbatim>\<open>originKey\<close> indexes the context with the line of the origin, which \<open>context_line_in_range\<close> shows to be in it.\<close>

definition originKey :: "TraceFrame \<Rightarrow> Origin \<Rightarrow> string" where
  "originKey frame origin =
     (let named = (if orName origin \<noteq> [] then orName origin else tfFunction frame) in
      case orContext origin of
        None \<Rightarrow> named
      | Some context \<Rightarrow>
          let line = Join (Fields (cxLines context ! nat (orLine origin - cxFirstLine context))) '' '' in
          if line \<noteq> [] \<and> length (text_runes line) \<le> maxGroupingLineRunes then line else named)"

definition group_key :: "TraceFrame \<Rightarrow> string" where
  "group_key frame =
     (case tfOrigin frame of
        Some origin \<Rightarrow> base_name (orSource origin) @ '' '' @ originKey frame origin
      | None \<Rightarrow> tfFunction frame @ '' '' @ base_name (tfFile frame))"

definition add_key :: "(TraceFrame \<Rightarrow> bool) \<Rightarrow> TraceFrame \<Rightarrow> string list \<Rightarrow> string list" where
  "add_key keep frame keys =
     (if \<not> keep frame then keys
      else let key = group_key frame in if keys \<noteq> [] \<and> last keys = key then keys else keys @ [key])"

definition groupKeys :: "Trace \<Rightarrow> (TraceFrame \<Rightarrow> bool) \<Rightarrow> string list" where
  "groupKeys trace keep = fold (add_key keep) trace []"

definition in_app :: "TraceFrame \<Rightarrow> bool" where
  "in_app frame \<longleftrightarrow> (case tfOrigin frame of Some origin \<Rightarrow> orInApp origin | None \<Rightarrow> False)"

definition GroupFingerprint :: "(string \<Rightarrow> string) \<Rightarrow> string \<Rightarrow> string \<Rightarrow> Trace \<Rightarrow> string" where
  "GroupFingerprint sha256 errorType message trace =
     (let frames = groupKeys trace in_app;
          frames = (if frames = [] then groupKeys trace (\<lambda>frame. tfOrigin frame \<noteq> None) else frames);
          frames = (if frames = [] then groupKeys trace (\<lambda>frame. \<not> tfNative frame \<and> tfSkipped frame = 0) else frames)
      in if frames = [] then Fingerprint sha256 [errorType, NormalizeMessage message]
         else Fingerprint sha256 (errorType # frames))"

fun Culprit :: "Trace \<Rightarrow> string" where
  "Culprit [] = []"
| "Culprit (frame # frames) =
     (case tfOrigin frame of
        Some origin \<Rightarrow>
          if \<not> orInApp origin then Culprit frames
          else let fn = (if orName origin = [] then tfFunction frame else orName origin) in
            if fn = [] then base_name (orSource origin) else base_name (orSource origin) @ '' in '' @ fn
      | None \<Rightarrow> Culprit frames)"

end
