(* ===== verification/SymTrace.thy ===== *)
theory SymTrace
  imports Symbolicate
begin

text \<open>
  What the mapping of a stack trace promises: the memo tables do not change the answer, every frame is mapped to the
  position the source map gives, no frame is lost when recursions are folded, and the fingerprint of an error is
  computed from an unambiguous encoding of its parts.
\<close>

section \<open>Memo tables\<close>

definition frame_origin :: "MapIndex \<Rightarrow> Frame \<Rightarrow> Origin option" where
  "frame_origin index frame = fst (originOf index frame (\<lambda>_. None))"

definition sources_ok :: "MapIndex \<Rightarrow> sourceLines \<Rightarrow> bool" where
  "sources_ok index seen \<longleftrightarrow> (\<forall>source lines. seen source = Some lines \<longrightarrow> lines = read_source index source)"

definition origins_ok :: "MapIndex \<Rightarrow> originTable \<Rightarrow> bool" where
  "origins_ok index origins \<longleftrightarrow> (\<forall>key origin. origins key = Some origin \<longrightarrow> origin = frame_origin index key)"

lemma around_memo:
  assumes "sources_ok index seen"
  shows "fst (around index source line column seen) = context_of (read_source index source) line column"
    "sources_ok index (snd (around index source line column seen))"
  using assms by (auto simp: around_def sources_ok_def Let_def split: option.splits)

lemma originOf_memo:
  assumes "sources_ok index seen"
  shows "fst (originOf index frame seen) = frame_origin index frame" "sources_ok index (snd (originOf index frame seen))"
  using assms around_memo [OF assms] around_memo(1) [of index "\<lambda>_. None"]
  by (auto simp: originOf_def frame_origin_def sources_ok_def Let_def split: option.splits prod.splits)
     (metis fst_conv snd_conv)+

definition mapped :: "MapIndex \<Rightarrow> TraceFrame \<Rightarrow> TraceFrame" where
  "mapped index frame =
     (if tfNative frame \<or> tfSkipped frame > 0 then frame else frame\<lparr>tfOrigin := frame_origin index (frame_key frame)\<rparr>)"

lemma symbolicate_frame_memo:
  assumes "sources_ok index sources" "origins_ok index origins" "symbolicate_frame index frame (sources, origins) = (frame', st)"
  shows "frame' = mapped index frame \<and> sources_ok index (fst st) \<and> origins_ok index (snd st)"
  using assms originOf_memo [OF assms(1), of "frame_key frame"]
  by (auto simp: symbolicate_frame_def mapped_def origins_ok_def Let_def split: if_splits option.splits prod.splits)

lemma symbolicate_frames_memo:
  "sources_ok index (fst st) \<Longrightarrow> origins_ok index (snd st) \<Longrightarrow> symbolicate_frames index frames st = map (mapped index) frames"
proof (induction frames arbitrary: st)
  case (Cons frame frames)
  obtain frame' st' where step: "symbolicate_frame index frame st = (frame', st')"
    by (cases "symbolicate_frame index frame st") simp
  then show ?case
    using symbolicate_frame_memo [of index "fst st" "snd st" frame frame' st'] Cons by simp
qed simp

lemma Symbolicate_pointwise: "Symbolicate (Some index) stacktrace = map (mapped index) (ReadTrace stacktrace)"
  by (simp add: Symbolicate_def symbolicate_frames_memo sources_ok_def origins_ok_def)

section \<open>Context\<close>

lemma context_of_Some:
  assumes "context_of lines line column = Some cx"
  shows "1 \<le> line" "line \<le> int (length lines)" "cxFirstLine cx \<le> line" "nat (line - cxFirstLine cx) < length (cxLines cx)"
    "cxLines cx ! nat (line - cxFirstLine cx) = trimLine (lines ! nat (line - 1)) column"
proof -
  let ?first = "max (line - contextLines) 1" and ?stop = "min (line + contextLines) (int (length lines))"
  let ?window = "take (nat (?stop - (?first - 1))) (drop (nat (?first - 1)) lines)"
  have line: "1 \<le> line" "line \<le> int (length lines)"
    and cx: "cx = \<lparr>cxFirstLine = ?first, cxLines = map (\<lambda>text. trimLine text column) ?window\<rparr>"
    using assms by (auto simp: context_of_def Let_def split: if_splits)
  have inside: "nat (line - ?first) < length ?window"
    using line by (auto simp: contextLines_def)
  moreover have "nat (?first - 1) + nat (line - ?first) = nat (line - 1)"
    using line by (auto simp: contextLines_def)
  moreover have "nat (?first - 1) \<le> length lines"
    using line by (auto simp: contextLines_def)
  ultimately have "?window ! nat (line - ?first) = lines ! nat (line - 1)"
    by (simp add: nth_drop)
  then show "1 \<le> line" "line \<le> int (length lines)" "cxFirstLine cx \<le> line"
    "nat (line - cxFirstLine cx) < length (cxLines cx)"
    "cxLines cx ! nat (line - cxFirstLine cx) = trimLine (lines ! nat (line - 1)) column"
    using line inside cx by (auto simp: contextLines_def)
qed

lemma frame_origin_position:
  "frame_origin index frame =
     map_option (\<lambda>pos. \<lparr>orSource = posSource pos, orLine = posLine pos, orColumn = posColumn pos, orName = posName pos,
                        orInApp = (\<not> posIgnored pos),
                        orContext = (if posIgnored pos then None
                                     else context_of (read_source index (posSourceIndex pos)) (posLine pos) (posColumn pos))\<rparr>)
       (frame_position index frame)"
  using around_memo(1) [of index "\<lambda>_. None"]
  by (auto simp: frame_origin_def originOf_def sources_ok_def Let_def split: option.splits prod.splits) (metis fst_conv)+

lemma context_line_in_range:
  assumes "frame \<in> set (Symbolicate (Some index) stacktrace)" "tfOrigin frame = Some origin" "orContext origin = Some cx"
  shows "cxFirstLine cx \<le> orLine origin \<and> nat (orLine origin - cxFirstLine cx) < length (cxLines cx)"
proof -
  have unread: "tfOrigin f = None" if "f \<in> set (ReadTrace stacktrace)" for f
  proof -
    have "list_all (\<lambda>f. tfOrigin f = None) (fold read_line lines frames)" if "list_all (\<lambda>f. tfOrigin f = None) frames" for lines frames
      using that
    proof (induction lines arbitrary: frames)
      case (Cons line lines)
      have "list_all (\<lambda>f. tfOrigin f = None) (read_line line frames)"
        using Cons.prems by (cases frames rule: rev_cases)
          (auto simp: read_line_def entry_of_def skipped_entry_def Let_def split: option.splits)
      then show ?case
        using Cons.IH by simp
    qed simp
    from this [of "[]" "ReadLines stacktrace"] show ?thesis
      using that by (simp add: ReadTrace_def list_all_iff)
  qed
  obtain f where f: "f \<in> set (ReadTrace stacktrace)" "frame = mapped index f"
    using assms(1) by (auto simp: Symbolicate_pointwise)
  then have "frame_origin index (frame_key f) = Some origin"
    using assms(2) unread [OF f(1)] by (auto simp: mapped_def split: if_splits)
  then obtain lines line column where "context_of lines line column = Some cx" "orLine origin = line"
    using assms(3) by (auto simp: frame_origin_position split: if_splits)
  then show ?thesis
    using context_of_Some(3,4) by blast
qed

section \<open>Folded recursions\<close>

definition frame_lines :: "TextLine list \<Rightarrow> nat" where
  "frame_lines lines = length (filter (\<lambda>l. tlFrame l \<noteq> None) lines)"

lemma read_line_repeat:
  "sum_list (map tfRepeat (read_line line frames)) = sum_list (map tfRepeat frames) + (if tlFrame line = None then 0 else 1)"
  by (cases frames rule: rev_cases) (auto simp: read_line_def entry_of_def skipped_entry_def Let_def split: option.splits)

lemma ReadTrace_repeat: "sum_list (map tfRepeat (ReadTrace stacktrace)) = int (frame_lines (ReadLines stacktrace))"
proof -
  have "sum_list (map tfRepeat (fold read_line lines frames)) = sum_list (map tfRepeat frames) + int (frame_lines lines)" for lines frames
    by (induction lines arbitrary: frames) (simp_all add: read_line_repeat frame_lines_def)
  then show ?thesis
    by (simp add: ReadTrace_def)
qed

section \<open>Fingerprints\<close>

definition length_bytes :: "nat \<Rightarrow> string" where
  "length_bytes n = map (\<lambda>i. char_of (n div 256 ^ i)) [0..<8]"

lemma length_prefixed_bytes: "length_prefixed part = length_bytes (length part) @ part"
  by (simp add: length_prefixed_def length_bytes_def del: upt_rec_numeral)

lemma length_length_bytes: "length (length_bytes n) = 8"
  by (simp add: length_bytes_def del: upt_rec_numeral)

lemma length_bytes_digit: "i < 8 \<Longrightarrow> of_char (length_bytes n ! i) = n div 256 ^ i mod (256 :: nat)"
  by (simp add: length_bytes_def del: upt_rec_numeral)

lemma length_bytes_inj:
  assumes "length_bytes a = length_bytes b" "a < 2 ^ 64" "b < 2 ^ 64"
  shows "a = b"
proof -
  have "a mod 256 ^ n = b mod 256 ^ n" if "n \<le> 8" for n
    using that
  proof (induction n)
    case (Suc n)
    then have "a div 256 ^ n mod 256 = b div 256 ^ n mod 256"
      using length_bytes_digit [of n a] length_bytes_digit [of n b] assms(1) by simp
    then show ?case
      using Suc mod_mult2_eq [of a "256 ^ n" 256] mod_mult2_eq [of b "256 ^ n" 256] by (simp add: mult.commute)
  qed simp
  from this [of 8] show ?thesis
    using assms(2,3) by simp
qed

lemma length_prefix_unique:
  assumes "length a < 2 ^ 64" "length b < 2 ^ 64" "length_prefixed a @ r = length_prefixed b @ s"
  shows "a = b \<and> r = s"
proof -
  have "length_bytes (length a) = length_bytes (length b)" and rest: "a @ r = b @ s"
    using assms(3) by (simp_all add: length_prefixed_bytes append_eq_append_conv length_length_bytes)
  then have "length a = length b"
    using assms(1,2) by (intro length_bytes_inj)
  then show ?thesis
    using rest by simp
qed

lemma length_prefixed_not_Nil [simp]: "length_prefixed part \<noteq> []"
  using length_length_bytes [of "length part"] by (auto simp: length_prefixed_bytes)

lemma prefixed_parts_inj:
  assumes "\<And>p. p \<in> set ps \<Longrightarrow> length p < 2 ^ 64" "\<And>q. q \<in> set qs \<Longrightarrow> length q < 2 ^ 64"
    "concat (map length_prefixed ps) = concat (map length_prefixed qs)"
  shows "ps = qs"
  using assms
proof (induction ps arbitrary: qs)
  case Nil
  from Nil.prems(3) show ?case
    by (cases qs) auto
next
  case (Cons p ps)
  from Cons.prems(3) obtain q qs' where qs: "qs = q # qs'"
    by (cases qs) auto
  have "p = q \<and> concat (map length_prefixed ps) = concat (map length_prefixed qs')"
    by (rule length_prefix_unique [OF Cons.prems(1) Cons.prems(2)]) (use Cons.prems(3) qs in simp_all)
  moreover have "ps = qs'"
    by (rule Cons.IH [OF Cons.prems(1) Cons.prems(2)]) (use calculation qs in simp_all)
  ultimately show ?case
    using qs by simp
qed

section \<open>Lines that stand for frames left out\<close>

lemma digit_class_is_digit: "is_digit c \<Longrightarrow> digit_class c"
  by (auto simp: is_digit_def digit_class_def)

lemma format_nat_length: "n < 10 ^ Suc k \<Longrightarrow> length (format_nat n) \<le> Suc k"
proof (induction n arbitrary: k rule: format_nat.induct)
  case (1 n)
  show ?case
  proof (cases "n < 10")
    case True
    then show ?thesis
      by (subst format_nat.simps) simp
  next
    case False
    then obtain j where k: "k = Suc j"
      using "1.prems" by (cases k) auto
    then have "length (format_nat (n div 10)) \<le> Suc j"
      using "1.prems" False by (intro "1.IH") auto
    then show ?thesis
      using False k by (subst format_nat.simps) simp
  qed
qed

lemma skipped_line_matches:
  "FindSubmatch (hd skippedFramesPatterns) (''    ... skipping '' @ format_nat n @ '' frames'') = Some ((\<lambda>_. [])(1 := format_nat n))"
proof (rule FindSubmatch_first)
  let ?ds = "format_nat n"
  have ds: "list_all digit_class ?ds" "?ds \<noteq> []"
    using format_nat_digits [of n] digit_class_is_digit by (auto simp: list_all_iff)
  have 1: "first_run (Star (Cls space_class)) (''    '' @ ''... skipping '' @ ?ds @ '' frames'') m (''... skipping '' @ ?ds @ '' frames'') m" for m
    by (rule first_Star) (simp_all add: space_class_def)
  have 2: "first_run (Lit ''... skipping '') (''... skipping '' @ ?ds @ '' frames'') m (?ds @ '' frames'') m" for m
    by (rule first_Lit)
  have "first_run (Plus (Cls digit_class)) (?ds @ '' frames'') m '' frames'' m" for m
    by (rule first_Plus) (use ds in \<open>simp_all add: digit_class_def\<close>)
  from first_Group [OF this, of 1] have 3: "first_run (Group 1 (Plus (Cls digit_class))) (?ds @ '' frames'') m '' frames'' (m(1 := ?ds))" for m
    by simp
  have 4: "first_run (Lit '' frames'') '' frames'' m [] m" for m
    using first_Lit [of "'' frames''" "[]"] by simp
  show "first_run (hd skippedFramesPatterns) (''    ... skipping '' @ ?ds @ '' frames'') (\<lambda>_. []) [] ((\<lambda>_. [])(1 := ?ds))"
    using first_Seq [OF 1 first_Seq [OF 2 first_Seq [OF 3 4]]]
    by (simp add: skippedFramesPatterns_def)
qed

lemma skipped_line_short: "0 \<le> n \<Longrightarrow> n < 2 ^ 63 \<Longrightarrow> length (SkippedFramesLine n) \<le> maxFrameLineBytes"
proof -
  assume n: "0 \<le> n" "n < 2 ^ 63"
  then have "nat n < 10 ^ Suc 18"
    by simp
  then show ?thesis
    using format_nat_length [of "nat n" 18] n by (simp add: SkippedFramesLine_def FormatInt_def maxFrameLineBytes_def)
qed

lemma skipped_line_read: "0 \<le> n \<Longrightarrow> n < 2 ^ 63 \<Longrightarrow> SkippedFrames (SkippedFramesLine n) = Some n"
proof -
  assume n: "0 \<le> n" "n < 2 ^ 63"
  have line: "SkippedFramesLine n = ''    ... skipping '' @ format_nat (nat n) @ '' frames''"
    using n by (simp add: SkippedFramesLine_def FormatInt_def)
  have pats: "skippedFramesPatterns = hd skippedFramesPatterns # tl skippedFramesPatterns"
    by (simp add: skippedFramesPatterns_def)
  have "first_format (map (\<lambda>r. (r, \<lambda>m. atoi (m 1))) skippedFramesPatterns) (SkippedFramesLine n) = Some n"
    by (subst pats, simp only: list.map first_format.simps line skipped_line_matches)
       (use n in \<open>simp add: atoi_def\<close>)
  then show ?thesis
    using skipped_line_short [OF n] by (simp add: SkippedFrames_def)
qed

text \<open>No format of a frame ends in the letter the line ends in.\<close>

lemma frame_formats_end:
  "(r, f) \<in> set frameFormats \<Longrightarrow> ends (\<lambda>c. c = CHR '')'' \<or> c = CHR '']'' \<or> hex_class c) r"
proof -
  let ?P = "\<lambda>c. c = CHR '')'' \<or> c = CHR '']'' \<or> hex_class c"
  have digits_end: "ends ?P digits"
    by (intro ends_Plus ends_Cls) (simp add: hex_class_def)
  have "ends ?P hermes_re" "ends ?P java_re"
    unfolding hermes_re_def java_re_def seq.simps by (intro ends_Seq ends_Chr, simp)+
  moreover have "ends ?P v8_re" "ends ?P jsc_re"
    unfolding v8_re_def jsc_re_def seq.simps by (intro ends_Seq ends_Group digits_end)+
  moreover have "ends ?P jsc_native_re"
    unfolding jsc_native_re_def seq.simps by (intro ends_Seq ends_Lit) simp_all
  moreover have "ends ?P address_re"
    unfolding address_re_def by (intro ends_Seq ends_Plus ends_Cls) simp
  moreover have "ends ?P ios_re"
    unfolding ios_re_def seq.simps by (rule ends_Seq, rule ends_Seq, rule ends_Seq, rule ends_Opt [OF digits_end], rule ends_Chr) simp
  ultimately show "(r, f) \<in> set frameFormats \<Longrightarrow> ends ?P r"
    by (auto simp: frameFormats_def)
qed

lemma no_format: "(\<And>r f. (r, f) \<in> set formats \<Longrightarrow> FindSubmatch r line = None) \<Longrightarrow> first_format formats line = None"
proof (induction formats)
  case (Cons p formats)
  obtain r f where p: "p = (r, f)"
    by (cases p)
  have "FindSubmatch r line = None"
    using Cons.prems [of r f] p by simp
  moreover have "first_format formats line = None"
    using Cons by auto
  ultimately show ?case
    using p by simp
qed simp

lemma skipped_line_no_frame: "ParseFrame (SkippedFramesLine n) = None"
proof -
  have "last (SkippedFramesLine n) = CHR ''s''"
    by (simp add: SkippedFramesLine_def)
  then have "FindSubmatch r (SkippedFramesLine n) = None" if "(r, f) \<in> set frameFormats" for r f
    using FindSubmatch_None [OF frame_formats_end [OF that]] by (simp add: hex_class_def digit_class_def)
  then show ?thesis
    using no_format by (auto simp: ParseFrame_def)
qed

text \<open>A line written for frames left out is read as such, never as a frame.\<close>

lemma skipped_line_round_trip:
  "0 \<le> n \<Longrightarrow> n < 2 ^ 63 \<Longrightarrow>
     ReadLines (SkippedFramesLine n) = [\<lparr>tlText = SkippedFramesLine n, tlFrame = None, tlSkipped = n\<rparr>]"
proof -
  assume n: "0 \<le> n" "n < 2 ^ 63"
  have "CHR 0x0A \<notin> set (format_nat k)" for k
    using format_nat_digits [of k] by (auto simp: list_all_iff is_digit_def)
  then have "CHR 0x0A \<notin> set (SkippedFramesLine n)"
    using n by (simp add: SkippedFramesLine_def FormatInt_def)
  then show ?thesis
    using skipped_line_no_frame [of n] skipped_line_read [OF n] by (simp add: ReadLines_def split_on_id)
qed

section \<open>A trace mapped through the source map\<close>

text \<open>The origin of a frame, read off the map: the position of its segment and the lines of the source around it.  The
  text of a source is shown up to four megabytes.\<close>

definition map_frame_position :: "SourceMap \<Rightarrow> Frame \<Rightarrow> Position option" where
  "map_frame_position m frame =
     (if frLine frame > MaxUint32 \<or> frColumn frame > MaxUint32 then None
      else if frKind frame = BytecodeFrame then map_lookup m 0 (word_of_int (frColumn frame))
      else if frLine frame > 0 \<and> frColumn frame > 0
      then map_lookup m (word_of_int (frLine frame - 1)) (word_of_int (frColumn frame - 1))
      else None)"

definition map_source_lines :: "SourceMap \<Rightarrow> int \<Rightarrow> string list" where
  "map_source_lines m source =
     (let text = SourcesContent m ! nat source in
      if text = [] \<or> length text > 4194304 then [] else split_on (CHR 0x0A) (TrimSuffix text [CHR 0x0A]))"

text \<open>The lines shown around a position: those of the source at most five lines away, each trimmed around the column.\<close>

definition map_context :: "string list \<Rightarrow> int \<Rightarrow> int \<Rightarrow> Context option" where
  "map_context lines line column =
     (let near = filter (\<lambda>k. \<bar>int k - line\<bar> \<le> 5) [1..<length lines + 1] in
      if 1 \<le> line \<and> line \<le> int (length lines)
      then Some \<lparr>cxFirstLine = int (hd near), cxLines = map (\<lambda>k. trimLine (lines ! (k - 1)) column) near\<rparr>
      else None)"

lemma filter_upt: "filter (\<lambda>k. a \<le> k \<and> k < b) [i..<j] = [max a i..<min b j]"
  by (rule sorted_distinct_set_unique) (auto intro: sorted_wrt_filter)

lemma context_of_map_context: "context_of lines line column = map_context lines line column"
proof (cases "1 \<le> line \<and> line \<le> int (length lines)")
  case True
  define first stop where "first = nat (max (line - 5) 1)" and "stop = nat (min (line + 5) (int (length lines)))"
  have bounds: "1 \<le> first" "first \<le> stop" "stop \<le> length lines" "int first = max (line - 5) 1" "int stop = min (line + 5) (int (length lines))"
    using True by (auto simp: first_def stop_def)
  have "filter (\<lambda>k. \<bar>int k - line\<bar> \<le> 5) [1..<length lines + 1] = filter (\<lambda>k. first \<le> k \<and> k < stop + 1) [1..<length lines + 1]"
    using True by (intro filter_cong) (auto simp: first_def stop_def)
  also have "\<dots> = [first..<stop + 1]"
    unfolding filter_upt using bounds by simp
  finally have near: "filter (\<lambda>k. \<bar>int k - line\<bar> \<le> 5) [1..<length lines + 1] = [first..<stop + 1]" .
  have shown: "take (nat (int stop - (int first - 1))) (drop (nat (int first - 1)) lines) = map (\<lambda>k. lines ! (k - 1)) [first..<stop + 1]"
    using bounds(1-3) by (subst list_eq_iff_nth_eq) (auto simp: nat_diff_distrib' simp del: upt_Suc)
  show ?thesis
    unfolding context_of_def map_context_def near Let_def contextLines_def
    using True shown bounds by (simp add: hd_upt del: upt_Suc)
qed (auto simp: context_of_def map_context_def)

definition map_origin :: "SourceMap \<Rightarrow> Frame \<Rightarrow> Origin option" where
  "map_origin m frame =
     map_option (\<lambda>pos. \<lparr>orSource = posSource pos, orLine = posLine pos, orColumn = posColumn pos, orName = posName pos,
                        orInApp = (\<not> posIgnored pos),
                        orContext = (if posIgnored pos then None
                                     else map_context (map_source_lines m (posSourceIndex pos)) (posLine pos) (posColumn pos))\<rparr>)
       (map_frame_position m frame)"

lemma map_lookup_source: "map_lookup m line column = Some pos \<Longrightarrow> 0 \<le> posSourceIndex pos \<and> nat (posSourceIndex pos) < length (Sources m)"
  unfolding map_lookup_def by (auto simp: map_position_def split: option.splits if_splits)

lemma read_source_opened:
  assumes "indexable m" "i < length (Sources m)"
  shows "read_source (opened m) (int i) = map_source_lines m (int i)"
proof (cases "length (SourcesContent m ! i) \<le> 4194304")
  case True
  then show ?thesis
    using sourceText_written [OF assms, of maxContextSourceBytes]
    by (simp add: read_source_def map_source_lines_def maxContextSourceBytes_def)
next
  case False
  then show ?thesis
    using sourceText_too_large [OF assms, of maxContextSourceBytes]
    by (cases "sourceText (opened m) (int i) maxContextSourceBytes")
      (simp_all add: read_source_def map_source_lines_def maxContextSourceBytes_def)
qed

lemma frame_position_opened:
  "indexable m \<Longrightarrow> sorted (map place (Segments m)) \<Longrightarrow> frame_position (opened m) frame = map_frame_position m frame"
  by (simp add: frame_position_def map_frame_position_def Lookup_written)

lemma frame_origin_opened:
  assumes "indexable m" "sorted (map place (Segments m))"
  shows "frame_origin (opened m) frame = map_origin m frame"
proof -
  have "read_source (opened m) (posSourceIndex pos) = map_source_lines m (posSourceIndex pos)"
    if "map_frame_position m frame = Some pos" for pos
    using that map_lookup_source read_source_opened [OF assms(1), of "nat (posSourceIndex pos)"]
    by (fastforce simp: map_frame_position_def split: if_splits)
  then show ?thesis
    by (cases "map_frame_position m frame") (simp_all add: frame_origin_position map_origin_def frame_position_opened [OF assms] context_of_map_context)
qed

text \<open>C24: a stack trace is mapped as its source map says.  When the index written for a parsed map is opened again,
  \<^verbatim>\<open>Symbolicate\<close> leaves native frames and counts of skipped frames alone and gives every other frame the origin the
  map determines, with the lines around it; its memo tables for sources and frames change nothing, and every line
  shown as context exists.\<close>

theorem trace_mapped:
  assumes "parseMap unmarshal ctx data maxSegmentBytes = Inr m" "IndexSize m \<le> maxIndexCacheBytes"
    "WriteIndex buffer_Write m [] = (Inr (), bytes)" "OpenIndex bytes = Inr x"
  shows "Symbolicate (Some x) stacktrace =
    map (\<lambda>frame. if tfNative frame \<or> tfSkipped frame > 0 then frame else frame\<lparr>tfOrigin := map_origin m (frame_key frame)\<rparr>)
      (ReadTrace stacktrace)"
proof -
  have bytes: "bytes = index_file m" "sorted (map place (Segments m))"
    using assms(3) by (auto simp: WriteIndex_buffer SliceIsSorted_places split: if_splits)
  have m: "indexable m"
    using parseMap_indexable [OF assms(1,2)] .
  have "x = opened m"
    using OpenIndex_written [OF m] assms(4) bytes(1) by simp
  then show ?thesis
    by (simp add: Symbolicate_pointwise mapped_def [abs_def] frame_origin_opened [OF m bytes(2)])
qed

definition demo_trace :: string where
  "demo_trace = ''at main (app.bundle:1:3)''"

definition demo_entry :: TraceFrame where
  "demo_entry = \<lparr>tfFunction = ''main'', tfFile = ''app.bundle'', tfLine = 1, tfColumn = 3, tfNative = False, tfBytecode = False,
     tfRepeat = 1, tfSkipped = 0, tfOrigin = None\<rparr>"

lemma demo_origin:
  "map_origin demo_map (frame_key demo_entry) =
     Some \<lparr>orSource = ''app.js'', orLine = 11, orColumn = 1, orName = ''main'', orInApp = True, orContext = None\<rparr>"
  by (simp add: map_origin_def map_frame_position_def frame_key_def demo_entry_def MaxUint32_def map_lookup_def segment_at_def
      segmentLess_def target_at_def demo_map_def map_position_def NoIndex_def map_source_lines_def map_context_def TrimSuffix_def
      HasSuffix_def)

theorem trace_mapped_witness:
  "Symbolicate (Some (opened demo_map)) demo_trace =
     map (\<lambda>frame. if tfNative frame \<or> tfSkipped frame > 0 then frame else frame\<lparr>tfOrigin := map_origin demo_map (frame_key frame)\<rparr>)
       (ReadTrace demo_trace)
   \<and> map_origin demo_map (frame_key demo_entry) =
     Some \<lparr>orSource = ''app.js'', orLine = 11, orColumn = 1, orName = ''main'', orInApp = True, orContext = None\<rparr>"
proof -
  have "OpenIndex (index_file demo_map) = Inr (opened demo_map)"
    using demo_parsed demo_size by (intro OpenIndex_written parseMap_indexable)
  then show ?thesis
    using trace_mapped [OF demo_parsed demo_size demo_written, of "opened demo_map" demo_trace] demo_origin by simp
qed

end
