(* ===== verification/Buckets.thy ===== *)
theory Buckets
  imports Validation Interfaces Base64
begin

text \<open>
  The layout of the updates bucket, \<^verbatim>\<open>src/internal/bucket\<close>, over a raw object store, \<^verbatim>\<open>src/internal/objectstore\<close>: one
  store for each kind of object, each owning its keys, the view of a store under a prefix, and the tokens that let an
  uploader write one key of a local directory.  A file is its bytes; a body that is uploaded is the bytes it delivers
  and the error it ends with, if any.  The drivers for S3, GCS and Azure call third-party SDKs: a store is a record of
  its methods, and the laws a client relies on are a locale.  SHA-256, the JWT package, the Expo account of stateless
  mode, the clock and the URL of the upload route are parameters.
\<close>

section \<open>Raw stores\<close>

record body =
  bodyBytes :: string
  bodyError :: "err option"

record 's Store =
  stExists :: "string \<Rightarrow> ('s, bool) op"
  stGet :: "string \<Rightarrow> ('s, body option) op"
  stPut :: "string \<Rightarrow> body \<Rightarrow> ('s, unit) op"
  stDelete :: "string \<Rightarrow> ('s, unit) op"
  stDeletePrefix :: "string \<Rightarrow> ('s, unit) op"
  stCopy :: "string \<Rightarrow> string \<Rightarrow> ('s, unit) op"
  stList :: "string \<Rightarrow> ('s, string list) op"
  stListPrefixes :: "string \<Rightarrow> ('s, string list) op"
  stPresignPut :: "string \<Rightarrow> ('s, UploadRequest) op"

definition requirePrefix :: "string \<Rightarrow> err option" where
  "requirePrefix prefix =
     (if prefix = [] \<or> prefix = ''/'' then Some (ErrorText (Msg ''refusing to delete every object of the store'' [])) else None)"

definition ValidateKey :: "string \<Rightarrow> err option" where
  "ValidateKey key =
     (if key = [] then Some (ErrorText (Msg ''must not be empty'' []))
      else if CHR 0x5C \<in> set key then Some (ErrorText (Msg ''must not contain '' [[CHR 0x5C]]))
      else if HasPrefix key ''/'' then Some (ErrorText (Msg ''must not be absolute'' []))
      else if ''..'' \<in> set (split_on (CHR ''/'') key) then Some (ErrorText (Msg ''must not contain '..' segments'' []))
      else None)"

text \<open>\<^verbatim>\<open>WithPrefix\<close>, \<^verbatim>\<open>prefixed.go\<close>.\<close>

definition WithPrefix :: "'s Store \<Rightarrow> string \<Rightarrow> 's Store" where
  "WithPrefix store prefix =
     (if prefix = [] then store
      else \<lparr>stExists = (\<lambda>key. stExists store (prefix @ key)),
            stGet = (\<lambda>key. stGet store (prefix @ key)),
            stPut = (\<lambda>key b. stPut store (prefix @ key) b),
            stDelete = (\<lambda>key. stDelete store (prefix @ key)),
            stDeletePrefix = (\<lambda>p. bindE (guard (requirePrefix p)) (\<lambda>_. stDeletePrefix store (prefix @ p))),
            stCopy = (\<lambda>from to. stCopy store (prefix @ from) (prefix @ to)),
            stList = (\<lambda>p. bindE (stList store (prefix @ p)) (\<lambda>keys. ret (map (\<lambda>key. TrimPrefix key prefix) keys))),
            stListPrefixes = (\<lambda>p. stListPrefixes store (prefix @ p)),
            stPresignPut = (\<lambda>key. stPresignPut store (prefix @ key))\<rparr>)"

text \<open>\<^verbatim>\<open>filepath.Join\<close> drops empty names and \<^verbatim>\<open>.\<close>; the keys it is given have no \<^verbatim>\<open>..\<close>, and the root is taken without one.\<close>

definition key_path :: "string \<Rightarrow> string list" where
  "key_path key = filter (\<lambda>s. s \<noteq> [] \<and> s \<noteq> ''.'') (split_on (CHR ''/'') key)"

section \<open>Keys\<close>

definition blobHashLength :: nat where "blobHashLength = 43"

text \<open>\<^verbatim>\<open>RawURLEncoding.Strict()\<close> also refuses unused bits that are set; like the lenient decoder it skips line breaks.\<close>

definition strict_decode :: "string \<Rightarrow> string option" where
  "strict_decode s =
     (let kept = filter (\<lambda>c. c \<noteq> CHR 0x0D \<and> c \<noteq> CHR 0x0A) s in
      case base64_decode kept of None \<Rightarrow> None | Some b \<Rightarrow> if base64_encode b = kept then Some b else None)"

definition ValidateBlobHash :: "string \<Rightarrow> err option" where
  "ValidateBlobHash hash =
     (if length hash \<noteq> blobHashLength then Some (ErrorText (Msg ''invalid hash: must be %d characters'' [format_nat blobHashLength]))
      else if strict_decode hash = None then Some (ErrorText (Msg ''invalid hash: must be canonical base64url'' []))
      else None)"

definition validateRelativePath :: "string \<Rightarrow> string \<Rightarrow> err option" where
  "validateRelativePath name path = map_option (Wrapped (Msg ''invalid %s: %w'' [name])) (ValidateKey path)"

definition ValidateUploadFile :: "string \<Rightarrow> string \<Rightarrow> err option" where
  "ValidateUploadFile name hash =
     (case validateRelativePath ''file name'' name of Some e \<Rightarrow> Some e | None \<Rightarrow> ValidateBlobHash hash)"

text \<open>\<^verbatim>\<open>uuid.Parse\<close> is a parameter that answers the canonical spelling.\<close>

definition validateUpdateUUID :: "(string \<Rightarrow> string option) \<Rightarrow> string \<Rightarrow> string \<Rightarrow> err option" where
  "validateUpdateUUID uuid_parse name u =
     (if uuid_parse u = Some u then None
      else Some (ErrorText (Msg ''invalid %s: must be a canonical lowercase UUID'' [name])))"

section \<open>Upload tokens\<close>

record uploadClaims =
  ucSubject :: string
  ucExpiresAt :: int
  ucKey :: string
  ucAction :: string
  ucAppID :: string
  ucBranch :: string

text \<open>What the process has: the database mode, the secret, the clock in nanoseconds, and the packages.\<close>

record uploadEnv =
  ueDBMode :: bool
  ueSelfUsername :: "string \<Rightarrow> string"
  ueSign :: "uploadClaims \<Rightarrow> string option"
  ueVerify :: "int \<Rightarrow> string \<Rightarrow> uploadClaims option"
  ueUploadURL :: "string \<Rightarrow> string option"
  ueSha256 :: "string \<Rightarrow> string"

definition LocalUploadTokenHeader :: string where
  "LocalUploadTokenHeader = ''local-upload-token''"

definition GetSubjectForApp :: "uploadEnv \<Rightarrow> string \<Rightarrow> string" where
  "GetSubjectForApp env appId = (if \<not> ueDBMode env then ueSelfUsername env appId else ''app:'' @ appId)"

definition mintUploadToken :: "uploadEnv \<Rightarrow> int \<Rightarrow> uploadClaims \<Rightarrow> (err, string) result" where
  "mintUploadToken env now claims =
     (let claims = claims\<lparr>ucAction := ''uploadLocalFile'', ucSubject := GetSubjectForApp env (ucAppID claims),
                          ucExpiresAt := (now + 600 * 1000000000) div 1000000000\<rparr>
      in case ueSign env claims of None \<Rightarrow> Inl (ErrorText (Msg ''error generating JWT token: %w'' [])) | Some t \<Rightarrow> Inr t)"

definition presignUpload :: "uploadEnv \<Rightarrow> ('s \<Rightarrow> int) \<Rightarrow> 's Store \<Rightarrow> bool \<Rightarrow> string \<Rightarrow> string \<Rightarrow> string \<Rightarrow> ('s, UploadRequest) op" where
  "presignUpload env clock store localUploads appId branch key =
     (if \<not> localUploads then stPresignPut store key
      else bindE (gets clock) (\<lambda>now.
        case mintUploadToken env now \<lparr>ucSubject = [], ucExpiresAt = 0, ucKey = key, ucAction = [], ucAppID = appId, ucBranch = branch\<rparr> of
          Inl e \<Rightarrow> throw e
        | Inr token \<Rightarrow>
            (case ueUploadURL env appId of
               None \<Rightarrow> throw (ErrorText (Msg ''invalid base URL: %w'' []))
             | Some url \<Rightarrow> ret \<lparr>UrURL = url, UrHeaders = [(LocalUploadTokenHeader, token)]\<rparr>)))"

definition keyInBranch :: "string \<Rightarrow> string \<Rightarrow> string \<Rightarrow> bool" where
  "keyInBranch key appId branch \<longleftrightarrow>
     (let prefix = appId @ ''/'' @ branch @ ''/'' in
      HasPrefix key prefix \<and> length key > length prefix \<and> ValidateKey key = None)"

definition isBlobKey :: "string \<Rightarrow> string \<Rightarrow> bool" where
  "isBlobKey key appId \<longleftrightarrow>
     (let prefix = appId @ ''/'' @ casDir @ ''/'' in
      HasPrefix key prefix \<and> ValidateBlobHash (TrimPrefix key prefix) = None)"

definition SourcemapKeyHash :: "string \<Rightarrow> string \<Rightarrow> string \<times> bool" where
  "SourcemapKeyHash key appId =
     (if validateSegment ''appId'' appId \<noteq> None then ([], False)
      else let prefix = sourcemapsDir @ ''/'' @ appId @ ''/'' in
        if \<not> HasPrefix key prefix \<or> \<not> HasSuffix key ''.map'' then ([], False)
        else let hash = TrimSuffix (TrimPrefix key prefix) ''.map'' in (hash, ValidateBlobHash hash = None))"

definition ValidateUploadToken :: "uploadEnv \<Rightarrow> int \<Rightarrow> string \<Rightarrow> (err, string \<times> string \<times> string) result" where
  "ValidateUploadToken env now token =
     (case ueVerify env now token of
        None \<Rightarrow> Inl (ErrorText (Msg ''error while decoding JWT token'' []))
      | Some claims \<Rightarrow>
          let key = ucKey claims; appId = ucAppID claims; branch = ucBranch claims in
          if appId = [] \<or> ucSubject claims \<noteq> GetSubjectForApp env appId then Inl (ErrorText (Msg ''invalid token sub'' []))
          else if ucAction claims \<noteq> ''uploadLocalFile'' then Inl (ErrorText (Msg ''invalid token action'' []))
          else if branch = [] \<or> \<not> (keyInBranch key appId branch \<or> isBlobKey key appId \<or> snd (SourcemapKeyHash key appId))
          then Inl (ErrorText (Msg ''upload token key does not match its branch'' []))
          else Inr (key, appId, branch))"

definition ResolveUploadTokenBranch :: "uploadEnv \<Rightarrow> int \<Rightarrow> string \<Rightarrow> (err, string) result" where
  "ResolveUploadTokenBranch env now token = map_sum id (\<lambda>(key, appId, branch). branch) (ValidateUploadToken env now token)"

text \<open>\<^verbatim>\<open>hashCheckedReader\<close> turns the end of a body into an error when its digest is not the expected one.\<close>

definition newHashCheckedReader :: "uploadEnv \<Rightarrow> body \<Rightarrow> string \<Rightarrow> body" where
  "newHashCheckedReader env b expected =
     (if bodyError b = None \<and> base64_encode (ueSha256 env (bodyBytes b)) \<noteq> expected
      then b\<lparr>bodyError := Some ErrBlobHashMismatch\<rparr> else b)"

definition HandleUpload :: "uploadEnv \<Rightarrow> 's Store \<Rightarrow> string \<Rightarrow> string \<Rightarrow> body \<Rightarrow> ('s, unit) op" where
  "HandleUpload env store appId key b =
     stPut store key
       (if isBlobKey key appId then newHashCheckedReader env b (TrimPrefix key (appId @ ''/'' @ casDir @ ''/'')) else b)"

section \<open>Blobs\<close>

definition blob_key :: "string \<Rightarrow> string \<Rightarrow> ('s, string) op" where
  "blob_key appId hash =
     bindE (guard (validateSegment ''appId'' appId)) (\<lambda>_.
     bindE (guard (ValidateBlobHash hash)) (\<lambda>_. ret (BlobObjectKey appId hash)))"

definition blob_Exists :: "'s Store \<Rightarrow> string \<Rightarrow> string \<Rightarrow> ('s, bool) op" where
  "blob_Exists st appId hash = bindE (blob_key appId hash) (stExists st)"

definition blob_Get :: "'s Store \<Rightarrow> string \<Rightarrow> string \<Rightarrow> ('s, body option) op" where
  "blob_Get st appId hash = bindE (blob_key appId hash) (stGet st)"

definition blob_Put :: "'s Store \<Rightarrow> string \<Rightarrow> string \<Rightarrow> body \<Rightarrow> ('s, unit) op" where
  "blob_Put st appId hash b = bindE (blob_key appId hash) (\<lambda>key. stPut st key b)"

definition blob_PresignPut :: "uploadEnv \<Rightarrow> ('s \<Rightarrow> int) \<Rightarrow> 's Store \<Rightarrow> bool \<Rightarrow> string \<Rightarrow> string \<Rightarrow> string \<Rightarrow> ('s, UploadRequest) op" where
  "blob_PresignPut env clock st localUploads appId hash branch =
     bindE (blob_key appId hash) (\<lambda>key.
     bindE (guard (validateBranch branch)) (\<lambda>_. presignUpload env clock st localUploads appId branch key))"

section \<open>Patches\<close>

definition patch_key :: "(string \<Rightarrow> string option) \<Rightarrow> string \<Rightarrow> string \<Rightarrow> string \<Rightarrow> string \<Rightarrow> ('s, string) op" where
  "patch_key uuid appId branch target source =
     bindE (guard (validateSegment ''appId'' appId)) (\<lambda>_.
     bindE (guard (validateBranch branch)) (\<lambda>_.
     bindE (guard (validateUpdateUUID uuid ''targetUpdateUUID'' target)) (\<lambda>_.
     bindE (guard (validateUpdateUUID uuid ''sourceUpdateUUID'' source)) (\<lambda>_.
     ret (BSDiffObjectKey appId branch target source)))))"

definition patch_Exists :: "(string \<Rightarrow> string option) \<Rightarrow> 's Store \<Rightarrow> string \<Rightarrow> string \<Rightarrow> string \<Rightarrow> string \<Rightarrow> ('s, bool) op" where
  "patch_Exists uuid st appId branch target source = bindE (patch_key uuid appId branch target source) (stExists st)"

definition patch_Get :: "(string \<Rightarrow> string option) \<Rightarrow> 's Store \<Rightarrow> string \<Rightarrow> string \<Rightarrow> string \<Rightarrow> string \<Rightarrow> ('s, body option) op" where
  "patch_Get uuid st appId branch target source = bindE (patch_key uuid appId branch target source) (stGet st)"

definition patch_Put :: "(string \<Rightarrow> string option) \<Rightarrow> 's Store \<Rightarrow> string \<Rightarrow> string \<Rightarrow> string \<Rightarrow> string \<Rightarrow> body \<Rightarrow> ('s, unit) op" where
  "patch_Put uuid st appId branch target source b =
     bindE (patch_key uuid appId branch target source) (\<lambda>key. stPut st key b)"

definition patch_DeleteBranch :: "'s Store \<Rightarrow> string \<Rightarrow> string \<Rightarrow> ('s, unit) op" where
  "patch_DeleteBranch st appId branch =
     bindE (guard (validateSegment ''appId'' appId)) (\<lambda>_.
     bindE (guard (validateBranch branch)) (\<lambda>_.
     stDeletePrefix st (BSDiffBranchPrefix appId branch)))"

section \<open>Source maps\<close>

definition sourcemap_key :: "string \<Rightarrow> string \<Rightarrow> ('s, string) op" where
  "sourcemap_key appId hash =
     bindE (guard (validateSegment ''appId'' appId)) (\<lambda>_.
     bindE (guard (ValidateBlobHash hash)) (\<lambda>_. ret (SourcemapObjectKey appId hash)))"

definition sourcemap_indexKey :: "string \<Rightarrow> string \<Rightarrow> ('s, string) op" where
  "sourcemap_indexKey appId hash = bindE (sourcemap_key appId hash) (\<lambda>key. ret (key @ ''.idx''))"

definition sourcemap_Exists :: "'s Store \<Rightarrow> string \<Rightarrow> string \<Rightarrow> ('s, bool) op" where
  "sourcemap_Exists st appId hash = bindE (sourcemap_key appId hash) (stExists st)"

definition sourcemap_Get :: "'s Store \<Rightarrow> string \<Rightarrow> string \<Rightarrow> ('s, body option) op" where
  "sourcemap_Get st appId hash = bindE (sourcemap_key appId hash) (stGet st)"

definition sourcemap_IndexExists :: "'s Store \<Rightarrow> string \<Rightarrow> string \<Rightarrow> ('s, bool) op" where
  "sourcemap_IndexExists st appId hash = bindE (sourcemap_indexKey appId hash) (stExists st)"

definition sourcemap_GetIndex :: "'s Store \<Rightarrow> string \<Rightarrow> string \<Rightarrow> ('s, body option) op" where
  "sourcemap_GetIndex st appId hash = bindE (sourcemap_indexKey appId hash) (stGet st)"

definition sourcemap_PutIndex :: "'s Store \<Rightarrow> string \<Rightarrow> string \<Rightarrow> body \<Rightarrow> ('s, unit) op" where
  "sourcemap_PutIndex st appId hash b = bindE (sourcemap_indexKey appId hash) (\<lambda>key. stPut st key b)"

definition sourcemap_Put :: "uploadEnv \<Rightarrow> 's Store \<Rightarrow> string \<Rightarrow> string \<Rightarrow> body \<Rightarrow> ('s, unit) op" where
  "sourcemap_Put env st appId hash b =
     bindE (sourcemap_key appId hash) (\<lambda>key. stPut st key (newHashCheckedReader env b hash))"

definition sourcemap_PresignPut :: "uploadEnv \<Rightarrow> ('s \<Rightarrow> int) \<Rightarrow> 's Store \<Rightarrow> bool \<Rightarrow> string \<Rightarrow> string \<Rightarrow> string \<Rightarrow> ('s, UploadRequest) op" where
  "sourcemap_PresignPut env clock st localUploads appId hash branch =
     bindE (sourcemap_key appId hash) (\<lambda>key.
     bindE (guard (validateBranch branch)) (\<lambda>_. presignUpload env clock st localUploads appId branch key))"

section \<open>Update folders\<close>

definition updateFileKey :: "Update \<Rightarrow> string \<Rightarrow> ('s, string) op" where
  "updateFileKey u path =
     bindE (guard (validateUpdateRef (AppId u) (Branch u) (RuntimeVersion u) (UpdateId u))) (\<lambda>_.
     bindE (guard (validateRelativePath ''assetPath'' path)) (\<lambda>_.
     ret (updatePrefix (AppId u) (Branch u) (RuntimeVersion u) (UpdateId u) @ path)))"

definition update_Branches :: "'s Store \<Rightarrow> string \<Rightarrow> ('s, string list) op" where
  "update_Branches st appId =
     bindE (guard (validateSegment ''appId'' appId)) (\<lambda>_.
     bindE (stListPrefixes st (appId @ ''/'')) (\<lambda>names. ret (filter (\<lambda>name. \<not> ReservedBranchName name) names)))"

definition update_GetFile :: "'s Store \<Rightarrow> Update \<Rightarrow> string \<Rightarrow> ('s, body option) op" where
  "update_GetFile st u path = bindE (updateFileKey u path) (stGet st)"

definition update_PutFile :: "'s Store \<Rightarrow> Update \<Rightarrow> string \<Rightarrow> body \<Rightarrow> ('s, unit) op" where
  "update_PutFile st u path b = bindE (updateFileKey u path) (\<lambda>key. stPut st key b)"

definition update_ref :: "string \<Rightarrow> string \<Rightarrow> string \<Rightarrow> string \<Rightarrow> Update" where
  "update_ref appId branch runtimeVersion updateId =
     \<lparr>AppId = appId, Branch = branch, RuntimeVersion = runtimeVersion, UpdateId = updateId, CreatedAt = 0, UpdateUUID = []\<rparr>"

definition update_PresignPut ::
    "uploadEnv \<Rightarrow> ('s \<Rightarrow> int) \<Rightarrow> 's Store \<Rightarrow> bool \<Rightarrow> string \<Rightarrow> string \<Rightarrow> string \<Rightarrow> string \<Rightarrow> string \<Rightarrow> ('s, UploadRequest) op" where
  "update_PresignPut env clock st localUploads appId branch runtimeVersion updateId path =
     bindE (updateFileKey (update_ref appId branch runtimeVersion updateId) path)
       (presignUpload env clock st localUploads appId branch)"

definition update_Delete :: "'s Store \<Rightarrow> string \<Rightarrow> string \<Rightarrow> string \<Rightarrow> string \<Rightarrow> ('s, unit) op" where
  "update_Delete st appId branch runtimeVersion updateId =
     bindE (guard (validateUpdateRef appId branch runtimeVersion updateId)) (\<lambda>_.
     stDeletePrefix st (updatePrefix appId branch runtimeVersion updateId))"

text \<open>\<^verbatim>\<open>helpers/time.go\<close>: a time is its milliseconds since the epoch, a duration its nanoseconds, kept within int64 as
  \<^verbatim>\<open>Time.Sub\<close> keeps it.\<close>

definition NormalizeTimestamp :: "int \<Rightarrow> int" where
  "NormalizeTimestamp v = (if v > 9999999999999 then v div 10 else v)"

definition NormalizeTimestampToDuration :: "int \<Rightarrow> int" where
  "NormalizeTimestampToDuration v = max (- (2 ^ 63)) (min (2 ^ 63 - 1) (NormalizeTimestamp v * 1000000))"

text \<open>The copies of \<^verbatim>\<open>CreateFrom\<close> run in an \<^verbatim>\<open>errgroup\<close>; they write different keys, and here run one after the other.\<close>

definition update_List :: "'s Store \<Rightarrow> string \<Rightarrow> string \<Rightarrow> string \<Rightarrow> ('s, Update list) op" where
  "update_List st appId branch runtimeVersion =
     bindE (guard (validateSegment ''appId'' appId)) (\<lambda>_.
     bindE (guard (validateBranch branch)) (\<lambda>_.
     bindE (guard (validateSegment ''runtimeVersion'' runtimeVersion)) (\<lambda>_.
     bindE (stListPrefixes st (appId @ ''/'' @ branch @ ''/'' @ runtimeVersion @ ''/'')) (\<lambda>names.
     ret (List.map_filter (\<lambda>name. map_option (\<lambda>i. (update_ref appId branch runtimeVersion (FormatInt i))\<lparr>CreatedAt := NormalizeTimestampToDuration i\<rparr>)
            (ParseInt name)) names)))))"

text \<open>The timestamps of the published updates of a runtime version, and the statistics of a branch;
  \<^verbatim>\<open>Time.Format\<close> is a parameter.\<close>

record RuntimeVersionWithStats =
  RvRuntimeVersion :: string
  RvCreatedAt :: string
  RvLastUpdatedAt :: string
  RvNumberOfUpdates :: nat

fun checked_timestamps :: "'s Store \<Rightarrow> (string \<Rightarrow> string) \<Rightarrow> string list \<Rightarrow> ('s, int list) op" where
  "checked_timestamps st prefix [] = ret []"
| "checked_timestamps st prefix (updateId # updates) =
     bindE (stExists st (prefix updateId @ ''.check'')) (\<lambda>checked.
     bindE (checked_timestamps st prefix updates) (\<lambda>timestamps.
     ret (if checked then (case ParseInt updateId of None \<Rightarrow> timestamps | Some t \<Rightarrow> t # timestamps) else timestamps)))"

fun runtime_stats :: "(int \<Rightarrow> string) \<Rightarrow> 's Store \<Rightarrow> string \<Rightarrow> string \<Rightarrow> string list \<Rightarrow> ('s, RuntimeVersionWithStats list) op" where
  "runtime_stats show st appId branch [] = ret []"
| "runtime_stats show st appId branch (v # versions) =
     bindE (stListPrefixes st (appId @ ''/'' @ branch @ ''/'' @ v @ ''/'')) (\<lambda>updates.
     bindE (checked_timestamps st (updatePrefix appId branch v) updates) (\<lambda>timestamps.
     bindE (runtime_stats show st appId branch versions) (\<lambda>stats.
     ret (if timestamps = [] then stats
          else \<lparr>RvRuntimeVersion = v, RvCreatedAt = show (NormalizeTimestamp (Min (set timestamps))), RvLastUpdatedAt = show (NormalizeTimestamp (Max (set timestamps))),
                RvNumberOfUpdates = length timestamps\<rparr> # stats))))"

definition update_RuntimeVersions :: "(int \<Rightarrow> string) \<Rightarrow> 's Store \<Rightarrow> string \<Rightarrow> string \<Rightarrow> ('s, RuntimeVersionWithStats list) op" where
  "update_RuntimeVersions show st appId branch =
     bindE (guard (validateSegment ''appId'' appId)) (\<lambda>_.
     bindE (guard (validateBranch branch)) (\<lambda>_.
     bindE (stListPrefixes st (appId @ ''/'' @ branch @ ''/'')) (runtime_stats show st appId branch)))"

definition is_marker :: "string \<Rightarrow> bool" where
  "is_marker relative \<longleftrightarrow> relative = ''update-metadata.json'' \<or> relative = ''.check''"

definition update_CreateFrom :: "'s Store \<Rightarrow> Update option \<Rightarrow> string \<Rightarrow> ('s, Update) op" where
  "update_CreateFrom st previous newUpdateId =
     (case previous of None \<Rightarrow> throw (ErrorText (Msg ''update must not be nil'' [])) | Some u \<Rightarrow>
      bindE (guard (validateUpdateRef (AppId u) (Branch u) (RuntimeVersion u) (UpdateId u))) (\<lambda>_.
      bindE (guard (validateSegment ''newUpdateId'' newUpdateId)) (\<lambda>_.
      case ParseInt newUpdateId of None \<Rightarrow> throw (ErrorText (Msg ''newUpdateId must be a timestamp'' [])) | Some i \<Rightarrow>
      let sourcePrefix = updatePrefix (AppId u) (Branch u) (RuntimeVersion u) (UpdateId u);
          targetPrefix = updatePrefix (AppId u) (Branch u) (RuntimeVersion u) newUpdateId in
      bindE (stList st sourcePrefix) (\<lambda>keys.
      bindE (forEach (\<lambda>key. let relative = TrimPrefix key sourcePrefix in
                if is_marker relative then ret () else stCopy st key (targetPrefix @ relative)) keys) (\<lambda>_.
      ret ((update_ref (AppId u) (Branch u) (RuntimeVersion u) newUpdateId)\<lparr>CreatedAt := NormalizeTimestampToDuration i\<rparr>))))))"

section \<open>The instance id\<close>

definition instanceIDKey :: string where "instanceIDKey = ''.instanceid''"

definition instance_ID :: "'s Store \<Rightarrow> ('s, string) op" where
  "instance_ID st = bindE (stGet st instanceIDKey) (\<lambda>f. case f of
     None \<Rightarrow> ret []
   | Some b \<Rightarrow> (case bodyError b of Some e \<Rightarrow> throw e | None \<Rightarrow> ret (TrimSpace (bodyBytes b))))"

definition instance_Persist :: "'s Store \<Rightarrow> string \<Rightarrow> ('s, unit) op" where
  "instance_Persist st i = stPut st instanceIDKey \<lparr>bodyBytes = i @ [CHR 0x0A], bodyError = None\<rparr>"

section \<open>A local upload\<close>

text \<open>\<^verbatim>\<open>DeploymentService.handleLocalUpload\<close>: the store that the key of the token belongs to.\<close>

definition handleLocalUpload :: "uploadEnv \<Rightarrow> 's Store \<Rightarrow> 's Store option \<Rightarrow> string \<Rightarrow> string \<Rightarrow> body \<Rightarrow> ('s, unit) op" where
  "handleLocalUpload env store sourcemapStore appId key b =
     (let (hash, isSourcemap) = SourcemapKeyHash key appId in
      if \<not> isSourcemap then HandleUpload env store appId key b
      else case sourcemapStore of
        None \<Rightarrow> throw (ErrorText (Msg ''sourcemap uploads are disabled'' []))
      | Some sm \<Rightarrow> sourcemap_Put env sm appId hash b)"

section \<open>Where the keys lie\<close>

lemma segment_not_dot: "validateSegment name a = None \<Longrightarrow> a \<noteq> ''.'' \<and> a \<noteq> ''..''"
  by (rule ccontr) (auto simp: validateSegment_def maxSegmentLen_def)

lemma key_path_segment: "validateSegment name a = None \<Longrightarrow> key_path (a @ CHR ''/'' # s) = a # key_path s"
  using segment_no_slash [of name a] segment_not_dot [of name a] by (simp add: key_path_def split_on_append)

lemma split_on_middle: "split_on c (a @ c # b) = split_on c a @ split_on c b"
proof (induction a)
  case (Cons x a)
  then show ?case by (cases "split_on c a") auto
qed simp

lemma key_path_slash: "key_path (q @ CHR ''/'' # k) = key_path q @ key_path k"
  by (simp add: key_path_def split_on_middle)

lemma key_path_last: "CHR ''/'' \<notin> set s \<Longrightarrow> s \<noteq> [] \<Longrightarrow> s \<noteq> ''.'' \<Longrightarrow> key_path s = [s]"
  by (simp add: key_path_def split_on_id)

lemma blob_hash:
  assumes "ValidateBlobHash hash = None"
  shows "length hash = 43" "CHR ''/'' \<notin> set hash" "CHR ''.'' \<notin> set hash"
proof -
  show "length hash = 43" using assms by (simp add: ValidateBlobHash_def blobHashLength_def split: if_splits)
  let ?kept = "filter (\<lambda>c. c \<noteq> CHR 0x0D \<and> c \<noteq> CHR 0x0A) hash"
  have "base64_decode ?kept \<noteq> None"
    using assms by (auto simp: ValidateBlobHash_def strict_decode_def Let_def split: if_splits option.splits)
  then have none: "None \<notin> char_sextet ` set ?kept"
    by (auto simp: base64_decode_def Let_def split: if_splits)
  have kept: "char_sextet c \<noteq> None" if "c \<in> set ?kept" for c
  proof
    assume "char_sextet c = None"
    then show False using none imageI [OF that, of char_sextet] by (simp only:)
  qed
  have all: "char_sextet c \<noteq> None" if "c \<in> set hash" "c \<noteq> CHR 0x0D" "c \<noteq> CHR 0x0A" for c
    by (rule kept) (simp add: that)
  have "char_sextet (CHR ''/'') = None" "char_sextet (CHR ''.'') = None" by code_simp+
  then show "CHR ''/'' \<notin> set hash" "CHR ''.'' \<notin> set hash" using all [of "CHR ''/''"] all [of "CHR ''.''"] by auto
qed

lemma key_path_dir: "key_path (casDir @ CHR ''/'' # s) = casDir # key_path s"
    "key_path (bsDiffDir @ CHR ''/'' # s) = bsDiffDir # key_path s"
    "key_path (sourcemapsDir @ CHR ''/'' # s) = sourcemapsDir # key_path s"
  by (rule key_path_segment [of "''dir''"]; code_simp)+

lemma key_path_hash:
  assumes "ValidateBlobHash hash = None"
  shows "key_path hash = [hash]" "key_path (hash @ ''.map'') = [hash @ ''.map'']" "key_path (hash @ ''.map.idx'') = [hash @ ''.map.idx'']"
  using blob_hash [OF assms] by (auto intro!: key_path_last simp: append_eq_Cons_conv)

lemma key_path_update:
  assumes "validateUpdateRef a b r u = None"
  shows "key_path (updatePrefix a b r u @ path) = a # b # r # u # key_path path" "b \<noteq> casDir" "b \<noteq> bsDiffDir"
  using validateUpdateRef_segments [OF assms] by (auto simp: updatePrefix_def key_path_segment ReservedBranchName_def)

text \<open>The keys that promise something of their content: a blob and a source map are called by their digest, and an index
  belongs to the map of that digest.\<close>

datatype label = Content string | IndexOf string

definition named :: "string \<Rightarrow> label \<Rightarrow> bool" where
  "named k l \<longleftrightarrow> (\<exists>app hash. validateSegment ''appId'' app = None \<and> ValidateBlobHash hash = None \<and>
     (l = Content hash \<and> (k = BlobObjectKey app hash \<or> k = SourcemapObjectKey app hash)
      \<or> l = IndexOf hash \<and> k = SourcemapObjectKey app hash @ ''.idx''))"

text \<open>What a label promises, for a digest and a predicate on the index of a map.\<close>

fun kept :: "(string \<Rightarrow> string) \<Rightarrow> (string \<Rightarrow> string \<Rightarrow> bool) \<Rightarrow> label \<Rightarrow> string \<Rightarrow> bool" where
  "kept sha indexes (Content hash) bytes \<longleftrightarrow> base64_encode (sha bytes) = hash"
| "kept sha indexes (IndexOf hash) bytes \<longleftrightarrow> indexes hash bytes"

definition content_named :: "(label \<Rightarrow> string \<Rightarrow> bool) \<Rightarrow> (string \<Rightarrow> string option) \<Rightarrow> bool" where
  "content_named keep obj \<longleftrightarrow> (\<forall>k l bytes. named k l \<longrightarrow> obj k = Some bytes \<longrightarrow> keep l bytes)"

lemma named_path:
  assumes "named k l"
  obtains a hash where "l = Content hash" "ValidateBlobHash hash = None" "key_path k = [a, casDir, hash]"
  | a hash where "l = Content hash" "ValidateBlobHash hash = None" "key_path k = [sourcemapsDir, a, hash @ ''.map'']"
  | a hash where "l = IndexOf hash" "ValidateBlobHash hash = None" "key_path k = [sourcemapsDir, a, hash @ ''.map.idx'']"
  using assms by (auto simp: named_def BlobObjectKey_def SourcemapObjectKey_def key_path_segment key_path_dir key_path_hash)

lemma hash_suffix_apart:
  assumes "ValidateBlobHash hash = None" and "ValidateBlobHash hash' = None"
  shows "hash \<noteq> hash' @ ''.map''" "hash \<noteq> hash' @ ''.map.idx''" "hash @ ''.map'' \<noteq> hash' @ ''.map.idx''"
  using blob_hash(1) [OF assms(1)] blob_hash(1) [OF assms(2)] by (auto dest!: arg_cong [of _ _ length])

lemma named_label:
  assumes "named k l" and "named k' l'" and "key_path k = key_path k'"
  shows "l = l'"
  using assms(1)
proof (rule named_path)
qed (use assms(2,3) hash_suffix_apart hash_suffix_apart [symmetric] in \<open>auto elim!: named_path\<close>)

section \<open>What writes the bucket\<close>

text \<open>What an uploader is handed a request for: a file of an update's folder, a blob or a source map.\<close>

datatype upload_target = ToUpdate string string string | ToBlob string | ToSourcemap string

fun granted_key :: "string \<Rightarrow> string \<Rightarrow> upload_target \<Rightarrow> ('s, string) op" where
  "granted_key appId branch (ToUpdate runtimeVersion updateId path) = updateFileKey (update_ref appId branch runtimeVersion updateId) path"
| "granted_key appId branch (ToBlob hash) = bindE (blob_key appId hash) (\<lambda>key. bindE (guard (validateBranch branch)) (\<lambda>_. ret key))"
| "granted_key appId branch (ToSourcemap hash) = bindE (sourcemap_key appId hash) (\<lambda>key. bindE (guard (validateBranch branch)) (\<lambda>_. ret key))"

fun presign_target :: "uploadEnv \<Rightarrow> ('s \<Rightarrow> int) \<Rightarrow> 's Store \<Rightarrow> bool \<Rightarrow> string \<Rightarrow> string \<Rightarrow> upload_target \<Rightarrow> ('s, UploadRequest) op" where
  "presign_target env clock st localUploads appId branch (ToUpdate runtimeVersion updateId path) =
     update_PresignPut env clock st localUploads appId branch runtimeVersion updateId path"
| "presign_target env clock st localUploads appId branch (ToBlob hash) = blob_PresignPut env clock st localUploads appId hash branch"
| "presign_target env clock st localUploads appId branch (ToSourcemap hash) = sourcemap_PresignPut env clock st localUploads appId hash branch"

text \<open>The writes of the server: an upload to a key that was granted, the files and the copies of updates, patches, indexes,
  a blob imported under the digest of its bytes, the instance id, and the deletions.  \<^verbatim>\<open>indexes\<close> says which
  bytes are an index of the map with a digest.\<close>

inductive bucket_step :: "uploadEnv \<Rightarrow> (string \<Rightarrow> string option) \<Rightarrow> (string \<Rightarrow> string \<Rightarrow> bool) \<Rightarrow> 's Store \<Rightarrow> 's \<Rightarrow> 's \<Rightarrow> bool" for env uuid indexes st where
  upload: "fst (granted_key appId branch tgt s) = Inr key \<Longrightarrow> sm \<in> {None, Some st}
    \<Longrightarrow> bucket_step env uuid indexes st s (snd (handleLocalUpload env st sm appId key b s))"
| put_file: "bucket_step env uuid indexes st s (snd (update_PutFile st u path b s))"
| create_from: "bucket_step env uuid indexes st s (snd (update_CreateFrom st previous i s))"
| put_patch: "bucket_step env uuid indexes st s (snd (patch_Put uuid st appId branch target source b s))"
| put_index: "(bodyError b = None \<longrightarrow> indexes hash (bodyBytes b)) \<Longrightarrow> bucket_step env uuid indexes st s (snd (sourcemap_PutIndex st appId hash b s))"
| import_blob: "hash = base64_encode (ueSha256 env (bodyBytes b)) \<Longrightarrow> bucket_step env uuid indexes st s (snd (blob_Put st appId hash b s))"
| persist: "bucket_step env uuid indexes st s (snd (instance_Persist st i s))"
| delete_update: "bucket_step env uuid indexes st s (snd (update_Delete st appId branch runtimeVersion updateId s))"
| delete_patches: "bucket_step env uuid indexes st s (snd (patch_DeleteBranch st appId branch s))"

lemma keeps_bind_pure:
  assumes "\<And>s. snd (m s) = s" and "\<And>s x. fst (m s) = Inr x \<Longrightarrow> keeps P (f x)"
  shows "keeps P (bindE m f)"
proof (rule keepsI)
  fix s assume "P s"
  with assms(1) [of s] assms(2) [of s] show "P (snd (bindE m f s))"
    by (auto simp: bindE_def keeps_def split: prod.split sum.split)
qed

lemma pure_key [simp]: "snd (updateFileKey u path s) = s" "snd (blob_key appId hash s) = s" "snd (sourcemap_key appId hash s) = s"
    "snd (sourcemap_indexKey appId hash s) = s" "snd (patch_key uuid appId branch target source s) = s"
  by (simp_all add: updateFileKey_def blob_key_def sourcemap_key_def sourcemap_indexKey_def patch_key_def guard_def bindE_run split: option.split)

lemma key_value:
  "fst (updateFileKey u path s) = Inr k \<longleftrightarrow> validateUpdateRef (AppId u) (Branch u) (RuntimeVersion u) (UpdateId u) = None
     \<and> ValidateKey path = None \<and> k = updatePrefix (AppId u) (Branch u) (RuntimeVersion u) (UpdateId u) @ path"
  "fst (blob_key appId hash s) = Inr k \<longleftrightarrow> validateSegment ''appId'' appId = None \<and> ValidateBlobHash hash = None \<and> k = BlobObjectKey appId hash"
  "fst (sourcemap_key appId hash s) = Inr k \<longleftrightarrow> validateSegment ''appId'' appId = None \<and> ValidateBlobHash hash = None \<and> k = SourcemapObjectKey appId hash"
  "fst (sourcemap_indexKey appId hash s) = Inr k \<longleftrightarrow> validateSegment ''appId'' appId = None \<and> ValidateBlobHash hash = None
     \<and> k = SourcemapObjectKey appId hash @ ''.idx''"
  by (auto simp: updateFileKey_def blob_key_def sourcemap_key_def sourcemap_indexKey_def guard_def bindE_run validateRelativePath_def split: option.split)

lemma patch_key_value: "fst (patch_key uuid appId branch target source s) = Inr k \<Longrightarrow>
    validateSegment ''appId'' appId = None \<and> validateBranch branch = None \<and> uuid target = Some target \<and> uuid source = Some source
    \<and> k = BSDiffObjectKey appId branch target source"
  by (auto simp: patch_key_def guard_def bindE_run validateUpdateUUID_def split: option.split_asm if_splits)

lemma validateSegment_name: "validateSegment n v = None \<longleftrightarrow> validateSegment m v = None"
  by (simp add: validateSegment_def flip: rune_checks_agree [of "[]"])

lemma isBlobKey_iff: "isBlobKey key appId \<longleftrightarrow> (\<exists>hash. key = BlobObjectKey appId hash \<and> ValidateBlobHash hash = None)"
  by (auto simp: isBlobKey_def Let_def HasPrefix_iff TrimPrefix_def BlobObjectKey_def)

lemma SourcemapKeyHash_key:
  assumes "validateSegment ''appId'' appId = None" and "ValidateBlobHash hash = None"
  shows "SourcemapKeyHash (SourcemapObjectKey appId hash) appId = (hash, True)"
  using assms by (simp add: SourcemapKeyHash_def SourcemapObjectKey_def TrimPrefix_def TrimSuffix_def HasPrefix_iff HasSuffix_iff)

lemma target_key_value:
  assumes "fst (granted_key appId branch tgt s) = Inr key"
  obtains r u path where "validateUpdateRef appId branch r u = None" "ValidateKey path = None" "key = updatePrefix appId branch r u @ path"
      "tgt = ToUpdate r u path"
  | hash where "validateSegment ''appId'' appId = None" "ValidateBlobHash hash = None" "validateBranch branch = None" "key = BlobObjectKey appId hash"
      "tgt = ToBlob hash"
  | hash where "validateSegment ''appId'' appId = None" "ValidateBlobHash hash = None" "validateBranch branch = None" "key = SourcemapObjectKey appId hash"
      "tgt = ToSourcemap hash"
  using assms
  by (cases tgt) (auto simp: key_value update_ref_def bindE_run guard_def blob_key_def sourcemap_key_def split: prod.split_asm sum.split_asm option.split_asm)

lemma update_key_apart:
  assumes "validateUpdateRef a b r u = None" and "named k l"
  shows "key_path (updatePrefix a b r u @ path) \<noteq> key_path k"
  using key_path_update [OF assms(1)] assms(2) by (auto elim!: named_path)

text \<open>What the UUID package promises of a canonical spelling.\<close>

definition canonical_uuids :: "(string \<Rightarrow> string option) \<Rightarrow> bool" where
  "canonical_uuids uuid \<longleftrightarrow> (\<forall>u. uuid u = Some u \<longrightarrow> length u = 36 \<and> CHR ''/'' \<notin> set u)"

lemma patch_key_apart:
  assumes "validateSegment ''appId'' a = None" and "validateBranch b = None" and "canonical_uuids uuid"
    and "uuid t = Some t" and "uuid u = Some u" and "named k l"
  shows "key_path (BSDiffObjectKey a b t u) \<noteq> key_path k"
proof -
  have "CHR ''/'' \<notin> set t" "length t = 36" using assms by (auto simp: canonical_uuids_def)
  then have "key_path (t @ CHR ''/'' # u) = t # key_path u" by (auto simp: key_path_def split_on_append)
  moreover have "validateSegment ''branch'' b = None" using assms(2) by (simp add: validateBranch_def split: option.splits)
  ultimately have "key_path (BSDiffObjectKey a b t u) = a # bsDiffDir # b # t # key_path u"
    using assms(1) by (simp add: BSDiffObjectKey_def BSDiffBranchPrefix_def key_path_dir key_path_segment)
  then show ?thesis using assms(6) by (auto elim!: named_path)
qed

section \<open>What the layout relies on\<close>

text \<open>The contract of a raw store.  \<^verbatim>\<open>obj\<close> is the object at a key; \<^verbatim>\<open>regular\<close> holds of the keys that the driver keeps nothing
  of its own at.  A \<^verbatim>\<open>Put\<close> writes all of a body that ended without an error at its key, or nothing anywhere; a copy writes
  at its target only; a deletion takes objects away; reading gives what is there.\<close>

locale object_store =
  fixes st :: "'s Store" and obj :: "'s \<Rightarrow> string \<Rightarrow> string option" and regular :: "string \<Rightarrow> bool"
  assumes regular_named: "named k l \<Longrightarrow> regular k"
    and put_obj: "regular k \<Longrightarrow> obj (snd (stPut st key b s)) k =
      (if fst (stPut st key b s) = Inr () \<and> key_path key = key_path k then Some (bodyBytes b) else obj s k)"
    and put_whole: "fst (stPut st key b s) = Inr () \<Longrightarrow> bodyError b = None"
    and copy_obj: "regular k \<Longrightarrow> key_path to \<noteq> key_path k \<Longrightarrow> obj (snd (stCopy st from to s)) k = obj s k"
    and list_obj: "regular k \<Longrightarrow> obj (snd (stList st prefix s)) k = obj s k"
    and read_obj: "regular k \<Longrightarrow> obj (snd (stGet st key s)) k = obj s k"
    and exists_obj: "regular k \<Longrightarrow> obj (snd (stExists st key s)) k = obj s k"
    and deletePrefix_obj: "regular k \<Longrightarrow> obj (snd (stDeletePrefix st prefix s)) k \<in> {obj s k, None}"
    and get_obj: "regular k \<Longrightarrow> stGet st k s = (Inr f, s') \<Longrightarrow>
      obj s k = (case f of Some b \<Rightarrow> if bodyError b = None then Some (bodyBytes b) else None | None \<Rightarrow> None)"
begin

definition sound :: "(label \<Rightarrow> string \<Rightarrow> bool) \<Rightarrow> 's \<Rightarrow> bool" where
  "sound keep s \<longleftrightarrow> content_named keep (obj s)"

lemma put_sound:
  assumes "sound keep s" and "\<And>k l. named k l \<Longrightarrow> key_path key = key_path k \<Longrightarrow> bodyError b = None \<Longrightarrow> keep l (bodyBytes b)"
  shows "sound keep (snd (stPut st key b s))"
  using assms(1) assms(2) put_whole [of key b s] regular_named
  by (fastforce simp: sound_def content_named_def put_obj split: if_splits)

lemma put_elsewhere: "(\<And>k l. named k l \<Longrightarrow> key_path key \<noteq> key_path k) \<Longrightarrow> keeps (sound keep) (stPut st key b)"
  by (rule keepsI, rule put_sound) blast+

lemma put_named:
  assumes "named key l" and "bodyError b = None \<Longrightarrow> keep l (bodyBytes b)"
  shows "keeps (sound keep) (stPut st key b)"
  using named_label [OF assms(1)] assms(2) by (intro keepsI put_sound) blast+

lemma put_checked: "named key (Content hash) \<Longrightarrow> keeps (sound (kept (ueSha256 env) indexes)) (stPut st key (newHashCheckedReader env b hash))"
  by (erule put_named) (auto simp: newHashCheckedReader_def split: if_splits)

lemma shrink_sound:
  assumes "sound keep s" and "\<And>k. regular k \<Longrightarrow> obj s' k \<in> {obj s k, None}"
  shows "sound keep s'"
  using assms regular_named unfolding sound_def content_named_def by (metis insertE option.distinct(1) singletonD)

lemma deletePrefix_sound: "keeps (sound keep) (stDeletePrefix st prefix)"
  by (rule keepsI, erule shrink_sound) (rule deletePrefix_obj)

lemma copy_elsewhere:
  assumes "\<And>k l. named k l \<Longrightarrow> key_path to \<noteq> key_path k"
  shows "keeps (sound keep) (stCopy st from to)"
  using assms copy_obj regular_named by (auto intro!: keepsI simp: sound_def content_named_def)

lemma list_sound: "keeps (sound keep) (stList st prefix)"
  using list_obj regular_named by (auto intro!: keepsI simp: sound_def content_named_def)

lemma read_sound: "keeps (sound keep) (stGet st key)" "keeps (sound keep) (stExists st key)"
  using read_obj exists_obj regular_named by (auto intro!: keepsI simp: sound_def content_named_def)

lemma putFile_sound: "keeps (sound keep) (update_PutFile st u path b)"
  unfolding update_PutFile_def
  by (rule keeps_bind_pure) (auto simp: key_value intro!: put_elsewhere dest!: update_key_apart)

lemma putIndex_sound:
  assumes "bodyError b = None \<longrightarrow> indexes hash (bodyBytes b)"
  shows "keeps (sound (kept sha indexes)) (sourcemap_PutIndex st appId hash b)"
  unfolding sourcemap_PutIndex_def
  by (rule keeps_bind_pure) (use assms in \<open>auto simp: key_value named_def intro!: put_named [of _ "IndexOf hash"]\<close>)

lemma putPatch_sound:
  assumes "canonical_uuids uuid"
  shows "keeps (sound keep) (patch_Put uuid st appId branch target source b)"
  unfolding patch_Put_def
proof (rule keeps_bind_pure)
  fix s key assume "fst (patch_key uuid appId branch target source s) = Inr key"
  from patch_key_value [OF this] show "keeps (sound keep) (stPut st key b)"
    using patch_key_apart [OF _ _ assms] by (intro put_elsewhere) blast
qed simp

lemma persist_sound: "keeps (sound keep) (instance_Persist st i)"
proof -
  have "key_path instanceIDKey = [''.instanceid'']" by code_simp
  then show ?thesis unfolding instance_Persist_def by (intro put_elsewhere) (auto elim!: named_path)
qed

lemma sourcemapPut_sound: "keeps (sound (kept (ueSha256 env) indexes)) (sourcemap_Put env st appId hash b)"
  unfolding sourcemap_Put_def
  by (rule keeps_bind_pure) (auto simp: key_value named_def intro!: put_checked)

lemma importBlob_sound:
  assumes "hash = base64_encode (ueSha256 env (bodyBytes b))"
  shows "keeps (sound (kept (ueSha256 env) indexes)) (blob_Put st appId hash b)"
  unfolding blob_Put_def
  by (rule keeps_bind_pure) (use assms in \<open>auto simp: key_value named_def intro!: put_named [of _ "Content hash"]\<close>)

lemma createFrom_sound: "keeps (sound keep) (update_CreateFrom st previous i)"
proof (cases previous)
  case (Some u)
  have "validateUpdateRef (AppId u) (Branch u) (RuntimeVersion u) (UpdateId u) = None \<Longrightarrow> validateSegment ''newUpdateId'' i = None \<Longrightarrow>
      keeps (sound keep) (stCopy st key (updatePrefix (AppId u) (Branch u) (RuntimeVersion u) i @ relative))" for key relative
    by (rule copy_elsewhere, rule update_key_apart)
      (auto simp: validateUpdateRef_def validateSegment_name [of "''newUpdateId''" _ "''updateId''"] split: option.splits)
  then show ?thesis unfolding update_CreateFrom_def Some
    by (auto simp: guard_def Let_def intro!: keeps_bindE list_sound split: option.split)
qed (simp add: update_CreateFrom_def)

lemma upload_sound:
  assumes "fst (granted_key appId branch tgt s0) = Inr key" and "sm \<in> {None, Some st}"
  shows "keeps (sound (kept (ueSha256 env) indexes)) (handleLocalUpload env st sm appId key b)"
proof -
  have app: "validateSegment ''appId'' appId = None"
    using assms(1) by (rule target_key_value) (auto dest: validateUpdateRef_segments)
  have HandleUpload: "keeps (sound (kept (ueSha256 env) indexes)) (HandleUpload env st appId key b)" if "\<not> snd (SourcemapKeyHash key appId)"
  proof (cases "isBlobKey key appId")
    case True
    then obtain hash where "key = BlobObjectKey appId hash" "ValidateBlobHash hash = None" by (auto simp: isBlobKey_iff)
    then show ?thesis using True app
      by (auto simp: HandleUpload_def BlobObjectKey_def TrimPrefix_def HasPrefix_iff named_def intro!: put_checked)
  next
    case False
    with that assms(1) have "\<exists>r u path. validateUpdateRef appId branch r u = None \<and> key = updatePrefix appId branch r u @ path"
      by (elim target_key_value) (auto simp: isBlobKey_iff SourcemapKeyHash_key)
    then show ?thesis using False by (auto simp: HandleUpload_def intro!: put_elsewhere dest!: update_key_apart)
  qed
  then show ?thesis using assms(2)
    by (auto simp: handleLocalUpload_def sourcemapPut_sound split: prod.split option.split)
qed

lemma deletes_sound: "keeps (sound keep) (update_Delete st appId branch runtimeVersion updateId)" "keeps (sound keep) (patch_DeleteBranch st appId branch)"
  by (auto simp: update_Delete_def patch_DeleteBranch_def guard_def intro!: keeps_bindE deletePrefix_sound split: option.split)

theorem bucket_step_sound:
  assumes "bucket_step env uuid indexes st s s'" and "canonical_uuids uuid" and "sound (kept (ueSha256 env) indexes) s"
  shows "sound (kept (ueSha256 env) indexes) s'"
  using assms
proof (cases rule: bucket_step.cases)
qed (auto intro: keepsD [OF upload_sound] keepsD [OF putFile_sound] keepsD [OF createFrom_sound] keepsD [OF putPatch_sound]
    keepsD [OF putIndex_sound] keepsD [OF importBlob_sound] keepsD [OF persist_sound] keepsD [OF deletes_sound(1)] keepsD [OF deletes_sound(2)])

text \<open>The view of a store under a prefix that ends with a slash keeps the contract.\<close>

lemma prefixed_store:
  assumes "\<And>k l. named k l \<Longrightarrow> regular (q @ CHR ''/'' # k)"
  shows "object_store (WithPrefix st (q @ ''/'')) (\<lambda>s k. obj s (q @ CHR ''/'' # k)) (\<lambda>k. regular (q @ CHR ''/'' # k))"
proof (unfold_locales, goal_cases)
  case (8 k prefix s)
  then show ?case using deletePrefix_obj [of "q @ CHR ''/'' # k"]
    by (auto simp: WithPrefix_def bindE_run guard_def split: option.split)
next
  case (5 k prefix s)
  then show ?case using list_obj [of "q @ CHR ''/'' # k" "q @ CHR ''/'' # prefix" s]
    by (auto simp: WithPrefix_def bindE_run split: prod.split sum.split)
next
  case (9 k s f s')
  then show ?case using get_obj [of "q @ CHR ''/'' # k" s f s'] by (simp add: WithPrefix_def)
qed (auto simp: WithPrefix_def assms put_obj put_whole copy_obj read_obj exists_obj key_path_slash)

end

section \<open>Properties\<close>

text \<open>What the JWT package promises of a token the server signed: until its time it is read back as it was signed.\<close>

definition jwt_reads_back :: "uploadEnv \<Rightarrow> bool" where
  "jwt_reads_back env \<longleftrightarrow> (\<forall>claims token now. ueSign env claims = Some token \<longrightarrow> now < ucExpiresAt claims * 1000000000
     \<longrightarrow> ueVerify env now token = Some claims)"

lemma ValidateKey_append:
  assumes "validateSegment n a = None" and "ValidateKey s = None"
  shows "ValidateKey (a @ CHR ''/'' # s) = None"
proof -
  have a: "CHR ''/'' \<notin> set a" "a \<noteq> []" "a \<noteq> ''..''"
    using segment_no_slash [OF assms(1)] segment_not_dot [OF assms(1)] by blast+
  have "CHR 0x5C \<notin> set a"
    by (rule ccontr) (use assms(1) in \<open>simp add: validateSegment_def split: if_splits\<close>)
  moreover have "\<not> HasPrefix (a @ CHR ''/'' # s) ''/''" using a by (cases a) auto
  ultimately show ?thesis using a assms(2)
    by (simp add: ValidateKey_def split_on_append split: if_splits)
qed

lemma target_key_accepted:
  assumes "fst (granted_key appId branch tgt s) = Inr key"
  shows "appId \<noteq> []" "branch \<noteq> []" "keyInBranch key appId branch \<or> isBlobKey key appId \<or> snd (SourcemapKeyHash key appId)"
proof -
  show "appId \<noteq> []" "branch \<noteq> []"
    using assms by (rule target_key_value;
      auto dest: validateUpdateRef_segments simp: validateBranch_def validateSegment_def split: option.splits if_splits)+
  show "keyInBranch key appId branch \<or> isBlobKey key appId \<or> snd (SourcemapKeyHash key appId)"
    using assms
  proof (rule target_key_value)
    fix r u path
    assume ref: "validateUpdateRef appId branch r u = None" and "ValidateKey path = None" "key = updatePrefix appId branch r u @ path"
    then have "ValidateKey key = None"
      using validateUpdateRef_segments [OF ref] by (simp add: updatePrefix_def ValidateKey_append)
    then have "keyInBranch key appId branch"
      using \<open>key = _\<close> by (auto simp: keyInBranch_def Let_def updatePrefix_def HasPrefix_iff)
    then show ?thesis ..
  qed (auto simp: isBlobKey_iff SourcemapKeyHash_key)
qed

lemma presign_target_key:
  "presign_target env clock st localUploads appId branch tgt = bindE (granted_key appId branch tgt) (presignUpload env clock st localUploads appId branch)"
  by (cases tgt) (simp_all add: update_PresignPut_def blob_PresignPut_def sourcemap_PresignPut_def bindE_assoc)

lemma pure_target_key: "snd (granted_key appId branch tgt s) = s"
  by (cases tgt) (simp_all add: blob_key_def sourcemap_key_def bindE_run guard_def split: option.split)

text \<open>C23: Every request for a local upload carries a token for exactly its key: when the server grants an upload of a file of
  an update, of a blob or of a source map, the token in the headers is accepted for the next ten minutes (up to the second
  in which it was made), and validating it gives back the key of that object, the app and the branch.  A request that is
  refused has no key.\<close>

theorem upload_token_grants_key:
  assumes "jwt_reads_back env" and "presign_target env clock st True appId branch tgt s = (Inr r, s')"
    and "now < ((clock s + 600 * 1000000000) div 1000000000) * 1000000000"
  shows "\<exists>key token. fst (granted_key appId branch tgt s) = Inr key \<and> UrHeaders r = [(LocalUploadTokenHeader, token)]
    \<and> ValidateUploadToken env now token = Inr (key, appId, branch) \<and> ResolveUploadTokenBranch env now token = Inr branch"
proof -
  from assms(2) obtain key s1 where key: "granted_key appId branch tgt s = (Inr key, s1)"
      and run: "presignUpload env clock st True appId branch key s1 = (Inr r, s')"
    unfolding presign_target_key by (rule bindE_Inr)
  have "s1 = s" using pure_target_key [of appId branch tgt s] key by simp
  with run obtain claims token where mint: "ueSign env claims = Some token" and r: "UrHeaders r = [(LocalUploadTokenHeader, token)]"
      and claims: "claims = \<lparr>ucSubject = GetSubjectForApp env appId, ucExpiresAt = (clock s + 600 * 1000000000) div 1000000000,
        ucKey = key, ucAction = ''uploadLocalFile'', ucAppID = appId, ucBranch = branch\<rparr>"
    by (auto simp: presignUpload_def mintUploadToken_def bindE_run Let_def split: option.splits sum.splits)
  have "ueVerify env now token = Some claims" using assms(1,3) mint claims by (auto simp: jwt_reads_back_def)
  moreover have "fst (granted_key appId branch tgt s) = Inr key" using key by simp
  ultimately show ?thesis using r claims target_key_accepted [of appId branch tgt s key]
    by (auto simp: ValidateUploadToken_def ResolveUploadTokenBranch_def Let_def)
qed

definition demo_hash :: string where "demo_hash = replicate 43 (CHR ''A'')"

definition demo_upload_claims :: uploadClaims where
  "demo_upload_claims = \<lparr>ucSubject = ''app:a'', ucExpiresAt = 600, ucKey = BlobObjectKey ''a'' demo_hash, ucAction = ''uploadLocalFile'',
     ucAppID = ''a'', ucBranch = ''main''\<rparr>"

definition demo_upload_env :: uploadEnv where
  "demo_upload_env = \<lparr>ueDBMode = True, ueSelfUsername = (\<lambda>_. []), ueSign = (\<lambda>c. if c = demo_upload_claims then Some ''t'' else None),
     ueVerify = (\<lambda>now t. if now < 600 * 1000000000 then Some demo_upload_claims else None), ueUploadURL = (\<lambda>_. Some ''u''),
     ueSha256 = (\<lambda>_. replicate 32 (CHR 0x00))\<rparr>"

definition no_store :: "unit Store" where
  "no_store = \<lparr>stExists = (\<lambda>k. ret False), stGet = (\<lambda>k. ret None), stPut = (\<lambda>k b. ret ()), stDelete = (\<lambda>k. ret ()),
     stDeletePrefix = (\<lambda>k. ret ()), stCopy = (\<lambda>a b. ret ()), stList = (\<lambda>k. ret []), stListPrefixes = (\<lambda>k. ret []),
     stPresignPut = (\<lambda>k. throw NilDereference)\<rparr>"

lemma demo_hash_valid: "ValidateBlobHash demo_hash = None"
  by code_simp

theorem upload_token_grants_key_witness:
  "\<exists>key token. fst (granted_key ''a'' ''main'' (ToBlob demo_hash) ()) = Inr key
    \<and> UrHeaders \<lparr>UrURL = ''u'', UrHeaders = [(LocalUploadTokenHeader, ''t'')]\<rparr> = [(LocalUploadTokenHeader, token)]
    \<and> ValidateUploadToken demo_upload_env 5 token = Inr (key, ''a'', ''main'') \<and> ResolveUploadTokenBranch demo_upload_env 5 token = Inr ''main''"
proof (rule upload_token_grants_key [of demo_upload_env "\<lambda>_. 0" no_store "''a''" "''main''" "ToBlob demo_hash" "()" _ "()" 5])
  show "jwt_reads_back demo_upload_env" by (auto simp: jwt_reads_back_def demo_upload_env_def demo_upload_claims_def)
  have "validateSegment ''appId'' ''a'' = None" "validateBranch ''main'' = None" by code_simp+
  then show "presign_target demo_upload_env (\<lambda>_. 0) no_store True ''a'' ''main'' (ToBlob demo_hash) () =
      (Inr \<lparr>UrURL = ''u'', UrHeaders = [(LocalUploadTokenHeader, ''t'')]\<rparr>, ())"
    by (simp add: blob_PresignPut_def blob_key_def guard_def bindE_run demo_hash_valid presignUpload_def mintUploadToken_def
        demo_upload_env_def demo_upload_claims_def GetSubjectForApp_def)
qed simp

end
