(* ===== verification/LocalStore.thy ===== *)
theory LocalStore
  imports Buckets "HOL-Library.List_Lexorder" "HOL-Library.Char_ord"
begin

text \<open>
  The driver of the object store that writes a directory, \<^verbatim>\<open>src/internal/objectstore/local.go\<close>, over a model of the file
  system calls it makes.  A path is its list of names, from the root of the file system or from the working directory;
  a file is its bytes.  Every call may fail: the state holds the failures still to come, one for each call, so that a
  statement about an operation covers a disk that fills up, a permission that is missing and a process that is stopped
  at any point.  \<^verbatim>\<open>CreateTemp\<close> draws its names from a supply of numbers.  Permission bits and modification times are left
  out, and links are not followed because the store never creates one.
\<close>

section \<open>The file system\<close>

datatype fs_entry = Data string | Folder

record disk =
  dEntries :: "(string list \<times> fs_entry) list"
  dFaults :: "string option list"
  dNumbers :: "nat list"

definition ErrNotExist :: err where "ErrNotExist = ErrorText (Msg ''file does not exist'' [])"
definition ENOTDIR :: err where "ENOTDIR = ErrorText (Msg ''not a directory'' [])"
definition EISDIR :: err where "EISDIR = ErrorText (Msg ''is a directory'' [])"
definition ENOTEMPTY :: err where "ENOTEMPTY = ErrorText (Msg ''directory not empty'' [])"
definition ErrExist :: err where "ErrExist = ErrorText (Msg ''file already exists'' [])"

definition io_error :: "string \<Rightarrow> err" where "io_error text = ErrorText (Msg ''%s'' [text])"

definition syscall :: "(disk, 'a) op \<Rightarrow> (disk, 'a) op" where
  "syscall m d = (case dFaults d of
     [] \<Rightarrow> m d
   | None # fs \<Rightarrow> m (d\<lparr>dFaults := fs\<rparr>)
   | Some text # fs \<Rightarrow> (Inl (io_error text), d\<lparr>dFaults := fs\<rparr>))"

definition entry_at :: "disk \<Rightarrow> string list \<Rightarrow> fs_entry option" where
  "entry_at d p = (if p = [] then Some Folder else map_of (dEntries d) p)"

definition under_file :: "disk \<Rightarrow> string list \<Rightarrow> bool" where
  "under_file d p \<longleftrightarrow> list_ex (\<lambda>k. case entry_at d (take k p) of Some (Data _) \<Rightarrow> True | _ \<Rightarrow> False) [0..<length p]"

definition without :: "string list \<Rightarrow> disk \<Rightarrow> disk" where
  "without p d = d\<lparr>dEntries := filter (\<lambda>(q, e). q \<noteq> p) (dEntries d)\<rparr>"

definition with_entry :: "string list \<Rightarrow> fs_entry \<Rightarrow> disk \<Rightarrow> disk" where
  "with_entry p e d = (without p d)\<lparr>dEntries := (p, e) # dEntries (without p d)\<rparr>"

definition os_Stat :: "string list \<Rightarrow> (disk, fs_entry) op" where
  "os_Stat p = syscall (\<lambda>d. if under_file d p then (Inl ENOTDIR, d)
     else case entry_at d p of None \<Rightarrow> (Inl ErrNotExist, d) | Some e \<Rightarrow> (Inr e, d))"

text \<open>An opened file, as what reading it to the end delivers.\<close>

definition os_Open :: "string list \<Rightarrow> (disk, body) op" where
  "os_Open p = bindE (os_Stat p) (\<lambda>e. ret (case e of
     Data bytes \<Rightarrow> \<lparr>bodyBytes = bytes, bodyError = None\<rparr>
   | Folder \<Rightarrow> \<lparr>bodyBytes = [], bodyError = Some EISDIR\<rparr>))"

definition os_Mkdir :: "string list \<Rightarrow> (disk, unit) op" where
  "os_Mkdir p = syscall (\<lambda>d. case entry_at d p of
     Some Folder \<Rightarrow> (Inr (), d)
   | Some (Data _) \<Rightarrow> (Inl ENOTDIR, d)
   | None \<Rightarrow> (Inr (), with_entry p Folder d))"

definition os_MkdirAll :: "string list \<Rightarrow> (disk, unit) op" where
  "os_MkdirAll p = forEach os_Mkdir (map (\<lambda>k. take k p) [1..<Suc (length p)])"

definition temp_path :: "string list \<Rightarrow> nat \<Rightarrow> string list" where
  "temp_path dir n = dir @ [''.upload-'' @ format_nat n]"

fun temp_loop :: "string list \<Rightarrow> nat list \<Rightarrow> (disk, string list) op" where
  "temp_loop dir [] d = (Inl ErrExist, d\<lparr>dNumbers := []\<rparr>)"
| "temp_loop dir (n # ns) d =
     (if entry_at d (temp_path dir n) \<noteq> None then temp_loop dir ns d
      else (Inr (temp_path dir n), with_entry (temp_path dir n) (Data []) (d\<lparr>dNumbers := ns\<rparr>)))"

definition os_CreateTemp :: "string list \<Rightarrow> (disk, string list) op" where
  "os_CreateTemp dir = syscall (\<lambda>d. if entry_at d dir \<noteq> Some Folder then (Inl ErrNotExist, d) else temp_loop dir (dNumbers d) d)"

definition os_Remove :: "string list \<Rightarrow> (disk, unit) op" where
  "os_Remove p = syscall (\<lambda>d. if under_file d p then (Inl ENOTDIR, d)
     else case entry_at d p of
       None \<Rightarrow> (Inl ErrNotExist, d)
     | Some (Data _) \<Rightarrow> (Inr (), without p d)
     | Some Folder \<Rightarrow> if list_ex (\<lambda>(q, e). q \<noteq> [] \<and> butlast q = p) (dEntries d) then (Inl ENOTEMPTY, d) else (Inr (), without p d))"

text \<open>Copying a body into an open file: what was read before a failure has been written.\<close>

definition io_Copy :: "string list \<Rightarrow> body \<Rightarrow> (disk, unit) op" where
  "io_Copy p b = syscall (\<lambda>d. (case bodyError b of None \<Rightarrow> Inr () | Some e \<Rightarrow> Inl e, with_entry p (Data (bodyBytes b)) d))"

text \<open>\<^verbatim>\<open>Sync\<close>, \<^verbatim>\<open>Close\<close> and \<^verbatim>\<open>Chmod\<close> change nothing the model sees, but may fail.\<close>

definition os_touch :: "(disk, unit) op" where
  "os_touch = syscall (ret ())"

definition os_Rename :: "string list \<Rightarrow> string list \<Rightarrow> (disk, unit) op" where
  "os_Rename from to = syscall (\<lambda>d. case entry_at d from of
     Some (Data bytes) \<Rightarrow> if entry_at d to = Some Folder then (Inl ErrExist, d) else (Inr (), with_entry to (Data bytes) (without from d))
   | _ \<Rightarrow> (Inl ErrNotExist, d))"

text \<open>\<^verbatim>\<open>RemoveAll\<close> removes what lies under a folder before the folder and goes on after a failure, reporting the first.\<close>

definition below :: "disk \<Rightarrow> string list \<Rightarrow> string list list" where
  "below d p = sort (remdups (filter (\<lambda>q. take (length p) q = p) (map fst (dEntries d))))"

fun remove_loop :: "err option \<Rightarrow> string list list \<Rightarrow> (disk, unit) op" where
  "remove_loop first [] d = (case first of None \<Rightarrow> Inr () | Some e \<Rightarrow> Inl e, d)"
| "remove_loop first (p # ps) d =
     (case os_Remove p d of
        (Inl e, d') \<Rightarrow> remove_loop (case first of None \<Rightarrow> Some e | Some _ \<Rightarrow> first) ps d'
      | (Inr _, d') \<Rightarrow> remove_loop first ps d')"

definition os_RemoveAll :: "string list \<Rightarrow> (disk, unit) op" where
  "os_RemoveAll p d = (if under_file d p then (Inl ENOTDIR, d) else remove_loop None (rev (below d p)) d)"

text \<open>A \<^verbatim>\<open>defer\<close> whose error is dropped.\<close>

definition deferred :: "(disk, 'a) op \<Rightarrow> (disk, unit) op \<Rightarrow> (disk, 'a) op" where
  "deferred m cleanup d = (case m d of (r, d1) \<Rightarrow> (r, snd (cleanup d1)))"

section \<open>The store\<close>

record localStore =
  lsRoot :: string
  lsPrivate :: bool

definition root_path :: "localStore \<Rightarrow> string list" where
  "root_path ls = key_path (lsRoot ls)"

definition local_path :: "localStore \<Rightarrow> string \<Rightarrow> (disk, string list) op" where
  "local_path ls key =
     (if lsRoot ls = [] then throw (ErrorText (Msg ''local store: directory not set'' []))
      else if key = [] then ret (root_path ls)
      else bindE (guard (map_option (Wrapped (Msg ''invalid object key: %w'' [])) (ValidateKey key))) (\<lambda>_.
        ret (root_path ls @ key_path key)))"

definition local_Exists :: "localStore \<Rightarrow> string \<Rightarrow> (disk, bool) op" where
  "local_Exists ls key =
     bindE (local_path ls key) (\<lambda>path.
     bindE (attempt (os_Stat path)) (\<lambda>r. case r of
       Inl e \<Rightarrow> if e = ErrNotExist then ret False else throw e
     | Inr _ \<Rightarrow> ret True))"

definition local_Get :: "localStore \<Rightarrow> string \<Rightarrow> (disk, body option) op" where
  "local_Get ls key =
     bindE (local_path ls key) (\<lambda>path.
     bindE (attempt (os_Open path)) (\<lambda>r. case r of
       Inl e \<Rightarrow> if e = ErrNotExist then ret None else throw e
     | Inr b \<Rightarrow> bindE os_touch (\<lambda>_. ret (Some b))))"

text \<open>\<^verbatim>\<open>errors.Join\<close> of the three outcomes of writing the temporary file: an error if one of them is.\<close>

definition errors_Join :: "(err, unit) result list \<Rightarrow> err option" where
  "errors_Join rs = (case List.map_filter (\<lambda>r. case r of Inl e \<Rightarrow> Some e | Inr _ \<Rightarrow> None) rs of
     [] \<Rightarrow> None | [e] \<Rightarrow> Some e | e # es \<Rightarrow> Some (foldl (Wrapped2 (Msg ''%w %w'' [])) e es))"

definition put_temp :: "localStore \<Rightarrow> string list \<Rightarrow> body \<Rightarrow> string list \<Rightarrow> (disk, unit) op" where
  "put_temp ls target b tmp =
     bindE (if lsPrivate ls then ret () else os_touch) (\<lambda>_.
     bindE (attempt (io_Copy tmp b)) (\<lambda>copyErr.
     bindE (attempt os_touch) (\<lambda>syncErr.
     bindE (attempt os_touch) (\<lambda>closeErr.
     bindE (guard (errors_Join [copyErr, syncErr, closeErr])) (\<lambda>_.
     os_Rename tmp target)))))"

definition local_Put :: "localStore \<Rightarrow> string \<Rightarrow> body \<Rightarrow> (disk, unit) op" where
  "local_Put ls key b =
     bindE (local_path ls key) (\<lambda>target.
     bindE (os_MkdirAll (butlast target)) (\<lambda>_.
     bindE (os_CreateTemp (butlast target)) (\<lambda>tmp.
     deferred (put_temp ls target b tmp) (os_Remove tmp))))"

fun remove_empty :: "string list list \<Rightarrow> (disk, unit) op" where
  "remove_empty [] d = (Inr (), d)"
| "remove_empty (dir # dirs) d = (case os_Remove dir d of (Inl _, d') \<Rightarrow> (Inr (), d') | (Inr _, d') \<Rightarrow> remove_empty dirs d')"

definition local_Delete :: "localStore \<Rightarrow> string \<Rightarrow> (disk, unit) op" where
  "local_Delete ls key =
     bindE (local_path ls key) (\<lambda>path.
     bindE (attempt (os_Remove path)) (\<lambda>r. case r of
       Inl e \<Rightarrow> if e \<noteq> ErrNotExist then throw e else
         remove_empty (map (\<lambda>k. take k path) (rev [Suc (length (root_path ls))..<length path]))
     | Inr _ \<Rightarrow> remove_empty (map (\<lambda>k. take k path) (rev [Suc (length (root_path ls))..<length path]))))"

definition local_DeletePrefix :: "localStore \<Rightarrow> string \<Rightarrow> (disk, unit) op" where
  "local_DeletePrefix ls prefix =
     bindE (guard (requirePrefix prefix)) (\<lambda>_. bindE (local_path ls prefix) os_RemoveAll)"

definition local_Copy :: "localStore \<Rightarrow> string \<Rightarrow> string \<Rightarrow> (disk, unit) op" where
  "local_Copy ls from to =
     bindE (local_path ls from) (\<lambda>source. bindE (os_Open source) (local_Put ls to))"

definition local_List :: "localStore \<Rightarrow> string \<Rightarrow> (disk, string list) op" where
  "local_List ls prefix =
     bindE (local_path ls prefix) (\<lambda>dir.
     bindE (attempt (os_Stat dir)) (\<lambda>r. case r of
       Inl e \<Rightarrow> if e = ErrNotExist then ret [] else throw e
     | Inr _ \<Rightarrow>
         bindE (gets (\<lambda>d. below d dir)) (\<lambda>paths.
         bindE (gets (\<lambda>d. filter (\<lambda>p. entry_at d p = Some Folder) paths)) (\<lambda>folders.
         bindE (forEach (\<lambda>_. os_touch) folders) (\<lambda>_.
         ret (map (\<lambda>p. if p = root_path ls then ''.'' else Join (drop (length (root_path ls)) p) ''/'')
           (filter (\<lambda>p. p \<notin> set folders) paths)))))))"

definition local_ListPrefixes :: "localStore \<Rightarrow> string \<Rightarrow> (disk, string list) op" where
  "local_ListPrefixes ls prefix =
     bindE (local_path ls prefix) (\<lambda>dir.
     bindE (attempt (os_Stat dir)) (\<lambda>r. case r of
       Inl e \<Rightarrow> if e = ErrNotExist then ret [] else throw e
     | Inr (Data _) \<Rightarrow> throw ENOTDIR
     | Inr Folder \<Rightarrow>
         gets (\<lambda>d. map last (filter (\<lambda>p. p \<noteq> [] \<and> butlast p = dir \<and> entry_at d p = Some Folder) (below d dir)))))"

definition local_PresignPut :: "string \<Rightarrow> (disk, UploadRequest) op" where
  "local_PresignPut key = throw (ErrorText (Msg ''local store: uploads go through the server's upload route'' []))"

definition local_Store :: "localStore \<Rightarrow> disk Store" where
  "local_Store ls = \<lparr>stExists = local_Exists ls, stGet = local_Get ls, stPut = local_Put ls, stDelete = local_Delete ls,
     stDeletePrefix = local_DeletePrefix ls, stCopy = local_Copy ls, stList = local_List ls,
     stListPrefixes = local_ListPrefixes ls, stPresignPut = local_PresignPut\<rparr>"

section \<open>Files under failing calls\<close>

definition bytes_at :: "disk \<Rightarrow> string list \<Rightarrow> string option" where
  "bytes_at d p = (case entry_at d p of Some (Data bytes) \<Rightarrow> Some bytes | _ \<Rightarrow> None)"

definition temporary :: "string list \<Rightarrow> bool" where
  "temporary p \<longleftrightarrow> p \<noteq> [] \<and> HasPrefix (last p) ''.upload-''"

lemma map_of_without: "map_of (filter (\<lambda>(q, e). q \<noteq> p) xs) r = (if r = p then None else map_of xs r)"
  by (induction xs) auto

lemma entry_at_without [simp]: "entry_at (without q d) p = (if p = q \<and> p \<noteq> [] then None else entry_at d p)"
  by (simp add: entry_at_def without_def map_of_without)

lemma entry_at_with [simp]: "entry_at (with_entry q e d) p = (if p = q \<and> p \<noteq> [] then Some e else entry_at d p)"
  by (simp add: entry_at_def with_entry_def without_def map_of_without)

lemma entry_at_supply [simp]: "entry_at (d\<lparr>dFaults := fs\<rparr>) = entry_at d" "entry_at (d\<lparr>dNumbers := ns\<rparr>) = entry_at d"
  by (simp_all add: entry_at_def fun_eq_iff)

lemma bytes_at_supply [simp]: "bytes_at (d\<lparr>dFaults := fs\<rparr>) = bytes_at d" "bytes_at (d\<lparr>dNumbers := ns\<rparr>) = bytes_at d"
  by (simp_all add: bytes_at_def fun_eq_iff)

lemma bytes_at_with: "bytes_at (with_entry q e d) p = (if p = q \<and> p \<noteq> [] then (case e of Data b \<Rightarrow> Some b | Folder \<Rightarrow> None) else bytes_at d p)"
  by (auto simp: bytes_at_def split: fs_entry.split)

lemma bytes_at_without: "bytes_at (without q d) p = (if p = q then None else bytes_at d p)"
  by (simp add: bytes_at_def entry_at_def without_def map_of_without)

lemma syscall_cases:
  obtains (run) fs where "syscall m d = m (d\<lparr>dFaults := fs\<rparr>)"
  | (fault) fs msg where "syscall m d = (Inl (io_error msg), d\<lparr>dFaults := fs\<rparr>)"
proof (cases "dFaults d")
  case Nil
  then have "syscall m d = m (d\<lparr>dFaults := []\<rparr>)" by (simp add: syscall_def) (metis disk.update_convs(2) Nil disk.surjective)
  then show ?thesis by (rule run)
next
  case (Cons f fs)
  then show ?thesis using run fault by (cases f) (auto simp: syscall_def)
qed

text \<open>A call that leaves the bytes at a path leaves them when it fails too.\<close>

lemma keeps_syscall:
  assumes "\<And>d. bytes_at (snd (m d)) p = bytes_at d p"
  shows "bytes_at (snd (syscall m d)) p = bytes_at d p"
  using assms by (cases m d rule: syscall_cases) auto

lemma syscall_bytes:
  assumes "\<And>d. bytes_at (snd (m d)) q \<in> {bytes_at d q, None}"
  shows "bytes_at (snd (syscall m d)) q \<in> {bytes_at d q, None}"
proof (cases m d rule: syscall_cases)
  case (run fs)
  then show ?thesis using assms [of "d\<lparr>dFaults := fs\<rparr>"] by simp
qed simp

lemma os_Stat_bytes [simp]: "bytes_at (snd (os_Stat p d)) q = bytes_at d q"
  unfolding os_Stat_def by (rule keeps_syscall) (simp split: option.split)

lemma os_Open_bytes [simp]: "bytes_at (snd (os_Open p d)) q = bytes_at d q"
  using os_Stat_bytes [of p d q] by (auto simp: os_Open_def bindE_run simp del: os_Stat_bytes split: prod.split sum.split)

lemma os_touch_entry [simp]: "entry_at (snd (os_touch d)) q = entry_at d q"
  by (cases "ret () :: (disk, unit) op" d rule: syscall_cases) (simp_all add: os_touch_def)

lemma os_touch_bytes [simp]: "bytes_at (snd (os_touch d)) q = bytes_at d q"
  by (simp add: bytes_at_def)

lemma os_Mkdir_bytes: "bytes_at (snd (os_Mkdir p d)) q = bytes_at d q"
  unfolding os_Mkdir_def by (rule keeps_syscall) (auto simp: bytes_at_def split: option.split fs_entry.split)

lemma keeps_bytes_iff: "(\<forall>v. keeps (\<lambda>d. bytes_at d q = v) m) \<longleftrightarrow> (\<forall>d. bytes_at (snd (m d)) q = bytes_at d q)"
  by (auto simp: keeps_def)

lemma os_MkdirAll_bytes [simp]: "bytes_at (snd (os_MkdirAll p d)) q = bytes_at d q"
  using keeps_forEach [of "\<lambda>d'. bytes_at d' q = bytes_at d q" os_Mkdir] os_Mkdir_bytes
  by (auto simp: os_MkdirAll_def keeps_def)

lemma temp_path_temporary [simp]: "temporary (temp_path dir n)"
  by (simp add: temporary_def temp_path_def HasPrefix_iff)

lemma temp_loop_bytes: "\<not> temporary q \<Longrightarrow> bytes_at (snd (temp_loop dir ns d)) q = bytes_at d q"
  by (induction dir ns d rule: temp_loop.induct) (auto simp: bytes_at_with)

lemma os_CreateTemp_bytes: "\<not> temporary q \<Longrightarrow> bytes_at (snd (os_CreateTemp dir d)) q = bytes_at d q"
  unfolding os_CreateTemp_def by (rule keeps_syscall) (simp add: temp_loop_bytes)

lemma temp_loop_result: "fst (temp_loop dir ns d) = Inr p \<Longrightarrow> temporary p"
  by (induction dir ns d rule: temp_loop.induct) (auto split: if_splits)

lemma os_CreateTemp_result: "fst (os_CreateTemp dir d) = Inr p \<Longrightarrow> temporary p"
  unfolding os_CreateTemp_def
  by (rule syscall_cases [of "\<lambda>d. if entry_at d dir \<noteq> Some Folder then (Inl ErrNotExist, d) else temp_loop dir (dNumbers d) d" d])
    (auto dest: temp_loop_result split: if_splits)

lemma os_Remove_bytes:
  "bytes_at (snd (os_Remove p d)) q \<in> {bytes_at d q, None}" "q \<noteq> p \<Longrightarrow> bytes_at (snd (os_Remove p d)) q = bytes_at d q"
proof -
  show "bytes_at (snd (os_Remove p d)) q \<in> {bytes_at d q, None}"
    unfolding os_Remove_def by (rule syscall_bytes) (auto simp: bytes_at_without split: option.split fs_entry.split)
  show "q \<noteq> p \<Longrightarrow> bytes_at (snd (os_Remove p d)) q = bytes_at d q"
    unfolding os_Remove_def by (rule keeps_syscall) (auto simp: bytes_at_without split: option.split fs_entry.split)
qed

section \<open>Writing a file\<close>

lemma errors_Join_None: "errors_Join [a, b, c] = None \<Longrightarrow> a = Inr () \<and> b = Inr () \<and> c = Inr ()"
  by (auto simp: errors_Join_def List.map_filter_def split: sum.splits)

lemma io_Copy_bytes: "q \<noteq> p \<Longrightarrow> bytes_at (snd (io_Copy p b d)) q = bytes_at d q"
  unfolding io_Copy_def by (rule keeps_syscall) (simp add: bytes_at_with)

lemma io_Copy_done:
  assumes "fst (io_Copy p b d) = Inr ()" and "p \<noteq> []"
  shows "bodyError b = None \<and> entry_at (snd (io_Copy p b d)) p = Some (Data (bodyBytes b))"
  using assms unfolding io_Copy_def
  by (cases "\<lambda>d. (case bodyError b of None \<Rightarrow> Inr () | Some e \<Rightarrow> Inl e, with_entry p (Data (bodyBytes b)) d)" d rule: syscall_cases)
    (auto split: option.splits)

lemma os_Rename_bytes:
  assumes "entry_at d from = Some (Data bytes)" and "q \<noteq> from"
  shows "bytes_at (snd (os_Rename from to d)) q = (if fst (os_Rename from to d) = Inr () \<and> q = to then Some bytes else bytes_at d q)"
    and "fst (os_Rename from to d) = Inr () \<Longrightarrow> to \<noteq> []"
proof -
  let ?m = "\<lambda>d. case entry_at d from of
     Some (Data bytes) \<Rightarrow> if entry_at d to = Some Folder then (Inl ErrExist, d) else (Inr (), with_entry to (Data bytes) (without from d))
   | _ \<Rightarrow> (Inl ErrNotExist, d)"
  have root: "entry_at d [] = Some Folder" by (simp add: entry_at_def)
  show "bytes_at (snd (os_Rename from to d)) q = (if fst (os_Rename from to d) = Inr () \<and> q = to then Some bytes else bytes_at d q)"
    using assms root unfolding os_Rename_def
    by (cases ?m d rule: syscall_cases) (auto simp: bytes_at_with bytes_at_without)
  show "fst (os_Rename from to d) = Inr () \<Longrightarrow> to \<noteq> []"
    using assms root unfolding os_Rename_def
    by (cases ?m d rule: syscall_cases) (auto split: if_splits)
qed

text \<open>The temporary file is renamed over the target only when all of the body has been written to it.\<close>

lemma put_temp_run:
  defines "chmod ls \<equiv> (if lsPrivate ls then ret () else os_touch)"
  shows "put_temp ls target b tmp d =
    (let d1 = snd (chmod ls d); d2 = snd (io_Copy tmp b d1); d3 = snd (os_touch d2); d4 = snd (os_touch d3) in
     case fst (chmod ls d) of Inl e \<Rightarrow> (Inl e, d1)
     | Inr _ \<Rightarrow> case errors_Join [fst (io_Copy tmp b d1), fst (os_touch d2), fst (os_touch d3)] of
         Some e \<Rightarrow> (Inl e, d4) | None \<Rightarrow> os_Rename tmp target d4)"
  unfolding put_temp_def chmod_def
  by (auto simp: bindE_run attempt_run guard_def Let_def split: prod.split sum.split option.split)

lemma put_temp_bytes:
  assumes "temporary tmp" and "\<not> temporary q"
  shows "bytes_at (snd (put_temp ls target b tmp d)) q =
      (if fst (put_temp ls target b tmp d) = Inr () \<and> q = target then Some (bodyBytes b) else bytes_at d q)"
    and "fst (put_temp ls target b tmp d) = Inr () \<Longrightarrow> bodyError b = None"
proof -
  define chmod where "chmod = (if lsPrivate ls then ret () else os_touch)"
  define d1 where "d1 = snd (chmod d)"
  define d2 where "d2 = snd (io_Copy tmp b d1)"
  define d3 where "d3 = snd (os_touch d2)"
  define d4 where "d4 = snd (os_touch d3)"
  have ne: "q \<noteq> tmp" "tmp \<noteq> []" using assms by (auto simp: temporary_def)
  have same: "bytes_at d1 q = bytes_at d q" "bytes_at d4 q = bytes_at d q"
    using ne by (simp_all add: d1_def d2_def d3_def d4_def chmod_def io_Copy_bytes)
  have written: "bodyError b = None \<and> entry_at d4 tmp = Some (Data (bodyBytes b))" if "fst (io_Copy tmp b d1) = Inr ()"
    using io_Copy_done [OF that ne(2)] by (simp add: d2_def d3_def d4_def)
  have run: "put_temp ls target b tmp d = (case fst (chmod d) of Inl e \<Rightarrow> (Inl e, d1)
     | Inr _ \<Rightarrow> case errors_Join [fst (io_Copy tmp b d1), fst (os_touch d2), fst (os_touch d3)] of
         Some e \<Rightarrow> (Inl e, d4) | None \<Rightarrow> os_Rename tmp target d4)"
    unfolding put_temp_run Let_def d4_def d3_def d2_def d1_def chmod_def by (rule refl)
  show "fst (put_temp ls target b tmp d) = Inr () \<Longrightarrow> bodyError b = None"
    using written by (auto simp: run dest: errors_Join_None split: sum.splits option.splits)
  show "bytes_at (snd (put_temp ls target b tmp d)) q =
      (if fst (put_temp ls target b tmp d) = Inr () \<and> q = target then Some (bodyBytes b) else bytes_at d q)"
    using written os_Rename_bytes(1) [of d4 tmp "bodyBytes b" q target] ne same
    by (auto simp: run dest!: errors_Join_None split: sum.splits option.splits)
qed

text \<open>Writing an object is all or nothing: whatever call fails, every file but the temporary ones has the bytes it had, except
  that after a \<^verbatim>\<open>Put\<close> that reports success the file of the key has exactly the bytes of the body.\<close>

lemma local_Put_bytes:
  assumes "\<not> temporary q"
  shows "bytes_at (snd (local_Put ls key b d)) q =
      (if fst (local_Put ls key b d) = Inr () \<and> q = root_path ls @ key_path key then Some (bodyBytes b) else bytes_at d q)"
    and "fst (local_Put ls key b d) = Inr () \<Longrightarrow> bodyError b = None"
proof -
  have *: "bytes_at (snd (local_Put ls key b d)) q =
      (if fst (local_Put ls key b d) = Inr () \<and> q = root_path ls @ key_path key then Some (bodyBytes b) else bytes_at d q)
    \<and> (fst (local_Put ls key b d) = Inr () \<longrightarrow> bodyError b = None)"
  proof (cases "local_path ls key d")
    case (Pair r d0)
    have d0: "d0 = d" "r = Inr target \<Longrightarrow> target = root_path ls @ key_path key" for target
      using Pair by (auto simp: local_path_def guard_def bindE_run key_path_def split: if_splits option.splits)
    show ?thesis
    proof (cases r)
      case (Inl e)
      then show ?thesis using Pair d0 by (simp add: local_Put_def bindE_run)
    next
      case (Inr target)
      define d1 where "d1 = snd (os_MkdirAll (butlast target) d)"
      define d2 where "d2 = snd (os_CreateTemp (butlast target) d1)"
      have same: "bytes_at d1 q = bytes_at d q" "bytes_at d2 q = bytes_at d q"
        using assms by (simp_all add: d1_def d2_def os_CreateTemp_bytes)
      have run: "local_Put ls key b d = (case fst (os_MkdirAll (butlast target) d) of Inl e \<Rightarrow> (Inl e, d1) | Inr _ \<Rightarrow>
          case fst (os_CreateTemp (butlast target) d1) of Inl e \<Rightarrow> (Inl e, d2) | Inr tmp \<Rightarrow>
            (fst (put_temp ls target b tmp d2), snd (os_Remove tmp (snd (put_temp ls target b tmp d2)))))"
        using Pair Inr d0(1) by (auto simp: local_Put_def bindE_run d1_def d2_def deferred_def split: prod.split sum.split)
      show ?thesis
      proof (cases "fst (os_CreateTemp (butlast target) d1)")
        case (Inr tmp)
        then have "temporary tmp" by (rule os_CreateTemp_result)
        moreover from this have "q \<noteq> tmp" using assms by blast
        ultimately show ?thesis
          using put_temp_bytes [OF \<open>temporary tmp\<close> assms, of ls target b d2] os_Remove_bytes(2) [of q tmp "snd (put_temp ls target b tmp d2)"]
            same Inr d0(2) [OF \<open>r = Inr target\<close>]
          by (auto simp: run split: sum.split)
      qed (use same in \<open>auto simp: run split: sum.split\<close>)
    qed
  qed
  then show "bytes_at (snd (local_Put ls key b d)) q =
      (if fst (local_Put ls key b d) = Inr () \<and> q = root_path ls @ key_path key then Some (bodyBytes b) else bytes_at d q)"
    and "fst (local_Put ls key b d) = Inr () \<Longrightarrow> bodyError b = None" by blast+
qed

lemma local_path_run: "snd (local_path ls key d) = d" "fst (local_path ls key d) = Inr p \<Longrightarrow> p = root_path ls @ key_path key"
  by (auto simp: local_path_def guard_def bindE_run key_path_def split: if_splits option.splits)

lemma local_Copy_bytes:
  assumes "\<not> temporary q" and "q \<noteq> root_path ls @ key_path to"
  shows "bytes_at (snd (local_Copy ls from to d)) q = bytes_at d q"
proof (cases "fst (local_path ls from d)")
  case (Inl e)
  then show ?thesis using local_path_run(1) [of ls "from" d] by (auto simp: local_Copy_def bindE_run split: prod.split sum.split)
next
  case (Inr source)
  then have run: "local_Copy ls from to d = bindE (os_Open source) (local_Put ls to) d"
    using local_path_run(1) [of ls "from" d] by (auto simp: local_Copy_def bindE_run split: prod.split)
  have "bytes_at (snd (os_Open source d)) q = bytes_at d q" by simp
  then show ?thesis using local_Put_bytes(1) [OF assms(1), of ls to] assms(2)
    by (auto simp: run bindE_run simp del: os_Open_bytes split: prod.split sum.split)
qed

section \<open>Taking files away\<close>

lemma remove_loop_bytes: "bytes_at (snd (remove_loop first ps d)) q \<in> {bytes_at d q, None}"
proof (induction first ps d rule: remove_loop.induct)
  case (2 first p ps d)
  then show ?case using os_Remove_bytes(1) [of p d q] by (cases "os_Remove p d"; cases "fst (os_Remove p d)") auto
qed simp

lemma remove_loop_elsewhere: "q \<notin> set ps \<Longrightarrow> bytes_at (snd (remove_loop first ps d)) q = bytes_at d q"
proof (induction first ps d rule: remove_loop.induct)
  case (2 first p ps d)
  then show ?case using os_Remove_bytes(2) [of q p d] by (cases "os_Remove p d"; cases "fst (os_Remove p d)") auto
qed simp

lemma local_DeletePrefix_bytes: "bytes_at (snd (local_DeletePrefix ls prefix d)) q \<in> {bytes_at d q, None}"
  using remove_loop_bytes local_path_run(1) [of ls prefix d]
  by (auto simp: local_DeletePrefix_def os_RemoveAll_def bindE_run guard_def split: prod.split sum.split option.split)
    (metis option.distinct(1))

lemma local_List_bytes: "bytes_at (snd (local_List ls prefix d)) q = bytes_at d q"
proof -
  have touches: "bytes_at (snd (forEach (\<lambda>_. os_touch) folders d)) q = bytes_at d q" for folders :: "string list list" and d
    using keeps_forEach [of "\<lambda>d'. bytes_at d' q = bytes_at d q" "\<lambda>_. os_touch"] by (auto simp: keeps_def)
  then show ?thesis using os_Stat_bytes [of _ d q] local_path_run(1) [of ls prefix d]
    unfolding local_List_def
    by (auto simp: bindE_run attempt_run simp del: os_Stat_bytes split: prod.split sum.split) (metis snd_conv)+
qed

lemma local_reads_bytes: "bytes_at (snd (local_Get ls key d)) q = bytes_at d q" "bytes_at (snd (local_Exists ls key d)) q = bytes_at d q"
proof -
  have touch: "bytes_at (snd (os_touch (snd (os_Open p d)))) q = bytes_at d q" for p by simp
  show "bytes_at (snd (local_Get ls key d)) q = bytes_at d q"
    using local_path_run(1) [of ls key d] touch os_Open_bytes [of _ d q] unfolding local_Get_def
    by (auto simp: bindE_run attempt_run simp del: os_Open_bytes os_touch_bytes split: prod.split sum.split) (metis snd_conv)+
  show "bytes_at (snd (local_Exists ls key d)) q = bytes_at d q"
    using local_path_run(1) [of ls key d] unfolding local_Exists_def
    by (auto simp: bindE_run attempt_run split: prod.split sum.split)
qed

section \<open>The contract of the driver\<close>

definition local_obj :: "localStore \<Rightarrow> disk \<Rightarrow> string \<Rightarrow> string option" where
  "local_obj ls d key = bytes_at d (root_path ls @ key_path key)"

definition local_regular :: "localStore \<Rightarrow> string \<Rightarrow> bool" where
  "local_regular ls key \<longleftrightarrow> key_path key \<noteq> [] \<and> \<not> HasPrefix (last (key_path key)) ''.upload-''"

lemma local_regular_path: "local_regular ls key \<Longrightarrow> \<not> temporary (root_path ls @ key_path key)"
  by (simp add: local_regular_def temporary_def)

lemma io_error_other: "io_error msg \<noteq> ErrNotExist"
  by (simp add: io_error_def ErrNotExist_def)

lemma os_Stat_value:
  "fst (os_Stat p d) = Inr e \<Longrightarrow> entry_at d p = Some e" "fst (os_Stat p d) = Inl ErrNotExist \<Longrightarrow> entry_at d p = None"
proof -
  let ?m = "\<lambda>d. if under_file d p then (Inl ENOTDIR, d) else case entry_at d p of None \<Rightarrow> (Inl ErrNotExist, d) | Some e \<Rightarrow> (Inr e, d)"
  have "ENOTDIR \<noteq> ErrNotExist" by (simp add: ENOTDIR_def ErrNotExist_def)
  then show "fst (os_Stat p d) = Inr e \<Longrightarrow> entry_at d p = Some e" "fst (os_Stat p d) = Inl ErrNotExist \<Longrightarrow> entry_at d p = None"
    unfolding os_Stat_def
    by (cases ?m d rule: syscall_cases; auto simp: io_error_other split: if_splits option.splits)+
qed

lemma os_Open_value:
  "fst (os_Open p d) = Inr b \<Longrightarrow> bytes_at d p = (if bodyError b = None then Some (bodyBytes b) else None)"
  "fst (os_Open p d) = Inl ErrNotExist \<Longrightarrow> bytes_at d p = None"
  using os_Stat_value [of p d]
  by (auto simp: os_Open_def bindE_run bytes_at_def split: prod.splits sum.splits fs_entry.splits)

lemma local_Get_obj:
  assumes "local_Get ls k d = (Inr f, d')"
  shows "local_obj ls d k = (case f of Some b \<Rightarrow> if bodyError b = None then Some (bodyBytes b) else None | None \<Rightarrow> None)"
  using assms local_path_run [of ls k d] os_Open_value [of "root_path ls @ key_path k" d]
  by (auto simp: local_Get_def local_obj_def bindE_run attempt_run split: prod.splits sum.splits if_splits)

lemma hash_not_temporary:
  assumes "ValidateBlobHash hash = None"
  shows "\<not> HasPrefix (hash @ s) ''.upload-''"
  using blob_hash(1,3) [OF assms] by (cases hash) auto

interpretation disk_store: object_store "local_Store ls" "local_obj ls" "local_regular ls" for ls
proof (unfold_locales, goal_cases)
  case (1 k l)
  then show ?case by (rule named_path) (use hash_not_temporary hash_not_temporary [where s = "[]"] in \<open>simp_all add: local_regular_def\<close>)
next
  case (2 k key b d)
  then show ?case using local_Put_bytes(1) [OF local_regular_path]
    by (auto simp: local_Store_def local_obj_def)
next
  case (3 key b d)
  then show ?case using local_Put_bytes(2) [of "[]" ls key b d] by (simp add: local_Store_def temporary_def)
next
  case (4 k to "from" d)
  then show ?case by (simp add: local_Store_def local_obj_def local_Copy_bytes local_regular_path)
next
  case (5 k prefix d)
  then show ?case by (simp add: local_Store_def local_obj_def local_List_bytes)
next
  case (6 k key d)
  then show ?case by (simp add: local_Store_def local_obj_def local_reads_bytes)
next
  case (7 k key d)
  then show ?case by (simp add: local_Store_def local_obj_def local_reads_bytes)
next
  case (8 k prefix d)
  then show ?case using local_DeletePrefix_bytes by (simp add: local_Store_def local_obj_def)
next
  case (9 k d f d')
  then show ?case by (simp add: local_Store_def local_Get_obj)
qed

text \<open>The source maps are kept under a key prefix of their directory.\<close>

interpretation prefixed_disk: object_store "WithPrefix (local_Store ls) (q @ ''/'')" "\<lambda>d k. local_obj ls d (q @ CHR ''/'' # k)"
    "\<lambda>k. local_regular ls (q @ CHR ''/'' # k)" for ls q
proof (rule disk_store.prefixed_store)
  fix k l assume "named k l"
  then have "local_regular ls k" by (rule disk_store.regular_named)
  then show "local_regular ls (q @ CHR ''/'' # k)" by (simp add: local_regular_def key_path_slash)
qed

section \<open>Properties\<close>

text \<open>C21: A blob and a source map always have the bytes their name promises.  Starting from an empty directory, whatever the
  server is asked to write into it or to delete, in any order, and whichever file system calls fail on the way, reading a
  blob or a source map to the end delivers bytes whose SHA-256 digest, in base64url, is the name it was asked by.  An
  interrupted upload, a body that does not match and a file of an update with a deviously chosen name change nothing of it.\<close>

theorem content_matches_name:
  assumes "canonical_uuids uuid" and "dEntries d = []" and "(bucket_step env uuid (\<lambda>_ _. True) (local_Store ls))\<^sup>*\<^sup>* d d'"
    and "blob_Get (local_Store ls) appId hash d' = (Inr (Some b), d'') \<or> sourcemap_Get (local_Store ls) appId hash d' = (Inr (Some b), d'')"
    and "bodyError b = None"
  shows "base64_encode (ueSha256 env (bodyBytes b)) = hash"
proof -
  have "disk_store.sound ls (kept (ueSha256 env) (\<lambda>_ _. True)) d'"
    using assms(3)
  proof (induction rule: rtranclp_induct)
    case base
    have "local_obj ls d k = None" for k using assms(2) by (simp add: local_obj_def bytes_at_def entry_at_def)
    then show ?case by (simp add: disk_store.sound_def content_named_def)
  qed (auto intro: disk_store.bucket_step_sound assms(1))
  moreover have "\<exists>k. named k (Content hash) \<and> stGet (local_Store ls) k d' = (Inr (Some b), d'')"
    using assms(4) by (auto simp: blob_Get_def sourcemap_Get_def blob_key_def sourcemap_key_def guard_def bindE_run named_def split: option.splits)
  ultimately show ?thesis using disk_store.get_obj [OF disk_store.regular_named] assms(5)
    by (fastforce simp: disk_store.sound_def content_named_def)
qed

definition demo_local :: localStore where "demo_local = \<lparr>lsRoot = ''data'', lsPrivate = False\<rparr>"

definition demo_disk :: disk where "demo_disk = \<lparr>dEntries = [], dFaults = [None, None], dNumbers = [7]\<rparr>"

definition demo_body :: body where "demo_body = \<lparr>bodyBytes = ''x'', bodyError = None\<rparr>"

definition demo_written :: disk where
  "demo_written = snd (handleLocalUpload demo_upload_env (local_Store demo_local) None ''a'' (BlobObjectKey ''a'' demo_hash) demo_body demo_disk)"

definition dashed_uuids :: "string \<Rightarrow> string option" where
  "dashed_uuids u = (if length u = 36 \<and> CHR ''/'' \<notin> set u then Some u else None)"

theorem content_matches_name_witness: "base64_encode (ueSha256 demo_upload_env (bodyBytes demo_body)) = demo_hash"
proof (rule content_matches_name [where d = demo_disk and d' = demo_written and d'' = demo_written and ls = demo_local and appId = "''a''" and uuid = dashed_uuids])
  show "canonical_uuids dashed_uuids" by (simp add: canonical_uuids_def dashed_uuids_def)
  show "dEntries demo_disk = []" by (simp add: demo_disk_def)
  have "fst (granted_key ''a'' ''main'' (ToBlob demo_hash) demo_disk) = Inr (BlobObjectKey ''a'' demo_hash)" by code_simp
  then show "(bucket_step demo_upload_env dashed_uuids (\<lambda>_ _. True) (local_Store demo_local))\<^sup>*\<^sup>* demo_disk demo_written"
    unfolding demo_written_def by (intro r_into_rtranclp bucket_step.upload) (assumption, simp)
  have "blob_Get (local_Store demo_local) ''a'' demo_hash demo_written = (Inr (Some demo_body), demo_written)" by code_simp
  then show "blob_Get (local_Store demo_local) ''a'' demo_hash demo_written = (Inr (Some demo_body), demo_written)
      \<or> sourcemap_Get (local_Store demo_local) ''a'' demo_hash demo_written = (Inr (Some demo_body), demo_written)" ..
  show "bodyError demo_body = None" by (simp add: demo_body_def)
qed

end
