(* ===== verification/Spec2Isabelle.thy ===== *)
theory Spec2Isabelle
  imports BranchPattern BsdiffIndex Rollout RateLimit SurfBlock BranchRules Lifecycle Validation Repositories ServedUpdates Staging KeyScope IndexCache SymTrace LocalStore
begin

text \<open>
  A verification of the update server in \<^verbatim>\<open>src/\<close>: a control plane that publishes over-the-air updates of mobile apps and
  serves them to devices.  This theory joins the development; it has no definitions of its own.  Each theory below states the
  properties of its component at its end, after the lemmas they rest on.

  \<^bold>\<open>The program.\<close>  A publisher uploads the files of an update to an object store and has the update checked; the Postgres
  database holds apps, channels, branches, updates and rollouts.  A device polls for its channel and runtime version: the Expo
  protocol service resolves the branch (channel mapping, channel rollout, branch surfing), the update (newest checked update, or
  its rollout's control by the device's bucket) and answers with a manifest or a directive, through an in-process or shared
  cache; a device that has an older bundle may be sent a binary patch.  People administer all this through a dashboard with
  accounts, sessions, roles and grants, and machines publish with API keys whose scope can be restricted.  Crash reports are mapped
  back to source positions through indexes of the uploaded source maps.

  \<^bold>\<open>How Go is read\<close> (\<^verbatim>\<open>Prelude\<close>, \<^verbatim>\<open>GoStrings\<close>, \<^verbatim>\<open>GoStrconv\<close>, \<^verbatim>\<open>GoRegexp\<close>, \<^verbatim>\<open>Base64\<close>).  Strings and byte slices are lists
  of 8-bit characters; integers are \<^verbatim>\<open>int\<close> or \<^verbatim>\<open>nat\<close> where the code's guards keep them in range and words where they wrap
  (\<^verbatim>\<open>BsdiffCodec\<close>, \<^verbatim>\<open>SourceMap\<close>, \<^verbatim>\<open>SymIndex\<close>); a slice access out of range is an error value.  A call that may fail is a
  state-passing function into a sum, \<^verbatim>\<open>('s, 'e, 'a) proc\<close>, and every early return of the source is a branch of it.  A Go
  interface is a record of operations on an arbitrary state (\<^verbatim>\<open>Interfaces\<close>); where a client relies on laws of such an
  interface they are a locale (\<^verbatim>\<open>cache_api\<close>, \<^verbatim>\<open>delivery_reads\<close>, \<^verbatim>\<open>object_store\<close> and others), interpreted on the model of the code
  that provides it.  Errors are the values of \<^verbatim>\<open>Domain\<close>, with \<^verbatim>\<open>errors.Is\<close> on the chain of wrapped errors.

  \<^bold>\<open>Theories and sources.\<close>

  \<^item> \<^verbatim>\<open>BsdiffCodec\<close>, \<^verbatim>\<open>Bsdiff\<close>, \<^verbatim>\<open>BsdiffIndex\<close>: \<^verbatim>\<open>internal/bsdiff\<close>.  \<^verbatim>\<open>Diff\<close> with its sparse index, \<^verbatim>\<open>Patch\<close> on arbitrary
    bytes.  Round trip, totality, termination, equivalence of the word-wise match length with the byte-wise one.
  \<^item> \<^verbatim>\<open>Rollout\<close>, \<^verbatim>\<open>BranchPattern\<close>, \<^verbatim>\<open>BranchRules\<close>, \<^verbatim>\<open>HeaderDict\<close>, \<^verbatim>\<open>SurfBlock\<close>: \<^verbatim>\<open>internal/rollout\<close>, \<^verbatim>\<open>internal/branch\<close>,
    \<^verbatim>\<open>branch_rules.go\<close>, \<^verbatim>\<open>header_dictionary.go\<close>, \<^verbatim>\<open>branch_surf_block.go\<close>, \<^verbatim>\<open>failed_ids.go\<close>.  Bounds and monotonicity of the
    bucket, the glob matcher against a reference matcher, the rule chain, round trips of the headers.
  \<^item> \<^verbatim>\<open>Cache\<close>, \<^verbatim>\<open>RateLimit\<close>: \<^verbatim>\<open>internal/cache\<close> (the in-process cache) and \<^verbatim>\<open>internal/ratelimit\<close>.  Expiry, exclusion of
    locks, the fixed window.
  \<^item> \<^verbatim>\<open>Domain\<close>, \<^verbatim>\<open>Database\<close>, \<^verbatim>\<open>Repositories\<close>, \<^verbatim>\<open>Interfaces\<close>, \<^verbatim>\<open>Validation\<close>: \<^verbatim>\<open>internal/types\<close>, the tables of the migrations and
    the statements of \<^verbatim>\<open>queries.sql.go\<close>, the Postgres repositories, \<^verbatim>\<open>internal/validation\<close> and the object keys.  A table is
    a list of row records; a statement is a function on the database that reports a violated constraint as an error.
  \<^item> \<^verbatim>\<open>Lifecycle\<close>: the step relation of the statements, in any order and by any callers, with the invariants of the reachable
    databases (the control of an active rollout, tenants, references).  Everything that publishing and management write is a
    step, deleting an app too.  The import of a history is a step only onto a target without a rollout, since
    its statement has no rollout guard; every property about reachable databases depends on that restriction.
  \<^item> \<^verbatim>\<open>Delivery\<close>, \<^verbatim>\<open>Transparency\<close>, \<^verbatim>\<open>Resolution\<close>, \<^verbatim>\<open>World\<close>, \<^verbatim>\<open>ServedUpdates\<close>: \<^verbatim>\<open>protocol_cache.go\<close> and
    \<^verbatim>\<open>expo_protocol_service.go\<close>.  \<^verbatim>\<open>Resolution\<close> is the specification of what a device is told; \<^verbatim>\<open>World\<close> is one server process
    (database, cache, clock, audit log, started jobs); \<^verbatim>\<open>ServedUpdates\<close> proves that the process refines the specification.
  \<^item> \<^verbatim>\<open>Manifest\<close>, \<^verbatim>\<open>Management\<close>, \<^verbatim>\<open>Deployment\<close>, \<^verbatim>\<open>Progression\<close>: \<^verbatim>\<open>internal/update\<close>, \<^verbatim>\<open>update_service.go\<close>, \<^verbatim>\<open>prewarm.go\<close>, the
    channel, branch, deployment and rollout services.  \<^verbatim>\<open>Administration\<close>, \<^verbatim>\<open>Publishing\<close> and \<^verbatim>\<open>Staging\<close> prove what they do on
    a server process: what devices are answered before and after, and what a failure leaves behind.
  \<^item> \<^verbatim>\<open>Accounts\<close>, \<^verbatim>\<open>Sessions\<close>, \<^verbatim>\<open>Revocation\<close>: accounts and refresh tokens, \<^verbatim>\<open>user_service.go\<close>,
    \<^verbatim>\<open>dashboard_auth_service.go\<close>.  Revocation is final, replay ends a family, an enabled admin remains.
  \<^item> \<^verbatim>\<open>Access\<close>: \<^verbatim>\<open>ee/rbac\<close>, roles, grants and the guards of routes.  \<^verbatim>\<open>ApiKeys\<close>, \<^verbatim>\<open>KeyScope\<close>: \<^verbatim>\<open>api_key_service.go\<close>,
    \<^verbatim>\<open>ee/apikeyrestrictions\<close> and the guard of the publish routes.
  \<^item> \<^verbatim>\<open>SourceMap\<close>, \<^verbatim>\<open>SymIndex\<close>, \<^verbatim>\<open>SymLookup\<close>, \<^verbatim>\<open>IndexCache\<close>, \<^verbatim>\<open>Symbolicate\<close>, \<^verbatim>\<open>SymTrace\<close>: \<^verbatim>\<open>ee/symbolication\<close>.  The parser reads back
    what a bundler writes, the index answers as the map does, and a trace is mapped to the positions the map gives.
  \<^item> \<^verbatim>\<open>Buckets\<close>, \<^verbatim>\<open>LocalStore\<close>: \<^verbatim>\<open>internal/bucket\<close> and \<^verbatim>\<open>internal/objectstore\<close>.  The layout over any store that keeps the contract
    \<^verbatim>\<open>object_store\<close>, and the driver for a directory, with failing file system calls, which keeps it.

  \<^bold>\<open>Parameters and hypotheses.\<close>  What is not in \<^verbatim>\<open>src/\<close> is an argument of the definitions that use it: the bzip2 package, SHA-256,
  bcrypt, the JWT package, the UUID parser, \<^verbatim>\<open>net/netip\<close>'s text forms, the JSON codec, the clock and the polls of a context.  A
  theorem that relies on one of them names what it relies on (a reader inverts the compressor, a signed token verifies, a decoder
  inverts its encoder) as a hypothesis, and a witness instantiates it.  SQL statements are translated to functions on the rows;
  Postgres itself, transaction isolation included, is taken to run each statement as one step, and a transaction as the code
  brackets it.

  \<^bold>\<open>Caches and staleness.\<close>  The delivery path reads through a cache, and some of its keys are only dropped by their time to live.  The properties of
  \<^verbatim>\<open>ServedUpdates\<close> are about a process whose live entries agree with its database (\<^verbatim>\<open>serving_world\<close>: missing and
  expired entries are allowed); \<^verbatim>\<open>Publishing\<close>, \<^verbatim>\<open>Staging\<close> and \<^verbatim>\<open>Administration\<close> prove which keys the writers purge.  What a process answers from a
  stale entry, until it expires, is not stated.

  \<^bold>\<open>Concurrency.\<close>  Methods that hold a mutex, and statements, are single steps; the step relations interleave them freely.  A
  request runs as one step on its process except where a theorem quantifies over the steps between.  A \<^verbatim>\<open>go\<close> statement queues a
  job in the state.  Workers of an \<^verbatim>\<open>errgroup\<close> that touch different objects run one after the other.

  \<^bold>\<open>Termination and fuel.\<close>  Recursions follow the data or have a proved measure.  The main loop of
  \<^verbatim>\<open>Diff\<close>, whose progress depends on the searcher, is a \<^verbatim>\<open>partial_function\<close> into an option, where not returning and leaving an
  array are \<^verbatim>\<open>None\<close>; \<^verbatim>\<open>BsdiffIndex.Diff_terminates\<close> proves that \<^verbatim>\<open>Diff\<close> returns on all inputs.

  \<^bold>\<open>Not modelled.\<close>  Handlers, router, configuration and the MCP tools decode a request, call a service and encode the
  answer.  The drivers for S3, GCS, Azure, Redis, the CDNs, the job queue and ClickHouse call third-party SDKs.  The suffix-array
  searcher serves the tests of \<^verbatim>\<open>Diff\<close> only.  Single sign-on, device identity, OAuth, the audit and
  licensing services and the observability queries are components of their own: the services see the first through the
  session and role checks, and the audit seam as a record function.  Accounts that single sign-on provisions are not steps of the account
  model.  Of the import of update history only the statement that inserts a row is modelled.  The service that stores source maps
  and fetches their indexes is left out; the parser, the index and its cache, and the symbolication are modelled.  The
  bucket repositories of the stateless mode and the layout migrations are left for the same reason.  The JSON schemas of
  requests and the texts of log lines have no model.
\<close>

end
